(* ===== verification/Prelude.thy ===== *)
theory Prelude
  imports Main "HOL-Library.AList" "HOL-Library.Multiset" "HOL-Library.Word"
begin

text \<open>
  The prelude of the development: what every component theory shares.

  \<^item> results: a Rust \<open>Result<T, E>\<close> is the sum \<open>'e + 'a\<close>, with \<open>Err\<close> for \<open>Inl\<close> and
    \<open>Ok\<close> for \<open>Inr\<close>;
  \<^item> time: a \<open>DateTime<Utc>\<close> and an \<open>Instant\<close> are an \<open>int\<close> of nanoseconds, a \<open>Duration\<close>
    is a difference of two;
  \<^item> text: a Rust \<open>String\<close> is the list of its UTF-8 bytes, a HOL \<open>string\<close>; the functions of
    the standard library the services call on text (\<open>split\<close>, \<open>split_once\<close>, \<open>trim\<close>,
    \<open>eq_ignore_ascii_case\<close> and so on) are defined here;
  \<^item> a \<open>HashMap\<close> is an association list with distinct keys; the order of the list stands for
    the unspecified iteration order, so no theorem may depend on it;
  \<^item> the named collections \<open>bff_simps\<close> (unfolding of handlers) and \<open>wf_intros\<close>
    (preservation of invariants).
\<close>

named_theorems bff_simps \<open>definitions of handlers, unfolded case by case\<close>
named_theorems wf_intros \<open>an operation preserves its component's invariant\<close>

section \<open>Results\<close>

abbreviation Err :: "'e \<Rightarrow> 'e + 'a" where "Err \<equiv> Inl"
abbreviation Ok :: "'a \<Rightarrow> 'e + 'a" where "Ok \<equiv> Inr"

definition is_ok :: "'e + 'a \<Rightarrow> bool" where
  "is_ok r = (case r of Inl _ \<Rightarrow> False | Inr _ \<Rightarrow> True)"

definition ok_or :: "'a option \<Rightarrow> 'e \<Rightarrow> 'e + 'a" where
  "ok_or x e = (case x of None \<Rightarrow> Err e | Some a \<Rightarrow> Ok a)"

definition map_err :: "('e \<Rightarrow> 'f) \<Rightarrow> 'e + 'a \<Rightarrow> 'f + 'a" where
  "map_err f r = (case r of Inl e \<Rightarrow> Err (f e) | Inr a \<Rightarrow> Ok a)"

definition opt_filter :: "('a \<Rightarrow> bool) \<Rightarrow> 'a option \<Rightarrow> 'a option" where
  "opt_filter p x = (case x of None \<Rightarrow> None | Some a \<Rightarrow> if p a then Some a else None)"

definition opt_or :: "'a option \<Rightarrow> 'a option \<Rightarrow> 'a option" where
  "opt_or x y = (case x of None \<Rightarrow> y | Some a \<Rightarrow> Some a)"

definition is_some_and :: "('a \<Rightarrow> bool) \<Rightarrow> 'a option \<Rightarrow> bool" where
  "is_some_and p x = (case x of None \<Rightarrow> False | Some a \<Rightarrow> p a)"

definition is_none_or :: "('a \<Rightarrow> bool) \<Rightarrow> 'a option \<Rightarrow> bool" where
  "is_none_or p x = (case x of None \<Rightarrow> True | Some a \<Rightarrow> p a)"

lemma is_ok_simps [simp]: "is_ok (Inl e) = False" "is_ok (Inr a) = True"
  by (simp_all add: is_ok_def)

lemma ok_or_simps [simp]: "ok_or None e = Inl e" "ok_or (Some a) e = Inr a"
  by (simp_all add: ok_or_def)

lemma ok_or_Ok [simp]: "ok_or x e = Inr a \<longleftrightarrow> x = Some a"
  by (cases x) simp_all

lemma map_err_simps [simp]: "map_err f (Inl e) = Inl (f e)" "map_err f (Inr a) = Inr a"
  by (simp_all add: map_err_def)

lemma map_err_Ok [simp]: "map_err f r = Inr a \<longleftrightarrow> r = Inr a"
  by (cases r) simp_all

lemma opt_filter_simps [simp]:
  "opt_filter p None = None" "opt_filter p (Some a) = (if p a then Some a else None)"
  by (simp_all add: opt_filter_def)

lemma opt_filter_Some [simp]: "opt_filter p x = Some a \<longleftrightarrow> x = Some a \<and> p a"
  by (cases x) auto

lemma opt_or_simps [simp]: "opt_or None y = y" "opt_or (Some a) y = Some a"
  by (simp_all add: opt_or_def)

lemma is_some_and_simps [simp]: "is_some_and p None = False" "is_some_and p (Some a) = p a"
  by (simp_all add: is_some_and_def)

lemma is_none_or_simps [simp]: "is_none_or p None = True" "is_none_or p (Some a) = p a"
  by (simp_all add: is_none_or_def)

section \<open>Time\<close>

type_synonym time = int
type_synonym duration = int

definition seconds :: "int \<Rightarrow> duration" where
  "seconds n = n * 1000000000"

definition num_seconds :: "duration \<Rightarrow> int" where
  \<comment> \<open>chrono's \<open>num_seconds\<close> truncates towards zero\<close>
  "num_seconds d = (if 0 \<le> d then d div 1000000000 else - ((- d) div 1000000000))"

lemma num_seconds_seconds [simp]: "num_seconds (seconds n) = n"
proof (cases "0 \<le> n")
  case True
  then show ?thesis by (simp add: num_seconds_def seconds_def)
next
  case False
  have "- (n * 1000000000) div 1000000000 = - n"
    by (metis minus_mult_left nonzero_mult_div_cancel_right zero_neq_numeral)
  with False show ?thesis by (simp add: num_seconds_def seconds_def)
qed

lemma seconds_mono [simp]: "seconds a \<le> seconds b \<longleftrightarrow> a \<le> b" "seconds a < seconds b \<longleftrightarrow> a < b"
  by (simp_all add: seconds_def)

lemma seconds_0 [simp]: "seconds 0 = 0"
  by (simp add: seconds_def)

lemma seconds_pos [simp]: "0 \<le> seconds a \<longleftrightarrow> 0 \<le> a" "0 < seconds a \<longleftrightarrow> 0 < a"
  by (simp_all add: seconds_def zero_le_mult_iff zero_less_mult_iff)

section \<open>Text of the Rust standard library\<close>

definition byte :: "char \<Rightarrow> nat" where
  "byte c = of_char c"

definition ascii_lower :: "char \<Rightarrow> char" where
  "ascii_lower c = (if 65 \<le> byte c \<and> byte c \<le> 90 then char_of (byte c + 32) else c)"

definition to_ascii_lowercase :: "string \<Rightarrow> string" where
  "to_ascii_lowercase s = map ascii_lower s"

definition eq_ignore_ascii_case :: "string \<Rightarrow> string \<Rightarrow> bool" where
  "eq_ignore_ascii_case a b \<longleftrightarrow> to_ascii_lowercase a = to_ascii_lowercase b"

definition is_ascii :: "string \<Rightarrow> bool" where
  "is_ascii s = list_all (\<lambda>c. byte c < 128) s"

definition is_ascii_alphanumeric :: "char \<Rightarrow> bool" where
  "is_ascii_alphanumeric c = (let b = byte c in
     (48 \<le> b \<and> b \<le> 57) \<or> (65 \<le> b \<and> b \<le> 90) \<or> (97 \<le> b \<and> b \<le> 122))"

definition is_ascii_graphic :: "char \<Rightarrow> bool" where
  "is_ascii_graphic c = (33 \<le> byte c \<and> byte c \<le> 126)"

fun split_on :: "'a \<Rightarrow> 'a list \<Rightarrow> 'a list list" where
  "split_on c [] = [[]]"
| "split_on c (x # xs) =
     (if x = c then [] # split_on c xs
      else (case split_on c xs of [] \<Rightarrow> [[x]] | y # ys \<Rightarrow> (x # y) # ys))"

fun split_once :: "'a \<Rightarrow> 'a list \<Rightarrow> ('a list \<times> 'a list) option" where
  "split_once c [] = None"
| "split_once c (x # xs) =
     (if x = c then Some ([], xs)
      else map_option (\<lambda>(a, b). (x # a, b)) (split_once c xs))"

fun strip_prefix :: "'a list \<Rightarrow> 'a list \<Rightarrow> 'a list option" where
  "strip_prefix [] s = Some s"
| "strip_prefix (p # ps) [] = None"
| "strip_prefix (p # ps) (x # xs) = (if p = x then strip_prefix ps xs else None)"

definition starts_with :: "'a list \<Rightarrow> 'a list \<Rightarrow> bool" where
  "starts_with s p = (strip_prefix p s \<noteq> None)"

definition trim_end_matches :: "('a \<Rightarrow> bool) \<Rightarrow> 'a list \<Rightarrow> 'a list" where
  "trim_end_matches p s = rev (dropWhile p (rev s))"

text \<open>\<open>str::trim\<close> strips Unicode white space; on UTF-8 bytes that is a prefix (or suffix) of one,
  two or three bytes at a time.\<close>

definition ws1 :: "nat \<Rightarrow> bool" where
  "ws1 a = ((9 \<le> a \<and> a \<le> 13) \<or> a = 32)"

definition ws2 :: "nat \<Rightarrow> nat \<Rightarrow> bool" where
  "ws2 a b = (a = 0xC2 \<and> (b = 0x85 \<or> b = 0xA0))"

definition ws3 :: "nat \<Rightarrow> nat \<Rightarrow> nat \<Rightarrow> bool" where
  "ws3 a b c =
     ((a = 0xE1 \<and> b = 0x9A \<and> c = 0x80)
      \<or> (a = 0xE2 \<and> b = 0x80 \<and> ((0x80 \<le> c \<and> c \<le> 0x8A) \<or> c = 0xA8 \<or> c = 0xA9 \<or> c = 0xAF))
      \<or> (a = 0xE2 \<and> b = 0x81 \<and> c = 0x9F)
      \<or> (a = 0xE3 \<and> b = 0x80 \<and> c = 0x80))"

fun trim_start :: "string \<Rightarrow> string" where
  "trim_start (x # y # z # s) =
     (if ws1 (byte x) then trim_start (y # z # s)
      else if ws2 (byte x) (byte y) then trim_start (z # s)
      else if ws3 (byte x) (byte y) (byte z) then trim_start s
      else x # y # z # s)"
| "trim_start [x, y] =
     (if ws1 (byte x) then trim_start [y] else if ws2 (byte x) (byte y) then [] else [x, y])"
| "trim_start [x] = (if ws1 (byte x) then [] else [x])"
| "trim_start [] = []"

fun trim_start_rev :: "string \<Rightarrow> string" where
  "trim_start_rev (x # y # z # s) =
     (if ws1 (byte x) then trim_start_rev (y # z # s)
      else if ws2 (byte y) (byte x) then trim_start_rev (z # s)
      else if ws3 (byte z) (byte y) (byte x) then trim_start_rev s
      else x # y # z # s)"
| "trim_start_rev [x, y] =
     (if ws1 (byte x) then trim_start_rev [y] else if ws2 (byte y) (byte x) then [] else [x, y])"
| "trim_start_rev [x] = (if ws1 (byte x) then [] else [x])"
| "trim_start_rev [] = []"

definition trim :: "string \<Rightarrow> string" where
  "trim s = rev (trim_start_rev (rev (trim_start s)))"

definition join_with :: "'a list \<Rightarrow> 'a list list \<Rightarrow> 'a list" where
  "join_with sep parts = (case parts of [] \<Rightarrow> [] | p # ps \<Rightarrow> p @ concat (map (\<lambda>q. sep @ q) ps))"

subsection \<open>Lemmas on text\<close>

lemma split_on_nonempty [simp]: "split_on c s \<noteq> []"
  by (induction s) (auto split: list.splits)

lemma split_on_no_sep: "c \<notin> set s \<Longrightarrow> split_on c s = [s]"
  by (induction s) auto

lemma split_on_append_sep:
  "c \<notin> set a \<Longrightarrow> split_on c (a @ c # b) = a # split_on c b"
  by (induction a) auto

lemma split_on_parts_no_sep: "p \<in> set (split_on c s) \<Longrightarrow> c \<notin> set p"
  by (induction s arbitrary: p) (auto split: if_splits list.splits)

lemma split_on_join: "join_with [c] (split_on c s) = s"
proof (induction s)
  case Nil
  show ?case by (simp add: join_with_def)
next
  case (Cons x s)
  then show ?case
    by (cases "split_on c s") (auto simp: join_with_def)
qed

lemma set_split_on_subset: "p \<in> set (split_on c s) \<Longrightarrow> set p \<subseteq> set s"
  by (induction s arbitrary: p) (fastforce split: if_splits list.splits)+

lemma split_once_Some: "split_once c s = Some (a, b) \<longleftrightarrow> s = a @ c # b \<and> c \<notin> set a"
proof (induction s arbitrary: a)
  case Nil
  then show ?case by simp
next
  case (Cons x xs)
  then show ?case by (cases a) auto
qed

lemma split_once_append: "c \<notin> set a \<Longrightarrow> split_once c (a @ c # b) = Some (a, b)"
  by (simp add: split_once_Some)

lemma strip_prefix_Some: "strip_prefix p s = Some r \<longleftrightarrow> s = p @ r"
  by (induction p s rule: strip_prefix.induct) auto

lemma starts_with_iff: "starts_with s p \<longleftrightarrow> (\<exists>r. s = p @ r)"
  by (auto simp: starts_with_def strip_prefix_Some)

lemma trim_end_matches_idem [simp]:
  "trim_end_matches p (trim_end_matches p s) = trim_end_matches p s"
  by (simp add: trim_end_matches_def)

lemma trim_end_matches_append:
  "list_all p t \<Longrightarrow> trim_end_matches p (s @ t) = trim_end_matches p s"
  by (auto simp: trim_end_matches_def dropWhile_append list_all_iff)

lemma trim_end_matches_last:
  "s \<noteq> [] \<Longrightarrow> \<not> p (last s) \<Longrightarrow> trim_end_matches p s = s"
  by (cases s rule: rev_cases) (auto simp: trim_end_matches_def)

lemma eq_ignore_ascii_case_refl [simp]: "eq_ignore_ascii_case a a"
  by (simp add: eq_ignore_ascii_case_def)

lemma eq_ignore_ascii_case_sym: "eq_ignore_ascii_case a b \<Longrightarrow> eq_ignore_ascii_case b a"
  by (simp add: eq_ignore_ascii_case_def)

lemma trim_start_plain: "s = [] \<or> (byte (hd s) < 128 \<and> \<not> ws1 (byte (hd s))) \<Longrightarrow> trim_start s = s"
  by (cases s rule: trim_start.cases) (auto simp: ws2_def ws3_def)

lemma trim_start_rev_plain:
  "s = [] \<or> (byte (hd s) < 128 \<and> \<not> ws1 (byte (hd s))) \<Longrightarrow> trim_start_rev s = s"
  by (cases s rule: trim_start_rev.cases) (auto simp: ws2_def ws3_def)

text \<open>Text whose first and last bytes are ASCII and not white space is left alone.\<close>

lemma trim_plain:
  assumes "s \<noteq> []" "byte (hd s) < 128" "\<not> ws1 (byte (hd s))"
    "byte (last s) < 128" "\<not> ws1 (byte (last s))"
  shows "trim s = s"
  using assms by (simp add: trim_def trim_start_plain trim_start_rev_plain hd_rev)

lemma trim_start_space: "trim_start (CHR '' '' # s) = trim_start s"
  by (cases s rule: trim_start.cases) (simp_all add: byte_def ws1_def)

section \<open>Association lists as hash maps\<close>

lemma distinct_update [simp]:
  "distinct (map fst al) \<Longrightarrow> distinct (map fst (AList.update k v al))"
  by (rule AList.distinct_update)

lemma distinct_delete [simp]:
  "distinct (map fst al) \<Longrightarrow> distinct (map fst (AList.delete k al))"
  by (rule AList.distinct_delete)

lemma map_of_update [simp]: "map_of (AList.update k v al) = (map_of al)(k \<mapsto> v)"
  by (rule AList.update_conv')

lemma map_of_delete [simp]: "map_of (AList.delete k al) = (map_of al)(k := None)"
  by (rule AList.delete_conv')

lemma distinct_filter_fst [simp]:
  "distinct (map fst al) \<Longrightarrow> distinct (map fst (filter p al))"
  by (induction al) auto

lemma map_of_filter_value:
  "distinct (map fst al) \<Longrightarrow>
   map_of (filter (\<lambda>(k, v). p v) al) k = opt_filter p (map_of al k)"
proof (induction al)
  case Nil
  then show ?case by simp
next
  case (Cons kv al)
  obtain k' v' where kv: "kv = (k', v')" by fastforce
  have "k' \<notin> fst ` set (filter (\<lambda>(k, v). p v) al)"
    using Cons.prems kv by auto
  then have "map_of (filter (\<lambda>(k, v). p v) al) k' = None"
    by (simp add: map_of_eq_None_iff)
  with Cons kv show ?case by auto
qed

lemma mset_delete_map_of:
  assumes "distinct (map fst al)" "map_of al k = Some v"
  shows "mset al = add_mset (k, v) (mset (AList.delete k al))"
  using assms
proof (induction al)
  case Nil
  then show ?case by simp
next
  case (Cons kv al)
  obtain k' v' where kv: "kv = (k', v')" by fastforce
  show ?case
  proof (cases "k' = k")
    case True
    with Cons.prems kv have "k \<notin> fst ` set al" "v' = v" by auto
    then have "AList.delete k al = al" by (simp add: AList.delete_idem)
    with True kv \<open>v' = v\<close> show ?thesis by (simp add: AList.delete_eq)
  next
    case False
    with Cons kv show ?thesis by (simp add: AList.delete_eq)
  qed
qed

lemma length_delete_Some:
  "distinct (map fst al) \<Longrightarrow> map_of al k = Some v \<Longrightarrow> length al = Suc (length (AList.delete k al))"
  using mset_delete_map_of [of al k v] by (metis size_mset size_add_mset)

lemma update_fresh: "k \<notin> fst ` set al \<Longrightarrow> AList.update k v al = al @ [(k, v)]"
  by (induction al) auto

lemma length_update:
  "length (AList.update k v al) = (if k \<in> fst ` set al then length al else Suc (length al))"
  by (induction al) auto

end
