(* ===== verification/Web.thy ===== *)
theory Web
  imports Prelude
begin

text \<open>
  The vocabulary of HTTP and JSON the services share, and the third-party functions they call.

  A header map (\<open>http::HeaderMap\<close>) is the list of its fields, names in lower case, values as
  bytes. A JSON document is the tree \<open>serde_json\<close> reads, with the members of an object in the
  order of the text. What the services take from crates whose source is not theirs (percent and
  base64 encoding, SHA-256, the URL parser and so on) is a field of the record \<open>libs\<close>, an argument
  of every definition that uses it.
\<close>

section \<open>Header maps\<close>

type_synonym headers = "(string \<times> string) list"

definition header_get :: "headers \<Rightarrow> string \<Rightarrow> string option" where
  "header_get h name = map_of h name"

definition header_get_all :: "headers \<Rightarrow> string \<Rightarrow> string list" where
  "header_get_all h name = map snd (filter (\<lambda>(n, v). n = name) h)"

definition header_contains :: "headers \<Rightarrow> string \<Rightarrow> bool" where
  "header_contains h name \<longleftrightarrow> name \<in> fst ` set h"

definition header_insert :: "headers \<Rightarrow> string \<Rightarrow> string \<Rightarrow> headers" where
  "header_insert h name v = filter (\<lambda>(n, _). n \<noteq> name) h @ [(name, v)]"

definition header_append :: "headers \<Rightarrow> string \<Rightarrow> string \<Rightarrow> headers" where
  "header_append h name v = h @ [(name, v)]"

definition header_remove :: "headers \<Rightarrow> string \<Rightarrow> headers" where
  "header_remove h name = filter (\<lambda>(n, _). n \<noteq> name) h"

lemma header_get_all_append [simp]:
  "header_get_all (h @ h') n = header_get_all h n @ header_get_all h' n"
  by (simp add: header_get_all_def)

lemma header_get_all_insert [simp]:
  "header_get_all (header_insert h m v) n = (if n = m then [v] else header_get_all h n)"
  by (induction h) (auto simp: header_get_all_def header_insert_def)

lemma header_get_all_header_append [simp]:
  "header_get_all (header_append h m v) n = header_get_all h n @ (if n = m then [v] else [])"
  by (auto simp: header_get_all_def header_append_def)

lemma header_get_all_remove [simp]:
  "header_get_all (header_remove h m) n = (if n = m then [] else header_get_all h n)"
  by (induction h) (auto simp: header_get_all_def header_remove_def)

lemma header_contains_get_all: "header_contains h n \<longleftrightarrow> header_get_all h n \<noteq> []"
  by (force simp: header_contains_def header_get_all_def filter_empty_conv)

lemma header_get_hd:
  "header_get h n = (case header_get_all h n of [] \<Rightarrow> None | v # _ \<Rightarrow> Some v)"
  by (induction h) (auto simp: header_get_def header_get_all_def)

lemma header_get_insert [simp]:
  "header_get (header_insert h m v) n = (if n = m then Some v else header_get h n)"
  by (simp add: header_get_hd)

section \<open>JSON\<close>

datatype json =
    JNull
  | JBool bool
  | JInt int
  | JFloat string
  | JStr string
  | JArr "json list"
  | JObj "(string \<times> json) list"

text \<open>\<open>Value::get\<close> with a key; of two members of one name \<open>serde_json\<close> keeps the last.\<close>

fun json_get :: "json \<Rightarrow> string \<Rightarrow> json option" where
  "json_get (JObj kvs) k = map_of (rev kvs) k"
| "json_get _ k = None"

fun as_str :: "json \<Rightarrow> string option" where
  "as_str (JStr s) = Some s"
| "as_str _ = None"

definition i64_range :: "int \<Rightarrow> bool" where
  "i64_range n \<longleftrightarrow> - (2 ^ 63) \<le> n \<and> n < 2 ^ 63"

fun as_i64 :: "json \<Rightarrow> int option" where
  "as_i64 (JInt n) = (if i64_range n then Some n else None)"
| "as_i64 _ = None"

fun as_bool :: "json \<Rightarrow> bool option" where
  "as_bool (JBool b) = Some b"
| "as_bool _ = None"

fun as_array :: "json \<Rightarrow> json list option" where
  "as_array (JArr xs) = Some xs"
| "as_array _ = None"

fun is_object :: "json \<Rightarrow> bool" where
  "is_object (JObj _) = True"
| "is_object _ = False"

text \<open>What a derived \<open>Deserialize\<close> of a struct reads: the members of an object by name, none of
  the struct's twice, or an array of all the fields in order.\<close>

fun struct_fields :: "string list \<Rightarrow> json \<Rightarrow> (string \<Rightarrow> json option) option" where
  "struct_fields names (JObj kvs) =
     (if list_all (\<lambda>n. length (filter (\<lambda>(k, _). k = n) kvs) \<le> 1) names
      then Some (map_of kvs) else None)"
| "struct_fields names (JArr xs) =
     (if length xs = length names then Some (map_of (zip names xs)) else None)"
| "struct_fields names _ = None"

definition de_string :: "json option \<Rightarrow> string option" where
  "de_string v = Option.bind v as_str"

definition de_opt :: "(json \<Rightarrow> 'a option) \<Rightarrow> json option \<Rightarrow> 'a option option" where
  "de_opt f v = (case v of None \<Rightarrow> Some None | Some JNull \<Rightarrow> Some None | Some j \<Rightarrow> map_option Some (f j))"

section \<open>Responses of upstreams\<close>

text \<open>An answered request: its status, and what reading its body as JSON gave (\<open>Inl\<close> the cause it
  could not be read). A request that was not answered is \<open>Inl\<close> the cause.\<close>

record reply =
  reply_status :: nat
  reply_json :: "string + json"

type_synonym sent = "string + reply"

definition is_success :: "nat \<Rightarrow> bool" where
  "is_success status \<longleftrightarrow> 200 \<le> status \<and> status < 300"

section \<open>Third-party functions\<close>

datatype ip_addr = V4 "32 word" | V6 "128 word"

datatype ip_net = Net4 "32 word" nat | Net6 "128 word" nat

datatype url_host = Domain string | HostV4 "32 word" | HostV6 "128 word"

record url =
  url_scheme :: string
  url_username :: string
  url_password :: "string option"
  url_host_of :: "url_host option"
  url_path :: string
  url_query :: "string option"
  url_fragment :: "string option"
  url_origin :: string

text \<open>
  \<^item> \<open>header_str\<close>: \<open>HeaderValue::to_str\<close>; \<open>header_value\<close>: whether text is a legal header value;
  \<^item> \<open>pct_decode\<close>: \<open>percent_decode_str\<close> then \<open>decode_utf8_lossy\<close>; \<open>pct_encode\<close>:
    \<open>utf8_percent_encode\<close> of everything but unreserved characters; \<open>form_text\<close>:
    \<open>form_urlencoded::byte_serialize\<close>;
  \<^item> \<open>b64_encode\<close>, \<open>b64_decode\<close>: base64 with the URL alphabet and no padding;
  \<^item> \<open>json_write\<close>, \<open>json_read\<close>: \<open>serde_json\<close>; \<open>json_cause\<close>: its message when a document does not
    fit the type it is read as;
  \<^item> \<open>sha256\<close>: the digest; \<open>parse_url\<close>, \<open>parse_uuid\<close>, \<open>utc_timestamp\<close>: \<open>Url::parse\<close>,
    \<open>Uuid::parse_str\<close> and \<open>Utc.timestamp_opt(_, 0).single()\<close>;
  \<^item> \<open>utf8_lossy\<close>: \<open>String::from_utf8_lossy\<close>; \<open>parse_ip\<close>, \<open>parse_socket\<close>: the parsers of an
    \<open>IpAddr\<close> and of the address of a \<open>SocketAddr\<close>. Every result holds for any parser.
\<close>

record libs =
  header_str :: "string \<Rightarrow> string option"
  header_value :: "string \<Rightarrow> bool"
  pct_decode :: "string \<Rightarrow> string"
  pct_encode :: "string \<Rightarrow> string"
  form_text :: "string \<Rightarrow> string"
  b64_encode :: "string \<Rightarrow> string"
  b64_decode :: "string \<Rightarrow> string option"
  json_write :: "json \<Rightarrow> string"
  json_read :: "string \<Rightarrow> json option"
  json_cause :: "json \<Rightarrow> string"
  sha256 :: "string \<Rightarrow> 8 word list"
  parse_url :: "string \<Rightarrow> url option"
  parse_uuid :: "string \<Rightarrow> (128 word) option"
  utc_timestamp :: "int \<Rightarrow> time option"
  utf8_lossy :: "string \<Rightarrow> string"
  parse_ip :: "string \<Rightarrow> ip_addr option"
  parse_socket :: "string \<Rightarrow> ip_addr option"

text \<open>The query of \<open>form_urlencoded::Serializer\<close>: the pairs in order, each side encoded.\<close>

definition form_pair :: "libs \<Rightarrow> string \<times> string \<Rightarrow> string" where
  "form_pair L p = form_text L (fst p) @ ''='' @ form_text L (snd p)"

definition form_encode :: "libs \<Rightarrow> (string \<times> string) list \<Rightarrow> string" where
  "form_encode L pairs = join_with ''&'' (map (form_pair L) pairs)"

text \<open>Functions to run examples with: no character needs an escape, every text is a URL without
  parts, and JSON text is only that of the documents the examples use.\<close>

definition ascii_str :: "string \<Rightarrow> string option" where
  "ascii_str s = (if list_all (\<lambda>c. byte c = 9 \<or> (32 \<le> byte c \<and> byte c < 127)) s then Some s else None)"

definition demo_libs :: libs where
  "demo_libs = \<lparr>header_str = ascii_str, header_value = (\<lambda>s. ascii_str s \<noteq> None),
     pct_decode = id, pct_encode = id, form_text = id, b64_encode = id, b64_decode = Some,
     json_write = (\<lambda>j. ''''), json_read = (\<lambda>s. None), json_cause = (\<lambda>j. ''unexpected''),
     sha256 = (\<lambda>s. map (\<lambda>c. word_of_nat (byte c)) s),
     parse_url = (\<lambda>s. Some \<lparr>url_scheme = ''https'', url_username = '''', url_password = None,
        url_host_of = Some (Domain s), url_path = ''/'', url_query = None, url_fragment = None, url_origin = s\<rparr>),
     parse_uuid = (\<lambda>s. if s = [] then None else Some (word_of_nat (byte (hd s)))),
     utc_timestamp = (\<lambda>n. Some (seconds n)), utf8_lossy = id,
     parse_ip = (\<lambda>s. if s = [] then None else Some (V4 (word_of_nat (byte (hd s))))),
     parse_socket = (\<lambda>s. None)\<rparr>"

lemmas demo_libs_simps = demo_libs_def ascii_str_def

section \<open>Responses\<close>

record response =
  rsp_status :: nat
  rsp_headers :: headers

text \<open>What the derived \<open>ErrorResponses\<close> answers for an error: its status, the name of its variant and
  a fixed text.\<close>

record error_response =
  er_status :: nat
  er_reason :: string
  er_details :: string

end
