(* ===== verification/Cookie.thy ===== *)
theory Cookie
  imports Web
begin

text \<open>
  Secrets and cookies of bff: \<open>bff/src/server/secrets.rs\<close> (the comparison of secrets and the PKCE
  challenge), \<open>cookie.rs\<close> (reading and writing cookies) and \<open>login_cookie.rs\<close> (the cookie that
  carries a login from \<open>/login\<close> to \<open>/callback\<close>).
\<close>

section \<open>Secrets\<close>

definition pkce_challenge :: "libs \<Rightarrow> string \<Rightarrow> string" where
  "pkce_challenge L verifier =
     b64_encode L (map (\<lambda>b. char_of (unat b)) (sha256 L verifier))"

definition constant_time_eq :: "libs \<Rightarrow> string \<Rightarrow> string \<Rightarrow> bool" where
  "constant_time_eq L a b =
     (foldl (\<lambda>diff (x, y). or diff (xor x y)) (0 :: 8 word) (zip (sha256 L a) (sha256 L b)) = 0)"

lemma or_eq_0_word: "or (x :: 'a :: len word) y = 0 \<longleftrightarrow> x = 0 \<and> y = 0"
  by (auto simp: or_eq_0_iff)

lemma xor_eq_0_word: "xor (x :: 'a :: len word) y = 0 \<longleftrightarrow> x = y"
proof
  assume "xor x y = 0"
  then have "xor (xor x y) y = y" by simp
  then show "x = y" unfolding xor.assoc xor_self_eq xor.right_neutral .
qed simp

text \<open>The fold that never stops early finds exactly whether all the digits agree.\<close>

lemma fold_diff_0:
  "foldl (\<lambda>diff (x, y). or diff (xor x y)) (acc :: 8 word) ps = 0 \<longleftrightarrow>
     acc = 0 \<and> list_all (\<lambda>(x, y). x = y) ps"
proof (induction ps arbitrary: acc)
  case Nil
  show ?case by (simp only: foldl_Nil list.pred_inject simp_thms)
next
  case (Cons p ps)
  show ?case
    by (cases p)
      (simp only: foldl_Cons list.pred_inject prod.case Cons.IH or_eq_0_word xor_eq_0_word conj_assoc)
qed

lemma zip_all_eq: "length xs = length ys \<Longrightarrow> list_all (\<lambda>(x, y). x = y) (zip xs ys) \<longleftrightarrow> xs = ys"
  by (induction xs ys rule: list_induct2) auto

lemma constant_time_eq_digest:
  assumes "\<And>s. length (sha256 L s) = 32"
  shows "constant_time_eq L a b \<longleftrightarrow> sha256 L a = sha256 L b"
  using assms by (simp add: constant_time_eq_def fold_diff_0 zip_all_eq)

lemma constant_time_eq_refl: "constant_time_eq L a a"
proof -
  have "list_all (\<lambda>(x, y). x = y) (zip xs xs)" for xs :: "8 word list" by (induction xs) simp_all
  then show ?thesis by (simp add: constant_time_eq_def fold_diff_0)
qed

section \<open>Cookies\<close>

text \<open>The value of each pair of the header whose name is the cookie's.\<close>

definition cookie_pair :: "libs \<Rightarrow> string \<Rightarrow> string \<Rightarrow> string option" where
  "cookie_pair L cookie_name pair =
     (case split_once (CHR ''='') (trim pair) of
        None \<Rightarrow> None
      | Some (name, value) \<Rightarrow> if name = cookie_name then Some (pct_decode L value) else None)"

definition extract_cookie :: "libs \<Rightarrow> headers \<Rightarrow> string \<Rightarrow> string option" where
  "extract_cookie L h cookie_name =
     (case Option.bind (header_get h ''cookie'') (header_str L) of
        None \<Rightarrow> None
      | Some cookie_header \<Rightarrow>
          (case List.map_filter (cookie_pair L cookie_name) (split_on (CHR '';'') cookie_header) of
             [value] \<Rightarrow> Some value
           | _ \<Rightarrow> None))"

definition digit :: "nat \<Rightarrow> char" where
  "digit n = char_of (48 + n mod 10)"

fun nat_str :: "nat \<Rightarrow> string" where
  "nat_str n = (if n < 10 then [digit n] else nat_str (n div 10) @ [digit n])"

declare nat_str.simps [simp del]

definition int_str :: "int \<Rightarrow> string" where
  "int_str i = (if i < 0 then ''-'' @ nat_str (nat (- i)) else nat_str (nat i))"

definition cookie_attributes :: "string \<Rightarrow> int \<Rightarrow> bool \<Rightarrow> string" where
  "cookie_attributes path max_age secure =
     ''; HttpOnly; Path='' @ path @ ''; SameSite=Lax'' @ (if secure then ''; Secure'' else '''')
       @ ''; Max-Age='' @ int_str max_age"

definition build_cookie :: "libs \<Rightarrow> string \<Rightarrow> string \<Rightarrow> string \<Rightarrow> int \<Rightarrow> bool \<Rightarrow> string" where
  "build_cookie L name value path max_age secure =
     name @ ''='' @ pct_encode L value @ cookie_attributes path max_age secure"

definition clear_cookie :: "libs \<Rightarrow> string \<Rightarrow> string \<Rightarrow> bool \<Rightarrow> string" where
  "clear_cookie L name path secure = build_cookie L name '''' path 0 secure"

section \<open>The pending login\<close>

definition LOGIN_COOKIE :: string where "LOGIN_COOKIE = ''wa_login''"

definition LOGIN_COOKIE_MAX_AGE_SECS :: int where "LOGIN_COOKIE_MAX_AGE_SECS = 600"

record pending_login =
  pl_state :: string
  pl_verifier :: string
  pl_nonce :: string
  pl_redirect_uri :: string

text \<open>The three \<open>random_token()\<close>s are arguments.\<close>

definition new_pending_login :: "string \<Rightarrow> string \<Rightarrow> string \<Rightarrow> string \<Rightarrow> pending_login" where
  "new_pending_login t1 t2 t3 redirect_uri =
     \<lparr>pl_state = t1, pl_verifier = t2, pl_nonce = t3, pl_redirect_uri = redirect_uri\<rparr>"

definition code_challenge :: "libs \<Rightarrow> pending_login \<Rightarrow> string" where
  "code_challenge L p = pkce_challenge L (pl_verifier p)"

definition pending_json :: "pending_login \<Rightarrow> json" where
  "pending_json p = JObj [(''state'', JStr (pl_state p)), (''verifier'', JStr (pl_verifier p)),
     (''nonce'', JStr (pl_nonce p)), (''redirect_uri'', JStr (pl_redirect_uri p))]"

definition to_cookie_value :: "libs \<Rightarrow> pending_login \<Rightarrow> string" where
  "to_cookie_value L p = b64_encode L (json_write L (pending_json p))"

definition de_pending_login :: "json \<Rightarrow> pending_login option" where
  "de_pending_login j =
     Option.bind (struct_fields [''state'', ''verifier'', ''nonce'', ''redirect_uri''] j) (\<lambda>field.
     Option.bind (de_string (field ''state'')) (\<lambda>st.
     Option.bind (de_string (field ''verifier'')) (\<lambda>ver.
     Option.bind (de_string (field ''nonce'')) (\<lambda>non.
     Option.bind (de_string (field ''redirect_uri'')) (\<lambda>uri.
       Some \<lparr>pl_state = st, pl_verifier = ver, pl_nonce = non, pl_redirect_uri = uri\<rparr>)))))"

definition from_cookie_value :: "libs \<Rightarrow> string \<Rightarrow> pending_login option" where
  "from_cookie_value L value =
     Option.bind (b64_decode L value) (\<lambda>bytes. Option.bind (json_read L bytes) de_pending_login)"

lemma de_pending_json [simp]: "de_pending_login (pending_json p) = Some p"
  by (simp add: de_pending_login_def pending_json_def de_string_def)


section \<open>What a browser sends back\<close>

definition plain_char :: "char \<Rightarrow> bool" where
  "plain_char c \<longleftrightarrow> byte c < 128 \<and> \<not> ws1 (byte c) \<and> c \<noteq> CHR '';''"

text \<open>A cookie a browser stores: a name without \<open>=\<close> and \<open>;\<close>, a value without \<open>;\<close>, neither with
  white space around it.\<close>

definition cookie_ok :: "string \<times> string \<Rightarrow> bool" where
  "cookie_ok p \<longleftrightarrow> fst p \<noteq> [] \<and> CHR ''='' \<notin> set (fst p) \<and> CHR '';'' \<notin> set (fst p) \<and>
     plain_char (hd (fst p)) \<and> CHR '';'' \<notin> set (snd p) \<and> (snd p = [] \<or> plain_char (last (snd p)))"

definition cookie_text :: "string \<times> string \<Rightarrow> string" where
  "cookie_text p = fst p @ ''='' @ snd p"

definition cookie_header :: "(string \<times> string) list \<Rightarrow> string" where
  "cookie_header cookies = join_with ''; '' (map cookie_text cookies)"

lemma trim_cookie_text: "cookie_ok p \<Longrightarrow> trim (cookie_text p) = cookie_text p"
  by (rule trim_plain)
    (auto simp: cookie_text_def cookie_ok_def plain_char_def byte_def ws1_def)

lemma cookie_text_no_semi: "cookie_ok p \<Longrightarrow> CHR '';'' \<notin> set (cookie_text p)"
  by (auto simp: cookie_text_def cookie_ok_def)

lemma cookie_pair_text:
  "cookie_ok p \<Longrightarrow> cookie_pair L n (cookie_text p) = (if fst p = n then Some (pct_decode L (snd p)) else None)"
  "cookie_ok p \<Longrightarrow> cookie_pair L n (CHR '' '' # cookie_text p) =
     (if fst p = n then Some (pct_decode L (snd p)) else None)"
proof -
  assume p: "cookie_ok p"
  have so: "split_once (CHR ''='') (cookie_text p) = Some (fst p, snd p)"
    using p by (simp add: cookie_text_def split_once_append cookie_ok_def)
  then show "cookie_pair L n (cookie_text p) = (if fst p = n then Some (pct_decode L (snd p)) else None)"
    using p by (simp add: cookie_pair_def trim_cookie_text case_prod_beta)
  have "trim (CHR '' '' # cookie_text p) = cookie_text p"
    using trim_cookie_text [OF p] by (simp add: trim_def trim_start_space)
  with so show "cookie_pair L n (CHR '' '' # cookie_text p) =
     (if fst p = n then Some (pct_decode L (snd p)) else None)"
    by (simp add: cookie_pair_def case_prod_beta)
qed

lemma split_cookie_tail:
  "list_all cookie_ok ps \<Longrightarrow> cookie_ok p \<Longrightarrow>
   split_on (CHR '';'') (q @ cookie_text p @ concat (map (\<lambda>r. ''; '' @ cookie_text r) ps)) =
   (if CHR '';'' \<in> set q then split_on (CHR '';'') (q @ cookie_text p @ concat (map (\<lambda>r. ''; '' @ cookie_text r) ps))
    else (q @ cookie_text p) # map (\<lambda>r. CHR '' '' # cookie_text r) ps)"
proof (induction ps arbitrary: q p)
  case Nil
  then show ?case by (simp add: split_on_no_sep cookie_text_no_semi)
next
  case (Cons r ps)
  have "CHR '';'' \<notin> set '' ''" by simp
  with Cons.IH [of r "'' ''"] Cons.prems
  have rest: "split_on (CHR '';'') ('' '' @ cookie_text r @ concat (map (\<lambda>r. ''; '' @ cookie_text r) ps)) =
      ('' '' @ cookie_text r) # map (\<lambda>r. CHR '' '' # cookie_text r) ps" by simp
  show ?case
  proof (cases "CHR '';'' \<in> set q")
    case True
    then show ?thesis by simp
  next
    case False
    then have "CHR '';'' \<notin> set (q @ cookie_text p)"
      using Cons.prems by (simp add: cookie_text_no_semi)
    from split_on_append_sep [OF this,
        of "'' '' @ cookie_text r @ concat (map (\<lambda>r. ''; '' @ cookie_text r) ps)"]
    show ?thesis using False rest by simp
  qed
qed

lemma cookie_values:
  assumes "list_all cookie_ok cookies"
  shows "List.map_filter (cookie_pair L n) (split_on (CHR '';'') (cookie_header cookies)) =
    map (pct_decode L \<circ> snd) (filter (\<lambda>p. fst p = n) cookies)"
proof (cases cookies)
  case Nil
  then show ?thesis by (simp add: cookie_header_def join_with_def map_filter_simps cookie_pair_def trim_def)
next
  case (Cons p ps)
  have tail: "List.map_filter (cookie_pair L n) (map (\<lambda>r. CHR '' '' # cookie_text r) qs) =
      map (pct_decode L \<circ> snd) (filter (\<lambda>p. fst p = n) qs)" if "list_all cookie_ok qs" for qs
    using that by (induction qs) (simp_all add: map_filter_simps cookie_pair_text)
  have "cookie_header cookies = [] @ cookie_text p @ concat (map (\<lambda>r. ''; '' @ cookie_text r) ps)"
    by (simp add: Cons cookie_header_def join_with_def comp_def)
  with assms Cons split_cookie_tail [of ps p "[]"] tail [of ps] show ?thesis
    by (simp add: map_filter_simps cookie_pair_text)
qed

text \<open>Of the cookies a browser sends, \<open>extract_cookie\<close> gives the decoded value of the one of
  that name, and nothing when the name is missing or there twice, so a cookie planted beside the
  real one is never used, whatever the order.\<close>

theorem extract_cookie_unambiguous:
  assumes "list_all cookie_ok cookies" "header_get h ''cookie'' = Some (cookie_header cookies)"
    and "header_str L (cookie_header cookies) = Some (cookie_header cookies)"
  shows "extract_cookie L h n =
    (case filter (\<lambda>p. fst p = n) cookies of [p] \<Rightarrow> Some (pct_decode L (snd p)) | _ \<Rightarrow> None)"
  using assms by (simp add: extract_cookie_def cookie_values split: list.splits)

theorem extract_cookie_unambiguous_witness:
  "extract_cookie demo_libs [(''cookie'', ''wa=1; x=2; wa=1'')] ''wa'' = None \<and>
   extract_cookie demo_libs [(''cookie'', ''wa=1; x=2; wa=1'')] ''x'' = Some ''2''"
  using extract_cookie_unambiguous [of "[(''wa'', ''1''), (''x'', ''2''), (''wa'', ''1'')]"
      "[(''cookie'', ''wa=1; x=2; wa=1'')]" demo_libs]
  by (simp add: cookie_ok_def plain_char_def ws1_def byte_def cookie_header_def cookie_text_def
      join_with_def header_get_def demo_libs_simps)

text \<open>The documented behaviour of the codecs a login cookie passes through.\<close>

definition codecs_ok :: "libs \<Rightarrow> bool" where
  "codecs_ok L \<longleftrightarrow>
     (\<forall>v. pct_decode L (pct_encode L v) = v) \<and> (\<forall>v. list_all plain_char (pct_encode L v)) \<and>
     (\<forall>b. b64_decode L (b64_encode L b) = Some b) \<and>
     (\<forall>p. json_read L (json_write L (pending_json p)) = Some (pending_json p))"

definition set_cookie_pair :: "string \<Rightarrow> string" where
  "set_cookie_pair header = hd (split_on (CHR '';'') header)"

lemma set_cookie_pair_build:
  assumes "codecs_ok L" "CHR '';'' \<notin> set name"
  shows "set_cookie_pair (build_cookie L name v path age secure) = cookie_text (name, pct_encode L v)"
proof -
  have "CHR '';'' \<notin> set (pct_encode L v)"
    using assms(1) by (auto simp: codecs_ok_def plain_char_def list_all_iff)
  with assms(2) have "CHR '';'' \<notin> set (cookie_text (name, pct_encode L v))" by (auto simp: cookie_text_def)
  from split_on_append_sep [OF this, of "tl (cookie_attributes path age secure)"]
  show ?thesis by (simp add: set_cookie_pair_def build_cookie_def cookie_text_def cookie_attributes_def)
qed

end
