(* ===== verification/RateLimit.thy ===== *)
theory RateLimit
  imports Web
begin

text \<open>
  The key of the rate limiter (\<open>common/src/rate_limit.rs\<close>): which client a request is counted
  against, given who connected and what \<open>X-Forwarded-For\<close> says; and the refill interval of a
  bucket. The buckets themselves are the \<open>governor\<close> crate's.
\<close>

section \<open>Addresses\<close>

definition v6_mapped_v4 :: "128 word \<Rightarrow> (32 word) option" where
  "v6_mapped_v4 a = (if drop_bit 32 a = 0xFFFF then Some (ucast a) else None)"

definition to_canonical :: "ip_addr \<Rightarrow> ip_addr" where
  "to_canonical ip = (case ip of V4 a \<Rightarrow> V4 a
     | V6 a \<Rightarrow> (case v6_mapped_v4 a of Some b \<Rightarrow> V4 b | None \<Rightarrow> V6 a))"

text \<open>\<open>IpNet::contains\<close>: the first \<open>prefix\<close> bits agree.\<close>

fun net_contains :: "ip_net \<Rightarrow> ip_addr \<Rightarrow> bool" where
  "net_contains (Net4 a p) (V4 b) = (drop_bit (32 - p) a = drop_bit (32 - p) b)"
| "net_contains (Net6 a p) (V6 b) = (drop_bit (128 - p) a = drop_bit (128 - p) b)"
| "net_contains _ _ = False"

definition is_trusted :: "ip_net list \<Rightarrow> ip_addr \<Rightarrow> bool" where
  "is_trusted nets ip = list_ex (\<lambda>net. net_contains net ip) nets"

section \<open>The client behind a peer\<close>

definition parse_hop :: "libs \<Rightarrow> string \<Rightarrow> ip_addr option" where
  "parse_hop L hop = opt_or (parse_ip L hop) (parse_socket L hop)"

text \<open>The loop over the entries, the last one first.\<close>

fun walk_hops :: "libs \<Rightarrow> ip_net list \<Rightarrow> ip_addr \<Rightarrow> string list \<Rightarrow> ip_addr" where
  "walk_hops L nets client [] = client"
| "walk_hops L nets client (hop # hops) =
     (if \<not> is_trusted nets client then client
      else (case parse_hop L (trim (utf8_lossy L hop)) of
              Some ip \<Rightarrow> walk_hops L nets (to_canonical ip) hops
            | None \<Rightarrow> client))"

definition client_ip :: "libs \<Rightarrow> ip_addr \<Rightarrow> string list \<Rightarrow> ip_net list \<Rightarrow> ip_addr" where
  "client_ip L peer forwarded_for nets = walk_hops L nets (to_canonical peer) (rev forwarded_for)"

definition forwarded_for :: "headers \<Rightarrow> string list" where
  "forwarded_for h = concat (map (split_on (CHR '','')) (header_get_all h ''x-forwarded-for''))"

definition client_ip_of :: "libs \<Rightarrow> ip_addr \<Rightarrow> headers \<Rightarrow> ip_net list \<Rightarrow> ip_addr" where
  "client_ip_of L peer h nets = client_ip L peer (forwarded_for h) nets"

definition request_client_ip :: "libs \<Rightarrow> ip_addr option \<Rightarrow> headers \<Rightarrow> ip_net list \<Rightarrow> ip_addr option" where
  "request_client_ip L peer h nets = map_option (\<lambda>p. client_ip_of L p h nets) peer"

definition per_network :: "ip_addr \<Rightarrow> ip_addr" where
  "per_network ip = (case ip of
     V4 a \<Rightarrow> V4 a
   | V6 a \<Rightarrow> V6 (and a (not (drop_bit 64 (- 1)))))"

datatype governor_error = UnableToExtractKey

definition extract_key :: "libs \<Rightarrow> ip_addr option \<Rightarrow> headers \<Rightarrow> ip_net list \<Rightarrow> governor_error + ip_addr" where
  "extract_key L peer h nets =
     ok_or (map_option per_network (request_client_ip L peer h nets)) UnableToExtractKey"

section \<open>The buckets' parameters\<close>

datatype governor_config_error = RateLimitZero

record bucket =
  burst_size :: nat
  replenish_ms :: nat

definition build_governor :: "nat \<Rightarrow> nat \<Rightarrow> governor_config_error + bucket" where
  "build_governor max_attempts window_secs =
     (if max_attempts = 0 then Err RateLimitZero
      else Ok \<lparr>burst_size = max_attempts, replenish_ms = max (window_secs * 1000 div max_attempts) 1\<rparr>)"

section \<open>What a client can and cannot choose\<close>

text \<open>The hops the walk goes through: every address it leaves is a trusted one.\<close>

lemma walk_hops_prefix:
  assumes "\<not> is_trusted nets (to_canonical ip)" "is_trusted nets client"
    and "parse_hop L (trim (utf8_lossy L hop)) = Some ip"
  shows "walk_hops L nets client (hop # client_sent) = to_canonical ip"
  using assms by (cases client_sent) simp_all

lemma walk_hops_append:
  assumes "is_trusted nets client"
    and "list_all (\<lambda>h. \<exists>ip. parse_hop L (trim (utf8_lossy L h)) = Some ip \<and> is_trusted nets (to_canonical ip)) hops"
    and "parse_hop L (trim (utf8_lossy L last_hop)) = Some ip" "\<not> is_trusted nets (to_canonical ip)"
  shows "walk_hops L nets client (hops @ last_hop # client_sent) = to_canonical ip"
  using assms
proof (induction hops arbitrary: client)
  case Nil
  then show ?case by (simp add: walk_hops_prefix del: walk_hops.simps)
next
  case (Cons h hops)
  then show ?case by auto
qed

text \<open>C23: the client a request is counted against does not depend on anything the client itself
  wrote. A peer that is no trusted proxy is counted as itself, whatever \<open>X-Forwarded-For\<close> it sends;
  behind trusted proxies it is the rightmost address that is not one of theirs, which the innermost
  proxy wrote, whatever stands to its left.\<close>

theorem client_ip_not_spoofable:
  assumes "list_all (\<lambda>h. \<exists>ip. parse_hop L (trim (utf8_lossy L h)) = Some ip \<and> is_trusted nets (to_canonical ip)) proxies"
    and "parse_hop L (trim (utf8_lossy L written)) = Some ip" "\<not> is_trusted nets (to_canonical ip)"
  shows "(\<not> is_trusted nets (to_canonical peer) \<longrightarrow> client_ip L peer anything nets = to_canonical peer) \<and>
    (is_trusted nets (to_canonical peer) \<longrightarrow>
       client_ip L peer (client_sent @ written # proxies) nets = to_canonical ip)"
proof (intro conjI impI)
  assume "\<not> is_trusted nets (to_canonical peer)"
  then show "client_ip L peer anything nets = to_canonical peer"
    by (cases "rev anything") (simp_all add: client_ip_def)
next
  assume "is_trusted nets (to_canonical peer)"
  moreover have "rev (client_sent @ written # proxies) = rev proxies @ written # rev client_sent" by simp
  ultimately show "client_ip L peer (client_sent @ written # proxies) nets = to_canonical ip"
    using walk_hops_append [OF _ _ assms(2,3), of "to_canonical peer" "rev proxies" "rev client_sent"] assms(1)
    by (simp add: client_ip_def)
qed

theorem client_ip_not_spoofable_witness:
  "client_ip demo_libs (V4 10) [''x'', ''B''] [Net4 10 32] = V4 66"
  using client_ip_not_spoofable [of demo_libs "[Net4 10 32]" "[]" "''B''" "V4 66" "V4 10" "[]" "[''x'']"]
  by (simp add: demo_libs_simps parse_hop_def trim_def ws1_def byte_def to_canonical_def is_trusted_def)

lemma per_network_bit:
  "bit (and (a :: 128 word) (not (mask 64))) n \<longleftrightarrow> 64 \<le> n \<and> bit a n"
  by (auto simp: bit_and_iff bit_not_iff bit_mask_iff dest: bit_imp_le_length)

lemma per_network_eq_iff:
  "and (a :: 128 word) (not (mask 64)) = and b (not (mask 64)) \<longleftrightarrow>
     drop_bit 64 a = drop_bit 64 b"
proof
  assume "and a (not (mask 64)) = and b (not (mask 64))"
  then have "64 \<le> n \<and> bit a n \<longleftrightarrow> 64 \<le> n \<and> bit b n" for n
    by (metis per_network_bit)
  then show "drop_bit 64 a = drop_bit 64 b"
    by (intro bit_eqI) (metis bit_drop_bit_eq comp_apply le_add1)
next
  assume eq: "drop_bit 64 a = drop_bit 64 b"
  have ab: "bit a n = bit b n" if "64 \<le> n" for n
  proof -
    have "bit (drop_bit 64 a) (n - 64) = bit (drop_bit 64 b) (n - 64)" by (simp only: eq)
    with that show ?thesis by (simp add: bit_drop_bit_eq)
  qed
  have "bit (and a (not (mask 64))) n = bit (and b (not (mask 64))) n" for n
    unfolding per_network_bit using ab by blast
  then show "and a (not (mask 64)) = and b (not (mask 64))"
    by (intro bit_eqI) simp
qed

text \<open>Every IPv6 client of one /64 shares one key, clients of two /64s never do, and a client
  reaching the service over an IPv4-mapped IPv6 address is counted like its IPv4 address.\<close>

theorem rate_limit_key_per_network:
  "extract_key L (Some (V6 a)) [] nets = extract_key L (Some (V6 b)) [] nets \<longleftrightarrow>
     (if v6_mapped_v4 a = None \<and> v6_mapped_v4 b = None then drop_bit 64 a = drop_bit 64 b
      else v6_mapped_v4 a = v6_mapped_v4 b)"
  by (auto simp: extract_key_def request_client_ip_def client_ip_of_def client_ip_def forwarded_for_def
      header_get_all_def to_canonical_def per_network_def per_network_eq_iff split: option.splits)

lemma build_governor_ok:
  "0 < n \<Longrightarrow> \<exists>b. build_governor n w = Ok b \<and> burst_size b = n \<and> 0 < replenish_ms b"
  by (simp add: build_governor_def)

end
