(* ===== verification/BffConfig.thy ===== *)
theory BffConfig
  imports Cookie RateLimit
begin

text \<open>
  The configuration of bff (\<open>bff/src/config.rs\<close>) and the part of \<open>common/src/config.rs\<close> it uses:
  the derived settings (cookie names, the allowlist test, the callback addresses) and
  \<open>Config::load\<close>, from the point where the layers of defaults, file and environment have been merged
  (\<open>figment\<close>'s work: \<open>extracted\<close> is its result and \<open>is_set\<close> says which keys the deployer set).
\<close>

datatype profile = Dev | Prod

record route_config =
  path_prefix :: string
  upstream_url :: string

record config =
  port :: "16 word"
  internal_port :: "16 word"
  bff_url :: string
  hydra_public_url :: string
  hydra_internal_url :: string
  hydra_audience :: string
  bff_client_id :: string
  bff_client_secret :: string
  hydra_refresh_token_ttl_secs :: int
  redirect_uri_allowlist :: "string list"
  default_redirect_uri :: "string option"
  internal_api_key :: string
  session_cookie_name :: string
  routes :: "route_config list"
  trusted_origins :: "string list"
  rate_limit_max_attempts :: "32 word"
  rate_limit_proxy_max_attempts :: "32 word"
  trusted_proxies :: "ip_net list"

definition DEFAULT_REFRESH_TOKEN_TTL_SECS :: int where
  "DEFAULT_REFRESH_TOKEN_TTL_SECS = 30 * 24 * 60 * 60"

definition MAX_REFRESH_TOKEN_TTL_SECS :: int where
  "MAX_REFRESH_TOKEN_TTL_SECS = 10 * 365 * 24 * 60 * 60"

definition MIN_PROD_API_KEY_LEN :: nat where "MIN_PROD_API_KEY_LEN = 16"

definition HOST_COOKIE_PREFIX :: string where "HOST_COOKIE_PREFIX = ''__Host-''"

definition SECURE_COOKIE_PREFIX :: string where "SECURE_COOKIE_PREFIX = ''__Secure-''"

definition COMMITTED_DEV_SECRETS :: "string list" where
  "COMMITTED_DEV_SECRETS = [''dev-bff-client-secret'', ''dev-bff-internal-api-key'']"

definition default_config :: config where
  "default_config = \<lparr>port = 8080, internal_port = 8082, bff_url = ''http://localhost:8080'',
     hydra_public_url = ''http://localhost:4444'', hydra_internal_url = ''http://localhost:4444'',
     hydra_audience = ''weaveauth'', bff_client_id = ''bff'', bff_client_secret = '''',
     hydra_refresh_token_ttl_secs = DEFAULT_REFRESH_TOKEN_TTL_SECS, redirect_uri_allowlist = [],
     default_redirect_uri = None, internal_api_key = '''', session_cookie_name = ''wa_session'',
     routes = [], trusted_origins = [], rate_limit_max_attempts = 10,
     rate_limit_proxy_max_attempts = 600, trusted_proxies = []\<rparr>"

section \<open>Derived settings\<close>

text \<open>\<open>str::get(..n)\<close>: nothing when the text is shorter or the cut is inside a character.\<close>

definition char_boundary :: "string \<Rightarrow> nat \<Rightarrow> bool" where
  "char_boundary s n \<longleftrightarrow> n = length s \<or> (n < length s \<and> \<not> (128 \<le> byte (s ! n) \<and> byte (s ! n) < 192))"

definition get_to :: "string \<Rightarrow> nat \<Rightarrow> string option" where
  "get_to s n = (if char_boundary s n then Some (take n s) else None)"

definition has_prefix :: "string \<Rightarrow> string \<Rightarrow> bool" where
  "has_prefix name prefix =
     is_some_and (\<lambda>start. eq_ignore_ascii_case start prefix) (get_to name (length prefix))"

definition secure_cookies :: "libs \<Rightarrow> config \<Rightarrow> bool" where
  "secure_cookies L c = is_some_and (\<lambda>u. url_scheme u = ''https'') (parse_url L (bff_url c))"

definition cookie_name :: "libs \<Rightarrow> config \<Rightarrow> string \<Rightarrow> string" where
  "cookie_name L c name =
     (if secure_cookies L c \<and> \<not> has_prefix name HOST_COOKIE_PREFIX
      then HOST_COOKIE_PREFIX @ name else name)"

definition session_cookie :: "libs \<Rightarrow> config \<Rightarrow> string" where
  "session_cookie L c = cookie_name L c (session_cookie_name c)"

definition login_cookie :: "libs \<Rightarrow> config \<Rightarrow> string" where
  "login_cookie L c = cookie_name L c LOGIN_COOKIE"

definition allows_redirect_uri :: "config \<Rightarrow> string \<Rightarrow> bool" where
  "allows_redirect_uri c redirect_uri =
     list_ex (\<lambda>allowed. allowed = redirect_uri) (redirect_uri_allowlist c)"

definition trim_slashes :: "string \<Rightarrow> string" where
  "trim_slashes s = trim_end_matches (\<lambda>ch. ch = CHR ''/'') s"

definition logged_out_url :: "config \<Rightarrow> string" where
  "logged_out_url c = trim_slashes (bff_url c) @ ''/logged-out''"

definition callback_url :: "config \<Rightarrow> string" where
  "callback_url c = trim_slashes (bff_url c) @ ''/callback''"

section \<open>What startup refuses\<close>

datatype config_error =
    Unreadable_settings string
  | Unset_in_prod string
  | Not_https string
  | Bad_internal_url
  | Empty_client_id
  | Empty_client_secret
  | Empty_api_key
  | Short_api_key
  | Committed_secret
  | Bad_cookie_name
  | Cookie_name_clash
  | Cookie_name_prefixed
  | Bad_path_prefix string
  | Reserved_path_prefix string
  | Duplicate_path_prefix string
  | Bad_upstream_url string
  | Insecure_upstream string
  | Bad_refresh_ttl
  | Ports_equal
  | Empty_allowlist
  | Bad_redirect_uri string
  | Zero_rate_limit
  | Zero_proxy_rate_limit
  | Wide_trusted_proxy ip_net
  | Bad_trusted_origin string
  | Insecure_trusted_origin string

text \<open>A sequence of \<open>ensure!\<close>s stops at the first that fails.\<close>

fun ensures :: "(bool \<times> 'e) list \<Rightarrow> 'e + unit" where
  "ensures [] = Ok ()"
| "ensures ((ok, e) # rest) = (if ok then ensures rest else Err e)"

fun and_then :: "'e + unit \<Rightarrow> 'e + 'a \<Rightarrow> 'e + 'a" where
  "and_then (Inl e) r = Inl e"
| "and_then (Inr u) r = r"

fun each_ok :: "('a \<Rightarrow> 'e + unit) \<Rightarrow> 'a list \<Rightarrow> 'e + unit" where
  "each_ok f [] = Ok ()"
| "each_ok f (x # xs) = and_then (f x) (each_ok f xs)"

lemma ensures_ok [simp]: "ensures cs = Inr u \<longleftrightarrow> list_all fst cs"
  by (induction cs) (auto split: if_splits)

declare ensures.simps [simp del]

lemma and_then_ok [simp]: "and_then a r = Inr x \<longleftrightarrow> a = Inr () \<and> r = Inr x"
  by (cases a) auto

lemma each_ok_ok [simp]: "each_ok f xs = Inr u \<longleftrightarrow> (\<forall>x \<in> set xs. f x = Inr ())"
  by (induction xs) auto

definition is_cookie_token :: "string \<Rightarrow> bool" where
  "is_cookie_token name \<longleftrightarrow> name \<noteq> [] \<and>
     list_all (\<lambda>b. is_ascii_alphanumeric b \<or> b \<in> set (''!#$%&'' @ [CHR 0x27] @ ''*+-.^_'' @ [CHR 0x60] @ ''|~'')) name"

definition RESERVED_PREFIXES :: "string list" where
  "RESERVED_PREFIXES = [''/login'', ''/callback'', ''/logout'', ''/logged-out'', ''/health'']"

definition is_route_prefix :: "string \<Rightarrow> bool" where
  "is_route_prefix prefix \<longleftrightarrow> prefix = ''/'' \<or>
     is_some_and (\<lambda>path. list_all (\<lambda>segment. segment \<notin> {'''', ''.'', ''..''} \<and>
         list_all (\<lambda>b. is_ascii_graphic b \<and> b \<notin> set (''{}*?#%'' @ [CHR 0x5C])) segment)
       (split_on (CHR ''/'') path))
     (strip_prefix ''/'' prefix)"

definition is_loopback :: "url \<Rightarrow> bool" where
  "is_loopback u = (case url_host_of u of
     Some (Domain d) \<Rightarrow> eq_ignore_ascii_case d ''localhost''
   | Some (HostV4 ip) \<Rightarrow> drop_bit 24 ip = 127
   | Some (HostV6 ip) \<Rightarrow> ip = 1
   | None \<Rightarrow> False)"

definition upstream_ok :: "url \<Rightarrow> bool" where
  "upstream_ok u \<longleftrightarrow> (url_scheme u = ''http'' \<or> url_scheme u = ''https'') \<and> url_host_of u \<noteq> None \<and>
     url_username u = [] \<and> url_password u = None \<and> url_query u = None \<and> url_fragment u = None"

fun check_routes_from :: "libs \<Rightarrow> profile \<Rightarrow> route_config list \<Rightarrow> route_config list \<Rightarrow> config_error + unit" where
  "check_routes_from L prof earlier [] = Ok ()"
| "check_routes_from L prof earlier (route # rest) =
     (let prefix = path_prefix route in
      and_then (ensures
        [(is_route_prefix prefix, Bad_path_prefix prefix),
         (prefix \<notin> set RESERVED_PREFIXES, Reserved_path_prefix prefix),
         (\<not> list_ex (\<lambda>other. path_prefix other = prefix) earlier, Duplicate_path_prefix prefix)])
      (case opt_filter upstream_ok (parse_url L (upstream_url route)) of
         None \<Rightarrow> Err (Bad_upstream_url prefix)
       | Some upstream \<Rightarrow>
           and_then (ensures [(prof \<noteq> Prod \<or> url_scheme upstream = ''https'' \<or> is_loopback upstream,
             Insecure_upstream prefix)])
           (check_routes_from L prof (earlier @ [route]) rest)))"

definition check_routes :: "libs \<Rightarrow> route_config list \<Rightarrow> profile \<Rightarrow> config_error + unit" where
  "check_routes L rs prof = check_routes_from L prof [] rs"

definition redirect_uri_ok :: "libs \<Rightarrow> profile \<Rightarrow> string \<Rightarrow> bool" where
  "redirect_uri_ok L prof entry \<longleftrightarrow>
     list_all (\<lambda>b. 0x21 \<le> byte b \<and> byte b < 0x7f) entry \<and>
     is_some_and (\<lambda>u.
       (case prof of Prod \<Rightarrow> url_scheme u = ''https'' | Dev \<Rightarrow> url_scheme u = ''http'' \<or> url_scheme u = ''https'') \<and>
       url_host_of u \<noteq> None \<and> url_username u = [] \<and> url_password u = None \<and> url_fragment u = None)
     (parse_url L entry)"

definition check_redirect_uri_allowlist :: "libs \<Rightarrow> string list \<Rightarrow> profile \<Rightarrow> config_error + unit" where
  "check_redirect_uri_allowlist L allowlist prof =
     and_then (ensures [(prof \<noteq> Prod \<or> allowlist \<noteq> [], Empty_allowlist)])
       (each_ok (\<lambda>entry. ensures [(redirect_uri_ok L prof entry, Bad_redirect_uri entry)]) allowlist)"

definition v4_mapped_as_v4 :: "ip_net \<Rightarrow> ip_net" where
  "v4_mapped_as_v4 net = (case net of
     Net6 a p \<Rightarrow> (if 96 \<le> p
       then (case v6_mapped_v4 a of
               Some b \<Rightarrow> (if p - 96 \<le> 32 then Net4 b (p - 96) else net)
             | None \<Rightarrow> net)
       else net)
   | Net4 a p \<Rightarrow> net)"

definition too_wide_to_trust :: "ip_net \<Rightarrow> bool" where
  "too_wide_to_trust net = (case net of Net4 a p \<Rightarrow> p < 8 | Net6 a p \<Rightarrow> p < 32)"

text \<open>The entries of \<open>trusted_proxies\<close>: a network, or an address alone as the network of one host.\<close>

definition host_net :: "ip_addr \<Rightarrow> ip_net" where
  "host_net ip = (case ip of V4 a \<Rightarrow> Net4 a 32 | V6 a \<Rightarrow> Net6 a 128)"

fun ip_nets :: "(string \<Rightarrow> ip_net option) \<Rightarrow> libs \<Rightarrow> string list \<Rightarrow> string + ip_net list" where
  "ip_nets parse_net L [] = Ok []"
| "ip_nets parse_net L (entry # rest) =
     (case map_option v4_mapped_as_v4 (opt_or (parse_net entry) (map_option host_net (parse_ip L entry))) of
        None \<Rightarrow> Err entry
      | Some net \<Rightarrow> (case ip_nets parse_net L rest of Inl e \<Rightarrow> Err e | Inr nets \<Rightarrow> Ok (net # nets)))"

datatype public_url = Base | Origin

definition require_https_in_prod :: "libs \<Rightarrow> profile \<Rightarrow> (string \<times> string \<times> public_url) list \<Rightarrow> config_error + unit" where
  "require_https_in_prod L prof urls =
     (if prof \<noteq> Prod then Ok ()
      else each_ok (\<lambda>(var, value, kind).
        (case parse_url L value of
           None \<Rightarrow> Err (Not_https var)
         | Some u \<Rightarrow> ensures
             [(url_scheme u = ''https'' \<and> url_host_of u \<noteq> None, Not_https var),
              (kind \<noteq> Origin \<or> (url_path u = ''/'' \<and> url_query u = None \<and> url_fragment u = None), Not_https var)]))
        urls)"

section \<open>\<open>Config::load\<close>\<close>

definition trim_hydra_urls :: "config \<Rightarrow> config" where
  "trim_hydra_urls c = c\<lparr>hydra_public_url := trim_slashes (hydra_public_url c),
     hydra_internal_url := trim_slashes (hydra_internal_url c)\<rparr>"

definition check_settings :: "libs \<Rightarrow> profile \<Rightarrow> config \<Rightarrow> config_error + unit" where
  "check_settings L prof c =
     and_then (ensures
       [(is_some_and (\<lambda>u. (url_scheme u = ''http'' \<or> url_scheme u = ''https'') \<and> url_host_of u \<noteq> None)
           (parse_url L (hydra_internal_url c)), Bad_internal_url),
        (bff_client_id c \<noteq> [], Empty_client_id),
        (bff_client_secret c \<noteq> [], Empty_client_secret),
        (internal_api_key c \<noteq> [], Empty_api_key),
        (prof \<noteq> Prod \<or> MIN_PROD_API_KEY_LEN \<le> length (internal_api_key c), Short_api_key),
        (prof \<noteq> Prod \<or> \<not> list_ex (\<lambda>secret. secret \<in> set COMMITTED_DEV_SECRETS)
           [bff_client_secret c, internal_api_key c], Committed_secret),
        (is_cookie_token (session_cookie_name c), Bad_cookie_name),
        (session_cookie L c \<noteq> login_cookie L c, Cookie_name_clash),
        (secure_cookies L c \<or> \<not> (has_prefix (session_cookie_name c) HOST_COOKIE_PREFIX \<or>
           has_prefix (session_cookie_name c) SECURE_COOKIE_PREFIX), Cookie_name_prefixed)])
     (and_then (check_routes L (routes c) prof)
     (and_then (ensures
       [(1 \<le> hydra_refresh_token_ttl_secs c \<and> hydra_refresh_token_ttl_secs c \<le> MAX_REFRESH_TOKEN_TTL_SECS,
           Bad_refresh_ttl),
        (port c \<noteq> internal_port c, Ports_equal)])
     (and_then (check_redirect_uri_allowlist L (redirect_uri_allowlist c) prof)
     (and_then (case default_redirect_uri c of
        None \<Rightarrow> Ok () | Some d \<Rightarrow> check_redirect_uri_allowlist L [d] prof)
     (and_then (ensures
       [(rate_limit_max_attempts c \<noteq> 0, Zero_rate_limit),
        (rate_limit_proxy_max_attempts c \<noteq> 0, Zero_proxy_rate_limit)])
     (if prof = Prod
      then (case List.find too_wide_to_trust (trusted_proxies c) of
              Some net \<Rightarrow> Err (Wide_trusted_proxy net) | None \<Rightarrow> Ok ())
      else Ok ()))))))"

definition check_origin :: "libs \<Rightarrow> profile \<Rightarrow> string \<Rightarrow> config_error + unit" where
  "check_origin L prof origin = ensures
     [(is_some_and (\<lambda>u. url_origin u = origin) (parse_url L origin), Bad_trusted_origin origin),
      (prof \<noteq> Prod \<or> starts_with origin ''https://'', Insecure_trusted_origin origin)]"

definition default_limits :: "(string \<Rightarrow> bool) \<Rightarrow> profile \<Rightarrow> config \<Rightarrow> config" where
  "default_limits is_set prof c =
     (let c1 = (if \<not> is_set ''rate_limit_max_attempts'' \<and> prof = Dev
                then c\<lparr>rate_limit_max_attempts := 100\<rparr> else c)
      in if \<not> is_set ''rate_limit_proxy_max_attempts'' \<and> prof = Dev
         then c1\<lparr>rate_limit_proxy_max_attempts := 6000\<rparr> else c1)"

definition load :: "libs \<Rightarrow> profile \<Rightarrow> (string \<Rightarrow> bool) \<Rightarrow> string + config \<Rightarrow> config_error + config" where
  "load L prof is_set extracted =
     and_then (if prof = Prod
       then ensures [(is_set ''hydra_public_url'', Unset_in_prod ''hydra_public_url''),
                     (is_set ''hydra_internal_url'', Unset_in_prod ''hydra_internal_url'')]
       else Ok ())
     (case extracted of
        Inl e \<Rightarrow> Err (Unreadable_settings e)
      | Inr c0 \<Rightarrow>
          and_then (require_https_in_prod L prof
            [(''WA_BFF_URL'', bff_url c0, Base), (''WA_HYDRA_PUBLIC_URL'', hydra_public_url c0, Base)])
          (let c1 = trim_hydra_urls c0 in
           and_then (check_settings L prof c1)
           (let origins = map trim_slashes (trusted_origins c1) in
            and_then (each_ok (check_origin L prof) origins)
            (Ok (default_limits is_set prof (c1\<lparr>trusted_origins := origins\<rparr>))))))"


section \<open>What a configuration that loads promises\<close>

lemma list_ex_image: "list_ex (\<lambda>x. f x = y) xs \<longleftrightarrow> y \<in> f ` set xs"
  by (auto simp: list_ex_iff)

lemma check_routes_from_ok:
  "check_routes_from L prof earlier rs = Inr () \<longleftrightarrow>
     distinct (map path_prefix rs) \<and> set (map path_prefix rs) \<inter> set (map path_prefix earlier) = {} \<and>
     (\<forall>r \<in> set rs. is_route_prefix (path_prefix r) \<and> path_prefix r \<notin> set RESERVED_PREFIXES \<and>
        (\<exists>u. parse_url L (upstream_url r) = Some u \<and> upstream_ok u \<and>
           (prof = Prod \<longrightarrow> url_scheme u = ''https'' \<or> is_loopback u)))"
proof (induction rs arbitrary: earlier)
  case Nil
  show ?case by simp
next
  case (Cons r rs)
  have "check_routes_from L prof earlier (r # rs) = Inr () \<longleftrightarrow>
      is_route_prefix (path_prefix r) \<and> path_prefix r \<notin> set RESERVED_PREFIXES \<and>
      path_prefix r \<notin> set (map path_prefix earlier) \<and>
      (\<exists>u. parse_url L (upstream_url r) = Some u \<and> upstream_ok u \<and>
         (prof = Prod \<longrightarrow> url_scheme u = ''https'' \<or> is_loopback u)) \<and>
      check_routes_from L prof (earlier @ [r]) rs = Inr ()"
    by (cases "opt_filter upstream_ok (parse_url L (upstream_url r))")
      (auto simp: Let_def list_ex_image)
  then show ?case unfolding Cons.IH by auto
qed

lemma check_routes_ok:
  "check_routes L rs prof = Inr () \<longleftrightarrow> distinct (map path_prefix rs) \<and>
     (\<forall>r \<in> set rs. is_route_prefix (path_prefix r) \<and> path_prefix r \<notin> set RESERVED_PREFIXES \<and>
        (\<exists>u. parse_url L (upstream_url r) = Some u \<and> upstream_ok u \<and>
           (prof = Prod \<longrightarrow> url_scheme u = ''https'' \<or> is_loopback u)))"
  by (simp add: check_routes_def check_routes_from_ok)

lemma check_redirect_uri_allowlist_ok:
  "check_redirect_uri_allowlist L uris prof = Inr () \<longleftrightarrow>
     (prof = Prod \<longrightarrow> uris \<noteq> []) \<and> (\<forall>uri \<in> set uris. redirect_uri_ok L prof uri)"
  by (auto simp: check_redirect_uri_allowlist_def)

lemma default_limits_fields [simp]:
  "session_cookie_name (default_limits f p c) = session_cookie_name c" "bff_url (default_limits f p c) = bff_url c"
  "routes (default_limits f p c) = routes c" "port (default_limits f p c) = port c"
  "internal_port (default_limits f p c) = internal_port c" "trusted_origins (default_limits f p c) = trusted_origins c"
  "internal_api_key (default_limits f p c) = internal_api_key c"
  "redirect_uri_allowlist (default_limits f p c) = redirect_uri_allowlist c"
  "default_redirect_uri (default_limits f p c) = default_redirect_uri c"
  "trusted_proxies (default_limits f p c) = trusted_proxies c"
  "hydra_public_url (default_limits f p c) = hydra_public_url c"
  "hydra_refresh_token_ttl_secs (default_limits f p c) = hydra_refresh_token_ttl_secs c"
  by (simp_all add: default_limits_def Let_def)

lemma default_limits_nonzero:
  "rate_limit_max_attempts c \<noteq> 0 \<Longrightarrow> rate_limit_max_attempts (default_limits f p c) \<noteq> 0"
  "rate_limit_proxy_max_attempts c \<noteq> 0 \<Longrightarrow> rate_limit_proxy_max_attempts (default_limits f p c) \<noteq> 0"
  by (simp_all add: default_limits_def Let_def)

lemma load_ok:
  assumes "load L prof is_set extracted = Inr c"
  obtains c0 where "extracted = Inr c0"
    "require_https_in_prod L prof [(''WA_BFF_URL'', bff_url c0, Base),
       (''WA_HYDRA_PUBLIC_URL'', hydra_public_url c0, Base)] = Inr ()"
    "check_settings L prof (trim_hydra_urls c0) = Inr ()"
    "\<forall>origin \<in> set (map trim_slashes (trusted_origins c0)). check_origin L prof origin = Inr ()"
    "c = default_limits is_set prof (trim_hydra_urls c0\<lparr>trusted_origins := map trim_slashes (trusted_origins c0)\<rparr>)"
proof (cases extracted)
  case (Inl e)
  with assms show thesis by (simp add: load_def)
next
  case (Inr c0)
  have "trusted_origins (trim_hydra_urls c0) = trusted_origins c0" by (simp add: trim_hydra_urls_def)
  with assms Inr that show thesis unfolding load_def Let_def by simp
qed

lemmas settings_simps = check_settings_def check_routes_ok check_redirect_uri_allowlist_ok

lemma session_cookie_cong:
  "bff_url c = bff_url d \<Longrightarrow> session_cookie_name c = session_cookie_name d \<Longrightarrow>
     secure_cookies L c = secure_cookies L d \<and> session_cookie L c = session_cookie L d \<and>
     login_cookie L c = login_cookie L d"
  by (simp add: secure_cookies_def session_cookie_def login_cookie_def cookie_name_def)

text \<open>A configuration that loads keeps the promises the handlers rely on. The two cookies have
  different names; the listeners have different ports; the internal API key is not empty; both
  buckets can be built; every destination a browser may be redirected to is an absolute URL without
  user info or fragment; routes have distinct prefixes, none of them one of bff's own paths; every
  trusted origin is in serialized form. Under \<open>prod\<close> moreover cookies are \<open>Secure\<close>, destinations and
  origins are https and an upstream is https or loopback.\<close>

theorem load_guarantees:
  assumes "load L prof is_set extracted = Ok c"
  shows "session_cookie L c \<noteq> login_cookie L c \<and> port c \<noteq> internal_port c \<and> internal_api_key c \<noteq> [] \<and>
    is_ok (build_governor (unat (rate_limit_max_attempts c)) 60) \<and>
    is_ok (build_governor (unat (rate_limit_proxy_max_attempts c)) 60) \<and>
    (\<forall>uri \<in> set (redirect_uri_allowlist c) \<union> set_option (default_redirect_uri c). redirect_uri_ok L prof uri) \<and>
    distinct (map path_prefix (routes c)) \<and>
    (\<forall>r \<in> set (routes c). path_prefix r \<notin> set RESERVED_PREFIXES \<and> is_route_prefix (path_prefix r)) \<and>
    (\<forall>origin \<in> set (trusted_origins c). \<exists>u. parse_url L origin = Some u \<and> url_origin u = origin) \<and>
    (prof = Prod \<longrightarrow> secure_cookies L c \<and> redirect_uri_allowlist c \<noteq> [] \<and> 16 \<le> length (internal_api_key c) \<and>
       (\<forall>origin \<in> set (trusted_origins c). starts_with origin ''https://'') \<and>
       (\<forall>net \<in> set (trusted_proxies c). \<not> too_wide_to_trust net) \<and>
       (\<forall>r \<in> set (routes c). \<exists>u. parse_url L (upstream_url r) = Some u \<and>
          (url_scheme u = ''https'' \<or> is_loopback u)))"
proof -
  from load_ok [OF assms] obtain c0 where c0: "extracted = Inr c0"
    "require_https_in_prod L prof [(''WA_BFF_URL'', bff_url c0, Base),
       (''WA_HYDRA_PUBLIC_URL'', hydra_public_url c0, Base)] = Inr ()"
    "check_settings L prof (trim_hydra_urls c0) = Inr ()"
    "\<forall>origin \<in> set (map trim_slashes (trusted_origins c0)). check_origin L prof origin = Inr ()"
    "c = default_limits is_set prof (trim_hydra_urls c0\<lparr>trusted_origins := map trim_slashes (trusted_origins c0)\<rparr>)" .
  let ?c1 = "trim_hydra_urls c0"
  have same: "secure_cookies L c = secure_cookies L ?c1 \<and> session_cookie L c = session_cookie L ?c1 \<and>
      login_cookie L c = login_cookie L ?c1"
    by (rule session_cookie_cong) (simp_all add: c0(5))
  have fields: "port c = port ?c1" "internal_port c = internal_port ?c1"
    "internal_api_key c = internal_api_key ?c1" "redirect_uri_allowlist c = redirect_uri_allowlist ?c1"
    "default_redirect_uri c = default_redirect_uri ?c1" "routes c = routes ?c1"
    "trusted_proxies c = trusted_proxies ?c1" "trusted_origins c = map trim_slashes (trusted_origins c0)"
    by (simp_all add: c0(5))
  note checks = c0(3) [unfolded check_settings_def, simplified, unfolded check_routes_ok check_redirect_uri_allowlist_ok]
  have limits: "rate_limit_max_attempts c \<noteq> 0" "rate_limit_proxy_max_attempts c \<noteq> 0"
    using checks by (simp_all add: c0(5) default_limits_nonzero)
  have gov: "is_ok (build_governor (unat (rate_limit_max_attempts c)) 60)"
    "is_ok (build_governor (unat (rate_limit_proxy_max_attempts c)) 60)"
    using limits by (simp_all add: build_governor_def unat_eq_zero)
  have dflt: "\<forall>uri \<in> set_option (default_redirect_uri ?c1). redirect_uri_ok L prof uri"
    using checks by (auto simp: check_redirect_uri_allowlist_ok split: option.splits)
  have secure: "prof = Prod \<longrightarrow> secure_cookies L ?c1"
    using c0(2) by (auto simp: require_https_in_prod_def secure_cookies_def trim_hydra_urls_def split: option.splits)
  have proxies: "prof = Prod \<longrightarrow> (\<forall>net \<in> set (trusted_proxies ?c1). \<not> too_wide_to_trust net)"
    using checks by (auto split: option.splits simp: find_None_iff)
  have origins: "\<forall>origin \<in> set (trusted_origins c). (\<exists>u. parse_url L origin = Some u \<and> url_origin u = origin) \<and>
      (prof = Prod \<longrightarrow> starts_with origin ''https://'')"
    using c0(4) by (auto simp: fields check_origin_def is_some_and_def split: option.splits)
  have basic: "session_cookie L ?c1 \<noteq> login_cookie L ?c1" "port ?c1 \<noteq> internal_port ?c1" "internal_api_key ?c1 \<noteq> []"
    "prof = Prod \<longrightarrow> redirect_uri_allowlist ?c1 \<noteq> [] \<and> 16 \<le> length (internal_api_key ?c1)"
    using checks by (simp_all add: MIN_PROD_API_KEY_LEN_def)
  have uris: "\<forall>uri \<in> set (redirect_uri_allowlist ?c1). redirect_uri_ok L prof uri"
    and rts: "distinct (map path_prefix (routes ?c1))"
    and paths: "\<forall>r \<in> set (routes ?c1). is_route_prefix (path_prefix r) \<and> path_prefix r \<notin> set RESERVED_PREFIXES \<and>
      (\<exists>u. parse_url L (upstream_url r) = Some u \<and> upstream_ok u \<and>
         (prof = Prod \<longrightarrow> url_scheme u = ''https'' \<or> is_loopback u))"
    using checks by blast+
  show ?thesis
    unfolding fields(1-7) conjunct1 [OF same] conjunct1 [OF conjunct2 [OF same]] conjunct2 [OF conjunct2 [OF same]]
    using basic uris rts paths dflt secure proxies origins
    by (intro conjI gov [unfolded fields(1-7)] ballI impI) blast+
qed

definition demo_config :: config where
  "demo_config = default_config\<lparr>bff_client_secret := ''secret'', internal_api_key := ''0123456789abcdef'',
     redirect_uri_allowlist := [''https://app.test/''],
     routes := [\<lparr>path_prefix = ''/api'', upstream_url = ''https://api.test''\<rparr>],
     trusted_origins := [''https://app.test'']\<rparr>"

lemma demo_loads: "\<exists>c. load demo_libs Prod (\<lambda>_. True) (Inr demo_config) = Inr c"
  by (simp add: load_def demo_config_def default_config_def demo_libs_def require_https_in_prod_def
      trim_hydra_urls_def trim_slashes_def trim_end_matches_def settings_simps redirect_uri_ok_def
      is_cookie_token_def session_cookie_def login_cookie_def cookie_name_def secure_cookies_def
      has_prefix_def get_to_def char_boundary_def HOST_COOKIE_PREFIX_def SECURE_COOKIE_PREFIX_def
      eq_ignore_ascii_case_def to_ascii_lowercase_def ascii_lower_def byte_def LOGIN_COOKIE_def
      COMMITTED_DEV_SECRETS_def MIN_PROD_API_KEY_LEN_def MAX_REFRESH_TOKEN_TTL_SECS_def
      DEFAULT_REFRESH_TOKEN_TTL_SECS_def is_route_prefix_def RESERVED_PREFIXES_def upstream_ok_def
      is_ascii_alphanumeric_def is_ascii_graphic_def check_origin_def starts_with_def Let_def)

theorem load_guarantees_witness:
  "\<exists>c. load demo_libs Prod (\<lambda>_. True) (Inr demo_config) = Ok c \<and> secure_cookies demo_libs c \<and>
     session_cookie demo_libs c \<noteq> login_cookie demo_libs c"
  using demo_loads load_guarantees by blast

end
