(* ===== verification/Jwks.thy ===== *)
theory Jwks
  imports Web
begin

text \<open>
  The cache of Hydra's signing keys (\<open>bff/src/hydra/jwks.rs\<close>). The mutex is held across a fetch, so
  a call of \<open>keys_for\<close> is one step; \<open>now\<close> is when it starts, \<open>ready\<close> when its fetch (if it makes
  one) has answered. The key material is opaque: only the \<open>kid\<close>s matter here.
\<close>

datatype jwks_error =
    Unreachable string
  | Unavailable nat
  | Unreadable string
  | UnknownKey string
  | Throttled

record keys =
  openid_keys :: string
  jwt_keys :: "(string \<times> string) list"

definition has_kid :: "keys \<Rightarrow> string \<Rightarrow> bool" where
  "has_kid k kid = (map_of (jwt_keys k) kid \<noteq> None)"

definition JWKS_MAX_AGE :: duration where "JWKS_MAX_AGE = seconds (60 * 60)"

definition JWKS_MIN_REFRESH :: duration where "JWKS_MIN_REFRESH = seconds 10"

record jwks_cache =
  cached_keys :: "(keys \<times> time) option"
  last_attempt :: "time option"

definition empty_jwks_cache :: jwks_cache where
  "empty_jwks_cache = \<lparr>cached_keys = None, last_attempt = None\<rparr>"

text \<open>What \<open>fetch\<close> makes of the endpoint's answer; \<open>parse_openid\<close> and \<open>parse_jwt\<close> read the body as
  the two crates' key sets.\<close>

record jwks_reply =
  jwks_status :: nat
  jwks_body :: "string + string"

definition keys_parse ::
    "(string \<Rightarrow> string + string) \<Rightarrow> (string \<Rightarrow> string + (string \<times> string) list) \<Rightarrow> string \<Rightarrow> jwks_error + keys" where
  "keys_parse parse_openid parse_jwt body =
     (case parse_openid body of
        Inl e \<Rightarrow> Err (Unreadable e)
      | Inr openid \<Rightarrow> (case parse_jwt body of
          Inl e \<Rightarrow> Err (Unreadable e)
        | Inr jwt \<Rightarrow> Ok \<lparr>openid_keys = openid, jwt_keys = jwt\<rparr>))"

definition fetch_keys ::
    "(string \<Rightarrow> string + string) \<Rightarrow> (string \<Rightarrow> string + (string \<times> string) list) \<Rightarrow>
     string + jwks_reply \<Rightarrow> jwks_error + keys" where
  "fetch_keys parse_openid parse_jwt sent =
     (case sent of
        Inl cause \<Rightarrow> Err (Unreachable cause)
      | Inr r \<Rightarrow>
          if \<not> is_success (jwks_status r) then Err (Unavailable (jwks_status r))
          else (case jwks_body r of
                  Inl cause \<Rightarrow> Err (Unreachable cause)
                | Inr body \<Rightarrow> keys_parse parse_openid parse_jwt body))"

definition fresh_keys :: "jwks_cache \<Rightarrow> time \<Rightarrow> string option \<Rightarrow> keys option" where
  "fresh_keys c now kid = (case cached_keys c of
     Some (k, fetched_at) \<Rightarrow>
       if now - fetched_at < JWKS_MAX_AGE \<and> is_none_or (has_kid k) kid then Some k else None
   | None \<Rightarrow> None)"

definition stale_keys :: "jwks_cache \<Rightarrow> time \<Rightarrow> string option \<Rightarrow> keys option" where
  "stale_keys c now kid = (case (cached_keys c, kid) of
     (Some (k, fetched_at), Some i) \<Rightarrow>
       if has_kid k i \<and> now - fetched_at < JWKS_MAX_AGE * 2 then Some k else None
   | _ \<Rightarrow> None)"

definition throttled :: "jwks_cache \<Rightarrow> time \<Rightarrow> bool" where
  "throttled c now = is_some_and (\<lambda>attempt. now - attempt < JWKS_MIN_REFRESH) (last_attempt c)"

definition keys_for ::
    "jwks_cache \<Rightarrow> time \<Rightarrow> time \<Rightarrow> jwks_error + keys \<Rightarrow> string option \<Rightarrow> (jwks_error + keys) \<times> jwks_cache" where
  "keys_for c now ready fetched kid =
     (case fresh_keys c now kid of
        Some k \<Rightarrow> (Ok k, c)
      | None \<Rightarrow>
          let stale = stale_keys c now kid in
          if throttled c now then (ok_or stale Throttled, c)
          else
            let c1 = c\<lparr>last_attempt := Some now\<rparr> in
            (case fetched of
               Inl error \<Rightarrow> (ok_or stale error, c1)
             | Inr k \<Rightarrow>
                 (case kid of
                    Some i \<Rightarrow> if \<not> has_kid k i then Err (UnknownKey i) else Ok k
                  | None \<Rightarrow> Ok k,
                  c1\<lparr>cached_keys := Some (k, ready)\<rparr>)))"

section \<open>Runs of the cache\<close>

text \<open>A call: when it starts and ends, what a fetch would give, and the \<open>kid\<close> asked for.\<close>

record jwks_call =
  call_at :: time
  call_done :: time
  call_fetched :: "jwks_error + keys"
  call_kid :: "string option"

definition call_keys :: "jwks_cache \<Rightarrow> jwks_call \<Rightarrow> (jwks_error + keys) \<times> jwks_cache" where
  "call_keys c e = keys_for c (call_at e) (call_done e) (call_fetched e) (call_kid e)"

definition fetches :: "jwks_cache \<Rightarrow> jwks_call \<Rightarrow> bool" where
  "fetches c e \<longleftrightarrow> fresh_keys c (call_at e) (call_kid e) = None \<and> \<not> throttled c (call_at e)"

text \<open>The times of the fetches a sequence of calls makes, and the cache it leaves.\<close>

fun fetch_times :: "jwks_cache \<Rightarrow> jwks_call list \<Rightarrow> time list" where
  "fetch_times c [] = []"
| "fetch_times c (e # es) =
     (if fetches c e then [call_at e] else []) @ fetch_times (snd (call_keys c e)) es"

fun jwks_run :: "jwks_cache \<Rightarrow> jwks_call list \<Rightarrow> jwks_cache" where
  "jwks_run c [] = c"
| "jwks_run c (e # es) = jwks_run (snd (call_keys c e)) es"

text \<open>The mutex orders the calls: each starts after the one before has ended.\<close>

fun in_order :: "time \<Rightarrow> jwks_call list \<Rightarrow> bool" where
  "in_order t [] = True"
| "in_order t (e # es) \<longleftrightarrow> t \<le> call_at e \<and> call_at e \<le> call_done e \<and> in_order (call_done e) es"

lemma last_attempt_call:
  "last_attempt (snd (call_keys c e)) = (if fetches c e then Some (call_at e) else last_attempt c)"
  by (auto simp: call_keys_def keys_for_def fetches_def Let_def split: option.splits sum.splits)

lemma throttled_gap:
  "fetches c e \<Longrightarrow> last_attempt c = Some a \<Longrightarrow> a + JWKS_MIN_REFRESH \<le> call_at e"
  by (simp add: fetches_def throttled_def)

lemma fetch_times_spaced:
  "in_order t es \<Longrightarrow> is_none_or (\<lambda>a. a \<le> t) (last_attempt c) \<Longrightarrow>
   sorted_wrt (\<lambda>a b. a + JWKS_MIN_REFRESH \<le> b) (fetch_times c es) \<and>
   (\<forall>a b. last_attempt c = Some a \<longrightarrow> b \<in> set (fetch_times c es) \<longrightarrow> a + JWKS_MIN_REFRESH \<le> b)"
proof (induction es arbitrary: c t)
  case Nil
  then show ?case by simp
next
  case (Cons e es)
  let ?c' = "snd (call_keys c e)"
  have "is_none_or (\<lambda>a. a \<le> call_done e) (last_attempt ?c')"
    using Cons.prems by (cases "last_attempt c") (auto simp: last_attempt_call)
  from Cons.IH [OF _ this] Cons.prems
  have IH: "sorted_wrt (\<lambda>a b. a + JWKS_MIN_REFRESH \<le> b) (fetch_times ?c' es)"
    "\<And>a b. last_attempt ?c' = Some a \<Longrightarrow> b \<in> set (fetch_times ?c' es) \<Longrightarrow> a + JWKS_MIN_REFRESH \<le> b"
    by auto
  show ?case
  proof (cases "fetches c e")
    case False
    with IH show ?thesis by (simp add: last_attempt_call)
  next
    case True
    have later: "call_at e + JWKS_MIN_REFRESH \<le> b" if "b \<in> set (fetch_times ?c' es)" for b
      using IH(2) [OF _ that] True by (simp add: last_attempt_call)
    have "0 \<le> JWKS_MIN_REFRESH" by (simp add: JWKS_MIN_REFRESH_def)
    with True IH(1) later throttled_gap [OF True] show ?thesis by fastforce
  qed
qed

text \<open>C22: however many tokens with made-up key ids arrive, two fetches of the key set are at least
  \<open>JWKS_MIN_REFRESH\<close> (ten seconds) apart.\<close>

theorem jwks_fetches_spaced:
  assumes "in_order t es"
  shows "sorted_wrt (\<lambda>a b. a + JWKS_MIN_REFRESH \<le> b) (fetch_times empty_jwks_cache es)"
  using fetch_times_spaced [OF assms, of empty_jwks_cache] by (simp add: empty_jwks_cache_def)

definition demo_keys :: keys where
  "demo_keys = \<lparr>openid_keys = ''pk'', jwt_keys = [(''k1'', ''pk'')]\<rparr>"

definition demo_call :: "time \<Rightarrow> string \<Rightarrow> jwks_call" where
  "demo_call t kid = \<lparr>call_at = t, call_done = t + 1, call_fetched = Inr demo_keys, call_kid = Some kid\<rparr>"

theorem jwks_fetches_spaced_witness:
  "sorted_wrt (\<lambda>a b. a + JWKS_MIN_REFRESH \<le> b)
     (fetch_times empty_jwks_cache [demo_call 0 ''k1'', demo_call 5 ''made-up'', demo_call (seconds 20) ''k1''])"
  by (rule jwks_fetches_spaced [of 0]) (simp add: demo_call_def seconds_def)

section \<open>Which keys are handed out\<close>

definition cache_inv :: "jwks_cache \<Rightarrow> (keys \<times> time) set \<Rightarrow> bool" where
  "cache_inv c seen \<longleftrightarrow> (\<forall>k t. cached_keys c = Some (k, t) \<longrightarrow> (k, t) \<in> seen)"

definition fetched_keys :: "jwks_call list \<Rightarrow> (keys \<times> time) set" where
  "fetched_keys es = {(k, t). \<exists>e \<in> set es. call_fetched e = Inr k \<and> call_done e = t}"

lemma cached_after_call:
  "cached_keys (snd (call_keys c e)) = Some (k, t) \<Longrightarrow>
     cached_keys c = Some (k, t) \<or> (call_fetched e = Inr k \<and> call_done e = t)"
  by (auto simp: call_keys_def keys_for_def Let_def split: option.splits sum.splits if_splits)

lemma cached_after_run:
  "cached_keys (jwks_run c es) = Some (k, t) \<Longrightarrow>
     cached_keys c = Some (k, t) \<or> (k, t) \<in> fetched_keys es"
proof (induction es arbitrary: c)
  case Nil
  then show ?case by simp
next
  case (Cons e es)
  then show ?case using cached_after_call [of c e k t] by (fastforce simp: fetched_keys_def)
qed

text \<open>A key set handed out holds the \<open>kid\<close> asked for and was published by Hydra: it is either
  the answer of this very call's fetch, or the cached answer of an earlier one, at most
  \<open>JWKS_MAX_AGE\<close> old (twice that, and only for a known \<open>kid\<close>, when no fetch could be made or it
  failed). So a key Hydra has removed stops verifying tokens after two hours at most.\<close>

theorem keys_for_recent_and_known:
  assumes "keys_for (jwks_run empty_jwks_cache es) now ready fetched kid = (Ok k, c')"
  shows "is_none_or (has_kid k) kid \<and>
    (fetched = Ok k \<or>
     (\<exists>t. (k, t) \<in> fetched_keys es \<and> now - t < JWKS_MAX_AGE) \<or>
     (\<exists>t. (k, t) \<in> fetched_keys es \<and> now - t < JWKS_MAX_AGE * 2 \<and> kid \<noteq> None \<and>
        (throttled (jwks_run empty_jwks_cache es) now \<or> \<not> is_ok fetched)))"
proof -
  let ?c = "jwks_run empty_jwks_cache es"
  have seen: "(k', t) \<in> fetched_keys es" if "cached_keys ?c = Some (k', t)" for k' t
    using cached_after_run [OF that] by (simp add: empty_jwks_cache_def)
  show ?thesis
    using assms seen
    by (cases kid; cases fetched)
      (auto simp: keys_for_def fresh_keys_def stale_keys_def Let_def split: option.splits if_splits)
qed

theorem keys_for_recent_and_known_witness:
  "\<exists>c'. keys_for (jwks_run empty_jwks_cache [demo_call 0 ''k1'']) (seconds 60) (seconds 61) (Inl Throttled) (Some ''k1'')
     = (Ok demo_keys, c') \<and> has_kid demo_keys ''k1''"
proof -
  have "keys_for (jwks_run empty_jwks_cache [demo_call 0 ''k1'']) (seconds 60) (seconds 61) (Inl Throttled) (Some ''k1'')
     = (Ok demo_keys, jwks_run empty_jwks_cache [demo_call 0 ''k1''])"
    by (simp add: call_keys_def keys_for_def fresh_keys_def stale_keys_def throttled_def empty_jwks_cache_def
        demo_call_def demo_keys_def has_kid_def JWKS_MAX_AGE_def seconds_def Let_def)
  from this keys_for_recent_and_known [OF this] show ?thesis by simp
qed

end
