(* ===== verification/Session.thy ===== *)
theory Session
  imports Prelude
begin

text \<open>
  The session of the bff service (\<open>bff/src/model/session.rs\<close>): what it holds, when it ends,
  and which sessions a logout names. Secrets are plain text here: \<open>SecretString\<close> only hides its
  content from logs.
\<close>

type_synonym uuid = "128 word"

record session_data =
  access_token :: string
  refresh_token :: string
  id_token :: string
  expires_at :: time
  created_at :: time
  refresh_expires_at :: time
  user_id :: uuid
  sid :: "string option"

definition MAX_SESSION_LIFETIME :: duration where
  "MAX_SESSION_LIFETIME = seconds (30 * 24 * 60 * 60)"

definition ends_at :: "session_data \<Rightarrow> time" where
  "ends_at d = min (refresh_expires_at d) (created_at d + MAX_SESSION_LIFETIME)"

datatype session_selector =
    User uuid
  | UserSession uuid string
  | Session string

fun matches :: "session_selector \<Rightarrow> session_data \<Rightarrow> bool" where
  "matches (User u) d = (user_id d = u)"
| "matches (UserSession u s) d = (user_id d = u \<and> is_none_or (\<lambda>own. own = s) (sid d))"
| "matches (Session s) d = (sid d = Some s)"

text \<open>The user a selector is confined to, if it names one.\<close>

fun selector_user :: "session_selector \<Rightarrow> uuid option" where
  "selector_user (User u) = Some u"
| "selector_user (UserSession u s) = Some u"
| "selector_user (Session s) = None"

lemma ends_at_le: "ends_at d \<le> refresh_expires_at d" "ends_at d \<le> created_at d + MAX_SESSION_LIFETIME"
  by (simp_all add: ends_at_def)

lemma matches_selector_user:
  "matches sel d \<Longrightarrow> selector_user sel = Some u \<Longrightarrow> user_id d = u"
  by (cases sel) auto

lemma user_selector_widest:
  "matches sel d \<Longrightarrow> selector_user sel = Some u \<Longrightarrow> matches (User u) d"
  by (simp add: matches_selector_user)

text \<open>
  A logout that names user and session ends that session, every session of the user whose \<open>sid\<close>
  was not recorded, and nothing else.
\<close>

lemma matches_UserSession_iff:
  "matches (UserSession u s) d \<longleftrightarrow>
     matches (User u) d \<and> (matches (Session s) d \<or> sid d = None)"
  by (cases "sid d") auto

end
