(* ===== verification/HydraClient.thy ===== *)
theory HydraClient
  imports BffConfig Jwks Session
begin

text \<open>
  bff as Hydra's OAuth2 client (\<open>bff/src/hydra/mod.rs\<close>): the addresses the browser is sent to, the
  requests to the token and revocation endpoints, and what their answers mean. What Hydra answers is
  an argument (\<open>sent\<close>); the requests themselves are values, so that a handler's are its result.
\<close>

definition MAX_EXPIRES_IN_SECS :: int where "MAX_EXPIRES_IN_SECS = 86400"

datatype hydra_error =
    Unreachable string string
  | Rejected string nat
  | Misconfigured string nat
  | Unavailable string nat
  | Unreadable string string

record token_set =
  ts_access_token :: string
  ts_refresh_token :: "string option"
  ts_id_token :: "string option"
  ts_expires_in :: duration

record hydra =
  public_url :: string
  internal_url :: string
  client_id :: string
  client_secret :: string
  audience :: string
  redirect_uri :: string
  hydra_logged_out_url :: string
  refresh_ttl :: duration

definition new_hydra :: "config \<Rightarrow> hydra" where
  "new_hydra c = \<lparr>public_url = hydra_public_url c, internal_url = hydra_internal_url c,
     client_id = bff_client_id c, client_secret = bff_client_secret c, audience = hydra_audience c,
     redirect_uri = callback_url c, hydra_logged_out_url = logged_out_url c,
     refresh_ttl = seconds (hydra_refresh_token_ttl_secs c)\<rparr>"

section \<open>Where the browser is sent\<close>

definition authorize_params :: "hydra \<Rightarrow> string \<Rightarrow> string \<Rightarrow> string \<Rightarrow> (string \<times> string) list" where
  "authorize_params h st nonce challenge =
     [(''response_type'', ''code''), (''client_id'', client_id h), (''redirect_uri'', redirect_uri h),
      (''scope'', ''openid offline_access''), (''state'', st), (''nonce'', nonce),
      (''code_challenge'', challenge), (''code_challenge_method'', ''S256'')] @
     (if audience h = [] then [] else [(''audience'', audience h)])"

definition authorize_url :: "libs \<Rightarrow> hydra \<Rightarrow> string \<Rightarrow> string \<Rightarrow> string \<Rightarrow> string" where
  "authorize_url L h st nonce challenge =
     public_url h @ ''/oauth2/auth?'' @ form_encode L (authorize_params h st nonce challenge)"

definition logout_params :: "hydra \<Rightarrow> string option \<Rightarrow> string option \<Rightarrow> (string \<times> string) list" where
  "logout_params h id_token_hint st =
     (case id_token_hint of None \<Rightarrow> [] | Some hint \<Rightarrow> [(''id_token_hint'', hint)]) @
     [(''post_logout_redirect_uri'', hydra_logged_out_url h)] @
     (case st of None \<Rightarrow> [] | Some s \<Rightarrow> [(''state'', s)])"

definition logout_url :: "libs \<Rightarrow> hydra \<Rightarrow> string option \<Rightarrow> string option \<Rightarrow> string" where
  "logout_url L h id_token_hint st =
     public_url h @ ''/oauth2/sessions/logout?'' @ form_encode L (logout_params h id_token_hint st)"

section \<open>Requests\<close>

record hydra_request =
  rq_url :: string
  rq_user :: string
  rq_password :: string
  rq_form :: "(string \<times> string) list"

definition client_request :: "libs \<Rightarrow> hydra \<Rightarrow> string \<Rightarrow> (string \<times> string) list \<Rightarrow> hydra_request" where
  "client_request L h path form = \<lparr>rq_url = internal_url h @ path, rq_user = form_text L (client_id h),
     rq_password = form_text L (client_secret h), rq_form = form\<rparr>"

definition exchange_code_request :: "libs \<Rightarrow> hydra \<Rightarrow> string \<Rightarrow> string \<Rightarrow> hydra_request" where
  "exchange_code_request L h code code_verifier = client_request L h ''/oauth2/token''
     [(''grant_type'', ''authorization_code''), (''code'', code),
      (''redirect_uri'', redirect_uri h), (''code_verifier'', code_verifier)]"

definition refresh_request :: "libs \<Rightarrow> hydra \<Rightarrow> string \<Rightarrow> hydra_request" where
  "refresh_request L h token = client_request L h ''/oauth2/token''
     [(''grant_type'', ''refresh_token''), (''refresh_token'', token)]"

definition revoke_request :: "libs \<Rightarrow> hydra \<Rightarrow> string \<Rightarrow> hydra_request" where
  "revoke_request L h token = client_request L h ''/oauth2/revoke''
     [(''token'', token), (''token_type_hint'', ''refresh_token'')]"

section \<open>Answers\<close>

text \<open>The OAuth \<open>error\<close> of a 4xx body, when it has one.\<close>

definition oauth_error :: "reply \<Rightarrow> string option" where
  "oauth_error r =
     (if 400 \<le> reply_status r \<and> reply_status r < 500
      then (case reply_json r of
              Inl _ \<Rightarrow> None
            | Inr body \<Rightarrow> Option.bind (struct_fields [''error''] body) (\<lambda>field. de_string (field ''error'')))
      else None)"

definition classify :: "string \<Rightarrow> nat \<Rightarrow> string option \<Rightarrow> hydra_error" where
  "classify endpoint status error =
     (if error \<in> {Some ''invalid_grant'', Some ''token_inactive'', Some ''access_denied''}
        then Rejected endpoint status
      else if error \<in> {Some ''invalid_client'', Some ''unauthorized_client''}
        then Misconfigured endpoint status
      else Unavailable endpoint status)"

definition check_response :: "string \<Rightarrow> reply \<Rightarrow> hydra_error + reply" where
  "check_response endpoint r =
     (if is_success (reply_status r) then Ok r
      else Err (classify endpoint (reply_status r) (oauth_error r)))"

record token_response =
  tr_access_token :: string
  tr_refresh_token :: "string option"
  tr_id_token :: "string option"
  tr_expires_in :: "int option"

definition de_token_response :: "json \<Rightarrow> token_response option" where
  "de_token_response j =
     Option.bind (struct_fields [''access_token'', ''refresh_token'', ''id_token'', ''expires_in''] j) (\<lambda>field.
     Option.bind (de_string (field ''access_token'')) (\<lambda>at.
     Option.bind (de_opt as_str (field ''refresh_token'')) (\<lambda>rt.
     Option.bind (de_opt as_str (field ''id_token'')) (\<lambda>it.
     Option.bind (de_opt as_i64 (field ''expires_in'')) (\<lambda>ex.
       Some \<lparr>tr_access_token = at, tr_refresh_token = rt, tr_id_token = it, tr_expires_in = ex\<rparr>)))))"

abbreviation TOKEN_ENDPOINT :: string where "TOKEN_ENDPOINT \<equiv> ''token endpoint''"

abbreviation REVOCATION_ENDPOINT :: string where "REVOCATION_ENDPOINT \<equiv> ''revocation endpoint''"

definition token_request :: "libs \<Rightarrow> sent \<Rightarrow> hydra_error + token_set" where
  "token_request L answer =
     (case answer of
        Inl cause \<Rightarrow> Err (Unreachable TOKEN_ENDPOINT cause)
      | Inr r \<Rightarrow> (case check_response TOKEN_ENDPOINT r of
          Inl e \<Rightarrow> Err e
        | Inr r \<Rightarrow> (case reply_json r of
            Inl cause \<Rightarrow> Err (Unreadable TOKEN_ENDPOINT cause)
          | Inr body \<Rightarrow> (case de_token_response body of
              None \<Rightarrow> Err (Unreadable TOKEN_ENDPOINT (json_cause L body))
            | Some token \<Rightarrow>
                (case opt_filter (\<lambda>secs. 1 \<le> secs \<and> secs \<le> MAX_EXPIRES_IN_SECS) (tr_expires_in token) of
                   None \<Rightarrow> Err (Unreadable TOKEN_ENDPOINT ''no usable expires_in'')
                 | Some expires_in \<Rightarrow> Ok \<lparr>ts_access_token = tr_access_token token,
                     ts_refresh_token = tr_refresh_token token, ts_id_token = tr_id_token token,
                     ts_expires_in = seconds expires_in\<rparr>)))))"

definition revoke_token :: "sent \<Rightarrow> hydra_error + unit" where
  "revoke_token answer =
     (case answer of
        Inl cause \<Rightarrow> Err (Unreachable REVOCATION_ENDPOINT cause)
      | Inr r \<Rightarrow> (case check_response REVOCATION_ENDPOINT r of Inl e \<Rightarrow> Err e | Inr _ \<Rightarrow> Ok ()))"

section \<open>Reading tokens without verifying them\<close>

definition nth_part :: "'a list list \<Rightarrow> nat \<Rightarrow> 'a list option" where
  "nth_part xs n = (if n < length xs then Some (xs ! n) else None)"

definition unverified_part :: "libs \<Rightarrow> string \<Rightarrow> nat \<Rightarrow> json option" where
  "unverified_part L token index =
     Option.bind (nth_part (split_on (CHR ''.'') token) index) (\<lambda>part.
     Option.bind (b64_decode L part) (json_read L))"

definition jws_kid :: "libs \<Rightarrow> string \<Rightarrow> string option" where
  "jws_kid L token = Option.bind (unverified_part L token 0) (\<lambda>j. Option.bind (json_get j ''kid'') as_str)"

definition same_issuer :: "string \<Rightarrow> string \<Rightarrow> bool" where
  "same_issuer a b \<longleftrightarrow> trim_slashes a = trim_slashes b"

lemma trim_slashes_idem [simp]: "trim_slashes (trim_slashes s) = trim_slashes s"
  by (simp add: trim_slashes_def)

lemma trim_slashes_slash [simp]: "trim_slashes (s @ ''/'') = trim_slashes s"
  by (simp add: trim_slashes_def trim_end_matches_append)

lemma same_issuer_equiv: "equivp same_issuer"
  by (rule equivpI) (auto simp: same_issuer_def reflp_def symp_def transp_def)

section \<open>What an answer can mean\<close>

lemma token_request_ok:
  "token_request L answer = Inr t \<Longrightarrow>
     \<exists>r. answer = Inr r \<and> is_success (reply_status r) \<and>
       seconds 1 \<le> ts_expires_in t \<and> ts_expires_in t \<le> seconds MAX_EXPIRES_IN_SECS"
  by (auto simp: token_request_def check_response_def split: sum.splits option.splits if_splits)

text \<open>The token endpoint's answer is taken as a dead token (\<open>Rejected\<close>, which ends a session)
  only for a 4xx answer whose body names \<open>invalid_grant\<close>, \<open>token_inactive\<close> or \<open>access_denied\<close>:
  never because Hydra could not be reached, failed, refused bff's own credentials or sent something
  unreadable. A token set is only read from a 2xx answer, with a life of one second to one day.\<close>

theorem token_answer_classified:
  "(\<forall>e s. token_request L answer = Err (Rejected e s) \<longrightarrow>
      (\<exists>r body v. answer = Inr r \<and> s = reply_status r \<and> 400 \<le> s \<and> s < 500 \<and> reply_json r = Inr body \<and>
         struct_fields [''error''] body = Some v \<and>
         v ''error'' \<in> {Some (JStr ''invalid_grant''), Some (JStr ''token_inactive''), Some (JStr ''access_denied'')})) \<and>
   (\<forall>t. token_request L answer = Ok t \<longrightarrow>
      (\<exists>r. answer = Inr r \<and> 200 \<le> reply_status r \<and> reply_status r < 300) \<and>
      seconds 1 \<le> ts_expires_in t \<and> ts_expires_in t \<le> seconds 86400)"
proof (intro conjI allI impI)
  fix e s assume "token_request L answer = Err (Rejected e s)"
  then obtain r where r: "answer = Inr r" "classify TOKEN_ENDPOINT (reply_status r) (oauth_error r) = Rejected e s"
    by (auto simp: token_request_def check_response_def split: sum.splits option.splits if_splits)
  then have err: "s = reply_status r" "oauth_error r \<in> {Some ''invalid_grant'', Some ''token_inactive'', Some ''access_denied''}"
    by (auto simp: classify_def split: if_splits)
  then obtain body v where b: "400 \<le> s" "s < 500" "reply_json r = Inr body"
    "struct_fields [''error''] body = Some v" "de_string (v ''error'') = oauth_error r"
    by (auto simp: oauth_error_def split: if_splits sum.splits option.splits bind_splits)
  moreover from b(5) err(2) have
    "v ''error'' \<in> {Some (JStr ''invalid_grant''), Some (JStr ''token_inactive''), Some (JStr ''access_denied'')}"
    by (cases "v ''error''"; cases "the (v ''error'')") (auto simp: de_string_def)
  ultimately show "\<exists>r body v. answer = Inr r \<and> s = reply_status r \<and> 400 \<le> s \<and> s < 500 \<and> reply_json r = Inr body \<and>
     struct_fields [''error''] body = Some v \<and>
     v ''error'' \<in> {Some (JStr ''invalid_grant''), Some (JStr ''token_inactive''), Some (JStr ''access_denied'')}"
    using r(1) err(1) by blast
next
  fix t assume "token_request L answer = Ok t"
  from token_request_ok [OF this] show
    "\<exists>r. answer = Inr r \<and> 200 \<le> reply_status r \<and> reply_status r < 300"
    "seconds 1 \<le> ts_expires_in t" "ts_expires_in t \<le> seconds 86400"
    by (auto simp: is_success_def MAX_EXPIRES_IN_SECS_def)
qed

definition demo_reply :: reply where
  "demo_reply = \<lparr>reply_status = 200, reply_json = Inr (JObj [(''access_token'', JStr ''at2''),
     (''refresh_token'', JStr ''rt2''), (''id_token'', JStr ''it2''), (''expires_in'', JInt 900)])\<rparr>"

lemma demo_tokens [simp]:
  "token_request L (Inr demo_reply) = Ok \<lparr>ts_access_token = ''at2'', ts_refresh_token = Some ''rt2'',
     ts_id_token = Some ''it2'', ts_expires_in = seconds 900\<rparr>"
  by (simp add: token_request_def check_response_def demo_reply_def is_success_def de_token_response_def
      de_string_def de_opt_def i64_range_def MAX_EXPIRES_IN_SECS_def)

theorem token_answer_classified_witness:
  "\<exists>t. token_request demo_libs (Inr demo_reply) = Ok t \<and> ts_expires_in t \<le> seconds 86400"
  using token_answer_classified [of demo_libs "Inr demo_reply"] demo_tokens [of demo_libs] by blast

end
