(* ===== verification/Tokens.thy ===== *)
theory Tokens
  imports HydraClient
begin

text \<open>
  The verification of what Hydra signs: the back-channel logout token
  (\<open>bff/src/hydra/logout_token.rs\<close>) and the id_token of a login (\<open>bff/src/hydra/id_token.rs\<close>).
  The signature checks themselves are the \<open>jsonwebtoken\<close> and \<open>openidconnect\<close> crates': fields of
  \<open>jwt_libs\<close>, called with exactly the parameters the code gives them.
\<close>

record jwt_header =
  hdr_typ :: "string option"
  hdr_kid :: "string option"
  hdr_alg :: string

record validation =
  val_alg :: string
  val_aud :: "string list"
  val_iss :: "string list"
  val_required :: "string list"
  val_leeway :: int

record id_claims =
  idc_subject :: string
  idc_at_hash :: "string option"

text \<open>
  \<^item> \<open>decode_header\<close>, \<open>decoding_key\<close>, \<open>decode_jwt\<close>: \<open>jsonwebtoken::decode_header\<close>,
    \<open>DecodingKey::from_jwk\<close> and \<open>jsonwebtoken::decode\<close>;
  \<^item> \<open>id_token_of\<close>: \<open>CoreIdToken::from_str\<close>; \<open>issuer_url_ok\<close>: whether \<open>IssuerUrl::new\<close> accepts;
    \<open>id_token_claims\<close>: \<open>claims\<close> with a verifier for the client, the issuer and the keys, and the
    nonce; \<open>id_signing_alg\<close>, \<open>id_signing_key\<close>, \<open>at_hash_of\<close>: the parts of the \<open>at_hash\<close> check.
\<close>

record jwt_libs =
  decode_header :: "string \<Rightarrow> string + jwt_header"
  decoding_key :: "string \<Rightarrow> string + string"
  decode_jwt :: "string \<Rightarrow> string \<Rightarrow> validation \<Rightarrow> string + json"
  id_token_of :: "string \<Rightarrow> string + unit"
  issuer_url_ok :: "string \<Rightarrow> bool"
  id_token_claims :: "string \<Rightarrow> string \<Rightarrow> string \<Rightarrow> string \<Rightarrow> string \<Rightarrow> string + id_claims"
  id_signing_alg :: "string \<Rightarrow> string + string"
  id_signing_key :: "string \<Rightarrow> string \<Rightarrow> string + string"
  at_hash_of :: "string \<Rightarrow> string \<Rightarrow> string \<Rightarrow> string + string"

section \<open>Logout tokens\<close>

definition BACKCHANNEL_LOGOUT_EVENT :: string where
  "BACKCHANNEL_LOGOUT_EVENT = ''http://schemas.openid.net/event/backchannel-logout''"

definition TOKEN_MAX_AGE :: duration where "TOKEN_MAX_AGE = seconds (10 * 60)"

definition LEEWAY :: duration where "LEEWAY = seconds 60"

datatype logout_token_error =
    Malformed string
  | NoKeyId
  | Keys jwks_error
  | Verification string
  | MissingIssuedAt
  | Stale
  | IssuedInTheFuture
  | NotALogoutEvent
  | HasNonce
  | NoSubjectOrSession
  | SubjectNotAUuid
  | MissingJti

record logout_claims =
  lc_target :: session_selector
  lc_jti :: string
  lc_replay_until :: time

definition claim_text :: "json \<Rightarrow> string \<Rightarrow> string option" where
  "claim_text claims name = opt_filter (\<lambda>v. v \<noteq> []) (Option.bind (json_get claims name) as_str)"

definition issued_at :: "libs \<Rightarrow> json \<Rightarrow> time option" where
  "issued_at L claims =
     Option.bind (Option.bind (json_get claims ''iat'') as_i64) (utc_timestamp L)"

definition is_logout_event :: "json \<Rightarrow> bool" where
  "is_logout_event claims = is_some_and is_object
     (Option.bind (json_get claims ''events'') (\<lambda>events. json_get events BACKCHANNEL_LOGOUT_EVENT))"

definition claims_target :: "uuid option \<Rightarrow> string option \<Rightarrow> logout_token_error + session_selector" where
  "claims_target sub_user sub_sid = (case (sub_user, sub_sid) of
     (Some u, Some s) \<Rightarrow> Ok (UserSession u s)
   | (Some u, None) \<Rightarrow> Ok (User u)
   | (None, Some s) \<Rightarrow> Ok (Session s)
   | (None, None) \<Rightarrow> Err NoSubjectOrSession)"

definition check_claims :: "libs \<Rightarrow> json \<Rightarrow> time \<Rightarrow> logout_token_error + logout_claims" where
  "check_claims L claims now =
     (case issued_at L claims of
        None \<Rightarrow> Err MissingIssuedAt
      | Some iat \<Rightarrow>
          if now + LEEWAY < iat then Err IssuedInTheFuture
          else if iat < now - TOKEN_MAX_AGE - LEEWAY then Err Stale
          else if \<not> is_logout_event claims then Err NotALogoutEvent
          else if json_get claims ''nonce'' \<noteq> None then Err HasNonce
          else (case map_option (\<lambda>sub. ok_or (parse_uuid L sub) SubjectNotAUuid) (claim_text claims ''sub'') of
              Some (Inl e) \<Rightarrow> Err e
            | parsed \<Rightarrow>
                (case claims_target (case parsed of Some (Inr u) \<Rightarrow> Some u | _ \<Rightarrow> None) (claim_text claims ''sid'') of
                   Inl e \<Rightarrow> Err e
                 | Inr target \<Rightarrow>
                     (case claim_text claims ''jti'' of
                        None \<Rightarrow> Err MissingJti
                      | Some jti \<Rightarrow> Ok \<lparr>lc_target = target, lc_jti = jti,
                          lc_replay_until = iat + TOKEN_MAX_AGE + LEEWAY\<rparr>))))"

definition typ_ok :: "string \<Rightarrow> bool" where
  "typ_ok typ =
     (let rest = (case opt_filter (\<lambda>prefix. eq_ignore_ascii_case prefix ''application/'') (get_to typ 12) of
                    Some _ \<Rightarrow> drop 12 typ
                  | None \<Rightarrow> typ)
      in eq_ignore_ascii_case rest ''logout+jwt'' \<or> eq_ignore_ascii_case rest ''JWT'')"

definition logout_validation :: "hydra \<Rightarrow> string \<Rightarrow> validation" where
  "logout_validation h alg =
     (let issuer = trim_slashes (public_url h) in
      \<lparr>val_alg = alg, val_aud = [client_id h], val_iss = [issuer, issuer @ ''/''],
       val_required = [''iss'', ''aud''], val_leeway = 60\<rparr>)"

text \<open>Everything but the key lookup; \<open>got\<close> is what \<open>keys_for\<close> gave for the token's \<open>kid\<close>.\<close>

definition verify_logout_with ::
    "libs \<Rightarrow> jwt_libs \<Rightarrow> hydra \<Rightarrow> jwt_header \<Rightarrow> string \<Rightarrow> keys \<Rightarrow> string \<Rightarrow> time \<Rightarrow> logout_token_error + logout_claims" where
  "verify_logout_with L J h hdr kid keys raw now =
     (case map_of (jwt_keys keys) kid of
        None \<Rightarrow> Err (Keys (UnknownKey kid))
      | Some jwk \<Rightarrow> (case decoding_key J jwk of
          Inl e \<Rightarrow> Err (Verification e)
        | Inr key \<Rightarrow>
            if hdr_alg hdr \<noteq> ''RS256'' then Err (Verification (''unsupported algorithm '' @ hdr_alg hdr))
            else (case decode_jwt J raw key (logout_validation h (hdr_alg hdr)) of
                Inl e \<Rightarrow> Err (Verification e)
              | Inr claims \<Rightarrow> check_claims L claims now)))"

text \<open>The clock: \<open>now\<close> when the keys are asked for, \<open>ready\<close> when a fetch answered, \<open>later\<close> when the
  claims are checked.\<close>

definition verify_logout_token ::
    "libs \<Rightarrow> jwt_libs \<Rightarrow> hydra \<Rightarrow> jwks_cache \<Rightarrow> time \<Rightarrow> time \<Rightarrow> time \<Rightarrow> jwks_error + keys \<Rightarrow> string \<Rightarrow>
     (logout_token_error + logout_claims) \<times> jwks_cache" where
  "verify_logout_token L J h c now ready later fetched raw =
     (case decode_header J raw of
        Inl e \<Rightarrow> (Err (Malformed e), c)
      | Inr hdr \<Rightarrow>
          if is_some_and (\<lambda>typ. \<not> typ_ok typ) (hdr_typ hdr)
          then (Err (Malformed ''unexpected typ header''), c)
          else (case hdr_kid hdr of
              None \<Rightarrow> (Err NoKeyId, c)
            | Some kid \<Rightarrow>
                (case keys_for c now ready fetched (Some kid) of
                   (Inl e, c') \<Rightarrow> (Err (Keys e), c')
                 | (Inr k, c') \<Rightarrow> (verify_logout_with L J h hdr kid k raw later, c'))))"

section \<open>Id tokens\<close>

datatype id_token_error =
    IdMalformed string
  | IdKeys jwks_error
  | WrongIssuer string
  | IdVerification string
  | AccessTokenHashMismatch
  | AccessTokenHashUnchecked string
  | IdSubjectNotAUuid

record verified_id_token =
  vid_user_id :: uuid
  vid_sid :: "string option"

definition payload_text :: "json option \<Rightarrow> string \<Rightarrow> string option" where
  "payload_text payload name = Option.bind payload (\<lambda>claims. Option.bind (json_get claims name) as_str)"

definition check_at_hash :: "jwt_libs \<Rightarrow> string \<Rightarrow> string \<Rightarrow> string \<Rightarrow> string option \<Rightarrow> id_token_error + unit" where
  "check_at_hash J raw openid presented expected =
     (case expected of
        None \<Rightarrow> Ok ()
      | Some hash \<Rightarrow> (case id_signing_alg J raw of
          Inl e \<Rightarrow> Err (AccessTokenHashUnchecked e)
        | Inr alg \<Rightarrow> (case id_signing_key J raw openid of
            Inl e \<Rightarrow> Err (AccessTokenHashUnchecked e)
          | Inr key \<Rightarrow> (case at_hash_of J presented alg key of
              Inl e \<Rightarrow> Err (AccessTokenHashUnchecked e)
            | Inr actual \<Rightarrow> if actual \<noteq> hash then Err AccessTokenHashMismatch else Ok ()))))"

definition verify_id_with ::
    "libs \<Rightarrow> jwt_libs \<Rightarrow> hydra \<Rightarrow> keys \<Rightarrow> string \<Rightarrow> string \<Rightarrow> string \<Rightarrow> id_token_error + verified_id_token" where
  "verify_id_with L J h keys raw presented nonce =
     (let payload = unverified_part L raw 1;
          issuer = (case payload_text payload ''iss'' of None \<Rightarrow> [] | Some iss \<Rightarrow> iss)
      in if \<not> same_issuer issuer (public_url h) then Err (WrongIssuer issuer)
         else if \<not> issuer_url_ok J issuer then Err (WrongIssuer issuer)
         else (case id_token_claims J raw (client_id h) issuer (openid_keys keys) nonce of
             Inl e \<Rightarrow> Err (IdVerification e)
           | Inr claims \<Rightarrow> (case check_at_hash J raw (openid_keys keys) presented (idc_at_hash claims) of
               Inl e \<Rightarrow> Err e
             | Inr _ \<Rightarrow> (case parse_uuid L (idc_subject claims) of
                 None \<Rightarrow> Err IdSubjectNotAUuid
               | Some u \<Rightarrow> Ok \<lparr>vid_user_id = u, vid_sid = payload_text payload ''sid''\<rparr>))))"

definition verify_id_token ::
    "libs \<Rightarrow> jwt_libs \<Rightarrow> hydra \<Rightarrow> jwks_cache \<Rightarrow> time \<Rightarrow> time \<Rightarrow> jwks_error + keys \<Rightarrow> string \<Rightarrow> string \<Rightarrow> string \<Rightarrow>
     (id_token_error + verified_id_token) \<times> jwks_cache" where
  "verify_id_token L J h c now ready fetched raw presented nonce =
     (case id_token_of J raw of
        Inl e \<Rightarrow> (Err (IdMalformed e), c)
      | Inr _ \<Rightarrow>
          (case keys_for c now ready fetched (jws_kid L raw) of
             (Inl e, c') \<Rightarrow> (Err (IdKeys e), c')
           | (Inr k, c') \<Rightarrow> (verify_id_with L J h k raw presented nonce, c')))"

section \<open>Which logout tokens pass\<close>

definition claims_user :: "libs \<Rightarrow> json \<Rightarrow> uuid option" where
  "claims_user L claims = Option.bind (claim_text claims ''sub'') (parse_uuid L)"

lemma check_claims_ok_iff:
  "check_claims L claims now = Inr c \<longleftrightarrow>
     (\<exists>iat jti. issued_at L claims = Some iat \<and> iat \<le> now + LEEWAY \<and> now - TOKEN_MAX_AGE - LEEWAY \<le> iat \<and>
        is_logout_event claims \<and> json_get claims ''nonce'' = None \<and>
        (claim_text claims ''sub'' = None \<or> claims_user L claims \<noteq> None) \<and>
        claims_target (claims_user L claims) (claim_text claims ''sid'') = Inr (lc_target c) \<and>
        claim_text claims ''jti'' = Some jti \<and> lc_jti c = jti \<and>
        lc_replay_until c = iat + TOKEN_MAX_AGE + LEEWAY)"
proof (cases "issued_at L claims")
  case None
  then show ?thesis by (simp add: check_claims_def)
next
  case (Some iat)
  have target: "check_claims L claims now = Inr c \<longleftrightarrow>
      iat \<le> now + LEEWAY \<and> now - TOKEN_MAX_AGE - LEEWAY \<le> iat \<and>
      is_logout_event claims \<and> json_get claims ''nonce'' = None \<and>
      (claim_text claims ''sub'' = None \<or> claims_user L claims \<noteq> None) \<and>
      (\<exists>target jti. claims_target (claims_user L claims) (claim_text claims ''sid'') = Inr target \<and>
        claim_text claims ''jti'' = Some jti \<and>
        c = \<lparr>lc_target = target, lc_jti = jti, lc_replay_until = iat + TOKEN_MAX_AGE + LEEWAY\<rparr>)"
    by (cases "claim_text claims ''sub''"; cases "parse_uuid L (the (claim_text claims ''sub''))")
      (auto simp: check_claims_def Some claims_user_def not_less split: sum.splits option.splits)
  show ?thesis unfolding target Some by (cases c) auto
qed

lemma check_claims_window:
  "check_claims L claims now = Inr c \<Longrightarrow> now \<le> lc_replay_until c"
  by (auto simp: check_claims_ok_iff)

lemma check_claims_same:
  "check_claims L claims now = Inr c \<Longrightarrow> check_claims L claims later = Inr d \<Longrightarrow> c = d"
  by (cases c; cases d) (auto simp: check_claims_ok_iff)

lemma verify_logout_token_ok:
  assumes "verify_logout_token L J h c now ready later fetched raw = (Inr lc, c')"
  obtains hdr kid k jwk key claims where
    "decode_header J raw = Inr hdr" "is_none_or typ_ok (hdr_typ hdr)" "hdr_kid hdr = Some kid"
    "keys_for c now ready fetched (Some kid) = (Inr k, c')" "map_of (jwt_keys k) kid = Some jwk"
    "decoding_key J jwk = Inr key" "hdr_alg hdr = ''RS256''"
    "decode_jwt J raw key (logout_validation h ''RS256'') = Inr claims"
    "check_claims L claims later = Inr lc"
  using assms
  by (auto simp: verify_logout_token_def verify_logout_with_def is_none_or_def is_some_and_def
      split: sum.splits option.splits if_splits prod.splits)

text \<open>C15: a back-channel logout token that is accepted was verified: its signature with \<open>RS256\<close>
  under the key of its \<open>kid\<close> among Hydra's, for this client's audience and Hydra's issuer; it is no
  token of another kind, is not older than ten minutes nor from the future (a minute of skew
  aside), is a logout event without a nonce, and names a user or a session, and a \<open>jti\<close> that is to
  be remembered for as long as the token could be accepted again.\<close>

theorem logout_token_sound:
  assumes "verify_logout_token L J h c now ready later fetched raw = (Ok lc, c')"
  shows "\<exists>hdr kid k key claims iat. decode_header J raw = Ok hdr \<and> is_none_or typ_ok (hdr_typ hdr) \<and>
    hdr_kid hdr = Some kid \<and> keys_for c now ready fetched (Some kid) = (Ok k, c') \<and>
    Option.bind (map_of (jwt_keys k) kid) (\<lambda>jwk. Some (decoding_key J jwk)) = Some (Ok key) \<and>
    decode_jwt J raw key \<lparr>val_alg = ''RS256'', val_aud = [client_id h],
       val_iss = [trim_slashes (public_url h), trim_slashes (public_url h) @ ''/''],
       val_required = [''iss'', ''aud''], val_leeway = 60\<rparr> = Ok claims \<and>
    issued_at L claims = Some iat \<and> iat \<le> later + seconds 60 \<and> later \<le> iat + seconds 660 \<and>
    is_logout_event claims \<and> json_get claims ''nonce'' = None \<and>
    claims_target (claims_user L claims) (claim_text claims ''sid'') = Ok (lc_target lc) \<and>
    claim_text claims ''jti'' = Some (lc_jti lc) \<and>
    (\<forall>t lc'. check_claims L claims t = Ok lc' \<longrightarrow> lc' = lc \<and> t \<le> lc_replay_until lc)"
proof -
  from verify_logout_token_ok [OF assms] obtain hdr kid k jwk key claims where v:
    "decode_header J raw = Inr hdr" "is_none_or typ_ok (hdr_typ hdr)" "hdr_kid hdr = Some kid"
    "keys_for c now ready fetched (Some kid) = (Inr k, c')" "map_of (jwt_keys k) kid = Some jwk"
    "decoding_key J jwk = Inr key" "hdr_alg hdr = ''RS256''"
    "decode_jwt J raw key (logout_validation h ''RS256'') = Inr claims"
    "check_claims L claims later = Inr lc" .
  from v(9) obtain iat where c: "issued_at L claims = Some iat" "iat \<le> later + LEEWAY"
    "later - TOKEN_MAX_AGE - LEEWAY \<le> iat" "is_logout_event claims" "json_get claims ''nonce'' = None"
    "claims_target (claims_user L claims) (claim_text claims ''sid'') = Inr (lc_target lc)"
    "claim_text claims ''jti'' = Some (lc_jti lc)"
    unfolding check_claims_ok_iff by blast
  have window: "lc' = lc \<and> t \<le> lc_replay_until lc" if "check_claims L claims t = Inr lc'" for t lc'
    using check_claims_same [OF v(9) that] check_claims_window [OF that] by simp
  have times: "iat \<le> later + seconds 60" "later \<le> iat + seconds 660"
    using c(2,3) by (simp_all add: LEEWAY_def TOKEN_MAX_AGE_def seconds_def)
  have "Option.bind (map_of (jwt_keys k) kid) (\<lambda>jwk. Some (decoding_key J jwk)) = Some (Inr key)"
    using v(5,6) by simp
  moreover have "decode_jwt J raw key \<lparr>val_alg = ''RS256'', val_aud = [client_id h],
       val_iss = [trim_slashes (public_url h), trim_slashes (public_url h) @ ''/''],
       val_required = [''iss'', ''aud''], val_leeway = 60\<rparr> = Inr claims"
    using v(8) by (simp add: logout_validation_def Let_def)
  ultimately show ?thesis using v(1-4) c(1,4-7) times window by blast
qed

text \<open>Verification to run examples with: the tokens \<open>tok\<close> and \<open>it2\<close> are signed by key \<open>pk\<close>.\<close>

definition demo_logout_json :: json where
  "demo_logout_json = JObj [(''iat'', JInt 100), (''jti'', JStr ''j1''), (''sub'', JStr ''A''),
     (''sid'', JStr ''sid''), (''events'', JObj [(BACKCHANNEL_LOGOUT_EVENT, JObj [])])]"

definition demo_jwt :: jwt_libs where
  "demo_jwt = \<lparr>decode_header = (\<lambda>raw. Inr \<lparr>hdr_typ = Some ''logout+jwt'', hdr_kid = Some ''k1'', hdr_alg = ''RS256''\<rparr>),
     decoding_key = Inr,
     decode_jwt = (\<lambda>raw key v. if raw = ''tok'' \<and> key = ''pk'' then Inr demo_logout_json else Inl ''bad''),
     id_token_of = (\<lambda>raw. Inr ()), issuer_url_ok = (\<lambda>_. True),
     id_token_claims = (\<lambda>raw client issuer ks nonce. if raw = ''it2'' \<and> nonce = ''n''
       then Inr \<lparr>idc_subject = ''A'', idc_at_hash = None\<rparr> else Inl ''bad''),
     id_signing_alg = (\<lambda>_. Inr ''RS256''), id_signing_key = (\<lambda>_ _. Inr ''pk''), at_hash_of = (\<lambda>_ _ _. Inr ''h'')\<rparr>"

definition demo_hydra :: hydra where
  "demo_hydra = \<lparr>public_url = [], internal_url = ''http://hydra'', client_id = ''bff'', client_secret = ''s'',
     audience = [], redirect_uri = ''cb'', hydra_logged_out_url = ''lo'', refresh_ttl = seconds 86400\<rparr>"

lemma demo_logout_verified:
  "verify_logout_token demo_libs demo_jwt demo_hydra empty_jwks_cache (seconds 100) (seconds 100) (seconds 100) (Inr demo_keys) ''tok''
   = (Ok \<lparr>lc_target = UserSession 65 ''sid'', lc_jti = ''j1'', lc_replay_until = seconds 760\<rparr>,
      \<lparr>cached_keys = Some (demo_keys, seconds 100), last_attempt = Some (seconds 100)\<rparr>)"
proof -
  have "check_claims demo_libs demo_logout_json (seconds 100) =
      Inr \<lparr>lc_target = UserSession 65 ''sid'', lc_jti = ''j1'', lc_replay_until = seconds 760\<rparr>"
    by (simp add: check_claims_def demo_logout_json_def issued_at_def i64_range_def demo_libs_def
        LEEWAY_def TOKEN_MAX_AGE_def seconds_def is_logout_event_def claim_text_def claims_target_def
        BACKCHANNEL_LOGOUT_EVENT_def byte_def)
  then show ?thesis
    by (simp add: verify_logout_token_def verify_logout_with_def demo_jwt_def typ_ok_def get_to_def
        char_boundary_def eq_ignore_ascii_case_def to_ascii_lowercase_def ascii_lower_def byte_def
        keys_for_def fresh_keys_def stale_keys_def throttled_def empty_jwks_cache_def demo_keys_def
        has_kid_def Let_def)
qed

theorem logout_token_sound_witness:
  "is_logout_event demo_logout_json \<and> json_get demo_logout_json ''nonce'' = None \<and>
   (\<exists>iat. issued_at demo_libs demo_logout_json = Some iat \<and> iat \<le> seconds 160)"
proof -
  from logout_token_sound [OF demo_logout_verified] obtain key claims iat where
    "decode_jwt demo_jwt ''tok'' key \<lparr>val_alg = ''RS256'', val_aud = [client_id demo_hydra],
       val_iss = [trim_slashes (public_url demo_hydra), trim_slashes (public_url demo_hydra) @ ''/''],
       val_required = [''iss'', ''aud''], val_leeway = 60\<rparr> = Inr claims"
    "issued_at demo_libs claims = Some iat" "iat \<le> seconds 100 + seconds 60"
    "is_logout_event claims" "json_get claims ''nonce'' = None" by blast
  moreover from this(1) have "claims = demo_logout_json" by (simp add: demo_jwt_def split: if_splits)
  ultimately show ?thesis by (auto simp: seconds_def)
qed

section \<open>Which id_tokens pass\<close>

lemma check_at_hash_ok:
  "check_at_hash J raw openid at expected = Inr () \<Longrightarrow>
     \<forall>hash. expected = Some hash \<longrightarrow>
       (\<exists>alg key. id_signing_alg J raw = Inr alg \<and> id_signing_key J raw openid = Inr key \<and>
          at_hash_of J at alg key = Inr hash)"
  by (auto simp: check_at_hash_def split: option.splits sum.splits if_splits)

text \<open>C16: an id_token that is accepted was verified against keys Hydra published, for this client and
  for the \<open>nonce\<close> sent with the login, with an issuer that is Hydra's up to a trailing slash; when
  it carries an \<open>at_hash\<close>, that is the hash of the access token that came with it; and the user is
  its verified subject.\<close>

theorem id_token_sound:
  assumes "verify_id_token L J h c now ready fetched raw at nonce = (Ok v, c')"
  shows "\<exists>k issuer claims. keys_for c now ready fetched (jws_kid L raw) = (Ok k, c') \<and>
    same_issuer issuer (public_url h) \<and>
    id_token_claims J raw (client_id h) issuer (openid_keys k) nonce = Ok claims \<and>
    parse_uuid L (idc_subject claims) = Some (vid_user_id v) \<and>
    (\<forall>hash. idc_at_hash claims = Some hash \<longrightarrow>
       (\<exists>alg key. id_signing_alg J raw = Ok alg \<and> id_signing_key J raw (openid_keys k) = Ok key \<and>
          at_hash_of J at alg key = Ok hash))"
proof -
  from assms obtain k where k: "keys_for c now ready fetched (jws_kid L raw) = (Inr k, c')"
    "verify_id_with L J h k raw at nonce = Inr v"
    by (auto simp: verify_id_token_def split: sum.splits prod.splits)
  then obtain issuer claims where
    "same_issuer issuer (public_url h)"
    "id_token_claims J raw (client_id h) issuer (openid_keys k) nonce = Inr claims"
    "check_at_hash J raw (openid_keys k) at (idc_at_hash claims) = Inr ()"
    "parse_uuid L (idc_subject claims) = Some (vid_user_id v)"
    by (auto simp: verify_id_with_def Let_def split: if_splits sum.splits option.splits)
  with k(1) check_at_hash_ok show ?thesis by blast
qed

lemma demo_id_verified:
  "verify_id_token demo_libs demo_jwt demo_hydra empty_jwks_cache t t (Inr demo_keys) ''it2'' ''at2'' ''n''
   = (Ok \<lparr>vid_user_id = 65, vid_sid = None\<rparr>, \<lparr>cached_keys = Some (demo_keys, t), last_attempt = Some t\<rparr>)"
  by (simp add: verify_id_token_def verify_id_with_def demo_jwt_def demo_libs_def demo_hydra_def
      keys_for_def fresh_keys_def stale_keys_def throttled_def empty_jwks_cache_def jws_kid_def
      unverified_part_def nth_part_def payload_text_def same_issuer_def trim_slashes_def
      trim_end_matches_def check_at_hash_def byte_def Let_def)

theorem id_token_sound_witness:
  "\<exists>issuer claims. id_token_claims demo_jwt ''it2'' ''bff'' issuer (openid_keys demo_keys) ''n'' = Ok claims \<and>
     parse_uuid demo_libs (idc_subject claims) = Some 65"
  using id_token_sound [OF demo_id_verified [of 0]]
  by (elim exE conjE) (rule exI, rule exI, rule conjI,
      auto simp: demo_jwt_def split: if_splits)

end
