(* ===== verification/Storage.thy ===== *)
theory Storage
  imports Session
begin

text \<open>
  The storage interfaces of the bff service (\<open>bff/src/storage/mod.rs\<close>), as locales: the trait's
  operations are the parameters, what its callers rely on are the assumptions. The callers'
  lemmas are proved here once, from the contracts alone; the in-memory stores interpret them.
\<close>

datatype session_gone = SessionGone
datatype jti_replayed = JtiReplayed

section \<open>Session storage\<close>

locale session_storage =
  fixes save :: "'s \<Rightarrow> string \<Rightarrow> session_data \<Rightarrow> session_data list \<times> 's"
    and lookup :: "'s \<Rightarrow> string \<Rightarrow> session_data option"
    and upd :: "'s \<Rightarrow> string \<Rightarrow> session_data \<Rightarrow> (session_gone + unit) \<times> 's"
    and tak :: "'s \<Rightarrow> string \<Rightarrow> session_data option \<times> 's"
    and rev_sel :: "'s \<Rightarrow> session_selector \<Rightarrow> session_data list \<times> 's"
    and wf :: "'s \<Rightarrow> bool"
  assumes finite_store: "wf s \<Longrightarrow> finite (dom (lookup s))"
    and save_wf: "wf s \<Longrightarrow> wf (snd (save s i d))"
    and upd_wf: "wf s \<Longrightarrow> wf (snd (upd s i d))"
    and tak_wf: "wf s \<Longrightarrow> wf (snd (tak s i))"
    and rev_sel_wf: "wf s \<Longrightarrow> wf (snd (rev_sel s sel))"
    and save_sub: "wf s \<Longrightarrow> lookup (snd (save s i d)) \<subseteq>\<^sub>m (lookup s)(i \<mapsto> d)"
    and save_other: "wf s \<Longrightarrow> j \<noteq> i \<Longrightarrow> lookup s j = Some e \<Longrightarrow> user_id e \<noteq> user_id d \<Longrightarrow>
      lookup (snd (save s i d)) j = Some e"
    and save_dropped: "wf s \<Longrightarrow> ((lookup s)(i \<mapsto> d)) j = Some e \<Longrightarrow>
      lookup (snd (save s i d)) j = None \<Longrightarrow> e \<in> set (fst (save s i d))"
    and upd_gone: "wf s \<Longrightarrow> lookup s i = None \<Longrightarrow> upd s i d = (Inl SessionGone, s)"
    and upd_there: "wf s \<Longrightarrow> lookup s i = Some e \<Longrightarrow>
      fst (upd s i d) = Inr () \<and> lookup (snd (upd s i d)) = (lookup s)(i \<mapsto> d)"
    and tak_fst: "wf s \<Longrightarrow> fst (tak s i) = lookup s i"
    and tak_snd: "wf s \<Longrightarrow> lookup (snd (tak s i)) = (lookup s)(i := None)"
    and rev_sel_snd: "wf s \<Longrightarrow>
      lookup (snd (rev_sel s sel)) j = opt_filter (\<lambda>d. \<not> matches sel d) (lookup s j)"
    and rev_sel_fst: "wf s \<Longrightarrow>
      set (fst (rev_sel s sel)) = {d. matches sel d \<and> (\<exists>j. lookup s j = Some d)}"
begin

lemmas store_wf = save_wf upd_wf tak_wf rev_sel_wf

lemma tak_ends: "wf s \<Longrightarrow> lookup (snd (tak s i)) i = None"
  by (simp add: tak_snd)

lemma tak_keeps: "wf s \<Longrightarrow> j \<noteq> i \<Longrightarrow> lookup (snd (tak s i)) j = lookup s j"
  by (simp add: tak_snd)

text \<open>An update that comes after the session was taken fails: a session is never brought back.\<close>

lemma upd_after_tak: "wf s \<Longrightarrow> upd (snd (tak s i)) i d = (Inl SessionGone, snd (tak s i))"
  by (rule upd_gone) (simp_all add: tak_wf tak_ends)

lemma upd_after_rev_sel:
  assumes "wf s" "lookup s i = Some e" "matches sel e"
  shows "upd (snd (rev_sel s sel)) i d = (Inl SessionGone, snd (rev_sel s sel))"
  by (rule upd_gone) (use assms in \<open>simp_all add: rev_sel_wf rev_sel_snd\<close>)

lemma upd_dom:
  assumes "wf s"
  shows "dom (lookup (snd (upd s i d))) = dom (lookup s)"
proof (cases "lookup s i")
  case None
  with assms show ?thesis by (simp add: upd_gone)
next
  case (Some e)
  then have "i \<in> dom (lookup s)" by (rule domI)
  then have "insert i (dom (lookup s)) = dom (lookup s)" by (rule insert_absorb)
  moreover have "lookup (snd (upd s i d)) = (lookup s)(i \<mapsto> d)"
    using upd_there [OF assms Some] by (rule conjunct2)
  ultimately show ?thesis by (simp only: dom_fun_upd option.distinct if_False)
qed

lemma rev_sel_ends: "wf s \<Longrightarrow> lookup (snd (rev_sel s sel)) j = Some d \<Longrightarrow> \<not> matches sel d"
  by (simp add: rev_sel_snd)

lemma rev_sel_keeps:
  "wf s \<Longrightarrow> lookup s j = Some d \<Longrightarrow> \<not> matches sel d \<Longrightarrow> lookup (snd (rev_sel s sel)) j = Some d"
  by (simp add: rev_sel_snd)

lemma rev_sel_new: "wf s \<Longrightarrow> lookup (snd (rev_sel s sel)) j = Some d \<Longrightarrow> lookup s j = Some d"
  by (simp add: rev_sel_snd)

lemma save_new:
  assumes "wf s" "lookup (snd (save s i d)) j = Some e"
  shows "j = i \<and> e = d \<or> lookup s j = Some e"
proof -
  have "((lookup s)(i \<mapsto> d)) j = Some e"
    using save_sub [OF assms(1), of i d] assms(2) unfolding map_le_def by (metis domI)
  then show ?thesis by (cases "j = i") simp_all
qed

end

section \<open>Replay memory\<close>

text \<open>
  The trait \<open>JtiStorage\<close>: \<open>remembered\<close> is what a state still refuses at a time, \<open>recd\<close> remembers
  a \<open>jti\<close> until a time or says it was already remembered.
\<close>

locale jti_storage =
  fixes recd :: "'s \<Rightarrow> time \<Rightarrow> string \<Rightarrow> time \<Rightarrow> (jti_replayed + unit) \<times> 's"
    and remembered :: "'s \<Rightarrow> string \<Rightarrow> time \<Rightarrow> bool"
    and jwf :: "'s \<Rightarrow> bool"
  assumes recd_wf: "jwf s \<Longrightarrow> jwf (snd (recd s now j until))"
    and recd_replay: "jwf s \<Longrightarrow> remembered s j now \<Longrightarrow> recd s now j until = (Inl JtiReplayed, s)"
    and recd_fresh: "jwf s \<Longrightarrow> \<not> remembered s j now \<Longrightarrow> fst (recd s now j until) = Inr ()"
    and recd_sets: "jwf s \<Longrightarrow> \<not> remembered s j now \<Longrightarrow>
      remembered (snd (recd s now j until)) j t = (t < until)"
    and recd_keeps: "jwf s \<Longrightarrow> k \<noteq> j \<Longrightarrow>
      remembered (snd (recd s now j until)) k t = remembered s k t"
begin

lemma recd_ok_iff: "jwf s \<Longrightarrow> fst (recd s now j until) = Inr () \<longleftrightarrow> \<not> remembered s j now"
  using recd_replay [of s j now until] recd_fresh [of s j now until] by auto

lemma recd_twice:
  assumes "jwf s" "fst (recd s now j until) = Inr ()" "later < until"
  shows "fst (recd (snd (recd s now j until)) later j until') = Inl JtiReplayed"
proof -
  have "\<not> remembered s j now" using assms recd_ok_iff by blast
  with assms have "remembered (snd (recd s now j until)) j later" by (simp add: recd_sets)
  then show ?thesis using assms recd_wf recd_replay by (metis fst_conv)
qed

lemma recd_mono:
  assumes "jwf s" "remembered s k t" "now \<le> t" "\<not> remembered s j now \<Longrightarrow> k = j \<Longrightarrow> t < until"
  shows "remembered (snd (recd s now j until)) k t"
proof (cases "k = j")
  case False
  with assms show ?thesis by (simp add: recd_keeps)
next
  case True
  show ?thesis
  proof (cases "remembered s j now")
    case True
    with assms show ?thesis by (simp add: recd_replay)
  next
    case False
    with assms \<open>k = j\<close> show ?thesis by (simp add: recd_sets)
  qed
qed

end

section \<open>Periodic upkeep\<close>

text \<open>
  The trait \<open>ExpiryMaintenance\<close>: a sweep drops what nothing can use any more, so what a client
  observes at or after the sweep (\<open>live\<close>) is unchanged.
\<close>

locale expiry_maintenance =
  fixes sweep :: "'s \<Rightarrow> time \<Rightarrow> 's"
    and live :: "'s \<Rightarrow> time \<Rightarrow> 'k \<Rightarrow> bool"
    and stored :: "'s \<Rightarrow> 'k set"
    and ewf :: "'s \<Rightarrow> bool"
  assumes sweep_wf: "ewf s \<Longrightarrow> ewf (sweep s now)"
    and sweep_live: "ewf s \<Longrightarrow> now \<le> t \<Longrightarrow> live (sweep s now) t k = live s t k"
    and sweep_stored: "ewf s \<Longrightarrow> stored (sweep s now) = {k \<in> stored s. live s now k}"
begin

lemma sweep_shrinks: "ewf s \<Longrightarrow> stored (sweep s now) \<subseteq> stored s"
  by (auto simp: sweep_stored)

lemma sweep_idem_stored: "ewf s \<Longrightarrow> stored (sweep (sweep s now) now) = stored (sweep s now)"
  by (auto simp: sweep_stored sweep_wf sweep_live)

lemma sweeps_live:
  "ewf s \<Longrightarrow> now \<le> later \<Longrightarrow> later \<le> t \<Longrightarrow> live (sweep (sweep s now) later) t k = live s t k"
  by (simp add: sweep_live sweep_wf)

end

end
