(* ===== verification/InMemory.thy ===== *)
theory InMemory
  imports Storage
begin

text \<open>
  The in-memory stores (\<open>bff/src/storage/in_memory.rs\<close>): the session table with its per-user
  index, and the memory of accepted \<open>jti\<close>s. A \<open>Mutex\<close> makes every operation atomic, so each is
  one function of the state. The invariant \<open>sessions_wf\<close> says the index is in step with the
  table; the stores interpret the interfaces of \<open>Storage\<close>.
\<close>

definition MAX_SESSIONS_PER_USER :: nat where
  "MAX_SESSIONS_PER_USER = 20"

record sessions =
  by_id :: "(string \<times> session_data) list"
  by_user :: "(uuid \<times> string list) list"

definition empty_sessions :: sessions where
  "empty_sessions = \<lparr>by_id = [], by_user = []\<rparr>"

section \<open>The operations on \<open>Sessions\<close>\<close>

definition unindex :: "sessions \<Rightarrow> string \<Rightarrow> uuid \<Rightarrow> sessions" where
  "unindex s session_id uid =
     (case map_of (by_user s) uid of
        None \<Rightarrow> s
      | Some ids \<Rightarrow>
          (let ids' = filter (\<lambda>own. own \<noteq> session_id) ids in
           s\<lparr>by_user := (if ids' = [] then AList.delete uid (by_user s)
                        else AList.update uid ids' (by_user s))\<rparr>))"

definition ids_of :: "sessions \<Rightarrow> uuid \<Rightarrow> string list" where
  "ids_of s uid = (case map_of (by_user s) uid of None \<Rightarrow> [] | Some ids \<Rightarrow> ids)"

definition insert_session :: "sessions \<Rightarrow> string \<Rightarrow> session_data \<Rightarrow> sessions" where
  "insert_session s session_id d =
     (let s1 = s\<lparr>by_id := AList.update session_id d (by_id s)\<rparr>;
          s2 = (case map_of (by_id s) session_id of
                  None \<Rightarrow> s1
                | Some replaced \<Rightarrow> unindex s1 session_id (user_id replaced))
      in s2\<lparr>by_user := AList.update (user_id d) (ids_of s2 (user_id d) @ [session_id]) (by_user s2)\<rparr>)"

definition remove_session :: "sessions \<Rightarrow> string \<Rightarrow> session_data option \<times> sessions" where
  "remove_session s session_id =
     (case map_of (by_id s) session_id of
        None \<Rightarrow> (None, s)
      | Some d \<Rightarrow>
          (Some d, unindex (s\<lparr>by_id := AList.delete session_id (by_id s)\<rparr>) session_id (user_id d)))"

fun remove_all :: "sessions \<Rightarrow> string list \<Rightarrow> session_data list \<times> sessions" where
  "remove_all s [] = ([], s)"
| "remove_all s (i # ids) =
     (let (r, s1) = remove_session s i; (rs, s2) = remove_all s1 ids
      in ((case r of None \<Rightarrow> rs | Some d \<Rightarrow> d # rs), s2))"

section \<open>\<open>SessionStorage\<close>\<close>

definition own_by_age :: "sessions \<Rightarrow> uuid \<Rightarrow> (string \<times> time) list" where
  "own_by_age s uid =
     sort_key snd (List.map_filter
       (\<lambda>i. map_option (\<lambda>d. (i, created_at d)) (map_of (by_id s) i)) (ids_of s uid))"

definition save_session ::
    "sessions \<Rightarrow> string \<Rightarrow> session_data \<Rightarrow> session_data list \<times> sessions" where
  "save_session s session_id d =
     (let s1 = insert_session s session_id d;
          own = own_by_age s1 (user_id d);
          excess = length own - MAX_SESSIONS_PER_USER
      in remove_all s1 (map fst (take excess own)))"

definition get_session :: "sessions \<Rightarrow> string \<Rightarrow> session_data option" where
  "get_session s session_id = map_of (by_id s) session_id"

definition update_session ::
    "sessions \<Rightarrow> string \<Rightarrow> session_data \<Rightarrow> (session_gone + unit) \<times> sessions" where
  "update_session s session_id d =
     (if map_of (by_id s) session_id = None then (Err SessionGone, s)
      else (Ok (), insert_session (snd (remove_session s session_id)) session_id d))"

definition take_session :: "sessions \<Rightarrow> string \<Rightarrow> session_data option \<times> sessions" where
  "take_session s session_id = remove_session s session_id"

text \<open>A selector that names a user reads that user's index entry; one that does not scans.\<close>

fun selected_ids :: "sessions \<Rightarrow> session_selector \<Rightarrow> string list" where
  "selected_ids s (User u) =
     filter (\<lambda>i. is_some_and (matches (User u)) (map_of (by_id s) i)) (ids_of s u)"
| "selected_ids s (UserSession u x) =
     filter (\<lambda>i. is_some_and (matches (UserSession u x)) (map_of (by_id s) i)) (ids_of s u)"
| "selected_ids s (Session x) = map fst (filter (\<lambda>(i, d). matches (Session x) d) (by_id s))"

definition revoke :: "sessions \<Rightarrow> session_selector \<Rightarrow> session_data list \<times> sessions" where
  "revoke s sel = remove_all s (selected_ids s sel)"

definition sweep_expired_sessions :: "sessions \<Rightarrow> time \<Rightarrow> sessions" where
  "sweep_expired_sessions s now =
     snd (remove_all s (map fst (filter (\<lambda>(i, d). ends_at d \<le> now) (by_id s))))"

section \<open>\<open>JtiStorage\<close>\<close>

type_synonym jtis = "(string \<times> time) list"

definition empty_jtis :: jtis where
  "empty_jtis = []"

definition record_jti :: "jtis \<Rightarrow> time \<Rightarrow> string \<Rightarrow> time \<Rightarrow> (jti_replayed + unit) \<times> jtis" where
  "record_jti used now jti until =
     (if is_some_and (\<lambda>remembered. now < remembered) (map_of used jti)
      then (Err JtiReplayed, used)
      else (Ok (), AList.update jti until used))"

definition sweep_expired_jtis :: "jtis \<Rightarrow> time \<Rightarrow> jtis" where
  "sweep_expired_jtis used now = filter (\<lambda>(jti, until). now < until) used"

section \<open>The invariant\<close>

definition sessions_wf :: "sessions \<Rightarrow> bool" where
  "sessions_wf s \<longleftrightarrow>
     distinct (map fst (by_id s)) \<and> distinct (map fst (by_user s)) \<and>
     (\<forall>u ids. map_of (by_user s) u = Some ids \<longrightarrow> ids \<noteq> [] \<and> distinct ids) \<and>
     (\<forall>u i. i \<in> set (ids_of s u) \<longleftrightarrow> (\<exists>d. map_of (by_id s) i = Some d \<and> user_id d = u))"

lemma sessions_wfD:
  assumes "sessions_wf s"
  shows "distinct (map fst (by_id s))" "distinct (map fst (by_user s))"
    "distinct (ids_of s u)"
    "i \<in> set (ids_of s u) \<longleftrightarrow> (\<exists>d. map_of (by_id s) i = Some d \<and> user_id d = u)"
proof -
  show "distinct (map fst (by_id s))" "distinct (map fst (by_user s))"
    "i \<in> set (ids_of s u) \<longleftrightarrow> (\<exists>d. map_of (by_id s) i = Some d \<and> user_id d = u)"
    using assms unfolding sessions_wf_def by blast+
  show "distinct (ids_of s u)"
    using assms unfolding sessions_wf_def ids_of_def by (cases "map_of (by_user s) u") auto
qed

lemma empty_sessions_wf [simp]: "sessions_wf empty_sessions"
  by (simp add: sessions_wf_def empty_sessions_def ids_of_def)

text \<open>Indexes are compared as functions from users to their lists of ids.\<close>

lemma ids_of_unindex:
  assumes "distinct (map fst (by_user s))"
  shows "ids_of (unindex s i u) v = (if v = u then filter (\<lambda>own. own \<noteq> i) (ids_of s v) else ids_of s v)"
  by (auto simp: unindex_def ids_of_def Let_def split: option.splits)

lemma unindex_by_id [simp]: "by_id (unindex s i u) = by_id s"
  by (simp add: unindex_def Let_def split: option.splits)

lemma unindex_by_user_distinct:
  "distinct (map fst (by_user s)) \<Longrightarrow> distinct (map fst (by_user (unindex s i u)))"
  by (simp add: unindex_def Let_def split: option.splits)

lemma unindex_no_empty:
  assumes "\<forall>u ids. map_of (by_user s) u = Some ids \<longrightarrow> ids \<noteq> [] \<and> distinct ids"
  shows "\<forall>u ids. map_of (by_user (unindex s i v)) u = Some ids \<longrightarrow> ids \<noteq> [] \<and> distinct ids"
  using assms by (auto simp: unindex_def Let_def split: option.splits if_splits)

lemma remove_session_wf [wf_intros]:
  assumes "sessions_wf s"
  shows "sessions_wf (snd (remove_session s i))"
proof (cases "map_of (by_id s) i")
  case None
  with assms show ?thesis by (simp add: remove_session_def)
next
  case (Some d)
  let ?s1 = "s\<lparr>by_id := AList.delete i (by_id s)\<rparr>"
  have ids: "ids_of ?s1 v = ids_of s v" for v by (simp add: ids_of_def)
  have idx: "ids_of (unindex ?s1 i (user_id d)) v = filter (\<lambda>own. own \<noteq> i) (ids_of s v)" for v
  proof (cases "v = user_id d")
    case True
    with assms show ?thesis by (simp add: ids_of_unindex ids sessions_wfD)
  next
    case False
    with assms Some have "i \<notin> set (ids_of s v)" by (auto simp: sessions_wfD)
    then have "filter (\<lambda>own. own \<noteq> i) (ids_of s v) = ids_of s v"
      by (auto intro!: filter_True)
    with assms False show ?thesis by (simp add: ids_of_unindex ids sessions_wfD)
  qed
  let ?t = "unindex ?s1 i (user_id d)"
  have "distinct (map fst (by_id ?t))" "distinct (map fst (by_user ?t))"
    using assms by (simp_all add: sessions_wfD unindex_by_user_distinct)
  moreover have "\<forall>u ids. map_of (by_user ?t) u = Some ids \<longrightarrow> ids \<noteq> [] \<and> distinct ids"
    by (rule unindex_no_empty) (use assms in \<open>simp add: sessions_wf_def\<close>)
  moreover have "(j \<in> set (ids_of ?t u)) = (\<exists>e. map_of (by_id ?t) j = Some e \<and> user_id e = u)" for u j
    by (auto simp: idx sessions_wfD(4) [OF assms])
  ultimately have "sessions_wf ?t" unfolding sessions_wf_def by blast
  with Some show ?thesis by (simp add: remove_session_def)
qed

lemma remove_session_lookup:
  "fst (remove_session s i) = map_of (by_id s) i"
  "map_of (by_id (snd (remove_session s i))) = (map_of (by_id s))(i := None)"
  by (auto simp: remove_session_def fun_upd_idem split: option.splits)

lemma insert_session_lookup [simp]:
  "map_of (by_id (insert_session s i d)) = (map_of (by_id s))(i \<mapsto> d)"
  by (simp add: insert_session_def Let_def split: option.splits)

lemma ids_of_insert_session:
  assumes "sessions_wf s"
  shows "ids_of (insert_session s i d) v =
    filter (\<lambda>own. own \<noteq> i) (ids_of s v) @ (if v = user_id d then [i] else [])"
proof -
  let ?s1 = "s\<lparr>by_id := AList.update i d (by_id s)\<rparr>"
  let ?s2 = "case map_of (by_id s) i of None \<Rightarrow> ?s1 | Some r \<Rightarrow> unindex ?s1 i (user_id r)"
  have ids1: "ids_of ?s1 w = ids_of s w" for w by (simp add: ids_of_def)
  have ids2: "ids_of ?s2 w = filter (\<lambda>own. own \<noteq> i) (ids_of s w)" for w
  proof (cases "map_of (by_id s) i")
    case None
    with assms have "i \<notin> set (ids_of s w)" by (simp add: sessions_wfD)
    with None show ?thesis by (auto simp: ids1 intro!: filter_True [symmetric])
  next
    case (Some r)
    show ?thesis
    proof (cases "w = user_id r")
      case True
      with assms Some show ?thesis by (simp add: ids_of_unindex ids1 sessions_wfD)
    next
      case False
      with assms Some have "i \<notin> set (ids_of s w)" by (auto simp: sessions_wfD)
      with assms Some False show ?thesis
        by (auto simp: ids_of_unindex ids1 sessions_wfD intro!: filter_True [symmetric])
    qed
  qed
  have "ids_of (insert_session s i d) v =
      (if v = user_id d then ids_of ?s2 v @ [i] else ids_of ?s2 v)"
    by (simp add: insert_session_def Let_def ids_of_def)
  then show ?thesis by (cases "v = user_id d") (simp_all add: ids2)
qed

lemma insert_session_wf [wf_intros]:
  assumes "sessions_wf s"
  shows "sessions_wf (insert_session s i d)"
proof -
  let ?t = "insert_session s i d"
  have "distinct (map fst (by_id ?t))"
    using assms by (simp add: insert_session_def Let_def sessions_wfD split: option.splits)
  moreover have "distinct (map fst (by_user ?t))"
    using assms by (simp add: insert_session_def Let_def sessions_wfD unindex_by_user_distinct
        split: option.splits)
  moreover have "ids \<noteq> [] \<and> distinct ids" if "map_of (by_user ?t) u = Some ids" for u ids
  proof -
    have "ids = ids_of ?t u" using that by (simp add: ids_of_def)
    then have "distinct ids" using assms by (simp add: ids_of_insert_session sessions_wfD)
    moreover have "ids \<noteq> []"
    proof (cases "u = user_id d")
      case True
      with \<open>ids = ids_of ?t u\<close> assms show ?thesis by (simp add: ids_of_insert_session)
    next
      case False
      let ?s1 = "s\<lparr>by_id := AList.update i d (by_id s)\<rparr>"
      have ne: "\<forall>u ids. map_of (by_user ?s1) u = Some ids \<longrightarrow> ids \<noteq> [] \<and> distinct ids"
        using assms by (simp add: sessions_wf_def)
      with that False show ?thesis
        using unindex_no_empty [OF ne, of i]
        by (cases "map_of (by_id s) i") (auto simp: insert_session_def Let_def)
    qed
    ultimately show ?thesis by simp
  qed
  moreover have "(j \<in> set (ids_of ?t u)) = (\<exists>e. map_of (by_id ?t) j = Some e \<and> user_id e = u)" for u j
    using assms by (auto simp: ids_of_insert_session sessions_wfD(4) [OF assms])
  ultimately show ?thesis unfolding sessions_wf_def by blast
qed

section \<open>Removing several sessions\<close>

lemma remove_all_wf [wf_intros]: "sessions_wf s \<Longrightarrow> sessions_wf (snd (remove_all s ids))"
  by (induction ids arbitrary: s) (simp_all add: Let_def case_prod_beta remove_session_wf)

lemma remove_all_lookup:
  "map_of (by_id (snd (remove_all s ids))) j = (if j \<in> set ids then None else map_of (by_id s) j)"
  by (induction ids arbitrary: s) (auto simp: Let_def case_prod_beta remove_session_lookup)

lemma remove_all_fst:
  "distinct ids \<Longrightarrow> fst (remove_all s ids) = List.map_filter (map_of (by_id s)) ids"
proof (induction ids arbitrary: s)
  case Nil
  then show ?case by (simp add: map_filter_simps)
next
  case (Cons i ids)
  let ?s1 = "snd (remove_session s i)"
  have "List.map_filter (map_of (by_id ?s1)) ids = List.map_filter (map_of (by_id s)) ids"
    using Cons.prems by (auto simp: List.map_filter_def remove_session_lookup intro!: map_cong filter_cong)
  with Cons show ?case
    by (simp add: Let_def case_prod_beta remove_session_lookup map_filter_simps split: option.splits)
qed

lemma set_map_filter: "set (List.map_filter f xs) = {y. \<exists>x \<in> set xs. f x = Some y}"
  by (induction xs) (auto simp: map_filter_simps split: option.splits)

lemma remove_session_ids_of:
  assumes "sessions_wf s"
  shows "ids_of (snd (remove_session s i)) u = filter (\<lambda>own. own \<noteq> i) (ids_of s u)"
proof (cases "map_of (by_id s) i")
  case None
  with assms have "i \<notin> set (ids_of s u)" by (simp add: sessions_wfD)
  then have "filter (\<lambda>own. own \<noteq> i) (ids_of s u) = ids_of s u" by (auto intro!: filter_True)
  with None show ?thesis by (simp add: remove_session_def)
next
  case (Some d)
  have ids: "ids_of (s\<lparr>by_id := al\<rparr>) v = ids_of s v" for al v by (simp add: ids_of_def)
  show ?thesis
  proof (cases "u = user_id d")
    case True
    with assms Some show ?thesis by (simp add: remove_session_def ids_of_unindex ids sessions_wfD)
  next
    case False
    with assms Some have "i \<notin> set (ids_of s u)" by (auto simp: sessions_wfD)
    then have "filter (\<lambda>own. own \<noteq> i) (ids_of s u) = ids_of s u" by (auto intro!: filter_True)
    with assms Some False show ?thesis
      by (simp add: remove_session_def ids_of_unindex ids sessions_wfD)
  qed
qed

lemma remove_all_ids_of:
  "sessions_wf s \<Longrightarrow> ids_of (snd (remove_all s ids)) u = filter (\<lambda>own. own \<notin> set ids) (ids_of s u)"
proof (induction ids arbitrary: s)
  case Nil
  then show ?case by simp
next
  case (Cons i ids)
  have "(\<lambda>own. own \<noteq> i \<and> own \<notin> set ids) = (\<lambda>own. own \<notin> set (i # ids))" by auto
  with Cons show ?case
    by (simp add: Let_def case_prod_beta remove_session_wf remove_session_ids_of)
qed

text \<open>Nothing is lost: what is removed and what stays together are what was there.\<close>

lemma remove_all_mset:
  assumes "sessions_wf s"
  shows "mset (map snd (by_id s)) =
    mset (fst (remove_all s ids)) + mset (map snd (by_id (snd (remove_all s ids))))"
  using assms
proof (induction ids arbitrary: s)
  case Nil
  then show ?case by simp
next
  case (Cons i ids)
  let ?s1 = "snd (remove_session s i)"
  have IH: "mset (map snd (by_id ?s1)) =
      mset (fst (remove_all ?s1 ids)) + mset (map snd (by_id (snd (remove_all ?s1 ids))))"
    using Cons by (simp add: remove_session_wf)
  show ?case
  proof (cases "map_of (by_id s) i")
    case None
    with IH show ?thesis by (simp add: remove_session_def)
  next
    case (Some d)
    have "mset (by_id s) = add_mset (i, d) (mset (AList.delete i (by_id s)))"
      using Cons.prems Some by (simp add: mset_delete_map_of sessions_wfD)
    then have "mset (map snd (by_id s)) = add_mset d (mset (map snd (by_id ?s1)))"
      using Some by (simp add: remove_session_def)
    with IH Some show ?thesis
      by (simp add: Let_def case_prod_beta remove_session_lookup)
  qed
qed

section \<open>Saving a session\<close>

lemma map_filter_own:
  assumes "sessions_wf s"
  shows "map fst (List.map_filter
      (\<lambda>i. map_option (\<lambda>d. (i, created_at d)) (map_of (by_id s) i)) (ids_of s u)) = ids_of s u"
proof -
  have "map fst (List.map_filter (\<lambda>i. map_option (\<lambda>d. (i, created_at d)) (map_of (by_id s) i)) ids) = ids"
    if "\<forall>i \<in> set ids. map_of (by_id s) i \<noteq> None" for ids
    using that by (induction ids) (auto simp: map_filter_simps)
  moreover have "\<forall>i \<in> set (ids_of s u). map_of (by_id s) i \<noteq> None"
    using assms by (auto simp: sessions_wfD)
  ultimately show ?thesis by blast
qed

lemma own_by_age_mset: "sessions_wf s \<Longrightarrow> mset (map fst (own_by_age s u)) = mset (ids_of s u)"
  unfolding own_by_age_def mset_map mset_sort by (simp only: map_filter_own flip: mset_map)

lemma own_by_age_props:
  assumes "sessions_wf s"
  shows "distinct (map fst (own_by_age s u))" "length (own_by_age s u) = length (ids_of s u)"
    "set (map fst (own_by_age s u)) = set (ids_of s u)"
    "sorted (map snd (own_by_age s u))"
    "(i, t) \<in> set (own_by_age s u) \<Longrightarrow> \<exists>d. map_of (by_id s) i = Some d \<and> created_at d = t \<and> user_id d = u"
proof -
  have ms: "mset (map fst (own_by_age s u)) = mset (ids_of s u)"
    by (rule own_by_age_mset [OF assms])
  then show "distinct (map fst (own_by_age s u))"
    using sessions_wfD(3) [OF assms] by (metis mset_eq_imp_distinct_iff)
  from ms show "length (own_by_age s u) = length (ids_of s u)"
    by (metis length_map mset_eq_length)
  from ms show st: "set (map fst (own_by_age s u)) = set (ids_of s u)"
    by (metis mset_eq_setD)
  show "sorted (map snd (own_by_age s u))" by (simp add: own_by_age_def)
  assume *: "(i, t) \<in> set (own_by_age s u)"
  then have "i \<in> set (ids_of s u)" using st by force
  moreover from * have "\<exists>d. map_of (by_id s) i = Some d \<and> created_at d = t"
    by (auto simp: own_by_age_def set_map_filter)
  ultimately show "\<exists>d. map_of (by_id s) i = Some d \<and> created_at d = t \<and> user_id d = u"
    using sessions_wfD(4) [OF assms] by force
qed

definition evicted_ids :: "sessions \<Rightarrow> string \<Rightarrow> session_data \<Rightarrow> string list" where
  "evicted_ids s i d =
     (let own = own_by_age (insert_session s i d) (user_id d)
      in map fst (take (length own - MAX_SESSIONS_PER_USER) own))"

lemma save_session_eq:
  "save_session s i d = remove_all (insert_session s i d) (evicted_ids s i d)"
  by (simp add: save_session_def evicted_ids_def Let_def)

lemma evicted_ids_distinct: "sessions_wf s \<Longrightarrow> distinct (evicted_ids s i d)"
  using own_by_age_props(1) [OF insert_session_wf]
  by (simp add: evicted_ids_def Let_def flip: take_map)

lemma evicted_ids_user:
  assumes "sessions_wf s" "j \<in> set (evicted_ids s i d)"
  shows "\<exists>e. ((map_of (by_id s))(i \<mapsto> d)) j = Some e \<and> user_id e = user_id d"
proof -
  let ?s1 = "insert_session s i d"
  have wf1: "sessions_wf ?s1" by (rule insert_session_wf [OF assms(1)])
  from assms(2) have "j \<in> set (map fst (own_by_age ?s1 (user_id d)))"
    by (auto simp: evicted_ids_def Let_def dest: in_set_takeD)
  then have "j \<in> set (ids_of ?s1 (user_id d))" using own_by_age_props(3) [OF wf1] by blast
  then show ?thesis using sessions_wfD(4) [OF wf1] by simp
qed

lemma save_session_wf [wf_intros]: "sessions_wf s \<Longrightarrow> sessions_wf (snd (save_session s i d))"
  by (simp add: save_session_eq remove_all_wf insert_session_wf)

lemma save_session_lookup:
  "get_session (snd (save_session s i d)) j =
     (if j \<in> set (evicted_ids s i d) then None else ((map_of (by_id s))(i \<mapsto> d)) j)"
  by (simp add: get_session_def save_session_eq remove_all_lookup)

lemma save_session_fst:
  "sessions_wf s \<Longrightarrow> fst (save_session s i d) =
     List.map_filter ((map_of (by_id s))(i \<mapsto> d)) (evicted_ids s i d)"
  by (simp add: save_session_eq remove_all_fst evicted_ids_distinct)

text \<open>The cap: after a save the user holds at most \<open>MAX_SESSIONS_PER_USER\<close> sessions, the newest.\<close>

lemma save_session_ids_of:
  assumes "sessions_wf s"
  shows "mset (ids_of (snd (save_session s i d)) (user_id d)) =
    mset (map fst (drop (length (own_by_age (insert_session s i d) (user_id d)) - MAX_SESSIONS_PER_USER)
      (own_by_age (insert_session s i d) (user_id d))))"
proof -
  let ?s1 = "insert_session s i d" and ?u = "user_id d"
  let ?own = "own_by_age ?s1 ?u"
  let ?n = "length ?own - MAX_SESSIONS_PER_USER"
  have wf1: "sessions_wf ?s1" by (rule insert_session_wf [OF assms])
  have "distinct (map fst (take ?n ?own @ drop ?n ?own))"
    using own_by_age_props(1) [OF wf1, of ?u] by simp
  then have "filter (\<lambda>k. k \<notin> set (map fst (take ?n ?own))) (map fst (take ?n ?own @ drop ?n ?own))
      = map fst (drop ?n ?own)"
    unfolding map_append filter_append
    by (subst filter_False, simp, subst filter_True) auto
  moreover have "mset (map fst (take ?n ?own @ drop ?n ?own)) = mset (ids_of ?s1 ?u)"
    using own_by_age_mset [OF wf1] by simp
  ultimately have "filter_mset (\<lambda>k. k \<notin> set (map fst (take ?n ?own))) (mset (ids_of ?s1 ?u))
      = mset (map fst (drop ?n ?own))"
    by (metis mset_filter)
  then show ?thesis
    by (simp add: save_session_eq remove_all_ids_of [OF wf1] evicted_ids_def Let_def)
qed

lemma save_session_cap:
  assumes "sessions_wf s"
  shows "length (ids_of (snd (save_session s i d)) (user_id d)) \<le> MAX_SESSIONS_PER_USER"
  using mset_eq_length [OF save_session_ids_of [OF assms, of i d]] by simp

lemma save_session_oldest:
  assumes wf: "sessions_wf s" and e: "j \<in> set (evicted_ids s i d)"
    and k: "k \<in> set (ids_of (snd (save_session s i d)) (user_id d))"
    and ej: "((map_of (by_id s))(i \<mapsto> d)) j = Some e" and ek: "((map_of (by_id s))(i \<mapsto> d)) k = Some f"
  shows "created_at e \<le> created_at f"
proof -
  let ?s1 = "insert_session s i d" and ?u = "user_id d"
  let ?own = "own_by_age ?s1 ?u"
  let ?n = "length ?own - MAX_SESSIONS_PER_USER"
  have wf1: "sessions_wf ?s1" by (rule insert_session_wf [OF wf])
  from e obtain t where t: "(j, t) \<in> set (take ?n ?own)" by (auto simp: evicted_ids_def Let_def)
  from k obtain t' where t': "(k, t') \<in> set (drop ?n ?own)"
    using mset_eq_setD [OF save_session_ids_of [OF wf, of i d]] by auto
  have "sorted (map snd (take ?n ?own) @ map snd (drop ?n ?own))"
    using own_by_age_props(4) [OF wf1, of ?u] by (simp only: map_append [symmetric] append_take_drop_id)
  then have "\<forall>x \<in> snd ` set (take ?n ?own). \<forall>y \<in> snd ` set (drop ?n ?own). x \<le> y"
    unfolding sorted_append set_map by (elim conjE)
  then have "t \<le> t'" using t t' by force
  moreover have "t = created_at e"
    using own_by_age_props(5) [OF wf1, of j t ?u] in_set_takeD [OF t] ej by auto
  moreover have "t' = created_at f"
    using own_by_age_props(5) [OF wf1, of k t' ?u] in_set_dropD [OF t'] ek by auto
  ultimately show ?thesis by simp
qed

lemma sort_key_snoc_max: "\<forall>y \<in> set xs. f y \<le> f x \<Longrightarrow> sort_key f (xs @ [x]) = sort_key f xs @ [x]"
proof (induction xs)
  case Nil
  then show ?case by simp
next
  case (Cons y ys)
  have "insort_key f y (zs @ [x]) = insort_key f y zs @ [x]" if "f y \<le> f x" for zs
    using that by (induction zs) auto
  with Cons show ?case by simp
qed

text \<open>A login no older than the user's others survives its own save (the sort is stable).\<close>

lemma save_session_keeps_new:
  assumes wf: "sessions_wf s"
    and newest: "\<And>j e. get_session s j = Some e \<Longrightarrow> user_id e = user_id d \<Longrightarrow> created_at e \<le> created_at d"
  shows "get_session (snd (save_session s i d)) i = Some d"
proof -
  let ?s1 = "insert_session s i d" and ?u = "user_id d"
  let ?f = "\<lambda>j. map_option (\<lambda>d. (j, created_at d)) (map_of (by_id ?s1) j)"
  let ?old = "filter (\<lambda>own. own \<noteq> i) (ids_of s ?u)"
  let ?own = "own_by_age ?s1 ?u"
  let ?n = "length ?own - MAX_SESSIONS_PER_USER"
  have wf1: "sessions_wf ?s1" by (rule insert_session_wf [OF wf])
  have "\<forall>y \<in> set (List.map_filter ?f ?old). snd y \<le> created_at d"
    using newest sessions_wfD(4) [OF wf] by (fastforce simp: set_map_filter get_session_def)
  moreover have "List.map_filter ?f (?old @ [i]) = List.map_filter ?f ?old @ [(i, created_at d)]"
    by (simp add: List.map_filter_def)
  moreover have "ids_of ?s1 ?u = ?old @ [i]" by (simp add: ids_of_insert_session [OF wf])
  ultimately have own: "?own = sort_key snd (List.map_filter ?f ?old) @ [(i, created_at d)]"
    by (simp add: own_by_age_def sort_key_snoc_max)
  have "?n \<le> length (sort_key snd (List.map_filter ?f ?old))"
    unfolding own by (simp add: MAX_SESSIONS_PER_USER_def)
  then have "take ?n ?own = take ?n (sort_key snd (List.map_filter ?f ?old))"
    by (subst (2) own) simp
  moreover have "i \<notin> fst ` set (sort_key snd (List.map_filter ?f ?old))"
    by (auto simp: set_map_filter)
  moreover have "set (evicted_ids s i d) = fst ` set (take ?n ?own)"
    by (simp add: evicted_ids_def Let_def)
  ultimately have "set (evicted_ids s i d) = fst ` set (take ?n (sort_key snd (List.map_filter ?f ?old)))"
    by simp
  also have "\<dots> \<subseteq> fst ` set (sort_key snd (List.map_filter ?f ?old))"
    by (intro image_mono set_take_subset)
  finally have "i \<notin> set (evicted_ids s i d)"
    using \<open>i \<notin> fst ` set (sort_key snd (List.map_filter ?f ?old))\<close> by blast
  then show ?thesis by (simp add: save_session_lookup)
qed

section \<open>Taking, updating and revoking\<close>

lemma take_session_eqs:
  "fst (take_session s i) = get_session s i"
  "get_session (snd (take_session s i)) = (get_session s)(i := None)"
  by (auto simp: take_session_def get_session_def remove_session_lookup)

lemma take_session_wf [wf_intros]: "sessions_wf s \<Longrightarrow> sessions_wf (snd (take_session s i))"
  by (simp add: take_session_def remove_session_wf)

lemma update_session_wf [wf_intros]: "sessions_wf s \<Longrightarrow> sessions_wf (snd (update_session s i d))"
  by (simp add: update_session_def remove_session_wf insert_session_wf)

lemma update_session_there:
  "get_session s i = Some e \<Longrightarrow>
   fst (update_session s i d) = Inr () \<and> get_session (snd (update_session s i d)) = (get_session s)(i \<mapsto> d)"
  by (auto simp: update_session_def get_session_def remove_session_lookup fun_eq_iff)

lemma update_session_gone: "get_session s i = None \<Longrightarrow> update_session s i d = (Inl SessionGone, s)"
  by (simp add: update_session_def get_session_def)

text \<open>Both branches of \<open>revoke\<close> pick exactly the matching sessions: the index agrees with a scan.\<close>

lemma selected_ids_iff:
  assumes "sessions_wf s"
  shows "i \<in> set (selected_ids s sel) \<longleftrightarrow> (\<exists>d. get_session s i = Some d \<and> matches sel d)"
proof (cases sel)
  case (User u)
  with sessions_wfD(4) [OF assms, of i u] show ?thesis
    by (cases "map_of (by_id s) i") (auto simp: get_session_def)
next
  case (UserSession u x)
  with sessions_wfD(4) [OF assms, of i u] show ?thesis
    by (cases "map_of (by_id s) i") (auto simp: get_session_def)
next
  case (Session x)
  with sessions_wfD(1) [OF assms] show ?thesis
    by (force simp: get_session_def)
qed

lemma selected_ids_distinct: "sessions_wf s \<Longrightarrow> distinct (selected_ids s sel)"
  by (cases sel) (simp_all add: sessions_wfD)

lemma revoke_wf [wf_intros]: "sessions_wf s \<Longrightarrow> sessions_wf (snd (revoke s sel))"
  by (simp add: revoke_def remove_all_wf)

lemma revoke_lookup:
  assumes "sessions_wf s"
  shows "get_session (snd (revoke s sel)) j = opt_filter (\<lambda>d. \<not> matches sel d) (get_session s j)"
  using selected_ids_iff [OF assms, of j sel]
  by (cases "get_session s j") (simp_all add: revoke_def get_session_def remove_all_lookup)

lemma revoke_fst:
  assumes "sessions_wf s"
  shows "set (fst (revoke s sel)) = {d. matches sel d \<and> (\<exists>j. get_session s j = Some d)}"
proof -
  have "fst (revoke s sel) = List.map_filter (get_session s) (selected_ids s sel)"
    using assms by (simp add: revoke_def remove_all_fst selected_ids_distinct get_session_def [abs_def])
  then show ?thesis
    using selected_ids_iff [OF assms] by (auto simp: set_map_filter)
qed

lemma revoke_mset:
  "sessions_wf s \<Longrightarrow> mset (map snd (by_id s)) =
     mset (fst (revoke s sel)) + mset (map snd (by_id (snd (revoke s sel))))"
  unfolding revoke_def by (rule remove_all_mset)

section \<open>The stores provide the interfaces\<close>

lemma get_session_eq: "get_session s = map_of (by_id s)"
  by (simp add: get_session_def fun_eq_iff)

interpretation mem: session_storage save_session get_session update_session take_session revoke sessions_wf
proof unfold_locales
  fix s i d j e sel
  assume wf: "sessions_wf s"
  show "finite (dom (get_session s))" by (simp add: get_session_def [abs_def] finite_dom_map_of)
  show "get_session (snd (save_session s i d)) \<subseteq>\<^sub>m (get_session s)(i \<mapsto> d)"
    by (auto simp: map_le_def get_session_eq
        save_session_lookup [unfolded get_session_eq] split: if_splits)
  show "get_session (snd (save_session s i d)) j = Some e"
    if "j \<noteq> i" "get_session s j = Some e" "user_id e \<noteq> user_id d"
    using that evicted_ids_user [OF wf, of j i d] unfolding save_session_lookup
    by (auto simp: get_session_def)
  show "e \<in> set (fst (save_session s i d))"
    if "((get_session s)(i \<mapsto> d)) j = Some e" "get_session (snd (save_session s i d)) j = None"
  proof -
    have "((map_of (by_id s))(i \<mapsto> d)) j = Some e" using that(1) by (simp add: get_session_def split: if_splits)
    moreover from this that(2) have "j \<in> set (evicted_ids s i d)"
      by (simp add: save_session_lookup split: if_splits)
    ultimately show ?thesis unfolding save_session_fst [OF wf] set_map_filter by blast
  qed
qed (simp_all add: save_session_wf update_session_wf take_session_wf revoke_wf update_session_gone
    update_session_there take_session_eqs revoke_lookup revoke_fst)

definition jtis_wf :: "jtis \<Rightarrow> bool" where
  "jtis_wf used = distinct (map fst used)"

definition jti_remembered :: "jtis \<Rightarrow> string \<Rightarrow> time \<Rightarrow> bool" where
  "jti_remembered used jti t = is_some_and (\<lambda>until. t < until) (map_of used jti)"

interpretation jti: jti_storage record_jti jti_remembered jtis_wf
  by unfold_locales (auto simp: jtis_wf_def jti_remembered_def record_jti_def)

section \<open>Sweeping\<close>

definition session_live :: "sessions \<Rightarrow> time \<Rightarrow> string \<Rightarrow> bool" where
  "session_live s t i = is_some_and (\<lambda>d. t < ends_at d) (get_session s i)"

lemma sweep_sessions_lookup:
  assumes "sessions_wf s"
  shows "get_session (sweep_expired_sessions s now) j =
    opt_filter (\<lambda>d. now < ends_at d) (get_session s j)"
proof -
  have "j \<in> fst ` set (filter (\<lambda>(i, d). ends_at d \<le> now) (by_id s)) \<longleftrightarrow>
      (\<exists>d. get_session s j = Some d \<and> ends_at d \<le> now)"
    using sessions_wfD(1) [OF assms] by (force simp: get_session_def)
  then show ?thesis
    by (cases "get_session s j")
      (auto simp: sweep_expired_sessions_def get_session_def remove_all_lookup)
qed

lemma sweep_expired_sessions_wf [wf_intros]:
  "sessions_wf s \<Longrightarrow> sessions_wf (sweep_expired_sessions s now)"
  by (simp add: sweep_expired_sessions_def remove_all_wf)

interpretation session_sweep: expiry_maintenance sweep_expired_sessions session_live
    "\<lambda>s. dom (get_session s)" sessions_wf
proof unfold_locales
  fix s now t k
  assume wf: "sessions_wf s"
  show "sessions_wf (sweep_expired_sessions s now)" by (rule sweep_expired_sessions_wf [OF wf])
  show "session_live (sweep_expired_sessions s now) t k = session_live s t k" if "now \<le> t"
    using that by (cases "get_session s k") (auto simp: session_live_def sweep_sessions_lookup [OF wf])
  show "dom (get_session (sweep_expired_sessions s now)) = {k \<in> dom (get_session s). session_live s now k}"
    by (auto simp: dom_def session_live_def sweep_sessions_lookup [OF wf])
qed

lemma sweep_jtis_lookup:
  "jtis_wf used \<Longrightarrow> map_of (sweep_expired_jtis used now) j = opt_filter (\<lambda>u. now < u) (map_of used j)"
  by (simp add: sweep_expired_jtis_def jtis_wf_def map_of_filter_value)

interpretation jti_sweep: expiry_maintenance sweep_expired_jtis
    "\<lambda>used t j. jti_remembered used j t" "\<lambda>used. dom (map_of used)" jtis_wf
proof unfold_locales
  fix s now t k
  assume wf: "jtis_wf s"
  show "jtis_wf (sweep_expired_jtis s now)" using wf by (simp add: jtis_wf_def sweep_expired_jtis_def)
  show "jti_remembered (sweep_expired_jtis s now) k t = jti_remembered s k t" if "now \<le> t"
    using that by (cases "map_of s k") (auto simp: jti_remembered_def sweep_jtis_lookup [OF wf])
  show "dom (map_of (sweep_expired_jtis s now)) = {k \<in> dom (map_of s). jti_remembered s k now}"
    by (auto simp: dom_def jti_remembered_def sweep_jtis_lookup [OF wf])
qed

end
