(* ===== verification/BffApp.thy ===== *)
theory BffApp
  imports Tokens InMemory
begin

text \<open>
  The state every handler of bff shares (\<open>bff/src/server/mod.rs\<close>) with the operations on it that end
  sessions, the rate limits (\<open>rate_limit.rs\<close>) and the origin check (\<open>origin_check.rs\<close>). The
  requests bff sends to Hydra are recorded in \<open>hydra_log\<close>, oldest first, so that a theorem can say
  which were sent; Hydra's answers are arguments. The refresh locks are the subject of
  \<open>RefreshLock\<close>.
\<close>

section \<open>Origins\<close>

datatype origin_error = OriginMissing | OriginUnreadable | OriginUntrusted string

definition request_origin :: "libs \<Rightarrow> headers \<Rightarrow> origin_error + string" where
  "request_origin L h = (case header_get h ''origin'' of
     Some origin \<Rightarrow> ok_or (header_str L origin) OriginUnreadable
   | None \<Rightarrow> ok_or (map_option url_origin (Option.bind (Option.bind (header_get h ''referer'') (header_str L))
                     (parse_url L))) OriginMissing)"

definition require_trusted_origin :: "libs \<Rightarrow> headers \<Rightarrow> string list \<Rightarrow> origin_error + unit" where
  "require_trusted_origin L h trusted = (case request_origin L h of
     Inl e \<Rightarrow> Err e
   | Inr origin \<Rightarrow> if list_ex (\<lambda>t. t = origin) trusted then Ok () else Err (OriginUntrusted origin))"

definition trusted_origins_of :: "libs \<Rightarrow> config \<Rightarrow> (string list) option" where
  "trusted_origins_of L c =
     map_option (\<lambda>u. trusted_origins c @ [url_origin u]) (parse_url L (bff_url c))"

lemma require_trusted_origin_ok:
  "require_trusted_origin L h trusted = Inr () \<longleftrightarrow>
     (\<exists>origin. request_origin L h = Inr origin \<and> origin \<in> set trusted)"
  by (auto simp: require_trusted_origin_def list_ex_iff split: sum.splits if_splits)

section \<open>The state\<close>

definition RATE_LIMIT_WINDOW_SECS :: nat where "RATE_LIMIT_WINDOW_SECS = 60"

record rate_limits =
  auth_bucket :: bucket
  proxy_bucket :: bucket

definition new_rate_limits :: "config \<Rightarrow> governor_config_error + rate_limits" where
  "new_rate_limits c =
     (case build_governor (unat (rate_limit_max_attempts c)) RATE_LIMIT_WINDOW_SECS of
        Inl e \<Rightarrow> Err e
      | Inr auth \<Rightarrow> (case build_governor (unat (rate_limit_proxy_max_attempts c)) RATE_LIMIT_WINDOW_SECS of
          Inl e \<Rightarrow> Err e
        | Inr proxy \<Rightarrow> Ok \<lparr>auth_bucket = auth, proxy_bucket = proxy\<rparr>))"

record app_state =
  app_config :: config
  app_sessions :: sessions
  app_jtis :: jtis
  app_hydra :: hydra
  app_jwks :: jwks_cache
  app_limits :: rate_limits
  app_origins :: "string list"
  hydra_log :: "hydra_request list"

datatype app_error = App_rate_limit governor_config_error | App_bff_url

definition new_app :: "libs \<Rightarrow> config \<Rightarrow> app_error + app_state" where
  "new_app L c =
     (case new_rate_limits c of
        Inl e \<Rightarrow> Err (App_rate_limit e)
      | Inr limits \<Rightarrow> (case trusted_origins_of L c of
          None \<Rightarrow> Err App_bff_url
        | Some origins \<Rightarrow> Ok \<lparr>app_config = c, app_sessions = empty_sessions, app_jtis = empty_jtis,
            app_hydra = new_hydra c, app_jwks = empty_jwks_cache, app_limits = limits,
            app_origins = origins, hydra_log = []\<rparr>))"

definition log_request :: "app_state \<Rightarrow> hydra_request \<Rightarrow> app_state" where
  "log_request a r = a\<lparr>hydra_log := hydra_log a @ [r]\<rparr>"

definition revocation_of :: "libs \<Rightarrow> app_state \<Rightarrow> session_data \<Rightarrow> hydra_request" where
  "revocation_of L a d = revoke_request L (app_hydra a) (refresh_token d)"

section \<open>Ending sessions\<close>

text \<open>What Hydra answers to a revocation is only logged.\<close>

definition end_session :: "libs \<Rightarrow> app_state \<Rightarrow> string \<Rightarrow> session_data option \<times> app_state" where
  "end_session L a session_id =
     (case take_session (app_sessions a) session_id of
        (None, s) \<Rightarrow> (None, a\<lparr>app_sessions := s\<rparr>)
      | (Some d, s) \<Rightarrow> (Some d, log_request (a\<lparr>app_sessions := s\<rparr>) (revocation_of L a d)))"

text \<open>The revocations run at once; the order of the list stands for any.\<close>

definition revoke_refresh_tokens :: "libs \<Rightarrow> app_state \<Rightarrow> session_data list \<Rightarrow> app_state" where
  "revoke_refresh_tokens L a ended = foldl (\<lambda>a d. log_request a (revocation_of L a d)) a ended"

definition end_sessions :: "libs \<Rightarrow> app_state \<Rightarrow> session_selector \<Rightarrow> app_state" where
  "end_sessions L a sel =
     (let (ended, s) = revoke (app_sessions a) sel
      in revoke_refresh_tokens L (a\<lparr>app_sessions := s\<rparr>) ended)"

text \<open>One tick of the periodic sweep; each store reads the clock itself.\<close>

definition expiry_sweep :: "app_state \<Rightarrow> time \<Rightarrow> time \<Rightarrow> app_state" where
  "expiry_sweep a now1 now2 = a\<lparr>app_sessions := sweep_expired_sessions (app_sessions a) now1,
     app_jtis := sweep_expired_jtis (app_jtis a) now2\<rparr>"

definition app_wf :: "app_state \<Rightarrow> bool" where
  "app_wf a \<longleftrightarrow> sessions_wf (app_sessions a) \<and> jtis_wf (app_jtis a)"

lemma new_app_wf: "new_app L c = Inr a \<Longrightarrow> app_wf a"
  by (auto simp: new_app_def app_wf_def jtis_wf_def empty_jtis_def split: sum.splits option.splits)

lemma log_request_simps [simp]:
  "app_config (log_request a r) = app_config a" "app_sessions (log_request a r) = app_sessions a"
  "app_jtis (log_request a r) = app_jtis a" "app_hydra (log_request a r) = app_hydra a"
  "app_jwks (log_request a r) = app_jwks a" "app_origins (log_request a r) = app_origins a"
  "hydra_log (log_request a r) = hydra_log a @ [r]" "app_wf (log_request a r) = app_wf a"
  by (simp_all add: log_request_def app_wf_def)

lemma revocation_of_cong: "app_hydra a = app_hydra b \<Longrightarrow> revocation_of L a d = revocation_of L b d"
  by (simp add: revocation_of_def)

lemma revoke_refresh_tokens_eq:
  "revoke_refresh_tokens L a ds = a\<lparr>hydra_log := hydra_log a @ map (revocation_of L a) ds\<rparr>"
proof (induction ds arbitrary: a)
  case Nil
  show ?case by (simp add: revoke_refresh_tokens_def)
next
  case (Cons d ds)
  have "revoke_refresh_tokens L a (d # ds) = revoke_refresh_tokens L (log_request a (revocation_of L a d)) ds"
    by (simp add: revoke_refresh_tokens_def)
  moreover have "revocation_of L (log_request a (revocation_of L a d)) = revocation_of L a"
    by (intro ext revocation_of_cong) simp
  ultimately show ?case by (simp add: Cons.IH) (simp add: log_request_def)
qed

lemma revoke_refresh_tokens_simps [simp]:
  "app_config (revoke_refresh_tokens L a ds) = app_config a"
  "app_sessions (revoke_refresh_tokens L a ds) = app_sessions a"
  "app_jtis (revoke_refresh_tokens L a ds) = app_jtis a"
  "app_hydra (revoke_refresh_tokens L a ds) = app_hydra a"
  "app_jwks (revoke_refresh_tokens L a ds) = app_jwks a"
  "hydra_log (revoke_refresh_tokens L a ds) = hydra_log a @ map (revocation_of L a) ds"
  by (simp_all add: revoke_refresh_tokens_eq)

lemma end_session_eq:
  "fst (end_session L a i) = get_session (app_sessions a) i"
  "app_sessions (snd (end_session L a i)) = snd (take_session (app_sessions a) i)"
  "app_config (snd (end_session L a i)) = app_config a"
  "app_hydra (snd (end_session L a i)) = app_hydra a"
  "app_jtis (snd (end_session L a i)) = app_jtis a"
  "hydra_log (snd (end_session L a i)) = hydra_log a @
     (case get_session (app_sessions a) i of None \<Rightarrow> [] | Some d \<Rightarrow> [revocation_of L a d])"
  by (auto simp: end_session_def take_session_def remove_session_def get_session_def split: option.splits)

lemma end_sessions_eq:
  "app_sessions (end_sessions L a sel) = snd (revoke (app_sessions a) sel)"
  "app_config (end_sessions L a sel) = app_config a"
  "app_hydra (end_sessions L a sel) = app_hydra a"
  "app_jtis (end_sessions L a sel) = app_jtis a"
  "hydra_log (end_sessions L a sel) = hydra_log a @ map (revocation_of L a) (fst (revoke (app_sessions a) sel))"
  by (auto simp: end_sessions_def case_prod_beta Let_def intro!: map_cong revocation_of_cong)

lemma end_session_wf [wf_intros]: "app_wf a \<Longrightarrow> app_wf (snd (end_session L a i))"
  by (simp add: app_wf_def end_session_eq mem.tak_wf)

lemma end_sessions_wf [wf_intros]: "app_wf a \<Longrightarrow> app_wf (end_sessions L a sel)"
  by (simp add: app_wf_def end_sessions_eq mem.rev_sel_wf)

lemma expiry_sweep_wf [wf_intros]: "app_wf a \<Longrightarrow> app_wf (expiry_sweep a t1 t2)"
  by (simp add: app_wf_def expiry_sweep_def session_sweep.sweep_wf jti_sweep.sweep_wf)

text \<open>Ending sessions by selector leaves no matching session and every other as it was, and asks
  Hydra to revoke the refresh token of each session it ended, of nothing else.\<close>

theorem end_sessions_revokes_tokens:
  assumes "app_wf a"
  shows "(\<forall>i. get_session (app_sessions (end_sessions L a sel)) i =
            opt_filter (\<lambda>d. \<not> matches sel d) (get_session (app_sessions a) i)) \<and>
    (\<exists>requests. hydra_log (end_sessions L a sel) = hydra_log a @ requests \<and>
       set requests = {revoke_request L (app_hydra a) (refresh_token d) | d i.
          get_session (app_sessions a) i = Some d \<and> matches sel d})"
proof (intro conjI allI exI)
  have wf: "sessions_wf (app_sessions a)" using assms by (simp add: app_wf_def)
  show "get_session (app_sessions (end_sessions L a sel)) i =
      opt_filter (\<lambda>d. \<not> matches sel d) (get_session (app_sessions a) i)" for i
    by (simp add: end_sessions_eq mem.rev_sel_snd [OF wf])
  show "hydra_log (end_sessions L a sel) = hydra_log a @ map (revocation_of L a) (fst (revoke (app_sessions a) sel))"
    by (rule end_sessions_eq)
  show "set (map (revocation_of L a) (fst (revoke (app_sessions a) sel))) =
      {revoke_request L (app_hydra a) (refresh_token d) | d i. get_session (app_sessions a) i = Some d \<and> matches sel d}"
    unfolding set_map mem.rev_sel_fst [OF wf] by (auto simp: revocation_of_def)
qed

definition demo_app :: "sessions \<Rightarrow> app_state" where
  "demo_app s = \<lparr>app_config = demo_config, app_sessions = s, app_jtis = [], app_hydra = demo_hydra,
     app_jwks = empty_jwks_cache,
     app_limits = \<lparr>auth_bucket = \<lparr>burst_size = 10, replenish_ms = 6000\<rparr>, proxy_bucket = \<lparr>burst_size = 600, replenish_ms = 100\<rparr>\<rparr>,
     app_origins = [''https://app.test''], hydra_log = []\<rparr>"

lemma demo_app_wf: "sessions_wf s \<Longrightarrow> app_wf (demo_app s)"
  by (simp add: app_wf_def demo_app_def jtis_wf_def)

definition demo_data :: "uuid \<Rightarrow> string \<Rightarrow> time \<Rightarrow> session_data" where
  "demo_data u rt t = \<lparr>access_token = ''at'', refresh_token = rt, id_token = ''it'',
     expires_at = t + seconds 3600, created_at = t, refresh_expires_at = t + seconds 86400,
     user_id = u, sid = Some ''sid''\<rparr>"

definition demo_sessions :: sessions where
  "demo_sessions = snd (save_session empty_sessions ''a'' (demo_data 1 ''rt'' 0))"

lemma demo_sessions_wf [simp]: "sessions_wf demo_sessions"
  by (simp add: demo_sessions_def wf_intros)

theorem end_sessions_revokes_tokens_witness:
  "\<forall>i. get_session (app_sessions (end_sessions demo_libs (demo_app demo_sessions) (User 1))) i =
     opt_filter (\<lambda>d. user_id d \<noteq> 1) (get_session demo_sessions i)"
  using end_sessions_revokes_tokens [OF demo_app_wf [OF demo_sessions_wf], of demo_libs "User 1"]
  by (simp add: demo_app_def)

end
