(* ===== verification/Proxy.thy ===== *)
theory Proxy
  imports BffApp
begin

text \<open>
  The proxy of bff (\<open>bff/src/server/api/proxy.rs\<close>): \<open>authenticate\<close>, which guards every proxied
  request, and \<open>resolve_bearer_token\<close>, which turns a session into the access token to forward and
  refreshes it when it is about to expire. What other requests do to the shared state while one waits
  (for its turn to refresh, or for Hydra) is a function of the state; \<open>RefreshLock\<close> treats the
  interleavings step by step. The upstream is a function from the headers it is sent to its response.
\<close>

section \<open>Resolving the access token\<close>

datatype proxy_service_error =
    Unauthenticated
  | RefreshRefused string nat
  | RefreshUnavailable hydra_error

definition ACCESS_TOKEN_REFRESH_LEEWAY :: duration where
  "ACCESS_TOKEN_REFRESH_LEEWAY = seconds 5"

definition is_fresh :: "time \<Rightarrow> session_data \<Rightarrow> bool" where
  "is_fresh now d \<longleftrightarrow> now + ACCESS_TOKEN_REFRESH_LEEWAY < expires_at d"

text \<open>The session a refresh leaves: new access token and expiry, the rotated refresh token if there is
  one with a new life, everything else as it was. \<open>now\<close> is read for the refresh token's expiry, \<open>now'\<close>
  for the access token's.\<close>

definition refreshed_session :: "duration \<Rightarrow> session_data \<Rightarrow> token_set \<Rightarrow> time \<Rightarrow> time \<Rightarrow> session_data" where
  "refreshed_session ttl d tokens now now' =
     (let (rt, rt_expires) = (case ts_refresh_token tokens of
            Some rotated \<Rightarrow> (rotated, now + ttl)
          | None \<Rightarrow> (refresh_token d, refresh_expires_at d))
      in \<lparr>access_token = ts_access_token tokens, refresh_token = rt, id_token = id_token d,
          expires_at = now' + ts_expires_in tokens, created_at = created_at d,
          refresh_expires_at = rt_expires, user_id = user_id d, sid = sid d\<rparr>)"

text \<open>What happens once Hydra has answered, in the state as it is then.\<close>

definition refresh_finish ::
    "libs \<Rightarrow> app_state \<Rightarrow> string \<Rightarrow> session_data \<Rightarrow> sent \<Rightarrow> time \<Rightarrow> time \<Rightarrow>
     (proxy_service_error + session_data) \<times> app_state" where
  "refresh_finish L a session_id d answer now now' =
     (case token_request L answer of
        Inl (Rejected endpoint status) \<Rightarrow>
          (Err (RefreshRefused endpoint status),
           a\<lparr>app_sessions := snd (take_session (app_sessions a) session_id)\<rparr>)
      | Inl error \<Rightarrow> (Err (RefreshUnavailable error), a)
      | Inr tokens \<Rightarrow>
          let new = refreshed_session (refresh_ttl (app_hydra a)) d tokens now now' in
          (case update_session (app_sessions a) session_id new of
             (Inl SessionGone, s) \<Rightarrow>
               (Err Unauthenticated, log_request (a\<lparr>app_sessions := s\<rparr>) (revocation_of L a new))
           | (Inr _, s) \<Rightarrow> (Ok new, a\<lparr>app_sessions := s\<rparr>)))"

text \<open>\<open>others\<close> is what other requests do while Hydra is asked.\<close>

definition refresh_session ::
    "libs \<Rightarrow> app_state \<Rightarrow> (app_state \<Rightarrow> app_state) \<Rightarrow> string \<Rightarrow> session_data \<Rightarrow> sent \<Rightarrow> time \<Rightarrow> time \<Rightarrow>
     (proxy_service_error + session_data) \<times> app_state" where
  "refresh_session L a others session_id d answer now now' =
     refresh_finish L (others (log_request a (refresh_request L (app_hydra a) (refresh_token d))))
       session_id d answer now now'"

text \<open>The part before the lock: \<open>None\<close> when the session's turn to refresh has to be waited for. The two
  clock readings are \<open>t1\<close> and \<open>t2\<close>.\<close>

definition resolve_unlocked ::
    "app_state \<Rightarrow> string \<Rightarrow> time \<Rightarrow> time \<Rightarrow> (proxy_service_error + string) option" where
  "resolve_unlocked a session_id t1 t2 =
     (case get_session (app_sessions a) session_id of
        None \<Rightarrow> Some (Err Unauthenticated)
      | Some d \<Rightarrow>
          if ends_at d \<le> t1 then Some (Err Unauthenticated)
          else if is_fresh t2 d then Some (Ok (access_token d))
          else None)"

text \<open>The part under the lock.\<close>

definition resolve_locked ::
    "libs \<Rightarrow> app_state \<Rightarrow> (app_state \<Rightarrow> app_state) \<Rightarrow> string \<Rightarrow> time \<Rightarrow> sent \<Rightarrow> time \<Rightarrow> time \<Rightarrow>
     (proxy_service_error + string) \<times> app_state" where
  "resolve_locked L a others session_id t3 answer t4 t5 =
     (case get_session (app_sessions a) session_id of
        None \<Rightarrow> (Err Unauthenticated, a)
      | Some d \<Rightarrow>
          if is_fresh t3 d then (Ok (access_token d), a)
          else (case refresh_session L a others session_id d answer t4 t5 of
                  (Inl e, a') \<Rightarrow> (Err e, a')
                | (Inr new, a') \<Rightarrow> (Ok (access_token new), a')))"

record resolve_world =
  rw_t1 :: time
  rw_t2 :: time
  rw_t3 :: time
  rw_t4 :: time
  rw_t5 :: time
  rw_waiting :: "app_state \<Rightarrow> app_state"
  rw_asking :: "app_state \<Rightarrow> app_state"
  rw_answer :: sent

definition resolve_bearer_token ::
    "libs \<Rightarrow> app_state \<Rightarrow> resolve_world \<Rightarrow> string \<Rightarrow> (proxy_service_error + string) \<times> app_state" where
  "resolve_bearer_token L a w session_id =
     (case resolve_unlocked a session_id (rw_t1 w) (rw_t2 w) of
        Some r \<Rightarrow> (r, a)
      | None \<Rightarrow> resolve_locked L (rw_waiting w a) (rw_asking w) session_id (rw_t3 w) (rw_answer w) (rw_t4 w) (rw_t5 w))"

section \<open>Guarding a request\<close>

datatype proxy_error = PathNotProxied | ProxyUnauthenticated | ProxyRefreshUnavailable | UntrustedOrigin

fun proxy_error_of :: "proxy_service_error \<Rightarrow> proxy_error" where
  "proxy_error_of Unauthenticated = ProxyUnauthenticated"
| "proxy_error_of (RefreshRefused e s) = ProxyUnauthenticated"
| "proxy_error_of (RefreshUnavailable e) = ProxyRefreshUnavailable"

fun proxy_error_response :: "proxy_error \<Rightarrow> error_response" where
  "proxy_error_response PathNotProxied =
     \<lparr>er_status = 404, er_reason = ''PathNotProxied'', er_details = ''not found''\<rparr>"
| "proxy_error_response ProxyUnauthenticated =
     \<lparr>er_status = 401, er_reason = ''Unauthenticated'', er_details = ''missing or invalid session''\<rparr>"
| "proxy_error_response ProxyRefreshUnavailable =
     \<lparr>er_status = 502, er_reason = ''RefreshUnavailable'', er_details = ''session refresh failed''\<rparr>"
| "proxy_error_response UntrustedOrigin =
     \<lparr>er_status = 403, er_reason = ''UntrustedOrigin'', er_details = ''request did not come from a trusted origin''\<rparr>"

definition REQUEST_HEADERS :: "string list" where
  "REQUEST_HEADERS = [''content-type'', ''accept'', ''accept-language'', ''if-match'', ''if-none-match'',
     ''if-modified-since'', ''if-unmodified-since'']"

definition RESPONSE_HEADERS :: "string list" where
  "RESPONSE_HEADERS = [''content-type'', ''content-encoding'', ''content-disposition'',
     ''content-security-policy'', ''cache-control'', ''location'', ''vary'', ''etag'', ''last-modified'',
     ''www-authenticate'', ''retry-after'']"

definition DEFAULT_CONTENT_SECURITY_POLICY :: string where
  "DEFAULT_CONTENT_SECURITY_POLICY = ''sandbox; frame-ancestors '' @ [CHR 0x27] @ ''none'' @ [CHR 0x27]"

definition SHARED_CACHE_DIRECTIVES :: "string list" where
  "SHARED_CACHE_DIRECTIVES = [''public'', ''s-maxage'', ''private'', ''no-store'']"

text \<open>The routes of the configuration: those nested at their prefix, and the one for everything else.\<close>

definition nested_routes :: "config \<Rightarrow> (string \<times> string) list" where
  "nested_routes c = map (\<lambda>r. (path_prefix r, upstream_url r)) (filter (\<lambda>r. path_prefix r \<noteq> ''/'') (routes c))"

definition fallback_route :: "config \<Rightarrow> string option" where
  "fallback_route c =
     (case filter (\<lambda>r. path_prefix r = ''/'') (routes c) of [] \<Rightarrow> None | rs \<Rightarrow> Some (upstream_url (last rs)))"

text \<open>\<open>char::is_control\<close> over UTF-8: the bytes of U+0000 to U+001F, U+007F, and U+0080 to U+009F.\<close>

fun has_control :: "string \<Rightarrow> bool" where
  "has_control [] = False"
| "has_control [x] \<longleftrightarrow> byte x < 32 \<or> byte x = 127"
| "has_control (x # y # s) \<longleftrightarrow> byte x < 32 \<or> byte x = 127 \<or>
     (byte x = 0xC2 \<and> 0x80 \<le> byte y \<and> byte y \<le> 0x9F) \<or> has_control (y # s)"

definition dots_only :: "string \<Rightarrow> bool" where
  "dots_only name \<longleftrightarrow> starts_with name ''.'' \<and> trim_end_matches (\<lambda>c. c = CHR ''.'' \<or> c = CHR '' '') name = []"

definition dirty_text :: "string \<Rightarrow> bool" where
  "dirty_text text \<longleftrightarrow> dots_only (hd (split_on (CHR '';'') text)) \<or>
     CHR ''/'' \<in> set text \<or> CHR 0x5C \<in> set text \<or> has_control text"

definition is_clean_path :: "libs \<Rightarrow> string \<Rightarrow> bool" where
  "is_clean_path L path = (\<not> list_ex (\<lambda>segment.
     (let once = pct_decode L segment; twice = pct_decode L once
      in list_ex dirty_text [once, twice])) (split_on (CHR ''/'') path))"

text \<open>The directives of the readable \<open>Cache-Control\<close> values: name, and whether it has an argument.\<close>

definition cache_directives :: "libs \<Rightarrow> headers \<Rightarrow> (string \<times> bool) list" where
  "cache_directives L h =
     map (\<lambda>d. case split_once (CHR ''='') d of Some (name, _) \<Rightarrow> (trim name, True) | None \<Rightarrow> (trim d, False))
       (concat (map (split_on (CHR '','')) (List.map_filter (header_str L) (header_get_all h ''cache-control''))))"

definition cache_settled :: "libs \<Rightarrow> headers \<Rightarrow> bool" where
  "cache_settled L h = list_ex (\<lambda>(name, _). list_ex (eq_ignore_ascii_case name) SHARED_CACHE_DIRECTIVES)
     (filter (\<lambda>(name, has_argument). \<not> (has_argument \<and> eq_ignore_ascii_case name ''private'')) (cache_directives L h))"

definition keep_out_of_shared_caches :: "libs \<Rightarrow> headers \<Rightarrow> headers" where
  "keep_out_of_shared_caches L h =
     (if \<not> header_contains h ''cache-control'' then header_insert h ''cache-control'' ''no-store''
      else if cache_settled L h then h
      else header_append h ''cache-control'' ''private'')"

definition allowed :: "headers \<Rightarrow> string list \<Rightarrow> headers" where
  "allowed h names = concat (map (\<lambda>name. map (\<lambda>v. (name, v)) (header_get_all h name)) names)"

definition needs_trusted_origin :: "string \<Rightarrow> bool" where
  "needs_trusted_origin method \<longleftrightarrow> method \<notin> {''GET'', ''HEAD'', ''OPTIONS''}"

record request =
  req_method :: string
  req_path :: string
  req_headers :: headers

definition guard_response :: "libs \<Rightarrow> response \<Rightarrow> response" where
  "guard_response L r =
     (let h = header_insert (allowed (rsp_headers r) RESPONSE_HEADERS) ''x-content-type-options'' ''nosniff'';
          h = (if \<not> header_contains h ''content-security-policy''
               then header_insert h ''content-security-policy'' DEFAULT_CONTENT_SECURITY_POLICY else h)
      in r\<lparr>rsp_headers := keep_out_of_shared_caches L h\<rparr>)"

definition upstream_headers :: "headers \<Rightarrow> string \<Rightarrow> headers" where
  "upstream_headers h token = header_insert (allowed h REQUEST_HEADERS) ''authorization'' (''Bearer '' @ token)"

definition authenticate ::
    "libs \<Rightarrow> app_state \<Rightarrow> resolve_world \<Rightarrow> (headers \<Rightarrow> response) \<Rightarrow> request \<Rightarrow>
     (proxy_error + headers \<times> response) \<times> app_state" where
  "authenticate L a w upstream req =
     (if \<not> is_clean_path L (req_path req) then (Err PathNotProxied, a)
      else if needs_trusted_origin (req_method req) \<and>
              require_trusted_origin L (req_headers req) (app_origins a) \<noteq> Ok ()
      then (Err UntrustedOrigin, a)
      else (case extract_cookie L (req_headers req) (session_cookie L (app_config a)) of
          None \<Rightarrow> (Err ProxyUnauthenticated, a)
        | Some session_id \<Rightarrow>
            (case resolve_bearer_token L a w session_id of
               (Inl e, a') \<Rightarrow> (Err (proxy_error_of e), a')
             | (Inr token, a') \<Rightarrow>
                 if \<not> header_value L (''Bearer '' @ token) then (Err ProxyUnauthenticated, a')
                 else (let sent = upstream_headers (req_headers req) token
                       in (Ok (sent, guard_response L (upstream sent)), a')))))"

section \<open>What a refresh does to a session\<close>

lemma refreshed_session_keeps:
  "user_id (refreshed_session ttl d tk t t') = user_id d" "sid (refreshed_session ttl d tk t t') = sid d"
  "created_at (refreshed_session ttl d tk t t') = created_at d" "id_token (refreshed_session ttl d tk t t') = id_token d"
  "access_token (refreshed_session ttl d tk t t') = ts_access_token tk"
  "expires_at (refreshed_session ttl d tk t t') = t' + ts_expires_in tk"
  by (simp_all add: refreshed_session_def case_prod_beta split: option.splits)

lemma refreshed_session_token:
  "refresh_token (refreshed_session ttl d tk t t') =
     (case ts_refresh_token tk of Some rotated \<Rightarrow> rotated | None \<Rightarrow> refresh_token d)"
  by (simp add: refreshed_session_def case_prod_beta split: option.splits)

lemma refreshed_session_ends:
  "ends_at (refreshed_session ttl d tk t t') \<le> created_at d + MAX_SESSION_LIFETIME"
  using ends_at_le(2) [of "refreshed_session ttl d tk t t'"] by (simp add: refreshed_session_keeps)



text \<open>An access token is only ever forwarded for a session that is stored and has not ended: it is
  that session's token and good for more than five seconds, or, found while holding the session's
  turn to refresh, the token another request just fetched, or the one Hydra gave for its refresh
  token, in which case it is stored in the session.\<close>

theorem bearer_token_only_for_live_sessions:
  assumes "resolve_bearer_token L a w i = (Ok token, a')"
  shows "\<exists>d. get_session (app_sessions a) i = Some d \<and> rw_t1 w < refresh_expires_at d \<and>
      rw_t1 w < created_at d + MAX_SESSION_LIFETIME \<and>
      (token = access_token d \<and> rw_t2 w + seconds 5 < expires_at d \<or>
       (\<exists>e. get_session (app_sessions (rw_waiting w a)) i = Some e \<and>
          (token = access_token e \<and> rw_t3 w + seconds 5 < expires_at e \<or>
           (\<exists>tokens new. token_request L (rw_answer w) = Ok tokens \<and> token = ts_access_token tokens \<and>
              get_session (app_sessions a') i = Some new \<and> access_token new = token \<and> user_id new = user_id e))))"
proof -
  from assms obtain d where d: "get_session (app_sessions a) i = Some d" "rw_t1 w < ends_at d"
    by (auto simp: resolve_bearer_token_def resolve_unlocked_def split: option.splits if_splits)
  then have ends: "rw_t1 w < refresh_expires_at d" "rw_t1 w < created_at d + MAX_SESSION_LIFETIME"
    by (simp_all add: ends_at_def)
  show ?thesis
  proof (cases "is_fresh (rw_t2 w) d")
    case True
    with assms d ends show ?thesis
      by (auto simp: resolve_bearer_token_def resolve_unlocked_def is_fresh_def ACCESS_TOKEN_REFRESH_LEEWAY_def)
  next
    case False
    with assms d have locked: "resolve_locked L (rw_waiting w a) (rw_asking w) i (rw_t3 w) (rw_answer w) (rw_t4 w) (rw_t5 w) = (Inr token, a')"
      by (auto simp: resolve_bearer_token_def resolve_unlocked_def split: if_splits)
    then obtain e where e: "get_session (app_sessions (rw_waiting w a)) i = Some e"
      by (auto simp: resolve_locked_def split: option.splits)
    show ?thesis
    proof (cases "is_fresh (rw_t3 w) e")
      case True
      with locked e d(1) ends show ?thesis
        by (auto simp: resolve_locked_def is_fresh_def ACCESS_TOKEN_REFRESH_LEEWAY_def)
    next
      case False
      let ?b = "rw_asking w (log_request (rw_waiting w a) (refresh_request L (app_hydra (rw_waiting w a)) (refresh_token e)))"
      from locked e False obtain new where new: "refresh_finish L ?b i e (rw_answer w) (rw_t4 w) (rw_t5 w) = (Inr new, a')" "token = access_token new"
        by (auto simp: resolve_locked_def refresh_session_def split: prod.splits sum.splits)
      then obtain tokens where tk: "token_request L (rw_answer w) = Inr tokens"
        by (auto simp: refresh_finish_def split: sum.splits hydra_error.splits)
      with new(1) have "new = refreshed_session (refresh_ttl (app_hydra ?b)) e tokens (rw_t4 w) (rw_t5 w)"
        and upd: "fst (update_session (app_sessions ?b) i new) = Inr ()" "app_sessions a' = snd (update_session (app_sessions ?b) i new)"
        by (auto simp: refresh_finish_def Let_def split: prod.splits sum.splits session_gone.splits)
      moreover have "get_session (app_sessions a') i = Some new"
        using upd by (auto simp: update_session_def get_session_def split: if_splits)
      ultimately show ?thesis
        using d(1) ends e tk new(2) by (auto simp: refreshed_session_keeps)
    qed
  qed
qed

definition demo_resolve :: resolve_world where
  "demo_resolve = \<lparr>rw_t1 = 5, rw_t2 = 5, rw_t3 = 5, rw_t4 = 5, rw_t5 = 5, rw_waiting = id, rw_asking = id,
     rw_answer = Inr demo_reply\<rparr>"

lemma demo_session_there: "get_session demo_sessions ''a'' = Some (demo_data 1 ''rt'' 0)"
  unfolding demo_sessions_def
  by (rule save_session_keeps_new [OF empty_sessions_wf]) (simp add: get_session_def empty_sessions_def)

theorem bearer_token_only_for_live_sessions_witness:
  "\<exists>d. get_session demo_sessions ''a'' = Some d \<and> 5 < refresh_expires_at d"
proof -
  have "resolve_bearer_token demo_libs (demo_app demo_sessions) demo_resolve ''a'' = (Inr ''at'', demo_app demo_sessions)"
    by (simp add: resolve_bearer_token_def resolve_unlocked_def demo_resolve_def demo_app_def demo_session_there
        demo_data_def ends_at_def MAX_SESSION_LIFETIME_def is_fresh_def ACCESS_TOKEN_REFRESH_LEEWAY_def seconds_def)
  from bearer_token_only_for_live_sessions [OF this] show ?thesis
    by (auto simp: demo_app_def demo_resolve_def)
qed

section \<open>Paths that cannot climb\<close>

text \<open>How a server may resolve the segments of a path: \<open>.\<close> stays, \<open>..\<close> climbs.\<close>

fun resolve_dots :: "string list \<Rightarrow> string list \<Rightarrow> string list" where
  "resolve_dots up [] = rev up"
| "resolve_dots up (s # segments) =
     (if s = ''.'' then resolve_dots up segments
      else if s = ''..'' then resolve_dots (tl up) segments
      else resolve_dots (s # up) segments)"

definition without_params :: "string \<Rightarrow> string" where
  "without_params segment = hd (split_on (CHR '';'') segment)"

definition without_trailing :: "string \<Rightarrow> string" where
  "without_trailing segment = trim_end_matches (\<lambda>c. c = CHR ''.'' \<or> c = CHR '' '') segment"

lemma resolve_dots_clean:
  "list_all (\<lambda>s. s \<noteq> ''.'' \<and> s \<noteq> ''..'') segments \<Longrightarrow> resolve_dots up segments = rev up @ segments"
  by (induction up segments rule: resolve_dots.induct) auto

lemma clean_path_text:
  assumes "is_clean_path L path" "segment \<in> set (split_on (CHR ''/'') path)"
    "text \<in> {pct_decode L segment, pct_decode L (pct_decode L segment)}"
  shows "\<not> dirty_text text"
  using assms by (auto simp: is_clean_path_def list_ex_iff Let_def)

lemma dirty_dots: "without_params text \<in> {''.'', ''..''} \<Longrightarrow> dirty_text text"
  by (auto simp: dirty_text_def dots_only_def without_params_def starts_with_def trim_end_matches_def)



section \<open>What passes through\<close>

lemma header_get_all_allowed:
  "header_get_all (allowed h names) n = concat (map (\<lambda>m. if m = n then header_get_all h n else []) names)"
  by (induction names) (auto simp: allowed_def header_get_all_def comp_def)

lemma header_get_all_allowed_distinct:
  "distinct names \<Longrightarrow> header_get_all (allowed h names) n = (if n \<in> set names then header_get_all h n else [])"
proof -
  have "concat (map (\<lambda>m. if m = n then xs else []) names) = (if n \<in> set names then xs else [])"
    if "distinct names" for xs :: "string list" using that by (induction names) auto
  then show "distinct names \<Longrightarrow> header_get_all (allowed h names) n = (if n \<in> set names then header_get_all h n else [])"
    by (simp add: header_get_all_allowed)
qed

lemma distinct_header_lists: "distinct REQUEST_HEADERS" "distinct RESPONSE_HEADERS"
  by (simp_all add: REQUEST_HEADERS_def RESPONSE_HEADERS_def)

lemma keep_out_other:
  "n \<noteq> ''cache-control'' \<Longrightarrow> header_get_all (keep_out_of_shared_caches L h) n = header_get_all h n"
  by (simp add: keep_out_of_shared_caches_def)

lemma cache_settled_from:
  assumes "header_str L v = Some v" "v \<in> {''no-store'', ''private''}" "v \<in> set (header_get_all h ''cache-control'')"
  shows "cache_settled L h"
proof -
  have "v \<in> set (List.map_filter (header_str L) (header_get_all h ''cache-control''))"
    using assms(1,3) by (auto simp: set_map_filter)
  moreover have "split_on (CHR '','') v = [v]" "trim v = v" "split_once (CHR ''='') v = None"
    using assms(2) by (auto simp: trim_def ws1_def ws2_def ws3_def byte_def)
  ultimately have "(v, False) \<in> set (cache_directives L h)"
    unfolding cache_directives_def by force
  moreover have "v \<in> set SHARED_CACHE_DIRECTIVES" using assms(2) by (auto simp: SHARED_CACHE_DIRECTIVES_def)
  ultimately show ?thesis unfolding cache_settled_def list_ex_iff by (force simp: list_ex_iff)
qed

text \<open>No response leaves the proxy in a form a shared cache might store for someone else: afterwards
  some \<open>Cache-Control\<close> directive (\<open>public\<close>, \<open>s-maxage\<close>, \<open>private\<close> or \<open>no-store\<close>, a field-qualified
  \<open>private\<close> aside) settles the question. A response that settled it itself is untouched, no other
  header ever is, and doing it twice is doing it once.\<close>

theorem responses_kept_out_of_shared_caches:
  assumes "header_str L ''no-store'' = Some ''no-store''" "header_str L ''private'' = Some ''private''"
  shows "cache_settled L (keep_out_of_shared_caches L h) \<and>
    (cache_settled L h \<longrightarrow> keep_out_of_shared_caches L h = h) \<and>
    (\<forall>n. n \<noteq> ''cache-control'' \<longrightarrow> header_get_all (keep_out_of_shared_caches L h) n = header_get_all h n) \<and>
    keep_out_of_shared_caches L (keep_out_of_shared_caches L h) = keep_out_of_shared_caches L h"
proof -
  have has: "header_contains h ''cache-control''" if "cache_settled L h" for h
    using that by (auto simp: header_contains_get_all cache_settled_def cache_directives_def list_ex_iff map_filter_simps)
  have settled: "cache_settled L (keep_out_of_shared_caches L h)" for h
    by (cases "header_contains h ''cache-control''"; cases "cache_settled L h")
      (auto simp: keep_out_of_shared_caches_def intro: cache_settled_from [OF assms(1)] cache_settled_from [OF assms(2)])
  have same: "keep_out_of_shared_caches L h = h" if "cache_settled L h" for h
    using that has [OF that] by (simp add: keep_out_of_shared_caches_def)
  show ?thesis using settled same keep_out_other by blast
qed

theorem responses_kept_out_of_shared_caches_witness:
  "cache_settled demo_libs (keep_out_of_shared_caches demo_libs [(''cache-control'', ''max-age=60'')])"
  using responses_kept_out_of_shared_caches [of demo_libs]
  by (simp add: demo_libs_def ascii_str_def byte_def)

text \<open>C17: a request the proxy forwards came over a clean path, from a trusted origin unless its method is
  safe, with a session cookie that resolved to the token. The upstream sees exactly one
  \<open>Authorization\<close>, the bearer token bff put there, the few request headers of the list as the client
  sent them and nothing else: no cookie, no forged credential. The browser gets only the headers of
  the other list, never a \<open>Set-Cookie\<close>, with \<open>nosniff\<close>, and with a content security policy, the upstream's
  or else the sandbox.\<close>

theorem forwarded_request_is_guarded:
  assumes "authenticate L a w upstream req = (Ok (sent, r), a')"
  shows "is_clean_path L (req_path req) \<and>
    (req_method req \<notin> {''GET'', ''HEAD'', ''OPTIONS''} \<longrightarrow>
       (\<exists>origin. request_origin L (req_headers req) = Ok origin \<and> origin \<in> set (app_origins a))) \<and>
    (\<exists>i token. extract_cookie L (req_headers req) (session_cookie L (app_config a)) = Some i \<and>
       resolve_bearer_token L a w i = (Ok token, a') \<and>
       header_get_all sent ''authorization'' = [''Bearer '' @ token]) \<and>
    (\<forall>n. n \<noteq> ''authorization'' \<longrightarrow> header_get_all sent n =
       (if n \<in> set REQUEST_HEADERS then header_get_all (req_headers req) n else [])) \<and>
    header_get_all (rsp_headers r) ''x-content-type-options'' = [''nosniff''] \<and>
    header_get_all (rsp_headers r) ''content-security-policy'' =
      (case header_get_all (rsp_headers (upstream sent)) ''content-security-policy'' of
         [] \<Rightarrow> [DEFAULT_CONTENT_SECURITY_POLICY] | policies \<Rightarrow> policies) \<and>
    (\<forall>n. n \<notin> {''x-content-type-options'', ''content-security-policy'', ''cache-control''} \<longrightarrow>
       header_get_all (rsp_headers r) n =
       (if n \<in> set RESPONSE_HEADERS then header_get_all (rsp_headers (upstream sent)) n else []))"
proof -
  from assms have path: "is_clean_path L (req_path req)"
    and origin: "needs_trusted_origin (req_method req) \<longrightarrow> require_trusted_origin L (req_headers req) (app_origins a) = Inr ()"
    and i: "\<exists>i. extract_cookie L (req_headers req) (session_cookie L (app_config a)) = Some i"
    by (auto simp: authenticate_def split: if_splits option.splits)
  from i obtain i where i: "extract_cookie L (req_headers req) (session_cookie L (app_config a)) = Some i" by blast
  with assms path origin obtain token where tok: "resolve_bearer_token L a w i = (Inr token, a')"
    "sent = upstream_headers (req_headers req) token" "r = guard_response L (upstream sent)"
    by (auto simp: authenticate_def Let_def split: if_splits prod.splits sum.splits)
  let ?up = "header_insert (allowed (rsp_headers (upstream sent)) RESPONSE_HEADERS) ''x-content-type-options'' ''nosniff''"
  have csp: "''content-security-policy'' \<in> set RESPONSE_HEADERS" "''x-content-type-options'' \<notin> set RESPONSE_HEADERS"
    "''authorization'' \<notin> set REQUEST_HEADERS" by (simp_all add: RESPONSE_HEADERS_def REQUEST_HEADERS_def)
  have up: "header_get_all ?up n = (if n = ''x-content-type-options'' then [''nosniff'']
      else if n \<in> set RESPONSE_HEADERS then header_get_all (rsp_headers (upstream sent)) n else [])" for n
    by (simp add: header_get_all_allowed_distinct [OF distinct_header_lists(2)])
  have rh: "rsp_headers r = keep_out_of_shared_caches L
      (if \<not> header_contains ?up ''content-security-policy''
       then header_insert ?up ''content-security-policy'' DEFAULT_CONTENT_SECURITY_POLICY else ?up)"
    by (simp add: tok(3) guard_response_def Let_def)
  have resp: "header_get_all (rsp_headers r) n =
      (if n = ''content-security-policy'' \<and> header_get_all (rsp_headers (upstream sent)) n = []
       then [DEFAULT_CONTENT_SECURITY_POLICY] else header_get_all ?up n)" if "n \<noteq> ''cache-control''" for n
    unfolding rh keep_out_other [OF that] header_contains_get_all using csp
    by (auto simp: header_get_all_allowed_distinct [OF distinct_header_lists(2)])
  have sent: "header_get_all sent n = (if n = ''authorization'' then [''Bearer '' @ token]
      else if n \<in> set REQUEST_HEADERS then header_get_all (req_headers req) n else [])" for n
    by (simp add: tok(2) upstream_headers_def header_get_all_allowed_distinct [OF distinct_header_lists(1)])
  have unsafe: "req_method req \<notin> {''GET'', ''HEAD'', ''OPTIONS''} \<longrightarrow>
       (\<exists>origin. request_origin L (req_headers req) = Inr origin \<and> origin \<in> set (app_origins a))"
    using origin by (simp add: needs_trusted_origin_def require_trusted_origin_ok)
  show ?thesis
  proof (intro conjI allI impI)
    show "\<exists>i token. extract_cookie L (req_headers req) (session_cookie L (app_config a)) = Some i \<and>
       resolve_bearer_token L a w i = (Inr token, a') \<and>
       header_get_all sent ''authorization'' = [''Bearer '' @ token]"
      using i tok(1) sent by auto
    show "header_get_all (rsp_headers r) ''content-security-policy'' =
      (case header_get_all (rsp_headers (upstream sent)) ''content-security-policy'' of
         [] \<Rightarrow> [DEFAULT_CONTENT_SECURITY_POLICY] | policies \<Rightarrow> policies)"
      using csp by (subst resp) (simp_all add: header_get_all_allowed_distinct [OF distinct_header_lists(2)] split: list.split)
  qed (use path unsafe sent in \<open>simp_all add: resp header_get_all_allowed_distinct [OF distinct_header_lists(2)]\<close>)
qed

theorem forwarded_request_is_guarded_witness:
  "\<exists>sent r a'. authenticate demo_libs (demo_app demo_sessions) demo_resolve
       (\<lambda>_. \<lparr>rsp_status = 200, rsp_headers = [(''set-cookie'', ''x=1'')]\<rparr>)
       \<lparr>req_method = ''GET'', req_path = ''/api'', req_headers = [(''cookie'', ''__Host-wa_session=a'')]\<rparr> = (Ok (sent, r), a') \<and>
     header_get_all sent ''authorization'' = [''Bearer at''] \<and> header_get_all sent ''cookie'' = [] \<and>
     header_get_all (rsp_headers r) ''set-cookie'' = []"
proof -
  let ?req = "\<lparr>req_method = ''GET'', req_path = ''/api'', req_headers = [(''cookie'', ''__Host-wa_session=a'')]\<rparr>"
  let ?up = "\<lambda>_ :: headers. \<lparr>rsp_status = 200, rsp_headers = [(''set-cookie'', ''x=1'')]\<rparr>"
  have c: "session_cookie demo_libs demo_config = ''__Host-wa_session''"
    by (simp add: session_cookie_def cookie_name_def secure_cookies_def demo_libs_def demo_config_def
        default_config_def HOST_COOKIE_PREFIX_def has_prefix_def get_to_def char_boundary_def
        eq_ignore_ascii_case_def to_ascii_lowercase_def ascii_lower_def byte_def)
  have i: "extract_cookie demo_libs [(''cookie'', ''__Host-wa_session=a'')] ''__Host-wa_session'' = Some ''a''"
    by (simp add: extract_cookie_def header_get_def demo_libs_def ascii_str_def byte_def cookie_pair_def
        trim_def ws1_def ws2_def ws3_def map_filter_simps)
  have t: "resolve_bearer_token demo_libs (demo_app demo_sessions) demo_resolve ''a'' = (Inr ''at'', demo_app demo_sessions)"
    by (simp add: resolve_bearer_token_def resolve_unlocked_def demo_resolve_def demo_app_def demo_session_there
        demo_data_def ends_at_def MAX_SESSION_LIFETIME_def is_fresh_def ACCESS_TOKEN_REFRESH_LEEWAY_def seconds_def)
  have clean: "is_clean_path demo_libs ''/api''"
    by (simp add: is_clean_path_def demo_libs_def dirty_text_def dots_only_def starts_with_def
        trim_end_matches_def byte_def Let_def)
  have "app_config (demo_app demo_sessions) = demo_config" by (simp add: demo_app_def)
  then obtain sent r a' where ok: "authenticate demo_libs (demo_app demo_sessions) demo_resolve ?up ?req = (Inr (sent, r), a')"
    by (simp add: authenticate_def clean needs_trusted_origin_def c i t Let_def)
      (simp add: demo_libs_def ascii_str_def byte_def)
  note g = forwarded_request_is_guarded [OF ok]
  have cfg: "app_config (demo_app demo_sessions) = demo_config" by (simp add: demo_app_def)
  from g [THEN conjunct2, THEN conjunct2, THEN conjunct1] obtain i0 token0 where
    "extract_cookie demo_libs (req_headers ?req) (session_cookie demo_libs (app_config (demo_app demo_sessions))) = Some i0"
    "resolve_bearer_token demo_libs (demo_app demo_sessions) demo_resolve i0 = (Inr token0, a')"
    "header_get_all sent ''authorization'' = [''Bearer '' @ token0]" by blast
  then have 1: "header_get_all sent ''authorization'' = [''Bearer at'']"
    by (auto simp: cfg c i t)
  from g [THEN conjunct2, THEN conjunct2, THEN conjunct2, THEN conjunct1] have "header_get_all sent ''cookie'' =
      (if ''cookie'' \<in> set REQUEST_HEADERS then header_get_all (req_headers ?req) ''cookie'' else [])" by simp
  then have 2: "header_get_all sent ''cookie'' = []" by (simp add: REQUEST_HEADERS_def)
  from g [THEN conjunct2, THEN conjunct2, THEN conjunct2, THEN conjunct2, THEN conjunct2, THEN conjunct2]
  have "header_get_all (rsp_headers r) ''set-cookie'' =
      (if ''set-cookie'' \<in> set RESPONSE_HEADERS then header_get_all (rsp_headers (?up sent)) ''set-cookie'' else [])"
    by simp
  then have 3: "header_get_all (rsp_headers r) ''set-cookie'' = []" by (simp add: RESPONSE_HEADERS_def)
  show ?thesis using ok 1 2 3 by blast
qed

end
