(* ===== verification/BffLogin.thy ===== *)
theory BffLogin
  imports BffApp
begin

text \<open>
  Logging in: \<open>/login\<close> (\<open>bff/src/server/api/login.rs\<close>) sends the browser to Hydra with the state of
  the login in a cookie, \<open>/callback\<close> (\<open>callback.rs\<close>) finishes it. The random tokens and the new
  session's id are arguments.
\<close>

section \<open>\<open>/login\<close>\<close>

datatype login_error = InvalidRedirectUri

definition login_error_response :: "login_error \<Rightarrow> error_response" where
  "login_error_response e = \<lparr>er_status = 400, er_reason = ''InvalidRedirectUri'',
     er_details = ''redirect_uri is not allowed''\<rparr>"

record started_login =
  sl_authorize_url :: string
  sl_cookie_value :: string

definition login_start ::
    "libs \<Rightarrow> app_state \<Rightarrow> string \<times> string \<times> string \<Rightarrow> string option \<Rightarrow> login_error + started_login" where
  "login_start L a tokens requested =
     (let (t1, t2, t3) = tokens in
      case opt_or (opt_filter (\<lambda>r. r \<noteq> []) requested) (default_redirect_uri (app_config a)) of
        None \<Rightarrow> Err InvalidRedirectUri
      | Some uri \<Rightarrow>
          if \<not> allows_redirect_uri (app_config a) uri then Err InvalidRedirectUri
          else (let pending = new_pending_login t1 t2 t3 uri in
            Ok \<lparr>sl_authorize_url = authorize_url L (app_hydra a) (pl_state pending) (pl_nonce pending)
                  (code_challenge L pending),
                sl_cookie_value = to_cookie_value L pending\<rparr>))"

definition start_login ::
    "libs \<Rightarrow> app_state \<Rightarrow> string \<times> string \<times> string \<Rightarrow> string option \<Rightarrow> login_error + response" where
  "start_login L a tokens requested =
     (case login_start L a tokens requested of
        Inl e \<Rightarrow> Err e
      | Inr started \<Rightarrow> Ok \<lparr>rsp_status = 303, rsp_headers =
          [(''location'', sl_authorize_url started),
           (''set-cookie'', build_cookie L (login_cookie L (app_config a)) (sl_cookie_value started) ''/''
              LOGIN_COOKIE_MAX_AGE_SECS (secure_cookies L (app_config a))),
           (''cache-control'', ''no-store'')]\<rparr>)"

section \<open>\<open>/callback\<close>\<close>

record callback_query =
  cq_code :: "string option"
  cq_state :: "string option"
  cq_error :: "string option"

datatype returned =
    Code string "string option"
  | Refused string "string option"
  | Empty "string option"

definition returned_of :: "callback_query \<Rightarrow> returned" where
  "returned_of q = (case (cq_error q, cq_code q) of
     (Some error, _) \<Rightarrow> Refused error (cq_state q)
   | (None, Some code) \<Rightarrow> Code code (cq_state q)
   | (None, None) \<Rightarrow> Empty (cq_state q))"

fun returned_state :: "returned \<Rightarrow> string option" where
  "returned_state (Code c s) = s"
| "returned_state (Refused e s) = s"
| "returned_state (Empty s) = s"

datatype callback_service_error =
    NoLoginInProgress
  | StateMismatch
  | LoginRefused string
  | MissingCode
  | RedirectNotAllowed
  | Exchange hydra_error
  | IdToken id_token_error
  | Missing string

datatype callback_error =
    CbNoLoginInProgress
  | CbStateMismatch
  | CbLoginRefused
  | CbMissingCode
  | CbInvalidRedirectUri
  | CbTokenExchangeFailed
  | CbInvalidTokenResponse
  | CbIdentityProviderUnavailable

fun callback_error_of :: "callback_service_error \<Rightarrow> callback_error" where
  "callback_error_of NoLoginInProgress = CbNoLoginInProgress"
| "callback_error_of StateMismatch = CbStateMismatch"
| "callback_error_of (LoginRefused e) = CbLoginRefused"
| "callback_error_of MissingCode = CbMissingCode"
| "callback_error_of RedirectNotAllowed = CbInvalidRedirectUri"
| "callback_error_of (Exchange (Rejected ep st)) = CbTokenExchangeFailed"
| "callback_error_of (Exchange _) = CbIdentityProviderUnavailable"
| "callback_error_of (IdToken e) = CbInvalidTokenResponse"
| "callback_error_of (Missing f) = CbInvalidTokenResponse"

fun callback_error_response :: "callback_error \<Rightarrow> error_response" where
  "callback_error_response CbNoLoginInProgress =
     \<lparr>er_status = 400, er_reason = ''NoLoginInProgress'', er_details = ''no login in progress''\<rparr>"
| "callback_error_response CbStateMismatch =
     \<lparr>er_status = 400, er_reason = ''StateMismatch'', er_details = ''invalid state''\<rparr>"
| "callback_error_response CbLoginRefused =
     \<lparr>er_status = 400, er_reason = ''LoginRefused'', er_details = ''the login was refused''\<rparr>"
| "callback_error_response CbMissingCode =
     \<lparr>er_status = 400, er_reason = ''MissingCode'', er_details = ''no authorization code''\<rparr>"
| "callback_error_response CbInvalidRedirectUri =
     \<lparr>er_status = 400, er_reason = ''InvalidRedirectUri'', er_details = ''redirect_uri is not allowed''\<rparr>"
| "callback_error_response CbTokenExchangeFailed =
     \<lparr>er_status = 400, er_reason = ''TokenExchangeFailed'', er_details = ''token exchange failed''\<rparr>"
| "callback_error_response CbInvalidTokenResponse =
     \<lparr>er_status = 502, er_reason = ''InvalidTokenResponse'',
      er_details = ''identity provider returned an invalid response''\<rparr>"
| "callback_error_response CbIdentityProviderUnavailable =
     \<lparr>er_status = 502, er_reason = ''IdentityProviderUnavailable'',
      er_details = ''identity provider unavailable''\<rparr>"

record started_session =
  ss_session_id :: string
  ss_max_age_secs :: int
  ss_redirect_uri :: string

text \<open>What the outside gives one callback: Hydra's answer to the code exchange, the times and the
  result of a fetch of its keys, the new session's id and the time it is saved.\<close>

record callback_world =
  cw_answer :: sent
  cw_keys_at :: time
  cw_keys_done :: time
  cw_fetched :: "jwks_error + keys"
  cw_session_id :: string
  cw_now :: time

definition session_max_age_secs :: "duration \<Rightarrow> int" where
  "session_max_age_secs ttl = num_seconds (min ttl MAX_SESSION_LIFETIME)"

definition state_matches :: "libs \<Rightarrow> returned \<Rightarrow> pending_login \<Rightarrow> bool" where
  "state_matches L r pending =
     is_some_and (\<lambda>s. constant_time_eq L s (pl_state pending)) (returned_state r)"

text \<open>The session a token set and a verified id_token start.\<close>

definition new_session :: "app_state \<Rightarrow> token_set \<Rightarrow> string \<Rightarrow> string \<Rightarrow> verified_id_token \<Rightarrow> time \<Rightarrow> session_data" where
  "new_session a tokens rt it v now =
     \<lparr>access_token = ts_access_token tokens, refresh_token = rt, id_token = it,
      expires_at = now + ts_expires_in tokens, created_at = now,
      refresh_expires_at = now + refresh_ttl (app_hydra a), user_id = vid_user_id v, sid = vid_sid v\<rparr>"

text \<open>Saving the session, revoking what it displaced, ending the one the browser had.\<close>

definition install_session :: "libs \<Rightarrow> app_state \<Rightarrow> string \<Rightarrow> session_data \<Rightarrow> string option \<Rightarrow> app_state" where
  "install_session L a session_id d previous =
     (let (evicted, s) = save_session (app_sessions a) session_id d;
          a1 = revoke_refresh_tokens L (a\<lparr>app_sessions := s\<rparr>) evicted
      in case previous of None \<Rightarrow> a1 | Some p \<Rightarrow> snd (end_session L a1 p))"

definition callback_complete ::
    "libs \<Rightarrow> jwt_libs \<Rightarrow> app_state \<Rightarrow> callback_world \<Rightarrow> pending_login option \<Rightarrow> returned \<Rightarrow> string option \<Rightarrow>
     (callback_service_error + started_session) \<times> app_state" where
  "callback_complete L J a w pending_opt r previous =
     (case pending_opt of
        None \<Rightarrow> (Err NoLoginInProgress, a)
      | Some pending \<Rightarrow>
          if \<not> state_matches L r pending then (Err StateMismatch, a)
          else (case r of
              Refused error _ \<Rightarrow> (Err (LoginRefused error), a)
            | Empty _ \<Rightarrow> (Err MissingCode, a)
            | Code code _ \<Rightarrow>
                if \<not> allows_redirect_uri (app_config a) (pl_redirect_uri pending)
                then (Err RedirectNotAllowed, a)
                else
                  let a1 = log_request a (exchange_code_request L (app_hydra a) code (pl_verifier pending)) in
                  (case token_request L (cw_answer w) of
                     Inl e \<Rightarrow> (Err (Exchange e), a1)
                   | Inr tokens \<Rightarrow> (case ts_id_token tokens of
                       None \<Rightarrow> (Err (Missing ''id_token''), a1)
                     | Some it \<Rightarrow> (case ts_refresh_token tokens of
                         None \<Rightarrow> (Err (Missing ''refresh_token''), a1)
                       | Some rt \<Rightarrow>
                           (case verify_id_token L J (app_hydra a1) (app_jwks a1) (cw_keys_at w) (cw_keys_done w)
                                   (cw_fetched w) it (ts_access_token tokens) (pl_nonce pending) of
                              (Inl e, jwks) \<Rightarrow> (Err (IdToken e), a1\<lparr>app_jwks := jwks\<rparr>)
                            | (Inr v, jwks) \<Rightarrow>
                                (Ok \<lparr>ss_session_id = cw_session_id w,
                                     ss_max_age_secs = session_max_age_secs (refresh_ttl (app_hydra a)),
                                     ss_redirect_uri = pl_redirect_uri pending\<rparr>,
                                 install_session L (a1\<lparr>app_jwks := jwks\<rparr>) (cw_session_id w)
                                   (new_session a tokens rt it v (cw_now w)) previous)))))))"

definition callback ::
    "libs \<Rightarrow> jwt_libs \<Rightarrow> app_state \<Rightarrow> callback_world \<Rightarrow> headers \<Rightarrow> callback_query \<Rightarrow>
     (callback_error + response) \<times> app_state" where
  "callback L J a w h query =
     (let c = app_config a;
          pending = Option.bind (extract_cookie L h (login_cookie L c)) (from_cookie_value L);
          previous = extract_cookie L h (session_cookie L c)
      in case callback_complete L J a w pending (returned_of query) previous of
           (Inl e, a') \<Rightarrow> (Err (callback_error_of e), a')
         | (Inr started, a') \<Rightarrow>
             (Ok \<lparr>rsp_status = 303, rsp_headers =
                [(''location'', ss_redirect_uri started),
                 (''set-cookie'', build_cookie L (session_cookie L c) (ss_session_id started) ''/''
                    (ss_max_age_secs started) (secure_cookies L c)),
                 (''set-cookie'', clear_cookie L (login_cookie L c) ''/'' (secure_cookies L c)),
                 (''cache-control'', ''no-store'')]\<rparr>, a'))"

section \<open>Starting a login\<close>

lemma allows_redirect_uri_iff: "allows_redirect_uri c uri \<longleftrightarrow> uri \<in> set (redirect_uri_allowlist c)"
  by (auto simp: allows_redirect_uri_def list_ex_iff)

lemma login_start_ok:
  "login_start L a (t1, t2, t3) requested = Inr started \<longleftrightarrow>
     (\<exists>uri. opt_or (opt_filter (\<lambda>r. r \<noteq> []) requested) (default_redirect_uri (app_config a)) = Some uri \<and>
        uri \<in> set (redirect_uri_allowlist (app_config a)) \<and>
        started = \<lparr>sl_authorize_url = authorize_url L (app_hydra a) t1 t3 (pkce_challenge L t2),
          sl_cookie_value = to_cookie_value L (new_pending_login t1 t2 t3 uri)\<rparr>)"
  by (auto simp: login_start_def Let_def new_pending_login_def code_challenge_def allows_redirect_uri_iff
      split: option.splits)

lemma login_cookie_ok:
  assumes "codecs_ok L"
  shows "cookie_ok (login_cookie L c, pct_encode L u)"
proof -
  have plain: "list_all plain_char (pct_encode L u)" using assms by (simp add: codecs_ok_def)
  then have "CHR '';'' \<notin> set (pct_encode L u)" by (auto simp: list_all_iff plain_char_def)
  moreover have "pct_encode L u = [] \<or> plain_char (last (pct_encode L u))"
    using plain by (metis last_in_set list_all_iff)
  ultimately show ?thesis
    by (auto simp: cookie_ok_def login_cookie_def cookie_name_def LOGIN_COOKIE_def HOST_COOKIE_PREFIX_def
        plain_char_def byte_def ws1_def)
qed

lemma from_to_cookie_value: "codecs_ok L \<Longrightarrow> from_cookie_value L (to_cookie_value L p) = Some p"
  by (simp add: from_cookie_value_def to_cookie_value_def codecs_ok_def)

lemma login_cookie_read:
  assumes "codecs_ok L" "list_all cookie_ok (before @ after)"
    and "\<forall>p \<in> set (before @ after). fst p \<noteq> login_cookie L c"
    and "header_get h ''cookie'' = Some text" "header_str L text = Some text"
    and "text = cookie_header (before @ (login_cookie L c, pct_encode L (to_cookie_value L p)) # after)"
  shows "Option.bind (extract_cookie L h (login_cookie L c)) (from_cookie_value L) = Some p"
proof -
  let ?n = "login_cookie L c"
  let ?cookies = "before @ (?n, pct_encode L (to_cookie_value L p)) # after"
  have "filter (\<lambda>p. fst p = ?n) before = []" "filter (\<lambda>p. fst p = ?n) after = []"
    using assms(3) by (auto simp: filter_empty_conv)
  then have "List.map_filter (cookie_pair L ?n) (split_on (CHR '';'') (cookie_header ?cookies)) =
      [pct_decode L (pct_encode L (to_cookie_value L p))]"
    using assms(2) login_cookie_ok [OF assms(1)] by (subst cookie_values) (simp_all add: list_all_append)
  then show ?thesis
    using assms(1,4-6) by (simp add: extract_cookie_def from_to_cookie_value) (simp add: codecs_ok_def from_to_cookie_value)
qed

text \<open>C10: \<open>/login\<close> sends the browser nowhere but to Hydra's authorization endpoint, and starts a login
  only for a destination on the allowlist; the login's \<open>state\<close>, PKCE challenge and \<open>nonce\<close> go to
  Hydra and the same login, read back from the cookie among whatever other cookies the browser has,
  is what \<open>/callback\<close> will see.\<close>

theorem login_starts_and_comes_back:
  assumes "start_login L a (t1, t2, t3) requested = Ok r"
    and "codecs_ok L" "list_all cookie_ok (before @ after)"
    and "\<forall>p \<in> set (before @ after). fst p \<noteq> login_cookie L (app_config a)"
    and "header_get_all (rsp_headers r) ''set-cookie'' = [set_cookie]"
    and "header_get h ''cookie'' = Some text" "header_str L text = Some text"
    and "text = cookie_header (before @ (login_cookie L (app_config a), pct_encode L v) # after)"
    and "cookie_text (login_cookie L (app_config a), pct_encode L v) = set_cookie_pair set_cookie"
  shows "\<exists>uri \<in> set (redirect_uri_allowlist (app_config a)).
    header_get_all (rsp_headers r) ''location'' =
      [public_url (app_hydra a) @ ''/oauth2/auth?'' @
         form_encode L (authorize_params (app_hydra a) t1 t3 (pkce_challenge L t2))] \<and>
    Option.bind (extract_cookie L h (login_cookie L (app_config a))) (from_cookie_value L) =
      Some \<lparr>pl_state = t1, pl_verifier = t2, pl_nonce = t3, pl_redirect_uri = uri\<rparr>"
proof -
  let ?n = "login_cookie L (app_config a)"
  from assms(1) obtain uri where uri: "uri \<in> set (redirect_uri_allowlist (app_config a))"
    and r: "r = \<lparr>rsp_status = 303, rsp_headers =
          [(''location'', authorize_url L (app_hydra a) t1 t3 (pkce_challenge L t2)),
           (''set-cookie'', build_cookie L ?n (to_cookie_value L (new_pending_login t1 t2 t3 uri)) ''/''
              LOGIN_COOKIE_MAX_AGE_SECS (secure_cookies L (app_config a))),
           (''cache-control'', ''no-store'')]\<rparr>"
    by (auto simp: start_login_def login_start_ok split: sum.splits)
  have semi: "CHR '';'' \<notin> set ?n" using login_cookie_ok [OF assms(2)] cookie_ok_def by (metis fst_conv)
  have "set_cookie = build_cookie L ?n (to_cookie_value L (new_pending_login t1 t2 t3 uri)) ''/''
      LOGIN_COOKIE_MAX_AGE_SECS (secure_cookies L (app_config a))"
    using assms(5) by (simp add: r header_get_all_def)
  with assms(9) set_cookie_pair_build [OF assms(2) semi]
  have v: "pct_encode L v = pct_encode L (to_cookie_value L (new_pending_login t1 t2 t3 uri))"
    by (simp add: cookie_text_def)
  have "Option.bind (extract_cookie L h ?n) (from_cookie_value L) = Some (new_pending_login t1 t2 t3 uri)"
    by (rule login_cookie_read [OF assms(2-4,6,7)]) (simp add: assms(8) v)
  then show ?thesis
    using uri by (intro bexI [of _ uri]) (simp_all add: r header_get_all_def authorize_url_def new_pending_login_def)
qed

section \<open>Finishing a login\<close>

lemma install_session_simps [simp]:
  "app_config (install_session L a i d p) = app_config a" "app_hydra (install_session L a i d p) = app_hydra a"
  "app_jtis (install_session L a i d p) = app_jtis a"
  by (simp_all add: install_session_def Let_def case_prod_beta end_session_eq split: option.splits)

lemma install_session_wf [wf_intros]: "app_wf a \<Longrightarrow> app_wf (install_session L a i d p)"
  by (auto simp: install_session_def Let_def case_prod_beta app_wf_def end_session_eq mem.tak_wf
      mem.save_wf split: option.splits)

lemma install_session_there:
  assumes wf: "sessions_wf (app_sessions a)"
    and newest: "\<And>j e. get_session (app_sessions a) j = Some e \<Longrightarrow> user_id e = user_id d \<Longrightarrow> created_at e \<le> created_at d"
    and prev: "p \<noteq> Some i"
  shows "get_session (app_sessions (install_session L a i d p)) i = Some d"
proof -
  have new: "get_session (snd (save_session (app_sessions a) i d)) i = Some d"
    by (rule save_session_keeps_new [OF wf newest])
  have wf': "sessions_wf (snd (save_session (app_sessions a) i d))" by (rule mem.save_wf [OF wf])
  show ?thesis
    using new prev
    by (cases p) (simp_all add: install_session_def Let_def case_prod_beta end_session_eq mem.tak_snd [OF wf'])
qed

lemma install_session_ends_previous:
  assumes wf: "sessions_wf (app_sessions a)" and prev: "p \<noteq> i"
  shows "get_session (app_sessions (install_session L a i d (Some p))) p = None"
    "get_session (app_sessions a) p = Some e \<Longrightarrow>
       revocation_of L a e \<in> set (hydra_log (install_session L a i d (Some p)))"
proof -
  let ?s = "snd (save_session (app_sessions a) i d)"
  have wf': "sessions_wf ?s" by (rule mem.save_wf [OF wf])
  show "get_session (app_sessions (install_session L a i d (Some p))) p = None"
    by (simp add: install_session_def Let_def case_prod_beta end_session_eq mem.tak_snd [OF wf'])
  assume e: "get_session (app_sessions a) p = Some e"
  let ?a1 = "revoke_refresh_tokens L (a\<lparr>app_sessions := ?s\<rparr>) (fst (save_session (app_sessions a) i d))"
  have rev: "revocation_of L (a\<lparr>app_sessions := ?s\<rparr>) = revocation_of L a" "revocation_of L ?a1 = revocation_of L a"
    by (intro ext revocation_of_cong; simp)+
  have log: "hydra_log (install_session L a i d (Some p)) =
      hydra_log a @ map (revocation_of L a) (fst (save_session (app_sessions a) i d)) @
      (case get_session ?s p of None \<Rightarrow> [] | Some d \<Rightarrow> [revocation_of L a d])"
    by (simp add: install_session_def Let_def case_prod_beta end_session_eq rev split: option.split)
  show "revocation_of L a e \<in> set (hydra_log (install_session L a i d (Some p)))"
  proof (cases "get_session ?s p")
    case None
    then have "e \<in> set (fst (save_session (app_sessions a) i d))"
      using mem.save_dropped [OF wf _ None] e prev by simp
    then show ?thesis by (simp add: log)
  next
    case (Some e')
    then have "e' = e" using mem.save_new [OF wf Some] e prev by simp
    with Some show ?thesis by (simp add: log)
  qed
qed

lemma callback_complete_ok:
  assumes "callback_complete L J a w pending_opt r previous = (Inr started, a')"
  obtains pending code st tokens it rt v jwks where
    "pending_opt = Some pending" "r = Code code st" "state_matches L r pending"
    "pl_redirect_uri pending \<in> set (redirect_uri_allowlist (app_config a))"
    "token_request L (cw_answer w) = Inr tokens" "ts_id_token tokens = Some it" "ts_refresh_token tokens = Some rt"
    "verify_id_token L J (app_hydra a) (app_jwks a) (cw_keys_at w) (cw_keys_done w) (cw_fetched w) it
       (ts_access_token tokens) (pl_nonce pending) = (Inr v, jwks)"
    "started = \<lparr>ss_session_id = cw_session_id w, ss_max_age_secs = session_max_age_secs (refresh_ttl (app_hydra a)),
       ss_redirect_uri = pl_redirect_uri pending\<rparr>"
    "a' = install_session L ((log_request a (exchange_code_request L (app_hydra a) code (pl_verifier pending)))
       \<lparr>app_jwks := jwks\<rparr>) (cw_session_id w) (new_session a tokens rt it v (cw_now w)) previous"
  using assms
  by (auto simp: callback_complete_def allows_redirect_uri_iff Let_def
      split: option.splits if_splits returned.splits sum.splits prod.splits)

lemma callback_complete_err:
  assumes "callback_complete L J a w pending_opt r previous = (Inl e, a')"
  shows "app_sessions a' = app_sessions a \<and> app_jtis a' = app_jtis a \<and> app_config a' = app_config a \<and>
    (hydra_log a' = hydra_log a \<or>
     (\<exists>pending code st. pending_opt = Some pending \<and> r = Code code st \<and> state_matches L r pending \<and>
        pl_redirect_uri pending \<in> set (redirect_uri_allowlist (app_config a)) \<and>
        hydra_log a' = hydra_log a @ [exchange_code_request L (app_hydra a) code (pl_verifier pending)]))"
  using assms
  by (auto simp: callback_complete_def allows_redirect_uri_iff Let_def
      split: option.splits if_splits returned.splits sum.splits prod.splits)

text \<open>C8: when \<open>/callback\<close> logs a user in, the \<open>state\<close> in the query has the digest of the one in the login
  cookie, Hydra's answer was a token set with a refresh token and an id_token verified for the
  cookie's \<open>nonce\<close>, the browser goes to the allowlisted destination of that login and nowhere else,
  the new session is the user's named by the id_token, with its life starting now, and the session the
  browser had before is gone, its refresh token revoked at Hydra.\<close>

theorem callback_logs_in:
  assumes "callback L J a w h query = (Ok r, a')" and wf: "app_wf a"
    and digest: "\<And>s. length (sha256 L s) = 32"
    and newest: "\<And>j e. get_session (app_sessions a) j = Some e \<Longrightarrow> created_at e \<le> cw_now w"
    and fresh_id: "extract_cookie L h (session_cookie L (app_config a)) \<noteq> Some (cw_session_id w)"
  shows "\<exists>pending st tokens it rt v jwks d.
    Option.bind (extract_cookie L h (login_cookie L (app_config a))) (from_cookie_value L) = Some pending \<and>
    cq_error query = None \<and> cq_state query = Some st \<and> sha256 L st = sha256 L (pl_state pending) \<and>
    token_request L (cw_answer w) = Ok tokens \<and> ts_id_token tokens = Some it \<and> ts_refresh_token tokens = Some rt \<and>
    verify_id_token L J (app_hydra a) (app_jwks a) (cw_keys_at w) (cw_keys_done w) (cw_fetched w) it
       (ts_access_token tokens) (pl_nonce pending) = (Ok v, jwks) \<and>
    header_get_all (rsp_headers r) ''location'' = [pl_redirect_uri pending] \<and>
    pl_redirect_uri pending \<in> set (redirect_uri_allowlist (app_config a)) \<and>
    get_session (app_sessions a') (cw_session_id w) = Some d \<and>
    user_id d = vid_user_id v \<and> sid d = vid_sid v \<and> refresh_token d = rt \<and> created_at d = cw_now w \<and>
    (\<forall>p e. extract_cookie L h (session_cookie L (app_config a)) = Some p \<longrightarrow>
       get_session (app_sessions a) p = Some e \<longrightarrow>
       get_session (app_sessions a') p = None \<and>
       revoke_request L (app_hydra a) (refresh_token e) \<in> set (hydra_log a')) \<and>
    app_wf a'"
proof -
  let ?pending = "Option.bind (extract_cookie L h (login_cookie L (app_config a))) (from_cookie_value L)"
  let ?prev = "extract_cookie L h (session_cookie L (app_config a))"
  from assms(1) obtain started where cc:
    "callback_complete L J a w ?pending (returned_of query) ?prev = (Inr started, a')"
    and loc: "header_get_all (rsp_headers r) ''location'' = [ss_redirect_uri started]"
    by (auto simp: callback_def Let_def header_get_all_def split: prod.splits sum.splits)
  from callback_complete_ok [OF cc] obtain pending code st tokens it rt v jwks where c:
    "?pending = Some pending" "returned_of query = Code code st" "state_matches L (returned_of query) pending"
    "pl_redirect_uri pending \<in> set (redirect_uri_allowlist (app_config a))"
    "token_request L (cw_answer w) = Inr tokens" "ts_id_token tokens = Some it" "ts_refresh_token tokens = Some rt"
    "verify_id_token L J (app_hydra a) (app_jwks a) (cw_keys_at w) (cw_keys_done w) (cw_fetched w) it
       (ts_access_token tokens) (pl_nonce pending) = (Inr v, jwks)"
    "started = \<lparr>ss_session_id = cw_session_id w, ss_max_age_secs = session_max_age_secs (refresh_ttl (app_hydra a)),
       ss_redirect_uri = pl_redirect_uri pending\<rparr>"
    "a' = install_session L ((log_request a (exchange_code_request L (app_hydra a) code (pl_verifier pending)))
       \<lparr>app_jwks := jwks\<rparr>) (cw_session_id w) (new_session a tokens rt it v (cw_now w)) ?prev" .
  let ?a1 = "(log_request a (exchange_code_request L (app_hydra a) code (pl_verifier pending)))\<lparr>app_jwks := jwks\<rparr>"
  let ?d = "new_session a tokens rt it v (cw_now w)"
  have q: "cq_error query = None" "cq_state query = st"
    using c(2) by (auto simp: returned_of_def split: option.splits)
  from c(2,3) obtain s where s: "st = Some s" "constant_time_eq L s (pl_state pending)"
    by (auto simp: state_matches_def is_some_and_def split: option.splits)
  have wf1: "sessions_wf (app_sessions ?a1)" "app_wf ?a1"
    using wf by (simp_all add: app_wf_def log_request_def)
  have there: "get_session (app_sessions a') (cw_session_id w) = Some ?d"
    unfolding c(10) by (rule install_session_there [OF wf1(1)])
      (use newest fresh_id in \<open>auto simp: new_session_def log_request_def\<close>)
  have ended: "get_session (app_sessions a') p = None \<and>
      revoke_request L (app_hydra a) (refresh_token e) \<in> set (hydra_log a')"
    if "?prev = Some p" "get_session (app_sessions a) p = Some e" for p e
    using install_session_ends_previous [OF wf1(1), where p = p and i = "cw_session_id w" and L = L and d = ?d] that fresh_id
    unfolding c(10) by (simp add: revocation_of_def log_request_def)
  have "app_wf a'" unfolding c(10) by (rule install_session_wf [OF wf1(2)])
  moreover have "user_id ?d = vid_user_id v" "sid ?d = vid_sid v" "refresh_token ?d = rt" "created_at ?d = cw_now w"
    by (simp_all add: new_session_def)
  moreover have "header_get_all (rsp_headers r) ''location'' = [pl_redirect_uri pending]"
    using loc c(9) by simp
  moreover have "sha256 L s = sha256 L (pl_state pending)"
    using s(2) constant_time_eq_digest [OF digest] by simp
  ultimately show ?thesis using c(1,4-8) q s(1) there ended by blast
qed

text \<open>C9: a callback that is refused starts no session and ends none, whatever went wrong; Hydra is
  asked for tokens only once the \<open>state\<close> matched and the destination was allowed. The answer is a
  400, or a 502 when it was Hydra that failed.\<close>

theorem callback_refused_changes_nothing:
  assumes "callback L J a w h query = (Err e, a')"
  shows "app_sessions a' = app_sessions a \<and> app_jtis a' = app_jtis a \<and>
    er_status (callback_error_response e) \<in> {400, 502} \<and>
    (hydra_log a' = hydra_log a \<or>
     (\<exists>pending code. Option.bind (extract_cookie L h (login_cookie L (app_config a))) (from_cookie_value L) = Some pending \<and>
        cq_code query = Some code \<and> state_matches L (returned_of query) pending \<and>
        pl_redirect_uri pending \<in> set (redirect_uri_allowlist (app_config a)) \<and>
        hydra_log a' = hydra_log a @ [exchange_code_request L (app_hydra a) code (pl_verifier pending)]))"
proof -
  from assms obtain se where "callback_complete L J a w
      (Option.bind (extract_cookie L h (login_cookie L (app_config a))) (from_cookie_value L))
      (returned_of query) (extract_cookie L h (session_cookie L (app_config a))) = (Inl se, a')"
    by (auto simp: callback_def Let_def split: prod.splits sum.splits)
  from callback_complete_err [OF this] have c: "app_sessions a' = app_sessions a" "app_jtis a' = app_jtis a"
    "hydra_log a' = hydra_log a \<or>
     (\<exists>pending code st. Option.bind (extract_cookie L h (login_cookie L (app_config a))) (from_cookie_value L) = Some pending \<and>
        returned_of query = Code code st \<and> state_matches L (returned_of query) pending \<and>
        pl_redirect_uri pending \<in> set (redirect_uri_allowlist (app_config a)) \<and>
        hydra_log a' = hydra_log a @ [exchange_code_request L (app_hydra a) code (pl_verifier pending)])"
    by auto
  have "returned_of query = Code code st \<Longrightarrow> cq_code query = Some code" for code st
    by (auto simp: returned_of_def split: option.splits)
  moreover have "er_status (callback_error_response e) \<in> {400, 502}" by (cases e) auto
  ultimately show ?thesis using c by blast
qed

section \<open>An example\<close>

text \<open>Codecs to run the login with: two letters for each byte, and documents of pending logins only.\<close>

definition enc2 :: "string \<Rightarrow> string" where
  "enc2 s = concat (map (\<lambda>c. [char_of (97 + byte c div 16), char_of (97 + byte c mod 16)]) s)"

fun dec2 :: "string \<Rightarrow> string" where
  "dec2 (x # y # s) = char_of ((byte x - 97) * 16 + (byte y - 97)) # dec2 s"
| "dec2 _ = []"

lemma byte_char_of: "n < 256 \<Longrightarrow> byte (char_of n) = n"
  by (simp add: byte_def)

lemma byte_lt: "byte c < 256"
  unfolding byte_def by (metis of_char_mod_256 mod_less_divisor zero_less_numeral)

lemma dec2_enc2 [simp]: "dec2 (enc2 s) = s"
proof (induction s)
  case Nil
  show ?case by (simp add: enc2_def)
next
  case (Cons c s)
  have "byte c div 16 < 16" using byte_lt [of c] by auto
  then have "char_of ((byte (char_of (97 + byte c div 16)) - 97) * 16 + (byte (char_of (97 + byte c mod 16)) - 97)) = c"
    by (simp add: byte_char_of) (simp add: byte_def)
  with Cons show ?case by (simp add: enc2_def)
qed

lemma enc2_plain: "list_all (\<lambda>c. 97 \<le> byte c \<and> byte c < 113) (enc2 s)"
proof (induction s)
  case Nil
  show ?case by (simp add: enc2_def)
next
  case (Cons c s)
  have "byte c div 16 < 16" using byte_lt [of c] by auto
  with Cons show ?case by (simp add: enc2_def byte_char_of)
qed

lemma enc2_no_dot: "CHR ''.'' \<notin> set (enc2 s)"
  using enc2_plain [of s] by (auto simp: list_all_iff byte_def)

definition write_pending :: "json \<Rightarrow> string" where
  "write_pending j = (case j of
     JObj kvs \<Rightarrow> join_with ''.'' (map (\<lambda>kv. case as_str (snd kv) of Some s \<Rightarrow> enc2 s | None \<Rightarrow> []) kvs)
   | _ \<Rightarrow> [])"

definition read_pending :: "string \<Rightarrow> json option" where
  "read_pending s = (case split_on (CHR ''.'') s of
     [w, x, y, z] \<Rightarrow> Some (pending_json \<lparr>pl_state = dec2 w, pl_verifier = dec2 x, pl_nonce = dec2 y, pl_redirect_uri = dec2 z\<rparr>)
   | _ \<Rightarrow> None)"

lemma read_write_pending: "read_pending (write_pending (pending_json p)) = Some (pending_json p)"
proof -
  have "write_pending (pending_json p) =
      enc2 (pl_state p) @ CHR ''.'' # enc2 (pl_verifier p) @ CHR ''.'' # enc2 (pl_nonce p) @ CHR ''.'' # enc2 (pl_redirect_uri p)"
    by (simp add: write_pending_def pending_json_def join_with_def)
  then have "split_on (CHR ''.'') (write_pending (pending_json p)) =
      [enc2 (pl_state p), enc2 (pl_verifier p), enc2 (pl_nonce p), enc2 (pl_redirect_uri p)]"
    by (simp add: split_on_append_sep split_on_no_sep enc2_no_dot)
  then show ?thesis by (cases p) (simp add: read_pending_def)
qed

definition codec_libs :: libs where
  "codec_libs = demo_libs\<lparr>header_str := Some, pct_encode := enc2, pct_decode := dec2,
     json_write := write_pending, json_read := read_pending,
     sha256 := (\<lambda>s. take 32 (map (\<lambda>c. word_of_nat (byte c)) s @ replicate 32 0))\<rparr>"

lemma codec_libs_ok: "codecs_ok codec_libs"
proof -
  have "list_all plain_char (enc2 v)" for v
    using enc2_plain [of v] by (auto simp: list_all_iff plain_char_def ws1_def byte_def)
  then show ?thesis
    by (simp add: codecs_ok_def codec_libs_def demo_libs_def read_write_pending)
qed

definition demo_pending :: pending_login where
  "demo_pending = \<lparr>pl_state = ''s'', pl_verifier = ''v'', pl_nonce = ''n'', pl_redirect_uri = ''https://app.test/''\<rparr>"

definition demo_cookies :: string where
  "demo_cookies = cookie_header [(login_cookie codec_libs demo_config,
     pct_encode codec_libs (to_cookie_value codec_libs demo_pending))]"

lemma demo_allowlist: "redirect_uri_allowlist demo_config = [''https://app.test/'']"
  by (simp add: demo_config_def default_config_def)

theorem login_starts_and_comes_back_witness:
  "\<exists>uri \<in> set (redirect_uri_allowlist demo_config).
     Option.bind (extract_cookie codec_libs [(''cookie'', demo_cookies)] (login_cookie codec_libs demo_config))
       (from_cookie_value codec_libs) =
     Some \<lparr>pl_state = ''s'', pl_verifier = ''v'', pl_nonce = ''n'', pl_redirect_uri = uri\<rparr>"
proof -
  let ?a = "demo_app empty_sessions"
  have c: "app_config ?a = demo_config" by (simp add: demo_app_def)
  let ?set = "build_cookie codec_libs (login_cookie codec_libs demo_config)
      (to_cookie_value codec_libs demo_pending) ''/'' LOGIN_COOKIE_MAX_AGE_SECS (secure_cookies codec_libs demo_config)"
  obtain r where r: "start_login codec_libs ?a (''s'', ''v'', ''n'') (Some ''https://app.test/'') = Inr r"
    "header_get_all (rsp_headers r) ''set-cookie'' = [?set]"
    by (simp add: start_login_def login_start_def c allows_redirect_uri_iff demo_allowlist Let_def
        new_pending_login_def demo_pending_def header_get_all_def)
  have semi: "CHR '';'' \<notin> set (login_cookie codec_libs demo_config)"
    using login_cookie_ok [OF codec_libs_ok] cookie_ok_def by (metis fst_conv)
  have "cookie_text (login_cookie codec_libs demo_config, pct_encode codec_libs (to_cookie_value codec_libs demo_pending)) =
      set_cookie_pair ?set"
    by (rule set_cookie_pair_build [OF codec_libs_ok semi, symmetric])
  from login_starts_and_comes_back [OF r(1) codec_libs_ok, of "[]" "[]" ?set "[(''cookie'', demo_cookies)]"
      demo_cookies "to_cookie_value codec_libs demo_pending", unfolded c, OF _ _ r(2) _ _ _ this]
  show ?thesis by (auto simp: header_get_def codec_libs_def demo_cookies_def)
qed

definition demo_world :: callback_world where
  "demo_world = \<lparr>cw_answer = Inr demo_reply, cw_keys_at = 0, cw_keys_done = 0, cw_fetched = Inr demo_keys,
     cw_session_id = ''new'', cw_now = seconds 100\<rparr>"

definition demo_query :: callback_query where
  "demo_query = \<lparr>cq_code = Some ''c'', cq_state = Some ''s'', cq_error = None\<rparr>"

lemma demo_cookies_read:
  "Option.bind (extract_cookie codec_libs [(''cookie'', demo_cookies)] (login_cookie codec_libs demo_config))
     (from_cookie_value codec_libs) = Some demo_pending"
  by (rule login_cookie_read [OF codec_libs_ok, of "[]" "[]", where h = "[(''cookie'', demo_cookies)]"])
    (simp_all add: header_get_def codec_libs_def demo_cookies_def)

lemma demo_cookie_names:
  "login_cookie codec_libs demo_config = ''__Host-wa_login''" "session_cookie codec_libs demo_config = ''__Host-wa_session''"
  by (simp_all add: session_cookie_def login_cookie_def cookie_name_def secure_cookies_def codec_libs_def demo_libs_def
      demo_config_def default_config_def LOGIN_COOKIE_def HOST_COOKIE_PREFIX_def has_prefix_def get_to_def
      char_boundary_def eq_ignore_ascii_case_def to_ascii_lowercase_def ascii_lower_def byte_def)

lemma demo_no_session: "extract_cookie codec_libs [(''cookie'', demo_cookies)] (session_cookie codec_libs demo_config) = None"
proof -
  have "List.map_filter (cookie_pair codec_libs (session_cookie codec_libs demo_config)) (split_on (CHR '';'') demo_cookies) = []"
    unfolding demo_cookies_def using login_cookie_ok [OF codec_libs_ok, of demo_config, unfolded demo_cookie_names]
    by (subst cookie_values) (simp_all add: demo_cookie_names)
  then show ?thesis by (simp add: extract_cookie_def header_get_def codec_libs_def)
qed

lemma demo_id_verified':
  "verify_id_token codec_libs demo_jwt demo_hydra empty_jwks_cache 0 0 (Inr demo_keys) ''it2'' ''at2'' ''n''
   = (Ok \<lparr>vid_user_id = 65, vid_sid = None\<rparr>, \<lparr>cached_keys = Some (demo_keys, 0), last_attempt = Some 0\<rparr>)"
  by (simp add: verify_id_token_def verify_id_with_def demo_jwt_def codec_libs_def demo_libs_def demo_hydra_def
      keys_for_def fresh_keys_def stale_keys_def throttled_def empty_jwks_cache_def jws_kid_def
      unverified_part_def nth_part_def payload_text_def same_issuer_def trim_slashes_def
      trim_end_matches_def check_at_hash_def byte_def Let_def read_pending_def)

lemma demo_callback:
  "\<exists>r a'. callback codec_libs demo_jwt (demo_app sessions) demo_world [(''cookie'', demo_cookies)] demo_query = (Inr r, a')"
proof -
  have "state_matches codec_libs (Code ''c'' (Some ''s'')) demo_pending"
    by (simp add: state_matches_def demo_pending_def constant_time_eq_refl)
  then show ?thesis
    by (simp add: callback_def Let_def demo_cookies_read demo_no_session callback_complete_def returned_of_def
        demo_query_def demo_world_def allows_redirect_uri_iff demo_app_def demo_allowlist log_request_def)
      (simp add: demo_pending_def demo_id_verified')
qed

theorem callback_logs_in_witness:
  "\<exists>r a' d. callback codec_libs demo_jwt (demo_app demo_sessions) demo_world [(''cookie'', demo_cookies)] demo_query = (Ok r, a') \<and>
     header_get_all (rsp_headers r) ''location'' = [''https://app.test/''] \<and>
     get_session (app_sessions a') ''new'' = Some d \<and> refresh_token d = ''rt2''"
proof -
  obtain r a' where cb: "callback codec_libs demo_jwt (demo_app demo_sessions) demo_world [(''cookie'', demo_cookies)] demo_query = (Inr r, a')"
    using demo_callback by blast
  have c: "app_config (demo_app demo_sessions) = demo_config" "app_sessions (demo_app demo_sessions) = demo_sessions"
    by (simp_all add: demo_app_def)
  have old: "created_at e \<le> cw_now demo_world" if "get_session demo_sessions j = Some e" for j e
  proof -
    have "e = demo_data 1 ''rt'' 0"
      using mem.save_new [OF empty_sessions_wf that [unfolded demo_sessions_def]]
      by (auto simp: get_session_def empty_sessions_def)
    then show ?thesis by (simp add: demo_data_def demo_world_def)
  qed
  have "length (sha256 codec_libs s) = 32" for s by (simp add: codec_libs_def)
  from callback_logs_in [OF cb demo_app_wf [OF demo_sessions_wf] this, unfolded c, OF old] demo_no_session demo_cookies_read
  show ?thesis using cb by (fastforce simp: demo_pending_def demo_world_def)
qed

theorem callback_refused_changes_nothing_witness:
  "\<exists>e a'. callback demo_libs demo_jwt (demo_app demo_sessions) demo_world [] demo_query = (Err e, a') \<and>
     app_sessions a' = demo_sessions"
proof -
  obtain e a' where cb: "callback demo_libs demo_jwt (demo_app demo_sessions) demo_world [] demo_query = (Inl e, a')"
    by (simp add: callback_def Let_def extract_cookie_def header_get_def callback_complete_def)
  with callback_refused_changes_nothing [OF cb] show ?thesis by (simp add: demo_app_def)
qed

end
