(* ===== verification/StoreRuns.thy ===== *)
theory StoreRuns
  imports InMemory
begin

text \<open>
  What the in-memory stores of bff promise over whole runs: any interleaving of the operations the
  service performs on them, each atomic under the store's mutex. The proofs use the facts the
  interpretations of \<open>InMemory\<close> give (\<open>mem\<close>, \<open>jti\<close>, \<open>session_sweep\<close>, \<open>jti_sweep\<close>).
\<close>

section \<open>Reachable session stores\<close>

datatype store_op =
    Save string session_data
  | Update string session_data
  | Take string
  | Revoke session_selector
  | Sweep time

fun store_apply :: "sessions \<Rightarrow> store_op \<Rightarrow> sessions" where
  "store_apply s (Save i d) = snd (save_session s i d)"
| "store_apply s (Update i d) = snd (update_session s i d)"
| "store_apply s (Take i) = snd (take_session s i)"
| "store_apply s (Revoke sel) = snd (revoke s sel)"
| "store_apply s (Sweep now) = sweep_expired_sessions s now"

text \<open>\<open>refresh_session\<close> copies \<open>user_id\<close> from the session it read, so an update never moves a
  session to another user.\<close>

fun store_op_ok :: "sessions \<Rightarrow> store_op \<Rightarrow> bool" where
  "store_op_ok s (Update i d) = is_none_or (\<lambda>e. user_id e = user_id d) (get_session s i)"
| "store_op_ok s _ = True"

inductive store_reachable :: "sessions \<Rightarrow> bool" where
  start: "store_reachable empty_sessions"
| step: "store_reachable s \<Longrightarrow> store_op_ok s p \<Longrightarrow> store_reachable (store_apply s p)"

fun store_run :: "sessions \<Rightarrow> store_op list \<Rightarrow> sessions" where
  "store_run s [] = s"
| "store_run s (p # ps) = store_run (store_apply s p) ps"

definition sessions_of :: "sessions \<Rightarrow> uuid \<Rightarrow> string set" where
  "sessions_of s u = {i. \<exists>d. get_session s i = Some d \<and> user_id d = u}"

lemma get_session_empty [simp]: "get_session empty_sessions i = None"
  by (simp add: get_session_def empty_sessions_def)

lemma store_apply_wf [wf_intros]: "sessions_wf s \<Longrightarrow> sessions_wf (store_apply s p)"
  by (cases p) (simp_all add: wf_intros)

lemma store_run_wf: "sessions_wf s \<Longrightarrow> sessions_wf (store_run s ps)"
  by (induction ps arbitrary: s) (simp_all add: store_apply_wf)

lemma card_sessions_of:
  assumes "sessions_wf s"
  shows "card (sessions_of s u) = length (ids_of s u)"
proof -
  have "sessions_of s u = set (ids_of s u)"
    using sessions_wfD(4) [OF assms] by (auto simp: sessions_of_def get_session_def)
  then show ?thesis using sessions_wfD(3) [OF assms] by (simp add: distinct_card)
qed

lemma finite_sessions_of: "finite (sessions_of s u)"
  by (rule finite_subset [of _ "dom (map_of (by_id s))"])
    (auto simp: sessions_of_def get_session_def finite_dom_map_of)

lemma sessions_of_save_other:
  "sessions_wf s \<Longrightarrow> u \<noteq> user_id d \<Longrightarrow> sessions_of (snd (save_session s i d)) u \<subseteq> sessions_of s u"
  unfolding sessions_of_def using mem.save_new by blast

lemma sessions_of_mono:
  assumes "sessions_wf s" "\<And>j e. get_session t j = Some e \<Longrightarrow> \<exists>e'. get_session s j = Some e' \<and> user_id e' = user_id e"
  shows "card (sessions_of t u) \<le> card (sessions_of s u)"
  by (rule card_mono [OF finite_sessions_of]) (use assms(2) in \<open>fastforce simp: sessions_of_def\<close>)

lemma store_apply_cap:
  assumes wf: "sessions_wf s" and ok: "store_op_ok s p"
    and cap: "\<forall>u. card (sessions_of s u) \<le> MAX_SESSIONS_PER_USER"
  shows "card (sessions_of (store_apply s p) u) \<le> MAX_SESSIONS_PER_USER"
proof (cases p)
  case (Save i d)
  show ?thesis
  proof (cases "u = user_id d")
    case True
    with Save wf show ?thesis
      by (simp add: card_sessions_of save_session_wf save_session_cap)
  next
    case False
    then have "card (sessions_of (snd (save_session s i d)) u) \<le> card (sessions_of s u)"
      by (intro card_mono finite_sessions_of sessions_of_save_other wf)
    with Save cap show ?thesis by (auto intro: le_trans)
  qed
next
  case (Update i d)
  have "\<exists>e'. get_session s j = Some e' \<and> user_id e' = user_id e"
    if "get_session (snd (update_session s i d)) j = Some e" for j e
    using that ok Update update_session_gone [of s i d] update_session_there [of s i _ d]
    by (cases "get_session s i") (auto split: if_splits)
  then have "card (sessions_of (snd (update_session s i d)) u) \<le> card (sessions_of s u)"
    by (rule sessions_of_mono [OF wf])
  with Update cap show ?thesis by (auto intro: le_trans)
next
  case (Take i)
  have "card (sessions_of (snd (take_session s i)) u) \<le> card (sessions_of s u)"
    by (rule sessions_of_mono [OF wf]) (auto simp: mem.tak_snd [OF wf] split: if_splits)
  with Take cap show ?thesis by (auto intro: le_trans)
next
  case (Revoke sel)
  have "card (sessions_of (snd (revoke s sel)) u) \<le> card (sessions_of s u)"
    by (rule sessions_of_mono [OF wf]) (auto dest: mem.rev_sel_new [OF wf])
  with Revoke cap show ?thesis by (auto intro: le_trans)
next
  case (Sweep now)
  have "card (sessions_of (sweep_expired_sessions s now) u) \<le> card (sessions_of s u)"
    by (rule sessions_of_mono [OF wf]) (auto simp: sweep_sessions_lookup [OF wf])
  with Sweep cap show ?thesis by (auto intro: le_trans)
qed

text \<open>C1: in every reachable session store the per-user index agrees with the session table
  (\<open>sessions_wf\<close>) and no user holds more than \<open>MAX_SESSIONS_PER_USER\<close> sessions.\<close>

theorem store_reachable_invariant:
  assumes "store_reachable s"
  shows "sessions_wf s \<and> (\<forall>u. card (sessions_of s u) \<le> MAX_SESSIONS_PER_USER)"
  using assms
proof (induction rule: store_reachable.induct)
  case start
  then show ?case by (simp add: sessions_of_def)
next
  case (step s p)
  then show ?case by (blast intro: store_apply_wf store_apply_cap)
qed

definition demo_session :: "uuid \<Rightarrow> string \<Rightarrow> time \<Rightarrow> session_data" where
  "demo_session u rt t = \<lparr>access_token = ''at'', refresh_token = rt, id_token = ''it'',
     expires_at = t + seconds 3600, created_at = t, refresh_expires_at = t + seconds 86400,
     user_id = u, sid = Some ''sid''\<rparr>"

theorem store_reachable_invariant_witness:
  "sessions_wf (store_apply empty_sessions (Save ''a'' (demo_session 1 ''rt'' 0))) \<and>
   (\<forall>u. card (sessions_of (store_apply empty_sessions (Save ''a'' (demo_session 1 ''rt'' 0))) u)
      \<le> MAX_SESSIONS_PER_USER)"
  by (rule store_reachable_invariant) (rule store_reachable.step [OF store_reachable.start], simp)

section \<open>A login over the limit\<close>

text \<open>Saving a session drops only sessions of the same user, hands back exactly what it
  dropped, drops none younger than one it keeps, and keeps the new session when no session of
  the user is younger.\<close>

theorem save_session_evicts_oldest:
  assumes wf: "sessions_wf s"
    and newest: "\<And>j e. get_session s j = Some e \<Longrightarrow> user_id e = user_id d \<Longrightarrow> created_at e \<le> created_at d"
    and new_id: "get_session s i = None"
    and saved: "save_session s i d = (dropped, s')"
  shows "get_session s' i = Some d \<and>
    mset dropped + mset (map snd (by_id s')) = add_mset d (mset (map snd (by_id s))) \<and>
    (\<forall>e \<in> set dropped. user_id e = user_id d \<and>
       (\<forall>k f. get_session s' k = Some f \<and> user_id f = user_id d \<longrightarrow> created_at e \<le> created_at f))"
proof (intro conjI ballI allI impI)
  have eqs: "dropped = fst (save_session s i d)" "s' = snd (save_session s i d)"
    using saved by simp_all
  show "get_session s' i = Some d"
    unfolding eqs by (rule save_session_keeps_new [OF wf newest])
  have "AList.update i d (by_id s) = by_id s @ [(i, d)]"
    using new_id by (simp add: update_fresh get_session_def map_of_eq_None_iff)
  then have "mset (map snd (by_id (insert_session s i d))) = add_mset d (mset (map snd (by_id s)))"
    using new_id by (simp add: insert_session_def Let_def get_session_def)
  then show "mset dropped + mset (map snd (by_id s')) = add_mset d (mset (map snd (by_id s)))"
    unfolding eqs save_session_eq remove_all_mset [OF insert_session_wf [OF wf], symmetric] .
  fix e assume "e \<in> set dropped"
  then obtain j where j: "j \<in> set (evicted_ids s i d)" "((map_of (by_id s))(i \<mapsto> d)) j = Some e"
    by (auto simp: eqs save_session_fst [OF wf] set_map_filter)
  then show "user_id e = user_id d" using evicted_ids_user [OF wf j(1)] by auto
  fix k f assume k: "get_session s' k = Some f \<and> user_id f = user_id d"
  then have "k \<in> set (ids_of s' (user_id d))"
    using sessions_wfD(4) [OF save_session_wf [OF wf]] by (auto simp: eqs get_session_def)
  moreover have "((map_of (by_id s))(i \<mapsto> d)) k = Some f"
    using k unfolding eqs save_session_lookup by (simp split: if_splits)
  ultimately show "created_at e \<le> created_at f"
    using save_session_oldest [OF wf j(1) _ j(2)] unfolding eqs by blast
qed

theorem save_session_evicts_oldest_witness:
  "get_session (snd (save_session empty_sessions ''a'' (demo_session 1 ''rt'' 0))) ''a'' =
     Some (demo_session 1 ''rt'' 0)"
  using save_session_evicts_oldest [of empty_sessions "demo_session 1 ''rt'' 0" "''a''"
      "fst (save_session empty_sessions ''a'' (demo_session 1 ''rt'' 0))"
      "snd (save_session empty_sessions ''a'' (demo_session 1 ''rt'' 0))"]
  by simp

section \<open>Revocation\<close>

text \<open>\<open>revoke\<close> ends exactly the sessions the selector matches, by the index or by the scan
  alike, hands back exactly those with their multiplicity, and leaves every other as it was.\<close>

theorem revoke_exact:
  assumes wf: "sessions_wf s" and rv: "revoke s sel = (ended, s')"
  shows "sessions_wf s' \<and>
    (\<forall>i. get_session s' i = opt_filter (\<lambda>d. \<not> matches sel d) (get_session s i)) \<and>
    mset ended = filter_mset (matches sel) (mset (map snd (by_id s)))"
proof (intro conjI allI)
  have eqs: "ended = fst (revoke s sel)" "s' = snd (revoke s sel)" using rv by simp_all
  show wf': "sessions_wf s'" unfolding eqs by (rule revoke_wf [OF wf])
  show "get_session s' i = opt_filter (\<lambda>d. \<not> matches sel d) (get_session s i)" for i
    unfolding eqs by (rule revoke_lookup [OF wf])
  have "filter_mset (matches sel) (mset (map snd (by_id s'))) = {#}"
  proof -
    have "\<not> matches sel d" if "(i, d) \<in> set (by_id s')" for i d
      using that sessions_wfD(1) [OF wf'] mem.rev_sel_ends [OF wf, of sel i d]
      by (simp add: eqs get_session_def)
    then show ?thesis by (auto simp: mset_filter [symmetric] filter_empty_conv simp del: mset_filter)
  qed
  moreover have "filter_mset (matches sel) (mset ended) = mset ended"
    using revoke_fst [OF wf, of sel] by (auto simp: eqs filter_mset_eq_conv)
  ultimately show "mset ended = filter_mset (matches sel) (mset (map snd (by_id s)))"
    using revoke_mset [OF wf, of sel] by (simp add: eqs)
qed

theorem revoke_exact_witness:
  "\<exists>ended s'. revoke (store_apply empty_sessions (Save ''a'' (demo_session 1 ''rt'' 0))) (User 1) = (ended, s') \<and>
     mset ended = filter_mset (matches (User 1))
       (mset (map snd (by_id (store_apply empty_sessions (Save ''a'' (demo_session 1 ''rt'' 0))))))"
proof -
  let ?s = "store_apply empty_sessions (Save ''a'' (demo_session 1 ''rt'' 0))"
  have "sessions_wf ?s" by (simp add: wf_intros)
  from revoke_exact [OF this prod.collapse [symmetric]] show ?thesis by (metis prod.collapse)
qed

section \<open>Sessions are never brought back\<close>

definition saves :: "store_op \<Rightarrow> string \<Rightarrow> bool" where
  "saves p i = (case p of Save j d \<Rightarrow> j = i | _ \<Rightarrow> False)"

lemma store_apply_none:
  assumes "sessions_wf s" "get_session s i = None" "\<not> saves p i"
  shows "get_session (store_apply s p) i = None"
proof (cases p)
  case (Save j d)
  with assms show ?thesis using mem.save_new [OF assms(1), of j d i]
    by (cases "get_session (store_apply s p) i") (auto simp: saves_def)
next
  case (Update j d)
  with assms show ?thesis using mem.upd_dom [OF assms(1), of j d]
    by (auto simp: domIff [symmetric])
next
  case (Take j)
  with assms show ?thesis by (simp add: mem.tak_snd)
next
  case (Revoke sel)
  with assms show ?thesis by (simp add: mem.rev_sel_snd)
next
  case (Sweep now)
  with assms show ?thesis by (simp add: sweep_sessions_lookup)
qed

text \<open>Once a session is gone (taken, revoked, evicted or swept) it stays gone, whatever
  operations follow, and an update for it fails and changes nothing, until a login saves a session
  under that id anew.\<close>

theorem gone_stays_gone:
  assumes "sessions_wf s" "get_session s i = None" "list_all (\<lambda>p. \<not> saves p i) ps"
  shows "get_session (store_run s ps) i = None \<and>
    update_session (store_run s ps) i d = (Err SessionGone, store_run s ps)"
proof -
  have "get_session (store_run s ps) i = None"
    using assms
  proof (induction ps arbitrary: s)
    case Nil
    then show ?case by simp
  next
    case (Cons p ps)
    then show ?case by (simp add: store_apply_none store_apply_wf)
  qed
  then show ?thesis by (simp add: update_session_gone)
qed

theorem gone_stays_gone_witness:
  "get_session (store_run empty_sessions [Update ''a'' (demo_session 1 ''rt'' 0), Take ''a'']) ''a'' = None"
  by (rule gone_stays_gone [THEN conjunct1]) (simp_all add: saves_def)

section \<open>Sweeping is not observable\<close>

text \<open>The periodic sweep drops exactly the sessions that have ended for good, so a session
  that could still be used at or after the sweep is kept unchanged.\<close>

theorem sweep_drops_only_ended:
  assumes "sessions_wf s"
  shows "get_session (sweep_expired_sessions s now) i = opt_filter (\<lambda>d. now < ends_at d) (get_session s i) \<and>
    (now \<le> t \<longrightarrow> session_live (sweep_expired_sessions s now) t i = session_live s t i)"
  by (auto simp: sweep_sessions_lookup [OF assms] session_sweep.sweep_live [OF assms])

theorem sweep_drops_only_ended_witness:
  "get_session (sweep_expired_sessions empty_sessions 5) ''a'' = None"
  using sweep_drops_only_ended [of empty_sessions 5 "''a''" 6] by simp

section \<open>Replay of logout tokens\<close>

datatype jti_event = Record time string time | SweepJtis time

fun jti_time :: "jti_event \<Rightarrow> time" where
  "jti_time (Record now j until) = now"
| "jti_time (SweepJtis now) = now"

fun jti_apply :: "jtis \<Rightarrow> jti_event \<Rightarrow> jtis" where
  "jti_apply s (Record now j until) = snd (record_jti s now j until)"
| "jti_apply s (SweepJtis now) = sweep_expired_jtis s now"

fun jti_run :: "jtis \<Rightarrow> jti_event list \<Rightarrow> jtis" where
  "jti_run s [] = s"
| "jti_run s (e # es) = jti_run (jti_apply s e) es"

lemma jti_run_remembers:
  "jtis_wf s \<Longrightarrow> jti_remembered s j later \<Longrightarrow> list_all (\<lambda>e. jti_time e \<le> later) es \<Longrightarrow>
   jtis_wf (jti_run s es) \<and> jti_remembered (jti_run s es) j later"
proof (induction es arbitrary: s)
  case Nil
  then show ?case by simp
next
  case (Cons e es)
  have "jtis_wf (jti_apply s e) \<and> jti_remembered (jti_apply s e) j later"
  proof (cases e)
    case (Record now k until)
    have "jti_remembered s j now"
      using Cons.prems Record by (auto simp: jti_remembered_def is_some_and_def split: option.splits)
    with Cons.prems Record show ?thesis
      by (auto intro: jti.recd_wf jti.recd_mono)
  next
    case (SweepJtis now)
    with Cons.prems show ?thesis
      by (simp add: jti_sweep.sweep_wf jti_sweep.sweep_live)
  qed
  with Cons show ?case by simp
qed

text \<open>A \<open>jti\<close> accepted once is refused for as long as it is to be remembered, whatever other
  tokens are recorded and however often the memory is swept in between.\<close>

theorem jti_not_replayed:
  assumes "jtis_wf s" "record_jti s now j until = (Ok (), s')"
    and "list_all (\<lambda>e. jti_time e \<le> later) es" "later < until"
  shows "record_jti (jti_run s' es) later j until' = (Err JtiReplayed, jti_run s' es)"
proof -
  have fresh: "\<not> jti_remembered s j now"
    using assms(1,2) jti.recd_ok_iff [of s now j until] by simp
  have "jtis_wf s'" using assms(1,2) jti.recd_wf [of s now j until] by simp
  moreover have "jti_remembered s' j later"
    using jti.recd_sets [OF assms(1) fresh, of until later] assms(2,4) by simp
  ultimately show ?thesis using assms(3) jti_run_remembers jti.recd_replay by blast
qed

theorem jti_not_replayed_witness:
  "record_jti (jti_run (snd (record_jti [] 0 ''j'' 100)) [Record 3 ''k'' 50, SweepJtis 60]) 70 ''j'' 200 =
    (Err JtiReplayed, jti_run (snd (record_jti [] 0 ''j'' 100)) [Record 3 ''k'' 50, SweepJtis 60])"
  by (rule jti_not_replayed [of "[]" 0 "''j''" 100]) (simp_all add: jtis_wf_def record_jti_def)

end
