(* ===== verification/RefreshLock.thy ===== *)
theory RefreshLock
  imports Proxy BffLogin StoreRuns
begin

text \<open>
  Refreshing under concurrency: the locks of \<open>bff/src/server/refresh_lock.rs\<close> and the requests of
  \<open>resolve_bearer_token\<close> that run under them, as a step relation in which any number of requests
  interleave at their await points, are cancelled at any of them, and logins, logouts and sweeps
  happen in between.

  A lock is a number, an \<open>Arc\<close> a use of it: the map of \<open>RefreshLocks\<close> holds one handle for each
  entry, a request one from asking for the lock until it is done with it, so \<open>Arc::strong_count\<close> is
  a count of both.
\<close>

section \<open>The locks\<close>

record locks =
  lock_map :: "(string \<times> nat) list"
  lock_holder :: "(nat \<times> nat) list"
  next_lock :: nat

definition no_locks :: locks where
  "no_locks = \<lparr>lock_map = [], lock_holder = [], next_lock = 0\<rparr>"

text \<open>A request: waiting for the lock, holding its guard, or holding it while Hydra is asked.\<close>

datatype task =
    Idle
  | Waiting string nat
  | Holding string nat
  | Asking string nat session_data

fun task_lock :: "task \<Rightarrow> (string \<times> nat) option" where
  "task_lock Idle = None"
| "task_lock (Waiting i l) = Some (i, l)"
| "task_lock (Holding i l) = Some (i, l)"
| "task_lock (Asking i l d) = Some (i, l)"

fun task_guard :: "task \<Rightarrow> (string \<times> nat) option" where
  "task_guard (Holding i l) = Some (i, l)"
| "task_guard (Asking i l d) = Some (i, l)"
| "task_guard _ = None"

definition uses :: "nat \<Rightarrow> task \<Rightarrow> bool" where
  "uses l t = is_some_and (\<lambda>(i, l'). l' = l) (task_lock t)"

definition strong_count :: "locks \<Rightarrow> task list \<Rightarrow> nat \<Rightarrow> nat" where
  "strong_count k ts l = length (filter (\<lambda>(i, l'). l' = l) (lock_map k)) + length (filter (uses l) ts)"

text \<open>\<open>acquire\<close> up to the wait: the session's entry, or a new lock, and a handle to it.\<close>

definition acquire_handle :: "locks \<Rightarrow> string \<Rightarrow> nat \<times> locks" where
  "acquire_handle k session_id = (case map_of (lock_map k) session_id of
     Some l \<Rightarrow> (l, k)
   | None \<Rightarrow> (next_lock k, k\<lparr>lock_map := AList.update session_id (next_lock k) (lock_map k), next_lock := Suc (next_lock k)\<rparr>))"

text \<open>\<open>lock_owned\<close>, once nobody holds it.\<close>

definition take_lock :: "locks \<Rightarrow> nat \<Rightarrow> nat \<Rightarrow> locks" where
  "take_lock k l t = k\<lparr>lock_holder := AList.update l t (lock_holder k)\<rparr>"

text \<open>\<open>Drop\<close> of a guard: \<open>ts\<close> are the requests once this one's handle is gone.\<close>

definition drop_guard :: "locks \<Rightarrow> task list \<Rightarrow> string \<Rightarrow> nat \<Rightarrow> locks" where
  "drop_guard k ts session_id l =
     (let k1 = k\<lparr>lock_holder := AList.delete l (lock_holder k)\<rparr> in
      if is_some_and (\<lambda>l'. strong_count k1 ts l' = 1) (map_of (lock_map k1) session_id)
      then k1\<lparr>lock_map := AList.delete session_id (lock_map k1)\<rparr> else k1)"

definition prune :: "locks \<Rightarrow> task list \<Rightarrow> locks" where
  "prune k ts = k\<lparr>lock_map := filter (\<lambda>(i, l). 1 < strong_count k ts l) (lock_map k)\<rparr>"

section \<open>The requests\<close>

text \<open>What happened at Hydra's token endpoint, newest first: a refresh token was presented, and bff
  learned that Hydra had rotated it.\<close>

datatype event = Presented string | Rotated string

record sys =
  s_locks :: locks
  s_tasks :: "task list"
  s_app :: app_state
  s_events :: "event list"
  s_issued :: "string set"

definition set_task :: "sys \<Rightarrow> nat \<Rightarrow> task \<Rightarrow> sys" where
  "set_task s t p = s\<lparr>s_tasks := (s_tasks s)[t := p]\<rparr>"

definition release :: "sys \<Rightarrow> nat \<Rightarrow> string \<Rightarrow> nat \<Rightarrow> sys" where
  "release s t i l = (let ts = (s_tasks s)[t := Idle]
     in s\<lparr>s_tasks := ts, s_locks := drop_guard (s_locks s) ts i l\<rparr>)"

text \<open>The events and tokens of an answer.\<close>

definition answer_rotates :: "libs \<Rightarrow> sent \<Rightarrow> string option" where
  "answer_rotates L answer = (case token_request L answer of Inl e \<Rightarrow> None | Inr tokens \<Rightarrow> ts_refresh_token tokens)"

definition no_task_on :: "sys \<Rightarrow> string \<Rightarrow> bool" where
  "no_task_on s i \<longleftrightarrow> (\<forall>p \<in> set (s_tasks s). \<forall>l. task_lock p \<noteq> Some (i, l))"

inductive step :: "libs \<Rightarrow> sys \<Rightarrow> sys \<Rightarrow> bool" for L where
  ask_lock: "t < length (s_tasks s) \<Longrightarrow> s_tasks s ! t = Idle \<Longrightarrow>
     resolve_unlocked (s_app s) i t1 t2 = None \<Longrightarrow> acquire_handle (s_locks s) i = (l, k) \<Longrightarrow>
     step L s (set_task (s\<lparr>s_locks := k\<rparr>) t (Waiting i l))"
| got_lock: "t < length (s_tasks s) \<Longrightarrow> s_tasks s ! t = Waiting i l \<Longrightarrow>
     map_of (lock_holder (s_locks s)) l = None \<Longrightarrow>
     step L s (set_task (s\<lparr>s_locks := take_lock (s_locks s) l t\<rparr>) t (Holding i l))"
| cancel_wait: "t < length (s_tasks s) \<Longrightarrow> s_tasks s ! t = Waiting i l \<Longrightarrow> step L s (set_task s t Idle)"
| cancel: "t < length (s_tasks s) \<Longrightarrow> task_guard (s_tasks s ! t) = Some (i, l) \<Longrightarrow> step L s (release s t i l)"
| leave: "t < length (s_tasks s) \<Longrightarrow> s_tasks s ! t = Holding i l \<Longrightarrow>
     is_none_or (is_fresh now) (get_session (app_sessions (s_app s)) i) \<Longrightarrow> step L s (release s t i l)"
| ask_hydra: "t < length (s_tasks s) \<Longrightarrow> s_tasks s ! t = Holding i l \<Longrightarrow>
     get_session (app_sessions (s_app s)) i = Some d \<Longrightarrow> \<not> is_fresh now d \<Longrightarrow>
     step L s (set_task (s\<lparr>s_app := log_request (s_app s) (refresh_request L (app_hydra (s_app s)) (refresh_token d)),
       s_events := Presented (refresh_token d) # s_events s\<rparr>) t (Asking i l d))"
| answered: "t < length (s_tasks s) \<Longrightarrow> s_tasks s ! t = Asking i l d \<Longrightarrow>
     refresh_finish L (s_app s) i d answer now now' = (res, a') \<Longrightarrow>
     answer_rotates L answer = Some new \<Longrightarrow> new \<notin> s_issued s \<Longrightarrow>
     step L s (release (s\<lparr>s_app := a', s_events := Rotated (refresh_token d) # s_events s,
       s_issued := insert new (s_issued s)\<rparr>) t i l)"
| answered_same: "t < length (s_tasks s) \<Longrightarrow> s_tasks s ! t = Asking i l d \<Longrightarrow>
     refresh_finish L (s_app s) i d answer now now' = (res, a') \<Longrightarrow> answer_rotates L answer = None \<Longrightarrow>
     step L s (release (s\<lparr>s_app := a'\<rparr>) t i l)"
| login: "get_session (app_sessions (s_app s)) i = None \<Longrightarrow> no_task_on s i \<Longrightarrow> refresh_token d \<notin> s_issued s \<Longrightarrow>
     previous \<noteq> Some i \<Longrightarrow>
     step L s (s\<lparr>s_app := install_session L (s_app s) i d previous, s_issued := insert (refresh_token d) (s_issued s)\<rparr>)"
| logout: "step L s (s\<lparr>s_app := snd (end_session L (s_app s) i)\<rparr>)"
| revoke_all: "step L s (s\<lparr>s_app := end_sessions L (s_app s) sel\<rparr>)"
| sweep: "step L s (s\<lparr>s_app := expiry_sweep (s_app s) t1 t2, s_locks := prune (s_locks s) (s_tasks s)\<rparr>)"

section \<open>The invariant of the locks\<close>

definition lock_inv :: "locks \<Rightarrow> task list \<Rightarrow> bool" where
  "lock_inv k ts \<longleftrightarrow> distinct (map fst (lock_map k)) \<and> distinct (map fst (lock_holder k)) \<and>
     (\<forall>i l. map_of (lock_map k) i = Some l \<longrightarrow> l < next_lock k) \<and>
     (\<forall>i j l. map_of (lock_map k) i = Some l \<longrightarrow> map_of (lock_map k) j = Some l \<longrightarrow> i = j) \<and>
     (\<forall>t < length ts. \<forall>i l. task_lock (ts ! t) = Some (i, l) \<longrightarrow> map_of (lock_map k) i = Some l) \<and>
     (\<forall>t l. map_of (lock_holder k) l = Some t \<longleftrightarrow> t < length ts \<and> (\<exists>i. task_guard (ts ! t) = Some (i, l)))"

lemma lock_invD:
  assumes "lock_inv k ts"
  shows "distinct (map fst (lock_map k))" "distinct (map fst (lock_holder k))"
    "map_of (lock_map k) i = Some l \<Longrightarrow> l < next_lock k"
    "map_of (lock_map k) i = Some l \<Longrightarrow> map_of (lock_map k) j = Some l \<Longrightarrow> i = j"
    "t < length ts \<Longrightarrow> task_lock (ts ! t) = Some (i, l) \<Longrightarrow> map_of (lock_map k) i = Some l"
    "map_of (lock_holder k) l = Some t \<longleftrightarrow> t < length ts \<and> (\<exists>i. task_guard (ts ! t) = Some (i, l))"
  using assms unfolding lock_inv_def by blast+

lemma lock_invI:
  assumes "distinct (map fst (lock_map k))" "distinct (map fst (lock_holder k))"
    "\<And>i l. map_of (lock_map k) i = Some l \<Longrightarrow> l < next_lock k"
    "\<And>i j l. map_of (lock_map k) i = Some l \<Longrightarrow> map_of (lock_map k) j = Some l \<Longrightarrow> i = j"
    "\<And>t i l. t < length ts \<Longrightarrow> task_lock (ts ! t) = Some (i, l) \<Longrightarrow> map_of (lock_map k) i = Some l"
    "\<And>t l. map_of (lock_holder k) l = Some t \<longleftrightarrow> t < length ts \<and> (\<exists>i. task_guard (ts ! t) = Some (i, l))"
  shows "lock_inv k ts"
  unfolding lock_inv_def using assms by blast

lemma task_guard_lock: "task_guard p = Some x \<Longrightarrow> task_lock p = Some x"
  by (cases p) auto

lemma one_guard:
  assumes "lock_inv k ts" "t < length ts" "u < length ts"
    "task_guard (ts ! t) = Some (i, l)" "task_guard (ts ! u) = Some (i, l')"
  shows "t = u"
proof -
  have "l = l'"
    using lock_invD(5) [OF assms(1,2) task_guard_lock [OF assms(4)]]
      lock_invD(5) [OF assms(1,3) task_guard_lock [OF assms(5)]] by simp
  then have "map_of (lock_holder k) l = Some t" "map_of (lock_holder k) l = Some u"
    using assms lock_invD(6) [OF assms(1)] by blast+
  then show ?thesis by simp
qed

lemma strong_count_used:
  assumes "map_of (lock_map k) i = Some l" "t < length ts" "task_lock (ts ! t) = Some (j, l)"
  shows "2 \<le> strong_count k ts l"
proof -
  have "(i, l) \<in> set (filter (\<lambda>(i, l'). l' = l) (lock_map k))" using assms(1) by (auto dest: map_of_SomeD)
  then have "1 \<le> length (filter (\<lambda>(i, l'). l' = l) (lock_map k))" by (cases "filter (\<lambda>(i, l'). l' = l) (lock_map k)") auto
  moreover have "ts ! t \<in> set (filter (uses l) ts)" using assms(2,3) by (auto simp: uses_def)
  then have "1 \<le> length (filter (uses l) ts)" by (cases "filter (uses l) ts") auto
  ultimately show ?thesis by (simp add: strong_count_def)
qed

lemma lock_inv_acquire:
  assumes inv: "lock_inv k ts" and idle: "t < length ts" "ts ! t = Idle" and acq: "acquire_handle k i = (l, k')"
  shows "lock_inv k' (ts[t := Waiting i l])"
proof -
  have lk: "lock_holder k' = lock_holder k" "distinct (map fst (lock_map k'))"
    using acq lock_invD(1) [OF inv] by (auto simp: acquire_handle_def split: option.splits)
  have mp: "map_of (lock_map k') i = Some l" "next_lock k \<le> next_lock k'"
    "\<And>j m. map_of (lock_map k) j = Some m \<Longrightarrow> map_of (lock_map k') j = Some m"
    "\<And>j m. map_of (lock_map k') j = Some m \<Longrightarrow> map_of (lock_map k) j = Some m \<or> (j = i \<and> m = next_lock k \<and> next_lock k < next_lock k')"
    using acq by (auto simp: acquire_handle_def split: option.splits if_splits)
  have guard: "task_guard (ts[t := Waiting i l] ! u) = task_guard (ts ! u)" for u
    using idle by (cases "u = t") auto
  have c3: "m < next_lock k'" if "map_of (lock_map k') j = Some m" for j m
    using mp(4) [OF that] mp(2) lock_invD(3) [OF inv] by fastforce
  have c4: "j = j'" if "map_of (lock_map k') j = Some m" "map_of (lock_map k') j' = Some m" for j j' m
    using mp(4) [OF that(1)] mp(4) [OF that(2)] lock_invD(3,4) [OF inv] by (metis less_irrefl)
  have c5: "map_of (lock_map k') j = Some m" if "u < length (ts[t := Waiting i l])" "task_lock (ts[t := Waiting i l] ! u) = Some (j, m)" for u j m
    using that mp(1) mp(3) lock_invD(5) [OF inv] idle by (cases "u = t") auto
  have c6: "map_of (lock_holder k') m = Some u \<longleftrightarrow> u < length (ts[t := Waiting i l]) \<and> (\<exists>j. task_guard (ts[t := Waiting i l] ! u) = Some (j, m))" for u m
    unfolding lk(1) guard length_list_update by (rule lock_invD(6) [OF inv])
  show ?thesis by (rule lock_invI [OF lk(2) _ c3 c4 c5 c6]) (simp_all add: lk(1) lock_invD(2) [OF inv])
qed

lemma lock_inv_take:
  assumes inv: "lock_inv k ts" and wait: "t < length ts" "ts ! t = Waiting i l" and free: "map_of (lock_holder k) l = None"
  shows "lock_inv (take_lock k l t) (ts[t := Holding i l])"
proof -
  have c5: "map_of (lock_map k) j = Some m" if "u < length ts" "task_lock (ts[t := Holding i l] ! u) = Some (j, m)" for u j m
    using that lock_invD(5) [OF inv] wait by (cases "u = t") auto
  have c6: "map_of (lock_holder (take_lock k l t)) m = Some u \<longleftrightarrow> u < length ts \<and> (\<exists>j. task_guard (ts[t := Holding i l] ! u) = Some (j, m))" for u m
  proof (cases "m = l")
    case True
    have "\<not> (u < length ts \<and> (\<exists>j. task_guard (ts ! u) = Some (j, l)))"
      using lock_invD(6) [OF inv, of l u] free by simp
    with True wait show ?thesis by (cases "u = t") (auto simp: take_lock_def)
  next
    case False
    with lock_invD(6) [OF inv, of m u] wait show ?thesis by (cases "u = t") (auto simp: take_lock_def)
  qed
  have same: "lock_map (take_lock k l t) = lock_map k" "next_lock (take_lock k l t) = next_lock k"
    "distinct (map fst (lock_holder (take_lock k l t)))"
    using lock_invD(2) [OF inv] by (simp_all add: take_lock_def)
  show ?thesis
    by (rule lock_invI [OF _ same(3)])
      (use lock_invD(1,3,4) [OF inv] c5 c6 in \<open>unfold same length_list_update, blast+\<close>)
qed

lemma lock_inv_wait_cancelled:
  assumes inv: "lock_inv k ts" and wait: "t < length ts" "ts ! t = Waiting i l"
  shows "lock_inv k (ts[t := Idle])"
proof -
  have guard: "task_guard (ts[t := Idle] ! u) = task_guard (ts ! u)" for u using wait by (cases "u = t") auto
  have c5: "map_of (lock_map k) j = Some m" if "u < length ts" "task_lock (ts[t := Idle] ! u) = Some (j, m)" for u j m
    using that lock_invD(5) [OF inv] wait by (cases "u = t") auto
  show ?thesis
    by (rule lock_invI) (use lock_invD(1-4,6) [OF inv] c5 in \<open>unfold guard length_list_update, blast+\<close>)
qed

lemma lock_inv_drop:
  assumes inv: "lock_inv k ts" and t: "t < length ts" "task_guard (ts ! t) = Some (i, l)"
  shows "lock_inv (drop_guard k (ts[t := Idle]) i l) (ts[t := Idle])"
proof -
  let ?ts = "ts[t := Idle]" and ?k = "drop_guard k (ts[t := Idle]) i l"
  let ?k1 = "k\<lparr>lock_holder := AList.delete l (lock_holder k)\<rparr>"
  have hold: "lock_holder ?k = AList.delete l (lock_holder k)" "next_lock ?k = next_lock k"
    by (simp_all add: drop_guard_def Let_def)
  have sub: "map_of (lock_map ?k) j = Some m \<Longrightarrow> map_of (lock_map k) j = Some m" for j m
    by (auto simp: drop_guard_def Let_def split: if_splits)
  have c5: "map_of (lock_map ?k) j = Some m" if u: "u < length ?ts" "task_lock (?ts ! u) = Some (j, m)" for u j m
  proof -
    have "u \<noteq> t" using u t by auto
    with u have m: "map_of (lock_map k) j = Some m" using lock_invD(5) [OF inv] by simp
    have "strong_count ?k1 ?ts m \<noteq> 1"
      using strong_count_used [of ?k1 j m u ?ts j] m u by simp
    with m show ?thesis by (auto simp: drop_guard_def Let_def is_some_and_def split: option.splits)
  qed
  have c6: "map_of (lock_holder ?k) m = Some u \<longleftrightarrow> u < length ?ts \<and> (\<exists>j. task_guard (?ts ! u) = Some (j, m))" for u m
  proof -
    have held: "map_of (lock_holder k) l = Some t" using lock_invD(6) [OF inv, of l t] t by blast
    show ?thesis
    proof (cases "m = l")
      case True
      have "u = t" if "u < length ts" "task_guard (ts ! u) = Some (j, l)" for j
        using lock_invD(6) [OF inv, of l u] that held by auto
      with True show ?thesis by (cases "u = t") (auto simp: hold)
    next
      case False
      with lock_invD(6) [OF inv, of m u] t show ?thesis by (cases "u = t") (auto simp: hold)
    qed
  qed
  have "distinct (map fst (lock_map ?k))" using lock_invD(1) [OF inv] by (simp add: drop_guard_def Let_def)
  moreover have "distinct (map fst (lock_holder ?k))" using lock_invD(2) [OF inv] by (simp add: hold)
  ultimately show ?thesis
    by (rule lock_invI [OF _ _ _ _ c5 c6]) (use lock_invD(3,4) [OF inv] sub in \<open>unfold hold, blast+\<close>)
qed

lemma lock_inv_prune:
  assumes inv: "lock_inv k ts"
  shows "lock_inv (prune k ts) ts"
    "map_of (lock_map (prune k ts)) i = opt_filter (\<lambda>l. 1 < strong_count k ts l) (map_of (lock_map k) i)"
proof -
  show mp: "map_of (lock_map (prune k ts)) i = opt_filter (\<lambda>l. 1 < strong_count k ts l) (map_of (lock_map k) i)" for i
    by (simp add: prune_def map_of_filter_value [OF lock_invD(1) [OF inv]])
  have c5: "map_of (lock_map (prune k ts)) j = Some m" if u: "u < length ts" "task_lock (ts ! u) = Some (j, m)" for u j m
    using strong_count_used [OF lock_invD(5) [OF inv u] u] lock_invD(5) [OF inv u] by (simp add: mp)
  have rest: "lock_holder (prune k ts) = lock_holder k" "next_lock (prune k ts) = next_lock k"
    "distinct (map fst (lock_map (prune k ts)))"
    using lock_invD(1) [OF inv] by (simp_all add: prune_def)
  have sub: "map_of (lock_map (prune k ts)) j = Some m \<Longrightarrow> map_of (lock_map k) j = Some m" for j m
    by (simp add: mp)
  show "lock_inv (prune k ts) ts"
    by (rule lock_invI [OF rest(3) _ _ _ c5]) (use lock_invD(2-4,6) [OF inv] sub in \<open>unfold rest(1,2), blast+\<close>)
qed

lemma lock_inv_same_lock:
  assumes inv: "lock_inv k ts" and t: "t < length ts" "ts ! t = Holding i l"
  shows "lock_inv k (ts[t := Asking i l d])"
proof -
  have same: "task_guard (ts[t := Asking i l d] ! u) = task_guard (ts ! u)"
    "task_lock (ts[t := Asking i l d] ! u) = task_lock (ts ! u)" for u using t by (cases "u = t"; simp)+
  show ?thesis unfolding lock_inv_def same length_list_update using inv unfolding lock_inv_def .
qed

section \<open>The invariant of the tokens\<close>

fun no_reuse :: "event list \<Rightarrow> bool" where
  "no_reuse [] = True"
| "no_reuse (Presented r # es) \<longleftrightarrow> Rotated r \<notin> set es \<and> no_reuse es"
| "no_reuse (Rotated r # es) = no_reuse es"

definition tokens :: "app_state \<Rightarrow> string \<Rightarrow> string option" where
  "tokens a i = map_option refresh_token (get_session (app_sessions a) i)"

definition token_inv :: "(string \<Rightarrow> string option) \<Rightarrow> task list \<Rightarrow> event list \<Rightarrow> string set \<Rightarrow> bool" where
  "token_inv f ts es issued \<longleftrightarrow>
     (\<forall>i r. f i = Some r \<longrightarrow> r \<in> issued \<and> Rotated r \<notin> set es) \<and>
     (\<forall>i j r. f i = Some r \<longrightarrow> f j = Some r \<longrightarrow> i = j) \<and>
     (\<forall>i l d. Asking i l d \<in> set ts \<longrightarrow> refresh_token d \<in> issued \<and>
        (\<forall>r. f i = Some r \<longrightarrow> r = refresh_token d) \<and> (\<forall>j. f j = Some (refresh_token d) \<longrightarrow> j = i)) \<and>
     (\<forall>r. Rotated r \<in> set es \<longrightarrow> r \<in> issued) \<and> no_reuse es"

lemma token_inv_shrink:
  assumes "token_inv f ts es issued" "\<And>i r. f' i = Some r \<Longrightarrow> f i = Some r"
  shows "token_inv f' ts es issued"
  using assms unfolding token_inv_def by blast

lemma token_inv_tasks:
  assumes "token_inv f ts es issued" "\<And>i l d. Asking i l d \<in> set ts' \<Longrightarrow> Asking i l d \<in> set ts"
  shows "token_inv f ts' es issued"
  using assms unfolding token_inv_def by blast

lemma token_inv_set_task:
  "token_inv f ts es issued \<Longrightarrow> (\<And>i l d. p \<noteq> Asking i l d) \<Longrightarrow> token_inv f (ts[t := p]) es issued"
  by (erule token_inv_tasks) (use set_update_subset_insert [of ts t p] in blast)

lemma token_inv_ask:
  assumes inv: "token_inv f ts es issued" and "f i = Some (refresh_token d)"
  shows "token_inv f (ts[t := Asking i l d]) (Presented (refresh_token d) # es) issued"
proof -
  have "Asking j m e = Asking i l d \<or> Asking j m e \<in> set ts" if "Asking j m e \<in> set (ts[t := Asking i l d])" for j m e
    using that set_update_subset_insert [of ts t "Asking i l d"] by blast
  moreover have "refresh_token d \<in> issued" "Rotated (refresh_token d) \<notin> set es"
    "\<forall>r. f i = Some r \<longrightarrow> r = refresh_token d" "\<forall>j. f j = Some (refresh_token d) \<longrightarrow> j = i"
    using assms unfolding token_inv_def by (blast | simp)+
  moreover have "Rotated r \<in> set (Presented (refresh_token d) # es) \<longleftrightarrow> Rotated r \<in> set es" for r by simp
  ultimately show ?thesis
    using inv unfolding token_inv_def no_reuse.simps task.inject by blast
qed

lemma token_inv_rotate:
  assumes inv: "token_inv f ts es issued" and ask: "Asking i l d \<in> set ts" and new: "new \<notin> issued"
    and f': "\<And>j r. f' j = Some r \<Longrightarrow> (j = i \<and> r = new) \<or> (j \<noteq> i \<and> f j = Some r)"
    and ts': "\<And>j m e. Asking j m e \<in> set ts' \<Longrightarrow> Asking j m e \<in> set ts \<and> j \<noteq> i"
  shows "token_inv f' ts' (Rotated (refresh_token d) # es) (insert new issued)"
proof -
  have d: "refresh_token d \<in> issued" "\<And>j. f j = Some (refresh_token d) \<Longrightarrow> j = i"
    using inv ask unfolding token_inv_def by blast+
  have t1: "r \<in> insert new issued \<and> Rotated r \<notin> set (Rotated (refresh_token d) # es)" if "f' j = Some r" for j r
    using f' [OF that] d new inv unfolding token_inv_def by auto
  have t2: "j = j'" if "f' j = Some r" "f' j' = Some r" for j j' r
    using f' [OF that(1)] f' [OF that(2)] new inv unfolding token_inv_def by metis
  have t3: "refresh_token e \<in> insert new issued \<and> (\<forall>r. f' j = Some r \<longrightarrow> r = refresh_token e) \<and>
      (\<forall>j'. f' j' = Some (refresh_token e) \<longrightarrow> j' = j)" if "Asking j m e \<in> set ts'" for j m e
  proof -
    have e: "refresh_token e \<in> issued" "\<forall>r. f j = Some r \<longrightarrow> r = refresh_token e"
      "\<forall>j'. f j' = Some (refresh_token e) \<longrightarrow> j' = j" "j \<noteq> i"
      using ts' [OF that] inv unfolding token_inv_def by blast+
    then show ?thesis using f' new by (metis insertI2)
  qed
  show ?thesis using t1 t2 t3 d inv unfolding token_inv_def
    by (intro conjI allI impI) (blast | simp)+
qed

lemma token_inv_login:
  assumes inv: "token_inv f ts es issued" and new: "new \<notin> issued" and free: "\<And>l d. Asking i l d \<notin> set ts"
    and f': "\<And>j r. f' j = Some r \<Longrightarrow> (j = i \<and> r = new) \<or> (j \<noteq> i \<and> f j = Some r)"
  shows "token_inv f' ts es (insert new issued)"
proof -
  have t1: "r \<in> insert new issued \<and> Rotated r \<notin> set es" if "f' j = Some r" for j r
    using f' [OF that] new inv unfolding token_inv_def by auto
  have t2: "j = j'" if "f' j = Some r" "f' j' = Some r" for j j' r
    using f' [OF that(1)] f' [OF that(2)] new inv unfolding token_inv_def by metis
  have t3: "refresh_token e \<in> insert new issued \<and> (\<forall>r. f' j = Some r \<longrightarrow> r = refresh_token e) \<and>
      (\<forall>j'. f' j' = Some (refresh_token e) \<longrightarrow> j' = j)" if "Asking j m e \<in> set ts" for j m e
  proof -
    have e: "refresh_token e \<in> issued" "\<forall>r. f j = Some r \<longrightarrow> r = refresh_token e"
      "\<forall>j'. f j' = Some (refresh_token e) \<longrightarrow> j' = j"
      using that inv unfolding token_inv_def by blast+
    moreover have "j \<noteq> i" using free that by blast
    ultimately show ?thesis using f' new by (metis insertI2)
  qed
  show ?thesis using t1 t2 t3 inv unfolding token_inv_def by blast
qed

section \<open>What the operations do to the stored tokens\<close>

lemma tokens_mono:
  "(\<And>j e. get_session (app_sessions a') j = Some e \<Longrightarrow> get_session (app_sessions a) j = Some e) \<Longrightarrow>
   tokens a' j = Some r \<Longrightarrow> tokens a j = Some r"
  by (fastforce simp: tokens_def)

lemma tokens_end_session: "app_wf a \<Longrightarrow> tokens (snd (end_session L a i)) j = Some r \<Longrightarrow> tokens a j = Some r"
  by (rule tokens_mono) (simp_all add: end_session_eq app_wf_def mem.tak_snd split: if_splits)

lemma tokens_end_sessions: "app_wf a \<Longrightarrow> tokens (end_sessions L a sel) j = Some r \<Longrightarrow> tokens a j = Some r"
  by (rule tokens_mono) (simp_all add: end_sessions_eq app_wf_def mem.rev_sel_snd)

lemma tokens_sweep: "app_wf a \<Longrightarrow> tokens (expiry_sweep a t1 t2) j = Some r \<Longrightarrow> tokens a j = Some r"
  by (rule tokens_mono) (simp_all add: expiry_sweep_def app_wf_def sweep_sessions_lookup)

lemma tokens_install:
  assumes wf: "app_wf a" and there: "tokens (install_session L a i d previous) j = Some r"
  shows "(j = i \<and> r = refresh_token d) \<or> (j \<noteq> i \<and> tokens a j = Some r)"
proof -
  let ?s = "snd (save_session (app_sessions a) i d)"
  have wfs: "sessions_wf (app_sessions a)" "sessions_wf ?s" using wf by (simp_all add: app_wf_def mem.save_wf)
  have "\<exists>e. get_session ?s j = Some e \<and> refresh_token e = r"
    using there wfs(2)
    by (cases previous) (auto simp: tokens_def install_session_def Let_def case_prod_beta end_session_eq mem.tak_snd split: if_splits)
  then obtain e where e: "get_session ?s j = Some e" "refresh_token e = r" by blast
  have "get_session ?s j = ((get_session (app_sessions a))(i \<mapsto> d)) j"
    using mem.save_sub [OF wfs(1), of i d] e(1) unfolding map_le_def by (metis domI)
  with e show ?thesis by (cases "j = i") (auto simp: tokens_def)
qed

lemma refresh_finish_tokens:
  assumes wf: "app_wf a" and fin: "refresh_finish L a i d answer now now' = (res, a')"
  shows "app_wf a'"
    "tokens a' j = Some r \<Longrightarrow> (j \<noteq> i \<and> tokens a j = Some r) \<or>
       (j = i \<and> tokens a i \<noteq> None \<and> (case answer_rotates L answer of
          Some new \<Rightarrow> r = new | None \<Rightarrow> r = refresh_token d \<or> tokens a i = Some r))"
proof -
  have wfs: "sessions_wf (app_sessions a)" using wf by (simp add: app_wf_def)
  have both: "app_wf a' \<and> (tokens a' j = Some r \<longrightarrow> (j \<noteq> i \<and> tokens a j = Some r) \<or>
       (j = i \<and> tokens a i \<noteq> None \<and> (case answer_rotates L answer of
          Some new \<Rightarrow> r = new | None \<Rightarrow> r = refresh_token d \<or> tokens a i = Some r)))"
  proof (cases "token_request L answer")
    case (Inl e)
    then have no: "answer_rotates L answer = None" by (simp add: answer_rotates_def)
    show ?thesis
      using fin wf Inl
      by (cases e; cases "j = i") (auto simp: refresh_finish_def no tokens_def app_wf_def mem.tak_snd [OF wfs] mem.tak_wf)
  next
    case (Inr tk)
    let ?new = "refreshed_session (refresh_ttl (app_hydra a)) d tk now now'"
    have rot: "refresh_token ?new = (case answer_rotates L answer of Some new \<Rightarrow> new | None \<Rightarrow> refresh_token d)"
      by (simp add: answer_rotates_def Inr refreshed_session_token)
    show ?thesis
    proof (cases "get_session (app_sessions a) i")
      case None
      with Inr fin mem.upd_gone [OF wfs None, of ?new] have "a' = log_request (a\<lparr>app_sessions := app_sessions a\<rparr>) (revocation_of L a ?new)"
        by (auto simp: refresh_finish_def Let_def)
      with None wf show ?thesis by (auto simp: tokens_def app_wf_def)
    next
      case (Some e)
      obtain s where s: "update_session (app_sessions a) i ?new = (Inr (), s)"
        "get_session s = (get_session (app_sessions a))(i \<mapsto> ?new)"
        using mem.upd_there [OF wfs Some, of ?new] by (metis prod.collapse)
      moreover have "sessions_wf s" using mem.upd_wf [OF wfs, of i ?new] s(1) by simp
      ultimately show ?thesis using fin Inr Some wf rot
        by (cases "j = i") (auto simp: refresh_finish_def Let_def tokens_def app_wf_def split: option.splits)
    qed
  qed
  then show "app_wf a'" by blast
  show "tokens a' j = Some r \<Longrightarrow> (j \<noteq> i \<and> tokens a j = Some r) \<or>
       (j = i \<and> tokens a i \<noteq> None \<and> (case answer_rotates L answer of
          Some new \<Rightarrow> r = new | None \<Rightarrow> r = refresh_token d \<or> tokens a i = Some r))"
    using both by blast
qed

section \<open>Reachable states\<close>

inductive reachable :: "libs \<Rightarrow> sys \<Rightarrow> bool" for L where
  initial: "app_sessions a = empty_sessions \<Longrightarrow> app_wf a \<Longrightarrow>
     reachable L \<lparr>s_locks = no_locks, s_tasks = replicate n Idle, s_app = a, s_events = [], s_issued = {}\<rparr>"
| further: "reachable L s \<Longrightarrow> step L s s' \<Longrightarrow> reachable L s'"

definition sys_inv :: "sys \<Rightarrow> bool" where
  "sys_inv s \<longleftrightarrow> lock_inv (s_locks s) (s_tasks s) \<and> app_wf (s_app s) \<and>
     token_inv (tokens (s_app s)) (s_tasks s) (s_events s) (s_issued s)"

lemma sys_invI:
  "lock_inv (s_locks s) (s_tasks s) \<Longrightarrow> app_wf (s_app s) \<Longrightarrow>
   token_inv (tokens (s_app s)) (s_tasks s) (s_events s) (s_issued s) \<Longrightarrow> sys_inv s"
  by (simp add: sys_inv_def)

lemma sys_invD:
  "sys_inv s \<Longrightarrow> lock_inv (s_locks s) (s_tasks s)" "sys_inv s \<Longrightarrow> app_wf (s_app s)"
  "sys_inv s \<Longrightarrow> token_inv (tokens (s_app s)) (s_tasks s) (s_events s) (s_issued s)"
  by (simp_all add: sys_inv_def)

lemma sys_inv_release:
  assumes "lock_inv (s_locks s) (s_tasks s)" "t < length (s_tasks s)" "task_guard (s_tasks s ! t) = Some (i, l)"
    "app_wf (s_app s)" "token_inv (tokens (s_app s)) ((s_tasks s)[t := Idle]) (s_events s) (s_issued s)"
  shows "sys_inv (release s t i l)"
  by (rule sys_invI) (use assms lock_inv_drop [OF assms(1-3)] in \<open>simp_all add: release_def Let_def\<close>)

lemma asking_other:
  assumes inv: "lock_inv k ts" and t: "t < length ts" "ts ! t = Asking i l d" and p: "Asking j m e \<in> set (ts[t := Idle])"
  shows "Asking j m e \<in> set ts \<and> j \<noteq> i"
proof -
  obtain u where u: "u < length ts" "ts[t := Idle] ! u = Asking j m e"
    using p by (metis in_set_conv_nth length_list_update)
  then have ut: "u \<noteq> t" "ts ! u = Asking j m e" using t by (auto simp: nth_list_update split: if_splits)
  have "j \<noteq> i"
  proof
    assume "j = i"
    then have "t = u" using one_guard [OF inv t(1) u(1), of i l m] t(2) ut(2) by simp
    with ut show False by simp
  qed
  with ut u(1) show ?thesis by (metis nth_mem)
qed

lemma tokens_sessions: "app_sessions a = app_sessions b \<Longrightarrow> tokens a = tokens b"
  by (simp add: tokens_def fun_eq_iff)

lemma step_inv: "step L s s' \<Longrightarrow> sys_inv s \<Longrightarrow> sys_inv s'"
proof (induction rule: step.induct)
  case (ask_lock t s i t1 t2 l k)
  note inv = sys_invD [OF ask_lock.prems]
  show ?case
    by (rule sys_invI) (simp_all add: set_task_def lock_inv_acquire [OF inv(1) ask_lock.hyps(1,2,4)] inv(2)
        token_inv_set_task [OF inv(3)])
next
  case (got_lock t s i l)
  note inv = sys_invD [OF got_lock.prems]
  show ?case
    by (rule sys_invI) (simp_all add: set_task_def lock_inv_take [OF inv(1) got_lock.hyps] inv(2)
        token_inv_set_task [OF inv(3)])
next
  case (cancel_wait t s i l)
  note inv = sys_invD [OF cancel_wait.prems]
  show ?case
    by (rule sys_invI) (simp_all add: set_task_def lock_inv_wait_cancelled [OF inv(1) cancel_wait.hyps] inv(2)
        token_inv_set_task [OF inv(3)])
next
  case (cancel t s i l)
  note inv = sys_invD [OF cancel.prems]
  show ?case by (rule sys_inv_release [OF inv(1) cancel.hyps inv(2)]) (simp add: token_inv_set_task [OF inv(3)])
next
  case (leave t s i l now)
  note inv = sys_invD [OF leave.prems]
  show ?case
    by (rule sys_inv_release [OF inv(1) leave.hyps(1) _ inv(2)])
      (simp_all add: leave.hyps(2) token_inv_set_task [OF inv(3)])
next
  case (ask_hydra t s i l d now)
  note inv = sys_invD [OF ask_hydra.prems]
  have tok: "tokens (s_app s) i = Some (refresh_token d)" by (simp add: tokens_def ask_hydra.hyps(3))
  have same: "tokens (log_request (s_app s) r) = tokens (s_app s)" for r by (rule tokens_sessions) simp
  show ?case
    by (rule sys_invI) (simp_all add: set_task_def lock_inv_same_lock [OF inv(1) ask_hydra.hyps(1,2)] inv(2) same
        token_inv_ask [OF inv(3) tok])
next
  case (answered t s i l d answer now now' res a' new)
  note inv = sys_invD [OF answered.prems]
  note fin = refresh_finish_tokens [OF inv(2) answered.hyps(3)]
  have ask: "Asking i l d \<in> set (s_tasks s)" using answered.hyps(1,2) by (metis nth_mem)
  have "token_inv (tokens a') ((s_tasks s)[t := Idle]) (Rotated (refresh_token d) # s_events s) (insert new (s_issued s))"
    by (rule token_inv_rotate [OF inv(3) ask answered.hyps(5)])
      (use fin(2) answered.hyps(4) asking_other [OF inv(1) answered.hyps(1,2)] in auto)
  then show ?case
    using inv(1) answered.hyps(1,2) fin(1) by (intro sys_inv_release) simp_all
next
  case (answered_same t s i l d answer now now' res a')
  note inv = sys_invD [OF answered_same.prems]
  note fin = refresh_finish_tokens [OF inv(2) answered_same.hyps(3)]
  have ask: "Asking i l d \<in> set (s_tasks s)" using answered_same.hyps(1,2) by (metis nth_mem)
  have own: "tokens (s_app s) i = Some r \<Longrightarrow> r = refresh_token d" for r
    using inv(3) ask unfolding token_inv_def by blast
  have "tokens (s_app s) j = Some r" if "tokens a' j = Some r" for j r
    using fin(2) [OF that] answered_same.hyps(4) own by (cases "tokens (s_app s) i") auto
  then have "token_inv (tokens a') ((s_tasks s)[t := Idle]) (s_events s) (s_issued s)"
    by (intro token_inv_set_task token_inv_shrink [OF inv(3)]) auto
  then show ?case
    using inv(1) answered_same.hyps(1,2) fin(1) by (intro sys_inv_release) simp_all
next
  case (login s i d previous)
  note inv = sys_invD [OF login.prems]
  have "Asking i l e \<notin> set (s_tasks s)" for l e
    using login.hyps(2) unfolding no_task_on_def by (metis task_lock.simps(4))
  then have "token_inv (tokens (install_session L (s_app s) i d previous)) (s_tasks s) (s_events s)
      (insert (refresh_token d) (s_issued s))"
    by (intro token_inv_login [OF inv(3) login.hyps(3)] tokens_install [OF inv(2)])
  then show ?case using inv by (intro sys_invI) (simp_all add: install_session_wf)
next
  case (logout s i)
  note inv = sys_invD [OF logout.prems]
  show ?case using inv token_inv_shrink [OF inv(3) tokens_end_session [OF inv(2)]]
    by (intro sys_invI) (simp_all add: end_session_wf)
next
  case (revoke_all s sel)
  note inv = sys_invD [OF revoke_all.prems]
  show ?case using inv token_inv_shrink [OF inv(3) tokens_end_sessions [OF inv(2)]]
    by (intro sys_invI) (simp_all add: end_sessions_wf)
next
  case (sweep s t1 t2)
  note inv = sys_invD [OF sweep.prems]
  show ?case using inv token_inv_shrink [OF inv(3) tokens_sweep [OF inv(2)]]
    by (intro sys_invI) (simp_all add: expiry_sweep_wf lock_inv_prune)
qed

lemma reachable_inv: "reachable L s \<Longrightarrow> sys_inv s"
proof (induction rule: reachable.induct)
  case (initial a n)
  then have "tokens a = (\<lambda>_. None)" by (simp add: tokens_def fun_eq_iff get_session_def empty_sessions_def)
  with initial show ?case
    by (intro sys_invI) (auto simp: no_locks_def token_inv_def intro!: lock_invI)
next
  case (further s s')
  then show ?case by (blast intro: step_inv)
qed

section \<open>What the locks promise\<close>

text \<open>C2: at any moment at most one request per session holds the session's turn to refresh, and so at
  most one refresh of it is under way at Hydra, however requests interleave, are cancelled, and
  however often unused locks are forgotten in between. Requests of different sessions use different
  locks and never wait for each other.\<close>

theorem refresh_is_single_flight:
  assumes "reachable L s" "t < length (s_tasks s)" "u < length (s_tasks s)" "t \<noteq> u"
  shows "(task_guard (s_tasks s ! t) = Some (i, l) \<longrightarrow> task_guard (s_tasks s ! u) \<noteq> Some (i, l')) \<and>
    (task_lock (s_tasks s ! t) = Some (i, l) \<longrightarrow> task_lock (s_tasks s ! u) = Some (j, l) \<longrightarrow> i = j)"
proof -
  have inv: "lock_inv (s_locks s) (s_tasks s)" using reachable_inv [OF assms(1)] by (rule sys_invD)
  show ?thesis
    using one_guard [OF inv assms(2,3)] assms(4) lock_invD(4,5) [OF inv] assms(2,3) by metis
qed


text \<open>C20: a request waiting for its turn is never stuck: either the lock is free and it can take it, or
  another request holds it, whose end in any way, being cancelled included, frees it.\<close>

theorem refresh_lock_never_stuck:
  assumes "reachable L s" "t < length (s_tasks s)" "s_tasks s ! t = Waiting i l"
  shows "(\<exists>s'. step L s s' \<and> s_tasks s' ! t = Holding i l) \<or>
    (\<exists>u. u \<noteq> t \<and> u < length (s_tasks s) \<and> task_guard (s_tasks s ! u) = Some (i, l) \<and>
       step L s (release s u i l) \<and> map_of (lock_holder (s_locks (release s u i l))) l = None \<and>
       s_tasks (release s u i l) ! t = Waiting i l)"
proof (cases "map_of (lock_holder (s_locks s)) l")
  case None
  have "s_tasks (set_task (s\<lparr>s_locks := take_lock (s_locks s) l t\<rparr>) t (Holding i l)) ! t = Holding i l"
    using assms(2) by (simp add: set_task_def)
  with step.got_lock [OF assms(2,3) None] show ?thesis by blast
next
  case (Some u)
  have inv: "lock_inv (s_locks s) (s_tasks s)" using reachable_inv [OF assms(1)] by (rule sys_invD)
  from Some obtain j where u: "u < length (s_tasks s)" "task_guard (s_tasks s ! u) = Some (j, l)"
    using lock_invD(6) [OF inv] by blast
  have "j = i"
    using lock_invD(4) [OF inv] lock_invD(5) [OF inv u(1) task_guard_lock [OF u(2)]]
      lock_invD(5) [OF inv assms(2), of i l] assms(3) by simp
  moreover have "u \<noteq> t" using u assms(3) by auto
  moreover have "map_of (lock_holder (s_locks (release s u i l))) l = None"
    by (simp add: release_def Let_def drop_guard_def)
  moreover have "s_tasks (release s u i l) ! t = Waiting i l"
    using assms(3) \<open>u \<noteq> t\<close> by (simp add: release_def Let_def)
  ultimately show ?thesis using u step.cancel [OF u] by blast
qed

lemma length_filter_both: "length (filter P (filter Q xs)) \<le> length (filter P xs)"
  by (induction xs) auto

lemma length_filter_fst: "distinct (map fst xs) \<Longrightarrow> length (filter (\<lambda>x. fst x = k) xs) \<le> 1"
proof (induction xs)
  case Nil
  show ?case by simp
next
  case (Cons x xs)
  show ?case
  proof (cases "fst x = k")
    case True
    have "fst x \<notin> fst ` set xs" using Cons.prems by simp
    with True have "\<forall>y \<in> set xs. fst y \<noteq> k" by (metis image_eqI)
    then have "filter (\<lambda>x. fst x = k) xs = []" by (simp add: filter_empty_conv)
    with True show ?thesis by simp
  next
    case False
    with Cons show ?thesis by simp
  qed
qed

text \<open>Pruning forgets exactly the locks nobody uses: afterwards a session has a lock just when some
  request waits for it or holds it, so the map does not grow with the sessions ever refreshed.\<close>

theorem prune_keeps_used_locks:
  assumes "reachable L s"
  shows "map_of (lock_map (prune (s_locks s) (s_tasks s))) i = Some l \<longleftrightarrow>
    (\<exists>t < length (s_tasks s). task_lock (s_tasks s ! t) = Some (i, l))"
proof -
  let ?k = "s_locks s" and ?ts = "s_tasks s"
  have inv: "lock_inv ?k ?ts" using reachable_inv [OF assms] by (rule sys_invD)
  show ?thesis
  proof
    assume "map_of (lock_map (prune ?k ?ts)) i = Some l"
    then have m: "map_of (lock_map ?k) i = Some l" "1 < strong_count ?k ?ts l"
      by (simp_all add: lock_inv_prune(2) [OF inv])
    have "filter (\<lambda>(j, l'). l' = l) (lock_map ?k) = filter (\<lambda>jl. fst jl = i) (filter (\<lambda>(j, l'). l' = l) (lock_map ?k))"
      using lock_invD(4) [OF inv _ m(1)] lock_invD(1) [OF inv] by (force intro!: filter_True [symmetric])
    also have "length \<dots> \<le> length (filter (\<lambda>jl. fst jl = i) (lock_map ?k))" by (rule length_filter_both)
    also have "\<dots> \<le> 1" using lock_invD(1) [OF inv] by (rule length_filter_fst)
    finally have "0 < length (filter (uses l) ?ts)" using m(2) unfolding strong_count_def by linarith
    then obtain p where "p \<in> set ?ts" "uses l p" by (auto simp: filter_empty_conv)
    then obtain t j where t: "t < length ?ts" "task_lock (?ts ! t) = Some (j, l)"
      by (auto simp: uses_def is_some_and_def in_set_conv_nth split: option.splits)
    then have "j = i" using lock_invD(4,5) [OF inv] m(1) by metis
    with t show "\<exists>t < length ?ts. task_lock (?ts ! t) = Some (i, l)" by blast
  next
    assume "\<exists>t < length ?ts. task_lock (?ts ! t) = Some (i, l)"
    then show "map_of (lock_map (prune ?k ?ts)) i = Some l"
      using lock_invD(5) [OF lock_inv_prune(1) [OF inv]] by blast
  qed
qed

section \<open>A run\<close>

definition demo_sys :: "app_state \<Rightarrow> task list \<Rightarrow> sys" where
  "demo_sys a ts = \<lparr>s_locks = no_locks, s_tasks = ts, s_app = a, s_events = [], s_issued = {}\<rparr>"

definition demo_signed_in :: sys where
  "demo_signed_in = (let s = demo_sys (demo_app empty_sessions) [Idle, Idle] in
     s\<lparr>s_app := install_session demo_libs (s_app s) ''a'' (demo_data 1 ''rt'' 0) None, s_issued := {''rt''}\<rparr>)"

text \<open>A session whose access token has expired: both requests want to refresh it, the first gets the lock
  and asks Hydra.\<close>

definition demo_wait :: sys where
  "demo_wait = set_task (demo_signed_in\<lparr>s_locks := snd (acquire_handle no_locks ''a'')\<rparr>) 0 (Waiting ''a'' 0)"

definition demo_wait2 :: sys where
  "demo_wait2 = set_task demo_wait 1 (Waiting ''a'' 0)"

definition demo_hold :: sys where
  "demo_hold = set_task (demo_wait2\<lparr>s_locks := take_lock (s_locks demo_wait2) 0 0\<rparr>) 0 (Holding ''a'' 0)"

definition demo_ask :: sys where
  "demo_ask = set_task (demo_hold\<lparr>s_app := log_request (s_app demo_hold) (refresh_request demo_libs (app_hydra (s_app demo_hold)) ''rt''),
     s_events := [Presented ''rt'']\<rparr>) 0 (Asking ''a'' 0 (demo_data 1 ''rt'' 0))"

lemma demo_signed_in_session: "get_session (app_sessions (s_app demo_signed_in)) ''a'' = Some (demo_data 1 ''rt'' 0)"
  unfolding demo_signed_in_def Let_def
  by (simp, rule install_session_there) (simp_all add: demo_sys_def demo_app_def)

lemma demo_signed_in_reachable: "reachable demo_libs demo_signed_in"
proof -
  have "demo_sys (demo_app empty_sessions) [Idle, Idle] =
      \<lparr>s_locks = no_locks, s_tasks = replicate 2 Idle, s_app = demo_app empty_sessions, s_events = [], s_issued = {}\<rparr>"
    by (simp add: demo_sys_def numeral_2_eq_2)
  then have r: "reachable demo_libs (demo_sys (demo_app empty_sessions) [Idle, Idle])"
    by (simp only:) (rule reachable.initial, simp_all add: demo_app_def app_wf_def jtis_wf_def)
  have "step demo_libs (demo_sys (demo_app empty_sessions) [Idle, Idle]) demo_signed_in"
    using step.login [of "demo_sys (demo_app empty_sessions) [Idle, Idle]" "''a''" "demo_data 1 ''rt'' 0" None demo_libs]
    by (simp add: demo_signed_in_def demo_sys_def demo_app_def no_task_on_def demo_data_def get_session_def empty_sessions_def Let_def)
  with r show ?thesis by (rule reachable.further)
qed

lemma demo_signed_in_simps: "s_tasks demo_signed_in = [Idle, Idle]" "s_locks demo_signed_in = no_locks" "s_events demo_signed_in = []"
  by (simp_all add: demo_signed_in_def demo_sys_def Let_def)

lemma demo_login_due:
  "resolve_unlocked (s_app demo_signed_in) ''a'' (seconds 4000) (seconds 4000) = None"
  by (simp add: resolve_unlocked_def demo_signed_in_session demo_data_def ends_at_def MAX_SESSION_LIFETIME_def
      is_fresh_def ACCESS_TOKEN_REFRESH_LEEWAY_def seconds_def)

lemma demo_wait_simps:
  "s_tasks demo_wait = [Waiting ''a'' 0, Idle]" "s_app demo_wait = s_app demo_signed_in" "s_events demo_wait = []"
  "s_locks demo_wait = \<lparr>lock_map = [(''a'', 0)], lock_holder = [], next_lock = 1\<rparr>"
  by (simp_all add: demo_wait_def set_task_def demo_signed_in_simps acquire_handle_def no_locks_def)

lemma demo_wait2_simps:
  "s_tasks demo_wait2 = [Waiting ''a'' 0, Waiting ''a'' 0]" "s_app demo_wait2 = s_app demo_signed_in" "s_events demo_wait2 = []"
  "s_locks demo_wait2 = \<lparr>lock_map = [(''a'', 0)], lock_holder = [], next_lock = 1\<rparr>"
  by (simp_all add: demo_wait2_def set_task_def demo_wait_simps)

lemma demo_hold_simps:
  "s_tasks demo_hold = [Holding ''a'' 0, Waiting ''a'' 0]" "s_app demo_hold = s_app demo_signed_in" "s_events demo_hold = []"
  by (simp_all add: demo_hold_def set_task_def demo_wait2_simps)

lemma demo_wait_reachable: "reachable demo_libs demo_wait"
proof -
  have "step demo_libs demo_signed_in demo_wait"
    unfolding demo_wait_def
    by (rule step.ask_lock [OF _ _ demo_login_due]) (simp_all add: demo_signed_in_simps acquire_handle_def no_locks_def)
  with demo_signed_in_reachable show ?thesis by (rule reachable.further)
qed

lemma demo_ask_reachable: "reachable demo_libs demo_ask"
proof -
  note r1 = demo_wait_reachable
  have due: "resolve_unlocked (s_app demo_wait) ''a'' (seconds 4000) (seconds 4000) = None"
    by (simp add: demo_wait_simps demo_login_due)
  have same: "demo_wait\<lparr>s_locks := s_locks demo_wait\<rparr> = demo_wait" by simp
  have "step demo_libs demo_wait (set_task (demo_wait\<lparr>s_locks := s_locks demo_wait\<rparr>) 1 (Waiting ''a'' 0))"
    by (rule step.ask_lock [OF _ _ due]) (simp_all add: demo_wait_simps acquire_handle_def)
  then have "step demo_libs demo_wait demo_wait2" unfolding same demo_wait2_def .
  with r1 have r2: "reachable demo_libs demo_wait2" by (rule reachable.further)
  have "step demo_libs demo_wait2 demo_hold"
    unfolding demo_hold_def by (rule step.got_lock) (simp_all add: demo_wait2_simps)
  with r2 have r3: "reachable demo_libs demo_hold" by (rule reachable.further)
  have rt: "refresh_token (demo_data 1 ''rt'' 0) = ''rt''" by (simp add: demo_data_def)
  have "step demo_libs demo_hold (set_task (demo_hold\<lparr>s_app := log_request (s_app demo_hold)
        (refresh_request demo_libs (app_hydra (s_app demo_hold)) (refresh_token (demo_data 1 ''rt'' 0))),
      s_events := Presented (refresh_token (demo_data 1 ''rt'' 0)) # s_events demo_hold\<rparr>) 0 (Asking ''a'' 0 (demo_data 1 ''rt'' 0)))"
    by (rule step.ask_hydra [where now = "seconds 4000"])
      (simp_all add: demo_hold_simps demo_signed_in_session demo_data_def is_fresh_def ACCESS_TOKEN_REFRESH_LEEWAY_def seconds_def)
  then have "step demo_libs demo_hold demo_ask" unfolding rt demo_ask_def demo_hold_simps .
  with r3 show ?thesis by (rule reachable.further)
qed

lemma demo_ask_simps: "s_tasks demo_ask = [Asking ''a'' 0 (demo_data 1 ''rt'' 0), Waiting ''a'' 0]" "s_events demo_ask = [Presented ''rt'']"
  by (simp_all add: demo_ask_def set_task_def demo_hold_simps)

theorem refresh_is_single_flight_witness:
  "task_guard (s_tasks demo_ask ! 0) = Some (''a'', 0) \<and> task_guard (s_tasks demo_ask ! 1) \<noteq> Some (''a'', 0)"
  using refresh_is_single_flight [OF demo_ask_reachable, of 0 1 "''a''" 0 0 "''a''"] by (simp add: demo_ask_simps)


theorem refresh_lock_never_stuck_witness:
  "\<exists>s'. step demo_libs demo_wait s' \<and> s_tasks s' ! 0 = Holding ''a'' 0"
  using refresh_lock_never_stuck [OF demo_wait_reachable, of 0 "''a''" 0]
  by (auto simp: demo_wait_simps less_Suc_eq)

theorem prune_keeps_used_locks_witness:
  "map_of (lock_map (prune (s_locks demo_ask) (s_tasks demo_ask))) ''a'' = Some 0 \<and>
   map_of (lock_map (prune (s_locks demo_ask) (s_tasks demo_ask))) ''b'' \<noteq> Some 0"
  using prune_keeps_used_locks [OF demo_ask_reachable, of "''a''" 0]
    prune_keeps_used_locks [OF demo_ask_reachable, of "''b''" 0]
  by (auto simp: demo_ask_simps less_Suc_eq numeral_2_eq_2)

end
