(* ===== verification/BffLogout.thy ===== *)
theory BffLogout
  imports BffLogin StoreRuns
begin

text \<open>
  Logging out: the browser's \<open>POST /logout\<close> (\<open>bff/src/server/api/logout.rs\<close>) and its way back through
  \<open>/logged-out\<close> (\<open>logged_out.rs\<close>), Hydra's \<open>/backchannel-logout\<close> (\<open>backchannel_logout.rs\<close>) and
  \<open>/internal/revoke\<close> of the hooks service (\<open>internal_revoke.rs\<close>).
\<close>

section \<open>\<open>/logout\<close> and \<open>/logged-out\<close>\<close>

datatype logout_error = LogoutUntrustedOrigin

definition logout_error_response :: "logout_error \<Rightarrow> error_response" where
  "logout_error_response e = \<lparr>er_status = 403, er_reason = ''UntrustedOrigin'',
     er_details = ''request did not come from a trusted origin''\<rparr>"

definition logout_service ::
    "libs \<Rightarrow> app_state \<Rightarrow> string option \<Rightarrow> string option \<Rightarrow> string \<times> app_state" where
  "logout_service L a session_id requested =
     (let (session, a') = (case session_id of Some i \<Rightarrow> end_session L a i | None \<Rightarrow> (None, a));
          destination = opt_filter (allows_redirect_uri (app_config a')) requested;
          hint = map_option id_token session
      in (logout_url L (app_hydra a') hint destination, a'))"

definition logout ::
    "libs \<Rightarrow> app_state \<Rightarrow> headers \<Rightarrow> string option \<Rightarrow> (logout_error + response) \<times> app_state" where
  "logout L a h requested =
     (case require_trusted_origin L h (app_origins a) of
        Inl e \<Rightarrow> (Err LogoutUntrustedOrigin, a)
      | Inr _ \<Rightarrow>
          let c = app_config a;
              (hydra_logout_url, a') = logout_service L a (extract_cookie L h (session_cookie L c)) requested
          in (Ok \<lparr>rsp_status = 303, rsp_headers =
                [(''location'', hydra_logout_url),
                 (''set-cookie'', clear_cookie L (session_cookie L c) ''/'' (secure_cookies L c)),
                 (''cache-control'', ''no-store'')]\<rparr>, a'))"

datatype logged_out_error = NoDestination

definition logged_out_error_response :: "logged_out_error \<Rightarrow> error_response" where
  "logged_out_error_response e = \<lparr>er_status = 400, er_reason = ''NoDestination'', er_details = ''no destination''\<rparr>"

definition logged_out_destination :: "app_state \<Rightarrow> string option \<Rightarrow> logged_out_error + string" where
  "logged_out_destination a requested =
     ok_or (opt_or (opt_filter (allows_redirect_uri (app_config a)) requested)
              (default_redirect_uri (app_config a))) NoDestination"

definition logged_out :: "app_state \<Rightarrow> string option \<Rightarrow> logged_out_error + response" where
  "logged_out a st = (case logged_out_destination a st of
     Inl e \<Rightarrow> Err e
   | Inr destination \<Rightarrow> Ok \<lparr>rsp_status = 303, rsp_headers =
       [(''location'', destination), (''cache-control'', ''no-store'')]\<rparr>)"

section \<open>\<open>/backchannel-logout\<close>\<close>

datatype backchannel_service_error =
    Invalid logout_token_error
  | Replayed
  | KeysUnavailable jwks_error

datatype backchannel_error = InvalidLogoutToken | ReplayedLogoutToken | BcKeysUnavailable

fun backchannel_error_of :: "backchannel_service_error \<Rightarrow> backchannel_error" where
  "backchannel_error_of (Invalid e) = InvalidLogoutToken"
| "backchannel_error_of Replayed = ReplayedLogoutToken"
| "backchannel_error_of (KeysUnavailable e) = BcKeysUnavailable"

fun backchannel_error_response :: "backchannel_error \<Rightarrow> error_response" where
  "backchannel_error_response InvalidLogoutToken =
     \<lparr>er_status = 400, er_reason = ''InvalidLogoutToken'', er_details = ''invalid logout_token''\<rparr>"
| "backchannel_error_response ReplayedLogoutToken =
     \<lparr>er_status = 400, er_reason = ''ReplayedLogoutToken'', er_details = ''invalid logout_token''\<rparr>"
| "backchannel_error_response BcKeysUnavailable =
     \<lparr>er_status = 503, er_reason = ''KeysUnavailable'', er_details = ''signing keys unavailable''\<rparr>"

fun backchannel_refusal :: "logout_token_error \<Rightarrow> backchannel_service_error" where
  "backchannel_refusal (Keys (UnknownKey kid)) = Invalid (Keys (UnknownKey kid))"
| "backchannel_refusal (Keys e) = KeysUnavailable e"
| "backchannel_refusal e = Invalid e"

text \<open>The clock: \<open>now\<close>, \<open>ready\<close> and \<open>later\<close> of the verification, then \<open>rec\<close> when the \<open>jti\<close> is recorded.\<close>

definition backchannel_service ::
    "libs \<Rightarrow> jwt_libs \<Rightarrow> app_state \<Rightarrow> time \<Rightarrow> time \<Rightarrow> time \<Rightarrow> time \<Rightarrow> jwks_error + keys \<Rightarrow> string \<Rightarrow>
     (backchannel_service_error + unit) \<times> app_state" where
  "backchannel_service L J a now ready later rec fetched token =
     (case verify_logout_token L J (app_hydra a) (app_jwks a) now ready later fetched token of
        (Inl e, jwks) \<Rightarrow> (Err (backchannel_refusal e), a\<lparr>app_jwks := jwks\<rparr>)
      | (Inr lc, jwks) \<Rightarrow>
          let a1 = a\<lparr>app_jwks := jwks\<rparr> in
          (case record_jti (app_jtis a1) rec (lc_jti lc) (lc_replay_until lc) of
             (Inl _, _) \<Rightarrow> (Err Replayed, a1)
           | (Inr _, jtis) \<Rightarrow> (Ok (), end_sessions L (a1\<lparr>app_jtis := jtis\<rparr>) (lc_target lc))))"

definition backchannel_logout ::
    "libs \<Rightarrow> jwt_libs \<Rightarrow> app_state \<Rightarrow> time \<Rightarrow> time \<Rightarrow> time \<Rightarrow> time \<Rightarrow> jwks_error + keys \<Rightarrow> string \<Rightarrow>
     (backchannel_error + nat) \<times> app_state" where
  "backchannel_logout L J a now ready later rec fetched token =
     (case backchannel_service L J a now ready later rec fetched token of
        (Inl e, a') \<Rightarrow> (Err (backchannel_error_of e), a')
      | (Inr _, a') \<Rightarrow> (Ok 200, a'))"

section \<open>\<open>/internal/revoke\<close>\<close>

datatype revoke_error = RevokeUnauthorized

definition revoke_error_response :: "revoke_error \<Rightarrow> error_response" where
  "revoke_error_response e = \<lparr>er_status = 401, er_reason = ''Unauthorized'', er_details = ''missing or invalid API key''\<rparr>"

datatype revoke_service_error = MissingKey | WrongKey | NoKeyConfigured

definition bearer_token :: "libs \<Rightarrow> headers \<Rightarrow> string option" where
  "bearer_token L h =
     map_option snd (opt_filter (\<lambda>(scheme, _). eq_ignore_ascii_case scheme ''bearer'')
       (Option.bind (Option.bind (header_get h ''authorization'') (header_str L)) (split_once (CHR '' ''))))"

definition authorize :: "libs \<Rightarrow> string option \<Rightarrow> string \<Rightarrow> revoke_service_error + unit" where
  "authorize L presented expected =
     (if expected = [] then Err NoKeyConfigured
      else (case presented of
          None \<Rightarrow> Err MissingKey
        | Some p \<Rightarrow> if constant_time_eq L p expected then Ok () else Err WrongKey))"

text \<open>The key is checked before the body is read; \<open>body\<close> is the user of a well-formed body, or the
  status the body's extractor refuses it with.\<close>

definition internal_revoke ::
    "libs \<Rightarrow> app_state \<Rightarrow> headers \<Rightarrow> nat + uuid \<Rightarrow> (revoke_error + nat) \<times> app_state" where
  "internal_revoke L a h body =
     (case authorize L (bearer_token L h) (internal_api_key (app_config a)) of
        Inl e \<Rightarrow> (Err RevokeUnauthorized, a)
      | Inr _ \<Rightarrow> (case body of
          Inl status \<Rightarrow> (Ok status, a)
        | Inr u \<Rightarrow> (Ok 204, end_sessions L a (User u))))"

section \<open>What a logout promises\<close>

text \<open>C13: a logout from a trusted origin ends the session the browser's cookie names and no other, asks
  Hydra to revoke its refresh token, clears the cookie, and sends the browser to Hydra's logout with
  the session's id_token as the hint, carrying a destination only when it is on the allowlist. From any
  other origin nothing happens at all.\<close>

theorem logout_ends_the_session:
  assumes "app_wf a"
  shows "case logout L a h requested of
      (Inl _, a') \<Rightarrow> a' = a \<and> (\<forall>origin. request_origin L h = Ok origin \<longrightarrow> origin \<notin> set (app_origins a))
    | (Inr r, a') \<Rightarrow>
        (\<exists>origin. request_origin L h = Ok origin \<and> origin \<in> set (app_origins a)) \<and>
        (let i = extract_cookie L h (session_cookie L (app_config a));
             session = Option.bind i (get_session (app_sessions a)) in
         (\<forall>j. get_session (app_sessions a') j = (if Some j = i then None else get_session (app_sessions a) j)) \<and>
         hydra_log a' = hydra_log a @
           (case session of None \<Rightarrow> [] | Some d \<Rightarrow> [revoke_request L (app_hydra a) (refresh_token d)]) \<and>
         header_get_all (rsp_headers r) ''location'' =
           [logout_url L (app_hydra a) (map_option id_token session)
              (opt_filter (\<lambda>uri. uri \<in> set (redirect_uri_allowlist (app_config a))) requested)] \<and>
         header_get_all (rsp_headers r) ''set-cookie'' =
           [clear_cookie L (session_cookie L (app_config a)) ''/'' (secure_cookies L (app_config a))])"
proof -
  have wf: "sessions_wf (app_sessions a)" using assms by (simp add: app_wf_def)
  have allow: "allows_redirect_uri (app_config a) = (\<lambda>uri. uri \<in> set (redirect_uri_allowlist (app_config a)))"
    by (simp add: fun_eq_iff allows_redirect_uri_iff)
  show ?thesis
  proof (cases "require_trusted_origin L h (app_origins a)")
    case (Inl e)
    then have "\<forall>origin. request_origin L h = Inr origin \<longrightarrow> origin \<notin> set (app_origins a)"
      using require_trusted_origin_ok [of L h "app_origins a"] by auto
    with Inl show ?thesis by (simp add: logout_def)
  next
    case (Inr u)
    then have origin: "\<exists>origin. request_origin L h = Inr origin \<and> origin \<in> set (app_origins a)"
      using require_trusted_origin_ok [of L h "app_origins a"] by simp
    show ?thesis
    proof (cases "extract_cookie L h (session_cookie L (app_config a))")
      case None
      with Inr origin show ?thesis
        by (simp add: logout_def logout_service_def Let_def allow header_get_all_def)
    next
      case (Some i)
      have "logout_service L a (Some i) requested =
          (logout_url L (app_hydra a) (map_option id_token (get_session (app_sessions a) i))
             (opt_filter (\<lambda>uri. uri \<in> set (redirect_uri_allowlist (app_config a))) requested),
           snd (end_session L a i))"
        by (simp add: logout_service_def Let_def case_prod_beta end_session_eq allow)
      with Inr origin Some show ?thesis
        by (auto simp: logout_def Let_def header_get_all_def end_session_eq mem.tak_snd [OF wf] revocation_of_def
            split: option.split)
    qed
  qed
qed

theorem logout_ends_the_session_witness:
  "\<forall>j. get_session (app_sessions (snd (logout demo_libs (demo_app demo_sessions)
      [(''origin'', ''https://app.test''), (''cookie'', ''__Host-wa_session=a'')] None))) j =
    (if j = ''a'' then None else get_session demo_sessions j)"
proof -
  let ?h = "[(''origin'', ''https://app.test''), (''cookie'', ''__Host-wa_session=a'')]"
  have c: "session_cookie demo_libs demo_config = ''__Host-wa_session''"
    by (simp add: session_cookie_def cookie_name_def secure_cookies_def demo_libs_def demo_config_def
        default_config_def HOST_COOKIE_PREFIX_def has_prefix_def get_to_def char_boundary_def
        eq_ignore_ascii_case_def to_ascii_lowercase_def ascii_lower_def byte_def)
  have i: "extract_cookie demo_libs ?h ''__Host-wa_session'' = Some ''a''"
    by (simp add: extract_cookie_def header_get_def demo_libs_def ascii_str_def byte_def cookie_pair_def
        trim_def ws1_def ws2_def ws3_def map_filter_simps)
  have "request_origin demo_libs ?h = Inr ''https://app.test''"
    by (simp add: request_origin_def header_get_def demo_libs_def ascii_str_def byte_def)
  then have tr: "require_trusted_origin demo_libs ?h (app_origins (demo_app demo_sessions)) = Inr ()"
    by (simp add: require_trusted_origin_ok demo_app_def)
  obtain r a' where l: "logout demo_libs (demo_app demo_sessions) ?h None = (Inr r, a')"
    by (simp add: logout_def tr Let_def case_prod_beta)
  show ?thesis
    using logout_ends_the_session [OF demo_app_wf [OF demo_sessions_wf], of demo_libs ?h None]
    unfolding l by (simp add: Let_def demo_app_def c i eq_commute [of "''a''"])
qed

text \<open>Bff sends a browser that logged out only to the destination asked for when that is on the
  allowlist, and else to the configured default; there is no other destination.\<close>

theorem logged_out_never_redirects_elsewhere:
  "(case logged_out a st of
      Inl _ \<Rightarrow> default_redirect_uri (app_config a) = None \<and> (\<forall>uri. st = Some uri \<longrightarrow> uri \<notin> set (redirect_uri_allowlist (app_config a)))
    | Inr r \<Rightarrow> (\<exists>uri. header_get_all (rsp_headers r) ''location'' = [uri] \<and>
        (st = Some uri \<and> uri \<in> set (redirect_uri_allowlist (app_config a)) \<or>
         default_redirect_uri (app_config a) = Some uri \<and>
           (\<forall>u. st = Some u \<longrightarrow> u \<notin> set (redirect_uri_allowlist (app_config a))))))"
  by (cases st; cases "default_redirect_uri (app_config a)")
    (auto simp: logged_out_def logged_out_destination_def header_get_all_def allows_redirect_uri_iff)

theorem logged_out_never_redirects_elsewhere_witness:
  "\<exists>r. logged_out (demo_app empty_sessions) (Some ''https://app.test/'') = Ok r \<and>
     header_get_all (rsp_headers r) ''location'' = [''https://app.test/'']"
proof -
  obtain r where "logged_out (demo_app empty_sessions) (Some ''https://app.test/'') = Inr r"
    by (simp add: logged_out_def logged_out_destination_def allows_redirect_uri_iff demo_app_def demo_allowlist)
  with logged_out_never_redirects_elsewhere [of "demo_app empty_sessions" "Some ''https://app.test/''"]
  show ?thesis by (auto simp: demo_app_def demo_config_def default_config_def)
qed

section \<open>What a back-channel logout promises\<close>

lemma backchannel_service_ok:
  assumes "backchannel_service L J a now ready later rec fetched token = (Inr u, a')"
  obtains lc jwks where
    "verify_logout_token L J (app_hydra a) (app_jwks a) now ready later fetched token = (Inr lc, jwks)"
    "fst (record_jti (app_jtis a) rec (lc_jti lc) (lc_replay_until lc)) = Inr ()"
    "a' = end_sessions L (a\<lparr>app_jwks := jwks, app_jtis := snd (record_jti (app_jtis a) rec (lc_jti lc) (lc_replay_until lc))\<rparr>)
       (lc_target lc)"
proof (cases "verify_logout_token L J (app_hydra a) (app_jwks a) now ready later fetched token")
  case (Pair res jwks)
  show thesis
  proof (cases res)
    case (Inl e)
    with Pair assms show thesis by (simp add: backchannel_service_def)
  next
    case (Inr lc)
    from Pair Inr assms show thesis
      by (cases "record_jti (app_jtis a) rec (lc_jti lc) (lc_replay_until lc)"; cases "fst (record_jti (app_jtis a) rec (lc_jti lc) (lc_replay_until lc))")
        (auto simp: backchannel_service_def intro!: that)
  qed
qed

lemma backchannel_service_err:
  assumes "backchannel_service L J a now ready later rec fetched token = (Inl e, a')"
  shows "app_sessions a' = app_sessions a \<and> app_jtis a' = app_jtis a \<and> hydra_log a' = hydra_log a"
  using assms by (auto simp: backchannel_service_def Let_def split: prod.splits sum.splits)

text \<open>C11: a back-channel logout that answers 200 carried a verified logout token whose \<open>jti\<close> was not
  remembered; the sessions it names are gone (every one that matches, no other), their refresh tokens
  revoked at Hydra. A refused one ends nothing and remembers nothing, so a forged token can neither
  log anyone out nor use up a genuine token's \<open>jti\<close>.\<close>

theorem backchannel_logout_ends_named_sessions:
  assumes "app_wf a"
  shows "case backchannel_logout L J a now ready later rec fetched token of
      (Inl _, a') \<Rightarrow> app_sessions a' = app_sessions a \<and> app_jtis a' = app_jtis a \<and> hydra_log a' = hydra_log a
    | (Inr status, a') \<Rightarrow> status = 200 \<and>
        (\<exists>lc jwks. verify_logout_token L J (app_hydra a) (app_jwks a) now ready later fetched token = (Ok lc, jwks) \<and>
           \<not> jti_remembered (app_jtis a) (lc_jti lc) rec \<and>
           (\<forall>i. get_session (app_sessions a') i =
              opt_filter (\<lambda>d. \<not> matches (lc_target lc) d) (get_session (app_sessions a) i)) \<and>
           (\<forall>i d. get_session (app_sessions a) i = Some d \<longrightarrow> matches (lc_target lc) d \<longrightarrow>
              revoke_request L (app_hydra a) (refresh_token d) \<in> set (hydra_log a')))"
proof (cases "backchannel_service L J a now ready later rec fetched token")
  case (Pair res a')
  show ?thesis
  proof (cases res)
    case (Inl e)
    with Pair backchannel_service_err [of L J a now ready later rec fetched token e a'] show ?thesis
      by (simp add: backchannel_logout_def)
  next
    case (Inr u)
    have wf: "sessions_wf (app_sessions a)" "jtis_wf (app_jtis a)" using assms by (simp_all add: app_wf_def)
    from backchannel_service_ok [OF Pair [unfolded Inr]] obtain lc jwks where b:
      "verify_logout_token L J (app_hydra a) (app_jwks a) now ready later fetched token = (Inr lc, jwks)"
      "fst (record_jti (app_jtis a) rec (lc_jti lc) (lc_replay_until lc)) = Inr ()"
      "a' = end_sessions L (a\<lparr>app_jwks := jwks, app_jtis := snd (record_jti (app_jtis a) rec (lc_jti lc) (lc_replay_until lc))\<rparr>)
         (lc_target lc)" .
    have fresh: "\<not> jti_remembered (app_jtis a) (lc_jti lc) rec"
      using b(2) jti.recd_ok_iff [OF wf(2)] by blast
    have look: "get_session (app_sessions a') i =
        opt_filter (\<lambda>d. \<not> matches (lc_target lc) d) (get_session (app_sessions a) i)" for i
      unfolding b(3) by (simp add: end_sessions_eq mem.rev_sel_snd [OF wf(1)])
    have sent: "revoke_request L (app_hydra a) (refresh_token d) \<in> set (hydra_log a')"
      if "get_session (app_sessions a) i = Some d" "matches (lc_target lc) d" for i d
    proof -
      have "d \<in> set (fst (revoke (app_sessions a) (lc_target lc)))"
        unfolding mem.rev_sel_fst [OF wf(1)] using that by blast
      then show ?thesis unfolding b(3) by (simp add: end_sessions_eq revocation_of_def)
    qed
    show ?thesis using Pair Inr b(1) fresh look sent by (auto simp: backchannel_logout_def)
  qed
qed

definition demo_backchannel :: "app_state \<Rightarrow> (backchannel_error + nat) \<times> app_state" where
  "demo_backchannel a = backchannel_logout demo_libs demo_jwt a (seconds 100) (seconds 100) (seconds 100) (seconds 100)
     (Inr demo_keys) ''tok''"

lemma demo_backchannel_ok: "fst (demo_backchannel (demo_app demo_sessions)) = Inr 200"
  by (simp add: demo_backchannel_def backchannel_logout_def backchannel_service_def demo_app_def demo_logout_verified
      record_jti_def Let_def)

theorem backchannel_logout_ends_named_sessions_witness:
  "\<exists>a'. demo_backchannel (demo_app demo_sessions) = (Ok 200, a') \<and>
     (\<forall>i d. get_session (app_sessions a') i = Some d \<longrightarrow> user_id d \<noteq> 65 \<or> sid d \<noteq> Some ''sid'')"
proof -
  obtain a' where a': "demo_backchannel (demo_app demo_sessions) = (Inr 200, a')"
    using demo_backchannel_ok by (metis prod.collapse)
  from backchannel_logout_ends_named_sessions [OF demo_app_wf [OF demo_sessions_wf], where L = demo_libs and J = demo_jwt
      and now = "seconds 100" and ready = "seconds 100" and later = "seconds 100" and rec = "seconds 100"
      and fetched = "Inr demo_keys" and token = "''tok''"]
    a' [unfolded demo_backchannel_def]
  obtain lc jwks where "verify_logout_token demo_libs demo_jwt demo_hydra empty_jwks_cache (seconds 100) (seconds 100)
      (seconds 100) (Inr demo_keys) ''tok'' = (Inr lc, jwks)"
    "\<forall>i. get_session (app_sessions a') i = opt_filter (\<lambda>d. \<not> matches (lc_target lc) d) (get_session demo_sessions i)"
    by (auto simp: demo_app_def)
  then show ?thesis using a' by (auto simp: demo_logout_verified)
qed

text \<open>C12: a logout token is good for one logout. Once it was accepted, presenting it again before its
  \<open>jti\<close> is forgotten is refused and ends no session, whatever other tokens arrived and however often
  the memory was swept in between, and also when Hydra's keys changed; and it is not forgotten before
  the token is too old to be accepted. The payload of a token is the token's: whichever key verifies
  it, the claims are the same.\<close>

theorem logout_token_used_once:
  assumes wf: "app_wf a"
    and first: "backchannel_logout L J a now ready later rec fetched token = (Ok status, a1)"
    and payload: "\<And>key v c key' v' c'. decode_jwt J token key v = Ok c \<Longrightarrow> decode_jwt J token key' v' = Ok c' \<Longrightarrow> c = c'"
    and between: "app_jtis b = jti_run (app_jtis a1) es" "list_all (\<lambda>e. jti_time e \<le> rec') es"
    and in_time: "\<And>lc jwks. verify_logout_token L J (app_hydra a) (app_jwks a) now ready later fetched token = (Ok lc, jwks)
      \<Longrightarrow> rec' < lc_replay_until lc"
    and again: "backchannel_logout L J b now' ready' later' rec' fetched' token = (res, b')"
  shows "\<not> is_ok res \<and> app_sessions b' = app_sessions b"
proof -
  have wfj: "jtis_wf (app_jtis a)" using wf by (simp add: app_wf_def)
  from first obtain u where "backchannel_service L J a now ready later rec fetched token = (Inr u, a1)"
    by (auto simp: backchannel_logout_def split: prod.splits sum.splits)
  from backchannel_service_ok [OF this] obtain lc jwks where v:
    "verify_logout_token L J (app_hydra a) (app_jwks a) now ready later fetched token = (Inr lc, jwks)"
    "fst (record_jti (app_jtis a) rec (lc_jti lc) (lc_replay_until lc)) = Inr ()"
    "a1 = end_sessions L (a\<lparr>app_jwks := jwks, app_jtis := snd (record_jti (app_jtis a) rec (lc_jti lc) (lc_replay_until lc))\<rparr>)
       (lc_target lc)" .
  have fresh: "\<not> jti_remembered (app_jtis a) (lc_jti lc) rec" using v(2) jti.recd_ok_iff [OF wfj] by blast
  have a1: "app_jtis a1 = snd (record_jti (app_jtis a) rec (lc_jti lc) (lc_replay_until lc))"
    unfolding v(3) by (simp add: end_sessions_eq)
  have "jtis_wf (app_jtis a1)" "jti_remembered (app_jtis a1) (lc_jti lc) rec'"
    unfolding a1 using jti.recd_wf [OF wfj] jti.recd_sets [OF wfj fresh] in_time [OF v(1)] by simp_all
  from jti_run_remembers [OF this between(2)]
  have rem: "jti_remembered (app_jtis b) (lc_jti lc) rec'" "jtis_wf (app_jtis b)" by (simp_all add: between(1))
  have "\<not> is_ok (fst (backchannel_service L J b now' ready' later' rec' fetched' token))"
  proof
    assume ok: "is_ok (fst (backchannel_service L J b now' ready' later' rec' fetched' token))"
    then obtain u b1 where "backchannel_service L J b now' ready' later' rec' fetched' token = (Inr u, b1)"
      by (cases "backchannel_service L J b now' ready' later' rec' fetched' token"; cases "fst (backchannel_service L J b now' ready' later' rec' fetched' token)") auto
    from backchannel_service_ok [OF this] obtain lc' jwks' where v':
      "verify_logout_token L J (app_hydra b) (app_jwks b) now' ready' later' fetched' token = (Inr lc', jwks')"
      "fst (record_jti (app_jtis b) rec' (lc_jti lc') (lc_replay_until lc')) = Inr ()" .
    from verify_logout_token_ok [OF v(1)] obtain key val claims where c:
      "decode_jwt J token key val = Inr claims" "check_claims L claims later = Inr lc" .
    from verify_logout_token_ok [OF v'(1)] obtain key' val' claims' where c':
      "decode_jwt J token key' val' = Inr claims'" "check_claims L claims' later' = Inr lc'" .
    have "claims = claims'" by (rule payload [OF c(1) c'(1)])
    with c(2) c'(2) have "lc' = lc" using check_claims_same by blast
    with v'(2) rem jti.recd_ok_iff [OF rem(2)] show False by blast
  qed
  then obtain e b1 where "backchannel_service L J b now' ready' later' rec' fetched' token = (Inl e, b1)"
    by (cases "backchannel_service L J b now' ready' later' rec' fetched' token"; cases "fst (backchannel_service L J b now' ready' later' rec' fetched' token)") auto
  with again backchannel_service_err [OF this] show ?thesis by (auto simp: backchannel_logout_def)
qed

theorem logout_token_used_once_witness:
  "\<exists>a1. demo_backchannel (demo_app demo_sessions) = (Ok 200, a1) \<and>
     \<not> is_ok (fst (backchannel_logout demo_libs demo_jwt a1 (seconds 200) (seconds 200) (seconds 200) (seconds 200) (Inr demo_keys) ''tok''))"
proof -
  obtain a1 where a1: "demo_backchannel (demo_app demo_sessions) = (Inr 200, a1)"
    using demo_backchannel_ok by (metis prod.collapse)
  have pay: "c = c'" if "decode_jwt demo_jwt ''tok'' key v = Inr c" "decode_jwt demo_jwt ''tok'' key' v' = Inr c'"
    for key v c key' v' c' using that by (auto simp: demo_jwt_def split: if_splits)
  have time: "seconds 200 < lc_replay_until lc" if "verify_logout_token demo_libs demo_jwt (app_hydra (demo_app demo_sessions))
      (app_jwks (demo_app demo_sessions)) (seconds 100) (seconds 100) (seconds 100) (Inr demo_keys) ''tok'' = (Inr lc, jwks)" for lc jwks
    using that by (auto simp: demo_app_def demo_logout_verified)
  obtain res b' where again: "backchannel_logout demo_libs demo_jwt a1 (seconds 200) (seconds 200) (seconds 200) (seconds 200)
      (Inr demo_keys) ''tok'' = (res, b')" by fastforce
  from logout_token_used_once [OF demo_app_wf [OF demo_sessions_wf] a1 [unfolded demo_backchannel_def] pay _ _ time again,
      where es = "[]"] a1 again
  show ?thesis by simp
qed

text \<open>The edge of that window: a token is still accepted at the very instant until which its \<open>jti\<close> is
  remembered, while a \<open>jti\<close> is refused only strictly before it.\<close>

lemma replay_window_edge:
  "check_claims demo_libs demo_logout_json (seconds 760) =
     Ok \<lparr>lc_target = UserSession 65 ''sid'', lc_jti = ''j1'', lc_replay_until = seconds 760\<rparr> \<and>
   fst (record_jti (snd (record_jti [] (seconds 100) ''j1'' (seconds 760))) (seconds 760) ''j1'' (seconds 760)) = Ok ()"
  by (simp add: check_claims_def demo_logout_json_def issued_at_def i64_range_def demo_libs_def record_jti_def
      LEEWAY_def TOKEN_MAX_AGE_def seconds_def is_logout_event_def claim_text_def claims_target_def
      BACKCHANNEL_LOGOUT_EVENT_def byte_def)

section \<open>What an internal revocation promises\<close>

text \<open>C14: \<open>/internal/revoke\<close> acts only for a caller whose bearer token has the digest of the configured
  key, which must not be empty; anyone else is refused before the body matters and changes nothing. An
  authorized call with a user ends all of that user's sessions and no one else's.\<close>

theorem internal_revoke_authorized:
  assumes wf: "app_wf a" and digest: "\<And>s. length (sha256 L s) = 32"
  shows "case internal_revoke L a h body of
      (Inl _, a') \<Rightarrow> a' = a \<and> (internal_api_key (app_config a) = [] \<or>
         (\<forall>t. bearer_token L h = Some t \<longrightarrow> sha256 L t \<noteq> sha256 L (internal_api_key (app_config a))))
    | (Inr status, a') \<Rightarrow> internal_api_key (app_config a) \<noteq> [] \<and>
        (\<exists>t. bearer_token L h = Some t \<and> sha256 L t = sha256 L (internal_api_key (app_config a))) \<and>
        (case body of
           Inl refused \<Rightarrow> status = refused \<and> a' = a
         | Inr u \<Rightarrow> status = 204 \<and> (\<forall>i. get_session (app_sessions a') i =
             opt_filter (\<lambda>d. user_id d \<noteq> u) (get_session (app_sessions a) i)))"
proof -
  have wfs: "sessions_wf (app_sessions a)" using wf by (simp add: app_wf_def)
  have auth: "authorize L p k = Inr () \<longleftrightarrow> k \<noteq> [] \<and> (\<exists>t. p = Some t \<and> sha256 L t = sha256 L k)" for p k
    by (auto simp: authorize_def constant_time_eq_digest [OF digest] split: option.splits)
  show ?thesis
  proof (cases "authorize L (bearer_token L h) (internal_api_key (app_config a))")
    case (Inl e)
    with auth [of "bearer_token L h" "internal_api_key (app_config a)"] show ?thesis
      by (auto simp: internal_revoke_def)
  next
    case (Inr u)
    with auth [of "bearer_token L h" "internal_api_key (app_config a)"]
    have ok: "internal_api_key (app_config a) \<noteq> []"
      "\<exists>t. bearer_token L h = Some t \<and> sha256 L t = sha256 L (internal_api_key (app_config a))" by auto
    show ?thesis
      by (cases body) (use Inr ok in \<open>simp_all add: internal_revoke_def end_sessions_eq mem.rev_sel_snd [OF wfs]\<close>)
  qed
qed

theorem internal_revoke_authorized_witness:
  "\<forall>i. get_session (app_sessions (snd (internal_revoke codec_libs (demo_app demo_sessions)
      [(''authorization'', ''Bearer 0123456789abcdef'')] (Inr 1)))) i =
    opt_filter (\<lambda>d. user_id d \<noteq> 1) (get_session demo_sessions i)"
proof -
  let ?h = "[(''authorization'', ''Bearer 0123456789abcdef'')]"
  have digest: "length (sha256 codec_libs s) = 32" for s by (simp add: codec_libs_def)
  have "eq_ignore_ascii_case ''Bearer'' ''bearer''" by code_simp
  then have "bearer_token codec_libs ?h = Some ''0123456789abcdef''"
    by (simp add: bearer_token_def header_get_def codec_libs_def)
  then obtain n a' where r: "internal_revoke codec_libs (demo_app demo_sessions) ?h (Inr 1) = (Inr n, a')"
    by (simp add: internal_revoke_def authorize_def demo_app_def demo_config_def default_config_def constant_time_eq_refl)
  show ?thesis
    using internal_revoke_authorized [OF demo_app_wf [OF demo_sessions_wf] digest, of ?h "Inr 1"]
    unfolding r by (simp add: demo_app_def)
qed

end
