(* ===== verification/JsonRead.thy ===== *)
theory JsonRead
  imports Web
begin

text \<open>
  Reading JSON into a struct some of whose fields have a default (\<open>#[serde(default)]\<close>), and the
  requests login and hooks send to Kratos and Hydra with their answers. What an upstream answers is
  a function of the request: no handler sends the same request twice.
\<close>

text \<open>An array stands for a struct when it has all the fields up to the last required one and no more
  than there are fields.\<close>

fun struct_fields_default :: "nat \<Rightarrow> string list \<Rightarrow> json \<Rightarrow> (string \<Rightarrow> json option) option" where
  "struct_fields_default required names (JObj kvs) = struct_fields names (JObj kvs)"
| "struct_fields_default required names (JArr xs) =
     (if required \<le> length xs \<and> length xs \<le> length names then Some (map_of (zip names xs)) else None)"
| "struct_fields_default required names _ = None"

definition de_default :: "'a \<Rightarrow> (json \<Rightarrow> 'a option) \<Rightarrow> json option \<Rightarrow> 'a option" where
  "de_default d f v = (case v of None \<Rightarrow> Some d | Some j \<Rightarrow> f j)"

definition as_strings :: "json \<Rightarrow> string list option" where
  "as_strings j = Option.bind (as_array j) (\<lambda>xs. those (map as_str xs))"

record http_request =
  hq_method :: string
  hq_url :: url
  hq_headers :: headers
  hq_body :: string

text \<open>An answer's body is its bytes, or \<open>Inl\<close> the cause it could not be read.\<close>

record http_answer =
  ha_status :: nat
  ha_headers :: headers
  ha_body :: "string + string"

type_synonym http_sent = "string + http_answer"

text \<open>\<open>Response::json\<close>: the cause, or the value \<open>f\<close> reads from the document.\<close>

definition answer_json :: "libs \<Rightarrow> (json \<Rightarrow> 'a option) \<Rightarrow> http_answer \<Rightarrow> string + 'a" where
  "answer_json L f a = (case ha_body a of
     Inl cause \<Rightarrow> Err cause
   | Inr text \<Rightarrow> (case json_read L text of
       None \<Rightarrow> Err ''not JSON''
     | Some j \<Rightarrow> ok_or (f j) (json_cause L j)))"

lemma de_default_simps [simp]:
  "de_default d f None = Some d" "de_default d f (Some j) = f j"
  by (simp_all add: de_default_def)

lemma answer_json_Ok:
  "answer_json L f a = Inr v \<longleftrightarrow>
     (\<exists>text j. ha_body a = Inr text \<and> json_read L text = Some j \<and> f j = Some v)"
  by (auto simp: answer_json_def split: sum.splits option.splits)

end
