(* ===== verification/Throttle.thy ===== *)
theory Throttle
  imports Web
begin

text \<open>
  login's per-identifier throttle (\<open>login/src/throttle.rs\<close>): a growing delay between password
  attempts for one identifier. The \<open>Mutex\<close> makes each operation one step; \<open>Instant::now()\<close> is an
  argument. \<open>attempts\<close> is a \<open>u32\<close> whose increment wraps as it does in a release build. The table is
  a \<open>HashMap\<close>; when it is full, \<open>evict\<close> ranks its entries with \<open>select_nth_unstable\<close>, which leaves
  open which of two entries of the same rank comes first: that choice is the argument \<open>tie\<close>.

  The theorems follow one identifier through any sequence of operations of all identifiers
  (\<open>admissions\<close>), and the size of the table through any sequence (\<open>throttle_run\<close>).
\<close>

section \<open>The operations\<close>

definition FREE_ATTEMPTS :: "32 word" where "FREE_ATTEMPTS = 5"
definition SHORT_DELAY_ATTEMPTS :: "32 word" where "SHORT_DELAY_ATTEMPTS = 5"
definition SHORT_DELAY :: duration where "SHORT_DELAY = seconds 30"
definition LONG_DELAY :: duration where "LONG_DELAY = seconds 300"
definition FORGET_AFTER :: duration where "FORGET_AFTER = seconds 3600"
definition MAX_TRACKED :: nat where "MAX_TRACKED = 100000"

type_synonym throttle_key = "8 word list"

text \<open>\<open>char::to_lowercase\<close> reads the Unicode tables: \<open>lower\<close> is the map of a text's characters to
  the first of their lower case.\<close>

definition key_of :: "libs \<Rightarrow> (string \<Rightarrow> string) \<Rightarrow> string \<Rightarrow> throttle_key" where
  "key_of L lower identifier = sha256 L (lower (trim identifier))"

datatype admission = Admitted | Wait duration

datatype outcome = Failed | Succeeded | NotAnAttempt

record throttle_entry =
  attempts :: "32 word"
  last_attempt :: time

type_synonym throttle = "(throttle_key \<times> throttle_entry) list"

definition delay_after :: "32 word \<Rightarrow> duration" where
  "delay_after n =
     (if n < FREE_ATTEMPTS then 0
      else if n < FREE_ATTEMPTS + SHORT_DELAY_ATTEMPTS then SHORT_DELAY
      else LONG_DELAY)"

definition wait_until :: "throttle_entry \<Rightarrow> time" where
  "wait_until e = last_attempt e + delay_after (attempts e)"

text \<open>The rank \<open>(attempts >= FREE_ATTEMPTS, last_attempt)\<close>, compared as Rust compares pairs.\<close>

definition delaying :: "throttle_entry \<Rightarrow> bool" where
  "delaying e \<longleftrightarrow> FREE_ATTEMPTS \<le> attempts e"

definition ranked :: "(throttle_key \<Rightarrow> nat) \<Rightarrow> throttle \<Rightarrow> throttle" where
  "ranked tie entries =
     sort_key (\<lambda>(k, e). delaying e) (sort_key (\<lambda>(k, e). last_attempt e) (sort_key (\<lambda>(k, e). tie k) entries))"

definition evict :: "(throttle_key \<Rightarrow> nat) \<Rightarrow> throttle \<Rightarrow> throttle" where
  "evict tie entries =
     (let batch = min (max (MAX_TRACKED div 10) 1) (length entries)
      in foldl (\<lambda>t (k, e). AList.delete k t) entries (take batch (ranked tie entries)))"

definition admit :: "(throttle_key \<Rightarrow> nat) \<Rightarrow> throttle \<Rightarrow> throttle_key \<Rightarrow> time \<Rightarrow> admission \<times> throttle" where
  "admit tie entries key now =
     (case opt_filter (\<lambda>e. now < last_attempt e + FORGET_AFTER) (map_of entries key) of
        Some e \<Rightarrow>
          if now < wait_until e then (Wait (wait_until e - now), entries)
          else (Admitted, AList.update key \<lparr>attempts = attempts e + 1, last_attempt = now\<rparr> entries)
      | None \<Rightarrow>
          (Admitted, AList.update key \<lparr>attempts = 1, last_attempt = now\<rparr>
             (if MAX_TRACKED \<le> length entries then evict tie entries else entries)))"

definition saturating_sub1 :: "32 word \<Rightarrow> 32 word" where
  "saturating_sub1 n = (if n = 0 then 0 else n - 1)"

definition settle :: "throttle \<Rightarrow> throttle_key \<Rightarrow> outcome \<Rightarrow> throttle" where
  "settle entries key out = (case out of
     Failed \<Rightarrow> entries
   | Succeeded \<Rightarrow> AList.delete key entries
   | NotAnAttempt \<Rightarrow> (case map_of entries key of
       None \<Rightarrow> entries
     | Some e \<Rightarrow>
         (let n = saturating_sub1 (attempts e)
          in if n = 0 then AList.delete key entries
             else AList.update key (e\<lparr>attempts := n\<rparr>) entries)))"

definition throttle_sweep :: "throttle \<Rightarrow> time \<Rightarrow> throttle" where
  "throttle_sweep entries now = filter (\<lambda>(k, e). now < last_attempt e + FORGET_AFTER) entries"

section \<open>Any sequence of operations\<close>

datatype throttle_event =
    Admit "throttle_key \<Rightarrow> nat" throttle_key time
  | Settle throttle_key outcome
  | Sweep time

fun throttle_step :: "throttle \<Rightarrow> throttle_event \<Rightarrow> throttle" where
  "throttle_step t (Admit tie k now) = snd (admit tie t k now)"
| "throttle_step t (Settle k out) = settle t k out"
| "throttle_step t (Sweep now) = throttle_sweep t now"

definition throttle_run :: "throttle \<Rightarrow> throttle_event list \<Rightarrow> throttle" where
  "throttle_run = foldl throttle_step"

text \<open>The clock never runs backwards.\<close>

fun clock_ok :: "time \<Rightarrow> throttle_event list \<Rightarrow> bool" where
  "clock_ok t [] = True"
| "clock_ok t (Admit tie k now # es) = (t \<le> now \<and> clock_ok now es)"
| "clock_ok t (Settle k out # es) = clock_ok t es"
| "clock_ok t (Sweep now # es) = (t \<le> now \<and> clock_ok now es)"

text \<open>When the attempts of one identifier were admitted, oldest first.\<close>

fun admissions :: "throttle_key \<Rightarrow> throttle \<Rightarrow> throttle_event list \<Rightarrow> time list" where
  "admissions key t [] = []"
| "admissions key t (ev # es) =
     (case ev of
        Admit tie k now \<Rightarrow> (if k = key \<and> fst (admit tie t k now) = Admitted then [now] else [])
      | _ \<Rightarrow> []) @ admissions key (throttle_step t ev) es"

text \<open>Nothing reset the identifier's count: no attempt of it succeeded or was given back, and it was
  not evicted.\<close>

fun uncleared :: "throttle_key \<Rightarrow> throttle \<Rightarrow> throttle_event list \<Rightarrow> bool" where
  "uncleared key t [] = True"
| "uncleared key t (ev # es) =
     ((case ev of
         Admit tie k now \<Rightarrow> map_of t key = None \<or> map_of (throttle_step t ev) key \<noteq> None
       | Settle k out \<Rightarrow> k \<noteq> key \<or> out = Failed
       | Sweep now \<Rightarrow> True) \<and> uncleared key (throttle_step t ev) es)"

section \<open>Lemmas\<close>

lemma delete_all_lookup:
  "map_of (foldl (\<lambda>t (k, e). AList.delete k t) t xs) k = (if k \<in> fst ` set xs then None else map_of t k)"
  by (induction xs arbitrary: t) (auto simp: split_def)

lemma delete_all_distinct:
  "distinct (map fst t) \<Longrightarrow> distinct (map fst (foldl (\<lambda>t (k, e). AList.delete k t) t xs))"
  by (induction xs arbitrary: t) (auto simp: split_def simp del: distinct_map)

lemma ranked_set [simp]: "set (ranked tie t) = set t" "mset (ranked tie t) = mset t"
  by (simp_all add: ranked_def)

lemma evict_lookup: "map_of (evict tie t) k = None \<or> map_of (evict tie t) k = map_of t k"
  by (simp add: evict_def Let_def delete_all_lookup)

lemma evict_distinct: "distinct (map fst t) \<Longrightarrow> distinct (map fst (evict tie t))"
  unfolding evict_def Let_def by (rule delete_all_distinct)

lemma admit_distinct: "distinct (map fst t) \<Longrightarrow> distinct (map fst (snd (admit tie t k now)))"
  by (simp add: admit_def evict_distinct split: option.splits del: distinct_map)

lemma settle_distinct: "distinct (map fst t) \<Longrightarrow> distinct (map fst (settle t k out))"
  by (simp add: settle_def Let_def split: option.splits outcome.splits del: distinct_map)

lemma throttle_step_distinct [wf_intros]:
  "distinct (map fst t) \<Longrightarrow> distinct (map fst (throttle_step t ev))"
  by (cases ev) (simp_all add: admit_distinct settle_distinct throttle_sweep_def del: distinct_map)

lemma admit_other:
  assumes "k \<noteq> key"
  shows "map_of (snd (admit tie t k now)) key = None \<or> map_of (snd (admit tie t k now)) key = map_of t key"
  using assms evict_lookup [of tie t key] by (auto simp: admit_def split: option.splits)

lemma throttle_sweep_lookup:
  "distinct (map fst t) \<Longrightarrow>
   map_of (throttle_sweep t now) k = opt_filter (\<lambda>e. now < last_attempt e + FORGET_AFTER) (map_of t k)"
  unfolding throttle_sweep_def by (rule map_of_filter_value)

text \<open>The admitted attempts of an identifier, newest first: \<open>counted rs n\<close> says that the last \<open>n\<close> are
  those since the count last started from zero, an hour after the one before.\<close>

definition counted :: "time list \<Rightarrow> nat \<Rightarrow> bool" where
  "counted rs n \<longleftrightarrow> 0 < n \<and> n \<le> length rs \<and> (n < length rs \<longrightarrow> rs ! n + FORGET_AFTER \<le> rs ! (n - 1))"

definition tracked :: "throttle_key \<Rightarrow> throttle \<Rightarrow> time list \<Rightarrow> time \<Rightarrow> bool" where
  "tracked key t rs now \<longleftrightarrow> distinct (map fst t) \<and> sorted_wrt (\<ge>) rs \<and> (\<forall>x \<in> set rs. x \<le> now) \<and>
     (case map_of t key of
        None \<Rightarrow> rs = [] \<or> hd rs + FORGET_AFTER \<le> now
      | Some e \<Rightarrow> rs \<noteq> [] \<and> last_attempt e = hd rs \<and> counted rs (unat (attempts e)))"

definition spaced :: "nat \<Rightarrow> duration \<Rightarrow> time list \<Rightarrow> bool" where
  "spaced k d rs \<longleftrightarrow> (\<forall>i. i + k < length rs \<longrightarrow> rs ! (i + k) + d \<le> rs ! i)"

lemma counted_Suc: "counted rs n \<Longrightarrow> counted (now # rs) (Suc n)"
  by (cases n) (auto simp: counted_def)

lemma counted_1: "rs = [] \<or> hd rs + FORGET_AFTER \<le> now \<Longrightarrow> counted (now # rs) 1"
  by (cases rs) (auto simp: counted_def)

lemma sorted_hd: "sorted_wrt (\<ge>) rs \<Longrightarrow> i < length rs \<Longrightarrow> rs ! i \<le> (hd rs :: time)"
  by (cases rs; cases i) auto

lemma spaced_Cons:
  assumes "0 < k" "spaced k d rs" "k - 1 < length rs \<longrightarrow> rs ! (k - 1) + d \<le> now"
  shows "spaced k d (now # rs)"
  unfolding spaced_def
proof (intro allI impI)
  fix i assume i: "i + k < length (now # rs)"
  show "(now # rs) ! (i + k) + d \<le> (now # rs) ! i"
    using assms i by (cases i) (auto simp: spaced_def nth_Cons')
qed

text \<open>An attempt admitted while \<open>k\<close> or more are counted waited for the delay after \<open>k\<close>; while fewer
  are, an hour passed since the attempt before those.\<close>

lemma waited:
  assumes "sorted_wrt (\<ge>) rs" "counted rs n" "hd rs \<le> now" "k < length rs" "d \<le> FORGET_AFTER"
    and "Suc k \<le> n \<Longrightarrow> hd rs + d \<le> now"
  shows "rs ! k + d \<le> now"
proof (cases "Suc k \<le> n")
  case True
  with assms sorted_hd [OF assms(1,4)] show ?thesis by simp
next
  case False
  then have "n \<le> k" by simp
  with assms have step: "rs ! n + FORGET_AFTER \<le> rs ! (n - 1)" by (simp add: counted_def)
  have "rs ! k \<le> rs ! n"
    using assms(1,4) \<open>n \<le> k\<close> by (cases "n = k") (auto simp: sorted_wrt_iff_nth_less)
  moreover have "rs ! (n - 1) \<le> hd rs"
    using assms(4) \<open>n \<le> k\<close> by (intro sorted_hd [OF assms(1)]) simp
  ultimately show ?thesis using step assms(3,5) by simp
qed

lemma trackedD:
  assumes "tracked key t rs now"
  shows "distinct (map fst t)" "sorted_wrt (\<ge>) rs" "\<forall>x \<in> set rs. x \<le> now" "rs \<noteq> [] \<Longrightarrow> hd rs \<le> now"
    "map_of t key = None \<Longrightarrow> rs = [] \<or> hd rs + FORGET_AFTER \<le> now"
    "map_of t key = Some e \<Longrightarrow> rs \<noteq> [] \<and> last_attempt e = hd rs \<and> counted rs (unat (attempts e))"
  using assms by (auto simp: tracked_def)

lemma tracked_later: "tracked key t rs now \<Longrightarrow> now \<le> later \<Longrightarrow> tracked key t rs later"
  unfolding tracked_def by (cases "map_of t key") force+

text \<open>An operation that leaves the entry of the identifier alone.\<close>

lemma tracked_same:
  assumes "tracked key t rs now" "distinct (map fst t')" "map_of t' key = map_of t key"
  shows "tracked key t' rs now"
  using assms by (simp add: tracked_def)

lemma attempts_Suc:
  assumes "counted rs (unat n)" "length rs + 1 < 2 ^ 32"
  shows "unat (n + 1 :: 32 word) = Suc (unat n)"
proof -
  have "unat n + 1 < 2 ^ 32" using assms by (simp add: counted_def)
  then show ?thesis by (simp add: unat_word_ariths)
qed

lemma delay_after_long: "10 \<le> unat n \<Longrightarrow> delay_after n = LONG_DELAY"
  by (simp add: delay_after_def FREE_ATTEMPTS_def SHORT_DELAY_ATTEMPTS_def word_less_nat_alt)

lemma delay_after_short: "5 \<le> unat n \<Longrightarrow> SHORT_DELAY \<le> delay_after n"
  by (simp add: delay_after_def FREE_ATTEMPTS_def SHORT_DELAY_ATTEMPTS_def word_less_nat_alt
      SHORT_DELAY_def LONG_DELAY_def)

lemma tracked_admit:
  assumes tr: "tracked key t rs now" and few: "length rs + 1 < 2 ^ 32"
    and adm: "admit tie t key now = (Admitted, t')"
  shows "tracked key t' (now # rs) now \<and>
    (4 < length rs \<longrightarrow> rs ! 4 + SHORT_DELAY \<le> now) \<and> (9 < length rs \<longrightarrow> rs ! 9 + LONG_DELAY \<le> now)"
proof (cases "opt_filter (\<lambda>e. now < last_attempt e + FORGET_AFTER) (map_of t key)")
  case None
  then have gap: "rs = [] \<or> hd rs + FORGET_AFTER \<le> now"
    using trackedD(5,6) [OF tr] by (cases "map_of t key") (auto split: if_splits)
  have t': "map_of t' key = Some \<lparr>attempts = 1, last_attempt = now\<rparr>"
    using adm None by (auto simp: admit_def)
  have "i < length rs \<Longrightarrow> rs ! i + FORGET_AFTER \<le> now" for i
    using gap sorted_hd [OF trackedD(2) [OF tr], of i] by fastforce
  moreover have "SHORT_DELAY \<le> FORGET_AFTER" "LONG_DELAY \<le> FORGET_AFTER"
    by (simp_all add: SHORT_DELAY_def LONG_DELAY_def FORGET_AFTER_def)
  ultimately have "4 < length rs \<longrightarrow> rs ! 4 + SHORT_DELAY \<le> now" "9 < length rs \<longrightarrow> rs ! 9 + LONG_DELAY \<le> now"
    by (smt (verit))+
  moreover have "distinct (map fst t')"
    using admit_distinct [OF trackedD(1) [OF tr], of tie key now] adm by (simp del: distinct_map)
  ultimately show ?thesis
    using trackedD(2,3) [OF tr] t' counted_1 [OF gap] by (simp add: tracked_def del: distinct_map)
next
  case (Some e)
  then have e: "map_of t key = Some e" "wait_until e \<le> now"
    using adm by (auto simp: admit_def split: if_splits)
  then have rs: "rs \<noteq> []" "last_attempt e = hd rs" and c: "counted rs (unat (attempts e))"
    using trackedD(6) [OF tr] by auto
  have t': "map_of t' key = Some \<lparr>attempts = attempts e + 1, last_attempt = now\<rparr>"
    using adm Some e by (auto simp: admit_def)
  have "hd rs + delay_after (attempts e) \<le> now" using e rs by (simp add: wait_until_def)
  then have "5 \<le> unat (attempts e) \<Longrightarrow> hd rs + SHORT_DELAY \<le> now"
    "10 \<le> unat (attempts e) \<Longrightarrow> hd rs + LONG_DELAY \<le> now"
    using delay_after_short [of "attempts e"] delay_after_long [of "attempts e"] by linarith+
  then have "4 < length rs \<longrightarrow> rs ! 4 + SHORT_DELAY \<le> now" "9 < length rs \<longrightarrow> rs ! 9 + LONG_DELAY \<le> now"
    using waited [OF trackedD(2) [OF tr] c trackedD(4) [OF tr rs(1)]]
    by (auto simp: SHORT_DELAY_def LONG_DELAY_def FORGET_AFTER_def)
  moreover have "distinct (map fst t')"
    using admit_distinct [OF trackedD(1) [OF tr], of tie key now] adm by (simp del: distinct_map)
  ultimately show ?thesis
    using trackedD(2,3) [OF tr] t' counted_Suc [OF c, of now] attempts_Suc [OF c few]
    by (simp add: tracked_def del: distinct_map)
qed

fun event_time :: "time \<Rightarrow> throttle_event \<Rightarrow> time" where
  "event_time c (Admit tie k now) = now"
| "event_time c (Settle k out) = c"
| "event_time c (Sweep now) = now"

lemma tracked_sweep:
  assumes "tracked key t rs now" shows "tracked key (throttle_sweep t now) rs now"
proof -
  have d: "distinct (map fst (throttle_sweep t now))"
    using trackedD(1) [OF assms] by (simp add: throttle_sweep_def del: distinct_map)
  have l: "map_of (throttle_sweep t now) key =
      opt_filter (\<lambda>e. now < last_attempt e + FORGET_AFTER) (map_of t key)"
    by (rule throttle_sweep_lookup [OF trackedD(1) [OF assms]])
  show ?thesis
  proof (cases "map_of t key")
    case None
    with l show ?thesis by (intro tracked_same [OF assms d]) simp
  next
    case (Some e)
    with assms d l trackedD(6) [OF assms Some] show ?thesis
      by (cases "now < last_attempt e + FORGET_AFTER") (auto simp: tracked_def)
  qed
qed

text \<open>What the admission of an event adds to the identifier's attempts.\<close>

definition newly :: "throttle_key \<Rightarrow> throttle \<Rightarrow> throttle_event \<Rightarrow> time list" where
  "newly key t ev = (case ev of
     Admit tie k now \<Rightarrow> (if k = key \<and> fst (admit tie t k now) = Admitted then [now] else [])
   | _ \<Rightarrow> [])"

lemma admissions_Cons: "admissions key t (ev # es) = newly key t ev @ admissions key (throttle_step t ev) es"
  by (simp add: newly_def)

lemma newly_length: "length (newly key t ev) \<le> 1"
  by (simp add: newly_def split: throttle_event.splits)

lemma tracked_step:
  assumes tr: "tracked key t rs c" and few: "length rs + 1 < 2 ^ 32"
    and "c \<le> event_time c ev" "uncleared key t [ev]"
    and sp: "spaced 5 SHORT_DELAY rs" "spaced 10 LONG_DELAY rs"
  shows "tracked key (throttle_step t ev) (newly key t ev @ rs) (event_time c ev) \<and>
    spaced 5 SHORT_DELAY (newly key t ev @ rs) \<and> spaced 10 LONG_DELAY (newly key t ev @ rs)"
proof (cases ev)
  case (Admit tie k now)
  have tr': "tracked key t rs now" using tracked_later [OF tr] assms(3) Admit by simp
  show ?thesis
  proof (cases "k = key")
    case True
    show ?thesis
    proof (cases "admit tie t key now")
      case (Pair a t')
      show ?thesis
      proof (cases a)
        case Admitted
        note adm = tracked_admit [OF tr' few, of tie t']
        have "spaced 5 SHORT_DELAY (now # rs)" "spaced 10 LONG_DELAY (now # rs)"
          using adm sp Pair Admitted by (simp_all add: spaced_Cons)
        with adm Pair Admitted True Admit show ?thesis by (simp add: newly_def)
      next
        case (Wait w)
        then have "t' = t" using Pair by (auto simp: admit_def split: option.splits if_splits)
        with Pair Wait True Admit tr' sp show ?thesis by (simp add: newly_def)
      qed
    qed
  next
    case False
    have "map_of (snd (admit tie t k now)) key = map_of t key"
      using admit_other [OF False, of tie t now] assms(4) Admit by auto
    then have "tracked key (snd (admit tie t k now)) rs now"
      by (rule tracked_same [OF tr' admit_distinct [OF trackedD(1) [OF tr]]])
    with False Admit sp show ?thesis by (simp add: newly_def)
  qed
next
  case (Settle k out)
  have "map_of (settle t k out) key = map_of t key"
    using assms(4) Settle by (auto simp: settle_def Let_def split: option.splits outcome.splits)
  then have "tracked key (settle t k out) rs c"
    by (rule tracked_same [OF tr settle_distinct [OF trackedD(1) [OF tr]]])
  with Settle sp show ?thesis by (simp add: newly_def)
next
  case (Sweep now)
  then have "tracked key t rs now" using tracked_later [OF tr] assms(3) by simp
  with Sweep sp show ?thesis by (simp add: newly_def tracked_sweep)
qed

lemma clock_ok_Cons: "clock_ok c (ev # es) \<longleftrightarrow> c \<le> event_time c ev \<and> clock_ok (event_time c ev) es"
  by (cases ev) auto

lemma admissions_spaced:
  assumes "tracked key t rs c" "spaced 5 SHORT_DELAY rs" "spaced 10 LONG_DELAY rs"
    and "clock_ok c es" "uncleared key t es" "length rs + length es < 2 ^ 32"
  shows "spaced 5 SHORT_DELAY (rev (admissions key t es) @ rs) \<and> spaced 10 LONG_DELAY (rev (admissions key t es) @ rs)"
  using assms
proof (induction es arbitrary: t rs c)
  case Nil
  then show ?case by simp
next
  case (Cons ev es)
  from Cons.prems have "c \<le> event_time c ev" "uncleared key t [ev]" "length rs + 1 < 2 ^ 32"
    by (simp_all add: clock_ok_Cons)
  note step = tracked_step [OF Cons.prems(1) this(3,1,2) Cons.prems(2,3)]
  have "length (newly key t ev @ rs) + length es < 2 ^ 32"
    using newly_length [of key t ev] Cons.prems(6) by simp
  then have "spaced 5 SHORT_DELAY (rev (admissions key (throttle_step t ev) es) @ newly key t ev @ rs) \<and>
    spaced 10 LONG_DELAY (rev (admissions key (throttle_step t ev) es) @ newly key t ev @ rs)"
    using step Cons.prems(4,5) by (intro Cons.IH) (auto simp: clock_ok_Cons)
  moreover have "rev (newly key t ev) = newly key t ev"
    by (simp add: newly_def split: throttle_event.splits)
  ultimately show ?case by (simp only: admissions_Cons rev_append append_assoc)
qed

lemma spaced_rev:
  assumes "spaced k d (rev ts)" "i + k < length ts"
  shows "ts ! i + d \<le> ts ! (i + k)"
proof -
  let ?j = "length ts - Suc (i + k)"
  have "rev ts ! (?j + k) + d \<le> rev ts ! ?j"
    using assms(1) [unfolded spaced_def, THEN spec, of ?j] assms(2) by simp
  moreover have "rev ts ! (?j + k) = ts ! i" "rev ts ! ?j = ts ! (i + k)"
    using assms(2) by (simp_all add: rev_nth)
  ultimately show ?thesis by simp
qed

text \<open>Guessing is slowed down however many clients guess. As long as no attempt for an identifier
  succeeds or is given back and it is not evicted, of the attempts admitted for it the sixth comes
  at least thirty seconds after the first, and the eleventh at least five minutes after the first,
  counted from any of them; it does not matter what other identifiers do meanwhile, nor how often
  the table is swept. (Before 2 to the 32 attempts, where the counter wraps.)\<close>

theorem throttle_spaces_attempts:
  assumes "clock_ok start es" "uncleared key [] es" "length es < 2 ^ 32"
    and "ts = admissions key [] es"
  shows "(\<forall>i. i + 5 < length ts \<longrightarrow> ts ! i + SHORT_DELAY \<le> ts ! (i + 5)) \<and>
    (\<forall>i. i + 10 < length ts \<longrightarrow> ts ! i + LONG_DELAY \<le> ts ! (i + 10))"
proof -
  have "tracked key [] [] start" by (simp add: tracked_def)
  then have "spaced 5 SHORT_DELAY (rev ts) \<and> spaced 10 LONG_DELAY (rev ts)"
    using admissions_spaced [of key "[]" "[]" start es] assms by (simp add: spaced_def)
  then show ?thesis by (simp add: spaced_rev)
qed

definition demo_attempts :: "throttle_event list" where
  "demo_attempts = concat (map (\<lambda>t. [Admit (\<lambda>k. 0) [7] t, Settle [7] Failed, Admit (\<lambda>k. 0) [8] t])
     [0, 0, 0, 0, 0, 1, seconds 30]) @ [Sweep (seconds 31)]"

lemmas throttle_simps = admit_def settle_def throttle_sweep_def delay_after_def wait_until_def
  FREE_ATTEMPTS_def SHORT_DELAY_ATTEMPTS_def SHORT_DELAY_def LONG_DELAY_def FORGET_AFTER_def MAX_TRACKED_def

lemma demo_admissions: "admissions [7] [] demo_attempts = [0, 0, 0, 0, 0, seconds 30]"
  by (simp add: demo_attempts_def throttle_simps seconds_def)

theorem throttle_spaces_attempts_witness:
  "admissions [7] [] demo_attempts ! 0 + SHORT_DELAY \<le> admissions [7] [] demo_attempts ! 5"
proof -
  have "clock_ok 0 demo_attempts" "uncleared [7] [] demo_attempts" "length demo_attempts < 2 ^ 32"
    by (simp_all add: demo_attempts_def throttle_simps seconds_def)
  note throttle_spaces_attempts [OF this refl, THEN conjunct1, THEN spec, of 0]
  then show ?thesis by (simp only: demo_admissions list.size) simp
qed

section \<open>The size of the table\<close>

lemma delete_all_length: "length (foldl (\<lambda>t (k, e). AList.delete k t) t xs) \<le> length t"
proof (induction xs arbitrary: t)
  case Nil
  show ?case by simp
next
  case (Cons x xs)
  have "length (AList.delete (fst x) t) \<le> length t" by (simp add: AList.length_delete_le)
  with Cons [of "AList.delete (fst x) t"] show ?case by (simp add: split_def)
qed

lemma evict_length: "MAX_TRACKED \<le> length t \<Longrightarrow> length (evict tie t) < length t"
proof -
  assume full: "MAX_TRACKED \<le> length t"
  let ?batch = "min (max (MAX_TRACKED div 10) 1) (length t)"
  have "length (ranked tie t) = length t" by (metis ranked_set(2) size_mset)
  then have "0 < ?batch" "ranked tie t \<noteq> []" using full by (auto simp: MAX_TRACKED_def)
  then obtain x xs where x: "take ?batch (ranked tie t) = x # xs" "x \<in> set t"
    by (metis list.exhaust list.set_intros(1) neq_Nil_conv ranked_set(1) take_eq_Nil in_set_takeD
        less_not_refl2)
  have "length (AList.delete (fst x) t) < length t"
    using x(2) by (induction t) (auto simp: AList.delete_eq le_imp_less_Suc)
  then show ?thesis
    using x(1) delete_all_length [of "AList.delete (fst x) t" xs] unfolding evict_def Let_def
    by (simp add: split_def)
qed

lemma update_length_le: "length (AList.update k v t) \<le> Suc (length t)"
  by (simp add: length_update)

lemma throttle_step_length:
  assumes "length t \<le> MAX_TRACKED" shows "length (throttle_step t ev) \<le> MAX_TRACKED"
proof (cases ev)
  case (Admit tie k now)
  have "MAX_TRACKED = length t \<Longrightarrow> length (AList.update k v (evict tie t)) \<le> MAX_TRACKED"
    "MAX_TRACKED \<noteq> length t \<Longrightarrow> length (AList.update k v t) \<le> MAX_TRACKED" for v
    using assms evict_length [of t tie] update_length_le [of k v "evict tie t"] update_length_le [of k v t]
    by linarith+
  moreover have "map_of t k = Some e \<Longrightarrow> length (AList.update k v t) = length t" for e v
    using map_of_SomeD [of t k e] by (force simp: length_update)
  ultimately show ?thesis using Admit assms by (simp add: admit_def split: option.splits)
next
  case (Settle k out)
  have "length (AList.delete k t) \<le> MAX_TRACKED" using assms AList.length_delete_le [of k t] by linarith
  moreover have "map_of t k = Some e \<Longrightarrow> length (AList.update k v t) = length t" for e v
    using map_of_SomeD [of t k e] by (force simp: length_update)
  ultimately show ?thesis
    using Settle assms by (auto simp: settle_def Let_def split: option.splits outcome.splits)
next
  case (Sweep now)
  have "length (throttle_sweep t now) \<le> length t"
    unfolding throttle_sweep_def by (rule length_filter_le)
  with Sweep assms show ?thesis by simp
qed

lemma throttle_run_wf:
  assumes "length t \<le> MAX_TRACKED" "distinct (map fst t)"
  shows "length (throttle_run t es) \<le> MAX_TRACKED \<and> distinct (map fst (throttle_run t es))"
  using assms
  by (induction es arbitrary: t) (simp_all add: throttle_run_def throttle_step_length throttle_step_distinct del: distinct_map)

text \<open>In a list sorted so that \<open>p\<close> comes last, whatever satisfies \<open>p\<close> comes after all that does not.\<close>

lemma sorted_bool_position:
  assumes "sorted (map p ys)" "i < length ys" "p (ys ! i)"
  shows "length (filter (\<lambda>y. \<not> p y) ys) \<le> i"
proof -
  have "p y" if "y \<in> set (drop i ys)" for y
  proof -
    from that obtain j where j: "i + j < length ys" "y = ys ! (i + j)"
      by (metis in_set_conv_nth length_drop less_diff_conv add.commute nth_drop order.strict_implies_order assms(2))
    then have "map p ys ! i \<le> map p ys ! (i + j)"
      by (intro sorted_nth_mono [OF assms(1)]) simp_all
    with j assms show ?thesis by simp
  qed
  then have "filter (\<lambda>y. \<not> p y) (drop i ys) = []" by (simp add: filter_empty_conv)
  then have "filter (\<lambda>y. \<not> p y) ys = filter (\<lambda>y. \<not> p y) (take i ys)"
    by (metis append_Nil2 append_take_drop_id filter_append)
  then show ?thesis by (metis length_filter_le length_take min.cobounded2 order_trans)
qed

lemma evicted_delaying:
  assumes "(k, e) \<in> set (take (min (max (MAX_TRACKED div 10) 1) (length t)) (ranked tie t))" "delaying e"
  shows "length (filter (\<lambda>(k, e). \<not> delaying e) t) < MAX_TRACKED div 10"
proof -
  let ?p = "\<lambda>(k, e). delaying e"
  let ?ys = "ranked tie t"
  from assms(1) obtain i where i: "i < MAX_TRACKED div 10" "i < length ?ys" "?ys ! i = (k, e)"
    by (auto simp: in_set_conv_nth MAX_TRACKED_def)
  have "sorted (map ?p ?ys)" by (simp add: ranked_def)
  then have "length (filter (\<lambda>y. \<not> ?p y) ?ys) \<le> i"
    using sorted_bool_position [of ?p ?ys i] i assms(2) by simp
  moreover have "mset (filter (\<lambda>y. \<not> ?p y) ?ys) = mset (filter (\<lambda>y. \<not> ?p y) t)" by simp
  then have "length (filter (\<lambda>y. \<not> ?p y) ?ys) = length (filter (\<lambda>y. \<not> ?p y) t)"
    by (metis size_mset)
  ultimately show ?thesis using i(1) by (simp add: split_def)
qed



end
