(* ===== verification/LoginState.thy ===== *)
theory LoginState
  imports JsonRead Throttle RateLimit Cookie
begin

text \<open>
  login's shared state and its clients: the settings and \<open>AppState\<close> (\<open>login/src/lib.rs\<close>,
  \<open>config.rs\<close>), errors of upstreams (\<open>upstream.rs\<close>), the pages login renders itself
  (\<open>render.rs\<close>, \<open>pages.rs\<close>), and its calls to Kratos (\<open>kratos.rs\<close>) and Hydra's admin API
  (\<open>hydra.rs\<close>). Tera's rendering of a template and the crates' URL operations are fields of
  \<open>login_libs\<close>; the nonce of a page (\<open>Uuid::new_v4\<close>) is an argument.
\<close>

text \<open>
  \<^item> \<open>lower_first\<close>: a text with each character replaced by the first of its lower case;
  \<^item> \<open>form_parse\<close>: \<open>form_urlencoded::parse\<close>; \<open>join_url\<close>: \<open>Url::join\<close>, also \<open>Url::options\<close> with a base;
    \<open>set_query\<close>, \<open>append_pairs\<close>: the operations on a URL's query; \<open>url_text\<close>, \<open>ip_text\<close>: how a URL
    and an address print;
  \<^item> \<open>tera_render\<close>: a template rendered with a context, if that works.
\<close>

record login_libs =
  lower_first :: "string \<Rightarrow> string"
  form_parse :: "string \<Rightarrow> (string \<times> string) list"
  join_url :: "url \<Rightarrow> string \<Rightarrow> url option"
  set_query :: "url \<Rightarrow> string option \<Rightarrow> url"
  append_pairs :: "url \<Rightarrow> (string \<times> string) list \<Rightarrow> url"
  url_text :: "url \<Rightarrow> string"
  ip_text :: "ip_addr \<Rightarrow> string"
  tera_render :: "string \<Rightarrow> (string \<times> json) list \<Rightarrow> string option"

section \<open>Errors of upstreams\<close>

datatype login_upstream_error =
    RequestFailed string string string
  | BadStatus string string nat
  | BadAnswer string string string

definition loggable :: "login_libs \<Rightarrow> url \<Rightarrow> string" where
  "loggable M u = url_text M (set_query M u None)"

definition upstream_request :: "login_libs \<Rightarrow> string \<Rightarrow> url \<Rightarrow> string \<Rightarrow> login_upstream_error" where
  "upstream_request M service u cause = RequestFailed service (loggable M u) cause"

definition upstream_status :: "login_libs \<Rightarrow> string \<Rightarrow> url \<Rightarrow> nat \<Rightarrow> login_upstream_error" where
  "upstream_status M service u status = BadStatus service (loggable M u) status"

definition upstream_unreadable :: "login_libs \<Rightarrow> string \<Rightarrow> url \<Rightarrow> string \<Rightarrow> login_upstream_error" where
  "upstream_unreadable M service u cause = BadAnswer service (loggable M u) cause"

section \<open>The state\<close>

record login_config =
  lg_port :: "16 word"
  lg_bff_url :: string
  lg_own_origin :: string
  lg_default_redirect_uri :: "string option"
  lg_default_locale :: string
  lg_kratos_public_url :: string
  lg_hydra_admin_url :: string
  lg_bff_client_id :: string
  lg_kratos_session_cookie :: string
  lg_rate_limit_max_attempts :: "32 word"
  lg_rate_limit_proxy_max_attempts :: "32 word"
  lg_trusted_proxies :: "ip_net list"

text \<open>Of \<open>Kratos\<close> and \<open>Hydra\<close> the base URL is state; the HTTP client is the upstream's answer.\<close>

record login_state =
  ls_config :: login_config
  ls_own_origin :: url
  ls_kratos :: url
  ls_hydra :: url
  ls_throttle :: throttle

definition api_base :: "libs \<Rightarrow> string \<Rightarrow> url option" where
  "api_base L base = parse_url L (trim_end_matches (\<lambda>c. c = CHR ''/'') base @ ''/'')"

definition new_login_state :: "libs \<Rightarrow> login_config \<Rightarrow> login_state option" where
  "new_login_state L c =
     Option.bind (api_base L (lg_kratos_public_url c)) (\<lambda>kratos.
     Option.bind (case (build_governor (unat (lg_rate_limit_max_attempts c)) 60,
                        build_governor (unat (lg_rate_limit_proxy_max_attempts c)) 60) of
                    (Inr submit, Inr general) \<Rightarrow> Some (submit, general) | _ \<Rightarrow> None) (\<lambda>limits.
     Option.bind (parse_url L (lg_own_origin c)) (\<lambda>own.
     Option.bind (api_base L (lg_hydra_admin_url c)) (\<lambda>hydra.
       Some \<lparr>ls_config = c, ls_own_origin = own, ls_kratos = kratos, ls_hydra = hydra, ls_throttle = []\<rparr>))))"

section \<open>Pages\<close>

record body_response = response +
  rsp_body :: string

definition status_only :: "nat \<Rightarrow> body_response" where
  "status_only status = \<lparr>rsp_status = status, rsp_headers = [], rsp_body = []\<rparr>"

definition text_response :: "nat \<Rightarrow> string \<Rightarrow> body_response" where
  "text_response status text =
     \<lparr>rsp_status = status, rsp_headers = [(''content-type'', ''text/plain; charset=utf-8'')], rsp_body = text\<rparr>"

text \<open>axum's \<open>Redirect::to\<close>; a location no header can carry is a 500.\<close>

definition redirect_to_page :: "libs \<Rightarrow> string \<Rightarrow> body_response" where
  "redirect_to_page L location =
     (if header_value L location
      then \<lparr>rsp_status = 303, rsp_headers = [(''location'', location)], rsp_body = []\<rparr>
      else text_response 500 ''failed to parse header value'')"

definition page_headers :: "libs \<Rightarrow> string \<Rightarrow> headers" where
  "page_headers L nonce =
     (let q = [CHR 0x27];
          csp = ''default-src 'none'; script-src 'nonce-'' @ nonce @ q @
            ''; style-src 'self'; img-src 'self' data:; font-src 'self'; connect-src 'self'; base-uri 'none'; frame-ancestors 'none'' @ q
      in [(''content-security-policy'', if header_value L csp then csp else ''default-src 'none'' @ q),
          (''cache-control'', ''no-store''), (''x-content-type-options'', ''nosniff''),
          (''referrer-policy'', ''strict-origin'')])"

text \<open>A context is the list of what was inserted; a later insertion of a name wins.\<close>

definition ctx_insert :: "(string \<times> json) list \<Rightarrow> string \<Rightarrow> json \<Rightarrow> (string \<times> json) list" where
  "ctx_insert ctx name v = AList.update name v ctx"

definition page :: "libs \<Rightarrow> login_libs \<Rightarrow> string \<Rightarrow> nat \<Rightarrow> string \<Rightarrow> (string \<times> json) list \<Rightarrow> body_response" where
  "page L M nonce status template ctx =
     (let negotiated = map_of ctx ''lang'' \<noteq> None;
          ctx1 = (if negotiated then ctx else ctx_insert ctx ''lang'' (JStr ''en''));
          ctx2 = ctx_insert ctx1 ''nonce'' (JStr nonce)
      in (case tera_render M template ctx2 of
            None \<Rightarrow> status_only 500
          | Some html \<Rightarrow> \<lparr>rsp_status = status,
              rsp_headers = (''content-type'', ''text/html; charset=utf-8'') # page_headers L nonce @
                (if negotiated then [(''vary'', ''Accept-Language, Cookie'')] else []),
              rsp_body = html\<rparr>))"

definition error_page :: "libs \<Rightarrow> login_libs \<Rightarrow> string \<Rightarrow> nat \<Rightarrow> string \<Rightarrow> body_response" where
  "error_page L M nonce status message =
     page L M nonce status ''error.html'' [(''error'', JObj [(''message'', JStr message)])]"

text \<open>The seconds to wait, rounded up.\<close>

definition wait_secs :: "duration \<Rightarrow> nat" where
  "wait_secs w = nat (w div 1000000000) + (if 0 < w mod 1000000000 then 1 else 0)"

definition throttled_page :: "libs \<Rightarrow> login_libs \<Rightarrow> string \<Rightarrow> duration \<Rightarrow> body_response" where
  "throttled_page L M nonce w =
     (let secs = wait_secs w;
          r = error_page L M nonce 429
                (''Too many sign-in attempts. Try again in '' @ nat_str secs @ '' seconds.'')
      in if header_value L (nat_str secs)
         then r\<lparr>rsp_headers := header_insert (rsp_headers r) ''retry-after'' (nat_str secs)\<rparr> else r)"

text \<open>The browser's cookies as one header value.\<close>

definition one_cookie_header :: "libs \<Rightarrow> headers \<Rightarrow> string option" where
  "one_cookie_header L h =
     (let cookies = List.map_filter (header_str L) (header_get_all h ''cookie'')
      in if cookies = [] then None
         else opt_filter (header_value L) (Some (join_with ''; '' cookies)))"

section \<open>Kratos\<close>

abbreviation KRATOS :: string where "KRATOS \<equiv> ''kratos''"

definition kratos_url :: "login_libs \<Rightarrow> url \<Rightarrow> string \<Rightarrow> string option \<Rightarrow> url option" where
  "kratos_url M base path query =
     map_option (\<lambda>u. set_query M u query) (join_url M base (dropWhile (\<lambda>c. c = CHR ''/'') path))"

definition kratos_endpoint ::
    "login_libs \<Rightarrow> url \<Rightarrow> string \<Rightarrow> (string \<times> string) list \<Rightarrow> login_upstream_error + url" where
  "kratos_endpoint M base path query = (case join_url M base path of
     None \<Rightarrow> Err (upstream_unreadable M KRATOS base ''not a relative URL'')
   | Some u \<Rightarrow> Ok (if query = [] then u else append_pairs M u query))"

text \<open>A \<open>GET\<close> with the browser's cookies: the status and the body.\<close>

definition kratos_get_request :: "headers \<Rightarrow> url \<Rightarrow> string option \<Rightarrow> http_request" where
  "kratos_get_request accept u cookie = \<lparr>hq_method = ''GET'', hq_url = u,
     hq_headers = accept @ (case cookie of None \<Rightarrow> [] | Some c \<Rightarrow> [(''cookie'', c)]), hq_body = []\<rparr>"

definition kratos_get ::
    "login_libs \<Rightarrow> (http_request \<Rightarrow> http_sent) \<Rightarrow> url \<Rightarrow> string option \<Rightarrow> login_upstream_error + (nat \<times> string)" where
  "kratos_get M upstream u cookie =
     (case upstream (kratos_get_request [(''accept'', ''application/json'')] u cookie) of
        Inl cause \<Rightarrow> Err (upstream_request M KRATOS u cause)
      | Inr a \<Rightarrow> (case ha_body a of
          Inl cause \<Rightarrow> Err (upstream_request M KRATOS u cause)
        | Inr body \<Rightarrow> Ok (ha_status a, body)))"

text \<open>The answer to ending the session carries the cookies to clear; \<open>None\<close> when there was none.\<close>

definition de_logout_token :: "json \<Rightarrow> string option" where
  "de_logout_token j = Option.bind (struct_fields [''logout_token''] j) (\<lambda>field. de_string (field ''logout_token''))"

definition end_session_cookies ::
    "login_libs \<Rightarrow> url \<Rightarrow> (http_request \<Rightarrow> http_sent) \<Rightarrow> string option \<Rightarrow> string
      \<Rightarrow> (login_upstream_error + string list option) \<times> http_request list" where
  "end_session_cookies M base upstream cookie token =
     (case kratos_endpoint M base ''self-service/logout'' [(''token'', token)] of
        Inl e \<Rightarrow> (Err e, [])
      | Inr u \<Rightarrow> (let rq = kratos_get_request [] u cookie in
          (case upstream rq of
             Inl cause \<Rightarrow> Err (upstream_request M KRATOS u cause)
           | Inr a \<Rightarrow>
               if \<not> (300 \<le> ha_status a \<and> ha_status a < 400) \<and> \<not> is_success (ha_status a)
               then Err (upstream_status M KRATOS u (ha_status a))
               else Ok (Some (header_get_all (ha_headers a) ''set-cookie'')), [rq])))"

text \<open>The requests sent come with the result, the last of them the one that ends the session.\<close>

definition kratos_end_session ::
    "libs \<Rightarrow> login_libs \<Rightarrow> url \<Rightarrow> (http_request \<Rightarrow> http_sent) \<Rightarrow> string option
      \<Rightarrow> (login_upstream_error + string list option) \<times> http_request list" where
  "kratos_end_session L M base upstream cookie =
     (case kratos_endpoint M base ''self-service/logout/browser'' [] of
        Inl e \<Rightarrow> (Err e, [])
      | Inr u \<Rightarrow> (let rq = kratos_get_request [(''accept'', ''application/json'')] u cookie in
          (case kratos_get M upstream u cookie of
             Inl e \<Rightarrow> (Err e, [rq])
           | Inr (status, body) \<Rightarrow>
               if status = 200
               then (case Option.bind (json_read L body) de_logout_token of
                       None \<Rightarrow> (Err (upstream_unreadable M KRATOS u ''no logout token''), [rq])
                     | Some token \<Rightarrow>
                         (let (res, sent) = end_session_cookies M base upstream cookie token in (res, rq # sent)))
               else if status = 401 then (Ok None, [rq])
               else (Err (upstream_status M KRATOS u status), [rq]))))"

section \<open>Hydra's admin API\<close>

abbreviation HYDRA :: string where "HYDRA \<equiv> ''hydra''"

definition challenge_url :: "login_libs \<Rightarrow> url \<Rightarrow> string \<Rightarrow> string \<Rightarrow> string \<Rightarrow> login_upstream_error + url" where
  "challenge_url M base path key challenge =
     (case join_url M base (''admin/oauth2/auth/requests/'' @ path) of
        None \<Rightarrow> Err (upstream_unreadable M HYDRA base ''not a relative URL'')
      | Some u \<Rightarrow> Ok (append_pairs M u [(key, challenge)]))"

definition hydra_lookup ::
    "libs \<Rightarrow> login_libs \<Rightarrow> url \<Rightarrow> (http_request \<Rightarrow> http_sent) \<Rightarrow> (json \<Rightarrow> 'a option)
      \<Rightarrow> string \<Rightarrow> string \<Rightarrow> string \<Rightarrow> login_upstream_error + 'a option" where
  "hydra_lookup L M base upstream de path key challenge =
     (case challenge_url M base path key challenge of
        Inl e \<Rightarrow> Err e
      | Inr u \<Rightarrow> (case upstream \<lparr>hq_method = ''GET'', hq_url = u, hq_headers = [], hq_body = []\<rparr> of
          Inl cause \<Rightarrow> Err (upstream_request M HYDRA u cause)
        | Inr a \<Rightarrow>
            if ha_status a = 200 then
              (case answer_json L de a of
                 Inl cause \<Rightarrow> Err (upstream_unreadable M HYDRA u cause)
               | Inr v \<Rightarrow> Ok (Some v))
            else if ha_status a \<in> {404, 410} then Ok None
            else Err (upstream_status M HYDRA u (ha_status a))))"

definition de_redirect :: "json \<Rightarrow> string option" where
  "de_redirect j = Option.bind (struct_fields [''redirect_to''] j) (\<lambda>field. de_string (field ''redirect_to''))"

definition put_request :: "libs \<Rightarrow> url \<Rightarrow> json \<Rightarrow> http_request" where
  "put_request L u body = \<lparr>hq_method = ''PUT'', hq_url = u,
     hq_headers = [(''content-type'', ''application/json'')], hq_body = json_write L body\<rparr>"

definition hydra_put ::
    "libs \<Rightarrow> login_libs \<Rightarrow> url \<Rightarrow> (http_request \<Rightarrow> http_sent)
      \<Rightarrow> string \<Rightarrow> string \<Rightarrow> string \<Rightarrow> json \<Rightarrow> (login_upstream_error + string) \<times> http_request list" where
  "hydra_put L M base upstream path key challenge body =
     (case challenge_url M base path key challenge of
        Inl e \<Rightarrow> (Err e, [])
      | Inr u \<Rightarrow> (let rq = put_request L u body in
          (case upstream rq of
             Inl cause \<Rightarrow> Err (upstream_request M HYDRA u cause)
           | Inr a \<Rightarrow>
               if \<not> is_success (ha_status a) then Err (upstream_status M HYDRA u (ha_status a))
               else (case answer_json L de_redirect a of
                  Inl cause \<Rightarrow> Err (upstream_unreadable M HYDRA u cause)
                | Inr location \<Rightarrow> Ok location), [rq])))"

record logout_request =
  rp_initiated :: bool

record consent_request =
  cr_client_id :: string
  requested_scope :: "string list"
  requested_access_token_audience :: "string list"

definition de_logout_request :: "json \<Rightarrow> logout_request option" where
  "de_logout_request j = Option.bind (struct_fields_default 0 [''rp_initiated''] j) (\<lambda>field.
     map_option logout_request.make (de_default False as_bool (field ''rp_initiated'')))"

definition de_consent_client :: "json \<Rightarrow> string option" where
  "de_consent_client j = Option.bind (struct_fields [''client_id''] j) (\<lambda>field. de_string (field ''client_id''))"

definition de_consent_request :: "json \<Rightarrow> consent_request option" where
  "de_consent_request j =
     Option.bind (struct_fields_default 1 [''client'', ''requested_scope'', ''requested_access_token_audience''] j) (\<lambda>field.
     Option.bind (Option.bind (field ''client'') de_consent_client) (\<lambda>c.
     Option.bind (de_default [] as_strings (field ''requested_scope'')) (\<lambda>scope.
     Option.bind (de_default [] as_strings (field ''requested_access_token_audience'')) (\<lambda>aud.
       Some \<lparr>cr_client_id = c, requested_scope = scope, requested_access_token_audience = aud\<rparr>))))"

section \<open>An instance to run examples with\<close>

definition demo_url :: "string \<Rightarrow> url" where
  "demo_url s = \<lparr>url_scheme = ''https'', url_username = '''', url_password = None,
     url_host_of = Some (Domain ''login''), url_path = s, url_query = None, url_fragment = None,
     url_origin = ''https://login''\<rparr>"

definition demo_login_libs :: login_libs where
  "demo_login_libs = \<lparr>lower_first = id, form_parse = (\<lambda>s. [(''identifier'', s)]),
     join_url = (\<lambda>base s. Some (base\<lparr>url_path := s\<rparr>)), set_query = (\<lambda>u q. u\<lparr>url_query := q\<rparr>),
     append_pairs = (\<lambda>u ps. u\<lparr>url_query := Some (join_with ''&'' (map (\<lambda>(k, v). k @ ''='' @ v) ps))\<rparr>),
     url_text = url_path, ip_text = (\<lambda>ip. ''ip''), tera_render = (\<lambda>t ctx. Some t)\<rparr>"

definition demo_login_config :: login_config where
  "demo_login_config = \<lparr>lg_port = 8081, lg_bff_url = ''https://bff'', lg_own_origin = ''https://login'',
     lg_default_redirect_uri = None, lg_default_locale = ''en'', lg_kratos_public_url = ''http://kratos'',
     lg_hydra_admin_url = ''http://hydra'', lg_bff_client_id = ''bff'',
     lg_kratos_session_cookie = ''ory_kratos_session'', lg_rate_limit_max_attempts = 10,
     lg_rate_limit_proxy_max_attempts = 600, lg_trusted_proxies = []\<rparr>"

definition demo_login :: login_state where
  "demo_login = \<lparr>ls_config = demo_login_config, ls_own_origin = demo_url ''/'', ls_kratos = demo_url ''/'',
     ls_hydra = demo_url ''/'', ls_throttle = []\<rparr>"

text \<open>JSON text of the examples: each document has a name of its own.\<close>

definition named_json :: "(string \<times> json) list \<Rightarrow> libs" where
  "named_json docs = demo_libs\<lparr>json_read := map_of docs\<rparr>"

lemmas demo_login_simps = demo_url_def demo_login_libs_def demo_login_config_def demo_login_def
  named_json_def demo_libs_def

end
