(* ===== verification/Challenges.thy ===== *)
theory Challenges
  imports LoginState
begin

text \<open>
  The two places Hydra hands the browser to login (\<open>login/src/challenges.rs\<close>): the end of a logout
  and the consent of an authorization. A handler's result is its response and the requests it sent,
  in order; a query that does not parse counts as none.
\<close>

definition ALLOWED_SCOPES :: "string list" where
  "ALLOWED_SCOPES = [''openid'', ''offline_access'']"

definition SIGN_OUT_UNAVAILABLE :: string where
  "SIGN_OUT_UNAVAILABLE = ''Sign-out is unavailable right now. Please try again in a moment.''"

record challenge_query =
  logout_challenge :: "string option"
  consent_challenge :: "string option"

definition challenge_query_of :: "challenge_query option \<Rightarrow> challenge_query" where
  "challenge_query_of q =
     (case q of None \<Rightarrow> \<lparr>logout_challenge = None, consent_challenge = None\<rparr> | Some q \<Rightarrow> q)"

section \<open>Logout\<close>

definition with_cookies :: "body_response \<Rightarrow> string list \<Rightarrow> body_response" where
  "with_cookies r cookies =
     r\<lparr>rsp_headers := foldl (\<lambda>h c. header_append h ''set-cookie'' c) (rsp_headers r) cookies\<rparr>"

definition end_kratos_session ::
    "libs \<Rightarrow> login_libs \<Rightarrow> login_state \<Rightarrow> (http_request \<Rightarrow> http_sent) \<Rightarrow> headers
      \<Rightarrow> string list \<times> http_request list" where
  "end_kratos_session L M st upstream h =
     (case kratos_end_session L M (ls_kratos st) upstream (one_cookie_header L h) of
        (Inr (Some cookies), sent) \<Rightarrow> (cookies, sent)
      | (Inr None, sent) \<Rightarrow> ([], sent)
      | (Inl _, sent) \<Rightarrow> ([], sent))"

definition login_logout ::
    "libs \<Rightarrow> login_libs \<Rightarrow> string \<Rightarrow> login_state \<Rightarrow> (http_request \<Rightarrow> http_sent) \<Rightarrow> (http_request \<Rightarrow> http_sent)
      \<Rightarrow> headers \<Rightarrow> challenge_query option \<Rightarrow> body_response \<times> http_request list" where
  "login_logout L M nonce st kratos hydra h query =
     (case logout_challenge (challenge_query_of query) of
        None \<Rightarrow> (error_page L M nonce 400 ''This sign-out link is not valid.'', [])
      | Some challenge \<Rightarrow>
          (case hydra_lookup L M (ls_hydra st) hydra de_logout_request ''logout'' ''logout_challenge'' challenge of
             Inl e \<Rightarrow> (error_page L M nonce 502 SIGN_OUT_UNAVAILABLE, [])
           | Inr None \<Rightarrow> (error_page L M nonce 400 ''This sign-out link has expired.'', [])
           | Inr (Some request) \<Rightarrow>
               if \<not> rp_initiated request
               then (error_page L M nonce 400 ''Sign out from the application you are signed in to.'', [])
               else
                 (let (cookies, sent) = end_kratos_session L M st kratos h;
                      (accepted, sent') = hydra_put L M (ls_hydra st) hydra ''logout/accept'' ''logout_challenge''
                        challenge (JObj [])
                  in (with_cookies
                        (case accepted of
                           Inr location \<Rightarrow> redirect_to_page L location
                         | Inl e \<Rightarrow> error_page L M nonce 502 SIGN_OUT_UNAVAILABLE) cookies,
                      sent @ sent'))))"

section \<open>Consent\<close>

datatype ungrantable = WrongClient | ScopeNotAllowed string

definition check_grantable :: "consent_request \<Rightarrow> string \<Rightarrow> ungrantable + unit" where
  "check_grantable request client =
     (if cr_client_id request \<noteq> client then Err WrongClient
      else (case find (\<lambda>scope. \<not> list_ex (\<lambda>s. s = scope) ALLOWED_SCOPES) (requested_scope request) of
              Some scope \<Rightarrow> Err (ScopeNotAllowed scope)
            | None \<Rightarrow> Ok ()))"

definition accept_consent_body :: "consent_request \<Rightarrow> json" where
  "accept_consent_body request = JObj
     [(''grant_scope'', JArr (map JStr (requested_scope request))),
      (''grant_access_token_audience'', JArr (map JStr (requested_access_token_audience request))),
      (''remember'', JBool False)]"

definition reject_consent_body :: json where
  "reject_consent_body = JObj
     [(''error'', JStr ''access_denied''), (''error_description'', JStr ''Consent was not granted'')]"

definition consent ::
    "libs \<Rightarrow> login_libs \<Rightarrow> string \<Rightarrow> login_state \<Rightarrow> (http_request \<Rightarrow> http_sent)
      \<Rightarrow> challenge_query option \<Rightarrow> body_response \<times> http_request list" where
  "consent L M nonce st hydra query =
     (case consent_challenge (challenge_query_of query) of
        None \<Rightarrow> (error_page L M nonce 400 ''This link is not valid.'', [])
      | Some challenge \<Rightarrow>
          (case hydra_lookup L M (ls_hydra st) hydra de_consent_request ''consent'' ''consent_challenge'' challenge of
             Inl e \<Rightarrow> (error_page L M nonce 502 ''Sign-in is unavailable right now.'', [])
           | Inr None \<Rightarrow> (error_page L M nonce 400 ''This link has expired.'', [])
           | Inr (Some request) \<Rightarrow>
               (let (result, sent) =
                  (case check_grantable request (lg_bff_client_id (ls_config st)) of
                     Inr u \<Rightarrow> hydra_put L M (ls_hydra st) hydra ''consent/accept'' ''consent_challenge'' challenge
                       (accept_consent_body request)
                   | Inl refusal \<Rightarrow> hydra_put L M (ls_hydra st) hydra ''consent/reject'' ''consent_challenge'' challenge
                       reject_consent_body)
                in ((case result of
                       Inr location \<Rightarrow> redirect_to_page L location
                     | Inl e \<Rightarrow> error_page L M nonce 502 ''Sign-in is unavailable right now.''), sent))))"

section \<open>Lemmas\<close>

lemma check_grantable_ok:
  "check_grantable r c = Inr u \<longleftrightarrow>
     cr_client_id r = c \<and> set (requested_scope r) \<subseteq> {''openid'', ''offline_access''}"
proof -
  let ?p = "\<lambda>scope. \<not> list_ex (\<lambda>s. s = scope) ALLOWED_SCOPES"
  have "find ?p (requested_scope r) = None \<longleftrightarrow> set (requested_scope r) \<subseteq> {''openid'', ''offline_access''}"
    by (auto simp: find_None_iff ALLOWED_SCOPES_def)
  then show ?thesis
    by (cases "find ?p (requested_scope r)") (simp_all add: check_grantable_def)
qed

lemma hydra_put_sent:
  "hydra_put L M base upstream path key c body = (res, sent) \<Longrightarrow> rq \<in> set sent \<Longrightarrow>
     sent = [rq] \<and> (\<exists>u. challenge_url M base path key c = Inr u \<and> rq = put_request L u body)"
  by (auto simp: hydra_put_def Let_def split: sum.splits)

lemma hydra_put_location:
  "hydra_put L M base upstream path key c body = (Inr location, sent) \<Longrightarrow>
     (\<exists>u a. challenge_url M base path key c = Inr u \<and> sent = [put_request L u body] \<and>
        upstream (put_request L u body) = Inr a \<and> is_success (ha_status a) \<and>
        answer_json L de_redirect a = Inr location)"
  by (auto simp: hydra_put_def Let_def split: sum.splits if_splits)

lemma with_cookies_headers:
  "header_get_all (rsp_headers (with_cookies r cookies)) n =
     header_get_all (rsp_headers r) n @ (if n = ''set-cookie'' then cookies else [])"
proof -
  have "header_get_all (foldl (\<lambda>h c. header_append h ''set-cookie'' c) h cs) n =
      header_get_all h n @ (if n = ''set-cookie'' then cs else [])" for h cs
    by (induction cs arbitrary: h) auto
  then show ?thesis by (simp add: with_cookies_def)
qed


definition demo_hydra_docs :: "(string \<times> json) list" where
  "demo_hydra_docs =
     [(''asked'', JObj [(''client'', JObj [(''client_id'', JStr ''bff'')]), (''requested_scope'', JArr [JStr ''openid''])]),
      (''next'', JObj [(''redirect_to'', JStr ''https://hydra/next'')])]"

definition demo_hydra_admin :: "http_request \<Rightarrow> http_sent" where
  "demo_hydra_admin rq = Inr \<lparr>ha_status = 200, ha_headers = [],
     ha_body = Inr (if hq_method rq = ''GET'' then ''asked'' else ''next'')\<rparr>"


text \<open>A logout the app did not start ends nothing: no Kratos session and no Hydra session.\<close>

lemma logout_only_from_the_app:
  assumes "login_logout L M nonce st kratos hydra h query = (r, sent)" "sent \<noteq> []"
  shows "\<exists>challenge request. logout_challenge (challenge_query_of query) = Some challenge \<and>
    hydra_lookup L M (ls_hydra st) hydra de_logout_request ''logout'' ''logout_challenge'' challenge = Ok (Some request) \<and>
    rp_initiated request"
  using assms by (auto simp: login_logout_def Let_def split: option.splits sum.splits if_splits)

text \<open>Once the session is ended the browser gets the cookies that say so, whether Hydra accepts the
  logout or not.\<close>

lemma logout_clears_cookies:
  assumes "login_logout L M nonce st kratos hydra h query = (r, sent)" "sent \<noteq> []"
  shows "header_get_all (rsp_headers r) ''set-cookie'' = fst (end_kratos_session L M st kratos h)"
proof -
  have page: "header_get_all (rsp_headers (error_page L M nonce s m)) ''set-cookie'' = []" for s m
    by (simp add: error_page_def page_def status_only_def page_headers_def Let_def header_get_all_def split: option.splits)
  have redirect: "header_get_all (rsp_headers (redirect_to_page L l)) ''set-cookie'' = []" for l
    by (simp add: redirect_to_page_def text_response_def header_get_all_def)
  show ?thesis
    using assms
    by (auto simp: login_logout_def Let_def with_cookies_headers page redirect
        split: option.splits sum.splits if_splits prod.splits)
qed

end
