(* ===== verification/LoginProxy.thy ===== *)
theory LoginProxy
  imports LoginState
begin

text \<open>
  The only way a browser reaches Kratos (\<open>login/src/proxy.rs\<close>): which paths are forwarded, what of
  a login submission the throttle reads, what is forwarded, and what Kratos' answer says about the
  attempt. The operations other requests do on the throttle while Kratos answers are the argument
  \<open>meanwhile\<close>; Kratos' answer is a function of the request.
\<close>

definition FORWARDED_REQUEST_HEADERS :: "string list" where
  "FORWARDED_REQUEST_HEADERS = [''cookie'', ''content-type'', ''accept'', ''accept-language'',
     ''user-agent'', ''origin'', ''referer'']"

definition FORWARDED_RESPONSE_HEADERS :: "string list" where
  "FORWARDED_RESPONSE_HEADERS = [''content-type'', ''cache-control'', ''location'', ''retry-after'',
     ''content-disposition'']"

definition CLIENT_IP_HEADER :: string where "CLIENT_IP_HEADER = ''true-client-ip''"

definition LOGIN_SUBMIT_PATH :: string where "LOGIN_SUBMIT_PATH = ''/self-service/login''"

section \<open>Paths\<close>

fun contains :: "'a list \<Rightarrow> 'a list \<Rightarrow> bool" where
  "contains s [] = starts_with [] s"
| "contains s (x # xs) = (starts_with (x # xs) s \<or> contains s xs)"

definition is_clean_kratos_path :: "string \<Rightarrow> bool" where
  "is_clean_kratos_path path \<longleftrightarrow>
     CHR ''%'' \<notin> set path \<and> \<not> contains ''//'' path \<and>
     \<not> list_ex (\<lambda>segment. segment = ''..'' \<or> segment = ''.'' \<or> CHR 0x5C \<in> set segment)
         (split_on (CHR ''/'') path)"

definition trim_slashes_end :: "string \<Rightarrow> string" where
  "trim_slashes_end path = trim_end_matches (\<lambda>c. c = CHR ''/'') path"

definition is_native_api_path :: "string \<Rightarrow> bool" where
  "is_native_api_path path \<longleftrightarrow> last (split_on (CHR ''/'') (trim_slashes_end path)) = ''api''"

definition is_login_submit_variant :: "string \<Rightarrow> bool" where
  "is_login_submit_variant path \<longleftrightarrow>
     path \<noteq> LOGIN_SUBMIT_PATH \<and> eq_ignore_ascii_case (trim_slashes_end path) LOGIN_SUBMIT_PATH"

section \<open>What the throttle reads of a submission\<close>

datatype refusal = UnsupportedEncoding | Ambiguous | MustWait duration

record login_fields =
  lf_method :: "string option"
  lf_identifier :: "string option"
  lf_repeated :: bool

definition no_fields :: login_fields where
  "no_fields = \<lparr>lf_method = None, lf_identifier = None, lf_repeated = False\<rparr>"

definition set_method :: "login_fields \<Rightarrow> string \<Rightarrow> login_fields" where
  "set_method f v = f\<lparr>lf_repeated := lf_repeated f \<or> lf_method f \<noteq> None, lf_method := Some v\<rparr>"

definition set_identifier :: "login_fields \<Rightarrow> string \<Rightarrow> login_fields" where
  "set_identifier f v = f\<lparr>lf_repeated := lf_repeated f \<or> lf_identifier f \<noteq> None, lf_identifier := Some v\<rparr>"

definition from_form :: "login_libs \<Rightarrow> string \<Rightarrow> login_fields" where
  "from_form M body = foldl (\<lambda>f (name, v).
     if name = ''method'' then set_method f v
     else if name = ''identifier'' \<or> name = ''password_identifier'' then set_identifier f v
     else f) no_fields (form_parse M body)"

definition KEYS :: "string list" where
  "KEYS = [''method'', ''identifier'', ''password_identifier'']"

fun visit_map :: "login_fields \<Rightarrow> (string \<times> json) list \<Rightarrow> login_fields option" where
  "visit_map f [] = Some f"
| "visit_map f ((name, v) # kvs) =
     (if list_ex (\<lambda>k. k = name) KEYS then
        (case as_str v of
           None \<Rightarrow> None
         | Some text \<Rightarrow>
             visit_map (if name = ''method'' then set_method f text else set_identifier f text) kvs)
      else if \<not> is_ascii name \<or> list_ex (\<lambda>key. eq_ignore_ascii_case key name) KEYS then None
      else visit_map f kvs)"

definition from_json :: "libs \<Rightarrow> string \<Rightarrow> refusal + login_fields" where
  "from_json L body =
     (case json_read L body of
        Some (JObj kvs) \<Rightarrow> ok_or (visit_map no_fields kvs) Ambiguous
      | _ \<Rightarrow> Err Ambiguous)"

definition throttled_identifier :: "login_fields \<Rightarrow> string option" where
  "throttled_identifier f =
     (let is_password = (lf_method f = Some ''password'' \<or> lf_method f = None)
      in opt_filter (\<lambda>identifier. is_password \<and> trim identifier \<noteq> []) (lf_identifier f))"

definition login_fields_of :: "libs \<Rightarrow> login_libs \<Rightarrow> headers \<Rightarrow> string \<Rightarrow> refusal + login_fields" where
  "login_fields_of L M h body =
     (let content_type = to_ascii_lowercase
        (case Option.bind (header_get h ''content-type'') (header_str L) of None \<Rightarrow> [] | Some t \<Rightarrow> t)
      in if starts_with content_type ''application/x-www-form-urlencoded'' then Ok (from_form M body)
         else if starts_with content_type ''application/json'' then from_json L body
         else Err UnsupportedEncoding)"

definition login_attempt ::
    "libs \<Rightarrow> login_libs \<Rightarrow> (throttle_key \<Rightarrow> nat) \<Rightarrow> time \<Rightarrow> throttle \<Rightarrow> headers \<Rightarrow> string
      \<Rightarrow> (refusal + throttle_key option) \<times> throttle" where
  "login_attempt L M tie now t h body =
     (case login_fields_of L M h body of
        Inl e \<Rightarrow> (Err e, t)
      | Inr read \<Rightarrow>
          if lf_repeated read then (Err Ambiguous, t)
          else (case throttled_identifier read of
             None \<Rightarrow> (Ok None, t)
           | Some identifier \<Rightarrow>
               (let key = key_of L (lower_first M) identifier in
                (case admit tie t key now of
                   (Admitted, t') \<Rightarrow> (Ok (Some key), t')
                 | (Wait w, t') \<Rightarrow> (Err (MustWait w), t')))))"

section \<open>Forwarding\<close>

definition forward_request ::
    "libs \<Rightarrow> login_libs \<Rightarrow> string \<Rightarrow> url \<Rightarrow> headers \<Rightarrow> ip_addr option \<Rightarrow> string \<Rightarrow> http_request" where
  "forward_request L M method u h client body =
     (let kept = concat (map (\<lambda>name. map (\<lambda>v. (name, v)) (header_get_all h name)) FORWARDED_REQUEST_HEADERS);
          ip = (case client of
                  None \<Rightarrow> []
                | Some a \<Rightarrow> if header_value L (ip_text M a) then [(CLIENT_IP_HEADER, ip_text M a)] else [])
      in \<lparr>hq_method = method, hq_url = u, hq_headers = kept @ ip, hq_body = body\<rparr>)"

definition forward_answer ::
    "login_libs \<Rightarrow> (http_request \<Rightarrow> http_sent) \<Rightarrow> http_request \<Rightarrow> login_upstream_error + (nat \<times> headers \<times> string)" where
  "forward_answer M upstream rq =
     (case upstream rq of
        Inl cause \<Rightarrow> Err (upstream_request M KRATOS (hq_url rq) cause)
      | Inr a \<Rightarrow> (case ha_body a of
          Inl cause \<Rightarrow> Err (upstream_request M KRATOS (hq_url rq) cause)
        | Inr body \<Rightarrow> Ok (ha_status a, ha_headers a, body)))"

definition sets_session :: "libs \<Rightarrow> headers \<Rightarrow> string \<Rightarrow> bool" where
  "sets_session L h cookie =
     list_ex (\<lambda>(name, v). trim name = cookie \<and> trim v \<noteq> [])
       (List.map_filter (\<lambda>c. split_once (CHR ''='') (hd (split_on (CHR '';'') c)))
          (List.map_filter (header_str L) (header_get_all h ''set-cookie'')))"

definition is_ui_path :: "string \<Rightarrow> bool" where
  "is_ui_path path \<longleftrightarrow>
     list_ex (\<lambda>p. path = p) [''/login'', ''/registration'', ''/recovery'', ''/verification'', ''/settings''] \<or>
     starts_with path ''/self-service/''"

definition outcome_of :: "libs \<Rightarrow> login_libs \<Rightarrow> login_state \<Rightarrow> nat \<Rightarrow> headers \<Rightarrow> outcome" where
  "outcome_of L M st status h =
     (let signed_in = (if sets_session L h (lg_kratos_session_cookie (ls_config st)) then Succeeded else Failed)
      in if status = 422 then signed_in
         else if status = 403 \<or> status = 429 \<or> (500 \<le> status \<and> status < 600) then NotAnAttempt
         else if is_success status then signed_in
         else if \<not> (300 \<le> status \<and> status < 400) then Failed
         else (case Option.bind (Option.bind (header_get h ''location'') (header_str L)) (join_url M (ls_own_origin st)) of
                 Some target \<Rightarrow>
                   if url_origin target = url_origin (ls_own_origin st) then
                     (if url_path target = ''/error'' then NotAnAttempt
                      else if is_ui_path (url_path target) then Failed
                      else signed_in)
                   else signed_in
               | None \<Rightarrow> Failed))"

definition browser_response :: "nat \<Rightarrow> headers \<Rightarrow> string \<Rightarrow> body_response" where
  "browser_response status h body =
     (let kept = concat (map (\<lambda>name. map (\<lambda>v. (name, v)) (header_get_all h name)) FORWARDED_RESPONSE_HEADERS);
          cookies = map (\<lambda>v. (''set-cookie'', v)) (header_get_all h ''set-cookie'');
          h1 = header_insert (kept @ cookies) ''x-content-type-options'' ''nosniff'';
          h2 = header_insert h1 ''content-security-policy''
                 (''default-src '' @ [CHR 0x27] @ ''none'' @ [CHR 0x27] @ ''; frame-ancestors '' @ [CHR 0x27] @
                  ''none'' @ [CHR 0x27] @ ''; sandbox'');
          h3 = (if header_contains h2 ''cache-control'' then h2 else header_append h2 ''cache-control'' ''no-store'')
      in \<lparr>rsp_status = status, rsp_headers = h3, rsp_body = body\<rparr>)"

section \<open>The handler\<close>

record proxy_request =
  pr_method :: string
  pr_path :: string
  pr_query :: "string option"
  pr_peer :: "ip_addr option"
  pr_headers :: headers
  pr_body :: string

text \<open>The clock, the order of equally old entries, the page's nonce, what happens to the throttle
  meanwhile, and Kratos.\<close>

record proxy_world =
  pw_now :: time
  pw_tie :: "throttle_key \<Rightarrow> nat"
  pw_nonce :: string
  pw_meanwhile :: "throttle \<Rightarrow> throttle"
  pw_kratos :: "http_request \<Rightarrow> http_sent"

definition proxy_attempt ::
    "libs \<Rightarrow> login_libs \<Rightarrow> proxy_world \<Rightarrow> throttle \<Rightarrow> proxy_request \<Rightarrow> (refusal + throttle_key option) \<times> throttle" where
  "proxy_attempt L M w t req =
     (if pr_method req = ''POST'' \<and> pr_path req = LOGIN_SUBMIT_PATH
      then login_attempt L M (pw_tie w) (pw_now w) t (pr_headers req) (pr_body req)
      else (Ok None, t))"

definition proxy_forward ::
    "libs \<Rightarrow> login_libs \<Rightarrow> proxy_world \<Rightarrow> login_state \<Rightarrow> proxy_request \<Rightarrow> throttle_key option
      \<Rightarrow> body_response \<times> http_request option \<times> login_state" where
  "proxy_forward L M w st req attempt =
     (case kratos_url M (ls_kratos st) (pr_path req) (pr_query req) of
        None \<Rightarrow> (status_only 502, None, st)
      | Some u \<Rightarrow>
          (let client = map_option (\<lambda>p. client_ip_of L p (pr_headers req) (lg_trusted_proxies (ls_config st))) (pr_peer req);
               rq = forward_request L M (pr_method req) u (pr_headers req) client (pr_body req);
               t = pw_meanwhile w (ls_throttle st);
               settled = (\<lambda>out. st\<lparr>ls_throttle := (case attempt of None \<Rightarrow> t | Some key \<Rightarrow> settle t key out)\<rparr>)
           in (case forward_answer M (pw_kratos w) rq of
                 Inr (status, h, body) \<Rightarrow>
                   (browser_response status h body, Some rq, settled (outcome_of L M st status h))
               | Inl e \<Rightarrow> (text_response 502 ''Bad gateway'', Some rq, settled NotAnAttempt))))"

definition login_proxy ::
    "libs \<Rightarrow> login_libs \<Rightarrow> proxy_world \<Rightarrow> login_state \<Rightarrow> proxy_request
      \<Rightarrow> body_response \<times> http_request option \<times> login_state" where
  "login_proxy L M w st req =
     (if \<not> is_clean_kratos_path (pr_path req) \<or> is_native_api_path (pr_path req) \<or>
         (pr_method req = ''POST'' \<and> is_login_submit_variant (pr_path req))
      then (status_only 404, None, st)
      else (case proxy_attempt L M w (ls_throttle st) req of
              (Inl UnsupportedEncoding, t) \<Rightarrow> (status_only 415, None, st\<lparr>ls_throttle := t\<rparr>)
            | (Inl Ambiguous, t) \<Rightarrow> (status_only 400, None, st\<lparr>ls_throttle := t\<rparr>)
            | (Inl (MustWait wait), t) \<Rightarrow>
                (throttled_page L M (pw_nonce w) wait, None, st\<lparr>ls_throttle := t\<rparr>)
            | (Inr attempt, t) \<Rightarrow> proxy_forward L M w (st\<lparr>ls_throttle := t\<rparr>) req attempt))"

section \<open>Lemmas\<close>

abbreviation identifier_key :: "string \<Rightarrow> bool" where
  "identifier_key name \<equiv> eq_ignore_ascii_case ''identifier'' name \<or> eq_ignore_ascii_case ''password_identifier'' name"

lemma keys_distinct [simp]:
  "\<not> eq_ignore_ascii_case ''identifier'' ''method''" "\<not> eq_ignore_ascii_case ''password_identifier'' ''method''"
  "\<not> eq_ignore_ascii_case ''method'' ''identifier''" "\<not> eq_ignore_ascii_case ''method'' ''password_identifier''"
  by code_simp+

lemma keys_ascii [simp]: "is_ascii ''method''" "is_ascii ''identifier''" "is_ascii ''password_identifier''"
  by code_simp+

lemma as_str_Some: "as_str v = Some s \<longleftrightarrow> v = JStr s"
  by (cases v) auto

text \<open>A member the throttle reads otherwise than by its exact name is an error, so what was read is
  what any reader that folds the case of names finds.\<close>

lemma visit_map_sound:
  assumes "visit_map f kvs = Some g" "\<not> lf_repeated g"
  shows "\<not> lf_repeated f \<and>
    (lf_identifier f \<noteq> None \<longrightarrow> lf_identifier g = lf_identifier f) \<and>
    (lf_method f \<noteq> None \<longrightarrow> lf_method g = lf_method f) \<and>
    (\<forall>(k, v) \<in> set kvs. is_ascii k \<and>
       (identifier_key k \<longrightarrow> (\<exists>i. v = JStr i \<and> lf_identifier g = Some i)) \<and>
       (eq_ignore_ascii_case ''method'' k \<longrightarrow> (\<exists>m. v = JStr m \<and> lf_method g = Some m)))"
  using assms
proof (induction kvs arbitrary: f)
  case Nil
  then show ?case by simp
next
  case (Cons kv kvs)
  obtain name v where kv: "kv = (name, v)" by fastforce
  show ?case
  proof (cases "name \<in> set KEYS")
    case True
    then obtain s where s: "v = JStr s"
      and rest: "visit_map (if name = ''method'' then set_method f s else set_identifier f s) kvs = Some g"
      using Cons.prems(1) kv by (auto simp: list_ex_iff as_str_Some split: option.splits)
    show ?thesis
      using Cons.IH [OF rest Cons.prems(2)] True kv s
      by (auto simp: KEYS_def set_method_def set_identifier_def split: if_splits)
  next
    case False
    then have n: "is_ascii name" "\<not> identifier_key name" "\<not> eq_ignore_ascii_case ''method'' name"
      and rest: "visit_map f kvs = Some g"
      using Cons.prems(1) kv by (auto simp: KEYS_def split: if_splits)
    show ?thesis using Cons.IH [OF rest Cons.prems(2)] n kv by auto
  qed
qed

lemma from_json_sound:
  assumes "from_json L body = Inr read" "\<not> lf_repeated read"
  shows "\<exists>kvs. json_read L body = Some (JObj kvs) \<and> (\<forall>(k, v) \<in> set kvs. is_ascii k \<and>
    (identifier_key k \<longrightarrow> (\<exists>i. v = JStr i \<and> lf_identifier read = Some i)) \<and>
    (eq_ignore_ascii_case ''method'' k \<longrightarrow> (\<exists>m. v = JStr m \<and> lf_method read = Some m)))"
proof -
  obtain kvs where "json_read L body = Some (JObj kvs)" "visit_map no_fields kvs = Some read"
    using assms(1) by (auto simp: from_json_def split: option.splits json.splits)
  with visit_map_sound [OF this(2) assms(2)] show ?thesis by blast
qed


lemma set_fields_simps [simp]:
  "lf_repeated (set_method f v) = (lf_repeated f \<or> lf_method f \<noteq> None)"
  "lf_method (set_method f v) = Some v" "lf_identifier (set_method f v) = lf_identifier f"
  "lf_repeated (set_identifier f v) = (lf_repeated f \<or> lf_identifier f \<noteq> None)"
  "lf_identifier (set_identifier f v) = Some v" "lf_method (set_identifier f v) = lf_method f"
  by (simp_all add: set_method_def set_identifier_def)

lemma form_fold_sound:
  assumes "g = foldl (\<lambda>f (name, v). if P name then set_method f v else if Q name then set_identifier f v else f) f ps"
    and "\<not> lf_repeated g" "\<And>n. P n \<Longrightarrow> \<not> Q n"
  shows "\<not> lf_repeated f \<and>
    (lf_identifier f \<noteq> None \<longrightarrow> lf_identifier g = lf_identifier f) \<and>
    (lf_method f \<noteq> None \<longrightarrow> lf_method g = lf_method f) \<and>
    (\<forall>(k, v) \<in> set ps. (Q k \<longrightarrow> lf_identifier g = Some v) \<and> (P k \<longrightarrow> lf_method g = Some v))"
  using assms
proof (induction ps arbitrary: f)
  case Nil
  then show ?case by simp
next
  case (Cons p ps)
  obtain k v where p: "p = (k, v)" by fastforce
  let ?f = "if P k then set_method f v else if Q k then set_identifier f v else f"
  have "g = foldl (\<lambda>f (name, v). if P name then set_method f v else if Q name then set_identifier f v else f) ?f ps"
    using Cons.prems(1) p by simp
  from Cons.IH [OF this Cons.prems(2,3)] p Cons.prems(3) [of k] show ?case
    by (simp split: if_splits)
qed

lemma from_form_sound:
  assumes "\<not> lf_repeated (from_form M body)" "(k, v) \<in> set (form_parse M body)"
  shows "(k = ''identifier'' \<or> k = ''password_identifier'' \<longrightarrow> lf_identifier (from_form M body) = Some v) \<and>
    (k = ''method'' \<longrightarrow> lf_method (from_form M body) = Some v)"
  using form_fold_sound [of "from_form M body" "\<lambda>n. n = ''method''"
      "\<lambda>n. n = ''identifier'' \<or> n = ''password_identifier''" no_fields "form_parse M body"] assms
  unfolding from_form_def by auto

text \<open>The values of a submission that count as the identifier or the method, by Kratos' reading: of a
  form the fields of that name, of a JSON object the members whose name is it up to case.\<close>

definition kratos_values :: "libs \<Rightarrow> login_libs \<Rightarrow> headers \<Rightarrow> string \<Rightarrow> (string \<times> json) list" where
  "kratos_values L M h body =
     (let content_type = to_ascii_lowercase
        (case Option.bind (header_get h ''content-type'') (header_str L) of None \<Rightarrow> [] | Some t \<Rightarrow> t)
      in if starts_with content_type ''application/x-www-form-urlencoded''
         then map (\<lambda>(k, v). (k, JStr v))
                (filter (\<lambda>(k, v). k \<in> {''identifier'', ''password_identifier'', ''method''}) (form_parse M body))
         else (case json_read L body of
                 Some (JObj kvs) \<Rightarrow> filter (\<lambda>(k, v). identifier_key k \<or> eq_ignore_ascii_case ''method'' k) kvs
               | _ \<Rightarrow> []))"

lemma login_fields_sound:
  assumes "login_fields_of L M h body = Inr read" "\<not> lf_repeated read" "(k, v) \<in> set (kratos_values L M h body)"
  shows "(identifier_key k \<longrightarrow> (\<exists>i. v = JStr i \<and> lf_identifier read = Some i)) \<and>
    (eq_ignore_ascii_case ''method'' k \<longrightarrow> (\<exists>m. v = JStr m \<and> lf_method read = Some m))"
proof -
  let ?ct = "to_ascii_lowercase
    (case Option.bind (header_get h ''content-type'') (header_str L) of None \<Rightarrow> [] | Some t \<Rightarrow> t)"
  show ?thesis
  proof (cases "starts_with ?ct ''application/x-www-form-urlencoded''")
    case True
    then have "read = from_form M body" using assms(1) by (simp add: login_fields_of_def Let_def)
    with True assms(2,3) show ?thesis
      using from_form_sound [of M body k] by (auto simp: kratos_values_def Let_def)
  next
    case False
    then have "from_json L body = Inr read"
      using assms(1) by (auto simp: login_fields_of_def Let_def split: if_splits)
    from from_json_sound [OF this assms(2)] False assms(3) show ?thesis
      by (fastforce simp: kratos_values_def Let_def)
  qed
qed

lemma proxy_forward_sent:
  assumes "proxy_forward L M w st req attempt = (r, Some rq, st')"
  shows "st' = st\<lparr>ls_throttle := (case attempt of
      None \<Rightarrow> pw_meanwhile w (ls_throttle st)
    | Some key \<Rightarrow> settle (pw_meanwhile w (ls_throttle st)) key
        (case forward_answer M (pw_kratos w) rq of
           Inl e \<Rightarrow> NotAnAttempt | Inr (status, h, body) \<Rightarrow> outcome_of L M st status h))\<rparr> \<and>
    (\<exists>u client. rq = forward_request L M (pr_method req) u (pr_headers req) client (pr_body req))"
  using assms
  by (auto simp: proxy_forward_def Let_def split: option.splits sum.splits)

lemma proxy_forward_sends:
  "kratos_url M (ls_kratos st) (pr_path req) (pr_query req) \<noteq> None \<Longrightarrow>
     \<exists>rq. fst (snd (proxy_forward L M w st req attempt)) = Some rq"
  by (auto simp: proxy_forward_def Let_def split: option.splits sum.splits)

lemma login_proxy_sent:
  assumes "login_proxy L M w st req = (r, Some rq, st')"
  shows "is_clean_kratos_path (pr_path req) \<and> \<not> is_native_api_path (pr_path req) \<and>
    (pr_method req = ''POST'' \<longrightarrow> \<not> is_login_submit_variant (pr_path req)) \<and>
    (\<exists>attempt t. proxy_attempt L M w (ls_throttle st) req = (Inr attempt, t) \<and>
       proxy_forward L M w (st\<lparr>ls_throttle := t\<rparr>) req attempt = (r, Some rq, st'))"
  using assms by (auto simp: login_proxy_def split: if_splits prod.splits sum.splits refusal.splits)

lemma login_attempt_admitted:
  assumes "login_attempt L M tie now t h body = (Inr attempt, t')"
  shows "\<exists>read. login_fields_of L M h body = Inr read \<and> \<not> lf_repeated read \<and>
    (case throttled_identifier read of
       None \<Rightarrow> attempt = None \<and> t' = t
     | Some i \<Rightarrow> attempt = Some (key_of L (lower_first M) i) \<and> admit tie t (key_of L (lower_first M) i) now = (Admitted, t'))"
  using assms
  by (auto simp: login_attempt_def Let_def split: sum.splits if_splits option.splits prod.splits admission.splits)

lemma outcome_of_Succeeded:
  "outcome_of L M st status h = Succeeded \<Longrightarrow> sets_session L h (lg_kratos_session_cookie (ls_config st))"
  by (auto simp: outcome_of_def Let_def split: if_splits option.splits)

lemma outcome_of_NotAnAttempt:
  "outcome_of L M st status h = NotAnAttempt \<Longrightarrow> status \<in> {403, 429} \<or> 500 \<le> status \<or>
     (\<exists>v target. header_get h ''location'' = Some v \<and> Option.bind (header_str L v) (join_url M (ls_own_origin st)) = Some target \<and>
        url_origin target = url_origin (ls_own_origin st) \<and> url_path target = ''/error'')"
  by (auto simp: outcome_of_def Let_def split: if_splits option.splits bind_splits)


definition demo_submission :: proxy_request where
  "demo_submission = \<lparr>pr_method = ''POST'', pr_path = ''/self-service/login'', pr_query = None, pr_peer = None,
     pr_headers = [(''content-type'', ''application/x-www-form-urlencoded'')], pr_body = ''a''\<rparr>"

definition demo_proxy_world :: proxy_world where
  "demo_proxy_world = \<lparr>pw_now = 0, pw_tie = (\<lambda>k. 0), pw_nonce = ''n'', pw_meanwhile = id,
     pw_kratos = (\<lambda>rq. Inr \<lparr>ha_status = 400, ha_headers = [], ha_body = Inr ''wrong''\<rparr>)\<rparr>"

lemma demo_submission_path:
  "is_clean_kratos_path ''/self-service/login''" "\<not> is_native_api_path ''/self-service/login''"
  "\<not> is_login_submit_variant ''/self-service/login''"
  "eq_ignore_ascii_case (trim_slashes_end ''/self-service/login'') LOGIN_SUBMIT_PATH"
  by code_simp+

lemma demo_submission_read:
  "login_fields_of demo_libs demo_login_libs (pr_headers demo_submission) (pr_body demo_submission) =
     Inr \<lparr>lf_method = None, lf_identifier = Some ''a'', lf_repeated = False\<rparr>"
  "trim ''a'' = ''a''"
proof -
  have t: "to_ascii_lowercase ''application/x-www-form-urlencoded'' = ''application/x-www-form-urlencoded''" by code_simp
  have a: "ascii_str ''application/x-www-form-urlencoded'' = Some ''application/x-www-form-urlencoded''" by code_simp
  have f: "starts_with ''application/x-www-form-urlencoded'' ''application/x-www-form-urlencoded''"
    by (simp add: starts_with_iff)
  show "login_fields_of demo_libs demo_login_libs (pr_headers demo_submission) (pr_body demo_submission) =
     Inr \<lparr>lf_method = None, lf_identifier = Some ''a'', lf_repeated = False\<rparr>"
    by (simp add: login_fields_of_def demo_submission_def demo_libs_def header_get_def t a f from_form_def
        demo_login_libs_def set_identifier_def no_fields_def)
  show "trim ''a'' = ''a''" by code_simp
qed


end
