(* ===== verification/LoginRuns.thy ===== *)
theory LoginRuns
  imports LoginProxy
begin

text \<open>
  login's proxy as requests that interleave. A submission is two steps: its throttle admits it and it is
  sent to Kratos; later the answer settles it, unless the browser has gone away and axum dropped the
  request between the two. Other requests, the sweep and the clock move in between. Each step is the
  handler's own definition (\<open>proxy_attempt\<close>, \<open>settle\<close>), atomic under the throttle's mutex; the clock is
  read in the step that takes the mutex, where the source reads it just before. A request whose Kratos
  URL cannot be built, or whose answer never comes, is a \<open>send\<close> that stays in flight or is \<open>gone\<close>.
  \<open>LoginRuns\<close> asks nothing of an answer: \<open>settle\<close> takes any outcome.
\<close>

section \<open>The system\<close>

record login_sys =
  y_throttle :: throttle
  y_now :: time
  y_flying :: "throttle_key option list"
  y_sent :: "(proxy_request \<times> time) list"
  y_history :: "throttle_event list"

definition login_start_sys :: "time \<Rightarrow> login_sys" where
  "login_start_sys now = \<lparr>y_throttle = [], y_now = now, y_flying = [], y_sent = [], y_history = []\<rparr>"

text \<open>What a request adds to the history of the throttle.\<close>

definition admission_events :: "proxy_world \<Rightarrow> throttle_key option \<Rightarrow> throttle_event list" where
  "admission_events w attempt = (case attempt of None \<Rightarrow> [] | Some key \<Rightarrow> [Admit (pw_tie w) key (pw_now w)])"

inductive login_step :: "libs \<Rightarrow> login_libs \<Rightarrow> login_sys \<Rightarrow> login_sys \<Rightarrow> bool"
  for L :: libs and M :: login_libs where
  send: "pw_now w = y_now s \<Longrightarrow> proxy_attempt L M w (y_throttle s) req = (Inr attempt, t) \<Longrightarrow>
    login_step L M s (s\<lparr>y_throttle := t, y_flying := y_flying s @ [attempt], y_sent := y_sent s @ [(req, y_now s)],
      y_history := y_history s @ admission_events w attempt\<rparr>)"
| refuse: "pw_now w = y_now s \<Longrightarrow> proxy_attempt L M w (y_throttle s) req = (Inl refusal, t) \<Longrightarrow>
    login_step L M s (s\<lparr>y_throttle := t\<rparr>)"
| answer: "y_flying s = before @ Some key # after \<Longrightarrow>
    login_step L M s (s\<lparr>y_throttle := settle (y_throttle s) key out, y_flying := before @ after,
      y_history := y_history s @ [Settle key out]\<rparr>)"
| gone: "y_flying s = before @ attempt # after \<Longrightarrow> login_step L M s (s\<lparr>y_flying := before @ after\<rparr>)"
| sweep: "login_step L M s (s\<lparr>y_throttle := throttle_sweep (y_throttle s) (y_now s),
      y_history := y_history s @ [Sweep (y_now s)]\<rparr>)"
| tick: "y_now s \<le> now \<Longrightarrow> login_step L M s (s\<lparr>y_now := now\<rparr>)"

inductive login_reachable :: "libs \<Rightarrow> login_libs \<Rightarrow> time \<Rightarrow> login_sys \<Rightarrow> bool"
  for L :: libs and M :: login_libs and start :: time where
  start: "login_reachable L M start (login_start_sys start)"
| step: "login_reachable L M start s \<Longrightarrow> login_step L M s s' \<Longrightarrow> login_reachable L M start s'"

text \<open>The identifier a request is a password attempt for, read from the request alone.\<close>

definition attempt_key :: "libs \<Rightarrow> login_libs \<Rightarrow> proxy_request \<Rightarrow> throttle_key option" where
  "attempt_key L M req =
     (if pr_method req = ''POST'' \<and> pr_path req = LOGIN_SUBMIT_PATH
      then (case login_fields_of L M (pr_headers req) (pr_body req) of
              Inl e \<Rightarrow> None
            | Inr read \<Rightarrow> map_option (key_of L (lower_first M)) (throttled_identifier read))
      else None)"

text \<open>When password attempts for an identifier were sent to Kratos, oldest first.\<close>

definition sent_for :: "libs \<Rightarrow> login_libs \<Rightarrow> throttle_key \<Rightarrow> (proxy_request \<times> time) list \<Rightarrow> time list" where
  "sent_for L M key sent = map snd (filter (\<lambda>(req, t). attempt_key L M req = Some key) sent)"

section \<open>The history is a run of the throttle\<close>

lemma throttle_run_append: "throttle_run t (es @ fs) = throttle_run (throttle_run t es) fs"
  by (simp add: throttle_run_def)

lemma throttle_run_simps [simp]: "throttle_run t [] = t" "throttle_run t (e # es) = throttle_run (throttle_step t e) es"
  by (simp_all add: throttle_run_def)

lemma admissions_append: "admissions key t (es @ fs) = admissions key t es @ admissions key (throttle_run t es) fs"
  by (induction es arbitrary: t) auto

lemma clock_ok_append: "clock_ok t (es @ fs) \<longleftrightarrow> clock_ok t es \<and> clock_ok (foldl event_time t es) fs"
  by (induction es arbitrary: t rule: clock_ok.induct [case_names nil admit settle sweep]) auto

lemma proxy_attempt_admitted:
  assumes "proxy_attempt L M w t req = (Inr attempt, t')"
  shows "attempt = attempt_key L M req \<and>
    (case attempt of None \<Rightarrow> t' = t | Some key \<Rightarrow> admit (pw_tie w) t key (pw_now w) = (Admitted, t'))"
proof (cases "pr_method req = ''POST'' \<and> pr_path req = LOGIN_SUBMIT_PATH")
  case True
  with assms have "login_attempt L M (pw_tie w) (pw_now w) t (pr_headers req) (pr_body req) = (Inr attempt, t')"
    by (simp add: proxy_attempt_def)
  from login_attempt_admitted [OF this] True show ?thesis
    by (auto simp: attempt_key_def split: option.splits)
next
  case False
  with assms show ?thesis by (auto simp: proxy_attempt_def attempt_key_def)
qed

lemma proxy_attempt_refused: "proxy_attempt L M w t req = (Inl refusal, t') \<Longrightarrow> t' = t"
  by (auto simp: proxy_attempt_def login_attempt_def admit_def Let_def
      split: if_splits sum.splits option.splits prod.splits admission.splits)

definition login_inv :: "libs \<Rightarrow> login_libs \<Rightarrow> time \<Rightarrow> login_sys \<Rightarrow> bool" where
  "login_inv L M start s \<longleftrightarrow> y_throttle s = throttle_run [] (y_history s) \<and> clock_ok start (y_history s) \<and>
     foldl event_time start (y_history s) \<le> y_now s \<and>
     (\<forall>key. sent_for L M key (y_sent s) = admissions key [] (y_history s))"

lemma login_inv_start: "login_inv L M start (login_start_sys start)"
  by (simp add: login_inv_def login_start_sys_def sent_for_def)

text \<open>An event that admits nothing new.\<close>

lemma login_inv_event:
  assumes "login_inv L M start s" "y_history s' = y_history s @ [ev]" "y_throttle s' = throttle_step (y_throttle s) ev"
    and "y_sent s' = y_sent s" "y_now s' = y_now s" "clock_ok (foldl event_time start (y_history s)) [ev]"
    and "event_time (foldl event_time start (y_history s)) ev \<le> y_now s" "\<And>key t. admissions key t [ev] = []"
  shows "login_inv L M start s'"
  using assms by (simp add: login_inv_def throttle_run_append clock_ok_append admissions_append)

lemma login_inv_send:
  assumes inv: "login_inv L M start s" and now: "pw_now w = y_now s"
    and att: "proxy_attempt L M w (y_throttle s) req = (Inr attempt, t)"
  shows "login_inv L M start (s\<lparr>y_throttle := t, y_flying := y_flying s @ [attempt],
    y_sent := y_sent s @ [(req, y_now s)], y_history := y_history s @ admission_events w attempt\<rparr>)"
proof -
  note adm = proxy_attempt_admitted [OF att]
  have sent: "sent_for L M key (y_sent s @ [(req, y_now s)]) =
      sent_for L M key (y_sent s) @ (if attempt = Some key then [y_now s] else [])" for key
    using adm by (auto simp: sent_for_def)
  show ?thesis
  proof (cases attempt)
    case None
    with inv adm sent show ?thesis by (simp add: login_inv_def admission_events_def)
  next
    case (Some key)
    with adm have a: "admit (pw_tie w) (y_throttle s) key (pw_now w) = (Admitted, t)" by simp
    have "admissions k (y_throttle s) [Admit (pw_tie w) key (pw_now w)] = (if key = k then [y_now s] else [])" for k
      using a now by simp
    with inv now a sent Some show ?thesis
      by (simp add: login_inv_def admission_events_def throttle_run_append clock_ok_append admissions_append)
  qed
qed

lemma login_inv_step: "login_step L M s s' \<Longrightarrow> login_inv L M start s \<Longrightarrow> login_inv L M start s'"
proof (induction rule: login_step.induct)
  case (send w s req attempt t)
  then show ?case by (intro login_inv_send)
next
  case (refuse w s req refusal t)
  from proxy_attempt_refused [OF refuse(2)] refuse(3) show ?case by (simp add: login_inv_def)
next
  case (answer s before key after out)
  show ?case by (rule login_inv_event [OF answer(2), where ev = "Settle key out"]) (use answer(2) in \<open>simp_all add: login_inv_def\<close>)
next
  case (sweep s)
  show ?case by (rule login_inv_event [OF sweep, where ev = "Sweep (y_now s)"]) (use sweep in \<open>simp_all add: login_inv_def\<close>)
qed (auto simp: login_inv_def)

lemma login_reachable_inv: "login_reachable L M start s \<Longrightarrow> login_inv L M start s"
  by (induction rule: login_reachable.induct) (auto intro: login_inv_start login_inv_step)

section \<open>The handler is such a run\<close>

text \<open>Alone, with what the others do to the throttle as \<open>pw_meanwhile\<close>, the handler of a request it
  forwards is a \<open>send\<close> and, when the attempt is counted, an \<open>answer\<close>.\<close>

lemma login_proxy_is_send_and_answer:
  assumes "login_proxy L M w st req = (r, Some rq, st')"
  shows "\<exists>attempt t. proxy_attempt L M w (ls_throttle st) req = (Inr attempt, t) \<and>
    (case attempt of None \<Rightarrow> ls_throttle st' = pw_meanwhile w t
     | Some key \<Rightarrow> (\<exists>out. ls_throttle st' = settle (pw_meanwhile w t) key out))"
proof -
  from login_proxy_sent [OF assms] obtain attempt t
    where a: "proxy_attempt L M w (ls_throttle st) req = (Inr attempt, t)"
      and f: "proxy_forward L M w (st\<lparr>ls_throttle := t\<rparr>) req attempt = (r, Some rq, st')" by blast
  from proxy_forward_sent [OF f] show ?thesis using a by (cases attempt) auto
qed


section \<open>Six submissions\<close>

definition demo_key :: throttle_key where
  "demo_key = key_of demo_libs (lower_first demo_login_libs) ''a''"

lemma demo_attempt_key: "attempt_key demo_libs demo_login_libs demo_submission = Some demo_key"
  using demo_submission_read
  by (simp add: attempt_key_def demo_submission_def LOGIN_SUBMIT_PATH_def throttled_identifier_def demo_key_def)

lemma demo_send:
  assumes "admit (\<lambda>k. 0) (y_throttle s) demo_key (y_now s) = (Admitted, t)"
    and "login_reachable demo_libs demo_login_libs start s"
  shows "login_reachable demo_libs demo_login_libs start
    (s\<lparr>y_throttle := t, y_flying := y_flying s @ [Some demo_key], y_sent := y_sent s @ [(demo_submission, y_now s)],
      y_history := y_history s @ [Admit (\<lambda>k. 0) demo_key (y_now s)]\<rparr>)"
proof -
  let ?w = "demo_proxy_world\<lparr>pw_now := y_now s\<rparr>"
  have "proxy_attempt demo_libs demo_login_libs ?w (y_throttle s) demo_submission = (Inr (Some demo_key), t)"
    using demo_submission_read assms(1)
    by (simp add: proxy_attempt_def login_attempt_def demo_submission_def LOGIN_SUBMIT_PATH_def
        throttled_identifier_def demo_key_def demo_proxy_world_def)
  from login_step.send [OF _ this] have
    "login_step demo_libs demo_login_libs s (s\<lparr>y_throttle := t, y_flying := y_flying s @ [Some demo_key],
       y_sent := y_sent s @ [(demo_submission, y_now s)], y_history := y_history s @ admission_events ?w (Some demo_key)\<rparr>)"
    by simp
  then show ?thesis
    using login_reachable.step [OF assms(2)] by (simp add: admission_events_def demo_proxy_world_def)
qed

text \<open>Five submissions at once, then the clock moves on and the sixth is sent.\<close>

definition demo_sys :: "32 word \<Rightarrow> nat \<Rightarrow> time \<Rightarrow> login_sys" where
  "demo_sys c n now = \<lparr>y_throttle = [(demo_key, \<lparr>attempts = c, last_attempt = 0\<rparr>)], y_now = now,
     y_flying = replicate n (Some demo_key), y_sent = replicate n (demo_submission, 0),
     y_history = replicate n (Admit (\<lambda>k. 0) demo_key 0)\<rparr>"

lemmas demo_delay_defs = admit_def wait_until_def delay_after_def FREE_ATTEMPTS_def SHORT_DELAY_ATTEMPTS_def
  SHORT_DELAY_def FORGET_AFTER_def MAX_TRACKED_def seconds_def Let_def

lemma demo_first: "login_reachable demo_libs demo_login_libs 0 (demo_sys 1 1 0)"
  using demo_send [OF _ login_reachable.start, of 0 "[(demo_key, \<lparr>attempts = 1, last_attempt = 0\<rparr>)]"]
  by (simp add: login_start_sys_def demo_sys_def demo_delay_defs)

lemma demo_again:
  "login_reachable demo_libs demo_login_libs 0 (demo_sys c n 0) \<Longrightarrow> c < FREE_ATTEMPTS \<Longrightarrow>
    login_reachable demo_libs demo_login_libs 0 (demo_sys (c + 1) (Suc n) 0)"
  using demo_send [of "demo_sys c n 0" "[(demo_key, \<lparr>attempts = c + 1, last_attempt = 0\<rparr>)]" 0]
  by (simp add: demo_sys_def demo_delay_defs replicate_append_same)

lemma demo_five: "login_reachable demo_libs demo_login_libs 0 (demo_sys 5 5 0)"
  using demo_again [OF demo_again [OF demo_again [OF demo_again [OF demo_first]]]]
  by (simp add: FREE_ATTEMPTS_def numeral_2_eq_2 [symmetric] eval_nat_numeral(3) [symmetric])

lemma demo_run:
  "\<exists>s. login_reachable demo_libs demo_login_libs 0 s \<and>
    y_sent s = replicate 5 (demo_submission, 0) @ [(demo_submission, SHORT_DELAY)] \<and>
    y_history s = replicate 5 (Admit (\<lambda>k. 0) demo_key 0) @ [Admit (\<lambda>k. 0) demo_key SHORT_DELAY]"
proof -
  have "login_step demo_libs demo_login_libs (demo_sys 5 5 0) (demo_sys 5 5 SHORT_DELAY)"
    using login_step.tick [of "demo_sys 5 5 0" SHORT_DELAY] by (simp add: demo_sys_def SHORT_DELAY_def seconds_def)
  from demo_send [OF _ login_reachable.step [OF demo_five this],
      of "[(demo_key, \<lparr>attempts = 6, last_attempt = SHORT_DELAY\<rparr>)]"]
  show ?thesis by (intro exI conjI) (assumption | simp add: demo_sys_def demo_delay_defs)+
qed

lemma admit_holds_key: "map_of (snd (admit tie t key now)) key \<noteq> None"
  by (auto simp: admit_def Let_def update_conv' split: option.splits if_splits)

lemma uncleared_own: "uncleared key (throttle_run t (replicate n (Admit tie key now))) es \<Longrightarrow>
    uncleared key t (replicate n (Admit tie key now) @ es)"
  by (induction n arbitrary: t) (simp_all add: admit_holds_key del: not_None_eq)


end
