(* ===== verification/HooksClients.thy ===== *)
theory HooksClients
  imports JsonRead Session
begin

text \<open>
  The upstreams of hooks: the calls to Kratos' and Hydra's admin APIs and to bff's internal listener
  (\<open>hooks/src/clients\<close>) and the deployer's webhooks (\<open>hooks/src/webhook.rs\<close>).

  A handler makes many calls whose answers depend on what came before, so the outside world is a
  state \<open>'w\<close> and a function \<open>net\<close> that answers a request in it. The answer \<open>None\<close> is a call still
  unanswered when the time budget it runs under is over: it abandons everything up to the enclosing
  \<open>tokio::time::timeout\<close>, as dropping the future does. Every call is recorded in \<open>ns_log\<close>, oldest
  first, with its answer.
\<close>

section \<open>Calls\<close>

record hook_request =
  hr_method :: string
  hr_url :: string
  hr_query :: "(string \<times> string) list"
  hr_bearer :: "string option"
  hr_json :: "json option"

type_synonym 'w net = "hook_request \<Rightarrow> 'w \<Rightarrow> http_sent option \<times> 'w"

record 'w net_state =
  ns_world :: 'w
  ns_log :: "(hook_request \<times> http_sent option) list"

type_synonym ('w, 'a) io = "'w net_state \<Rightarrow> 'a option \<times> 'w net_state"

definition io_return :: "'a \<Rightarrow> ('w, 'a) io" where
  "io_return a s = (Some a, s)"

definition io_bind :: "('w, 'a) io \<Rightarrow> ('a \<Rightarrow> ('w, 'b) io) \<Rightarrow> ('w, 'b) io" where
  "io_bind m f s = (case m s of (None, s') \<Rightarrow> (None, s') | (Some a, s') \<Rightarrow> f a s')"

text \<open>The \<open>?\<close> of a fallible call: an error ends the function.\<close>

definition io_try :: "('w, 'e + 'a) io \<Rightarrow> ('a \<Rightarrow> ('w, 'e + 'b) io) \<Rightarrow> ('w, 'e + 'b) io" where
  "io_try m f = io_bind m (\<lambda>r. case r of Inl e \<Rightarrow> io_return (Err e) | Inr a \<Rightarrow> f a)"

definition call_net :: "'w net \<Rightarrow> hook_request \<Rightarrow> ('w, http_sent) io" where
  "call_net N rq s =
     (let (a, w) = N rq (ns_world s) in (a, \<lparr>ns_world = w, ns_log = ns_log s @ [(rq, a)]\<rparr>))"

text \<open>What a request of hooks looks like to the service it reaches: reqwest's \<open>bearer_auth\<close> and \<open>json\<close>.\<close>

definition hook_headers :: "hook_request \<Rightarrow> headers" where
  "hook_headers rq = (case hr_bearer rq of None \<Rightarrow> [] | Some key \<Rightarrow> [(''authorization'', ''Bearer '' @ key)])"

text \<open>The loops run a call for each element, in order.\<close>

fun io_collect :: "('a \<Rightarrow> ('w, 'b list) io) \<Rightarrow> 'a list \<Rightarrow> ('w, 'b list) io" where
  "io_collect f [] = io_return []"
| "io_collect f (x # xs) = io_bind (f x) (\<lambda>ys. io_bind (io_collect f xs) (\<lambda>zs. io_return (ys @ zs)))"

text \<open>What the crates give: how a \<open>Uuid\<close>, a status and a \<open>Duration\<close> print, JSON pointers, the announced length of an
  answer, and the parts of a URL (\<open>Url::host_str\<close>, \<open>Url::path\<close>). And from the scheduler, the order in which the
  calls that are joined go out.\<close>

record hook_libs =
  uuid_text :: "uuid \<Rightarrow> string"
  status_text :: "nat \<Rightarrow> string"
  json_pointer :: "json \<Rightarrow> string \<Rightarrow> json option"
  content_length :: "http_answer \<Rightarrow> nat option"
  host_text :: "url \<Rightarrow> string"
  duration_text :: "duration \<Rightarrow> string"
  join_rank :: "nat \<Rightarrow> nat"

datatype hook_upstream_error =
    UpRequest string string
  | UpStatus string nat
  | UpInactive string
  | UpBody string string

fun is_not_found :: "hook_upstream_error \<Rightarrow> bool" where
  "is_not_found (UpStatus what status) = (status = 404)"
| "is_not_found _ = False"

fun upstream_error_text :: "hook_libs \<Rightarrow> hook_upstream_error \<Rightarrow> string" where
  "upstream_error_text H (UpRequest what cause) = what @ '': request failed: '' @ cause"
| "upstream_error_text H (UpStatus what status) = what @ '': returned '' @ status_text H status"
| "upstream_error_text H (UpInactive what) = what @ '': the identity is not active''"
| "upstream_error_text H (UpBody what cause) = what @ '': unreadable response: '' @ cause"

definition classify_answer :: "string \<Rightarrow> http_sent \<Rightarrow> hook_upstream_error + http_answer" where
  "classify_answer what a = (case a of
     Inl cause \<Rightarrow> Err (UpRequest what cause)
   | Inr r \<Rightarrow> if is_success (ha_status r) then Ok r else Err (UpStatus what (ha_status r)))"

definition send_hook :: "'w net \<Rightarrow> string \<Rightarrow> hook_request \<Rightarrow> ('w, hook_upstream_error + http_answer) io" where
  "send_hook N what rq = io_bind (call_net N rq) (\<lambda>a. io_return (classify_answer what a))"

definition read_hook_json ::
    "libs \<Rightarrow> string \<Rightarrow> (json \<Rightarrow> 'a option) \<Rightarrow> http_answer \<Rightarrow> hook_upstream_error + 'a" where
  "read_hook_json L what f a = map_err (UpBody what) (answer_json L f a)"

definition ignore_not_found :: "hook_upstream_error + http_answer \<Rightarrow> hook_upstream_error + unit" where
  "ignore_not_found r = (case r of
     Inl e \<Rightarrow> if is_not_found e then Ok () else Err e
   | Inr a \<Rightarrow> Ok ())"

text \<open>\<open>tokio::join!\<close> and \<open>join_all\<close>: the calls are under way together. Each is one request, so what matters of their
  interleaving is the order in which the requests reach the network: they go by their \<open>rank\<close>, which may be
  anything. All of them are made, whatever becomes of the others; the results come in the order of the list.\<close>

fun run_each :: "(nat \<Rightarrow> ('w, 'a) io) \<Rightarrow> nat list \<Rightarrow> 'w net_state \<Rightarrow> (nat \<times> 'a option) list \<times> 'w net_state" where
  "run_each m [] s = ([], s)"
| "run_each m (i # order) s =
     (let (x, s1) = m i s; (xs, s2) = run_each m order s1 in ((i, x) # xs, s2))"

definition io_join :: "(nat \<Rightarrow> nat) \<Rightarrow> ('w, 'a) io list \<Rightarrow> ('w, 'a list) io" where
  "io_join rank ms s =
     (let (xs, s') = run_each ((!) ms) (sort_key rank [0..<length ms]) s
      in (those (map (\<lambda>i. Option.bind (map_of xs i) id) [0..<length ms]), s'))"

section \<open>Identities of Kratos\<close>

record credential =
  cred_identifiers :: "string list"
  cred_config :: json

record identity =
  ki_id :: uuid
  ki_schema :: string
  ki_state :: "string option"
  ki_traits :: json
  ki_addresses :: "(string \<times> bool) list"
  ki_public :: json
  ki_admin :: json
  ki_credentials :: "(string \<times> credential) list"

definition de_uuid :: "libs \<Rightarrow> json option \<Rightarrow> uuid option" where
  "de_uuid L v = Option.bind (de_string v) (parse_uuid L)"

definition de_address :: "json \<Rightarrow> (string \<times> bool) option" where
  "de_address j = Option.bind (struct_fields_default 1 [''value'', ''verified''] j) (\<lambda>field.
     Option.bind (de_string (field ''value'')) (\<lambda>v.
     Option.bind (de_default False as_bool (field ''verified'')) (\<lambda>b. Some (v, b))))"

definition de_credential :: "json \<Rightarrow> credential option" where
  "de_credential j = Option.bind (struct_fields_default 0 [''identifiers'', ''config''] j) (\<lambda>field.
     Option.bind (de_default [] as_strings (field ''identifiers'')) (\<lambda>ids.
       Some \<lparr>cred_identifiers = ids, cred_config = (case field ''config'' of None \<Rightarrow> JNull | Some c \<Rightarrow> c)\<rparr>))"

text \<open>A \<open>HashMap\<close>: of two members of one name the last is kept.\<close>

fun de_map :: "(json \<Rightarrow> 'a option) \<Rightarrow> json \<Rightarrow> (string \<times> 'a) list option" where
  "de_map f (JObj kvs) = those (map (\<lambda>(k, v). map_option (Pair k) (f v)) (rev kvs))"
| "de_map f _ = None"

definition de_array :: "(json \<Rightarrow> 'a option) \<Rightarrow> json \<Rightarrow> 'a list option" where
  "de_array f j = Option.bind (as_array j) (\<lambda>xs. those (map f xs))"

definition de_value :: "json option \<Rightarrow> json" where
  "de_value v = (case v of None \<Rightarrow> JNull | Some j \<Rightarrow> j)"

definition de_identity :: "libs \<Rightarrow> json \<Rightarrow> identity option" where
  "de_identity L j =
     Option.bind (struct_fields_default 2 [''id'', ''schema_id'', ''state'', ''traits'', ''verifiable_addresses'',
        ''metadata_public'', ''metadata_admin'', ''credentials''] j) (\<lambda>field.
     Option.bind (de_uuid L (field ''id'')) (\<lambda>i.
     Option.bind (de_string (field ''schema_id'')) (\<lambda>schema.
     Option.bind (de_opt as_str (field ''state'')) (\<lambda>st.
     Option.bind (de_default [] (de_array de_address) (field ''verifiable_addresses'')) (\<lambda>addresses.
     Option.bind (de_default [] (de_map de_credential) (field ''credentials'')) (\<lambda>creds.
       Some \<lparr>ki_id = i, ki_schema = schema, ki_state = st, ki_traits = de_value (field ''traits''),
         ki_addresses = addresses, ki_public = de_value (field ''metadata_public''),
         ki_admin = de_value (field ''metadata_admin''), ki_credentials = creds\<rparr>))))))"

definition is_active :: "identity \<Rightarrow> bool" where
  "is_active k \<longleftrightarrow> ki_state k = Some ''active''"

definition has_credential :: "identity \<Rightarrow> string \<Rightarrow> bool" where
  "has_credential k type \<longleftrightarrow> map_of (ki_credentials k) type \<noteq> None"

definition email_of :: "identity \<Rightarrow> string option" where
  "email_of k = Option.bind (json_get (ki_traits k) ''email'') as_str"

definition email_verified :: "identity \<Rightarrow> bool" where
  "email_verified k = (case email_of k of
     None \<Rightarrow> False
   | Some email \<Rightarrow> list_ex (\<lambda>(value, verified). verified \<and> eq_ignore_ascii_case value email) (ki_addresses k))"

definition oidc_access_token :: "identity \<Rightarrow> string \<Rightarrow> string option" where
  "oidc_access_token k provider =
     Option.bind (map_of (ki_credentials k) ''oidc'') (\<lambda>c.
     Option.bind (Option.bind (json_get (cred_config c) ''providers'') as_array) (\<lambda>entries.
     Option.bind (find (\<lambda>entry. Option.bind (json_get entry ''provider'') as_str = Some provider) entries) (\<lambda>entry.
     Option.bind (Option.bind (json_get entry ''initial_access_token'') as_str) (\<lambda>token.
       opt_filter (\<lambda>t. t \<noteq> []) (Some token)))))"

definition oidc_identifiers :: "identity \<Rightarrow> string list" where
  "oidc_identifiers k =
     (case map_of (ki_credentials k) ''oidc'' of None \<Rightarrow> [] | Some c \<Rightarrow> cred_identifiers c)"

definition with_password :: "identity \<Rightarrow> string \<Rightarrow> json" where
  "with_password k password = JObj
     ([(''schema_id'', JStr (ki_schema k)), (''state'', JStr ''active''), (''traits'', ki_traits k),
       (''credentials'', JObj [(''password'', JObj [(''config'', JObj [(''password'', JStr password)])])])] @
      filter (\<lambda>(key, value). value \<noteq> JNull)
        [(''metadata_public'', ki_public k), (''metadata_admin'', ki_admin k)])"

definition PURGED_CREDENTIAL_TYPES :: "string list" where
  "PURGED_CREDENTIAL_TYPES = [''webauthn'', ''passkey'', ''totp'', ''lookup_secret'']"

section \<open>Kratos' admin API\<close>

definition hook_get :: "string \<Rightarrow> (string \<times> string) list \<Rightarrow> hook_request" where
  "hook_get u query = \<lparr>hr_method = ''GET'', hr_url = u, hr_query = query, hr_bearer = None, hr_json = None\<rparr>"

definition hook_delete :: "string \<Rightarrow> (string \<times> string) list \<Rightarrow> hook_request" where
  "hook_delete u query = \<lparr>hr_method = ''DELETE'', hr_url = u, hr_query = query, hr_bearer = None, hr_json = None\<rparr>"

definition identity_url :: "hook_libs \<Rightarrow> string \<Rightarrow> uuid \<Rightarrow> string" where
  "identity_url H base i = base @ ''/admin/identities/'' @ uuid_text H i"

definition get_identity ::
    "libs \<Rightarrow> hook_libs \<Rightarrow> 'w net \<Rightarrow> string \<Rightarrow> uuid \<Rightarrow> bool \<Rightarrow> ('w, hook_upstream_error + identity) io" where
  "get_identity L H N base i include_oidc =
     io_try (send_hook N ''kratos get identity''
        (hook_get (identity_url H base i) (if include_oidc then [(''include_credential'', ''oidc'')] else [])))
      (\<lambda>a. io_return (read_hook_json L ''kratos get identity'' (de_identity L) a))"

definition password_request :: "hook_libs \<Rightarrow> string \<Rightarrow> identity \<Rightarrow> string \<Rightarrow> hook_request" where
  "password_request H base k password =
     \<lparr>hr_method = ''PUT'', hr_url = identity_url H base (ki_id k), hr_query = [], hr_bearer = None,
       hr_json = Some (with_password k password)\<rparr>"

text \<open>\<open>password\<close> is the random one.\<close>

definition scramble_password ::
    "libs \<Rightarrow> hook_libs \<Rightarrow> 'w net \<Rightarrow> string \<Rightarrow> uuid \<Rightarrow> string \<Rightarrow> ('w, hook_upstream_error + unit) io" where
  "scramble_password L H N base i password =
     io_try (get_identity L H N base i False) (\<lambda>k.
       if \<not> is_active k then io_return (Err (UpInactive ''kratos replace password''))
       else io_try (send_hook N ''kratos replace password'' (password_request H base k password))
            (\<lambda>a. io_return (Ok ())))"

definition unlink_request :: "hook_libs \<Rightarrow> string \<Rightarrow> uuid \<Rightarrow> string \<Rightarrow> hook_request" where
  "unlink_request H base i identifier =
     hook_delete (identity_url H base i @ ''/credentials/oidc'') [(''identifier'', identifier)]"

definition delete_oidc_link ::
    "hook_libs \<Rightarrow> 'w net \<Rightarrow> string \<Rightarrow> uuid \<Rightarrow> string \<Rightarrow> ('w, hook_upstream_error + unit) io" where
  "delete_oidc_link H N base i identifier =
     io_bind (send_hook N ''kratos delete oidc link'' (unlink_request H base i identifier))
      (\<lambda>r. io_return (ignore_not_found r))"

definition passkey_patch :: json where
  "passkey_patch = JArr [JObj [(''op'', JStr ''remove''), (''path'', JStr ''/credentials/passkey'')]]"

definition passkey_request :: "hook_libs \<Rightarrow> string \<Rightarrow> uuid \<Rightarrow> hook_request" where
  "passkey_request H base i = \<lparr>hr_method = ''PATCH'', hr_url = identity_url H base i, hr_query = [],
     hr_bearer = None, hr_json = Some passkey_patch\<rparr>"

definition credential_request :: "hook_libs \<Rightarrow> string \<Rightarrow> uuid \<Rightarrow> string \<Rightarrow> hook_request" where
  "credential_request H base i type = hook_delete (identity_url H base i @ ''/credentials/'' @ type) []"

definition delete_credential ::
    "libs \<Rightarrow> hook_libs \<Rightarrow> 'w net \<Rightarrow> string \<Rightarrow> uuid \<Rightarrow> string \<Rightarrow> ('w, hook_upstream_error + unit) io" where
  "delete_credential L H N base i type =
     (let delete = (\<lambda>rq. io_bind (send_hook N ''kratos delete credential'' rq) (\<lambda>r. io_return (ignore_not_found r)))
      in if type = ''passkey'' then
           io_try (get_identity L H N base i False) (\<lambda>k.
             if \<not> has_credential k ''passkey'' then io_return (Ok ())
             else delete (passkey_request H base i))
         else delete (credential_request H base i type))"

definition de_session_id :: "libs \<Rightarrow> json \<Rightarrow> uuid option" where
  "de_session_id L j = Option.bind (struct_fields [''id''] j) (\<lambda>field. de_uuid L (field ''id''))"

definition list_sessions_request :: "hook_libs \<Rightarrow> string \<Rightarrow> uuid \<Rightarrow> hook_request" where
  "list_sessions_request H base i =
     hook_get (identity_url H base i @ ''/sessions'') [(''active'', ''true''), (''page_size'', ''250'')]"

definition active_sessions ::
    "libs \<Rightarrow> hook_libs \<Rightarrow> 'w net \<Rightarrow> string \<Rightarrow> uuid \<Rightarrow> ('w, hook_upstream_error + uuid list) io" where
  "active_sessions L H N base i =
     io_try (send_hook N ''kratos list sessions'' (list_sessions_request H base i))
      (\<lambda>a. io_return (read_hook_json L ''kratos list sessions'' (de_array (de_session_id L)) a))"

definition revoke_kratos_session ::
    "hook_libs \<Rightarrow> 'w net \<Rightarrow> string \<Rightarrow> uuid \<Rightarrow> ('w, hook_upstream_error + unit) io" where
  "revoke_kratos_session H N base session_id =
     io_bind (send_hook N ''kratos revoke session'' (hook_delete (base @ ''/admin/sessions/'' @ uuid_text H session_id) []))
      (\<lambda>r. io_return (ignore_not_found r))"

definition all_sessions_request :: "hook_libs \<Rightarrow> string \<Rightarrow> uuid \<Rightarrow> hook_request" where
  "all_sessions_request H base i = hook_delete (identity_url H base i @ ''/sessions'') []"

definition revoke_all_sessions ::
    "hook_libs \<Rightarrow> 'w net \<Rightarrow> string \<Rightarrow> uuid \<Rightarrow> ('w, hook_upstream_error + unit) io" where
  "revoke_all_sessions H N base i =
     io_bind (send_hook N ''kratos revoke sessions'' (all_sessions_request H base i))
      (\<lambda>r. io_return (ignore_not_found r))"

definition delete_identity_request :: "hook_libs \<Rightarrow> string \<Rightarrow> uuid \<Rightarrow> hook_request" where
  "delete_identity_request H base i = hook_delete (identity_url H base i) []"

definition kratos_delete_identity ::
    "hook_libs \<Rightarrow> 'w net \<Rightarrow> string \<Rightarrow> uuid \<Rightarrow> ('w, hook_upstream_error + unit) io" where
  "kratos_delete_identity H N base i =
     io_bind (send_hook N ''kratos delete identity'' (delete_identity_request H base i))
      (\<lambda>r. io_return (ignore_not_found r))"

section \<open>Hydra's admin API and bff's internal listener\<close>

definition consent_sessions_request :: "hook_libs \<Rightarrow> string \<Rightarrow> uuid \<Rightarrow> hook_request" where
  "consent_sessions_request H base subject =
     hook_delete (base @ ''/admin/oauth2/auth/sessions/consent'') [(''subject'', uuid_text H subject), (''all'', ''true'')]"

definition login_sessions_request :: "hook_libs \<Rightarrow> string \<Rightarrow> uuid \<Rightarrow> hook_request" where
  "login_sessions_request H base subject =
     hook_delete (base @ ''/admin/oauth2/auth/sessions/login'') [(''subject'', uuid_text H subject)]"

definition bff_revoke_request :: "hook_libs \<Rightarrow> string \<Rightarrow> string \<Rightarrow> uuid \<Rightarrow> hook_request" where
  "bff_revoke_request H base key sub =
     \<lparr>hr_method = ''POST'', hr_url = base @ ''/internal/revoke'', hr_query = [], hr_bearer = Some key,
      hr_json = Some (JObj [(''sub'', JStr (uuid_text H sub))])\<rparr>"

definition send_and_forget :: "'w net \<Rightarrow> string \<Rightarrow> hook_request \<Rightarrow> ('w, hook_upstream_error + unit) io" where
  "send_and_forget N what rq = io_try (send_hook N what rq) (\<lambda>a. io_return (Ok ()))"

definition revoke_consent_sessions ::
    "hook_libs \<Rightarrow> 'w net \<Rightarrow> string \<Rightarrow> uuid \<Rightarrow> ('w, hook_upstream_error + unit) io" where
  "revoke_consent_sessions H N base subject =
     send_and_forget N ''hydra revoke consent sessions'' (consent_sessions_request H base subject)"

definition revoke_login_sessions ::
    "hook_libs \<Rightarrow> 'w net \<Rightarrow> string \<Rightarrow> uuid \<Rightarrow> ('w, hook_upstream_error + unit) io" where
  "revoke_login_sessions H N base subject =
     send_and_forget N ''hydra revoke login sessions'' (login_sessions_request H base subject)"

definition bff_revoke ::
    "hook_libs \<Rightarrow> 'w net \<Rightarrow> string \<Rightarrow> string \<Rightarrow> uuid \<Rightarrow> ('w, hook_upstream_error + unit) io" where
  "bff_revoke H N base key sub = send_and_forget N ''bff internal revoke'' (bff_revoke_request H base key sub)"

section \<open>Webhooks\<close>

definition MAX_RESPONSE_BYTES :: nat where "MAX_RESPONSE_BYTES = 1024 * 1024"

datatype webhook_error =
    WhRequest string string
  | WhStatus string nat
  | WhBody string string

fun is_refusal :: "webhook_error \<Rightarrow> bool" where
  "is_refusal (WhStatus what status) = (status = 400 \<or> status = 403 \<or> status = 422)"
| "is_refusal _ = False"

datatype read_error = TooLarge | ReadFailed string

text \<open>The loop over the chunks of a body; a chunk that cannot be read is \<open>Inl\<close> the cause.\<close>

fun read_chunks :: "string \<Rightarrow> (string + string) list \<Rightarrow> read_error + string" where
  "read_chunks body [] = Ok body"
| "read_chunks body (Inl cause # chunks) = Err (ReadFailed cause)"
| "read_chunks body (Inr chunk # chunks) =
     (if MAX_RESPONSE_BYTES < length body + length chunk then Err TooLarge
      else read_chunks (body @ chunk) chunks)"

definition body_chunks :: "http_answer \<Rightarrow> (string + string) list" where
  "body_chunks a = [ha_body a]"

definition read_limited :: "hook_libs \<Rightarrow> http_answer \<Rightarrow> read_error + string" where
  "read_limited H a =
     (if is_some_and (\<lambda>n. MAX_RESPONSE_BYTES < n) (content_length H a) then Err TooLarge
      else read_chunks [] (body_chunks a))"

record webhook_handler =
  wh_url :: string
  wh_bearer :: "string option"

definition webhook_request :: "webhook_handler \<Rightarrow> json \<Rightarrow> hook_request" where
  "webhook_request h payload = \<lparr>hr_method = ''POST'', hr_url = wh_url h, hr_query = [],
     hr_bearer = wh_bearer h, hr_json = Some payload\<rparr>"

definition webhook_post ::
    "'w net \<Rightarrow> webhook_handler \<Rightarrow> string \<Rightarrow> json \<Rightarrow> ('w, webhook_error + http_answer) io" where
  "webhook_post N h what payload = io_bind (call_net N (webhook_request h payload)) (\<lambda>a. io_return (case a of
     Inl cause \<Rightarrow> Err (WhRequest what cause)
   | Inr r \<Rightarrow> if is_success (ha_status r) then Ok r else Err (WhStatus what (ha_status r))))"

definition webhook_json :: "libs \<Rightarrow> hook_libs \<Rightarrow> string \<Rightarrow> http_answer \<Rightarrow> webhook_error + json" where
  "webhook_json L H what a = (case read_limited H a of
     Inl TooLarge \<Rightarrow> Err (WhBody what ''an answer within the size limit'')
   | Inl (ReadFailed cause) \<Rightarrow> Err (WhRequest what (''reading the answer failed: '' @ cause))
   | Inr bytes \<Rightarrow> ok_or (json_read L bytes) (WhBody what ''valid JSON''))"

definition login_claims_payload :: "hook_libs \<Rightarrow> uuid \<Rightarrow> string \<Rightarrow> bool \<Rightarrow> string \<Rightarrow> string list \<Rightarrow> json" where
  "login_claims_payload H uid email verified client scopes = JObj
     [(''user_id'', JStr (uuid_text H uid)), (''email'', JStr email), (''email_verified'', JBool verified),
      (''client_id'', JStr client), (''scopes'', JArr (map JStr scopes))]"

definition login_claims ::
    "libs \<Rightarrow> hook_libs \<Rightarrow> 'w net \<Rightarrow> webhook_handler \<Rightarrow> uuid \<Rightarrow> string \<Rightarrow> bool \<Rightarrow> string \<Rightarrow> string list
      \<Rightarrow> ('w, webhook_error + (string \<times> json) list) io" where
  "login_claims L H N h uid email verified client scopes =
     io_try (webhook_post N h ''login-claims'' (login_claims_payload H uid email verified client scopes)) (\<lambda>a.
       io_return (case webhook_json L H ''login-claims'' a of
         Inl e \<Rightarrow> Err e
       | Inr (JObj claims) \<Rightarrow> Ok claims
       | Inr _ \<Rightarrow> Err (WhBody ''login-claims'' ''a JSON object'')))"

definition registration_payload :: "hook_libs \<Rightarrow> uuid \<Rightarrow> string \<Rightarrow> bool \<Rightarrow> (string \<times> string) list \<Rightarrow> json" where
  "registration_payload H uid email verified extra = JObj
     [(''user_id'', JStr (uuid_text H uid)), (''email'', JStr email), (''email_verified'', JBool verified),
      (''fields'', JObj (map (\<lambda>(k, v). (k, JStr v)) extra))]"

definition webhook_registration ::
    "hook_libs \<Rightarrow> 'w net \<Rightarrow> webhook_handler \<Rightarrow> uuid \<Rightarrow> string \<Rightarrow> bool \<Rightarrow> (string \<times> string) list
      \<Rightarrow> ('w, webhook_error + unit) io" where
  "webhook_registration H N h uid email verified extra =
     io_try (webhook_post N h ''registration'' (registration_payload H uid email verified extra)) (\<lambda>a. io_return (Ok ()))"

definition webhook_email_verified ::
    "hook_libs \<Rightarrow> 'w net \<Rightarrow> webhook_handler \<Rightarrow> uuid \<Rightarrow> string \<Rightarrow> ('w, webhook_error + unit) io" where
  "webhook_email_verified H N h uid email =
     io_try (webhook_post N h ''verification''
        (JObj [(''user_id'', JStr (uuid_text H uid)), (''email'', JStr email)])) (\<lambda>a. io_return (Ok ()))"

section \<open>Lemmas\<close>

text \<open>How a body is cut into chunks does not matter.\<close>

lemma read_chunks_concat:
  "read_chunks body (map Inr chunks) =
     (if length (concat chunks) + length body \<le> MAX_RESPONSE_BYTES \<or> chunks = [] then Ok (body @ concat chunks) else Err TooLarge)"
  by (induction chunks arbitrary: body) auto

text \<open>The calls of a computation: the log only grows, by the calls it made.\<close>

lemma io_simps [simp]:
  "io_return a s = (Some a, s)"
  by (simp add: io_return_def)

lemma io_bind_Some:
  "io_bind m f s = (Some b, s') \<longleftrightarrow> (\<exists>a s1. m s = (Some a, s1) \<and> f a s1 = (Some b, s'))"
  by (simp add: io_bind_def split: prod.splits option.splits)

lemma io_try_Some:
  "io_try m f s = (Some r, s') \<longleftrightarrow>
     (\<exists>e. m s = (Some (Inl e), s') \<and> r = Inl e) \<or> (\<exists>a s1. m s = (Some (Inr a), s1) \<and> f a s1 = (Some r, s'))"
proof (cases "m s")
  case (Pair x s1)
  show ?thesis
  proof (cases x)
    case None
    with Pair show ?thesis by (simp add: io_try_def io_bind_def)
  next
    case (Some y)
    with Pair show ?thesis by (cases y) (auto simp: io_try_def io_bind_def)
  qed
qed

lemma io_try_Ok:
  "io_try m f s = (Some (Inr b), s') \<longleftrightarrow> (\<exists>a s1. m s = (Some (Inr a), s1) \<and> f a s1 = (Some (Inr b), s'))"
  by (simp add: io_try_Some)

lemma case_Ok:
  "(case r of Inl e \<Rightarrow> Inl (f e) | Inr a \<Rightarrow> g a) = Inr b \<longleftrightarrow> (\<exists>a. r = Inr a \<and> g a = Inr b)"
  "Inr b = (case r of Inl e \<Rightarrow> Inl (f e) | Inr a \<Rightarrow> g a) \<longleftrightarrow> (\<exists>a. r = Inr a \<and> g a = Inr b)"
  by (cases r; auto)+

lemma call_net_Some:
  "call_net N rq s = (Some a, s') \<longleftrightarrow>
     (\<exists>w. N rq (ns_world s) = (Some a, w) \<and> s' = \<lparr>ns_world = w, ns_log = ns_log s @ [(rq, Some a)]\<rparr>)"
  by (auto simp: call_net_def split: prod.splits)

lemma send_hook_Some:
  "send_hook N what rq s = (Some r, s') \<longleftrightarrow>
     (\<exists>a. call_net N rq s = (Some a, s') \<and> r = classify_answer what a)"
  by (auto simp: send_hook_def io_bind_Some)

lemma classify_answer_Ok:
  "classify_answer what a = Inr r \<longleftrightarrow> a = Inr r \<and> is_success (ha_status r)"
  "Inr r = classify_answer what a \<longleftrightarrow> a = Inr r \<and> is_success (ha_status r)"
  by (auto simp: classify_answer_def split: sum.splits)

text \<open>\<open>calls m P\<close>: whatever the world answers, \<open>m\<close> only adds calls to the log, and when it returns, its
  result and the calls it made satisfy \<open>P\<close>. The rules follow the constructs.\<close>

definition calls :: "('w, 'a) io \<Rightarrow> ('a \<Rightarrow> (hook_request \<times> http_sent option) list \<Rightarrow> bool) \<Rightarrow> bool" where
  "calls m P \<longleftrightarrow> (\<forall>s r s'. m s = (r, s') \<longrightarrow> (\<exists>c. ns_log s' = ns_log s @ c \<and> (\<forall>x. r = Some x \<longrightarrow> P x c)))"

lemma callsD:
  "calls m P \<Longrightarrow> m s = (r, s') \<Longrightarrow> \<exists>c. ns_log s' = ns_log s @ c \<and> (\<forall>x. r = Some x \<longrightarrow> P x c)"
  by (simp add: calls_def)

lemma calls_return: "P x [] \<Longrightarrow> calls (io_return x) P"
  by (simp add: calls_def)

lemma calls_conseq:
  assumes "calls m Q" "\<And>x c. Q x c \<Longrightarrow> P x c"
  shows "calls m P"
  unfolding calls_def
proof (intro allI impI)
  fix s r s' assume "m s = (r, s')"
  from callsD [OF assms(1) this] obtain c where c: "ns_log s' = ns_log s @ c" "\<forall>x. r = Some x \<longrightarrow> Q x c" by (elim exE conjE)
  show "\<exists>c. ns_log s' = ns_log s @ c \<and> (\<forall>x. r = Some x \<longrightarrow> P x c)"
    using c assms(2) by (intro exI [of _ c]) simp
qed

lemma calls_bind:
  assumes "calls m Q" "\<And>x c. Q x c \<Longrightarrow> calls (f x) (\<lambda>y c'. P y (c @ c'))"
  shows "calls (io_bind m f) P"
  unfolding calls_def
proof (intro allI impI)
  fix s r s' assume run: "io_bind m f s = (r, s')"
  obtain x s1 where m: "m s = (x, s1)" by fastforce
  from callsD [OF assms(1) m] obtain c where c: "ns_log s1 = ns_log s @ c" "\<forall>a. x = Some a \<longrightarrow> Q a c" by blast
  show "\<exists>c. ns_log s' = ns_log s @ c \<and> (\<forall>x. r = Some x \<longrightarrow> P x c)"
  proof (cases x)
    case None
    with run m c show ?thesis by (auto simp: io_bind_def)
  next
    case (Some a)
    with c have "calls (f a) (\<lambda>y c'. P y (c @ c'))" by (intro assms(2)) simp
    moreover have "f a s1 = (r, s')" using run m Some by (simp add: io_bind_def)
    ultimately have "\<exists>c'. ns_log s' = ns_log s1 @ c' \<and> (\<forall>y. r = Some y \<longrightarrow> P y (c @ c'))" by (rule callsD)
    then obtain c' where "ns_log s' = ns_log s1 @ c'" "\<forall>y. r = Some y \<longrightarrow> P y (c @ c')" by (elim exE conjE)
    with c show ?thesis by auto
  qed
qed

lemma calls_try:
  assumes "calls m Q" "\<And>e c. Q (Inl e) c \<Longrightarrow> P (Inl e) c"
    and "\<And>x c. Q (Inr x) c \<Longrightarrow> calls (f x) (\<lambda>y c'. P y (c @ c'))"
  shows "calls (io_try m f) P"
  unfolding io_try_def using assms(2,3)
  by (intro calls_bind [OF assms(1)]) (auto split: sum.split intro: calls_return)

lemma calls_send: "calls (send_hook N what rq) (\<lambda>r c. \<exists>a. c = [(rq, Some a)] \<and> r = classify_answer what a)"
  by (auto simp: calls_def send_hook_def io_bind_def call_net_def split: prod.splits option.splits)

lemma calls_collect:
  fixes f :: "'a \<Rightarrow> ('w, 'b list) io"
  assumes "\<And>x. calls (f x) (Q x)"
  shows "calls (io_collect f xs) (\<lambda>r c. \<forall>x \<in> set xs. \<exists>r1 c1. set c1 \<subseteq> set c \<and> Q x r1 c1 \<and> (r = [] \<longrightarrow> r1 = []))"
proof (induction xs)
  case Nil
  show ?case by (simp add: calls_def)
next
  case (Cons x xs)
  show ?case unfolding io_collect.simps
  proof (rule calls_bind [OF assms], rule calls_bind [OF Cons.IH], rule calls_return)
    fix r r2 :: "'b list" and c c2
    assume "Q x r c" "\<forall>x \<in> set xs. \<exists>r1 c1. set c1 \<subseteq> set c2 \<and> Q x r1 c1 \<and> (r2 = [] \<longrightarrow> r1 = [])"
    then show "\<forall>x \<in> set (x # xs). \<exists>r1 c1. set c1 \<subseteq> set (c @ c2 @ []) \<and> Q x r1 c1 \<and> (r @ r2 = [] \<longrightarrow> r1 = [])"
      by (simp, blast)
  qed
qed

text \<open>Every order of the joined calls is the order of some rank.\<close>

lemma join_orders:
  assumes "distinct order" "set order = {..<n}"
  shows "\<exists>rank :: nat \<Rightarrow> nat. sort_key rank [0..<n] = order"
proof (intro exI)
  let ?rank = "\<lambda>i. the (map_of (zip order [0..<length order]) i)"
  have at: "?rank (order ! k) = k" if "k < length order" for k
    using that assms(1) by (simp add: map_of_zip_nth)
  have ranks: "map ?rank order = [0..<length order]"
    by (rule nth_equalityI) (simp_all add: at)
  have inj: "inj_on ?rank (set [0..<n])"
  proof (rule inj_onI)
    fix x y assume xy: "x \<in> set [0..<n]" "y \<in> set [0..<n]" "?rank x = ?rank y"
    then obtain j k where "j < length order" "x = order ! j" "k < length order" "y = order ! k"
      using assms(2) by (metis atLeast0LessThan in_set_conv_nth set_upt)
    with xy(3) at show "x = y" by simp
  qed
  have same: "mset [0..<n] = mset order"
    using assms by (metis set_eq_iff_mset_eq_distinct distinct_upt set_upt atLeast0LessThan)
  show "sort_key ?rank [0..<n] = order" by (rule sort_key_inj_key_eq [OF same inj]) (simp only: ranks sorted_upt)
qed

lemma calls_run_each:
  assumes "distinct order" "\<And>i. i \<in> set order \<Longrightarrow> calls (m i) (P i)" "run_each m order s = (xs, s')"
  shows "\<exists>cs. ns_log s' = ns_log s @ concat (map cs order) \<and>
    (\<forall>i \<in> set order. \<exists>x. map_of xs i = Some x \<and> (\<forall>a. x = Some a \<longrightarrow> P i a (cs i)))"
  using assms
proof (induction order arbitrary: s xs)
  case (Cons i order)
  obtain x s1 ys where m: "m i s = (x, s1)" and r: "run_each m order s1 = (ys, s')" "xs = (i, x) # ys"
    using Cons.prems(3) by (auto split: prod.splits)
  from Cons.IH [OF _ _ r(1)] Cons.prems(1,2) obtain cs where cs: "ns_log s' = ns_log s1 @ concat (map cs order)"
    "\<forall>i \<in> set order. \<exists>x. map_of ys i = Some x \<and> (\<forall>a. x = Some a \<longrightarrow> P i a (cs i))" by auto
  from callsD [OF Cons.prems(2) m] obtain c where c: "ns_log s1 = ns_log s @ c" "\<forall>a. x = Some a \<longrightarrow> P i a c" by auto
  have "concat (map (\<lambda>a. if a = i then c else cs a) order) = concat (map cs order)"
    using Cons.prems(1) by (intro arg_cong [where f = concat]) auto
  with cs c Cons.prems(1) r(2) show ?case by (intro exI [of _ "cs(i := c)"]) auto
qed simp

lemma those_map_Some: "those (map f xs) = Some ys \<Longrightarrow> length ys = length xs \<and> (\<forall>n < length xs. f (xs ! n) = Some (ys ! n))"
proof (induction xs arbitrary: ys)
  case (Cons x xs)
  then obtain y zs where "f x = Some y" "those (map f xs) = Some zs" "ys = y # zs" by (auto split: option.splits)
  with Cons.IH [of zs] show ?case by (auto simp: nth_Cons split: nat.splits)
qed simp

lemma calls_join:
  assumes "\<And>i. i < length ms \<Longrightarrow> calls (ms ! i) (P i)"
  shows "calls (io_join rank ms) (\<lambda>xs c. length xs = length ms \<and>
    (\<exists>cs. set c = (\<Union>i < length ms. set (cs i)) \<and> (\<forall>i < length ms. P i (xs ! i) (cs i))))"
  unfolding calls_def
proof (intro allI impI)
  fix s r s' assume run: "io_join rank ms s = (r, s')"
  let ?order = "sort_key rank [0..<length ms]"
  obtain xs where each: "run_each ((!) ms) ?order s = (xs, s')"
    and r: "r = those (map (\<lambda>i. Option.bind (map_of xs i) id) [0..<length ms])"
    using run by (auto simp: io_join_def split: prod.splits)
  have d: "distinct ?order" "set ?order = {..<length ms}" by (auto simp: distinct_sort)
  from calls_run_each [OF d(1) _ each, of P] assms d(2) obtain cs where
    cs: "ns_log s' = ns_log s @ concat (map cs ?order)"
      "\<forall>i < length ms. \<exists>x. map_of xs i = Some x \<and> (\<forall>a. x = Some a \<longrightarrow> P i a (cs i))" by auto
  have "P i (ys ! i) (cs i)" if "r = Some ys" "i < length ms" for ys i
  proof -
    from those_map_Some [OF that(1) [unfolded r]] that(2) have "Option.bind (map_of xs i) id = Some (ys ! i)" by simp
    with cs(2) that(2) show ?thesis by (auto simp: bind_eq_Some_conv)
  qed
  moreover have "length ys = length ms" if "r = Some ys" for ys
    using those_map_Some [OF that [unfolded r]] by simp
  moreover have "set (concat (map cs ?order)) = (\<Union>i < length ms. set (cs i))" using d(2) by simp
  ultimately show "\<exists>c. ns_log s' = ns_log s @ c \<and> (\<forall>ys. r = Some ys \<longrightarrow> length ys = length ms \<and>
      (\<exists>cs. set c = (\<Union>i < length ms. set (cs i)) \<and> (\<forall>i < length ms. P i (ys ! i) (cs i))))"
    using cs(1) by blast
qed

lemma calls_join_each:
  assumes "\<And>i. i < length ms \<Longrightarrow> calls (ms ! i) (P i)"
  shows "calls (io_join rank ms) (\<lambda>xs c. length xs = length ms \<and>
    (\<forall>i < length ms. \<exists>c1. set c1 \<subseteq> set c \<and> P i (xs ! i) c1))"
proof (rule calls_conseq [OF calls_join [where P = P, OF assms]])
  fix xs and c :: "(hook_request \<times> http_sent option) list"
  assume "length xs = length ms \<and> (\<exists>cs. set c = (\<Union>i < length ms. set (cs i)) \<and> (\<forall>i < length ms. P i (xs ! i) (cs i)))"
  then obtain cs where "length xs = length ms" "set c = (\<Union>i < length ms. set (cs i))" "\<forall>i < length ms. P i (xs ! i) (cs i)"
    by blast
  then show "length xs = length ms \<and> (\<forall>i < length ms. \<exists>c1. set c1 \<subseteq> set c \<and> P i (xs ! i) c1)"
    by (auto intro!: exI [of _ "cs _"])
qed

lemma join_returns:
  assumes "\<And>i s. i < length ms \<Longrightarrow> fst ((ms ! i) s) \<noteq> None"
  shows "fst (io_join rank ms s) \<noteq> None"
proof -
  have each: "\<forall>i \<in> set order. map_of (fst (run_each m order s)) i \<noteq> None \<and> map_of (fst (run_each m order s)) i \<noteq> Some None"
    if "\<And>i s. i \<in> set order \<Longrightarrow> fst (m i s) \<noteq> None" for m :: "nat \<Rightarrow> ('a, 'b) io" and order s
    using that
  proof (induction order arbitrary: s)
    case (Cons i order)
    obtain x s1 where m: "m i s = (x, s1)" by fastforce
    obtain ys s2 where ys: "run_each m order s1 = (ys, s2)" by fastforce
    have "\<forall>j \<in> set order. map_of ys j \<noteq> None \<and> map_of ys j \<noteq> Some None"
      using Cons.IH [of s1] Cons.prems ys by simp
    with Cons.prems [of i s] m ys show ?case by auto
  qed simp
  have some: "those (map f xs) \<noteq> None" if "\<forall>x \<in> set xs. f x \<noteq> None" for f :: "nat \<Rightarrow> 'b option" and xs
    using that by (induction xs) auto
  obtain xs s' where run: "run_each ((!) ms) (sort_key rank [0..<length ms]) s = (xs, s')" by fastforce
  have "\<forall>i \<in> set [0..<length ms]. Option.bind (map_of xs i) id \<noteq> None"
    using each [of "sort_key rank [0..<length ms]" "(!) ms" s] assms run by (auto simp: bind_eq_None_conv)
  from some [OF this] run show ?thesis by (simp add: io_join_def)
qed

text \<open>What the log shows of a request: an answer of success, or for a deletion that the thing was gone.\<close>

definition answered :: "(hook_request \<times> http_sent option) list \<Rightarrow> hook_request \<Rightarrow> (nat \<Rightarrow> bool) \<Rightarrow> bool" where
  "answered c rq p \<longleftrightarrow> (\<exists>a. (rq, Some (Inr a)) \<in> set c \<and> p (ha_status a))"

definition gone_status :: "nat \<Rightarrow> bool" where
  "gone_status n \<longleftrightarrow> is_success n \<or> n = 404"

lemma answered_mono: "answered c rq p \<Longrightarrow> set c \<subseteq> set c' \<Longrightarrow> answered c' rq p"
  unfolding answered_def by blast

lemma answered_mono': "answered c rq p \<Longrightarrow> answered (c @ d) rq p" "answered d rq p \<Longrightarrow> answered (c @ d) rq p"
  unfolding answered_def by auto

lemma ignore_not_found_Ok:
  "ignore_not_found (classify_answer what a) = Inr u \<Longrightarrow> \<exists>r. a = Inr r \<and> gone_status (ha_status r)"
  by (auto simp: ignore_not_found_def classify_answer_def gone_status_def split: sum.splits if_splits)

lemma calls_delete:
  "calls (io_bind (send_hook N what rq) (\<lambda>r. io_return (ignore_not_found r)))
     (\<lambda>r c. fst ` set c = {rq} \<and> (is_ok r \<longrightarrow> answered c rq gone_status))"
proof (rule calls_bind [OF calls_send], rule calls_return)
  fix r c assume "\<exists>a. c = [(rq, Some a)] \<and> r = classify_answer what a"
  then obtain a where a: "c = [(rq, Some a)]" "r = classify_answer what a" by blast
  then show "fst ` set (c @ []) = {rq} \<and> (is_ok (ignore_not_found r) \<longrightarrow> answered (c @ []) rq gone_status)"
    using ignore_not_found_Ok [of what a] by (cases "ignore_not_found r") (auto simp: answered_def)
qed

lemma calls_send_and_forget:
  "calls (send_and_forget N what rq) (\<lambda>r c. fst ` set c = {rq} \<and> (is_ok r \<longrightarrow> answered c rq is_success))"
  unfolding send_and_forget_def
  by (rule calls_try [OF calls_send])
    (auto simp: answered_def classify_answer_Ok intro!: calls_return)

lemma calls_get_identity:
  "calls (get_identity L H N base i b)
     (\<lambda>r c. \<forall>k. r = Inr k \<longrightarrow> (\<exists>a. c = [(hook_get (identity_url H base i)
        (if b then [(''include_credential'', ''oidc'')] else []), Some (Inr a))] \<and>
        is_success (ha_status a) \<and> answer_json L (de_identity L) a = Inr k))"
  unfolding get_identity_def
  by (rule calls_try [OF calls_send]) (auto simp: classify_answer_Ok read_hook_json_def intro!: calls_return)

end
