(* ===== verification/HooksApp.thy ===== *)
theory HooksApp
  imports HooksClients Cookie
begin

text \<open>
  What the routes of hooks share: the state (\<open>hooks/src/server/mod.rs\<close>), the check of the API key
  (\<open>server/auth.rs\<close>) and the error body for Kratos (\<open>server/api/mod.rs\<close>). The key of a client is
  held as its digest only.
\<close>

section \<open>The state\<close>

record profile_api =
  pa_url :: string
  pa_claims :: "(string \<times> string) list"
  pa_scope :: "string option"
  pa_required :: bool

record webhook_config =
  wc_url :: string
  wc_timeout_secs :: "64 word"
  wc_bearer_token :: "string option"

record hooks_config =
  hk_port :: "16 word"
  hk_api_key :: string
  hk_kratos_admin_url :: string
  hk_hydra_admin_url :: string
  hk_bff_internal_url :: string
  hk_bff_internal_api_key :: string
  hk_registration_handler :: "webhook_config option"
  hk_login_claims_handler :: "webhook_config option"
  hk_verification_handler :: "webhook_config option"
  hk_profile_apis :: "(string \<times> profile_api list) list"
  hk_require_verified_email :: bool
  hk_request_timeout_secs :: "64 word"
  hk_upstream_timeout_secs :: "64 word"

record hooks_state =
  hs_api_key_digest :: "8 word list"
  hs_kratos :: string
  hs_hydra :: string
  hs_bff :: string
  hs_bff_key :: string
  hs_registration :: "webhook_handler option"
  hs_login_claims :: "webhook_handler option"
  hs_verification :: "webhook_handler option"
  hs_profile_apis :: "(string \<times> profile_api list) list"
  hs_request_timeout :: duration
  hs_require_verified_email :: bool

definition require_api_keys :: "hooks_config \<Rightarrow> string + unit" where
  "require_api_keys c =
     (if hk_api_key c = [] then Err ''WA_HOOKS_API_KEY must be set''
      else if hk_bff_internal_api_key c = [] then Err ''WA_BFF_INTERNAL_API_KEY must be set''
      else Ok ())"

definition new_webhook_handler :: "webhook_config \<Rightarrow> webhook_handler" where
  "new_webhook_handler c = \<lparr>wh_url = wc_url c, wh_bearer = wc_bearer_token c\<rparr>"

text \<open>Building an HTTP client is the crate's and does not fail here.\<close>

definition new_hooks :: "libs \<Rightarrow> hooks_config \<Rightarrow> string + hooks_state" where
  "new_hooks L c =
     (case require_api_keys c of
        Inl e \<Rightarrow> Err e
      | Inr u \<Rightarrow> Ok \<lparr>hs_api_key_digest = sha256 L (hk_api_key c), hs_kratos = hk_kratos_admin_url c,
          hs_hydra = hk_hydra_admin_url c, hs_bff = hk_bff_internal_url c, hs_bff_key = hk_bff_internal_api_key c,
          hs_registration = map_option new_webhook_handler (hk_registration_handler c),
          hs_login_claims = map_option new_webhook_handler (hk_login_claims_handler c),
          hs_verification = map_option new_webhook_handler (hk_verification_handler c),
          hs_profile_apis = hk_profile_apis c, hs_request_timeout = seconds (uint (hk_request_timeout_secs c)),
          hs_require_verified_email = hk_require_verified_email c\<rparr>)"

section \<open>The API key\<close>

datatype api_key_error = Unauthorized

definition api_key_error_response :: "api_key_error \<Rightarrow> error_response" where
  "api_key_error_response e = (case e of
     Unauthorized \<Rightarrow> \<lparr>er_status = 401, er_reason = ''Unauthorized'', er_details = ''missing or invalid API key''\<rparr>)"

definition key_matches :: "libs \<Rightarrow> 8 word list \<Rightarrow> string \<Rightarrow> bool" where
  "key_matches L expected presented =
     (foldl (\<lambda>difference (a, b). or difference (xor a b)) (0 :: 8 word) (zip expected (sha256 L presented)) = 0)"

definition require_api_key :: "libs \<Rightarrow> hooks_state \<Rightarrow> headers \<Rightarrow> api_key_error + unit" where
  "require_api_key L s h =
     (case Option.bind (Option.bind (header_get h ''authorization'') (header_str L)) (strip_prefix ''Bearer '') of
        Some key \<Rightarrow> if key_matches L (hs_api_key_digest s) key then Ok () else Err Unauthorized
      | None \<Rightarrow> Err Unauthorized)"

text \<open>Only a key of the configured one's digest is let in, and it is never an empty one unless the
  digest is that of the empty text.\<close>

lemma require_api_key_sound:
  assumes "\<And>s. length (sha256 L s) = 32" "new_hooks L c = Inr s" "require_api_key L s h = Inr ()"
  shows "hk_api_key c \<noteq> [] \<and> (\<exists>key. Option.bind (header_get h ''authorization'') (header_str L) = Some (''Bearer '' @ key) \<and>
    sha256 L key = sha256 L (hk_api_key c))"
proof -
  obtain key where key: "Option.bind (header_get h ''authorization'') (header_str L) = Some (''Bearer '' @ key)"
    "key_matches L (hs_api_key_digest s) key"
    using assms(3) by (auto simp: require_api_key_def strip_prefix_Some split: option.splits if_splits bind_splits)
  have s: "hk_api_key c \<noteq> []" "hs_api_key_digest s = sha256 L (hk_api_key c)"
    using assms(2) by (auto simp: new_hooks_def require_api_keys_def split: sum.splits if_splits)
  have "sha256 L (hk_api_key c) = sha256 L key"
    using key(2) assms(1) by (simp add: key_matches_def s fold_diff_0 zip_all_eq)
  with key(1) s(1) show ?thesis by auto
qed

section \<open>The error body for Kratos\<close>

definition MESSAGE_ID :: int where "MESSAGE_ID = 4000001"

definition kratos_hook_error :: "string \<Rightarrow> string \<Rightarrow> json" where
  "kratos_hook_error details reason = JObj
     [(''reason'', JStr reason), (''details'', JStr details),
      (''messages'', JArr [JObj [(''messages'', JArr [JObj
         [(''id'', JInt MESSAGE_ID), (''text'', JStr details), (''type'', JStr ''error'')]])]])]"

section \<open>An instance to run examples with\<close>

definition demo_hook_libs :: hook_libs where
  "demo_hook_libs = \<lparr>uuid_text = (\<lambda>u. ''u''), status_text = (\<lambda>n. ''status''), json_pointer = json_get,
     content_length = (\<lambda>a. None), host_text = (\<lambda>u. ''host''), duration_text = (\<lambda>d. ''long''),
     join_rank = (\<lambda>i. 9 - i)\<rparr>"

text \<open>In the example, of three joined calls the last goes out first.\<close>

lemma demo_join:
  "join_rank H = join_rank demo_hook_libs \<Longrightarrow> io_join (join_rank H) [l, m, n] s =
     (case n s of (z, s1) \<Rightarrow> case m s1 of (y, s2) \<Rightarrow> case l s2 of (x, s3) \<Rightarrow> (those [x, y, z], s3))"
proof -
  assume rank: "join_rank H = join_rank demo_hook_libs"
  have upto: "[0..<length [l, m, n]] = [0, 1, 2]" by (simp add: upt_rec)
  have order: "sort_key (join_rank H) [0, 1, 2] = [2, 1, 0]" unfolding rank by (simp add: demo_hook_libs_def)
  show ?thesis unfolding io_join_def upto order by (simp split: prod.split option.split)
qed

definition demo_hooks_config :: hooks_config where
  "demo_hooks_config = \<lparr>hk_port = 1983, hk_api_key = ''key'', hk_kratos_admin_url = ''k'', hk_hydra_admin_url = ''h'',
     hk_bff_internal_url = ''b'', hk_bff_internal_api_key = ''bff key'', hk_registration_handler = None,
     hk_login_claims_handler = None, hk_verification_handler = None, hk_profile_apis = [],
     hk_require_verified_email = True, hk_request_timeout_secs = 30, hk_upstream_timeout_secs = 10\<rparr>"

definition demo_hooks :: hooks_state where
  "demo_hooks = \<lparr>hs_api_key_digest = [], hs_kratos = ''k'', hs_hydra = ''h'', hs_bff = ''b'', hs_bff_key = ''bff key'',
     hs_registration = None, hs_login_claims = None, hs_verification = None, hs_profile_apis = [],
     hs_request_timeout = seconds 30, hs_require_verified_email = True\<rparr>"

definition demo_identity :: json where
  "demo_identity = JObj [(''id'', JStr ''1''), (''schema_id'', JStr ''default''), (''state'', JStr ''active''),
     (''traits'', JObj [(''email'', JStr ''a'')]),
     (''verifiable_addresses'', JArr [JObj [(''value'', JStr ''a''), (''verified'', JBool True)]])]"

definition hook_demo_libs :: libs where
  "hook_demo_libs = demo_libs\<lparr>json_read := (\<lambda>t. if t = ''identity'' then Some demo_identity
     else if t = ''none'' then Some (JArr []) else None)\<rparr>"

text \<open>Kratos knows the identity and lists no session; every other request is answered 204.\<close>

definition demo_net :: "unit net" where
  "demo_net rq w = (Some (Inr (if hr_method rq = ''GET''
     then \<lparr>ha_status = 200, ha_headers = [], ha_body = Inr (if hr_query rq = [] \<or> length (hr_query rq) = 1
             then ''identity'' else ''none'')\<rparr>
     else \<lparr>ha_status = 204, ha_headers = [], ha_body = Inr ''''\<rparr>)), w)"

definition demo_start :: "unit net_state" where
  "demo_start = \<lparr>ns_world = (), ns_log = []\<rparr>"

definition demo_ki :: identity where
  "demo_ki = \<lparr>ki_id = word_of_nat 49, ki_schema = ''default'', ki_state = Some ''active'',
     ki_traits = JObj [(''email'', JStr ''a'')], ki_addresses = [(''a'', True)], ki_public = JNull, ki_admin = JNull,
     ki_credentials = []\<rparr>"

lemma demo_identity_read: "de_identity hook_demo_libs demo_identity = Some demo_ki"
  by (simp add: demo_identity_def demo_ki_def de_identity_def de_uuid_def de_string_def de_opt_def de_array_def
      de_address_def hook_demo_libs_def demo_libs_def byte_def de_value_def)

lemma demo_get_identity:
  "get_identity hook_demo_libs H demo_net base i b s =
     (Some (Inr demo_ki), s\<lparr>ns_log := ns_log s @ [(hook_get (identity_url H base i)
        (if b then [(''include_credential'', ''oidc'')] else []),
        Some (Inr \<lparr>ha_status = 200, ha_headers = [], ha_body = Inr ''identity''\<rparr>))]\<rparr>)"
  using demo_identity_read
  by (simp add: get_identity_def io_try_def io_bind_def send_hook_def call_net_def demo_net_def classify_answer_def
      read_hook_json_def answer_json_def is_success_def hook_get_def hook_demo_libs_def demo_identity_def)

end
