(* ===== verification/TokenHook.thy ===== *)
theory TokenHook
  imports HooksApp
begin

text \<open>
  The token hook (\<open>hooks/src/server/api/token_hook.rs\<close>): Hydra asks it for claims on every token it
  mints. Maps of claims are lists of members; \<open>insert\<close> replaces.
\<close>

definition RESERVED_CLAIM_NAMES :: "string list" where
  "RESERVED_CLAIM_NAMES = [''iss'', ''sub'', ''aud'', ''exp'', ''nbf'', ''iat'', ''jti'', ''email'',
     ''email_verified'', ''scp'', ''client_id'', ''ext'', ''sid'', ''nonce'', ''auth_time'', ''acr'', ''amr'',
     ''at_hash'', ''c_hash'', ''rat'', ''scope'', ''azp'', ''cnf'', ''act'', ''may_act'', ''typ'', ''token_use'']"

datatype token_hook_service_error =
    InvalidSubject
  | IdentityNotFound
  | IdentityLookupFailed hook_upstream_error
  | IdentityInactive
  | IdentityWithoutEmail
  | EmailNotVerified
  | DownstreamServiceFailed webhook_error
  | ReservedClaimOverridden string

record issued_claims =
  ic_access_token :: "(string \<times> json) list"
  ic_id_token :: "(string \<times> json) list"

definition claims_insert :: "(string \<times> json) list \<Rightarrow> string \<Rightarrow> json \<Rightarrow> (string \<times> json) list" where
  "claims_insert claims name v = filter (\<lambda>(n, _). n \<noteq> name) claims @ [(name, v)]"

definition reject_reserved :: "(string \<times> json) list \<Rightarrow> token_hook_service_error + unit" where
  "reject_reserved claims =
     (case find (\<lambda>key. list_ex (\<lambda>r. r = key) RESERVED_CLAIM_NAMES) (map fst claims) of
        Some reserved \<Rightarrow> Err (ReservedClaimOverridden reserved)
      | None \<Rightarrow> Ok ())"

definition handler_claims ::
    "libs \<Rightarrow> hook_libs \<Rightarrow> 'w net \<Rightarrow> hooks_state \<Rightarrow> uuid \<Rightarrow> string \<Rightarrow> bool \<Rightarrow> string \<Rightarrow> string list
      \<Rightarrow> ('w, token_hook_service_error + (string \<times> json) list) io" where
  "handler_claims L H N s uid email verified client scopes =
     (case hs_login_claims s of
        None \<Rightarrow> io_return (Ok [])
      | Some h \<Rightarrow> io_bind (login_claims L H N h uid email verified client scopes) (\<lambda>r. io_return (case r of
          Inl e \<Rightarrow> Err (DownstreamServiceFailed e)
        | Inr claims \<Rightarrow> (case reject_reserved claims of Inl e \<Rightarrow> Err e | Inr u \<Rightarrow> Ok claims))))"

definition with_email :: "string \<Rightarrow> bool \<Rightarrow> (string \<times> json) list \<Rightarrow> (string \<times> json) list" where
  "with_email email verified claims =
     claims_insert (claims_insert claims ''email'' (JStr email)) ''email_verified'' (JBool verified)"

definition lookup_identity ::
    "libs \<Rightarrow> hook_libs \<Rightarrow> 'w net \<Rightarrow> hooks_state \<Rightarrow> uuid \<Rightarrow> ('w, token_hook_service_error + identity) io" where
  "lookup_identity L H N s uid =
     io_bind (get_identity L H N (hs_kratos s) uid False) (\<lambda>r. io_return
       (map_err (\<lambda>e. if is_not_found e then IdentityNotFound else IdentityLookupFailed e) r))"

definition issue_claims ::
    "libs \<Rightarrow> hook_libs \<Rightarrow> 'w net \<Rightarrow> hooks_state \<Rightarrow> string \<Rightarrow> string \<Rightarrow> string list
      \<Rightarrow> ('w, token_hook_service_error + issued_claims) io" where
  "issue_claims L H N s subject client scopes =
     (case parse_uuid L subject of
        None \<Rightarrow> io_return (Err InvalidSubject)
      | Some uid \<Rightarrow> io_try (lookup_identity L H N s uid) (\<lambda>k.
          if \<not> is_active k then io_return (Err IdentityInactive)
          else (case email_of k of
             None \<Rightarrow> io_return (Err IdentityWithoutEmail)
           | Some email \<Rightarrow>
               if hs_require_verified_email s \<and> \<not> email_verified k then io_return (Err EmailNotVerified)
               else io_try (handler_claims L H N s uid email (email_verified k) client scopes) (\<lambda>access.
                 io_return (Ok \<lparr>ic_access_token = with_email email (email_verified k) access,
                   ic_id_token = with_email email (email_verified k) []\<rparr>)))))"

section \<open>The controller\<close>

record token_hook_request =
  th_subject :: string
  th_claims_sub :: string
  th_client_id :: string
  th_requested_scopes :: "string list"

definition de_hook_id_token :: "json \<Rightarrow> (string \<times> string) option" where
  "de_hook_id_token j = Option.bind (struct_fields_default 0 [''subject'', ''id_token_claims''] j) (\<lambda>field.
     Option.bind (de_default [] as_str (field ''subject'')) (\<lambda>subject.
     Option.bind (de_default [] (\<lambda>c. Option.bind (struct_fields_default 0 [''sub''] c)
        (\<lambda>field. de_default [] as_str (field ''sub''))) (field ''id_token_claims'')) (\<lambda>sub. Some (subject, sub))))"

definition de_token_hook_request :: "json \<Rightarrow> token_hook_request option" where
  "de_token_hook_request j = Option.bind (struct_fields [''session'', ''request''] j) (\<lambda>field.
     Option.bind (field ''session'') (\<lambda>session. Option.bind (field ''request'') (\<lambda>grant.
     Option.bind (Option.bind (struct_fields_default 0 [''id_token''] session)
        (\<lambda>f. de_default ([], []) de_hook_id_token (f ''id_token''))) (\<lambda>(subject, sub).
     Option.bind (struct_fields_default 1 [''client_id'', ''requested_scopes''] grant) (\<lambda>g.
     Option.bind (de_string (g ''client_id'')) (\<lambda>client.
     Option.bind (de_default [] as_strings (g ''requested_scopes'')) (\<lambda>scopes.
       Some \<lparr>th_subject = subject, th_claims_sub = sub, th_client_id = client, th_requested_scopes = scopes\<rparr>)))))))"

definition hook_subject :: "token_hook_request \<Rightarrow> string" where
  "hook_subject r = (if th_subject r = [] then th_claims_sub r else th_subject r)"

definition token_hook_status :: "token_hook_service_error \<Rightarrow> error_response" where
  "token_hook_status e = (case e of
     InvalidSubject \<Rightarrow> \<lparr>er_status = 403, er_reason = ''InvalidSubject'', er_details = ''invalid subject''\<rparr>
   | IdentityNotFound \<Rightarrow> \<lparr>er_status = 403, er_reason = ''IdentityNotFound'', er_details = ''unknown identity''\<rparr>
   | IdentityLookupFailed _ \<Rightarrow>
       \<lparr>er_status = 502, er_reason = ''IdentityLookupFailed'', er_details = ''identity lookup failed''\<rparr>
   | IdentityInactive \<Rightarrow>
       \<lparr>er_status = 403, er_reason = ''IdentityInactive'', er_details = ''identity is not active''\<rparr>
   | IdentityWithoutEmail \<Rightarrow>
       \<lparr>er_status = 403, er_reason = ''IdentityWithoutEmail'', er_details = ''identity has no email''\<rparr>
   | EmailNotVerified \<Rightarrow>
       \<lparr>er_status = 403, er_reason = ''EmailNotVerified'', er_details = ''email is not verified''\<rparr>
   | DownstreamServiceFailed _ \<Rightarrow> \<lparr>er_status = 502, er_reason = ''DownstreamServiceFailed'',
       er_details = ''downstream login-claims handler failed''\<rparr>
   | ReservedClaimOverridden _ \<Rightarrow> \<lparr>er_status = 403, er_reason = ''ReservedClaimOverridden'',
       er_details = ''downstream login-claims handler returned a reserved claim name''\<rparr>)"

definition token_hook_response :: "issued_claims \<Rightarrow> json" where
  "token_hook_response ic = JObj [(''session'', JObj
     [(''access_token'', JObj (ic_access_token ic)), (''id_token'', JObj (ic_id_token ic))])]"

definition token_hook ::
    "libs \<Rightarrow> hook_libs \<Rightarrow> 'w net \<Rightarrow> hooks_state \<Rightarrow> token_hook_request \<Rightarrow> ('w, error_response + json) io" where
  "token_hook L H N s req =
     io_bind (issue_claims L H N s (hook_subject req) (th_client_id req) (th_requested_scopes req)) (\<lambda>r. io_return (case r of
       Inl e \<Rightarrow> Err (token_hook_status e)
     | Inr ic \<Rightarrow> Ok (token_hook_response ic)))"

section \<open>Lemmas\<close>

lemma map_of_filter_name:
  "map_of (filter (\<lambda>(n, _). n \<noteq> name) kvs) k = (if k = name then None else map_of kvs k)"
  by (induction kvs) auto

lemma map_of_rev_filter:
  "map_of (rev (filter (\<lambda>(n, _). n \<noteq> name) kvs)) k = (if k = name then None else map_of (rev kvs) k)"
  unfolding rev_filter by (rule map_of_filter_name)

lemma claims_object_Ok:
  "(case j of JObj kvs \<Rightarrow> Inr kvs | _ \<Rightarrow> Inl e) = Inr claims \<longleftrightarrow> j = JObj claims"
  by (cases j) auto

lemma claims_insert_get [simp]:
  "json_get (JObj (claims_insert kvs name v)) k = (if k = name then Some v else json_get (JObj kvs) k)"
  by (simp add: claims_insert_def map_of_rev_filter)

lemma with_email_get:
  "json_get (JObj (with_email e b kvs)) ''email'' = Some (JStr e)"
  "json_get (JObj (with_email e b kvs)) ''email_verified'' = Some (JBool b)"
  "k \<notin> {''email'', ''email_verified''} \<Longrightarrow> json_get (JObj (with_email e b kvs)) k = json_get (JObj kvs) k"
  by (simp_all add: with_email_def del: json_get.simps)

lemma reject_reserved_ok:
  "reject_reserved claims = Inr u \<Longrightarrow> name \<in> set RESERVED_CLAIM_NAMES \<Longrightarrow> json_get (JObj claims) name = None"
proof -
  assume a: "reject_reserved claims = Inr u" "name \<in> set RESERVED_CLAIM_NAMES"
  then have "name \<notin> fst ` set claims"
    by (auto simp: reject_reserved_def find_None_iff list_ex_iff split: option.splits)
  then show ?thesis by (simp add: map_of_eq_None_iff)
qed

lemma get_identity_Ok:
  assumes "get_identity L H N base i oidc s = (Some (Inr k), s')"
  shows "\<exists>a. ns_log s' = ns_log s @ [(hook_get (identity_url H base i)
      (if oidc then [(''include_credential'', ''oidc'')] else []), Some (Inr a))] \<and>
    is_success (ha_status a) \<and> answer_json L (de_identity L) a = Inr k"
  using assms
  by (auto simp: get_identity_def io_try_Ok send_hook_Some call_net_Some classify_answer_Ok read_hook_json_def)

lemma login_claims_Ok:
  assumes "login_claims L H N h uid email v client scopes s = (Some (Inr claims), s')"
  shows "\<exists>a. ns_log s' = ns_log s @ [(webhook_request h (login_claims_payload H uid email v client scopes), Some (Inr a))] \<and>
    is_success (ha_status a) \<and> webhook_json L H ''login-claims'' a = Inr (JObj claims)"
  using assms
proof -
  obtain r a where post: "webhook_post N h ''login-claims'' (login_claims_payload H uid email v client scopes) s = (Some (Inr a), s')"
    and read: "webhook_json L H ''login-claims'' a = Inr (JObj claims)"
    using assms by (auto simp: login_claims_def io_try_Ok case_Ok claims_object_Ok dest!: sym [of "Inr claims"])
  then show ?thesis
    by (auto simp: webhook_post_def io_bind_Some call_net_Some case_Ok split: if_splits)
qed

lemma handler_claims_Ok:
  assumes "handler_claims L H N s uid email v client scopes t = (Some (Inr claims), t')"
  shows "(\<forall>name \<in> set RESERVED_CLAIM_NAMES. json_get (JObj claims) name = None) \<and>
    (case hs_login_claims s of
       None \<Rightarrow> claims = [] \<and> t' = t
     | Some h \<Rightarrow> (\<exists>a. ns_log t' = ns_log t @ [(webhook_request h (login_claims_payload H uid email v client scopes), Some (Inr a))] \<and>
         is_success (ha_status a) \<and> webhook_json L H ''login-claims'' a = Inr (JObj claims)))"
proof (cases "hs_login_claims s")
  case None
  with assms show ?thesis by (simp add: handler_claims_def)
next
  case (Some h)
  with assms have l: "login_claims L H N h uid email v client scopes t = (Some (Inr claims), t')"
    and r: "reject_reserved claims = Inr ()"
    by (auto simp: handler_claims_def io_bind_Some case_Ok)
  from login_claims_Ok [OF l] reject_reserved_ok [OF r] Some show ?thesis by auto
qed

lemma issue_claims_Ok:
  assumes "issue_claims L H N s subject client scopes t = (Some (Inr ic), t')"
  shows "\<exists>uid k email t1 access. parse_uuid L subject = Some uid \<and>
    get_identity L H N (hs_kratos s) uid False t = (Some (Inr k), t1) \<and> is_active k \<and> email_of k = Some email \<and>
    (hs_require_verified_email s \<longrightarrow> email_verified k) \<and>
    handler_claims L H N s uid email (email_verified k) client scopes t1 = (Some (Inr access), t') \<and>
    ic = \<lparr>ic_access_token = with_email email (email_verified k) access,
      ic_id_token = with_email email (email_verified k) []\<rparr>"
  using assms
  by (auto simp: issue_claims_def io_try_Ok lookup_identity_def io_bind_Some split: option.splits if_splits)

text \<open>The claims of an access token when the handler's own set no reserved name.\<close>

lemma access_claims:
  assumes "\<forall>name \<in> set RESERVED_CLAIM_NAMES. json_get (JObj claims) name = None"
  shows "json_get (JObj (with_email email v claims)) ''email'' = Some (JStr email)"
    "json_get (JObj (with_email email v claims)) ''email_verified'' = Some (JBool v)"
    "\<forall>name. name \<notin> {''email'', ''email_verified''} \<longrightarrow>
       json_get (JObj (with_email email v claims)) name = json_get (JObj claims) name"
    "\<forall>name \<in> set RESERVED_CLAIM_NAMES - {''email'', ''email_verified''}. json_get (JObj (with_email email v claims)) name = None"
proof -
  show same: "\<forall>name. name \<notin> {''email'', ''email_verified''} \<longrightarrow>
       json_get (JObj (with_email email v claims)) name = json_get (JObj claims) name"
    by (intro allI impI) (rule with_email_get)
  show "\<forall>name \<in> set RESERVED_CLAIM_NAMES - {''email'', ''email_verified''}. json_get (JObj (with_email email v claims)) name = None"
    (is "\<forall>name \<in> ?R - ?E. _")
  proof
    fix name assume n: "name \<in> ?R - ?E"
    have "json_get (JObj (with_email email v claims)) name = json_get (JObj claims) name"
      by (rule same [rule_format]) (rule DiffE [OF n])
    then show "json_get (JObj (with_email email v claims)) name = None"
      by (rule trans) (rule bspec [OF assms DiffD1 [OF n]])
  qed
qed (rule with_email_get)+

text \<open>C24: Hydra gets claims, and so mints tokens, only for a subject that is an identity Kratos returned
  for this very mint and that may sign in: active, with an email, which is verified unless the
  deployment says otherwise. Both tokens carry that email and whether it is verified, the id_token
  nothing else. What the deployer's handler adds to the access token comes from its 2xx answer to
  this mint, and sets no reserved name: it can neither name another user, scope or audience nor
  override the email.\<close>

theorem token_hook_sound:
  assumes "token_hook L H N s req t = (Some (Ok resp), t')"
  shows "\<exists>uid k email a calls access ident. parse_uuid L (hook_subject req) = Some uid \<and>
    ns_log t' = ns_log t @ (hook_get (identity_url H (hs_kratos s) uid) [], Some (Inr a)) # calls \<and>
    is_success (ha_status a) \<and> answer_json L (de_identity L) a = Ok k \<and>
    is_active k \<and> email_of k = Some email \<and> (hs_require_verified_email s \<longrightarrow> email_verified k) \<and>
    resp = JObj [(''session'', JObj [(''access_token'', JObj access), (''id_token'', JObj ident)])] \<and>
    ident = [(''email'', JStr email), (''email_verified'', JBool (email_verified k))] \<and>
    json_get (JObj access) ''email'' = Some (JStr email) \<and>
    json_get (JObj access) ''email_verified'' = Some (JBool (email_verified k)) \<and>
    (\<forall>name \<in> set RESERVED_CLAIM_NAMES - {''email'', ''email_verified''}. json_get (JObj access) name = None) \<and>
    (case hs_login_claims s of
       None \<Rightarrow> calls = [] \<and> access = ident
     | Some h \<Rightarrow> (\<exists>b claims. calls = [(webhook_request h (login_claims_payload H uid email (email_verified k)
           (th_client_id req) (th_requested_scopes req)), Some (Inr b))] \<and>
         is_success (ha_status b) \<and> webhook_json L H ''login-claims'' b = Ok (JObj claims) \<and>
         (\<forall>name. name \<notin> {''email'', ''email_verified''} \<longrightarrow> json_get (JObj access) name = json_get (JObj claims) name)))"
proof -
  obtain ic where "issue_claims L H N s (hook_subject req) (th_client_id req) (th_requested_scopes req) t = (Some (Inr ic), t')"
    and resp: "resp = token_hook_response ic"
    using assms by (auto simp: token_hook_def io_bind_Some case_Ok)
  from issue_claims_Ok [OF this(1)] obtain uid k email t1 claims
    where uid: "parse_uuid L (hook_subject req) = Some uid"
      and get: "get_identity L H N (hs_kratos s) uid False t = (Some (Inr k), t1)"
      and k: "is_active k" "email_of k = Some email" "hs_require_verified_email s \<longrightarrow> email_verified k"
      and h: "handler_claims L H N s uid email (email_verified k) (th_client_id req) (th_requested_scopes req) t1 = (Some (Inr claims), t')"
      and ic: "ic = \<lparr>ic_access_token = with_email email (email_verified k) claims,
        ic_id_token = with_email email (email_verified k) []\<rparr>" by blast
  from get_identity_Ok [OF get] obtain a
    where a: "ns_log t1 = ns_log t @ [(hook_get (identity_url H (hs_kratos s) uid) [], Some (Inr a))]"
      "is_success (ha_status a)" "answer_json L (de_identity L) a = Inr k" by auto
  note hc = handler_claims_Ok [OF h]
  have empty: "with_email email (email_verified k) [] = [(''email'', JStr email), (''email_verified'', JBool (email_verified k))]"
    by (simp add: with_email_def claims_insert_def)
  show ?thesis
  proof (cases "hs_login_claims s")
    case None
    with uid a k hc show ?thesis
      by (intro exI [of _ uid] exI [of _ k] exI [of _ email] exI [of _ a] exI [of _ "[]"]
          exI [of _ "with_email email (email_verified k) []"])
        (simp add: resp token_hook_response_def ic empty with_email_get)
  next
    case (Some wh)
    with hc obtain b where b: "ns_log t' = ns_log t1 @ [(webhook_request wh (login_claims_payload H uid email (email_verified k)
           (th_client_id req) (th_requested_scopes req)), Some (Inr b))]"
      "is_success (ha_status b)" "webhook_json L H ''login-claims'' b = Inr (JObj claims)" by auto
    note access = access_claims [OF hc [THEN conjunct1], of email "email_verified k"]
    let ?access = "with_email email (email_verified k) claims"
    let ?calls = "[(webhook_request wh (login_claims_payload H uid email (email_verified k)
           (th_client_id req) (th_requested_scopes req)), Some (Inr b))]"
    have log: "ns_log t' = ns_log t @ (hook_get (identity_url H (hs_kratos s) uid) [], Some (Inr a)) # ?calls"
      using a(1) b(1) by simp
    have "resp = JObj [(''session'', JObj [(''access_token'', JObj ?access),
        (''id_token'', JObj [(''email'', JStr email), (''email_verified'', JBool (email_verified k))])])]"
      by (simp add: resp token_hook_response_def ic empty)
    moreover have "\<exists>b' claims. ?calls = [(webhook_request wh (login_claims_payload H uid email (email_verified k)
           (th_client_id req) (th_requested_scopes req)), Some (Inr b'))] \<and>
         is_success (ha_status b') \<and> webhook_json L H ''login-claims'' b' = Inr (JObj claims) \<and>
         (\<forall>name. name \<notin> {''email'', ''email_verified''} \<longrightarrow> json_get (JObj ?access) name = json_get (JObj claims) name)"
      by (rule exI [of _ b], rule exI [of _ claims], intro conjI, rule refl, rule b(2), rule b(3),
          rule access(3))
    ultimately show ?thesis
      unfolding Some option.case using uid log a(2,3) k access(1,2,4)
      by - (rule exI [of _ uid], rule exI [of _ k], rule exI [of _ email], rule exI [of _ a], rule exI [of _ ?calls],
          rule exI [of _ ?access], rule exI, intro conjI, assumption+, rule refl, assumption+)
  qed
qed

definition demo_token_request :: token_hook_request where
  "demo_token_request = \<lparr>th_subject = ''1'', th_claims_sub = '''', th_client_id = ''bff'', th_requested_scopes = [''openid'']\<rparr>"

theorem token_hook_sound_witness:
  "\<exists>resp access ident. fst (token_hook hook_demo_libs demo_hook_libs demo_net demo_hooks demo_token_request demo_start) =
      Some (Ok resp) \<and>
    resp = JObj [(''session'', JObj [(''access_token'', JObj access), (''id_token'', JObj ident)])] \<and>
    json_get (JObj access) ''sub'' = None"
proof -
  have e: "email_of demo_ki = Some ''a''" "email_verified demo_ki" "is_active demo_ki"
    by (simp_all add: email_of_def email_verified_def is_active_def demo_ki_def eq_ignore_ascii_case_def)
  have p: "parse_uuid hook_demo_libs ''1'' \<noteq> None" by (simp add: hook_demo_libs_def demo_libs_def)
  then obtain resp t' where
    run: "token_hook hook_demo_libs demo_hook_libs demo_net demo_hooks demo_token_request demo_start = (Some (Inr resp), t')"
    using e
    by (auto simp: token_hook_def io_bind_def issue_claims_def demo_token_request_def hook_subject_def io_try_def
        lookup_identity_def demo_get_identity handler_claims_def demo_hooks_def)
  from token_hook_sound [OF this] obtain access ident where
    "resp = JObj [(''session'', JObj [(''access_token'', JObj access), (''id_token'', JObj ident)])]"
    "\<forall>name \<in> set RESERVED_CLAIM_NAMES - {''email'', ''email_verified''}. json_get (JObj access) name = None" by blast
  with run show ?thesis by (auto simp: RESERVED_CLAIM_NAMES_def simp del: json_get.simps)
qed

end
