(* ===== verification/Revocation.thy ===== *)
theory Revocation
  imports HooksApp
begin

text \<open>
  Ending every other way into an account (\<open>hooks/src/server/api/revocation.rs\<close>), which a recovery and
  a password change ask for. A budget that runs out abandons the calls under it and is a failure of
  its step; the three calls of \<open>tokio::join!\<close> go out in any order. The two passwords a purge sets are
  arguments.
\<close>

record revocation =
  rv_identity :: uuid
  rv_keep_session :: "uuid option"
  rv_purge :: bool

record revocation_request =
  rr_identity_id :: uuid
  rr_session_id :: "uuid option"

definition de_revocation_request :: "libs \<Rightarrow> json \<Rightarrow> revocation_request option" where
  "de_revocation_request L j = Option.bind (struct_fields_default 1 [''identity_id'', ''session_id''] j) (\<lambda>field.
     Option.bind (de_uuid L (field ''identity_id'')) (\<lambda>i.
     Option.bind (de_opt (\<lambda>v. de_uuid L (Some v)) (field ''session_id'')) (\<lambda>s.
       Some \<lparr>rr_identity_id = i, rr_session_id = s\<rparr>)))"

section \<open>Kratos' part\<close>

definition failure_of ::
    "hook_libs \<Rightarrow> ('w, hook_upstream_error + unit) io \<Rightarrow> ('w, string list) io" where
  "failure_of H m = io_bind m (\<lambda>r. io_return (case r of Inl e \<Rightarrow> [upstream_error_text H e] | Inr u \<Rightarrow> []))"

definition purge_password ::
    "libs \<Rightarrow> hook_libs \<Rightarrow> 'w net \<Rightarrow> hooks_state \<Rightarrow> uuid \<Rightarrow> string \<Rightarrow> ('w, string list \<times> string list) io" where
  "purge_password L H N s i password =
     io_bind (get_identity L H N (hs_kratos s) i True) (\<lambda>r. case r of
       Inr k \<Rightarrow> io_bind (failure_of H (scramble_password L H N (hs_kratos s) i password))
                (\<lambda>failures. io_return (failures, oidc_identifiers k))
     | Inl e \<Rightarrow> io_return ([upstream_error_text H e], []))"

definition purge_credentials ::
    "libs \<Rightarrow> hook_libs \<Rightarrow> 'w net \<Rightarrow> hooks_state \<Rightarrow> uuid \<Rightarrow> string \<Rightarrow> ('w, string list) io" where
  "purge_credentials L H N s i password =
     io_bind (purge_password L H N s i password) (\<lambda>(f1, links).
     io_bind (io_collect (\<lambda>link. failure_of H (delete_oidc_link H N (hs_kratos s) i link)) links) (\<lambda>f2.
     io_bind (io_collect (\<lambda>type. failure_of H (delete_credential L H N (hs_kratos s) i type)) PURGED_CREDENTIAL_TYPES) (\<lambda>f3.
       io_return (f1 @ f2 @ f3))))"

definition MAX_SESSION_ROUNDS :: nat where "MAX_SESSION_ROUNDS = 20"

fun revoke_rounds ::
    "libs \<Rightarrow> hook_libs \<Rightarrow> 'w net \<Rightarrow> hooks_state \<Rightarrow> uuid \<Rightarrow> uuid \<Rightarrow> nat \<Rightarrow> ('w, string + unit) io" where
  "revoke_rounds L H N s i keep 0 =
     io_return (Err (''sessions remain after '' @ nat_str MAX_SESSION_ROUNDS @ '' rounds of revoking''))"
| "revoke_rounds L H N s i keep (Suc n) =
     io_bind (active_sessions L H N (hs_kratos s) i) (\<lambda>r. case r of
       Inl e \<Rightarrow> io_return (Err (upstream_error_text H e))
     | Inr ids \<Rightarrow>
         (let others = filter (\<lambda>session. session \<noteq> keep) ids
          in if others = [] then io_return (Ok ())
             else io_bind (io_collect (\<lambda>session. failure_of H (revoke_kratos_session H N (hs_kratos s) session)) others)
               (\<lambda>failed. if failed \<noteq> [] then io_return (Err (join_with '', '' failed))
                         else revoke_rounds L H N s i keep n)))"

definition revoke_kratos_sessions ::
    "libs \<Rightarrow> hook_libs \<Rightarrow> 'w net \<Rightarrow> hooks_state \<Rightarrow> uuid \<Rightarrow> uuid option \<Rightarrow> ('w, string + unit) io" where
  "revoke_kratos_sessions L H N s i keep = (case keep of
     None \<Rightarrow> io_bind (revoke_all_sessions H N (hs_kratos s) i) (\<lambda>r. io_return (map_err (upstream_error_text H) r))
   | Some k \<Rightarrow> revoke_rounds L H N s i k MAX_SESSION_ROUNDS)"

definition purge_step ::
    "libs \<Rightarrow> hook_libs \<Rightarrow> 'w net \<Rightarrow> hooks_state \<Rightarrow> revocation \<Rightarrow> string \<Rightarrow> ('w, string list) io" where
  "purge_step L H N s rv password =
     (if rv_purge rv
      then io_bind (purge_credentials L H N s (rv_identity rv) password)
             (\<lambda>failures. io_return (map (\<lambda>f. ''purge credentials: '' @ f) failures))
      else io_return [])"

definition revoke_in_kratos ::
    "libs \<Rightarrow> hook_libs \<Rightarrow> 'w net \<Rightarrow> hooks_state \<Rightarrow> revocation \<Rightarrow> string \<Rightarrow> string \<Rightarrow> ('w, string list) io" where
  "revoke_in_kratos L H N s rv password1 password2 =
     io_bind (purge_step L H N s rv password1) (\<lambda>f1.
     io_bind (revoke_kratos_sessions L H N s (rv_identity rv) (rv_keep_session rv)) (\<lambda>r.
     io_bind (purge_step L H N s rv password2) (\<lambda>f2.
       io_return (f1 @ (case r of Inl cause \<Rightarrow> [''kratos sessions: '' @ cause] | Inr u \<Rightarrow> []) @ f2))))"

section \<open>The whole revocation\<close>

definition within ::
    "hook_libs \<Rightarrow> duration \<Rightarrow> ('w, hook_upstream_error + unit) io \<Rightarrow> ('w, string + unit) io" where
  "within H budget m s = (case m s of
     (None, s') \<Rightarrow> (Some (Err (''gave up after '' @ duration_text H budget)), s')
   | (Some r, s') \<Rightarrow> (Some (map_err (upstream_error_text H) r), s'))"

definition kratos_within ::
    "hook_libs \<Rightarrow> duration \<Rightarrow> ('w, string list) io \<Rightarrow> ('w, string list) io" where
  "kratos_within H budget m s = (case m s of
     (None, s') \<Rightarrow> (Some [''kratos: gave up after '' @ duration_text H budget], s')
   | (Some failures, s') \<Rightarrow> (Some failures, s'))"

definition step_failure :: "string \<Rightarrow> string + unit \<Rightarrow> string list" where
  "step_failure name r = (case r of Inl cause \<Rightarrow> [name @ '': '' @ cause] | Inr u \<Rightarrow> [])"

definition revoke_account ::
    "libs \<Rightarrow> hook_libs \<Rightarrow> 'w net \<Rightarrow> hooks_state \<Rightarrow> revocation \<Rightarrow> string \<Rightarrow> string \<Rightarrow> ('w, string list + unit) io" where
  "revoke_account L H N s rv password1 password2 =
     (let i = rv_identity rv; rest_budget = hs_request_timeout s * 2 div 5 in
      io_bind (kratos_within H (hs_request_timeout s div 2) (revoke_in_kratos L H N s rv password1 password2)) (\<lambda>failures.
      io_bind (io_join (join_rank H)
          [within H rest_budget (revoke_consent_sessions H N (hs_hydra s) i),
           within H rest_budget (revoke_login_sessions H N (hs_hydra s) i),
           within H rest_budget (bff_revoke H N (hs_bff s) (hs_bff_key s) i)]) (\<lambda>results.
        (let all = failures @ concat (map2 step_failure
               [''hydra consent sessions'', ''hydra login sessions'', ''bff sessions''] results)
         in io_return (if all = [] then Ok () else Err all)))))"

definition revocation_error_response :: error_response where
  "revocation_error_response = \<lparr>er_status = 502, er_reason = ''RevocationIncomplete'',
     er_details = ''revoking the account's other sign-ins did not complete''\<rparr>"

definition after_revocation :: "('w, string list + unit) io \<Rightarrow> ('w, error_response + json) io" where
  "after_revocation m = io_bind m (\<lambda>r. io_return (case r of
     Inl e \<Rightarrow> Err revocation_error_response | Inr u \<Rightarrow> Ok (JObj [])))"

definition after_recovery ::
    "libs \<Rightarrow> hook_libs \<Rightarrow> 'w net \<Rightarrow> hooks_state \<Rightarrow> revocation_request \<Rightarrow> string \<Rightarrow> string \<Rightarrow> ('w, error_response + json) io" where
  "after_recovery L H N s req password1 password2 =
     after_revocation (revoke_account L H N s
       \<lparr>rv_identity = rr_identity_id req, rv_keep_session = rr_session_id req, rv_purge = True\<rparr> password1 password2)"

definition after_password_change ::
    "libs \<Rightarrow> hook_libs \<Rightarrow> 'w net \<Rightarrow> hooks_state \<Rightarrow> revocation_request \<Rightarrow> string \<Rightarrow> string \<Rightarrow> ('w, error_response + json) io" where
  "after_password_change L H N s req password1 password2 =
     after_revocation (revoke_account L H N s
       \<lparr>rv_identity = rr_identity_id req, rv_keep_session = rr_session_id req, rv_purge = False\<rparr> password1 password2)"

section \<open>What the calls achieved\<close>

text \<open>The requests to which the log has an answer that shows each credential gone: the password
  replaced on an active identity, each social login of the identity unlinked, each other type
  deleted, a passkey only when the identity has one.\<close>

definition shown :: "libs \<Rightarrow> (hook_request \<times> http_sent option) list \<Rightarrow> hook_request \<Rightarrow> identity \<Rightarrow> bool" where
  "shown L c rq k \<longleftrightarrow> (\<exists>a. (rq, Some (Inr a)) \<in> set c \<and> is_success (ha_status a) \<and> answer_json L (de_identity L) a = Ok k)"

definition deleted ::
    "libs \<Rightarrow> hook_libs \<Rightarrow> string \<Rightarrow> uuid \<Rightarrow> string \<Rightarrow> (hook_request \<times> http_sent option) list \<Rightarrow> bool" where
  "deleted L H base i type c \<longleftrightarrow>
     (if type = ''passkey''
      then (\<exists>k. shown L c (hook_get (identity_url H base i) []) k \<and> \<not> has_credential k ''passkey'') \<or>
        answered c (passkey_request H base i) gone_status
      else answered c (credential_request H base i type) gone_status)"

definition purged ::
    "libs \<Rightarrow> hook_libs \<Rightarrow> string \<Rightarrow> uuid \<Rightarrow> string \<Rightarrow> (hook_request \<times> http_sent option) list \<Rightarrow> bool" where
  "purged L H base i password c \<longleftrightarrow>
     (\<exists>k. shown L c (hook_get (identity_url H base i) [(''include_credential'', ''oidc'')]) k \<and>
        (\<forall>link \<in> set (oidc_identifiers k). answered c (unlink_request H base i link) gone_status)) \<and>
     (\<exists>k. is_active k \<and> answered c (password_request H base k password) is_success) \<and>
     (\<forall>type \<in> set PURGED_CREDENTIAL_TYPES. deleted L H base i type c)"

definition sessions_ended ::
    "libs \<Rightarrow> hook_libs \<Rightarrow> string \<Rightarrow> uuid \<Rightarrow> uuid option \<Rightarrow> (hook_request \<times> http_sent option) list \<Rightarrow> bool" where
  "sessions_ended L H base i keep c \<longleftrightarrow> (case keep of
     None \<Rightarrow> answered c (all_sessions_request H base i) gone_status
   | Some k \<Rightarrow> (\<exists>a ids. (list_sessions_request H base i, Some (Inr a)) \<in> set c \<and> is_success (ha_status a) \<and>
       answer_json L (de_array (de_session_id L)) a = Ok ids \<and> set ids \<subseteq> {k}))"

section \<open>Lemmas\<close>

lemma shown_mono: "shown L c rq k \<Longrightarrow> set c \<subseteq> set d \<Longrightarrow> shown L d rq k"
  unfolding shown_def by blast

lemma deleted_mono:
  assumes "deleted L H base i type c" "set c \<subseteq> set d" shows "deleted L H base i type d"
  using assms(1) shown_mono [OF _ assms(2)] answered_mono [OF _ assms(2)]
  unfolding deleted_def by (cases "type = ''passkey''") auto

lemma calls_failure_of:
  assumes "calls m (\<lambda>r c. is_ok r \<longrightarrow> P c)"
  shows "calls (failure_of H m) (\<lambda>r c. r = [] \<longrightarrow> P c)"
  unfolding failure_of_def
  by (rule calls_bind [OF assms], rule calls_return) (auto split: sum.splits)

lemma calls_unlink:
  "calls (failure_of H (delete_oidc_link H N base i link)) (\<lambda>r c. r = [] \<longrightarrow> answered c (unlink_request H base i link) gone_status)"
  unfolding delete_oidc_link_def
  by (intro calls_failure_of calls_conseq [OF calls_delete]) simp

lemma calls_delete_credential:
  "calls (failure_of H (delete_credential L H N base i type)) (\<lambda>r c. r = [] \<longrightarrow> deleted L H base i type c)"
proof (rule calls_failure_of, cases "type = ''passkey''")
  case True
  show "calls (delete_credential L H N base i type) (\<lambda>r c. is_ok r \<longrightarrow> deleted L H base i type c)"
    unfolding delete_credential_def deleted_def Let_def True
  proof (simp, rule calls_try [OF calls_get_identity])
    fix k and c :: "(hook_request \<times> http_sent option) list"
    assume g: "\<forall>k'. Inr k = Inr k' \<longrightarrow> (\<exists>a. c = [(hook_get (identity_url H base i)
        (if False then [(''include_credential'', ''oidc'')] else []), Some (Inr a))] \<and>
        is_success (ha_status a) \<and> answer_json L (de_identity L) a = Inr k')"
    then have s: "shown L c (hook_get (identity_url H base i) []) k" by (auto simp: shown_def)
    show "calls (if \<not> has_credential k ''passkey'' then io_return (Inr ())
        else io_bind (send_hook N ''kratos delete credential'' (passkey_request H base i)) (\<lambda>r. io_return (ignore_not_found r)))
      (\<lambda>r c'. is_ok r \<longrightarrow> (\<exists>k. shown L (c @ c') (hook_get (identity_url H base i) []) k \<and> \<not> has_credential k ''passkey'') \<or>
        answered (c @ c') (passkey_request H base i) gone_status)"
    proof (cases "has_credential k ''passkey''")
      case True
      then show ?thesis
        by (simp, intro calls_conseq [OF calls_delete]) (auto intro: answered_mono')
    next
      case False
      with s show ?thesis by (auto simp: calls_def)
    qed
  qed simp
next
  case False
  then show "calls (delete_credential L H N base i type) (\<lambda>r c. is_ok r \<longrightarrow> deleted L H base i type c)"
    unfolding delete_credential_def deleted_def Let_def
    by (simp, intro calls_conseq [OF calls_delete]) simp
qed

lemma calls_scramble:
  "calls (failure_of H (scramble_password L H N base i password)) (\<lambda>r c. r = [] \<longrightarrow>
     (\<exists>k. is_active k \<and> answered c (password_request H base k password) is_success))"
proof (rule calls_failure_of, unfold scramble_password_def, rule calls_try [OF calls_get_identity])
  fix k and c :: "(hook_request \<times> http_sent option) list"
  show "calls (if \<not> is_active k then io_return (Inl (UpInactive ''kratos replace password''))
      else io_try (send_hook N ''kratos replace password'' (password_request H base k password)) (\<lambda>a. io_return (Inr ())))
    (\<lambda>r c'. is_ok r \<longrightarrow> (\<exists>k. is_active k \<and> answered (c @ c') (password_request H base k password) is_success))"
  proof (cases "is_active k")
    case True
    then show ?thesis
      by (simp, intro calls_try [OF calls_send])
        (auto simp: answered_def classify_answer_Ok calls_def)
  next
    case False
    then show ?thesis by (simp add: calls_def)
  qed
qed simp

lemma calls_purge_password:
  "calls (purge_password L H N s i password) (\<lambda>fl c. fst fl = [] \<longrightarrow>
     (\<exists>k. shown L c (hook_get (identity_url H (hs_kratos s) i) [(''include_credential'', ''oidc'')]) k \<and>
        snd fl = oidc_identifiers k) \<and>
     (\<exists>k. is_active k \<and> answered c (password_request H (hs_kratos s) k password) is_success))"
  unfolding purge_password_def
proof (rule calls_bind [OF calls_get_identity])
  fix r :: "hook_upstream_error + identity" and c :: "(hook_request \<times> http_sent option) list"
  assume g: "\<forall>k. r = Inr k \<longrightarrow> (\<exists>a. c = [(hook_get (identity_url H (hs_kratos s) i)
    (if True then [(''include_credential'', ''oidc'')] else []), Some (Inr a))] \<and> is_success (ha_status a) \<and>
    answer_json L (de_identity L) a = Inr k)"
  show "calls (case r of Inr k \<Rightarrow> io_bind (failure_of H (scramble_password L H N (hs_kratos s) i password))
                (\<lambda>failures. io_return (failures, oidc_identifiers k))
     | Inl e \<Rightarrow> io_return ([upstream_error_text H e], []))
    (\<lambda>fl c'. fst fl = [] \<longrightarrow>
       (\<exists>k. shown L (c @ c') (hook_get (identity_url H (hs_kratos s) i) [(''include_credential'', ''oidc'')]) k \<and>
          snd fl = oidc_identifiers k) \<and>
       (\<exists>k. is_active k \<and> answered (c @ c') (password_request H (hs_kratos s) k password) is_success))"
  proof (cases r)
    case (Inl e)
    then show ?thesis by (simp add: calls_def)
  next
    case (Inr k)
    with g have sh: "shown L c (hook_get (identity_url H (hs_kratos s) i) [(''include_credential'', ''oidc'')]) k"
      by (auto simp: shown_def)
    show ?thesis unfolding Inr sum.case
    proof (rule calls_bind [OF calls_scramble], rule calls_return, simp, intro impI conjI)
      fix f and c' :: "(hook_request \<times> http_sent option) list"
      show "\<exists>k'. shown L (c @ c') (hook_get (identity_url H (hs_kratos s) i) [(''include_credential'', ''oidc'')]) k' \<and>
          oidc_identifiers k = oidc_identifiers k'"
        using shown_mono [OF sh, of "c @ c'"] by auto
      show "f = [] \<longrightarrow> (\<exists>k. is_active k \<and> answered c' (password_request H (hs_kratos s) k password) is_success) \<Longrightarrow> f = [] \<Longrightarrow>
          \<exists>k. is_active k \<and> answered (c @ c') (password_request H (hs_kratos s) k password) is_success"
        by (auto intro: answered_mono')
    qed
  qed
qed

lemma calls_purge:
  "calls (purge_credentials L H N s i password) (\<lambda>f c. f = [] \<longrightarrow> purged L H (hs_kratos s) i password c)"
  unfolding purge_credentials_def
proof (rule calls_bind [OF calls_purge_password])
  let ?b = "hs_kratos s"
  fix fl :: "string list \<times> string list" and c
  assume p: "fst fl = [] \<longrightarrow>
     (\<exists>k. shown L c (hook_get (identity_url H ?b i) [(''include_credential'', ''oidc'')]) k \<and> snd fl = oidc_identifiers k) \<and>
     (\<exists>k. is_active k \<and> answered c (password_request H ?b k password) is_success)"
  obtain f1 links where fl: "fl = (f1, links)" by fastforce
  show "calls (case fl of (f1, links) \<Rightarrow>
      io_bind (io_collect (\<lambda>link. failure_of H (delete_oidc_link H N ?b i link)) links) (\<lambda>f2.
      io_bind (io_collect (\<lambda>type. failure_of H (delete_credential L H N ?b i type)) PURGED_CREDENTIAL_TYPES) (\<lambda>f3.
        io_return (f1 @ f2 @ f3))))
    (\<lambda>f c'. f = [] \<longrightarrow> purged L H ?b i password (c @ c'))"
    unfolding fl prod.case
  proof (rule calls_bind [OF calls_collect [OF calls_unlink]],
      rule calls_bind [OF calls_collect [OF calls_delete_credential]], rule calls_return, intro impI)
    fix f2 f3 :: "string list" and c2 c3 :: "(hook_request \<times> http_sent option) list"
    assume links: "\<forall>link \<in> set links. \<exists>r1 c1. set c1 \<subseteq> set c2 \<and>
        (r1 = [] \<longrightarrow> answered c1 (unlink_request H ?b i link) gone_status) \<and> (f2 = [] \<longrightarrow> r1 = [])"
      and types: "\<forall>type \<in> set PURGED_CREDENTIAL_TYPES. \<exists>r1 c1. set c1 \<subseteq> set c3 \<and>
        (r1 = [] \<longrightarrow> deleted L H ?b i type c1) \<and> (f3 = [] \<longrightarrow> r1 = [])"
      and none: "f1 @ f2 @ f3 = []"
    let ?c = "c @ c2 @ c3 @ []"
    have "answered ?c (unlink_request H ?b i link) gone_status" if "link \<in> set links" for link
      using links none that by (force elim: answered_mono)
    moreover have "deleted L H ?b i type ?c" if "type \<in> set PURGED_CREDENTIAL_TYPES" for type
      using types none that by (force elim: deleted_mono)
    moreover from p none fl obtain k k'
      where k: "shown L c (hook_get (identity_url H ?b i) [(''include_credential'', ''oidc'')]) k" "links = oidc_identifiers k"
        and k': "is_active k'" "answered c (password_request H ?b k' password) is_success" by auto
    moreover have "shown L ?c (hook_get (identity_url H ?b i) [(''include_credential'', ''oidc'')]) k"
      by (rule shown_mono [OF k(1)]) simp
    moreover have "answered ?c (password_request H ?b k' password) is_success"
      by (rule answered_mono [OF k'(2)]) simp
    ultimately show "purged L H ?b i password (c @ c2 @ c3 @ [])" unfolding purged_def by blast
  qed
qed

lemma calls_rounds:
  "calls (revoke_rounds L H N s i keep n) (\<lambda>r c. is_ok r \<longrightarrow> sessions_ended L H (hs_kratos s) i (Some keep) c)"
proof (induction n)
  case 0
  show ?case by (simp add: calls_def)
next
  case (Suc n)
  let ?P = "\<lambda>(r :: string + unit) c. is_ok r \<longrightarrow> sessions_ended L H (hs_kratos s) i (Some keep) c"
  let ?list = "\<lambda>(r :: hook_upstream_error + uuid list) c. \<forall>ids. r = Inr ids \<longrightarrow> (\<exists>a. (list_sessions_request H (hs_kratos s) i, Some (Inr a)) \<in> set c \<and>
      is_success (ha_status a) \<and> answer_json L (de_array (de_session_id L)) a = Inr ids)"
  have l: "calls (active_sessions L H N (hs_kratos s) i) ?list"
    unfolding active_sessions_def
    by (rule calls_try [OF calls_send]) (auto simp: classify_answer_Ok read_hook_json_def intro!: calls_return)
  show ?case unfolding revoke_rounds.simps
  proof (rule calls_bind [OF l])
    fix r and c :: "(hook_request \<times> http_sent option) list" assume g: "?list r c"
    show "calls (case r of
        Inl e \<Rightarrow> io_return (Inl (upstream_error_text H e))
      | Inr ids \<Rightarrow> (let others = filter (\<lambda>session. session \<noteq> keep) ids
          in if others = [] then io_return (Inr ())
             else io_bind (io_collect (\<lambda>session. failure_of H (revoke_kratos_session H N (hs_kratos s) session)) others)
               (\<lambda>failed. if failed \<noteq> [] then io_return (Inl (join_with '', '' failed))
                         else revoke_rounds L H N s i keep n)))
      (\<lambda>r c'. ?P r (c @ c'))"
    proof (cases r)
      case (Inl e)
      then show ?thesis by (simp add: calls_def)
    next
      case (Inr ids)
      show ?thesis
      proof (cases "filter (\<lambda>session. session \<noteq> keep) ids = []")
        case True
        then have "set ids \<subseteq> {keep}" by (auto simp: filter_empty_conv)
        with g Inr True show ?thesis by (fastforce simp: calls_def sessions_ended_def)
      next
        case False
        have mono: "sessions_ended L H (hs_kratos s) i (Some keep) d \<Longrightarrow> sessions_ended L H (hs_kratos s) i (Some keep) (c @ c' @ d)" for c' d
          by (auto simp: sessions_ended_def)
        have any: "calls (failure_of H (revoke_kratos_session H N (hs_kratos s) session)) (\<lambda>r c. True)" for session
          unfolding revoke_kratos_session_def
          by (rule calls_conseq [OF calls_failure_of [OF calls_conseq [OF calls_delete]]]) auto
        from False Inr show ?thesis
          by (simp add: Let_def, intro calls_bind [OF calls_collect [OF any]])
            (auto intro: calls_conseq [OF Suc.IH] mono simp: calls_def [of "io_return _"])
      qed
    qed
  qed
qed

lemma calls_sessions:
  "calls (revoke_kratos_sessions L H N s i keep) (\<lambda>r c. is_ok r \<longrightarrow> sessions_ended L H (hs_kratos s) i keep c)"
proof (cases keep)
  case None
  have "calls (revoke_all_sessions H N (hs_kratos s) i)
      (\<lambda>r c. is_ok r \<longrightarrow> answered c (all_sessions_request H (hs_kratos s) i) gone_status)"
    unfolding revoke_all_sessions_def by (rule calls_conseq [OF calls_delete]) simp
  then show ?thesis unfolding revoke_kratos_sessions_def None option.case
    by (rule calls_bind, intro calls_return) (auto simp: sessions_ended_def is_ok_def map_err_def split: sum.splits)
next
  case (Some k)
  then show ?thesis using calls_rounds by (simp add: revoke_kratos_sessions_def)
qed

lemma calls_purge_step:
  "calls (purge_step L H N s rv password)
     (\<lambda>f c. f = [] \<longrightarrow> rv_purge rv \<longrightarrow> purged L H (hs_kratos s) (rv_identity rv) password c)"
  unfolding purge_step_def
  by (cases "rv_purge rv") (auto intro!: calls_return calls_bind [OF calls_purge])

lemma calls_in_kratos:
  "calls (revoke_in_kratos L H N s rv pw1 pw2) (\<lambda>f c. f = [] \<longrightarrow> (\<exists>c1 c2 c3. c = c1 @ c2 @ c3 \<and>
     (rv_purge rv \<longrightarrow> purged L H (hs_kratos s) (rv_identity rv) pw1 c1 \<and> purged L H (hs_kratos s) (rv_identity rv) pw2 c3) \<and>
     sessions_ended L H (hs_kratos s) (rv_identity rv) (rv_keep_session rv) c2))"
  unfolding revoke_in_kratos_def
proof (rule calls_bind [OF calls_purge_step], rule calls_bind [OF calls_sessions],
    rule calls_bind [OF calls_purge_step], rule calls_return, intro impI)
  fix f1 f3 :: "string list" and r :: "string + unit" and c1 c2 c3 :: "(hook_request \<times> http_sent option) list"
  assume a: "f1 = [] \<longrightarrow> rv_purge rv \<longrightarrow> purged L H (hs_kratos s) (rv_identity rv) pw1 c1"
    "is_ok r \<longrightarrow> sessions_ended L H (hs_kratos s) (rv_identity rv) (rv_keep_session rv) c2"
    "f3 = [] \<longrightarrow> rv_purge rv \<longrightarrow> purged L H (hs_kratos s) (rv_identity rv) pw2 c3"
    and none: "f1 @ (case r of Inl cause \<Rightarrow> [''kratos sessions: '' @ cause] | Inr u \<Rightarrow> []) @ f3 = []"
  from none have "f1 = []" "f3 = []" "is_ok r" by (auto split: sum.splits)
  with a show "\<exists>d1 d2 d3. c1 @ c2 @ c3 @ [] = d1 @ d2 @ d3 \<and>
     (rv_purge rv \<longrightarrow> purged L H (hs_kratos s) (rv_identity rv) pw1 d1 \<and> purged L H (hs_kratos s) (rv_identity rv) pw2 d3) \<and>
     sessions_ended L H (hs_kratos s) (rv_identity rv) (rv_keep_session rv) d2"
    by - (rule exI [of _ c1], rule exI [of _ c2], rule exI [of _ c3], simp)
qed

text \<open>A budget turns a call that does not return into a failure: what runs under one always returns.\<close>

lemma calls_kratos_within:
  assumes "calls m (\<lambda>f c. f = [] \<longrightarrow> P c)"
  shows "calls (kratos_within H budget m) (\<lambda>f c. f = [] \<longrightarrow> P c)" "fst (kratos_within H budget m t) \<noteq> None"
  using assms unfolding calls_def kratos_within_def by (fastforce split: prod.splits option.splits)+

lemma calls_within_send:
  "calls (within H budget (send_and_forget N what rq))
     (\<lambda>r c. fst ` set c = {rq} \<and> (is_ok r \<longrightarrow> answered c rq is_success))"
  "fst (within H budget (send_and_forget N what rq) t) \<noteq> None"
proof -
  show "fst (within H budget (send_and_forget N what rq) t) \<noteq> None"
    by (auto simp: within_def split: prod.splits option.splits)
  show "calls (within H budget (send_and_forget N what rq))
     (\<lambda>r c. fst ` set c = {rq} \<and> (is_ok r \<longrightarrow> answered c rq is_success))"
    unfolding calls_def
  proof (intro allI impI)
    fix s r s' assume run: "within H budget (send_and_forget N what rq) s = (r, s')"
    obtain a w where n: "N rq (ns_world s) = (a, w)" by fastforce
    show "\<exists>c. ns_log s' = ns_log s @ c \<and> (\<forall>x. r = Some x \<longrightarrow> fst ` set c = {rq} \<and> (is_ok x \<longrightarrow> answered c rq is_success))"
      using run n
      by (intro exI [of _ "[(rq, a)]"])
        (auto simp: within_def send_and_forget_def io_try_def send_hook_def io_bind_def call_net_def answered_def
          classify_answer_def split: option.splits sum.splits if_splits)
  qed
qed

lemma calls_within_sends:
  assumes "ms = map (\<lambda>(what, rq). within H budget (send_and_forget N what rq)) sends" "n = length sends"
  shows "calls (io_join rank ms) (\<lambda>results c. length results = n \<and> fst ` set c = set (map snd sends) \<and>
    (\<forall>i < n. is_ok (results ! i) \<longrightarrow> answered c (map snd sends ! i) is_success))"
proof (rule calls_conseq [OF calls_join])
  fix i assume "i < length ms"
  then show "calls (ms ! i) (\<lambda>r c. fst ` set c = {snd (sends ! i)} \<and> (is_ok r \<longrightarrow> answered c (snd (sends ! i)) is_success))"
    using calls_within_send(1) [of H budget N "fst (sends ! i)" "snd (sends ! i)"] by (simp add: assms case_prod_beta)
next
  fix results and c :: "(hook_request \<times> http_sent option) list"
  assume "length results = length ms \<and> (\<exists>cs. set c = (\<Union>i < length ms. set (cs i)) \<and> (\<forall>i < length ms.
    fst ` set (cs i) = {snd (sends ! i)} \<and> (is_ok (results ! i) \<longrightarrow> answered (cs i) (snd (sends ! i)) is_success)))"
  then obtain cs where r: "length results = n" "set c = (\<Union>i < n. set (cs i))"
    "\<And>i. i < n \<Longrightarrow> fst ` set (cs i) = {snd (sends ! i)}"
    "\<And>i. i < n \<Longrightarrow> is_ok (results ! i) \<Longrightarrow> answered (cs i) (snd (sends ! i)) is_success" by (auto simp: assms)
  have "fst ` set c = (\<Union>i < n. {snd (sends ! i)})" using r(2,3) by (simp add: image_UN)
  also have "\<dots> = set (map snd sends)" by (force simp: assms(2) in_set_conv_nth)
  finally show "length results = n \<and> fst ` set c = set (map snd sends) \<and>
      (\<forall>i < n. is_ok (results ! i) \<longrightarrow> answered c (map snd sends ! i) is_success)"
    using r by (auto simp: assms(2) intro!: answered_mono [OF r(4)])
qed

lemma within_sends_return: "fst (io_join rank (map (\<lambda>(what, rq). within H budget (send_and_forget N what rq)) sends) t) \<noteq> None"
  by (rule join_returns) (simp add: case_prod_beta del: not_None_eq, rule calls_within_send(2))

lemma io_bind_total: "fst (m s) \<noteq> None \<Longrightarrow> io_bind m f s = f (the (fst (m s))) (snd (m s))"
  by (auto simp: io_bind_def split: prod.splits)

definition revocation_log ::
    "libs \<Rightarrow> hook_libs \<Rightarrow> hooks_state \<Rightarrow> revocation \<Rightarrow> string \<Rightarrow> string \<Rightarrow> bool \<Rightarrow> (hook_request \<times> http_sent option) list \<Rightarrow>
      (hook_request \<times> http_sent option) list \<Rightarrow> (hook_request \<times> http_sent option) list \<Rightarrow> (hook_request \<times> http_sent option) list \<Rightarrow> bool"
where
  "revocation_log L H s rv pw1 pw2 ok c1 c2 c3 c4 \<longleftrightarrow>
     fst ` set c4 = {consent_sessions_request H (hs_hydra s) (rv_identity rv),
       login_sessions_request H (hs_hydra s) (rv_identity rv),
       bff_revoke_request H (hs_bff s) (hs_bff_key s) (rv_identity rv)} \<and>
     (ok \<longrightarrow>
       (rv_purge rv \<longrightarrow> purged L H (hs_kratos s) (rv_identity rv) pw1 c1 \<and>
          purged L H (hs_kratos s) (rv_identity rv) pw2 c3) \<and>
       sessions_ended L H (hs_kratos s) (rv_identity rv) (rv_keep_session rv) c2 \<and>
       (\<forall>rq \<in> fst ` set c4. answered c4 rq is_success))"

definition revocation_sends :: "hook_libs \<Rightarrow> hooks_state \<Rightarrow> uuid \<Rightarrow> (string \<times> hook_request) list" where
  "revocation_sends H s i =
     [(''hydra revoke consent sessions'', consent_sessions_request H (hs_hydra s) i),
      (''hydra revoke login sessions'', login_sessions_request H (hs_hydra s) i),
      (''bff internal revoke'', bff_revoke_request H (hs_bff s) (hs_bff_key s) i)]"

lemma calls_the_rest:
  "calls (io_join rank
      [within H budget (send_and_forget N ''hydra revoke consent sessions'' (consent_sessions_request H (hs_hydra s) i)),
       within H budget (send_and_forget N ''hydra revoke login sessions'' (login_sessions_request H (hs_hydra s) i)),
       within H budget (send_and_forget N ''bff internal revoke'' (bff_revoke_request H (hs_bff s) (hs_bff_key s) i))])
    (\<lambda>results c. length results = 3 \<and> fst ` set c = set (map snd (revocation_sends H s i)) \<and>
      (\<forall>n < 3. is_ok (results ! n) \<longrightarrow> answered c (map snd (revocation_sends H s i) ! n) is_success))"
  by (rule calls_within_sends [where sends = "revocation_sends H s i"]) (simp_all add: revocation_sends_def)

lemma revoke_account_calls:
  "calls (revoke_account L H N s rv pw1 pw2) (\<lambda>res c. \<exists>c1 c2 c3 c4. c = (c1 @ c2 @ c3) @ c4 \<and>
     revocation_log L H s rv pw1 pw2 (is_ok res) c1 c2 c3 c4)"
  (is "calls _ ?P")
  unfolding revoke_account_def Let_def revoke_consent_sessions_def revoke_login_sessions_def bff_revoke_def
proof (rule calls_bind [OF calls_kratos_within(1) [OF calls_in_kratos]],
    rule calls_bind [OF calls_the_rest], rule calls_return)
  let ?i = "rv_identity rv"
  let ?rqs = "map snd (revocation_sends H s ?i)"
  fix f :: "string list" and results :: "(string + unit) list" and c d :: "(hook_request \<times> http_sent option) list"
  assume k: "f = [] \<longrightarrow> (\<exists>c1 c2 c3. c = c1 @ c2 @ c3 \<and>
     (rv_purge rv \<longrightarrow> purged L H (hs_kratos s) ?i pw1 c1 \<and> purged L H (hs_kratos s) ?i pw2 c3) \<and>
     sessions_ended L H (hs_kratos s) ?i (rv_keep_session rv) c2)"
    and d: "length results = 3 \<and> fst ` set d = set ?rqs \<and> (\<forall>n < 3. is_ok (results ! n) \<longrightarrow> answered d (?rqs ! n) is_success)"
  let ?all = "f @ concat (map2 step_failure [''hydra consent sessions'', ''hydra login sessions'', ''bff sessions''] results)"
  obtain x y z where results: "results = [x, y, z]"
    using d by (auto simp: numeral_3_eq_3 length_Suc_conv)
  have ok: "?all = [] \<longleftrightarrow> f = [] \<and> is_ok x \<and> is_ok y \<and> is_ok z"
    unfolding results by (auto simp: step_failure_def split: sum.splits)
  show "?P (if ?all = [] then Inr () else Inl ?all) (c @ d @ [])"
  proof (cases "?all = []")
    case True
    with ok k obtain c1 c2 c3 where c: "c = c1 @ c2 @ c3"
      "rv_purge rv \<longrightarrow> purged L H (hs_kratos s) ?i pw1 c1 \<and> purged L H (hs_kratos s) ?i pw2 c3"
      "sessions_ended L H (hs_kratos s) ?i (rv_keep_session rv) c2" by blast
    have "\<forall>rq \<in> set ?rqs. answered d rq is_success"
      using d ok True unfolding results by (simp add: numeral_3_eq_3 All_less_Suc revocation_sends_def)
    with c d show ?thesis
      by - (rule exI [of _ c1], rule exI [of _ c2], rule exI [of _ c3], rule exI [of _ d], simp add: revocation_log_def revocation_sends_def)
  next
    case False
    with d show ?thesis
      by - (rule exI [of _ c], rule exI [of _ "[]"], rule exI [of _ "[]"], rule exI [of _ d],
        simp only: if_False, simp add: revocation_log_def revocation_sends_def)
  qed
qed

lemma revoke_account_returns: "fst (revoke_account L H N s rv pw1 pw2 t) \<noteq> None"
  unfolding revoke_account_def Let_def revoke_consent_sessions_def revoke_login_sessions_def bff_revoke_def
  using within_sends_return [of "join_rank H" H "hs_request_timeout s * 2 div 5" N "revocation_sends H s (rv_identity rv)"]
  by (simp add: revocation_sends_def io_bind_total calls_kratos_within(2) [OF calls_in_kratos])

text \<open>C25: Whatever the upstreams answer, and whatever they leave unanswered, a revocation comes to an
  end, and it has asked Hydra to end the consents and the logins of the identity and bff to end its
  sessions, after the calls to Kratos. It reports success only when each step was confirmed: with a
  purge, every credential was shown gone (\<open>purged\<close>) both before and after the Kratos sessions ended,
  Kratos has ended the sessions (all of them, or by its own list all but the one to keep), and Hydra
  and bff answered each of the three requests with success.\<close>

theorem revocation_is_complete:
  "\<exists>res t' c1 c2 c3 c4. revoke_account L H N s rv pw1 pw2 t = (Some res, t') \<and>
     ns_log t' = ns_log t @ c1 @ c2 @ c3 @ c4 \<and>
     fst ` set c4 = {consent_sessions_request H (hs_hydra s) (rv_identity rv),
       login_sessions_request H (hs_hydra s) (rv_identity rv),
       bff_revoke_request H (hs_bff s) (hs_bff_key s) (rv_identity rv)} \<and>
     (res = Ok () \<longrightarrow>
       (rv_purge rv \<longrightarrow> purged L H (hs_kratos s) (rv_identity rv) pw1 c1 \<and>
          purged L H (hs_kratos s) (rv_identity rv) pw2 c3) \<and>
       sessions_ended L H (hs_kratos s) (rv_identity rv) (rv_keep_session rv) c2 \<and>
       (\<forall>rq \<in> fst ` set c4. answered c4 rq is_success))"
proof -
  obtain res t' where run: "revoke_account L H N s rv pw1 pw2 t = (Some res, t')"
    using revoke_account_returns [of L H N s rv pw1 pw2 t] by (cases "revoke_account L H N s rv pw1 pw2 t") auto
  from callsD [OF revoke_account_calls run] obtain c where log: "ns_log t' = ns_log t @ c"
    "\<exists>c1 c2 c3 c4. c = (c1 @ c2 @ c3) @ c4 \<and> revocation_log L H s rv pw1 pw2 (is_ok res) c1 c2 c3 c4" by (elim exE conjE) simp
  then obtain c1 c2 c3 c4 where c: "ns_log t' = ns_log t @ c1 @ c2 @ c3 @ c4"
    "revocation_log L H s rv pw1 pw2 (is_ok res) c1 c2 c3 c4" by (elim exE conjE) simp
  have ok: "is_ok res \<longleftrightarrow> res = Ok ()" by (cases res) simp_all
  show ?thesis
    by (rule exI [of _ res], rule exI [of _ t'], rule exI [of _ c1], rule exI [of _ c2], rule exI [of _ c3],
        rule exI [of _ c4], rule conjI, rule run, rule conjI, rule c(1), rule c(2) [unfolded revocation_log_def ok])
qed

theorem revocation_is_complete_witness:
  "fst (revoke_account hook_demo_libs demo_hook_libs demo_net demo_hooks
       \<lparr>rv_identity = 1, rv_keep_session = None, rv_purge = True\<rparr> ''p'' ''q'' demo_start) = Some (Ok ()) \<and>
   (\<exists>c d. purged hook_demo_libs demo_hook_libs ''k'' 1 ''q'' c \<and> sessions_ended hook_demo_libs demo_hook_libs ''k'' 1 None d)"
proof -
  let ?rv = "\<lparr>rv_identity = 1, rv_keep_session = None, rv_purge = True\<rparr> :: revocation"
  have ok: "fst (revoke_account hook_demo_libs demo_hook_libs demo_net demo_hooks ?rv ''p'' ''q'' demo_start) = Some (Inr ())"
    by (simp add: revoke_account_def Let_def io_bind_def kratos_within_def within_def revoke_in_kratos_def
        purge_step_def revoke_kratos_sessions_def revoke_all_sessions_def send_hook_def call_net_def demo_net_def
        all_sessions_request_def hook_delete_def classify_answer_def is_success_def ignore_not_found_def
        revoke_consent_sessions_def revoke_login_sessions_def bff_revoke_def send_and_forget_def io_try_def
        consent_sessions_request_def login_sessions_request_def bff_revoke_request_def step_failure_def
        purge_credentials_def purge_password_def scramble_password_def delete_credential_def demo_get_identity
        failure_of_def PURGED_CREDENTIAL_TYPES_def has_credential_def is_active_def demo_ki_def oidc_identifiers_def
        password_request_def credential_request_def demo_join [OF refl])
  from revocation_is_complete [of hook_demo_libs demo_hook_libs demo_net demo_hooks ?rv "''p''" "''q''" demo_start] ok
  obtain c d where "purged hook_demo_libs demo_hook_libs (hs_kratos demo_hooks) 1 ''q'' c"
    "sessions_ended hook_demo_libs demo_hook_libs (hs_kratos demo_hooks) 1 None d" by auto
  with ok show ?thesis by (auto simp: demo_hooks_def)
qed

end
