(* ===== verification/Registration.thy ===== *)
theory Registration
  imports HooksApp
begin

text \<open>
  What Kratos' registration and verification flows ask of hooks: the fields of a new identity,
  collected from the form and from the sign-in provider's profile APIs (\<open>hooks/src/profile_api.rs\<close>),
  handed to the deployer (\<open>server/api/after_registration.rs\<close>), with the identity deleted when that
  fails, and the notice of a verified address (\<open>server/api/after_verification.rs\<close>).
\<close>

section \<open>Profile APIs\<close>

type_synonym text_fields = "(string \<times> string) list"

text \<open>\<open>HashMap::extend\<close>: a later entry replaces an earlier one of its name.\<close>

definition extend_fields :: "text_fields \<Rightarrow> text_fields \<Rightarrow> text_fields" where
  "extend_fields m kvs = foldl (\<lambda>acc (k, v). AList.update k v acc) m kvs"

fun scalar_to_string :: "libs \<Rightarrow> json \<Rightarrow> string option" where
  "scalar_to_string L (JStr s) = Some s"
| "scalar_to_string L (JBool b) = Some (json_write L (JBool b))"
| "scalar_to_string L (JInt n) = Some (json_write L (JInt n))"
| "scalar_to_string L (JFloat f) = Some (json_write L (JFloat f))"
| "scalar_to_string L _ = None"

datatype profile_error = ProfileConsent string | ProfileFailed string

definition scope_granted :: "string list option \<Rightarrow> string \<Rightarrow> bool" where
  "scope_granted granted scope = is_none_or (\<lambda>scopes. scope \<in> set scopes) granted"

text \<open>Which entries are called, decided before any call goes out.\<close>

fun select_apis :: "string list option \<Rightarrow> profile_api list \<Rightarrow> profile_error + profile_api list" where
  "select_apis granted [] = Ok []"
| "select_apis granted (api # apis) =
     (case opt_filter (\<lambda>scope. \<not> scope_granted granted scope) (pa_scope api) of
        Some scope \<Rightarrow> if pa_required api then Err (ProfileConsent scope) else select_apis granted apis
      | None \<Rightarrow> (case select_apis granted apis of Inl e \<Rightarrow> Err e | Inr selected \<Rightarrow> Ok (api # selected)))"

datatype profile_fields = Complete text_fields | Partial text_fields string

definition api_location :: "libs \<Rightarrow> hook_libs \<Rightarrow> string \<Rightarrow> string" where
  "api_location L H u = (case parse_url L u of
     Some parsed \<Rightarrow> host_text H parsed @ url_path parsed
   | None \<Rightarrow> ''an unparseable url'')"

definition found_fields :: "libs \<Rightarrow> hook_libs \<Rightarrow> json \<Rightarrow> (string \<times> string) list \<Rightarrow> text_fields \<times> string list" where
  "found_fields L H j claims = foldl (\<lambda>(found, missing) (name, pointer).
     case Option.bind (json_pointer H j pointer) (scalar_to_string L) of
       Some value \<Rightarrow> (AList.update name value found, missing)
     | None \<Rightarrow> (found, missing @ [pointer])) ([], []) claims"

definition profile_request :: "profile_api \<Rightarrow> string \<Rightarrow> hook_request" where
  "profile_request api token = \<lparr>hr_method = ''GET'', hr_url = pa_url api, hr_query = [],
     hr_bearer = Some token, hr_json = None\<rparr>"

definition read_error_text :: "read_error \<Rightarrow> string" where
  "read_error_text e = (case e of
     TooLarge \<Rightarrow> ''the answer is over '' @ nat_str MAX_RESPONSE_BYTES @ '' bytes''
   | ReadFailed cause \<Rightarrow> ''reading the answer failed: '' @ cause)"

definition profile_answer ::
    "libs \<Rightarrow> hook_libs \<Rightarrow> profile_api \<Rightarrow> http_sent \<Rightarrow> string + profile_fields" where
  "profile_answer L H api sent =
     (let place = api_location L H (pa_url api) in
      case sent of
        Inl cause \<Rightarrow> Err (''request to '' @ place @ '' failed: '' @ cause)
      | Inr a \<Rightarrow>
          if \<not> is_success (ha_status a) then Err (place @ '' returned '' @ status_text H (ha_status a))
          else (case read_limited H a of
            Inl e \<Rightarrow> Err (''reading '' @ place @ '' failed: '' @ read_error_text e)
          | Inr body \<Rightarrow> (case json_read L body of
              None \<Rightarrow> Err (place @ '' did not return valid JSON'')
            | Some j \<Rightarrow>
                (let (found, missing) = found_fields L H j (pa_claims api);
                     keys = (case j of JObj kvs \<Rightarrow> join_with '', '' (remdups (map fst kvs)) | _ \<Rightarrow> ''not an object'')
                 in Ok (if missing = [] then Complete found
                        else Partial found (place @ '' has no value at '' @ join_with '', '' missing @
                          '' (response keys: '' @ keys @ '')''))))))"

definition fetch_profile_api ::
    "libs \<Rightarrow> hook_libs \<Rightarrow> 'w net \<Rightarrow> string \<Rightarrow> profile_api \<Rightarrow> ('w, string + profile_fields) io" where
  "fetch_profile_api L H N token api =
     io_bind (call_net N (profile_request api token)) (\<lambda>sent. io_return (profile_answer L H api sent))"

fun merge_results ::
    "text_fields \<Rightarrow> (profile_api \<times> (string + profile_fields)) list \<Rightarrow> profile_error + text_fields" where
  "merge_results acc [] = Ok acc"
| "merge_results acc ((api, result) # rest) = (case result of
     Inr (Partial found missing) \<Rightarrow>
       if pa_required api then Err (ProfileFailed missing) else merge_results (extend_fields acc found) rest
   | Inr (Complete found) \<Rightarrow> merge_results (extend_fields acc found) rest
   | Inl cause \<Rightarrow> if pa_required api then Err (ProfileFailed cause) else merge_results acc rest)"

definition collect_profile ::
    "libs \<Rightarrow> hook_libs \<Rightarrow> 'w net \<Rightarrow> string \<Rightarrow> profile_api list \<Rightarrow> string option \<Rightarrow> string list option
      \<Rightarrow> ('w, profile_error + text_fields) io" where
  "collect_profile L H N provider apis token granted = (case select_apis granted apis of
     Inl e \<Rightarrow> io_return (Err e)
   | Inr selected \<Rightarrow> (case token of
       None \<Rightarrow> io_return (if list_ex pa_required selected
         then Err (ProfileFailed (''kratos holds no access token for provider '' @ CHR 0x27 # provider @ [CHR 0x27]))
         else Ok [])
     | Some t \<Rightarrow> io_bind (io_join (join_rank H) (map (fetch_profile_api L H N t) selected)) (\<lambda>results.
         io_return (merge_results [] (zip selected results)))))"

section \<open>After registration\<close>

record registration_request =
  ar_identity_id :: uuid
  ar_email :: string
  ar_traits :: "(string \<times> json) list"
  ar_provider :: "string option"
  ar_granted_scopes :: "string list option"

text \<open>A \<open>serde_json::Map\<close>: of two members of one name the last is kept.\<close>

fun de_object :: "json \<Rightarrow> (string \<times> json) list option" where
  "de_object (JObj kvs) = Some (foldl (\<lambda>acc (k, v). AList.update k v acc) [] kvs)"
| "de_object _ = None"

definition de_registration_request :: "libs \<Rightarrow> json \<Rightarrow> registration_request option" where
  "de_registration_request L j = Option.bind
     (struct_fields_default 2 [''identity_id'', ''email'', ''traits'', ''provider'', ''granted_scopes''] j) (\<lambda>field.
     Option.bind (de_uuid L (field ''identity_id'')) (\<lambda>i.
     Option.bind (de_string (field ''email'')) (\<lambda>email.
     Option.bind (de_default [] de_object (field ''traits'')) (\<lambda>traits.
     Option.bind (de_opt as_str (field ''provider'')) (\<lambda>provider.
     Option.bind (de_opt as_strings (field ''granted_scopes'')) (\<lambda>scopes.
       Some \<lparr>ar_identity_id = i, ar_email = email, ar_traits = traits, ar_provider = provider,
         ar_granted_scopes = scopes\<rparr>))))))"

datatype registration_service_error =
    ConsentRequired profile_error
  | ProfileApiFailed profile_error
  | RegistrationRejected webhook_error
  | RegistrationHandlerFailed webhook_error
  | IdentityLookupFailed hook_upstream_error
  | IdentityGone
  | TimedOut duration

definition trait_fields :: "libs \<Rightarrow> (string \<times> json) list \<Rightarrow> text_fields" where
  "trait_fields L traits = extend_fields [] (List.map_filter (\<lambda>(name, value).
     if name = ''email'' then None else map_option (Pair name) (scalar_to_string L value)) traits)"

definition provider_fields ::
    "libs \<Rightarrow> hook_libs \<Rightarrow> 'w net \<Rightarrow> string \<Rightarrow> profile_api list \<Rightarrow> identity \<Rightarrow> registration_request
      \<Rightarrow> ('w, registration_service_error + text_fields) io" where
  "provider_fields L H N provider apis k req =
     io_bind (collect_profile L H N provider apis (oidc_access_token k provider) (ar_granted_scopes req))
      (\<lambda>r. io_return (map_err (\<lambda>e. case e of
         ProfileConsent scope \<Rightarrow> ConsentRequired e | ProfileFailed cause \<Rightarrow> ProfileApiFailed e) r))"

definition registered_identity ::
    "libs \<Rightarrow> hook_libs \<Rightarrow> 'w net \<Rightarrow> hooks_state \<Rightarrow> uuid \<Rightarrow> bool \<Rightarrow> ('w, registration_service_error + identity) io" where
  "registered_identity L H N s i include_oidc =
     io_bind (get_identity L H N (hs_kratos s) i include_oidc) (\<lambda>r. io_return (map_err (\<lambda>error.
       if is_not_found error then IdentityGone else IdentityLookupFailed error) r))"

definition forward_registration ::
    "hook_libs \<Rightarrow> 'w net \<Rightarrow> hooks_state \<Rightarrow> registration_request \<Rightarrow> identity \<Rightarrow> text_fields
      \<Rightarrow> ('w, registration_service_error + unit) io" where
  "forward_registration H N s req k extra = (case hs_registration s of
     None \<Rightarrow> io_return (Ok ())
   | Some h \<Rightarrow> io_bind (webhook_registration H N h (ar_identity_id req) (ar_email req) (email_verified k) extra)
       (\<lambda>r. io_return (map_err (\<lambda>error. if is_refusal error then RegistrationRejected error
          else RegistrationHandlerFailed error) r)))"

definition used_provider :: "registration_request \<Rightarrow> string option" where
  "used_provider req = opt_filter (\<lambda>p. p \<noteq> []) (ar_provider req)"

definition used_apis :: "hooks_state \<Rightarrow> registration_request \<Rightarrow> profile_api list" where
  "used_apis s req = (case Option.bind (used_provider req) (map_of (hs_profile_apis s)) of
     None \<Rightarrow> [] | Some apis \<Rightarrow> apis)"

definition collect_and_forward ::
    "libs \<Rightarrow> hook_libs \<Rightarrow> 'w net \<Rightarrow> hooks_state \<Rightarrow> registration_request
      \<Rightarrow> ('w, registration_service_error + unit) io" where
  "collect_and_forward L H N s req =
     (let apis = used_apis s req in
      if hs_registration s = None \<and> apis = [] then io_return (Ok ())
      else io_try (registered_identity L H N s (ar_identity_id req) (apis \<noteq> [])) (\<lambda>k.
        let form = trait_fields L (ar_traits req) in
        io_try (case opt_filter (\<lambda>p. apis \<noteq> []) (used_provider req) of
            None \<Rightarrow> io_return (Ok form)
          | Some provider \<Rightarrow> io_bind (provider_fields L H N provider apis k req)
              (\<lambda>r. io_return (case r of Inl e \<Rightarrow> Err e | Inr extra \<Rightarrow> Ok (extend_fields form extra))))
          (\<lambda>extra. forward_registration H N s req k extra)))"

definition delete_failed :: "hook_libs \<Rightarrow> 'w net \<Rightarrow> hooks_state \<Rightarrow> uuid \<Rightarrow> ('w, unit) io" where
  "delete_failed H N s i = io_bind (kratos_delete_identity H N (hs_kratos s) i) (\<lambda>r. io_return ())"

definition register_within ::
    "duration \<Rightarrow> ('w, registration_service_error + unit) io \<Rightarrow> ('w, registration_service_error + unit) io" where
  "register_within budget m s = (case m s of
     (None, s') \<Rightarrow> (Some (Err (TimedOut budget)), s') | (Some r, s') \<Rightarrow> (Some r, s'))"

definition register ::
    "libs \<Rightarrow> hook_libs \<Rightarrow> 'w net \<Rightarrow> hooks_state \<Rightarrow> registration_request
      \<Rightarrow> ('w, registration_service_error + unit) io" where
  "register L H N s req =
     io_bind (register_within (hs_request_timeout s div 2) (collect_and_forward L H N s req)) (\<lambda>result.
       if result \<noteq> Ok () \<and> result \<noteq> Err IdentityGone
       then io_bind (delete_failed H N s (ar_identity_id req)) (\<lambda>u. io_return result)
       else io_return result)"

text \<open>The status, reason and text Kratos is answered with.\<close>

definition registration_status :: "registration_service_error \<Rightarrow> nat \<times> string \<times> string" where
  "registration_status e = (case e of
     ConsentRequired _ \<Rightarrow> (422, ''ConsentRequired'', ''a permission this sign-up needs was not granted'')
   | ProfileApiFailed _ \<Rightarrow> (422, ''ProfileApiFailed'', ''the profile could not be read from the sign-in provider'')
   | RegistrationRejected _ \<Rightarrow> (422, ''RegistrationRejected'', ''the registration was rejected'')
   | RegistrationHandlerFailed _ \<Rightarrow> (502, ''RegistrationHandlerFailed'', ''the registration could not be completed'')
   | IdentityLookupFailed _ \<Rightarrow> (502, ''IdentityLookupFailed'', ''the identity could not be looked up'')
   | IdentityGone \<Rightarrow> (410, ''IdentityGone'', ''the identity no longer exists'')
   | TimedOut _ \<Rightarrow> (504, ''RegistrationTimedOut'', ''the registration took too long''))"

definition hook_answer :: "('e \<Rightarrow> nat \<times> string \<times> string) \<Rightarrow> 'e + unit \<Rightarrow> nat \<times> json" where
  "hook_answer status r = (case r of
     Inl e \<Rightarrow> (let (code, reason, details) = status e in (code, kratos_hook_error details reason))
   | Inr u \<Rightarrow> (200, JObj []))"

definition after_registration ::
    "libs \<Rightarrow> hook_libs \<Rightarrow> 'w net \<Rightarrow> hooks_state \<Rightarrow> registration_request \<Rightarrow> ('w, nat \<times> json) io" where
  "after_registration L H N s req =
     io_bind (register L H N s req) (\<lambda>r. io_return (hook_answer registration_status r))"

section \<open>After verification\<close>

record verification_request =
  av_identity_id :: uuid
  av_email :: string

definition de_verification_request :: "libs \<Rightarrow> json \<Rightarrow> verification_request option" where
  "de_verification_request L j = Option.bind (struct_fields [''identity_id'', ''email''] j) (\<lambda>field.
     Option.bind (de_uuid L (field ''identity_id'')) (\<lambda>i.
     Option.bind (de_string (field ''email'')) (\<lambda>email. Some \<lparr>av_identity_id = i, av_email = email\<rparr>)))"

definition notify ::
    "hook_libs \<Rightarrow> 'w net \<Rightarrow> hooks_state \<Rightarrow> verification_request \<Rightarrow> ('w, webhook_error + unit) io" where
  "notify H N s req = (case hs_verification s of
     None \<Rightarrow> io_return (Ok ())
   | Some h \<Rightarrow> io_bind (webhook_email_verified H N h (av_identity_id req) (av_email req)) (\<lambda>r.
       io_return (case r of Inl error \<Rightarrow> if is_refusal error then Ok () else Err error | Inr u \<Rightarrow> Ok u)))"

definition verification_status :: "webhook_error \<Rightarrow> nat \<times> string \<times> string" where
  "verification_status e = (502, ''NoticeFailed'', ''the verification notice could not be delivered'')"

definition after_verification ::
    "hook_libs \<Rightarrow> 'w net \<Rightarrow> hooks_state \<Rightarrow> verification_request \<Rightarrow> ('w, nat \<times> json) io" where
  "after_verification H N s req = io_bind (notify H N s req) (\<lambda>r. io_return (hook_answer verification_status r))"

section \<open>Lemmas\<close>

text \<open>\<open>asks m R\<close>: whatever the world answers or leaves unanswered, every call \<open>m\<close> makes satisfies \<open>R\<close>.\<close>

definition asks :: "('w, 'a) io \<Rightarrow> (hook_request \<Rightarrow> bool) \<Rightarrow> bool" where
  "asks m R \<longleftrightarrow> (\<forall>s r s'. m s = (r, s') \<longrightarrow> (\<exists>c. ns_log s' = ns_log s @ c \<and> (\<forall>x \<in> set c. R (fst x))))"

lemma asksD: "asks m R \<Longrightarrow> m s = (r, s') \<Longrightarrow> \<exists>c. ns_log s' = ns_log s @ c \<and> (\<forall>x \<in> set c. R (fst x))"
  by (simp add: asks_def)

lemma asks_return [simp, intro]: "asks (io_return x) R"
  by (simp add: asks_def)

lemma asks_call: "R rq \<Longrightarrow> asks (call_net N rq) R"
  by (auto simp: asks_def call_net_def split: prod.splits)

lemma asks_bind [intro]:
  assumes "asks m R" "\<And>x. asks (f x) R"
  shows "asks (io_bind m f) R"
  unfolding asks_def
proof (intro allI impI)
  fix s r s' assume run: "io_bind m f s = (r, s')"
  obtain x s1 where m: "m s = (x, s1)" by fastforce
  from asksD [OF assms(1) m] obtain c where c: "ns_log s1 = ns_log s @ c" "\<forall>x \<in> set c. R (fst x)" by blast
  show "\<exists>c. ns_log s' = ns_log s @ c \<and> (\<forall>x \<in> set c. R (fst x))"
  proof (cases x)
    case None
    with run m c show ?thesis by (auto simp: io_bind_def)
  next
    case (Some a)
    with run m have "f a s1 = (r, s')" by (simp add: io_bind_def)
    from asksD [OF assms(2) this] obtain d where "ns_log s' = ns_log s1 @ d" "\<forall>x \<in> set d. R (fst x)" by blast
    with c show ?thesis by (intro exI [of _ "c @ d"]) auto
  qed
qed

lemma asks_try [intro]: "asks m R \<Longrightarrow> (\<And>x. asks (f x) R) \<Longrightarrow> asks (io_try m f) R"
  unfolding io_try_def by (auto split: sum.splits)

lemma asks_join:
  assumes "\<And>i. i < length ms \<Longrightarrow> asks (ms ! i) R"
  shows "asks (io_join rank ms) R"
proof -
  have each: "\<exists>c. ns_log s' = ns_log s @ c \<and> (\<forall>x \<in> set c. R (fst x))"
    if "\<And>i. i \<in> set order \<Longrightarrow> asks (m i) R" "run_each m order s = (xs, s')"
    for m :: "nat \<Rightarrow> ('a, 'b) io" and order s s' xs
    using that
  proof (induction order arbitrary: s xs)
    case (Cons i order)
    obtain x s1 ys where m: "m i s = (x, s1)" and r: "run_each m order s1 = (ys, s')"
      using Cons.prems(2) by (auto split: prod.splits)
    from asksD [OF Cons.prems(1) m] obtain c where "ns_log s1 = ns_log s @ c" "\<forall>x \<in> set c. R (fst x)" by auto
    moreover from Cons.IH [OF Cons.prems(1) r] obtain d where "ns_log s' = ns_log s1 @ d" "\<forall>x \<in> set d. R (fst x)" by auto
    ultimately show ?case by (intro exI [of _ "c @ d"]) auto
  qed simp
  show ?thesis unfolding asks_def
  proof (intro allI impI)
    fix s r s' assume "io_join rank ms s = (r, s')"
    then obtain xs where "run_each ((!) ms) (sort_key rank [0..<length ms]) s = (xs, s')"
      by (auto simp: io_join_def split: prod.splits)
    from each [OF _ this] assms show "\<exists>c. ns_log s' = ns_log s @ c \<and> (\<forall>x \<in> set c. R (fst x))" by simp
  qed
qed

lemma asks_get_identity: "R (hook_get (identity_url H base i) (if b then [(''include_credential'', ''oidc'')] else [])) \<Longrightarrow>
    asks (get_identity L H N base i b) R"
  unfolding get_identity_def send_hook_def by (intro asks_try asks_bind asks_call asks_return)

definition no_delete :: "hook_request \<Rightarrow> bool" where
  "no_delete rq \<longleftrightarrow> hr_method rq \<noteq> ''DELETE''"

lemma no_delete_simps [simp]:
  "no_delete (hook_get u q)" "no_delete (profile_request api token)" "no_delete (webhook_request h p)"
  "\<not> no_delete (hook_delete u q)"
  by (simp_all add: no_delete_def hook_get_def profile_request_def webhook_request_def hook_delete_def)

lemma asks_collect_profile: "asks (collect_profile L H N provider apis token granted) no_delete"
  unfolding collect_profile_def fetch_profile_api_def
  by (auto split: sum.splits option.splits intro!: asks_join asks_bind asks_call)

lemma asks_forward: "asks (forward_registration H N s req k extra) no_delete"
  unfolding forward_registration_def webhook_registration_def webhook_post_def
  by (auto split: option.splits intro!: asks_try asks_bind asks_call)

lemma asks_collect_and_forward: "asks (collect_and_forward L H N s req) no_delete"
proof -
  have "asks (registered_identity L H N s i b) no_delete" for i b
    unfolding registered_identity_def by (intro asks_bind asks_get_identity asks_return) simp
  moreover have "asks (case x of None \<Rightarrow> io_return (Inr form)
      | Some provider \<Rightarrow> io_bind (provider_fields L H N provider apis k req)
          (\<lambda>r. io_return (case r of Inl e \<Rightarrow> Inl e | Inr extra \<Rightarrow> Inr (extend_fields form extra)))) no_delete" for x form apis k
    unfolding provider_fields_def by (cases x) (auto intro!: asks_bind asks_collect_profile)
  ultimately show ?thesis
    unfolding collect_and_forward_def Let_def using asks_forward by (auto intro!: asks_try)
qed

text \<open>What the calls of a successful collection were.\<close>

definition served :: "libs \<Rightarrow> hook_libs \<Rightarrow> string \<Rightarrow> profile_api \<Rightarrow> (hook_request \<times> http_sent option) list \<Rightarrow> bool" where
  "served L H token api c \<longleftrightarrow> (\<exists>a body j. (profile_request api token, Some (Inr a)) \<in> set c \<and> is_success (ha_status a) \<and>
     read_limited H a = Ok body \<and> json_read L body = Some j \<and>
     (\<forall>(name, pointer) \<in> set (pa_claims api). Option.bind (json_pointer H j pointer) (scalar_to_string L) \<noteq> None))"

lemma found_fields_missing:
  "snd (foldl (\<lambda>(found, missing) (name, pointer). case Option.bind (json_pointer H j pointer) (scalar_to_string L) of
       Some value \<Rightarrow> (AList.update name value found, missing)
     | None \<Rightarrow> (found, missing @ [pointer])) (f0, m0) claims) = [] \<longleftrightarrow>
   m0 = [] \<and> (\<forall>(name, pointer) \<in> set claims. Option.bind (json_pointer H j pointer) (scalar_to_string L) \<noteq> None)"
  by (induction claims arbitrary: f0 m0) (auto split: option.splits)

lemma profile_answer_complete:
  assumes "profile_answer L H api sent = Inr (Complete found)"
  shows "served L H token api [(profile_request api token, Some sent)]"
proof -
  obtain a body j where a: "sent = Inr a" "is_success (ha_status a)" "read_limited H a = Inr body" "json_read L body = Some j"
    "snd (found_fields L H j (pa_claims api)) = []"
    using assms by (auto simp: profile_answer_def Let_def split: sum.splits option.splits if_splits prod.splits)
  from a(5) have "\<forall>(name, pointer) \<in> set (pa_claims api). Option.bind (json_pointer H j pointer) (scalar_to_string L) \<noteq> None"
    unfolding found_fields_def found_fields_missing by simp
  with a(1-4) show ?thesis unfolding served_def by (intro exI [of _ a] exI [of _ body] exI [of _ j]) simp
qed

lemma served_mono: "served L H token api c \<Longrightarrow> set c \<subseteq> set d \<Longrightarrow> served L H token api d"
  unfolding served_def by blast

lemma calls_fetch:
  "calls (fetch_profile_api L H N token api) (\<lambda>r c. \<forall>found. r = Ok (Complete found) \<longrightarrow> served L H token api c)"
  unfolding fetch_profile_api_def
proof (rule calls_bind [where Q = "\<lambda>sent c. c = [(profile_request api token, Some sent)]"])
  show "calls (call_net N (profile_request api token)) (\<lambda>sent c. c = [(profile_request api token, Some sent)])"
    by (auto simp: calls_def call_net_def split: prod.splits)
qed (auto intro!: calls_return dest!: profile_answer_complete [where token = token])

lemma select_apis_Ok:
  "select_apis granted apis = Inr selected \<Longrightarrow>
     selected = filter (\<lambda>api. is_none_or (scope_granted granted) (pa_scope api)) apis \<and>
     (\<forall>api \<in> set apis. pa_required api \<longrightarrow> api \<in> set selected)"
proof (induction apis arbitrary: selected)
  case Nil
  then show ?case by simp
next
  case (Cons api apis)
  then show ?case
    by (cases "pa_scope api") (auto split: sum.splits if_splits option.splits)
qed

lemma merge_required:
  "merge_results acc rs = Inr f \<Longrightarrow> (api, result) \<in> set rs \<Longrightarrow> pa_required api \<Longrightarrow> \<exists>found. result = Inr (Complete found)"
proof (induction acc rs arbitrary: f rule: merge_results.induct)
  case (2 acc api' result' rest)
  then show ?case by (auto split: sum.splits profile_fields.splits if_splits)
qed simp

lemma calls_collect_profile:
  "calls (collect_profile L H N provider apis token granted) (\<lambda>r c. is_ok r \<longrightarrow>
     (\<forall>api \<in> set apis. pa_required api \<longrightarrow> is_none_or (scope_granted granted) (pa_scope api) \<and>
        (\<exists>t. token = Some t \<and> served L H t api c)))"
proof (cases "select_apis granted apis")
  case (Inl e)
  then show ?thesis by (simp add: collect_profile_def calls_def)
next
  case (Inr selected)
  note sel = select_apis_Ok [OF Inr]
  show ?thesis
  proof (cases token)
    case None
    with Inr sel show ?thesis by (auto simp: collect_profile_def list_ex_iff intro!: calls_return)
  next
    case (Some t)
    let ?results = "\<lambda>results c. length results = length selected \<and> (\<forall>n < length selected. \<exists>c1. set c1 \<subseteq> set c \<and>
          (\<forall>found. results ! n = Inr (Complete found) \<longrightarrow> served L H t (selected ! n) c1))"
    have "calls (io_join (join_rank H) (map (fetch_profile_api L H N t) selected)) ?results"
      by (rule calls_conseq [OF calls_join_each [where P = "\<lambda>i r c. \<forall>found. r = Inr (Complete found) \<longrightarrow> served L H t (selected ! i) c"]])
        (auto intro: calls_conseq [OF calls_fetch])
    then show ?thesis unfolding collect_profile_def Inr sum.case Some option.case
    proof (rule calls_bind, intro calls_return impI ballI)
      fix results and c :: "(hook_request \<times> http_sent option) list" and api
      assume r: "?results results c"
        and ok: "is_ok (merge_results [] (zip selected results))" and api: "api \<in> set apis" "pa_required api"
      from sel api have "api \<in> set selected" by blast
      then obtain n where n: "n < length selected" "api = selected ! n" by (auto simp: in_set_conv_nth)
      with r have "(api, results ! n) \<in> set (zip selected results)" by (auto simp: set_zip)
      moreover from ok obtain f where "merge_results [] (zip selected results) = Inr f"
        by (cases "merge_results [] (zip selected results)") auto
      ultimately obtain found where "results ! n = Inr (Complete found)" using merge_required api(2) by blast
      with r n have "served L H t api (c @ [])" by (auto elim: served_mono)
      then show "is_none_or (scope_granted granted) (pa_scope api) \<and> (\<exists>ta. Some t = Some ta \<and> served L H ta api (c @ []))"
        using \<open>api \<in> set selected\<close> sel by simp
    qed
  qed
qed

definition identity_read ::
    "libs \<Rightarrow> hook_libs \<Rightarrow> hooks_state \<Rightarrow> uuid \<Rightarrow> bool \<Rightarrow> identity \<Rightarrow> (hook_request \<times> http_sent option) list \<Rightarrow> bool" where
  "identity_read L H s i b k c \<longleftrightarrow> (\<exists>a. (hook_get (identity_url H (hs_kratos s) i)
       (if b then [(''include_credential'', ''oidc'')] else []), Some (Inr a)) \<in> set c \<and>
     is_success (ha_status a) \<and> answer_json L (de_identity L) a = Ok k)"

definition required_served ::
    "libs \<Rightarrow> hook_libs \<Rightarrow> hooks_state \<Rightarrow> registration_request \<Rightarrow> identity \<Rightarrow> (hook_request \<times> http_sent option) list \<Rightarrow> bool" where
  "required_served L H s req k c \<longleftrightarrow> (\<forall>api \<in> set (used_apis s req). pa_required api \<longrightarrow>
     is_none_or (scope_granted (ar_granted_scopes req)) (pa_scope api) \<and>
     (\<exists>provider token. used_provider req = Some provider \<and> oidc_access_token k provider = Some token \<and>
        served L H token api c))"

definition deployer_told ::
    "hook_libs \<Rightarrow> hooks_state \<Rightarrow> registration_request \<Rightarrow> identity \<Rightarrow> (hook_request \<times> http_sent option) list \<Rightarrow> bool" where
  "deployer_told H s req k c \<longleftrightarrow> (case hs_registration s of
     None \<Rightarrow> True
   | Some h \<Rightarrow> (\<exists>extra. answered c (webhook_request h
       (registration_payload H (ar_identity_id req) (ar_email req) (email_verified k) extra)) is_success))"

lemma required_served_mono: "required_served L H s req k c \<Longrightarrow> set c \<subseteq> set d \<Longrightarrow> required_served L H s req k d"
  unfolding required_served_def using served_mono by meson

lemma calls_registered_identity:
  "calls (registered_identity L H N s i b) (\<lambda>r c. \<forall>k. r = Inr k \<longrightarrow> identity_read L H s i b k c)"
  unfolding registered_identity_def
  by (rule calls_bind [OF calls_get_identity], rule calls_return) (auto simp: identity_read_def)

lemma calls_provider_fields:
  "calls (provider_fields L H N provider apis k req) (\<lambda>r c. is_ok r \<longrightarrow>
     (\<forall>api \<in> set apis. pa_required api \<longrightarrow> is_none_or (scope_granted (ar_granted_scopes req)) (pa_scope api) \<and>
        (\<exists>t. oidc_access_token k provider = Some t \<and> served L H t api c)))"
  unfolding provider_fields_def
  by (rule calls_bind [OF calls_collect_profile], rule calls_return) (auto simp: is_ok_def map_err_def split: sum.splits)

lemma calls_all_fields:
  assumes "apis = used_apis s req"
  shows "calls (case opt_filter (\<lambda>p. apis \<noteq> []) (used_provider req) of
       None \<Rightarrow> io_return (Ok form)
     | Some provider \<Rightarrow> io_bind (provider_fields L H N provider apis k req)
         (\<lambda>r. io_return (case r of Inl e \<Rightarrow> Err e | Inr extra \<Rightarrow> Ok (extend_fields form extra))))
    (\<lambda>r c. is_ok r \<longrightarrow> required_served L H s req k c)"
proof (cases "opt_filter (\<lambda>p. apis \<noteq> []) (used_provider req)")
  case None
  then have "apis = []" using assms by (cases "used_provider req") (auto simp: used_apis_def split: if_splits)
  with assms show ?thesis unfolding None by (auto simp: required_served_def intro: calls_return)
next
  case (Some provider)
  then have p: "used_provider req = Some provider" by simp
  show ?thesis unfolding Some option.case
    by (rule calls_bind [OF calls_provider_fields], rule calls_return)
      (auto simp: required_served_def p assms is_ok_def split: sum.splits)
qed

lemma calls_forward:
  "calls (forward_registration H N s req k extra) (\<lambda>r c. is_ok r \<longrightarrow> deployer_told H s req k c)"
proof (cases "hs_registration s")
  case None
  then show ?thesis by (simp add: forward_registration_def deployer_told_def calls_def)
next
  case (Some h)
  let ?rq = "webhook_request h (registration_payload H (ar_identity_id req) (ar_email req) (email_verified k) extra)"
  have post: "calls (webhook_post N h ''registration'' (registration_payload H (ar_identity_id req) (ar_email req) (email_verified k) extra))
      (\<lambda>r c. is_ok r \<longrightarrow> answered c ?rq is_success)"
    by (auto simp: calls_def webhook_post_def io_bind_def call_net_def answered_def is_ok_def split: prod.splits option.splits sum.splits if_splits)
  have "calls (webhook_registration H N h (ar_identity_id req) (ar_email req) (email_verified k) extra)
      (\<lambda>r c. is_ok r \<longrightarrow> answered c ?rq is_success)"
    unfolding webhook_registration_def by (rule calls_try [OF post]) (auto intro!: calls_return)
  then show ?thesis unfolding forward_registration_def Some option.case
    by (rule calls_bind, intro calls_return) (auto simp: deployer_told_def Some is_ok_def map_err_def split: sum.splits)
qed

lemma calls_collect_and_forward:
  "calls (collect_and_forward L H N s req) (\<lambda>r c. is_ok r \<longrightarrow>
     hs_registration s = None \<and> used_apis s req = [] \<and> c = [] \<or>
     (\<exists>k. identity_read L H s (ar_identity_id req) (used_apis s req \<noteq> []) k c \<and>
        required_served L H s req k c \<and> deployer_told H s req k c))"
proof (cases "hs_registration s = None \<and> used_apis s req = []")
  case True
  then show ?thesis by (simp add: collect_and_forward_def calls_def)
next
  case False
  show ?thesis unfolding collect_and_forward_def Let_def if_not_P [OF False]
  proof (rule calls_try [OF calls_registered_identity], simp, rule calls_try [OF calls_all_fields [OF refl]], simp)
    fix k and x :: text_fields and c c2 :: "(hook_request \<times> http_sent option) list"
    assume k: "\<forall>k'. Inr k = Inr k' \<longrightarrow> identity_read L H s (ar_identity_id req) (used_apis s req \<noteq> []) k' c"
      and r: "is_ok (Inr x) \<longrightarrow> required_served L H s req k c2"
    show "calls (forward_registration H N s req k x) (\<lambda>r c3. is_ok r \<longrightarrow>
       hs_registration s = None \<and> used_apis s req = [] \<and> c @ c2 @ c3 = [] \<or>
       (\<exists>k. identity_read L H s (ar_identity_id req) (used_apis s req \<noteq> []) k (c @ c2 @ c3) \<and>
          required_served L H s req k (c @ c2 @ c3) \<and> deployer_told H s req k (c @ c2 @ c3)))"
    proof (rule calls_conseq [OF calls_forward], intro impI disjI2 exI [of _ k] conjI)
      fix y :: "registration_service_error + unit" and c3 :: "(hook_request \<times> http_sent option) list"
      assume d: "is_ok y \<longrightarrow> deployer_told H s req k c3" and y: "is_ok y"
      show "identity_read L H s (ar_identity_id req) (used_apis s req \<noteq> []) k (c @ c2 @ c3)"
        using k by (auto simp: identity_read_def)
      show "required_served L H s req k (c @ c2 @ c3)"
        by (rule required_served_mono [of _ _ _ _ _ c2]) (use r in auto)
      show "deployer_told H s req k (c @ c2 @ c3)"
        using d y answered_mono [of c3 _ is_success "c @ c2 @ c3"]
        by (auto simp: deployer_told_def split: option.splits)
    qed
  qed
qed


definition demo_registration :: registration_request where
  "demo_registration = \<lparr>ar_identity_id = 1, ar_email = ''a'', ar_traits = [(''name'', JStr ''n'')], ar_provider = None,
     ar_granted_scopes = None\<rparr>"

text \<open>A deployer whose handler is down.\<close>

definition failing_net :: "unit net" where
  "failing_net rq w = (if hr_method rq = ''POST'' then (Some (Inr \<lparr>ha_status = 500, ha_headers = [], ha_body = Inr ''''\<rparr>), w)
     else demo_net rq w)"


text \<open>Nothing undoes a verified address: the notice never deletes anything, and only a failure that is
  not a refusal is an error.\<close>

lemma after_verification_deletes_nothing: "asks (after_verification H N s req) no_delete"
  unfolding after_verification_def notify_def webhook_email_verified_def webhook_post_def
  by (auto split: option.splits intro!: asks_bind asks_try asks_call)

end
