(* ===== verification/HooksServer.thy ===== *)
theory HooksServer
  imports TokenHook Revocation Registration BffConfig
begin

text \<open>
  Starting and serving hooks: the settings (\<open>hooks/src/config.rs\<close>, from the point where the layers have
  been merged), the command line (\<open>hooks/src/cli.rs\<close>), and the routes behind the API key
  (\<open>hooks/src/server/router.rs\<close>) with the rejection of a body that does not fit
  (\<open>common/src/extract.rs\<close>).
\<close>

section \<open>Settings\<close>

definition default_hooks_config :: hooks_config where
  "default_hooks_config = \<lparr>hk_port = 1983, hk_api_key = '''', hk_kratos_admin_url = ''http://localhost:4434'',
     hk_hydra_admin_url = ''http://localhost:4445'', hk_bff_internal_url = ''http://localhost:8082'',
     hk_bff_internal_api_key = '''', hk_registration_handler = None, hk_login_claims_handler = None,
     hk_verification_handler = None, hk_profile_apis = [], hk_require_verified_email = True,
     hk_request_timeout_secs = 30, hk_upstream_timeout_secs = 10\<rparr>"

definition default_webhook_timeout_secs :: "64 word" where "default_webhook_timeout_secs = 10"

definition HOOKS_MIN_PROD_API_KEY_LEN :: nat where "HOOKS_MIN_PROD_API_KEY_LEN = 16"

datatype hooks_config_error =
    HkUnset string
  | HkUnreadable string
  | HkShortKey
  | HkInvalidUrl string
  | HkNotHttp string
  | HkInsecure string
  | HkZeroTimeout
  | HkUpstreamTimeout
  | HkHandlerTimeout string

definition saturating_double :: "64 word \<Rightarrow> 64 word" where
  "saturating_double n = (if unat n * 2 < 2 ^ 64 then n * 2 else - 1)"

definition loopback_host :: "url_host option \<Rightarrow> bool" where
  "loopback_host h = (case h of
     Some (Domain d) \<Rightarrow> d = ''localhost''
   | Some (HostV4 ip) \<Rightarrow> drop_bit 24 ip = 127
   | Some (HostV6 ip) \<Rightarrow> ip = 1
   | None \<Rightarrow> False)"

definition require_https_or_loopback :: "libs \<Rightarrow> string \<Rightarrow> string \<Rightarrow> hooks_config_error + unit" where
  "require_https_or_loopback L what u = (case parse_url L u of
     None \<Rightarrow> Err (HkInvalidUrl what)
   | Some parsed \<Rightarrow> if url_scheme parsed = ''https'' \<or> loopback_host (url_host_of parsed) then Ok ()
                   else Err (HkInsecure what))"

definition check_internal_url :: "libs \<Rightarrow> string \<Rightarrow> string \<Rightarrow> hooks_config_error + string" where
  "check_internal_url L var u = (case parse_url L u of
     None \<Rightarrow> Err (HkInvalidUrl var)
   | Some parsed \<Rightarrow>
       if (url_scheme parsed = ''http'' \<or> url_scheme parsed = ''https'') \<and> url_host_of parsed \<noteq> None
       then Ok (trim_slashes u) else Err (HkNotHttp var))"

definition configured_handlers :: "hooks_config \<Rightarrow> (string \<times> webhook_config) list" where
  "configured_handlers c = List.map_filter (\<lambda>(what, handler). map_option (Pair what) handler)
     [(''registration_handler'', hk_registration_handler c),
      (''login_claims_handler'', hk_login_claims_handler c),
      (''verification_handler'', hk_verification_handler c)]"

definition check_handlers :: "libs \<Rightarrow> hooks_config \<Rightarrow> hooks_config_error + unit" where
  "check_handlers L c =
     and_then (each_ok (\<lambda>(what, h). require_https_or_loopback L what (wc_url h)) (configured_handlers c))
    (and_then (each_ok (\<lambda>api. require_https_or_loopback L ''profile api url'' (pa_url api))
       (concat (map snd (hk_profile_apis c))))
    (and_then (ensures
       [(0 < hk_request_timeout_secs c \<and> 0 < hk_upstream_timeout_secs c, HkZeroTimeout),
        (saturating_double (hk_upstream_timeout_secs c) < hk_request_timeout_secs c, HkUpstreamTimeout)])
       (each_ok (\<lambda>(what, h). ensures
         [(0 < wc_timeout_secs h \<and> saturating_double (wc_timeout_secs h) \<le> hk_request_timeout_secs c, HkHandlerTimeout what)])
         (configured_handlers c))))"

definition hooks_validate :: "libs \<Rightarrow> hooks_config \<Rightarrow> hooks_config_error + hooks_config" where
  "hooks_validate L c =
     (case check_internal_url L ''WA_KRATOS_ADMIN_URL'' (hk_kratos_admin_url c) of
        Inl e \<Rightarrow> Err e
      | Inr kratos \<Rightarrow> (case check_internal_url L ''WA_HYDRA_ADMIN_URL'' (hk_hydra_admin_url c) of
        Inl e \<Rightarrow> Err e
      | Inr hydra \<Rightarrow> (case check_internal_url L ''WA_BFF_INTERNAL_URL'' (hk_bff_internal_url c) of
        Inl e \<Rightarrow> Err e
      | Inr bff \<Rightarrow>
          and_then (check_handlers L c)
            (Ok (c\<lparr>hk_kratos_admin_url := kratos, hk_hydra_admin_url := hydra, hk_bff_internal_url := bff\<rparr>)))))"

definition hooks_load ::
    "libs \<Rightarrow> profile \<Rightarrow> (string \<Rightarrow> bool) \<Rightarrow> string + hooks_config \<Rightarrow> hooks_config_error + hooks_config" where
  "hooks_load L prof is_set extracted =
     and_then (if prof = Prod
       then each_ok (\<lambda>key. ensures [(is_set key, HkUnset key)]) [''kratos_admin_url'', ''hydra_admin_url'', ''bff_internal_url'']
       else Ok ())
     (case extracted of
        Inl e \<Rightarrow> Err (HkUnreadable e)
      | Inr c \<Rightarrow>
          (let key_len = length (hk_api_key c) in
           and_then (ensures
             [(prof \<noteq> Prod \<or> key_len = 0 \<or> HOOKS_MIN_PROD_API_KEY_LEN \<le> key_len, HkShortKey)])
           (hooks_validate L c)))"

section \<open>The command line\<close>

datatype hooks_command = Serve

definition hooks_usage :: string where "hooks_usage = ''usage: weaveauth-hooks [serve]''"

fun parse_command :: "string list \<Rightarrow> string + hooks_command" where
  "parse_command [] = Ok Serve"
| "parse_command (arg # args) =
     (if arg \<noteq> ''serve'' then Err hooks_usage else if args \<noteq> [] then Err hooks_usage else Ok Serve)"

section \<open>The routes\<close>

text \<open>A body as \<open>Json<T>\<close> delivers it: the status it was rejected with, or the document. A document that
  does not fit the type is 422.\<close>

definition invalid_request :: "nat \<Rightarrow> nat \<times> json" where
  "invalid_request status =
     (status, if 500 \<le> status
        then JObj [(''reason'', JStr ''InternalError''), (''details'', JStr ''internal server error'')]
        else JObj [(''reason'', JStr ''InvalidRequest''), (''details'', JStr ''invalid request'')])"

definition api_json :: "(json \<Rightarrow> 'a option) \<Rightarrow> nat + json \<Rightarrow> nat + 'a" where
  "api_json f body = (case body of Inl status \<Rightarrow> Err status | Inr j \<Rightarrow> ok_or (f j) 422)"

definition with_json ::
    "(json \<Rightarrow> 'a option) \<Rightarrow> nat + json \<Rightarrow> ('a \<Rightarrow> ('w, nat \<times> json) io) \<Rightarrow> ('w, nat \<times> json) io" where
  "with_json f body handler = (case api_json f body of
     Inl status \<Rightarrow> io_return (invalid_request status)
   | Inr req \<Rightarrow> handler req)"

definition error_body :: "error_response \<Rightarrow> nat \<times> json" where
  "error_body e = (er_status e, JObj [(''reason'', JStr (er_reason e)), (''details'', JStr (er_details e))])"

definition api_result :: "('w, error_response + json) io \<Rightarrow> ('w, nat \<times> json) io" where
  "api_result m = io_bind m (\<lambda>r. io_return (case r of Inl e \<Rightarrow> error_body e | Inr j \<Rightarrow> (200, j)))"

datatype hooks_route = TokenHookRoute | RegistrationRoute | RecoveryRoute | PasswordRoute | VerificationRoute

definition hooks_routes :: "(string \<times> hooks_route) list" where
  "hooks_routes = [(''/hydra/token-hook'', TokenHookRoute), (''/kratos/after-registration'', RegistrationRoute),
     (''/kratos/after-recovery'', RecoveryRoute), (''/kratos/after-password-change'', PasswordRoute),
     (''/kratos/after-verification'', VerificationRoute)]"

definition run_route ::
    "libs \<Rightarrow> hook_libs \<Rightarrow> 'w net \<Rightarrow> hooks_state \<Rightarrow> string \<Rightarrow> string \<Rightarrow> hooks_route \<Rightarrow> nat + json \<Rightarrow> ('w, nat \<times> json) io" where
  "run_route L H N s password1 password2 route body = (case route of
     TokenHookRoute \<Rightarrow> with_json de_token_hook_request body (\<lambda>req. api_result (token_hook L H N s req))
   | RegistrationRoute \<Rightarrow> with_json (de_registration_request L) body (after_registration L H N s)
   | RecoveryRoute \<Rightarrow> with_json (de_revocation_request L) body
       (\<lambda>req. api_result (after_recovery L H N s req password1 password2))
   | PasswordRoute \<Rightarrow> with_json (de_revocation_request L) body
       (\<lambda>req. api_result (after_password_change L H N s req password1 password2))
   | VerificationRoute \<Rightarrow> with_json (de_verification_request L) body (after_verification H N s))"

text \<open>The API key is checked on every method of a hook's path. An answer that is not there in time is a 504.\<close>

definition serve_hooks ::
    "libs \<Rightarrow> hook_libs \<Rightarrow> 'w net \<Rightarrow> hooks_state \<Rightarrow> string \<Rightarrow> string \<Rightarrow> string \<Rightarrow> string \<Rightarrow> headers \<Rightarrow> nat + json
      \<Rightarrow> 'w net_state \<Rightarrow> nat \<times> 'w net_state" where
  "serve_hooks L H N s password1 password2 method path h body t =
     (if path = ''/health'' then (if method = ''GET'' \<or> method = ''HEAD'' then 200 else 405, t)
      else case map_of hooks_routes path of
        None \<Rightarrow> (404, t)
      | Some route \<Rightarrow> (case require_api_key L s h of
          Inl e \<Rightarrow> (er_status (api_key_error_response e), t)
        | Inr u \<Rightarrow> if method \<noteq> ''POST'' then (405, t)
            else (case run_route L H N s password1 password2 route body t of
              (None, t') \<Rightarrow> (504, t')
            | (Some (status, j), t') \<Rightarrow> (status, t'))))"

section \<open>What starting and serving promise\<close>

lemma saturating_double_le:
  "saturating_double n < m \<Longrightarrow> 2 * uint n < uint m" "saturating_double n \<le> m \<Longrightarrow> n \<le> - 1 \<Longrightarrow> 2 * uint n \<le> uint m \<or> uint m = 2 ^ 64 - 1"
proof -
  have d: "unat (n * 2) = unat n * 2" if "unat n * 2 < 2 ^ 64"
    using that by (simp add: unat_mult_lem [THEN iffD1])
  show "2 * uint n < uint m" if "saturating_double n < m"
  proof (cases "unat n * 2 < 2 ^ 64")
    case True
    with that have "unat n * 2 < unat m" by (simp add: saturating_double_def word_less_nat_alt d)
    then show ?thesis unfolding uint_nat by linarith
  next
    case False
    have "\<not> (- 1 :: 64 word) < m" by (simp add: not_less)
    with that False show ?thesis by (simp add: saturating_double_def)
  qed
  show "2 * uint n \<le> uint m \<or> uint m = 2 ^ 64 - 1" if "saturating_double n \<le> m"
  proof (cases "unat n * 2 < 2 ^ 64")
    case True
    with that have "unat n * 2 \<le> unat m" by (simp add: saturating_double_def word_le_nat_alt d)
    then show ?thesis unfolding uint_nat by linarith
  next
    case False
    with that have "m = - 1" by (simp add: saturating_double_def antisym)
    then show ?thesis by (simp add: unsigned_minus_1_eq_mask mask_eq_exp_minus_1)
  qed
qed

lemma hooks_load_ok:
  assumes "hooks_load L prof is_set extracted = Inr c"
  shows "\<exists>c0. extracted = Inr c0 \<and> hooks_validate L c0 = Inr c \<and> hk_api_key c = hk_api_key c0 \<and>
    (prof = Prod \<longrightarrow> hk_api_key c0 = [] \<or> 16 \<le> length (hk_api_key c0))"
proof -
  obtain c0 where c0: "extracted = Inr c0" "hooks_validate L c0 = Inr c"
    "prof = Prod \<longrightarrow> hk_api_key c0 = [] \<or> 16 \<le> length (hk_api_key c0)"
    using assms by (auto simp: hooks_load_def Let_def HOOKS_MIN_PROD_API_KEY_LEN_def split: sum.splits)
  moreover from c0(2) have "hk_api_key c = hk_api_key c0"
    by (auto simp: hooks_validate_def split: sum.splits)
  ultimately show ?thesis by blast
qed

lemma hooks_validate_ok:
  assumes "hooks_validate L c0 = Inr c"
  shows "check_handlers L c = Inr () \<and> hk_kratos_admin_url c = trim_slashes (hk_kratos_admin_url c0) \<and>
    hk_hydra_admin_url c = trim_slashes (hk_hydra_admin_url c0) \<and> hk_bff_internal_url c = trim_slashes (hk_bff_internal_url c0)"
proof -
  have same: "check_handlers L (c0\<lparr>hk_kratos_admin_url := a, hk_hydra_admin_url := b, hk_bff_internal_url := d\<rparr>) = check_handlers L c0" for a b d
    by (simp add: check_handlers_def configured_handlers_def)
  show ?thesis using assms
    by (auto simp: hooks_validate_def check_internal_url_def same split: sum.splits option.splits if_splits)
qed

text \<open>Hooks that starts has settings it can keep its promises with. No email, field or token leaves
  in the clear: every handler and profile API is reached over https or on a loopback host. Its key is
  set, and not short under the prod profile. The time budgets fit: the two of a revocation together
  are less than the request timeout, so it is never cut off before its last step reported; twice an
  upstream call fits in a request; and a handler's call fits in the half of it a registration has.\<close>

theorem hooks_budgets_fit:
  assumes load: "hooks_load L prof is_set extracted = Ok c" and start: "new_hooks L c = Ok s"
    and small: "uint (hk_request_timeout_secs c) < 2 ^ 64 - 1"
  shows "hk_api_key c \<noteq> [] \<and> (prof = Prod \<longrightarrow> 16 \<le> length (hk_api_key c)) \<and>
    hs_request_timeout s div 2 + hs_request_timeout s * 2 div 5 < hs_request_timeout s \<and>
    2 * seconds (uint (hk_upstream_timeout_secs c)) < hs_request_timeout s \<and>
    (\<forall>(what, h) \<in> set (configured_handlers c). seconds (uint (wc_timeout_secs h)) \<le> hs_request_timeout s div 2 \<and>
       (\<exists>u. parse_url L (wc_url h) = Some u \<and> (url_scheme u = ''https'' \<or> loopback_host (url_host_of u)))) \<and>
    (\<forall>(provider, apis) \<in> set (hk_profile_apis c). \<forall>api \<in> set apis.
       \<exists>u. parse_url L (pa_url api) = Some u \<and> (url_scheme u = ''https'' \<or> loopback_host (url_host_of u)))"
proof -
  from hooks_load_ok [OF load] have key: "prof = Prod \<longrightarrow> hk_api_key c = [] \<or> 16 \<le> length (hk_api_key c)"
    and "\<exists>c0. hooks_validate L c0 = Inr c" by auto
  then have checks: "check_handlers L c = Inr ()" using hooks_validate_ok by blast
  have s: "hk_api_key c \<noteq> []" "hs_request_timeout s = seconds (uint (hk_request_timeout_secs c))"
    using start by (auto simp: new_hooks_def require_api_keys_def split: sum.splits if_splits)
  let ?T = "uint (hk_request_timeout_secs c)"
  have T: "0 < ?T" "2 * uint (hk_upstream_timeout_secs c) < ?T"
    using checks saturating_double_le(1) by (auto simp: check_handlers_def word_less_def)
  have budgets: "seconds ?T div 2 + seconds ?T * 2 div 5 < seconds ?T"
    using T(1) by (simp add: seconds_def)
  have upstream: "2 * seconds (uint (hk_upstream_timeout_secs c)) < seconds ?T"
    using T(2) by (simp add: seconds_def)
  have secure: "\<exists>u. parse_url L v = Some u \<and> (url_scheme u = ''https'' \<or> loopback_host (url_host_of u))"
    if "require_https_or_loopback L what v = Inr ()" for what v
    using that by (auto simp: require_https_or_loopback_def split: option.splits if_splits)
  have handlers: "seconds (uint (wc_timeout_secs h)) \<le> seconds ?T div 2 \<and>
      (\<exists>u. parse_url L (wc_url h) = Some u \<and> (url_scheme u = ''https'' \<or> loopback_host (url_host_of u)))"
    if h: "(what, h) \<in> set (configured_handlers c)" for what h
  proof
    have "saturating_double (wc_timeout_secs h) \<le> hk_request_timeout_secs c"
      using checks h by (auto simp: check_handlers_def)
    from saturating_double_le(2) [OF this] small have "2 * uint (wc_timeout_secs h) \<le> ?T" by simp
    then show "seconds (uint (wc_timeout_secs h)) \<le> seconds ?T div 2" by (simp add: seconds_def)
    show "\<exists>u. parse_url L (wc_url h) = Some u \<and> (url_scheme u = ''https'' \<or> loopback_host (url_host_of u))"
      by (rule secure [of what]) (use checks h in \<open>auto simp: check_handlers_def\<close>)
  qed
  have apis: "\<exists>u. parse_url L (pa_url api) = Some u \<and> (url_scheme u = ''https'' \<or> loopback_host (url_host_of u))"
    if "(provider, as) \<in> set (hk_profile_apis c)" "api \<in> set as" for provider as api
    by (rule secure [of "''profile api url''"]) (use checks that in \<open>force simp: check_handlers_def\<close>)
  show ?thesis unfolding s(2) using s(1) key budgets upstream handlers apis by blast
qed

theorem hooks_budgets_fit_witness:
  "\<exists>c s. hooks_load demo_libs Prod (\<lambda>_. True) (Inr (demo_hooks_config\<lparr>hk_api_key := ''0123456789abcdef'',
       hk_registration_handler := Some \<lparr>wc_url = ''x'', wc_timeout_secs = 10, wc_bearer_token = None\<rparr>\<rparr>)) = Ok c \<and>
     new_hooks demo_libs c = Ok s \<and> seconds 10 \<le> hs_request_timeout s div 2"
proof -
  let ?c0 = "demo_hooks_config\<lparr>hk_api_key := ''0123456789abcdef'',
       hk_registration_handler := Some \<lparr>wc_url = ''x'', wc_timeout_secs = 10, wc_bearer_token = None\<rparr>\<rparr>"
  have c: "hooks_load demo_libs Prod (\<lambda>_. True) (Inr ?c0) = Inr ?c0"
    by (simp add: hooks_load_def hooks_validate_def demo_hooks_config_def demo_libs_def check_internal_url_def
        trim_slashes_def trim_end_matches_def check_handlers_def configured_handlers_def require_https_or_loopback_def
        HOOKS_MIN_PROD_API_KEY_LEN_def saturating_double_def ensures.simps map_filter_simps)
  obtain s where s: "new_hooks demo_libs ?c0 = Inr s"
    by (auto simp: new_hooks_def require_api_keys_def demo_hooks_config_def)
  have "(''registration_handler'', \<lparr>wc_url = ''x'', wc_timeout_secs = 10, wc_bearer_token = None\<rparr>) \<in> set (configured_handlers ?c0)"
    by (simp add: configured_handlers_def map_filter_simps)
  with hooks_budgets_fit [OF c s] have "seconds (uint (10 :: 64 word)) \<le> hs_request_timeout s div 2"
    by (auto simp: demo_hooks_config_def)
  with c s show ?thesis by auto
qed


definition key_libs :: libs where
  "key_libs = hook_demo_libs\<lparr>sha256 := (\<lambda>x. take 32 (map (\<lambda>ch. word_of_nat (byte ch)) x @ replicate 32 0))\<rparr>"


end
