(* ===== verification/Launcher.thy ===== *)
theory Launcher
  imports Prelude
begin

text \<open>
  The container's entrypoint (\<open>launcher/src/main.rs\<close>): it starts the services, and when one of them is
  down it stops the others and exits with an error. Whether a service starts, and what each round of
  polling finds, is the operating system's answer, an argument; the rounds are a finite prefix of the
  loop, and \<open>None\<close> is a launcher that is still running after them.
\<close>

definition SERVICES :: "string list" where
  "SERVICES = [''weaveauth-hooks'', ''weaveauth-bff'', ''weaveauth-login'']"

text \<open>\<open>Exited\<close> carries \<open>ExitStatus::code\<close>, which is \<open>None\<close> after a signal.\<close>

datatype child_poll = Running | Exited "int option" | PollFailed

text \<open>How the launcher ends: its exit code, and the children it killed and waited for.\<close>

record launcher_exit =
  le_code :: nat
  le_stopped :: "string list"

fun spawn_services :: "(string \<Rightarrow> bool) \<Rightarrow> string list \<Rightarrow> string list \<Rightarrow> launcher_exit + string list" where
  "spawn_services starts children [] = Ok children"
| "spawn_services starts children (service # services) =
     (if starts service then spawn_services starts (children @ [service]) services
      else Err \<lparr>le_code = 1, le_stopped = children\<rparr>)"

definition exit_code :: "int option \<Rightarrow> nat" where
  "exit_code c = max (case opt_filter (\<lambda>n. 0 \<le> n \<and> n < 256) c of Some n \<Rightarrow> nat n | None \<Rightarrow> 1) 1"

fun poll_children :: "(string \<Rightarrow> child_poll) \<Rightarrow> string list \<Rightarrow> nat option" where
  "poll_children poll [] = None"
| "poll_children poll (child # rest) = (case poll child of
     Running \<Rightarrow> poll_children poll rest
   | Exited status \<Rightarrow> Some (exit_code status)
   | PollFailed \<Rightarrow> Some 1)"

fun supervise :: "(string \<Rightarrow> child_poll) list \<Rightarrow> string list \<Rightarrow> launcher_exit option" where
  "supervise [] children = None"
| "supervise (poll # rounds) children = (case poll_children poll children of
     Some code \<Rightarrow> Some \<lparr>le_code = code, le_stopped = children\<rparr>
   | None \<Rightarrow> supervise rounds children)"

definition launch :: "(string \<Rightarrow> bool) \<Rightarrow> (string \<Rightarrow> child_poll) list \<Rightarrow> launcher_exit option" where
  "launch starts rounds = (case spawn_services starts [] SERVICES of
     Inl e \<Rightarrow> Some e
   | Inr children \<Rightarrow> supervise rounds children)"

section \<open>A launcher that ends reports an error\<close>

lemma spawn_services_result:
  "spawn_services starts children services =
     (let up = takeWhile starts services
      in if up = services then Inr (children @ services) else Inl \<lparr>le_code = 1, le_stopped = children @ up\<rparr>)"
  by (induction services arbitrary: children) (auto simp: Let_def)

lemma exit_code_range: "1 \<le> exit_code c \<and> exit_code c < 256"
  by (cases "opt_filter (\<lambda>n. 0 \<le> n \<and> n < 256) c") (auto simp: exit_code_def)

lemma poll_children_None: "poll_children poll cs = None \<longleftrightarrow> (\<forall>child \<in> set cs. poll child = Running)"
  by (induction cs) (auto split: child_poll.splits)

lemma poll_children_range: "poll_children poll cs = Some code \<Longrightarrow> 1 \<le> code \<and> code < 256"
  using exit_code_range by (induction cs) (auto split: child_poll.splits)

lemma supervise_range: "supervise rounds cs = Some e \<Longrightarrow> 1 \<le> le_code e \<and> le_code e < 256 \<and> le_stopped e = cs"
  by (induction rounds) (auto split: option.splits dest: poll_children_range)

lemma supervise_None: "supervise rounds cs = None \<longleftrightarrow> (\<forall>poll \<in> set rounds. \<forall>child \<in> set cs. poll child = Running)"
proof (induction rounds)
  case (Cons poll rounds)
  then show ?case using poll_children_None [of poll cs] by (cases "poll_children poll cs") auto
qed simp

text \<open>C40: The launcher ends in the first round that finds a service not running, never before, and never
  with success: its exit code is between 1 and 255 even when the service exited with 0. It then has
  stopped every service it had started.\<close>

theorem launcher_ends_with_an_error:
  "(launch starts rounds = None \<longleftrightarrow>
      (\<forall>service \<in> set SERVICES. starts service) \<and> (\<forall>poll \<in> set rounds. \<forall>service \<in> set SERVICES. poll service = Running)) \<and>
   (\<forall>e. launch starts rounds = Some e \<longrightarrow> 1 \<le> le_code e \<and> le_code e < 256 \<and> le_stopped e = takeWhile starts SERVICES)"
proof -
  consider (up) "\<forall>service \<in> set SERVICES. starts service" | (down) "\<not> (\<forall>service \<in> set SERVICES. starts service)" by blast
  then show ?thesis
  proof cases
    case up
    then have t: "takeWhile starts SERVICES = SERVICES" by (simp add: takeWhile_eq_all_conv)
    then have l: "launch starts rounds = supervise rounds SERVICES"
      by (simp add: launch_def spawn_services_result Let_def)
    show ?thesis unfolding l t using up supervise_None [of rounds SERVICES] supervise_range [of rounds SERVICES] by blast
  next
    case down
    then have "takeWhile starts SERVICES \<noteq> SERVICES" by (simp add: takeWhile_eq_all_conv)
    then have "launch starts rounds = Some \<lparr>le_code = 1, le_stopped = takeWhile starts SERVICES\<rparr>"
      by (simp add: launch_def spawn_services_result Let_def del: takeWhile_eq_all_conv)
    with down show ?thesis by auto
  qed
qed

theorem launcher_ends_with_an_error_witness:
  "launch (\<lambda>s. True) [\<lambda>s. Running, \<lambda>s. if s = ''weaveauth-bff'' then Exited (Some 0) else Running] =
     Some \<lparr>le_code = 1, le_stopped = SERVICES\<rparr> \<and>
   (\<exists>e. launch (\<lambda>s. s \<noteq> ''weaveauth-login'') [] = Some e \<and> le_stopped e = [''weaveauth-hooks'', ''weaveauth-bff''])"
proof -
  have a: "launch (\<lambda>s. True) [\<lambda>s. Running, \<lambda>s. if s = ''weaveauth-bff'' then Exited (Some 0) else Running] =
     Some \<lparr>le_code = 1, le_stopped = SERVICES\<rparr>"
    by (simp add: launch_def SERVICES_def exit_code_def)
  have "launch (\<lambda>s. s \<noteq> ''weaveauth-login'') [] \<noteq> None"
    using launcher_ends_with_an_error [of "\<lambda>s. s \<noteq> ''weaveauth-login''" "[]"] by (simp add: SERVICES_def)
  then obtain e where "launch (\<lambda>s. s \<noteq> ''weaveauth-login'') [] = Some e" by blast
  moreover from this have "le_stopped e = takeWhile (\<lambda>s. s \<noteq> ''weaveauth-login'') SERVICES"
    using launcher_ends_with_an_error [of "\<lambda>s. s \<noteq> ''weaveauth-login''" "[]"] by blast
  ultimately show ?thesis using a by (simp add: SERVICES_def)
qed

end
