(* ===== verification/I18n.thy ===== *)
theory I18n
  imports LoginState
begin

text \<open>
  What Kratos says, in the visitor's language (\<open>login/src/i18n.rs\<close>): the ids login knows, loading and
  checking the locale files, choosing a language, and filling a text with Kratos' values.

  A variant of \<open>MessageId\<close> and \<open>LabelId\<close> is named by its key in the locale files. A directory is the
  list of its entries; reading it is an argument. The log of untranslated ids is not modelled.
\<close>

section \<open>The ids login knows\<close>

definition MAX_TAG_LEN :: nat where "MAX_TAG_LEN = 35"

definition MAX_LANGUAGE_TAGS :: nat where "MAX_LANGUAGE_TAGS = 16"

definition LANGUAGE_COOKIE :: string where "LANGUAGE_COOKIE = ''language''"

definition GENERATED_LABEL_ID :: nat where "GENERATED_LABEL_ID = 1070002"

definition CONTEXT_NAMES :: "(string \<times> string list) list" where
  "CONTEXT_NAMES =
    [(''InfoSelfServiceRecoveryMessageMaskedWithCodeSent'', [''masked_address'']),
     (''ErrorValidationMinLength'', [''min_length'', ''actual_length'']),
     (''ErrorValidationMaxLength'', [''max_length'', ''actual_length'']),
     (''ErrorValidationPasswordMinLength'', [''min_length'', ''actual_length'']),
     (''ErrorValidationPasswordMaxLength'', [''max_length'', ''actual_length'']),
     (''ErrorValidationMinimum'', [''minimum'', ''actual'']),
     (''ErrorValidationExclusiveMinimum'', [''minimum'', ''actual'']),
     (''ErrorValidationMaximum'', [''maximum'', ''actual'']),
     (''ErrorValidationExclusiveMaximum'', [''maximum'', ''actual'']),
     (''ErrorValidationMultipleOf'', [''base'', ''actual'']),
     (''ErrorValidationMaxItems'', [''max_items'', ''actual_items'']),
     (''ErrorValidationMinItems'', [''min_items'', ''actual_items'']),
     (''InfoSelfServiceLoginWith'', [''provider'', ''provider_id'']),
     (''InfoSelfServiceLoginWithAndLink'', [''provider'']),
     (''InfoSelfServiceLoginAAL2CodeAddress'', [''address'', ''channel'']),
     (''InfoSelfServiceRegistrationWith'', [''provider'', ''provider_id'']),
     (''InfoSelfServiceSettingsUpdateLinkOidc'', [''provider'']),
     (''InfoSelfServiceSettingsUpdateUnlinkOidc'', [''provider'']),
     (''InfoSelfServiceSettingsRemoveWebAuthn'', [''display_name'', ''added_at'', ''added_at_unix'']),
     (''InfoSelfServiceSettingsRemovePasskey'', [''display_name'', ''added_at'', ''added_at_unix''])]"

definition MESSAGE_IDS :: "(nat \<times> string) list" where
  "MESSAGE_IDS =
    [(1010003, ''InfoSelfServiceLoginReAuth''),
     (1010004, ''InfoSelfServiceLoginMFA''),
     (1010012, ''InfoSelfServiceLoginWebAuthnPasswordless''),
     (1010014, ''InfoSelfServiceLoginCodeSent''),
     (1010016, ''InfoSelfServiceLoginLink''),
     (1010019, ''InfoSelfServiceLoginCodeMFA''),
     (1010020, ''InfoSelfServiceLoginCodeMFAHint''),
     (1040005, ''InfoSelfServiceRegistrationEmailWithCodeSent''),
     (1040009, ''InfoSelfServiceRegistrationChooseCredentials''),
     (1050001, ''InfoSelfServiceSettingsUpdateSuccess''),
     (1060001, ''InfoSelfServiceRecoverySuccessful''),
     (1060002, ''InfoSelfServiceRecoveryEmailSent''),
     (1060003, ''InfoSelfServiceRecoveryEmailWithCodeSent''),
     (1060004, ''InfoSelfServiceRecoveryMessageMaskedWithCodeSent''),
     (1060005, ''InfoSelfServiceRecoveryAskForFullAddress''),
     (1060006, ''InfoSelfServiceRecoveryAskToChooseAddress''),
     (1080001, ''InfoSelfServiceVerificationEmailSent''),
     (1080002, ''InfoSelfServiceVerificationSuccessful''),
     (1080003, ''InfoSelfServiceVerificationEmailWithCodeSent''),
     (4000001, ''ErrorValidationGeneric''),
     (4000002, ''ErrorValidationRequired''),
     (4000003, ''ErrorValidationMinLength''),
     (4000004, ''ErrorValidationInvalidFormat''),
     (4000005, ''ErrorValidationPasswordPolicyViolationGeneric''),
     (4000006, ''ErrorValidationInvalidCredentials''),
     (4000007, ''ErrorValidationDuplicateCredentials''),
     (4000008, ''ErrorValidationTOTPVerifierWrong''),
     (4000009, ''ErrorValidationIdentifierMissing''),
     (4000010, ''ErrorValidationAddressNotVerified''),
     (4000011, ''ErrorValidationNoTOTPDevice''),
     (4000012, ''ErrorValidationLookupAlreadyUsed''),
     (4000013, ''ErrorValidationNoWebAuthnDevice''),
     (4000014, ''ErrorValidationNoLookup''),
     (4000015, ''ErrorValidationSuchNoWebAuthnUser''),
     (4000016, ''ErrorValidationLookupInvalid''),
     (4000017, ''ErrorValidationMaxLength''),
     (4000018, ''ErrorValidationMinimum''),
     (4000019, ''ErrorValidationExclusiveMinimum''),
     (4000020, ''ErrorValidationMaximum''),
     (4000021, ''ErrorValidationExclusiveMaximum''),
     (4000022, ''ErrorValidationMultipleOf''),
     (4000023, ''ErrorValidationMaxItems''),
     (4000024, ''ErrorValidationMinItems''),
     (4000025, ''ErrorValidationUniqueItems''),
     (4000026, ''ErrorValidationWrongType''),
     (4000027, ''ErrorValidationDuplicateCredentialsOnOIDCLink''),
     (4000028, ''ErrorValidationDuplicateCredentialsWithHints''),
     (4000029, ''ErrorValidationConst''),
     (4000030, ''ErrorValidationConstGeneric''),
     (4000031, ''ErrorValidationPasswordIdentifierTooSimilar''),
     (4000032, ''ErrorValidationPasswordMinLength''),
     (4000033, ''ErrorValidationPasswordMaxLength''),
     (4000034, ''ErrorValidationPasswordTooManyBreaches''),
     (4000035, ''ErrorValidationNoCodeUser''),
     (4000036, ''ErrorValidationTraitsMismatch''),
     (4000037, ''ErrorValidationAccountNotFound''),
     (4000038, ''ErrorValidationCaptchaError''),
     (4000039, ''ErrorValidationPasswordNewSameAsOld''),
     (4000040, ''ErrorValidationEmail''),
     (4000041, ''ErrorValidationPhone''),
     (4010001, ''ErrorValidationLoginFlowExpired''),
     (4010002, ''ErrorValidationLoginNoStrategyFound''),
     (4010003, ''ErrorValidationRegistrationNoStrategyFound''),
     (4010004, ''ErrorValidationSettingsNoStrategyFound''),
     (4010005, ''ErrorValidationRecoveryNoStrategyFound''),
     (4010006, ''ErrorValidationVerificationNoStrategyFound''),
     (4010007, ''ErrorValidationLoginRetrySuccess''),
     (4010008, ''ErrorValidationLoginCodeInvalidOrAlreadyUsed''),
     (4010009, ''ErrorValidationLoginLinkedCredentialsDoNotMatch''),
     (4010010, ''ErrorValidationLoginAddressUnknown''),
     (4040001, ''ErrorValidationRegistrationFlowExpired''),
     (4040002, ''ErrorValidationRegistrationRetrySuccess''),
     (4040003, ''ErrorValidationRegistrationCodeInvalidOrAlreadyUsed''),
     (4050001, ''ErrorValidationSettingsFlowExpired''),
     (4060001, ''ErrorValidationRecoveryRetrySuccess''),
     (4060002, ''ErrorValidationRecoveryStateFailure''),
     (4060003, ''ErrorValidationRecoveryMissingRecoveryToken''),
     (4060004, ''ErrorValidationRecoveryTokenInvalidOrAlreadyUsed''),
     (4060005, ''ErrorValidationRecoveryFlowExpired''),
     (4060006, ''ErrorValidationRecoveryCodeInvalidOrAlreadyUsed''),
     (4070001, ''ErrorValidationVerificationTokenInvalidOrAlreadyUsed''),
     (4070002, ''ErrorValidationVerificationRetrySuccess''),
     (4070003, ''ErrorValidationVerificationStateFailure''),
     (4070004, ''ErrorValidationVerificationMissingVerificationToken''),
     (4070005, ''ErrorValidationVerificationFlowExpired''),
     (4070006, ''ErrorValidationVerificationCodeInvalidOrAlreadyUsed''),
     (5000001, ''ErrorSystemGeneric''),
     (5000002, ''ErrorSystemNoAuthenticationMethodsAvailable'')]"

definition LABEL_IDS :: "(nat \<times> string) list" where
  "LABEL_IDS =
    [(1010001, ''InfoSelfServiceLogin''),
     (1010002, ''InfoSelfServiceLoginWith''),
     (1010005, ''InfoSelfServiceLoginVerify''),
     (1010006, ''InfoSelfServiceLoginTOTPLabel''),
     (1010007, ''InfoLoginLookupLabel''),
     (1010008, ''InfoSelfServiceLoginWebAuthn''),
     (1010009, ''InfoLoginTOTP''),
     (1010010, ''InfoLoginLookup''),
     (1010011, ''InfoSelfServiceLoginContinueWebAuthn''),
     (1010013, ''InfoSelfServiceLoginContinue''),
     (1010015, ''InfoSelfServiceLoginCode''),
     (1010017, ''InfoSelfServiceLoginAndLink''),
     (1010018, ''InfoSelfServiceLoginWithAndLink''),
     (1010021, ''InfoSelfServiceLoginPasskey''),
     (1010022, ''InfoSelfServiceLoginPassword''),
     (1010023, ''InfoSelfServiceLoginAAL2CodeAddress''),
     (1040001, ''InfoSelfServiceRegistration''),
     (1040002, ''InfoSelfServiceRegistrationWith''),
     (1040003, ''InfoSelfServiceRegistrationContinue''),
     (1040004, ''InfoSelfServiceRegistrationRegisterWebAuthn''),
     (1040006, ''InfoSelfServiceRegistrationRegisterCode''),
     (1040007, ''InfoSelfServiceRegistrationRegisterPasskey''),
     (1040008, ''InfoSelfServiceRegistrationBack''),
     (1050002, ''InfoSelfServiceSettingsUpdateLinkOidc''),
     (1050003, ''InfoSelfServiceSettingsUpdateUnlinkOidc''),
     (1050004, ''InfoSelfServiceSettingsUpdateUnlinkTOTP''),
     (1050005, ''InfoSelfServiceSettingsTOTPQRCode''),
     (1050007, ''InfoSelfServiceSettingsRevealLookup''),
     (1050008, ''InfoSelfServiceSettingsRegenerateLookup''),
     (1050010, ''InfoSelfServiceSettingsLookupSecretLabel''),
     (1050011, ''InfoSelfServiceSettingsLookupConfirm''),
     (1050012, ''InfoSelfServiceSettingsRegisterWebAuthn''),
     (1050013, ''InfoSelfServiceSettingsRegisterWebAuthnDisplayName''),
     (1050016, ''InfoSelfServiceSettingsDisableLookup''),
     (1050017, ''InfoSelfServiceSettingsTOTPSecretLabel''),
     (1050018, ''InfoSelfServiceSettingsRemoveWebAuthn''),
     (1050019, ''InfoSelfServiceSettingsRegisterPasskey''),
     (1050020, ''InfoSelfServiceSettingsRemovePasskey''),
     (1060007, ''InfoSelfServiceRecoveryBack''),
     (1070001, ''InfoNodeLabelInputPassword''),
     (1070003, ''InfoNodeLabelSave''),
     (1070004, ''InfoNodeLabelID''),
     (1070005, ''InfoNodeLabelSubmit''),
     (1070006, ''InfoNodeLabelVerifyOTP''),
     (1070007, ''InfoNodeLabelEmail''),
     (1070008, ''InfoNodeLabelResendOTP''),
     (1070009, ''InfoNodeLabelContinue''),
     (1070010, ''InfoNodeLabelRecoveryCode''),
     (1070011, ''InfoNodeLabelVerificationCode''),
     (1070012, ''InfoNodeLabelRegistrationCode''),
     (1070013, ''InfoNodeLabelLoginCode''),
     (1070014, ''InfoNodeLabelLoginAndLinkCredential''),
     (1070015, ''InfoNodeLabelCaptcha''),
     (1070016, ''InfoNodeLabelRecoveryAddress''),
     (1070017, ''InfoNodeLabelPhoneNumber'')]"

text \<open>\<open>from_id\<close> followed by \<open>key\<close>.\<close>

definition UNKNOWN :: string where "UNKNOWN = ''Unknown''"

definition id_key :: "(nat \<times> string) list \<Rightarrow> nat \<Rightarrow> string" where
  "id_key ids n = (case map_of ids n of Some key \<Rightarrow> key | None \<Rightarrow> UNKNOWN)"

definition translated_ids :: "(string \<times> nat \<times> string) list" where
  "translated_ids = map (Pair ''message'') MESSAGE_IDS @ map (Pair ''label'') LABEL_IDS"

section \<open>Texts with placeholders\<close>

definition not_brace :: "char \<Rightarrow> bool" where
  "not_brace c \<longleftrightarrow> c \<noteq> CHR ''{'' \<and> c \<noteq> CHR ''}''"

function placeholders :: "string \<Rightarrow> string list option" where
  "placeholders rest = (case dropWhile not_brace rest of
     [] \<Rightarrow> Some []
   | c # tail \<Rightarrow>
       if tail \<noteq> [] \<and> hd tail = c then placeholders (tl tail)
       else if c = CHR ''{'' then (case split_once (CHR ''}'') tail of
           None \<Rightarrow> None
         | Some (name, after) \<Rightarrow> map_option (Cons name) (placeholders after))
       else placeholders tail)"
  by pat_completeness auto

lemma dropWhile_Cons_length: "dropWhile p xs = c # tail \<Longrightarrow> length tail < length xs"
  using length_dropWhile_le [of p xs] by simp

lemma split_once_length: "split_once c xs = Some (a, b) \<Longrightarrow> length b < length xs"
  by (auto simp: split_once_Some)

termination placeholders
proof (relation "measure length", goal_cases)
  case (2 rest c tail)
  with dropWhile_Cons_length [OF 2(1)] show ?case by simp
next
  case (3 rest c tail x name after)
  with dropWhile_Cons_length [OF 3(1)] split_once_length [of _ tail name after] show ?case by fastforce
next
  case (4 rest c tail)
  with dropWhile_Cons_length [OF 4(1)] show ?case by simp
qed simp

text \<open>A scalar of the \<open>context\<close> as text.\<close>

fun scalar_text :: "libs \<Rightarrow> json \<Rightarrow> string option" where
  "scalar_text L (JStr s) = Some s"
| "scalar_text L (JInt n) = Some (json_write L (JInt n))"
| "scalar_text L (JFloat f) = Some (json_write L (JFloat f))"
| "scalar_text L (JBool b) = Some (if b then ''true'' else ''false'')"
| "scalar_text L _ = None"

text \<open>The loop that reads a name up to the closing brace.\<close>

fun read_name :: "string \<Rightarrow> (string \<times> string) option" where
  "read_name [] = None"
| "read_name (c # rest) =
     (if c = CHR ''}'' then Some ([], rest) else map_option (\<lambda>(name, after). (c # name, after)) (read_name rest))"

lemma read_name_split [simp]: "read_name s = split_once (CHR ''}'') s"
  by (induction s) simp_all

function fill_text :: "libs \<Rightarrow> (string \<times> json) list \<Rightarrow> string \<Rightarrow> string option" where
  "fill_text L ctx [] = Some []"
| "fill_text L ctx (c # rest) =
     (if (c = CHR ''{'' \<or> c = CHR ''}'') \<and> rest \<noteq> [] \<and> hd rest = c
      then map_option (Cons c) (fill_text L ctx (tl rest))
      else if c = CHR ''{'' then (case read_name rest of
          None \<Rightarrow> None
        | Some (name, after) \<Rightarrow> (case Option.bind (map_of ctx name) (scalar_text L) of
            None \<Rightarrow> None
          | Some text \<Rightarrow> map_option (append text) (fill_text L ctx after)))
      else map_option (Cons c) (fill_text L ctx rest))"
  by pat_completeness auto

termination fill_text
  by (relation "measure (\<lambda>(L, ctx, s). length s)") (auto dest: split_once_length simp: neq_Nil_conv)

section \<open>The locale files\<close>

record locale_file =
  loc_messages :: "(string \<times> string) list"
  loc_labels :: "(string \<times> string) list"
  loc_fields :: "(string \<times> string) list"

record catalog =
  cat_default :: string
  cat_locales :: "(string \<times> locale_file) list"

text \<open>Of two members of one name the last is kept.\<close>

fun de_texts :: "json \<Rightarrow> (string \<times> string) list option" where
  "de_texts (JObj kvs) = map_option (foldl (\<lambda>texts (k, v). AList.update k v texts) [])
     (those (map (\<lambda>(k, v). map_option (Pair k) (as_str v)) kvs))"
| "de_texts _ = None"

fun no_unknown_fields :: "string list \<Rightarrow> json \<Rightarrow> bool" where
  "no_unknown_fields names (JObj kvs) = list_all (\<lambda>(k, v). k \<in> set names) kvs"
| "no_unknown_fields names _ = True"

definition de_locale :: "json \<Rightarrow> locale_file option" where
  "de_locale j = (let names = [''messages'', ''labels'', ''fields''] in
     if \<not> no_unknown_fields names j then None
     else Option.bind (struct_fields_default 0 names j) (\<lambda>field.
       Option.bind (de_default [] de_texts (field ''messages'')) (\<lambda>messages.
       Option.bind (de_default [] de_texts (field ''labels'')) (\<lambda>labels.
       Option.bind (de_default [] de_texts (field ''fields'')) (\<lambda>texts.
         Some \<lparr>loc_messages = messages, loc_labels = labels, loc_fields = texts\<rparr>)))))"

datatype catalog_error =
    LocalesUnreadable string
  | LocaleUnlisted string
  | LocaleBadTag string
  | LocaleUnreadable string string
  | LocaleInvalid string
  | LocaleUnknownKey string string
  | LocaleUnclosed string string
  | LocaleBadPlaceholder string string
  | LocaleTwice string
  | LocaleNoDefault string
  | LocaleMissing string

definition check_known :: "string \<Rightarrow> string list \<Rightarrow> (string \<times> string) list \<Rightarrow> catalog_error + unit" where
  "check_known file known texts = (case find (\<lambda>key. key \<notin> set known) (map fst texts) of
     Some key \<Rightarrow> Err (LocaleUnknownKey file key)
   | None \<Rightarrow> Ok ())"

definition allowed_names :: "bool \<Rightarrow> string \<Rightarrow> string list" where
  "allowed_names by_key key = (if by_key
     then (case map_of CONTEXT_NAMES key of None \<Rightarrow> [] | Some names \<Rightarrow> names)
     else [''title'', ''name''])"

definition check_text :: "string \<Rightarrow> bool \<Rightarrow> string \<times> string \<Rightarrow> catalog_error + unit" where
  "check_text file by_key kt = (case placeholders (snd kt) of
     None \<Rightarrow> Err (LocaleUnclosed file (fst kt))
   | Some names \<Rightarrow> if list_all (\<lambda>name. name \<in> set (allowed_names by_key (fst kt))) names then Ok ()
                   else Err (LocaleBadPlaceholder file (fst kt)))"

fun first_error :: "('e + unit) list \<Rightarrow> 'e + unit" where
  "first_error [] = Ok ()"
| "first_error (Inl e # rs) = Err e"
| "first_error (Inr u # rs) = first_error rs"

definition check_keys :: "string \<Rightarrow> locale_file \<Rightarrow> catalog_error + unit" where
  "check_keys file l = first_error
     ([check_known file (map snd MESSAGE_IDS @ [UNKNOWN]) (loc_messages l), check_known file (map snd LABEL_IDS) (loc_labels l)] @
      map (check_text file True) (loc_messages l) @ map (check_text file True) (loc_labels l) @
      map (check_text file False) (loc_fields l))"

definition check_complete :: "locale_file \<Rightarrow> catalog_error + unit" where
  "check_complete l = first_error
     (map (\<lambda>key. if map_of (loc_messages l) key = None then Err (LocaleMissing key) else Ok ()) (map snd MESSAGE_IDS @ [UNKNOWN]) @
      map (\<lambda>key. if map_of (loc_labels l) key = None then Err (LocaleMissing key) else Ok ()) (map snd LABEL_IDS))"

text \<open>An entry of the directory: its name, if that is text, and what reading it gives.\<close>

type_synonym dir_entry = "string + (string option \<times> (string + string))"

definition json_stem :: "string \<Rightarrow> string option" where
  "json_stem name = map_option rev (strip_prefix (rev ''.json'') (rev name))"

fun load_locales ::
    "libs \<Rightarrow> (string \<times> locale_file) list \<Rightarrow> dir_entry list \<Rightarrow> catalog_error + (string \<times> locale_file) list" where
  "load_locales L locales [] = Ok locales"
| "load_locales L locales (Inl e # entries) = Err (LocaleUnlisted e)"
| "load_locales L locales (Inr (name, content) # entries) =
     (case Option.bind name json_stem of
        None \<Rightarrow> load_locales L locales entries
      | Some stem \<Rightarrow>
          (let tag = to_ascii_lowercase stem in
           if tag = [] \<or> MAX_TAG_LEN < length tag \<or> \<not> list_all (\<lambda>b. is_ascii_alphanumeric b \<or> b = CHR ''-'') tag
           then Err (LocaleBadTag stem)
           else (case content of
             Inl cause \<Rightarrow> Err (LocaleUnreadable stem cause)
           | Inr raw \<Rightarrow> (case Option.bind (json_read L raw) de_locale of
               None \<Rightarrow> Err (LocaleInvalid stem)
             | Some l \<Rightarrow> (case check_keys stem l of
                 Inl e \<Rightarrow> Err e
               | Inr u \<Rightarrow>
                   if map_of locales tag \<noteq> None then Err (LocaleTwice tag)
                   else load_locales L (locales @ [(tag, l)]) entries)))))"

definition load_catalog :: "libs \<Rightarrow> string + dir_entry list \<Rightarrow> string \<Rightarrow> catalog_error + catalog" where
  "load_catalog L entries default_tag =
     (let tag = to_ascii_lowercase default_tag in
      case entries of
        Inl e \<Rightarrow> Err (LocalesUnreadable e)
      | Inr es \<Rightarrow> (case load_locales L [] es of
          Inl e \<Rightarrow> Err e
        | Inr locales \<Rightarrow> (case map_of locales tag of
            None \<Rightarrow> Err (LocaleNoDefault tag)
          | Some fallback \<Rightarrow> (case check_complete fallback of
              Inl e \<Rightarrow> Err e
            | Inr u \<Rightarrow> Ok \<lparr>cat_default = tag, cat_locales = locales\<rparr>))))"

section \<open>Choosing a language\<close>

text \<open>The tag, then the tag with its last subtag dropped, and so on.\<close>

definition drop_subtag :: "string \<Rightarrow> string option" where
  "drop_subtag tag = map_option (\<lambda>(last, before). rev before) (split_once (CHR ''-'') (rev tag))"

lemma drop_subtag_length: "drop_subtag tag = Some rest \<Longrightarrow> length rest < length tag"
  using split_once_length [of _ "rev tag"] by (fastforce simp: drop_subtag_def)

function match_tag :: "catalog \<Rightarrow> string \<Rightarrow> string option" where
  "match_tag cat tag =
     (if map_of (cat_locales cat) tag \<noteq> None then Some tag
      else (case drop_subtag tag of None \<Rightarrow> None | Some rest \<Rightarrow> match_tag cat rest))"
  by pat_completeness auto

termination match_tag
  by (relation "measure (\<lambda>(cat, tag). length tag)") (auto dest: drop_subtag_length)

definition matching_language :: "catalog \<Rightarrow> string \<Rightarrow> string option" where
  "matching_language cat raw =
     (let tag = trim raw in
      if MAX_TAG_LEN < length tag then None
      else match_tag cat (map (\<lambda>c. if c = CHR ''_'' then CHR ''-'' else c) (to_ascii_lowercase tag)))"

definition unquote :: "string \<Rightarrow> string" where
  "unquote v = (case Option.bind (strip_prefix [CHR 0x22] v) (\<lambda>quoted. map_option rev (strip_prefix [CHR 0x22] (rev quoted))) of
     Some inner \<Rightarrow> inner | None \<Rightarrow> v)"

definition language_cookies :: "libs \<Rightarrow> headers \<Rightarrow> string list" where
  "language_cookies L h =
     map (\<lambda>(name, v). unquote (trim v))
       (filter (\<lambda>(name, v). trim name = LANGUAGE_COOKIE)
         (List.map_filter (split_once (CHR ''=''))
           (concat (map (split_on (CHR '';'')) (List.map_filter (header_str L) (header_get_all h ''cookie''))))))"

text \<open>An \<open>f32\<close>: a finite one is a whole number of \<open>2\<^sup>-\<^sup>1\<^sup>4\<^sup>9\<close>, its smallest unit. \<open>parse_f32\<close> is the
  standard library's parser.\<close>

datatype f32 = Finite int | Infinite bool | NaN

definition F32_ONE :: int where "F32_ONE = 2 ^ 149"

fun clamp01 :: "f32 \<Rightarrow> f32" where
  "clamp01 (Finite n) = Finite (max 0 (min F32_ONE n))"
| "clamp01 (Infinite negative) = Finite (if negative then 0 else F32_ONE)"
| "clamp01 NaN = NaN"

fun positive_units :: "f32 \<Rightarrow> int option" where
  "positive_units (Finite n) = (if 0 < n then Some n else None)"
| "positive_units _ = None"

definition accepted_part :: "(string \<Rightarrow> f32 option) \<Rightarrow> string \<Rightarrow> (string \<times> int) option" where
  "accepted_part parse_f32 part = (case split_on (CHR '';'') part of
     [] \<Rightarrow> None
   | first # pieces \<Rightarrow>
       (let tag = trim first;
            q = (case find (\<lambda>(name, v). eq_ignore_ascii_case (trim name) ''q'') (List.map_filter (split_once (CHR ''='')) pieces) of
                   None \<Rightarrow> Finite F32_ONE
                 | Some (name, v) \<Rightarrow> (case parse_f32 (trim v) of None \<Rightarrow> Finite 0 | Some x \<Rightarrow> x))
        in (case positive_units (clamp01 q) of
              None \<Rightarrow> None
            | Some units \<Rightarrow> if tag \<noteq> [] \<and> tag \<noteq> ''*'' then Some (tag, units) else None)))"

definition accepted_tags :: "(string \<Rightarrow> f32 option) \<Rightarrow> string \<Rightarrow> string list" where
  "accepted_tags parse_f32 v =
     map fst (sort_key (\<lambda>(tag, units). - units)
       (List.map_filter (accepted_part parse_f32) (take MAX_LANGUAGE_TAGS (split_on (CHR '','') v))))"

fun find_map :: "('a \<Rightarrow> 'b option) \<Rightarrow> 'a list \<Rightarrow> 'b option" where
  "find_map f [] = None"
| "find_map f (x # xs) = (case f x of Some y \<Rightarrow> Some y | None \<Rightarrow> find_map f xs)"

definition negotiate :: "libs \<Rightarrow> (string \<Rightarrow> f32 option) \<Rightarrow> catalog \<Rightarrow> headers \<Rightarrow> string" where
  "negotiate L parse_f32 cat h =
     (case opt_or (find_map (matching_language cat) (take MAX_LANGUAGE_TAGS (language_cookies L h)))
        (Option.bind (Option.bind (header_get h ''accept-language'') (header_str L))
          (\<lambda>accepted. find_map (matching_language cat) (accepted_tags parse_f32 accepted))) of
        Some language \<Rightarrow> language
      | None \<Rightarrow> cat_default cat)"

section \<open>Translating\<close>

record ui_text =
  ut_id :: nat
  ut_text :: string
  ut_kind :: string
  ut_context :: "(string \<times> json) list"

definition text_in ::
    "libs \<Rightarrow> catalog \<Rightarrow> (locale_file \<Rightarrow> (string \<times> string) list) \<Rightarrow> string \<Rightarrow> (string \<times> json) list \<Rightarrow> string \<Rightarrow> string option" where
  "text_in L cat part key ctx language =
     Option.bind (map_of (cat_locales cat) language) (\<lambda>l. Option.bind (map_of (part l) key) (fill_text L ctx))"

definition find_text ::
    "libs \<Rightarrow> catalog \<Rightarrow> string \<Rightarrow> (locale_file \<Rightarrow> (string \<times> string) list) \<Rightarrow> string \<Rightarrow> (string \<times> json) list \<Rightarrow> string option" where
  "find_text L cat language part key ctx = find_map (text_in L cat part key ctx) [language, cat_default cat]"

definition message_text :: "libs \<Rightarrow> catalog \<Rightarrow> string \<Rightarrow> ui_text \<Rightarrow> string" where
  "message_text L cat language m =
     (case opt_or (find_text L cat language loc_messages (id_key MESSAGE_IDS (ut_id m)) (ut_context m))
        (find_text L cat language loc_messages UNKNOWN []) of
        Some text \<Rightarrow> text
      | None \<Rightarrow> [])"

definition label_text :: "libs \<Rightarrow> catalog \<Rightarrow> string \<Rightarrow> ui_text \<Rightarrow> string" where
  "label_text L cat language label =
     (let key = id_key LABEL_IDS (ut_id label) in
      if key = UNKNOWN then ut_text label
      else (case find_text L cat language loc_labels key (ut_context label) of
              Some text \<Rightarrow> text | None \<Rightarrow> ut_text label))"

definition field_label :: "libs \<Rightarrow> catalog \<Rightarrow> string \<Rightarrow> string \<Rightarrow> ui_text \<Rightarrow> string" where
  "field_label L cat language name label =
     (if ut_id label \<noteq> GENERATED_LABEL_ID then label_text L cat language label
      else (let key = (case Option.bind (map_of (ut_context label) ''name'') as_str of Some k \<Rightarrow> k | None \<Rightarrow> name)
            in (case find_text L cat language loc_fields key (ut_context label) of
                  Some text \<Rightarrow> text | None \<Rightarrow> ut_text label)))"

section \<open>Lemmas\<close>

declare placeholders.simps [simp del] fill_text.simps [simp del] match_tag.simps [simp del]

lemma placeholders_Nil [simp]: "placeholders [] = Some []"
  by (simp add: placeholders.simps)

lemma placeholders_Cons:
  "placeholders (c # rest) =
     (if not_brace c then placeholders rest
      else if rest \<noteq> [] \<and> hd rest = c then placeholders (tl rest)
      else if c = CHR ''{'' then (case split_once (CHR ''}'') rest of
           None \<Rightarrow> None | Some (name, after) \<Rightarrow> map_option (Cons name) (placeholders after))
      else placeholders rest)"
proof (cases "not_brace c")
  case True
  then have "placeholders (c # rest) = placeholders rest"
    by (subst (1 2) placeholders.simps) simp
  with True show ?thesis by simp
next
  case False
  then show ?thesis by (subst placeholders.simps) simp
qed

text \<open>The check at startup and the filling at run time read a text the same way: \<open>fill_text\<close> gives a
  text exactly when every placeholder the check found has a scalar.\<close>

lemma fill_text_placeholders:
  "(fill_text L ctx t \<noteq> None) \<longleftrightarrow>
     (\<exists>names. placeholders t = Some names \<and> (\<forall>name \<in> set names. Option.bind (map_of ctx name) (scalar_text L) \<noteq> None))"
proof (induction L ctx t rule: fill_text.induct)
  case (1 L ctx)
  show ?case by (simp add: fill_text.simps)
next
  case (2 L ctx c rest)
  consider (escaped) "(c = CHR ''{'' \<or> c = CHR ''}'') \<and> rest \<noteq> [] \<and> hd rest = c"
    | (name) "\<not> ((c = CHR ''{'' \<or> c = CHR ''}'') \<and> rest \<noteq> [] \<and> hd rest = c)" "c = CHR ''{''"
    | (plain) "\<not> ((c = CHR ''{'' \<or> c = CHR ''}'') \<and> rest \<noteq> [] \<and> hd rest = c)" "c \<noteq> CHR ''{''" by blast
  then show ?case
  proof cases
    case escaped
    then have "\<not> not_brace c" by (auto simp: not_brace_def)
    with escaped 2(1) show ?thesis by (simp add: fill_text.simps placeholders_Cons)
  next
    case name
    then have b: "\<not> not_brace c" "\<not> (rest \<noteq> [] \<and> hd rest = c)" by (auto simp: not_brace_def)
    have f: "fill_text L ctx (c # rest) = (case split_once (CHR ''}'') rest of None \<Rightarrow> None
        | Some (name, after) \<Rightarrow> (case Option.bind (map_of ctx name) (scalar_text L) of None \<Rightarrow> None
          | Some text \<Rightarrow> map_option (append text) (fill_text L ctx after)))"
      unfolding fill_text.simps(2) [of L ctx c rest] if_not_P [OF name(1)] if_P [OF name(2)] read_name_split by (rule refl)
    have p: "placeholders (c # rest) = (case split_once (CHR ''}'') rest of None \<Rightarrow> None
        | Some (name, after) \<Rightarrow> map_option (Cons name) (placeholders after))"
      unfolding placeholders_Cons [of c rest] if_not_P [OF b(1)] if_not_P [OF b(2)] if_P [OF name(2)] by (rule refl)
    show ?thesis
    proof (cases "split_once (CHR ''}'') rest")
      case None
      then show ?thesis unfolding f p by simp
    next
      case split: (Some x)
      obtain n after where x: "x = (n, after)" by fastforce
      show ?thesis
      proof (cases "Option.bind (map_of ctx n) (scalar_text L)")
        case None
        with split x show ?thesis unfolding f p by auto
      next
        case (Some filled)
        have "(fill_text L ctx after \<noteq> None) \<longleftrightarrow> (\<exists>names. placeholders after = Some names \<and>
            (\<forall>name \<in> set names. Option.bind (map_of ctx name) (scalar_text L) \<noteq> None))"
          by (rule 2(2) [OF name(1) name(2)]) (use split x Some in simp_all)
        with split x Some show ?thesis unfolding f p by auto
      qed
    qed
  next
    case plain
    then have "placeholders (c # rest) = placeholders rest"
      by (auto simp: placeholders_Cons not_brace_def)
    moreover have "fill_text L ctx (c # rest) = map_option (Cons c) (fill_text L ctx rest)"
      unfolding fill_text.simps(2) [of L ctx c rest] if_not_P [OF plain(1)] if_not_P [OF plain(2)] by (rule refl)
    ultimately show ?thesis using 2(3) [OF plain] by simp
  qed
qed

lemma first_error_ok [simp]: "first_error rs = Inr u \<longleftrightarrow> (\<forall>r \<in> set rs. r = Inr ())"
  by (induction rs rule: first_error.induct) auto

lemma load_locales_ok:
  "load_locales L locales es = Inr ls \<Longrightarrow> (\<forall>(tag, l) \<in> set locales. \<exists>file. check_keys file l = Inr ()) \<Longrightarrow>
     (\<forall>(tag, l) \<in> set ls. \<exists>file. check_keys file l = Inr ())"
proof (induction L locales es rule: load_locales.induct)
  case (3 L locales name content entries)
  then show ?case
    by (auto simp: Let_def split: option.splits sum.splits if_splits) blast+
qed auto

lemma load_catalog_ok:
  assumes "load_catalog L entries tag = Inr cat"
  shows "(\<forall>(t, l) \<in> set (cat_locales cat). \<exists>file. check_keys file l = Inr ()) \<and>
    (\<exists>l. map_of (cat_locales cat) (cat_default cat) = Some l \<and> check_complete l = Inr ())"
proof -
  obtain es ls l where ls: "load_locales L [] es = Inr ls" "map_of ls (to_ascii_lowercase tag) = Some l" "check_complete l = Inr ()"
    "cat = \<lparr>cat_default = to_ascii_lowercase tag, cat_locales = ls\<rparr>"
    using assms by (auto simp: load_catalog_def Let_def split: option.splits sum.splits)
  with load_locales_ok [OF ls(1)] show ?thesis by simp
qed

lemma check_complete_ok:
  assumes "check_complete l = Inr ()"
  shows "key \<in> set (map snd MESSAGE_IDS @ [UNKNOWN]) \<Longrightarrow> map_of (loc_messages l) key \<noteq> None"
    "key \<in> set (map snd LABEL_IDS) \<Longrightarrow> map_of (loc_labels l) key \<noteq> None"
proof -
  have a: "\<forall>key \<in> set (map snd MESSAGE_IDS @ [UNKNOWN]). map_of (loc_messages l) key \<noteq> None"
    and b: "\<forall>key \<in> set (map snd LABEL_IDS). map_of (loc_labels l) key \<noteq> None"
    using assms unfolding check_complete_def first_error_ok set_append set_map ball_Un image_image
    by (auto simp: ball_Un split: if_splits)
  show "map_of (loc_messages l) key \<noteq> None" if "key \<in> set (map snd MESSAGE_IDS @ [UNKNOWN])" using a that by blast
  show "map_of (loc_labels l) key \<noteq> None" if "key \<in> set (map snd LABEL_IDS)" using b that by blast
qed

lemma check_text_ok:
  assumes "check_text file by_key (key, template) = Inr ()"
    and "\<forall>name \<in> set (allowed_names by_key key). Option.bind (map_of ctx name) (scalar_text L) \<noteq> None"
  shows "fill_text L ctx template \<noteq> None"
proof -
  from assms(1) obtain names where "placeholders template = Some names" "\<forall>name \<in> set names. name \<in> set (allowed_names by_key key)"
    by (auto simp: check_text_def list_all_iff split: option.splits if_splits)
  with assms(2) show ?thesis unfolding fill_text_placeholders by blast
qed

lemma check_keys_text:
  assumes "check_keys file l = Inr ()"
  shows "(key, template) \<in> set (loc_messages l) \<Longrightarrow> check_text file True (key, template) = Inr ()"
    "(key, template) \<in> set (loc_labels l) \<Longrightarrow> check_text file True (key, template) = Inr ()"
  using assms unfolding check_keys_def first_error_ok by auto

lemma match_tag_loaded: "match_tag cat tag = Some t \<Longrightarrow> map_of (cat_locales cat) t \<noteq> None"
proof (induction cat tag rule: match_tag.induct)
  case (1 cat tag)
  then show ?case by (subst (asm) (2) match_tag.simps) (auto split: if_splits option.splits)
qed

lemma find_map_Some: "find_map f xs = Some y \<Longrightarrow> \<exists>x \<in> set xs. f x = Some y"
  by (induction xs) (auto split: option.splits)

lemma matching_language_loaded: "matching_language cat raw = Some t \<Longrightarrow> map_of (cat_locales cat) t \<noteq> None"
  by (auto simp: matching_language_def Let_def dest: match_tag_loaded split: if_splits)

lemma negotiate_loaded:
  assumes "map_of (cat_locales cat) (cat_default cat) \<noteq> None"
  shows "map_of (cat_locales cat) (negotiate L pf cat h) \<noteq> None"
proof -
  have "map_of (cat_locales cat) t \<noteq> None" if "find_map (matching_language cat) tags = Some t" for t tags
    using find_map_Some [OF that] matching_language_loaded by blast
  with assms show ?thesis
    unfolding negotiate_def
    by (cases "find_map (matching_language cat) (take MAX_LANGUAGE_TAGS (language_cookies L h))")
      (auto split: option.splits bind_splits)
qed


lemma id_key_known: "id_key ids n \<in> set (map snd ids @ [UNKNOWN])"
  by (auto simp: id_key_def split: option.splits dest!: map_of_SomeD intro!: rev_image_eqI)

lemma allowed_unknown: "allowed_names True UNKNOWN = []"
  by (simp add: allowed_names_def CONTEXT_NAMES_def UNKNOWN_def)

text \<open>The default language of a loaded catalog has every text, and can fill it with the values Kratos
  is known to send.\<close>

lemma default_text:
  assumes "load_catalog L entries tag = Inr cat" "key \<in> set (map snd MESSAGE_IDS @ [UNKNOWN])"
    and "\<forall>name \<in> set (allowed_names True key). Option.bind (map_of ctx name) (scalar_text L) \<noteq> None"
  shows "text_in L cat loc_messages key ctx (cat_default cat) \<noteq> None"
proof -
  from load_catalog_ok [OF assms(1)] obtain l where l: "map_of (cat_locales cat) (cat_default cat) = Some l"
    "check_complete l = Inr ()" "\<forall>(t, l) \<in> set (cat_locales cat). \<exists>file. check_keys file l = Inr ()" by blast
  from check_complete_ok(1) [OF l(2) assms(2)] obtain template where t: "map_of (loc_messages l) key = Some template" by blast
  from map_of_SomeD [OF l(1)] l(3) obtain f where "check_keys f l = Inr ()" by blast
  from check_keys_text(1) [OF this map_of_SomeD [OF t]] have "check_text f True (key, template) = Inr ()" .
  from check_text_ok [OF this assms(3)] show ?thesis by (simp add: text_in_def l(1) t)
qed

lemma find_map_None: "find_map f xs = None \<longleftrightarrow> (\<forall>x \<in> set xs. f x = None)"
  by (induction xs) (auto split: option.splits)

lemma find_text_Some:
  assumes "find_text L cat language part key ctx = Some shown"
  shows "\<exists>tag l template. tag \<in> {language, cat_default cat} \<and> map_of (cat_locales cat) tag = Some l \<and>
    map_of (part l) key = Some template \<and> fill_text L ctx template = Some shown"
  using find_map_Some [OF assms [unfolded find_text_def]]
  by (auto simp: text_in_def split: bind_splits)

text \<open>C33: A message of Kratos is never shown in Kratos' own words, which can carry what a crafted link
  put in them. With a catalog that loaded, what is shown for it is a text of the locale files, in the
  language negotiated with the visitor (always a loaded one) or the default one, filled with Kratos'
  values or with none: the text for the message's id, or the \<open>Unknown\<close> one. It is the text for the id
  whenever Kratos sends the values the id is known to have: the check at startup has made sure that
  the default language has such a text and needs no other values.\<close>

theorem messages_in_our_words:
  assumes load: "load_catalog L entries default_tag = Ok cat" and language: "language = negotiate L parse_f32 cat h"
  shows "map_of (cat_locales cat) language \<noteq> None \<and>
    (\<exists>tag l key ctx template. tag \<in> {language, cat_default cat} \<and> map_of (cat_locales cat) tag = Some l \<and>
       map_of (loc_messages l) key = Some template \<and> fill_text L ctx template = Some (message_text L cat language m) \<and>
       (key = id_key MESSAGE_IDS (ut_id m) \<and> ctx = ut_context m \<or> key = UNKNOWN \<and> ctx = []) \<and>
       ((\<forall>name \<in> set (allowed_names True (id_key MESSAGE_IDS (ut_id m))).
           Option.bind (map_of (ut_context m) name) (scalar_text L) \<noteq> None) \<longrightarrow> key = id_key MESSAGE_IDS (ut_id m)))"
proof
  from load_catalog_ok [OF load] show "map_of (cat_locales cat) language \<noteq> None"
    unfolding language by (intro negotiate_loaded) auto
  let ?key = "id_key MESSAGE_IDS (ut_id m)"
  let ?sent = "\<forall>name \<in> set (allowed_names True ?key). Option.bind (map_of (ut_context m) name) (scalar_text L) \<noteq> None"
  show "\<exists>tag l key ctx template. tag \<in> {language, cat_default cat} \<and> map_of (cat_locales cat) tag = Some l \<and>
       map_of (loc_messages l) key = Some template \<and> fill_text L ctx template = Some (message_text L cat language m) \<and>
       (key = ?key \<and> ctx = ut_context m \<or> key = UNKNOWN \<and> ctx = []) \<and> (?sent \<longrightarrow> key = ?key)"
  proof (cases "find_text L cat language loc_messages ?key (ut_context m)")
    case (Some shown)
    then have "message_text L cat language m = shown" by (simp add: message_text_def)
    with find_text_Some [OF Some] show ?thesis by blast
  next
    case None
    have "\<not> ?sent"
    proof
      assume ?sent
      from default_text [OF load id_key_known this] None show False
        by (auto simp: find_text_def split: option.splits)
    qed
    have "text_in L cat loc_messages UNKNOWN [] (cat_default cat) \<noteq> None"
      by (rule default_text [OF load]) (simp_all add: allowed_unknown)
    then obtain shown where shown: "find_text L cat language loc_messages UNKNOWN [] = Some shown"
      unfolding find_text_def by (cases "text_in L cat loc_messages UNKNOWN [] language") auto
    with None have "message_text L cat language m = shown" by (simp add: message_text_def)
    with find_text_Some [OF shown] \<open>\<not> ?sent\<close> show ?thesis by blast
  qed
qed

text \<open>A locale file with every key and no words.\<close>

definition demo_locale :: json where
  "demo_locale = JObj [(''messages'', JObj (map (\<lambda>k. (k, JStr [])) (map snd MESSAGE_IDS @ [UNKNOWN]))),
     (''labels'', JObj (map (\<lambda>k. (k, JStr [])) (map snd LABEL_IDS)))]"

definition demo_catalog_libs :: libs where
  "demo_catalog_libs = demo_libs\<lparr>json_read := (\<lambda>t. Some demo_locale)\<rparr>"

lemma update_all:
  "fst ` set (foldl (\<lambda>texts (k, v). AList.update k v texts) acc kvs) = fst ` set acc \<union> fst ` set kvs"
  "\<forall>kv \<in> set acc \<union> set kvs. snd kv = d \<Longrightarrow> \<forall>kv \<in> set (foldl (\<lambda>texts (k, v). AList.update k v texts) acc kvs). snd kv = d"
proof -
  have upd: "set (AList.update k v al) \<subseteq> insert (k, v) (set al)" for k v and al :: "('a \<times> 'b) list"
    by (induction al) auto
  show "fst ` set (foldl (\<lambda>texts (k, v). AList.update k v texts) acc kvs) = fst ` set acc \<union> fst ` set kvs"
  proof (induction kvs arbitrary: acc)
    case (Cons kv kvs)
    then show ?case by (cases kv) (simp add: dom_update)
  qed simp
  show "\<forall>kv \<in> set acc \<union> set kvs. snd kv = d \<Longrightarrow>
      \<forall>kv \<in> set (foldl (\<lambda>texts (k, v). AList.update k v texts) acc kvs). snd kv = d"
  proof (induction kvs arbitrary: acc)
    case (Cons kv kvs)
    obtain k v where kv: "kv = (k, v)" by fastforce
    have "\<forall>kv \<in> set (AList.update k v acc) \<union> set kvs. snd kv = d"
      using Cons.prems upd [of k v acc] by (auto simp: kv)
    from Cons.IH [OF this] show ?case by (simp add: kv)
  qed simp
qed

lemma de_texts_plain:
  "\<exists>texts. de_texts (JObj (map (\<lambda>k. (k, JStr [])) ks)) = Some texts \<and> fst ` set texts = set ks \<and> (\<forall>kv \<in> set texts. snd kv = [])"
proof -
  have "those (map (\<lambda>(k, v). map_option (Pair k) (as_str v)) (map (\<lambda>k. (k, JStr [])) ks)) = Some (map (\<lambda>k. (k, [])) ks)"
    by (induction ks) auto
  then show ?thesis
    using update_all(1) [of "[]" "map (\<lambda>k. (k, [])) ks"] update_all(2) [of "[]" "map (\<lambda>k. (k, [])) ks" "[]"]
    by (simp add: image_image)
qed

lemma plain_locale_ok:
  assumes "fst ` set (loc_messages l) = set (map snd MESSAGE_IDS @ [UNKNOWN])" "\<forall>kv \<in> set (loc_messages l). snd kv = []"
    and "fst ` set (loc_labels l) = set (map snd LABEL_IDS)" "\<forall>kv \<in> set (loc_labels l). snd kv = []" "loc_fields l = []"
  shows "check_keys f l = Inr ()" "check_complete l = Inr ()"
proof -
  have known: "check_known f known texts = Inr ()" if "fst ` set texts = set known" for known texts
  proof -
    have "find (\<lambda>key. key \<notin> set known) (map fst texts) = None" unfolding find_None_iff using that by auto
    then show ?thesis by (simp add: check_known_def)
  qed
  show "check_keys f l = Inr ()"
    unfolding check_keys_def first_error_ok using assms known
    by (auto simp: check_text_def)
  show "check_complete l = Inr ()"
    unfolding check_complete_def first_error_ok using assms(1,3)
    by (auto simp: map_of_eq_None_iff)
qed

lemma demo_catalog_loads:
  "\<exists>cat. load_catalog demo_catalog_libs (Inr [Inr (Some ''en.json'', Inr [])]) ''en'' = Inr cat"
proof -
  obtain ms ls where
    ms: "de_texts (JObj (map (\<lambda>k. (k, JStr [])) (map snd MESSAGE_IDS @ [UNKNOWN]))) = Some ms"
      "fst ` set ms = set (map snd MESSAGE_IDS @ [UNKNOWN])" "\<forall>kv \<in> set ms. snd kv = []" and
    ls: "de_texts (JObj (map (\<lambda>k. (k, JStr [])) (map snd LABEL_IDS))) = Some ls"
      "fst ` set ls = set (map snd LABEL_IDS)" "\<forall>kv \<in> set ls. snd kv = []"
    using de_texts_plain by metis
  let ?l = "\<lparr>loc_messages = ms, loc_labels = ls, loc_fields = []\<rparr>"
  have l: "de_locale demo_locale = Some ?l"
    using ms(1) ls(1) by (simp add: de_locale_def demo_locale_def Let_def comp_def del: de_texts.simps)
  note ok = plain_locale_ok [of ?l, simplified, OF ms(2) [simplified] ms(3) ls(2) [simplified] ls(3)]
  have tag: "json_stem ''en.json'' = Some ''en''" "to_ascii_lowercase ''en'' = ''en''"
    "list_all (\<lambda>b. is_ascii_alphanumeric b \<or> b = CHR ''-'') ''en''"
    by (simp_all add: json_stem_def to_ascii_lowercase_def ascii_lower_def byte_def is_ascii_alphanumeric_def)
  show ?thesis
    by (simp add: load_catalog_def demo_catalog_libs_def demo_libs_def tag l ok Let_def MAX_TAG_LEN_def
        is_ascii_alphanumeric_def byte_def)
qed

theorem messages_in_our_words_witness:
  "\<exists>cat. load_catalog demo_catalog_libs (Inr [Inr (Some ''en.json'', Inr [])]) ''en'' = Ok cat \<and>
     map_of (cat_locales cat) (negotiate demo_catalog_libs (\<lambda>s. None) cat [(''cookie'', ''language=sv'')]) \<noteq> None"
  using demo_catalog_loads messages_in_our_words [OF _ refl] by blast

end
