(* ===== verification/Markup.thy ===== *)
theory Markup
  imports LoginState
begin

text \<open>
  HTML as a browser reads it, and the escaping login prints it with (\<open>escape\<close> of
  \<open>login/src/render.rs\<close>). \<open>tokenize\<close> is the reference: the tags, attributes and texts of markup whose
  attribute values are in double quotes. Printing tokens and reading them back is the identity, up to
  joining neighbouring texts, whatever the texts and values are: \<open>escape\<close> leaves nothing in them that
  could be read as markup.
\<close>

abbreviation QUOTE :: char where "QUOTE \<equiv> CHR 0x22"

fun escape_char :: "char \<Rightarrow> string" where
  "escape_char c =
     (if c = CHR ''&'' then ''&amp;'' else if c = CHR ''<'' then ''&lt;'' else if c = CHR ''>'' then ''&gt;''
      else if c = QUOTE then ''&quot;'' else if c = CHR 0x27 then ''&#39;'' else [c])"

definition escape :: "string \<Rightarrow> string" where
  "escape raw = concat (map escape_char raw)"

section \<open>The reference reader\<close>

datatype token = Open string "(string \<times> string option) list" | Close string | Txt string

text \<open>The character references \<open>escape\<close> writes.\<close>

fun unescape :: "string \<Rightarrow> string" where
  "unescape [] = []"
| "unescape (c # cs) =
     (if c \<noteq> CHR ''&'' then c # unescape cs
      else if take 4 cs = ''amp;'' then CHR ''&'' # unescape (drop 4 cs)
      else if take 3 cs = ''lt;'' then CHR ''<'' # unescape (drop 3 cs)
      else if take 3 cs = ''gt;'' then CHR ''>'' # unescape (drop 3 cs)
      else if take 5 cs = ''quot;'' then QUOTE # unescape (drop 5 cs)
      else if take 4 cs = ''#39;'' then CHR 0x27 # unescape (drop 4 cs)
      else c # unescape cs)"

definition name_char :: "char \<Rightarrow> bool" where
  "name_char c \<longleftrightarrow> is_ascii_alphanumeric c \<or> c = CHR ''-''"

text \<open>The attributes of a tag, up to its \<open>>\<close>.\<close>

function read_attrs :: "string \<Rightarrow> ((string \<times> string option) list \<times> string) option" where
  "read_attrs [] = None"
| "read_attrs (c # rest) =
     (if c = CHR ''>'' then Some ([], rest)
      else if c \<noteq> CHR '' '' then None
      else (let name = takeWhile name_char rest; r = dropWhile name_char rest in
        if take 2 r = ''='' @ [QUOTE]
        then (case split_once QUOTE (drop 2 r) of
            None \<Rightarrow> None
          | Some (v, after) \<Rightarrow> map_option (\<lambda>(as, r'). ((name, Some (unescape v)) # as, r')) (read_attrs after))
        else map_option (\<lambda>(as, r'). ((name, None) # as, r')) (read_attrs r)))"
  by pat_completeness auto

lemma split_once_shorter: "split_once c xs = Some (a, b) \<Longrightarrow> length b < length xs"
  by (auto simp: split_once_Some)

lemma length_dropWhile_Suc: "length (dropWhile p xs) < Suc (length xs)"
  by (simp add: length_dropWhile_le less_Suc_eq_le)

termination read_attrs
proof (relation "measure length", goal_cases)
  case (2 c rest name r x v after)
  then have "length after < length (drop 2 r)" by (auto dest: split_once_shorter)
  moreover have "length r \<le> length rest" using 2 by (simp add: length_dropWhile_le)
  ultimately show ?case by simp
qed (auto simp: length_dropWhile_Suc)

function tokenize :: "string \<Rightarrow> token list option" where
  "tokenize [] = Some []"
| "tokenize (c # rest) =
     (if c \<noteq> CHR ''<'' then
        map_option (Cons (Txt (unescape (c # takeWhile (\<lambda>d. d \<noteq> CHR ''<'') rest)))) (tokenize (dropWhile (\<lambda>d. d \<noteq> CHR ''<'') rest))
      else if take 1 rest = ''/'' then (case split_once (CHR ''>'') (drop 1 rest) of
          None \<Rightarrow> None
        | Some (name, after) \<Rightarrow> map_option (Cons (Close name)) (tokenize after))
      else (case read_attrs (dropWhile name_char rest) of
          None \<Rightarrow> None
        | Some (as, after) \<Rightarrow> map_option (Cons (Open (takeWhile name_char rest) as)) (tokenize after)))"
  by pat_completeness auto

lemma read_attrs_shorter: "read_attrs s = Some (as, after) \<Longrightarrow> length after < length s"
proof (induction s arbitrary: as rule: read_attrs.induct)
  case (2 c rest)
  let ?r = "dropWhile name_char rest"
  have r: "length ?r \<le> length rest" by (rule length_dropWhile_le)
  show ?case
  proof (cases "c = CHR ''>''")
    case True
    with 2(3) show ?thesis by simp
  next
    case gt: False
    with 2(3) have sp: "c = CHR '' ''" by (auto split: if_splits)
    show ?thesis
    proof (cases "take 2 ?r = ''='' @ [QUOTE]")
      case True
      with 2(3) gt sp obtain v mid as' where "split_once QUOTE (drop 2 ?r) = Some (v, mid)" "read_attrs mid = Some (as', after)"
        by (auto simp: Let_def split: option.splits)
      with 2(1) [of "takeWhile name_char rest" ?r "(v, mid)" v mid as'] gt sp True r show ?thesis
        by (auto dest!: split_once_shorter)
    next
      case False
      with 2(3) gt sp obtain as' where "read_attrs ?r = Some (as', after)" by (auto simp: Let_def)
      with 2(2) [of "takeWhile name_char rest" ?r as'] gt sp False r show ?thesis by auto
    qed
  qed
qed simp

termination tokenize
proof (relation "measure length", goal_cases)
  case (2 c rest)
  show ?case by (simp add: length_dropWhile_Suc)
next
  case (3 c rest x name after)
  then show ?case by (auto dest!: split_once_shorter)
next
  case (4 c rest x as after)
  then have "length after < length (dropWhile name_char rest)" by (auto dest: read_attrs_shorter)
  with length_dropWhile_le [of name_char rest] show ?case by simp
qed simp

section \<open>Printing\<close>

definition print_attr :: "string \<times> string option \<Rightarrow> string" where
  "print_attr a = CHR '' '' # fst a @ (case snd a of None \<Rightarrow> [] | Some v \<Rightarrow> ''='' @ [QUOTE] @ escape v @ [QUOTE])"

fun print_token :: "token \<Rightarrow> string" where
  "print_token (Open name as) = ''<'' @ name @ concat (map print_attr as) @ ''>''"
| "print_token (Close name) = ''</'' @ name @ ''>''"
| "print_token (Txt s) = escape s"

definition print_tokens :: "token list \<Rightarrow> string" where
  "print_tokens ts = concat (map print_token ts)"

definition is_name :: "string \<Rightarrow> bool" where
  "is_name s \<longleftrightarrow> s \<noteq> [] \<and> list_all name_char s"

fun printable :: "token \<Rightarrow> bool" where
  "printable (Open name as) \<longleftrightarrow> is_name name \<and> list_all (\<lambda>a. is_name (fst a)) as"
| "printable (Close name) \<longleftrightarrow> is_name name"
| "printable (Txt s) \<longleftrightarrow> True"

text \<open>Neighbouring texts as one, without empty ones.\<close>

definition join_text :: "string \<Rightarrow> token list \<Rightarrow> token list" where
  "join_text s ts = (if s = [] then ts else case ts of Txt s' # r \<Rightarrow> Txt (s @ s') # r | _ \<Rightarrow> Txt s # ts)"

fun join_texts :: "token list \<Rightarrow> token list" where
  "join_texts [] = []"
| "join_texts (Txt s # ts) = join_text s (join_texts ts)"
| "join_texts (t # ts) = t # join_texts ts"

section \<open>Reading back what was printed\<close>

lemma escape_simps [simp]: "escape [] = []" "escape (c # cs) = escape_char c @ escape cs" "escape (s @ t) = escape s @ escape t"
  by (simp_all add: escape_def)

declare escape_char.simps [simp del]

lemma escape_char_plain: "c \<notin> {CHR ''&'', CHR ''<'', CHR ''>'', QUOTE, CHR 0x27} \<Longrightarrow> escape_char c = [c]"
  by (simp add: escape_char.simps)

lemma escape_plain: "list_all (\<lambda>c. c \<notin> {CHR ''&'', CHR ''<'', CHR ''>'', QUOTE, CHR 0x27}) s \<Longrightarrow> escape s = s"
  by (induction s) (simp_all add: escape_char_plain)

lemma escape_char_safe: "CHR ''<'' \<notin> set (escape_char c)" "QUOTE \<notin> set (escape_char c)" "escape_char c \<noteq> []"
  by (simp_all add: escape_char.simps)

lemma escape_safe: "CHR ''<'' \<notin> set (escape s)" "QUOTE \<notin> set (escape s)" "escape s = [] \<longleftrightarrow> s = []"
  by (induction s) (auto simp: escape_char_safe)

lemma unescape_escape_append: "unescape (escape_char c @ t) = c # unescape t"
  by (simp add: escape_char.simps numeral_eq_Suc)

lemma unescape_escape [simp]: "unescape (escape s) = s"
  by (induction s) (simp_all add: unescape_escape_append)

lemma name_char_simps [simp]: "\<not> name_char (CHR '' '')" "\<not> name_char (CHR ''>'')" "\<not> name_char (CHR ''='')" "\<not> name_char (CHR ''/'')"
  by (simp_all add: name_char_def is_ascii_alphanumeric_def byte_def)

lemma span_name:
  "list_all name_char n \<Longrightarrow> \<not> name_char c \<Longrightarrow>
     takeWhile name_char (n @ c # r) = n \<and> dropWhile name_char (n @ c # r) = c # r"
  by (induction n) simp_all

lemma print_attrs_head: "\<exists>c r. concat (map print_attr as) @ ''>'' @ after = c # r \<and> (c = CHR '' '' \<or> c = CHR ''>'')"
  by (cases as) (auto simp: print_attr_def)

lemma read_attrs_print:
  "list_all (\<lambda>a. is_name (fst a)) as \<Longrightarrow> read_attrs (concat (map print_attr as) @ ''>'' @ after) = Some (as, after)"
proof (induction as)
  case Nil
  show ?case by simp
next
  case (Cons a as)
  obtain n v where a: "a = (n, v)" by fastforce
  have n: "list_all name_char n" using Cons.prems by (simp add: a is_name_def)
  define R where "R = concat (map print_attr as) @ ''>'' @ after"
  have IH: "read_attrs R = Some (as, after)" using Cons by (simp add: R_def)
  have e: "concat (map print_attr (a # as)) @ ''>'' @ after = print_attr a @ R" by (simp add: R_def)
  show ?case
  proof (cases v)
    case None
    obtain c r where c: "R = c # r" "c = CHR '' '' \<or> c = CHR ''>''" unfolding R_def using print_attrs_head by blast
    then have "\<not> name_char c" by auto
    note sp = span_name [OF n this, of r, folded c(1)]
    have h: "take 2 R \<noteq> ''='' @ [QUOTE]" using c by auto
    have "read_attrs (CHR '' '' # n @ R) = Some ((n, None) # as, after)"
      using IH sp h by (simp add: Let_def)
    moreover have "print_attr a @ R = CHR '' '' # n @ R" by (simp add: a None print_attr_def)
    ultimately show ?thesis unfolding e by (simp add: a None)
  next
    case (Some w)
    have sp: "takeWhile name_char (n @ CHR ''='' # QUOTE # escape w @ QUOTE # R) = n"
      "dropWhile name_char (n @ CHR ''='' # QUOTE # escape w @ QUOTE # R) = CHR ''='' # QUOTE # escape w @ QUOTE # R"
      using span_name [OF n name_char_simps(3)] by simp_all
    have so: "split_once QUOTE (escape w @ QUOTE # R) = Some (escape w, R)"
      by (rule split_once_append) (rule escape_safe)
    have "read_attrs (CHR '' '' # n @ CHR ''='' # QUOTE # escape w @ QUOTE # R) = Some ((n, Some w) # as, after)"
      unfolding read_attrs.simps sp Let_def using IH so by simp
    moreover have "print_attr a @ R = CHR '' '' # n @ CHR ''='' # QUOTE # escape w @ QUOTE # R" by (simp add: a Some print_attr_def)
    ultimately show ?thesis unfolding e by (simp add: a Some)
  qed
qed

lemma tokenize_open:
  assumes "is_name name" "list_all (\<lambda>a. is_name (fst a)) as"
  shows "tokenize (print_token (Open name as) @ after) = map_option (Cons (Open name as)) (tokenize after)"
proof -
  define R where "R = concat (map print_attr as) @ ''>'' @ after"
  obtain c r where c: "R = c # r" "c = CHR '' '' \<or> c = CHR ''>''"
    unfolding R_def using print_attrs_head by blast
  then have "\<not> name_char c" by auto
  have n: "list_all name_char name" "name \<noteq> []" using assms(1) by (simp_all add: is_name_def)
  note sp = span_name [OF n(1) \<open>\<not> name_char c\<close>, of r, folded c(1)]
  have hd: "take 1 (name @ R) \<noteq> ''/''" using n by (cases name) auto
  have "read_attrs R = Some (as, after)" using read_attrs_print [OF assms(2), of after] by (simp add: R_def)
  then have "tokenize (CHR ''<'' # name @ R) = map_option (Cons (Open name as)) (tokenize after)"
    using sp hd by (simp only: tokenize.simps not_True_eq_False simp_thms if_False option.case prod.case)
  then show ?thesis by (simp add: R_def)
qed

lemma tokenize_close:
  assumes "is_name name"
  shows "tokenize (print_token (Close name) @ after) = map_option (Cons (Close name)) (tokenize after)"
proof -
  have "CHR ''>'' \<notin> set name" using assms by (auto simp: is_name_def list_all_iff)
  then have "split_once (CHR ''>'') (name @ CHR ''>'' # after) = Some (name, after)" by (rule split_once_append)
  then show ?thesis by simp
qed


lemma tokenize_text:
  assumes "s \<noteq> []" "after = [] \<or> hd after = CHR ''<''"
  shows "tokenize (escape s @ after) = map_option (Cons (Txt s)) (tokenize after)"
proof -
  have es: "escape s \<noteq> []" "CHR ''<'' \<notin> set (escape s)" using assms(1) escape_safe by auto
  then obtain c r where c: "escape s = c # r" by (cases "escape s") auto
  have ne: "\<forall>d \<in> set r. d \<noteq> CHR ''<''" "c \<noteq> CHR ''<''" using es by (auto simp: c)
  have t: "takeWhile (\<lambda>d. d \<noteq> CHR ''<'') (r @ after) = r" "dropWhile (\<lambda>d. d \<noteq> CHR ''<'') (r @ after) = after"
    using ne(1) assms(2) by (cases after; simp add: takeWhile_append2 dropWhile_append2)+
  have "unescape (c # r) = s" unfolding c [symmetric] by simp
  with ne(2) t show ?thesis unfolding c append_Cons tokenize.simps by simp
qed

fun normal :: "token list \<Rightarrow> bool" where
  "normal [] \<longleftrightarrow> True"
| "normal (Txt s # ts) \<longleftrightarrow> s \<noteq> [] \<and> (case ts of Txt s' # r \<Rightarrow> False | _ \<Rightarrow> True) \<and> normal ts"
| "normal (t # ts) \<longleftrightarrow> normal ts"

lemma join_text_normal: "normal ts \<Longrightarrow> normal (join_text s ts)"
proof (cases ts)
  case (Cons t r)
  then show "normal ts \<Longrightarrow> ?thesis" by (cases t) (auto simp: join_text_def)
qed (simp add: join_text_def)

lemma join_texts_normal: "normal (join_texts ts)"
  by (induction ts rule: join_texts.induct) (simp_all add: join_text_normal)

lemma print_join_text: "print_tokens (join_text s ts) = escape s @ print_tokens ts"
proof (cases ts)
  case (Cons t r)
  then show ?thesis by (cases t) (auto simp: join_text_def print_tokens_def)
qed (simp add: join_text_def print_tokens_def)

lemma print_join_texts: "print_tokens (join_texts ts) = print_tokens ts"
proof (induction ts rule: join_texts.induct)
  case (2 s ts)
  then show ?case by (simp add: print_join_text) (simp add: print_tokens_def)
qed (simp_all add: print_tokens_def)

lemma set_join_text: "t \<in> set (join_text s ts) \<Longrightarrow> t \<in> set ts \<or> (\<exists>s. t = Txt s)"
  by (auto simp: join_text_def split: if_splits list.splits token.splits)

lemma set_join_texts: "t \<in> set (join_texts ts) \<Longrightarrow> t \<in> set ts \<or> (\<exists>s. t = Txt s)"
  by (induction ts rule: join_texts.induct) (auto dest: set_join_text)

lemma list_all_join_texts:
  assumes "list_all P ts" "\<And>s. P (Txt s)" shows "list_all P (join_texts ts)"
  unfolding list_all_iff using assms set_join_texts [of _ ts] by (fastforce simp: list_all_iff)

lemma tokenize_normal: "normal ts \<Longrightarrow> list_all printable ts \<Longrightarrow> tokenize (print_tokens ts) = Some ts"
proof (induction ts)
  case Nil
  show ?case by (simp add: print_tokens_def)
next
  case (Cons t ts)
  have p: "print_tokens (t # ts) = print_token t @ print_tokens ts" by (simp add: print_tokens_def)
  show ?case
  proof (cases t)
    case (Open name as)
    with Cons tokenize_open [of name as "print_tokens ts"] show ?thesis by (simp add: p [unfolded Open] del: print_token.simps)
  next
    case (Close name)
    with Cons tokenize_close [of name "print_tokens ts"] show ?thesis by (simp add: p [unfolded Close] del: print_token.simps)
  next
    case (Txt s)
    have "print_tokens ts = [] \<or> hd (print_tokens ts) = CHR ''<''"
    proof (cases ts)
      case (Cons u us)
      with \<open>normal (t # ts)\<close> Txt show ?thesis by (cases u) (auto simp: print_tokens_def)
    qed (simp add: print_tokens_def)
    with Cons Txt show ?thesis unfolding p by (simp add: tokenize_text)
  qed
qed

text \<open>What is printed is what is read.\<close>

theorem tokenize_print: "list_all printable ts \<Longrightarrow> tokenize (print_tokens ts) = Some (join_texts ts)"
  using tokenize_normal [OF join_texts_normal list_all_join_texts, of ts] by (simp add: print_join_texts)

section \<open>Markup with a property\<close>

text \<open>A script element without a text: nothing in the markup itself is run.\<close>

fun scripts_empty :: "token list \<Rightarrow> bool" where
  "scripts_empty [] \<longleftrightarrow> True"
| "scripts_empty (Open name as # ts) \<longleftrightarrow> (name = ''script'' \<longrightarrow> take 1 ts = [Close ''script'']) \<and> scripts_empty ts"
| "scripts_empty (t # ts) \<longleftrightarrow> scripts_empty ts"

lemma take_one: "take (Suc 0) ts = [t] \<longleftrightarrow> (\<exists>r. ts = t # r)"
  by (cases ts) auto

lemma scripts_empty_append: "scripts_empty ts \<Longrightarrow> scripts_empty us \<Longrightarrow> scripts_empty (ts @ us)"
  by (induction ts rule: scripts_empty.induct) (auto simp: take_one)

lemma scripts_empty_join_text: "scripts_empty ts \<Longrightarrow> scripts_empty (join_text s ts)"
proof (cases ts)
  case (Cons t r)
  then show "scripts_empty ts \<Longrightarrow> ?thesis" by (cases t) (auto simp: join_text_def)
qed (simp add: join_text_def)

lemma take_one_join_texts: "take (Suc 0) ts = [Close c] \<Longrightarrow> take (Suc 0) (join_texts ts) = [Close c]"
  by (cases ts) auto

lemma scripts_empty_join: "scripts_empty ts \<Longrightarrow> scripts_empty (join_texts ts)"
  by (induction ts rule: join_texts.induct) (simp_all add: scripts_empty_join_text take_one_join_texts)

text \<open>\<open>made P html\<close>: \<open>html\<close> is printed tokens all of which satisfy \<open>P\<close>, and reads as such; its scripts are empty.\<close>

definition made :: "(token \<Rightarrow> bool) \<Rightarrow> string \<Rightarrow> bool" where
  "made P html \<longleftrightarrow> (\<exists>ts. html = print_tokens ts \<and> list_all printable ts \<and> list_all P ts \<and> scripts_empty ts)"

lemma made_tokens:
  assumes "made P html" "\<And>s. P (Txt s)"
  shows "\<exists>ts. tokenize html = Some ts \<and> list_all P ts \<and> scripts_empty ts"
proof -
  obtain ts where ts: "html = print_tokens ts" "list_all printable ts" "list_all P ts" "scripts_empty ts"
    using assms(1) by (auto simp: made_def)
  with tokenize_print list_all_join_texts assms(2) scripts_empty_join show ?thesis by blast
qed

lemma madeI: "list_all printable ts \<Longrightarrow> list_all P ts \<Longrightarrow> scripts_empty ts \<Longrightarrow> made P (print_tokens ts)"
  by (auto simp: made_def)

lemma made_Nil [simp, intro]: "made P []"
  using madeI [of "[]" P] by (simp add: print_tokens_def)

lemma made_append [intro]: "made P a \<Longrightarrow> made P b \<Longrightarrow> made P (a @ b)"
proof -
  assume "made P a" "made P b"
  then obtain ts us where "a = print_tokens ts" "list_all printable ts" "list_all P ts" "scripts_empty ts"
    "b = print_tokens us" "list_all printable us" "list_all P us" "scripts_empty us" by (auto simp: made_def)
  then show "made P (a @ b)" using madeI [of "ts @ us" P] by (simp add: print_tokens_def scripts_empty_append)
qed

lemma made_concat: "(\<And>x. x \<in> set xs \<Longrightarrow> made P (f x)) \<Longrightarrow> made P (concat (map f xs))"
  by (induction xs) auto

fun opens_script :: "token \<Rightarrow> bool" where
  "opens_script (Open name as) \<longleftrightarrow> name = ''script''"
| "opens_script _ \<longleftrightarrow> False"

lemma made_token: "printable t \<Longrightarrow> P t \<Longrightarrow> \<not> opens_script t \<Longrightarrow> made P (print_token t)"
  using madeI [of "[t]" P] by (cases t) (simp_all add: print_tokens_def)

lemma made_empty_script:
  assumes "list_all (\<lambda>a. is_name (fst a)) as" "P (Open ''script'' as)" "P (Close ''script'')"
  shows "made P (print_token (Open ''script'' as) @ print_token (Close ''script''))"
proof -
  have "is_name ''script''" by code_simp
  with assms madeI [of "[Open ''script'' as, Close ''script'']" P] show ?thesis by (simp add: print_tokens_def)
qed

lemma made_escape [intro]: "P (Txt s) \<Longrightarrow> made P (escape s)"
  using made_token [of "Txt s" P] by simp

lemma made_if: "(c \<Longrightarrow> made P a) \<Longrightarrow> (\<not> c \<Longrightarrow> made P b) \<Longrightarrow> made P (if c then a else b)"
  by simp

end
