(* ===== verification/Render.thy ===== *)
theory Render
  imports I18n Markup
begin

text \<open>
  Kratos' flows (\<open>login/src/kratos.rs\<close>) and the markup login makes of their nodes
  (\<open>login/src/render.rs\<close>). How \<open>serde\<close> reads a flow from JSON (a flattened, adjacently tagged enum) is
  generated code, an argument where it is needed. \<open>attr\<close>, \<open>open_tag\<close> and \<open>close_tag\<close> spell the format
  strings of the source; their values are escaped by the caller, as there.
\<close>

section \<open>Flows\<close>

record input_attributes =
  in_name :: string
  in_kind :: string
  in_value :: "json option"
  in_required :: bool
  in_disabled :: bool
  in_autocomplete :: "string option"
  in_maxlength :: "nat option"
  in_pattern :: "string option"
  in_onclick_trigger :: "string option"
  in_onload_trigger :: "string option"

record text_attributes =
  tx_text :: ui_text
  tx_id :: string

record img_attributes =
  im_src :: string
  im_id :: string
  im_width :: "nat option"
  im_height :: "nat option"

record anchor_attributes =
  an_href :: string
  an_title :: ui_text
  an_id :: string

record script_attributes =
  sc_src :: string
  sc_is_async :: bool
  sc_crossorigin :: "string option"
  sc_integrity :: "string option"
  sc_referrerpolicy :: "string option"
  sc_id :: string

record div_attributes =
  dv_id :: string

datatype node_kind =
    InputNode input_attributes
  | TextNode text_attributes
  | ImgNode img_attributes
  | AnchorNode anchor_attributes
  | ScriptNode script_attributes
  | DivNode div_attributes
  | UnknownNode

record meta =
  mt_label :: "ui_text option"

record node =
  nd_group :: string
  nd_kind :: node_kind
  nd_messages :: "ui_text list"
  nd_meta :: meta

record ui =
  ui_action :: string
  ui_method :: string
  ui_nodes :: "node list"
  ui_messages :: "ui_text list"

record flow =
  fl_ui :: ui
  fl_request_url :: "string option"

section \<open>Where markup may point\<close>

record render_rules =
  rule_own :: url
  rule_kratos_origin :: string
  rule_provider_logos :: "(string \<times> string) list"

definition https_only :: "render_rules \<Rightarrow> bool" where
  "https_only rules \<longleftrightarrow> url_scheme (rule_own rules) = ''https''"

definition local_url :: "login_libs \<Rightarrow> render_rules \<Rightarrow> string \<Rightarrow> string option" where
  "local_url M rules raw = (case join_url M (rule_own rules) raw of
     None \<Rightarrow> None
   | Some u \<Rightarrow>
       if url_origin u \<noteq> url_origin (rule_own rules) \<and> url_origin u \<noteq> rule_kratos_origin rules then None
       else Some (case url_query u of Some query \<Rightarrow> url_path u @ ''?'' @ query | None \<Rightarrow> url_path u))"

definition is_local_path :: "string \<Rightarrow> bool" where
  "is_local_path raw \<longleftrightarrow> starts_with raw ''/'' \<and> \<not> starts_with raw ''//'' \<and> \<not> starts_with raw [CHR ''/'', CHR 0x5C]"

definition is_web_url :: "string \<Rightarrow> render_rules \<Rightarrow> bool" where
  "is_web_url raw rules \<longleftrightarrow>
     (let lower = to_ascii_lowercase raw in
      starts_with lower ''https://'' \<or> (starts_with lower ''http://'' \<and> \<not> https_only rules) \<or> is_local_path raw)"

text \<open>The logos of a directory: the names of its entries that are text, or that there is no directory.\<close>

definition logo_of :: "string \<Rightarrow> (string \<times> string) option" where
  "logo_of name = (case split_once (CHR ''.'') (rev name) of
     None \<Rightarrow> None
   | Some (ext, stem) \<Rightarrow>
       if list_all (\<lambda>b. is_ascii_alphanumeric b \<or> b = CHR ''-'' \<or> b = CHR ''_'') (rev stem) \<and>
          rev ext \<in> {''webp'', ''png'', ''svg'', ''jpg''}
       then Some (rev stem, name) else None)"

fun collect_logos :: "(string \<times> string) list \<Rightarrow> string list \<Rightarrow> string + (string \<times> string) list" where
  "collect_logos logos [] = Ok logos"
| "collect_logos logos (name # names) = (case logo_of name of
     None \<Rightarrow> collect_logos logos names
   | Some (provider, file_name) \<Rightarrow>
       if map_of logos provider \<noteq> None then Err (''two logos for provider '' @ provider)
       else collect_logos (AList.update provider file_name logos) names)"

datatype logo_dir = LogoEntries "string option list" | LogoDirMissing | LogoDirUnreadable string

definition provider_logo_files :: "logo_dir \<Rightarrow> string + (string \<times> string) list" where
  "provider_logo_files d = (case d of
     LogoEntries es \<Rightarrow> collect_logos [] (List.map_filter id es)
   | LogoDirMissing \<Rightarrow> Ok []
   | LogoDirUnreadable cause \<Rightarrow> Err (''cannot read the provider logos: '' @ cause))"

definition new_render_rules :: "libs \<Rightarrow> string \<Rightarrow> string \<Rightarrow> logo_dir \<Rightarrow> string + render_rules" where
  "new_render_rules L own_origin kratos_origin d = (case provider_logo_files d of
     Inl e \<Rightarrow> Err e
   | Inr logos \<Rightarrow> (case parse_url L own_origin of
       None \<Rightarrow> Err ''invalid WA_LOGIN_PUBLIC_URL''
     | Some own \<Rightarrow> Ok \<lparr>rule_own = own, rule_kratos_origin = kratos_origin, rule_provider_logos = logos\<rparr>))"

section \<open>Markup\<close>

definition attr :: "string \<Rightarrow> string \<Rightarrow> string" where
  "attr name v = CHR '' '' # name @ ''='' @ [QUOTE] @ v @ [QUOTE]"

definition flag :: "string \<Rightarrow> bool \<Rightarrow> string" where
  "flag name b = (if b then CHR '' '' # name else [])"

definition opt_attr :: "string \<Rightarrow> string option \<Rightarrow> string" where
  "opt_attr name v = (case v of None \<Rightarrow> [] | Some t \<Rightarrow> attr name (escape t))"

definition open_tag :: "string \<Rightarrow> string list \<Rightarrow> string" where
  "open_tag name attrs = ''<'' @ name @ concat attrs @ ''>''"

definition close_tag :: "string \<Rightarrow> string" where
  "close_tag name = ''</'' @ name @ ''>''"

definition message_kind :: "ui_text \<Rightarrow> string" where
  "message_kind m = (if ut_kind m = ''error'' then ''error'' else if ut_kind m = ''success'' then ''success'' else ''info'')"

definition render_messages :: "libs \<Rightarrow> catalog \<Rightarrow> string \<Rightarrow> ui_text list \<Rightarrow> string" where
  "render_messages L cat lang ms =
     (if ms = [] then []
      else open_tag ''ul'' [attr ''class'' ''messages''] @
        concat (map (\<lambda>m. open_tag ''li'' [attr ''class'' (''message message-'' @ message_kind m)] @
          escape (message_text L cat lang m) @ close_tag ''li'') ms) @ close_tag ''ul'')"

definition id_attribute :: "string \<Rightarrow> string" where
  "id_attribute i = (if i = [] then [] else attr ''id'' (escape i))"

definition value_text :: "libs \<Rightarrow> json option \<Rightarrow> string option" where
  "value_text L v = Option.bind v (scalar_text L)"

definition TRIGGERS :: "string list" where
  "TRIGGERS = [''oryWebAuthnRegistration'', ''oryWebAuthnLogin'', ''oryPasskeyLogin'',
     ''oryPasskeyLoginAutocompleteInit'', ''oryPasskeyRegistration'', ''oryPasskeySettingsRegistration'']"

definition known_trigger :: "string option \<Rightarrow> string option" where
  "known_trigger name = opt_filter (\<lambda>n. n \<in> set TRIGGERS) name"

definition trigger_attributes :: "input_attributes \<Rightarrow> string" where
  "trigger_attributes i =
     (case known_trigger (in_onclick_trigger i) of Some name \<Rightarrow> attr ''data-wa-trigger'' name | None \<Rightarrow> []) @
     (case known_trigger (in_onload_trigger i) of Some name \<Rightarrow> attr ''data-wa-onload'' name | None \<Rightarrow> [])"

definition provider_logo :: "string \<Rightarrow> render_rules \<Rightarrow> string" where
  "provider_logo i rules = (case map_of (rule_provider_logos rules) i of
     Some file_name \<Rightarrow> open_tag ''img'' [attr ''src'' (''/providers/'' @ escape file_name), attr ''alt'' [], attr ''height'' ''22'']
   | None \<Rightarrow> [])"

definition INPUT_KINDS :: "string list" where
  "INPUT_KINDS = [''password'', ''number'', ''checkbox'', ''email'', ''tel'', ''url'', ''date'', ''datetime-local'']"

definition button_label :: "libs \<Rightarrow> catalog \<Rightarrow> string \<Rightarrow> node \<Rightarrow> input_attributes \<Rightarrow> string" where
  "button_label L cat lang nd i =
     (case opt_or (opt_filter (\<lambda>t. t \<noteq> []) (map_option (field_label L cat lang (in_name i)) (mt_label (nd_meta nd))))
        (value_text L (in_value i)) of
        Some t \<Rightarrow> t | None \<Rightarrow> in_name i)"

definition render_input ::
    "libs \<Rightarrow> catalog \<Rightarrow> string \<Rightarrow> render_rules \<Rightarrow> node \<Rightarrow> input_attributes \<Rightarrow> string" where
  "render_input L cat lang rules nd i =
     (let v = value_text L (in_value i); name = escape (in_name i); group = escape (nd_group nd);
          disabled = flag ''disabled'' (in_disabled i); kind = in_kind i in
      if kind = ''hidden'' then
        open_tag ''input'' [attr ''type'' ''hidden'', attr ''name'' name, opt_attr ''value'' v, trigger_attributes i] @
        render_messages L cat lang (nd_messages nd)
      else if kind = ''submit'' \<or> kind = ''button'' then
        (let logo = (case opt_filter (\<lambda>x. nd_group nd = ''oidc'' \<and> in_name i = ''provider'') v of
                       Some provider \<Rightarrow> provider_logo provider rules | None \<Rightarrow> [])
         in open_tag ''button'' [attr ''class'' (''btn btn-'' @ group), attr ''type'' kind, attr ''name'' name,
              opt_attr ''value'' v, trigger_attributes i, disabled] @
            logo @ escape (button_label L cat lang nd i) @ close_tag ''button'' @
            render_messages L cat lang (nd_messages nd))
      else
        (let shown = (if kind \<in> set INPUT_KINDS then kind else ''text'');
             label = (case mt_label (nd_meta nd) of Some l \<Rightarrow> field_label L cat lang (in_name i) l | None \<Rightarrow> []);
             i_d = ''f-'' @ group @ ''-'' @ name
         in open_tag ''div'' [attr ''class'' ''field''] @ open_tag ''label'' [attr ''for'' i_d] @ escape label @ close_tag ''label'' @
            open_tag ''input'' [attr ''type'' shown, attr ''id'' i_d, attr ''name'' name, opt_attr ''value'' v,
              opt_attr ''autocomplete'' (in_autocomplete i),
              (case in_maxlength i of Some n \<Rightarrow> attr ''maxlength'' (nat_str n) | None \<Rightarrow> []),
              opt_attr ''pattern'' (in_pattern i), flag ''required'' (in_required i), disabled, trigger_attributes i] @
            render_messages L cat lang (nd_messages nd) @ close_tag ''div''))"

definition render_img :: "img_attributes \<Rightarrow> string" where
  "render_img im =
     (let src = to_ascii_lowercase (im_src im) in
      if \<not> (is_local_path (im_src im) \<or> starts_with src ''data:image/'') then []
      else open_tag ''img'' [attr ''src'' (escape (im_src im)), attr ''alt'' [],
        (case im_width im of Some n \<Rightarrow> attr ''width'' (nat_str n) | None \<Rightarrow> []),
        (case im_height im of Some n \<Rightarrow> attr ''height'' (nat_str n) | None \<Rightarrow> []), id_attribute (im_id im)])"

definition render_anchor :: "libs \<Rightarrow> catalog \<Rightarrow> string \<Rightarrow> render_rules \<Rightarrow> anchor_attributes \<Rightarrow> string" where
  "render_anchor L cat lang rules a =
     (let title = escape (label_text L cat lang (an_title a)) in
      if is_web_url (an_href a) rules
      then open_tag ''a'' [attr ''href'' (escape (an_href a)), id_attribute (an_id a)] @ title @ close_tag ''a''
      else open_tag ''span'' [id_attribute (an_id a)] @ title @ close_tag ''span'')"

definition render_script :: "login_libs \<Rightarrow> render_rules \<Rightarrow> string \<Rightarrow> script_attributes \<Rightarrow> string" where
  "render_script M rules nonce s = (case local_url M rules (sc_src s) of
     None \<Rightarrow> []
   | Some src \<Rightarrow>
       open_tag ''script'' [attr ''src'' (escape src), flag ''async'' (sc_is_async s),
         opt_attr ''crossorigin'' (sc_crossorigin s), opt_attr ''integrity'' (sc_integrity s),
         opt_attr ''referrerpolicy'' (sc_referrerpolicy s), attr ''nonce'' nonce, id_attribute (sc_id s)] @
       close_tag ''script'')"

definition is_input_node :: "node \<Rightarrow> bool" where
  "is_input_node nd \<longleftrightarrow> (case nd_kind nd of InputNode i \<Rightarrow> True | _ \<Rightarrow> False)"

definition render_node :: "libs \<Rightarrow> catalog \<Rightarrow> string \<Rightarrow> render_rules \<Rightarrow> node \<Rightarrow> string" where
  "render_node L cat lang rules nd =
     (case nd_kind nd of
        InputNode i \<Rightarrow> render_input L cat lang rules nd i
      | TextNode t \<Rightarrow> open_tag ''p'' [attr ''class'' ''node-text'', id_attribute (tx_id t)] @
          escape (label_text L cat lang (tx_text t)) @ close_tag ''p''
      | ImgNode im \<Rightarrow> render_img im
      | AnchorNode a \<Rightarrow> render_anchor L cat lang rules a
      | DivNode d \<Rightarrow> open_tag ''div'' [id_attribute (dv_id d)] @ close_tag ''div''
      | ScriptNode s \<Rightarrow> []
      | UnknownNode \<Rightarrow> []) @
     (if nd_messages nd \<noteq> [] \<and> \<not> is_input_node nd then render_messages L cat lang (nd_messages nd) else [])"

section \<open>Forms\<close>

definition is_hidden_input :: "node \<Rightarrow> bool" where
  "is_hidden_input nd \<longleftrightarrow> (case nd_kind nd of InputNode i \<Rightarrow> in_kind i = ''hidden'' | _ \<Rightarrow> False)"

definition is_hidden_default :: "node \<Rightarrow> bool" where
  "is_hidden_default nd \<longleftrightarrow> nd_group nd = ''default'' \<and> is_hidden_input nd"

definition is_settled_field :: "node \<Rightarrow> bool" where
  "is_settled_field nd \<longleftrightarrow> (case nd_kind nd of
     InputNode i \<Rightarrow>
       (let filled = (case in_value i of Some (JStr s) \<Rightarrow> s \<noteq> [] | Some JNull \<Rightarrow> False | None \<Rightarrow> False | Some j \<Rightarrow> True) in
        nd_group nd = ''default'' \<and> in_kind i \<notin> {''hidden'', ''submit'', ''button''} \<and> filled \<and> nd_messages nd = [])
   | _ \<Rightarrow> False)"

definition is_script :: "node \<Rightarrow> bool" where
  "is_script nd \<longleftrightarrow> (case nd_kind nd of ScriptNode s \<Rightarrow> True | _ \<Rightarrow> False)"

definition chosen_node :: "string list option \<Rightarrow> bool \<Rightarrow> node \<Rightarrow> bool" where
  "chosen_node groups missing_only nd \<longleftrightarrow>
     (case groups of None \<Rightarrow> True | Some gs \<Rightarrow> nd_group nd \<in> set gs \<or> is_hidden_default nd) \<and>
     \<not> (missing_only \<and> is_settled_field nd)"

definition shows_something :: "node \<Rightarrow> bool" where
  "shows_something nd \<longleftrightarrow> \<not> is_script nd \<and> nd_kind nd \<noteq> UnknownNode \<and> \<not> is_hidden_input nd"

definition node_script :: "login_libs \<Rightarrow> render_rules \<Rightarrow> string \<Rightarrow> node \<Rightarrow> string" where
  "node_script M rules nonce nd = (case nd_kind nd of ScriptNode s \<Rightarrow> render_script M rules nonce s | _ \<Rightarrow> [])"

definition form ::
    "libs \<Rightarrow> login_libs \<Rightarrow> catalog \<Rightarrow> string \<Rightarrow> render_rules \<Rightarrow> string \<Rightarrow> string list option \<Rightarrow> bool \<Rightarrow> flow
      \<Rightarrow> string + string" where
  "form L M cat lang rules nonce groups missing_only fl =
     (let nodes = filter (chosen_node groups missing_only) (ui_nodes (fl_ui fl));
          scripts = concat (map (node_script M rules nonce) nodes) in
      if list_ex shows_something nodes
      then (case local_url M rules (ui_action (fl_ui fl)) of
          None \<Rightarrow> Err (''the flow's form action is not on this host or Kratos'' @ [CHR 0x27])
        | Some action \<Rightarrow>
            (let method = (if eq_ignore_ascii_case (ui_method (fl_ui fl)) ''get'' then ''get'' else ''post'')
             in Ok (open_tag ''form'' [attr ''class'' ''flow-form'', attr ''method'' method, attr ''action'' (escape action)] @
               concat (map (render_node L cat lang rules) (filter (\<lambda>nd. \<not> is_script nd) nodes)) @
               close_tag ''form'' @ scripts)))
      else Ok scripts)"

text \<open>The functions the page templates call.\<close>

definition continuing :: "flow \<Rightarrow> bool" where
  "continuing fl = list_ex (\<lambda>nd. nd_group nd = ''oidc'' \<and>
     is_some_and (\<lambda>l. id_key LABEL_IDS (ut_id l) = ''InfoSelfServiceRegistrationContinue'') (mt_label (nd_meta nd)))
     (ui_nodes (fl_ui fl))"

definition ends_with :: "string \<Rightarrow> string \<Rightarrow> bool" where
  "ends_with s t \<longleftrightarrow> starts_with (rev s) (rev t)"

definition recovering :: "libs \<Rightarrow> flow \<Rightarrow> bool" where
  "recovering L fl = is_some_and (\<lambda>u. ends_with (url_path u) ''/self-service/recovery'')
     (Option.bind (fl_request_url fl) (parse_url L))"

definition flow_messages :: "libs \<Rightarrow> catalog \<Rightarrow> string \<Rightarrow> flow \<Rightarrow> string" where
  "flow_messages L cat lang fl = render_messages L cat lang (ui_messages (fl_ui fl))"

section \<open>What a browser finds in the markup\<close>

definition SAFE_TAGS :: "string list" where
  "SAFE_TAGS = [''form'', ''input'', ''button'', ''div'', ''label'', ''p'', ''span'', ''a'', ''img'', ''ul'', ''li'', ''script'']"

text \<open>Attributes that only carry text, whatever their value.\<close>

definition INERT_ATTRS :: "string list" where
  "INERT_ATTRS = [''class'', ''id'', ''type'', ''name'', ''value'', ''for'', ''method'', ''alt'', ''width'', ''height'',
     ''autocomplete'', ''maxlength'', ''pattern'', ''required'', ''disabled'', ''async'', ''crossorigin'', ''integrity'',
     ''referrerpolicy'']"

definition SAFE_ATTRS :: "string list" where
  "SAFE_ATTRS = INERT_ATTRS @ [''action'', ''href'', ''src'', ''nonce'', ''data-wa-trigger'', ''data-wa-onload'']"

text \<open>
  An attribute that makes a browser load or call something points only where login means it to: forms
  post to and scripts come from paths of this host, which a URL Kratos sent was resolved to.
\<close>

definition on_this_host :: "login_libs \<Rightarrow> render_rules \<Rightarrow> string \<Rightarrow> bool" where
  "on_this_host M rules v \<longleftrightarrow> starts_with v ''/'' \<and> (\<exists>raw. local_url M rules raw = Some v)"

definition safe_attr ::
    "login_libs \<Rightarrow> render_rules \<Rightarrow> string \<Rightarrow> string \<Rightarrow> string \<times> string option \<Rightarrow> bool" where
  "safe_attr M rules nonce tag a \<longleftrightarrow> (case a of (name, v) \<Rightarrow>
     name \<in> set SAFE_ATTRS \<and>
     (name = ''action'' \<longrightarrow> tag = ''form'' \<and> (\<exists>u. v = Some u \<and> on_this_host M rules u)) \<and>
     (name = ''href'' \<longrightarrow> tag = ''a'' \<and> (\<exists>u. v = Some u \<and> is_web_url u rules)) \<and>
     (name = ''src'' \<longrightarrow>
        (tag = ''script'' \<and> (\<exists>u. v = Some u \<and> on_this_host M rules u)) \<or>
        (tag = ''img'' \<and> (\<exists>u. v = Some u \<and> (is_local_path u \<or> starts_with (to_ascii_lowercase u) ''data:image/'')))) \<and>
     (name = ''nonce'' \<longrightarrow> tag = ''script'' \<and> v = Some nonce) \<and>
     (name \<in> {''data-wa-trigger'', ''data-wa-onload''} \<longrightarrow> (\<exists>t \<in> set TRIGGERS. v = Some t)))"

fun safe_token :: "login_libs \<Rightarrow> render_rules \<Rightarrow> string \<Rightarrow> token \<Rightarrow> bool" where
  "safe_token M rules nonce (Open tag as) \<longleftrightarrow> tag \<in> set SAFE_TAGS \<and> list_all (safe_attr M rules nonce tag) as \<and>
     (tag = ''script'' \<longrightarrow> (''nonce'', Some nonce) \<in> set as \<and> (\<exists>src. (''src'', Some src) \<in> set as))"
| "safe_token M rules nonce _ \<longleftrightarrow> True"

text \<open>\<open>attrs_ok P s\<close>: \<open>s\<close> is printed attributes that satisfy \<open>P\<close>.\<close>

definition attrs_ok :: "(string \<times> string option \<Rightarrow> bool) \<Rightarrow> string \<Rightarrow> bool" where
  "attrs_ok P s \<longleftrightarrow> (\<exists>as. s = concat (map print_attr as) \<and> list_all (\<lambda>a. is_name (fst a)) as \<and> list_all P as)"

lemma attrs_ok_Nil [simp]: "attrs_ok P []"
  by (auto simp: attrs_ok_def intro!: exI [of _ "[]"])

lemma attrs_ok_append: "attrs_ok P a \<Longrightarrow> attrs_ok P b \<Longrightarrow> attrs_ok P (a @ b)"
  unfolding attrs_ok_def by (elim exE conjE, rule_tac x = "as @ asa" in exI) simp

lemma attrs_ok_concat: "list_all (attrs_ok P) ss \<Longrightarrow> attrs_ok P (concat ss)"
  by (induction ss) (auto intro: attrs_ok_append)

lemma attrs_ok_attr: "is_name name \<Longrightarrow> P (name, Some v) \<Longrightarrow> attrs_ok P (attr name (escape v))"
  by (auto simp: attrs_ok_def attr_def print_attr_def intro!: exI [of _ "[(name, Some v)]"])

lemma attrs_ok_flag: "is_name name \<Longrightarrow> P (name, None) \<Longrightarrow> attrs_ok P (flag name b)"
proof (cases b)
  case True
  assume "is_name name" "P (name, None)"
  then show ?thesis unfolding attrs_ok_def by (intro exI [of _ "[(name, None)]"]) (simp add: True flag_def print_attr_def)
qed (simp add: flag_def)

lemma attrs_ok_opt: "is_name name \<Longrightarrow> (\<And>t. P (name, Some t)) \<Longrightarrow> attrs_ok P (opt_attr name v)"
  by (cases v) (simp_all add: opt_attr_def attrs_ok_attr)

lemma safe_attr_names: "is_name name" if "name \<in> set SAFE_ATTRS"
proof -
  have "list_all is_name SAFE_ATTRS" by code_simp
  with that show ?thesis by (simp only: list_all_iff)
qed

lemma safe_tag_names: "is_name tag" if "tag \<in> set SAFE_TAGS"
proof -
  have "list_all is_name SAFE_TAGS" by code_simp
  with that show ?thesis by (simp only: list_all_iff)
qed

lemma inert_not_special:
  "list_all (\<lambda>n. n \<notin> {''action'', ''href'', ''src'', ''nonce'', ''data-wa-trigger'', ''data-wa-onload''}) INERT_ATTRS"
  by code_simp

lemma inert_safe:
  assumes "name \<in> set INERT_ATTRS"
  shows "safe_attr M rules nonce tag (name, v)"
proof -
  have "name \<notin> {''action'', ''href'', ''src'', ''nonce'', ''data-wa-trigger'', ''data-wa-onload''}"
    using inert_not_special assms unfolding list_all_iff by (rule bspec)
  then have "name \<noteq> ''action''" "name \<noteq> ''href''" "name \<noteq> ''src''" "name \<noteq> ''nonce''" "name \<noteq> ''data-wa-trigger''"
    "name \<noteq> ''data-wa-onload''" by simp_all
  moreover have "name \<in> set SAFE_ATTRS" using assms by (simp only: SAFE_ATTRS_def set_append Un_iff simp_thms)
  ultimately show ?thesis by (simp only: safe_attr_def prod.case simp_thms insert_iff empty_iff)
qed

lemma inert_name: "name \<in> set INERT_ATTRS \<Longrightarrow> is_name name"
  by (rule safe_attr_names) (simp only: SAFE_ATTRS_def set_append Un_iff simp_thms)

lemma attrs_inert:
  assumes "name \<in> set INERT_ATTRS"
  shows "attrs_ok (safe_attr M rules nonce tag) (attr name (escape v))"
    "attrs_ok (safe_attr M rules nonce tag) (opt_attr name w)" "attrs_ok (safe_attr M rules nonce tag) (flag name b)"
  by (rule attrs_ok_attr attrs_ok_opt attrs_ok_flag, rule inert_name [OF assms], rule inert_safe [OF assms])+

text \<open>A value made of escaped texts and of words that need no escaping.\<close>

definition escaped :: "string \<Rightarrow> bool" where
  "escaped v \<longleftrightarrow> (\<exists>w. v = escape w)"

lemma escaped_escape: "escaped (escape w)"
  by (auto simp: escaped_def)

lemma escaped_append: "escaped a \<Longrightarrow> escaped b \<Longrightarrow> escaped (a @ b)"
  unfolding escaped_def by (metis escape_simps(3))

lemma escaped_plain: "list_all (\<lambda>c. c \<notin> {CHR ''&'', CHR ''<'', CHR ''>'', QUOTE, CHR 0x27}) v \<Longrightarrow> escaped v"
  unfolding escaped_def using escape_plain by metis

lemma attrs_escaped: "name \<in> set INERT_ATTRS \<Longrightarrow> escaped v \<Longrightarrow> attrs_ok (safe_attr M rules nonce tag) (attr name v)"
  unfolding escaped_def using attrs_inert(1) by blast

lemma made_open_tag:
  assumes "tag \<in> set SAFE_TAGS" "tag \<noteq> ''script''" "list_all (attrs_ok (safe_attr M rules nonce tag)) attrs"
  shows "made (safe_token M rules nonce) (open_tag tag attrs)"
proof -
  from attrs_ok_concat [OF assms(3)] obtain as where as: "concat attrs = concat (map print_attr as)"
    "list_all (\<lambda>a. is_name (fst a)) as" "list_all (safe_attr M rules nonce tag) as" by (auto simp: attrs_ok_def)
  have "made (safe_token M rules nonce) (print_token (Open tag as))"
    by (rule made_token) (use as(2,3) assms(1,2) safe_tag_names in auto)
  then show ?thesis by (simp add: open_tag_def as(1))
qed

lemma made_close_tag: "tag \<in> set SAFE_TAGS \<Longrightarrow> made (safe_token M rules nonce) (close_tag tag)"
  using made_token [of "Close tag" "safe_token M rules nonce"] safe_tag_names by (simp add: close_tag_def)

lemma made_text: "made (safe_token M rules nonce) (escape s)"
  by (rule made_escape) simp

lemma escaped_nat_str: "escaped (nat_str n)"
proof (induction n rule: nat_str.induct)
  case (1 n)
  have "of_char (digit n) = (48 + n mod 10 :: nat)" by (simp add: digit_def)
  then have "digit n \<notin> {CHR ''&'', CHR ''<'', CHR ''>'', QUOTE, CHR 0x27}" by auto
  then have "escaped [digit n]" by (intro escaped_plain) simp
  then show ?case using 1 by (subst nat_str.simps) (auto intro: escaped_append)
qed


section \<open>Every renderer is safe\<close>

lemma list_all_intros: "list_all P []" "P x \<Longrightarrow> list_all P xs \<Longrightarrow> list_all P (x # xs)"
  by simp_all

lemmas made_intros = made_append made_open_tag made_close_tag made_text list_all_intros attrs_inert(2,3) attrs_escaped
  escaped_append escaped_escape escaped_nat_str

lemma safe_tags [simp]:
  "''form'' \<in> set SAFE_TAGS" "''input'' \<in> set SAFE_TAGS" "''button'' \<in> set SAFE_TAGS" "''div'' \<in> set SAFE_TAGS"
  "''label'' \<in> set SAFE_TAGS" "''p'' \<in> set SAFE_TAGS" "''span'' \<in> set SAFE_TAGS" "''a'' \<in> set SAFE_TAGS"
  "''img'' \<in> set SAFE_TAGS" "''ul'' \<in> set SAFE_TAGS" "''li'' \<in> set SAFE_TAGS" "''script'' \<in> set SAFE_TAGS"
  by (simp_all add: SAFE_TAGS_def)

lemma inert_attrs [simp]:
  "''class'' \<in> set INERT_ATTRS" "''id'' \<in> set INERT_ATTRS" "''type'' \<in> set INERT_ATTRS" "''name'' \<in> set INERT_ATTRS"
  "''value'' \<in> set INERT_ATTRS" "''for'' \<in> set INERT_ATTRS" "''method'' \<in> set INERT_ATTRS" "''alt'' \<in> set INERT_ATTRS"
  "''width'' \<in> set INERT_ATTRS" "''height'' \<in> set INERT_ATTRS" "''autocomplete'' \<in> set INERT_ATTRS"
  "''maxlength'' \<in> set INERT_ATTRS" "''pattern'' \<in> set INERT_ATTRS" "''required'' \<in> set INERT_ATTRS"
  "''disabled'' \<in> set INERT_ATTRS" "''async'' \<in> set INERT_ATTRS" "''crossorigin'' \<in> set INERT_ATTRS"
  "''integrity'' \<in> set INERT_ATTRS" "''referrerpolicy'' \<in> set INERT_ATTRS"
  by (simp_all add: INERT_ATTRS_def)

lemma attrs_if_Nil:
  "(b \<Longrightarrow> attrs_ok P s) \<Longrightarrow> attrs_ok P (if b then s else [])" "(\<not> b \<Longrightarrow> attrs_ok P s) \<Longrightarrow> attrs_ok P (if b then [] else s)"
  "(\<And>t. v = Some t \<Longrightarrow> attrs_ok P (f t)) \<Longrightarrow> attrs_ok P (case v of Some t \<Rightarrow> f t | None \<Rightarrow> [])"
  by (auto split: option.splits)

lemma id_attribute_ok: "attrs_ok (safe_attr M rules nonce tag) (id_attribute i)"
  unfolding id_attribute_def by (intro attrs_if_Nil made_intros) simp

lemma made_messages: "made (safe_token M rules nonce) (render_messages L cat lang ms)"
proof -
  have "escaped (message_kind m)" for m
    unfolding message_kind_def by (auto intro!: escaped_plain)
  then show ?thesis unfolding render_messages_def
    by (intro made_if made_Nil made_intros made_concat; simp) (intro escaped_plain; simp)+
qed

lemma trigger_safe:
  assumes "t \<in> set TRIGGERS"
  shows "attrs_ok (safe_attr M rules nonce tag) (attr ''data-wa-trigger'' t)"
    "attrs_ok (safe_attr M rules nonce tag) (attr ''data-wa-onload'' t)"
proof -
  have "list_all (list_all (\<lambda>c. c \<notin> {CHR ''&'', CHR ''<'', CHR ''>'', QUOTE, CHR 0x27})) TRIGGERS" by code_simp
  then have e: "escape t = t" using assms by (intro escape_plain) (auto simp: list_all_iff)
  have s: "safe_attr M rules nonce tag (n, Some t)" if "n = ''data-wa-trigger'' \<or> n = ''data-wa-onload''" for n
    using that assms by (auto simp: safe_attr_def SAFE_ATTRS_def)
  show "attrs_ok (safe_attr M rules nonce tag) (attr ''data-wa-trigger'' t)"
    "attrs_ok (safe_attr M rules nonce tag) (attr ''data-wa-onload'' t)"
    using attrs_ok_attr [of _ _ t, unfolded e] s safe_attr_names by (simp_all add: SAFE_ATTRS_def)
qed

lemma trigger_attributes_ok: "attrs_ok (safe_attr M rules nonce tag) (trigger_attributes i)"
  unfolding trigger_attributes_def known_trigger_def opt_filter_def
  by (intro attrs_ok_append attrs_if_Nil trigger_safe) (auto split: option.splits if_splits)

lemma img_src_safe:
  assumes "is_local_path u \<or> starts_with (to_ascii_lowercase u) ''data:image/''"
  shows "attrs_ok (safe_attr M rules nonce ''img'') (attr ''src'' (escape u))"
  by (rule attrs_ok_attr, rule safe_attr_names) (use assms in \<open>simp_all add: safe_attr_def SAFE_ATTRS_def\<close>)

lemma made_provider_logo: "made (safe_token M rules nonce) (provider_logo i rules)"
proof (cases "map_of (rule_provider_logos rules) i")
  case (Some file_name)
  have "escape ''/providers/'' = ''/providers/''" by (rule escape_plain) simp
  then have e: "''/providers/'' @ escape file_name = escape (''/providers/'' @ file_name)" by (simp only: escape_simps(3))
  have "is_local_path (''/providers/'' @ file_name)" by (simp add: is_local_path_def starts_with_def)
  then have "attrs_ok (safe_attr M rules nonce ''img'') (attr ''src'' (''/providers/'' @ escape file_name))"
    unfolding e by (intro img_src_safe disjI1)
  then show ?thesis unfolding provider_logo_def Some option.case
    by (intro made_open_tag list_all_intros)
      (assumption | simp | rule attrs_escaped, simp, rule escaped_plain, simp)+
qed (simp add: provider_logo_def)

lemma made_render_input: "made (safe_token M rules nonce) (render_input L cat lang rules nd i)"
proof -
  have "list_all (list_all (\<lambda>c. c \<notin> {CHR ''&'', CHR ''<'', CHR ''>'', QUOTE, CHR 0x27})) INPUT_KINDS" by code_simp
  then have k: "escaped (in_kind i)" if "in_kind i \<in> set INPUT_KINDS"
    using that by (intro escaped_plain) (auto simp: list_all_iff)
  have w: "escaped ''hidden''" "escaped ''btn btn-''" "escaped ''field''" "escaped ''f-''" "escaped ''-''" "escaped ''text''"
    "in_kind i = ''submit'' \<or> in_kind i = ''button'' \<Longrightarrow> escaped (in_kind i)"
    by (auto intro: escaped_plain)
  have t: "escaped (if in_kind i \<in> set INPUT_KINDS then in_kind i else ''text'')" using k w by auto
  have logo: "made (safe_token M rules nonce) (case v of Some p \<Rightarrow> provider_logo p rules | None \<Rightarrow> [])" for v
    by (auto split: option.splits intro: made_provider_logo)
  show ?thesis unfolding render_input_def Let_def
    by (intro made_if made_intros attrs_if_Nil made_messages trigger_attributes_ok t w logo; simp?)
qed

lemma made_render_img: "made (safe_token M rules nonce) (render_img im)"
proof (cases "is_local_path (im_src im) \<or> starts_with (to_ascii_lowercase (im_src im)) ''data:image/''")
  case True
  have "escaped []" by (simp add: escaped_plain)
  with True show ?thesis unfolding render_img_def Let_def
    by (intro made_if made_Nil made_intros attrs_if_Nil id_attribute_ok img_src_safe; simp?)
qed (simp add: render_img_def)

lemma href_safe:
  "is_web_url u rules \<Longrightarrow> attrs_ok (safe_attr M rules nonce ''a'') (attr ''href'' (escape u))"
  by (rule attrs_ok_attr, rule safe_attr_names) (simp_all add: safe_attr_def SAFE_ATTRS_def)

lemma made_render_anchor: "made (safe_token M rules nonce) (render_anchor L cat lang rules a)"
  unfolding render_anchor_def Let_def by (intro made_if made_intros id_attribute_ok href_safe; simp?)

text \<open>The crate's URLs on this host and on Kratos have a path that begins with a slash.\<close>

definition paths_rooted :: "login_libs \<Rightarrow> render_rules \<Rightarrow> bool" where
  "paths_rooted M rules \<longleftrightarrow> (\<forall>raw u. join_url M (rule_own rules) raw = Some u \<longrightarrow>
     url_origin u = url_origin (rule_own rules) \<or> url_origin u = rule_kratos_origin rules \<longrightarrow> starts_with (url_path u) ''/'')"

lemma local_url_on_this_host:
  assumes "paths_rooted M rules" "local_url M rules raw = Some v"
  shows "on_this_host M rules v"
proof -
  from assms(2) obtain u where u: "join_url M (rule_own rules) raw = Some u"
    "url_origin u = url_origin (rule_own rules) \<or> url_origin u = rule_kratos_origin rules"
    "v = (case url_query u of Some query \<Rightarrow> url_path u @ ''?'' @ query | None \<Rightarrow> url_path u)"
    by (auto simp: local_url_def split: option.splits if_splits)
  with assms(1) have "starts_with (url_path u) ''/''" by (auto simp: paths_rooted_def)
  then have "starts_with v ''/''" by (auto simp: u(3) starts_with_iff split: option.splits)
  with assms(2) show ?thesis by (auto simp: on_this_host_def)
qed

text \<open>
  The path is not looked at: one with two leading slashes stays as it is, and a browser reads that as
  an address of another host.
\<close>

lemma local_url_double_slash:
  assumes "join_url M (rule_own rules) raw = Some u" "url_origin u = url_origin (rule_own rules)"
    and "url_path u = ''//'' @ host" "url_query u = None"
  shows "local_url M rules raw = Some (''//'' @ host)"
  using assms by (simp add: local_url_def)

text \<open>A script has a source on this host and the page's nonce.\<close>

lemma made_script:
  assumes "attrs_ok (safe_attr M rules nonce ''script'') a" "attrs_ok (safe_attr M rules nonce ''script'') b"
    "on_this_host M rules src" "escape nonce = nonce"
  shows "made (safe_token M rules nonce)
    (open_tag ''script'' [attr ''src'' (escape src), a, attr ''nonce'' nonce, b] @ close_tag ''script'')"
proof -
  obtain as bs where ab: "a = concat (map print_attr as)" "list_all (\<lambda>x. is_name (fst x)) as"
    "list_all (safe_attr M rules nonce ''script'') as" "b = concat (map print_attr bs)"
    "list_all (\<lambda>x. is_name (fst x)) bs" "list_all (safe_attr M rules nonce ''script'') bs"
    using assms(1,2) by (auto simp: attrs_ok_def)
  let ?all = "(''src'', Some src) # as @ (''nonce'', Some nonce) # bs"
  have n: "is_name ''src''" "is_name ''nonce''" by code_simp+
  have s: "safe_attr M rules nonce ''script'' (''src'', Some src)" "safe_attr M rules nonce ''script'' (''nonce'', Some nonce)"
    using assms(3) by (simp_all add: safe_attr_def SAFE_ATTRS_def)
  have "made (safe_token M rules nonce) (print_token (Open ''script'' ?all) @ print_token (Close ''script''))"
    by (rule made_empty_script) (use ab n s in auto)
  moreover have "print_token (Open ''script'' ?all) =
      open_tag ''script'' [attr ''src'' (escape src), a, attr ''nonce'' nonce, b]"
    by (simp add: open_tag_def ab(1,4) print_attr_def attr_def assms(4))
  moreover have "print_token (Close ''script'') = close_tag ''script''" by (simp add: close_tag_def)
  ultimately show ?thesis by (simp only:)
qed

lemma made_render_script:
  assumes "paths_rooted M rules" "escape nonce = nonce"
  shows "made (safe_token M rules nonce) (render_script M rules nonce s)"
proof (cases "local_url M rules (sc_src s)")
  case (Some src)
  let ?a = "flag ''async'' (sc_is_async s) @ opt_attr ''crossorigin'' (sc_crossorigin s) @
    opt_attr ''integrity'' (sc_integrity s) @ opt_attr ''referrerpolicy'' (sc_referrerpolicy s)"
  have "attrs_ok (safe_attr M rules nonce ''script'') ?a" by (intro attrs_ok_append made_intros; simp)
  note made_script [OF this id_attribute_ok local_url_on_this_host [OF assms(1) Some] assms(2)]
  moreover have "render_script M rules nonce s =
      open_tag ''script'' [attr ''src'' (escape src), ?a, attr ''nonce'' nonce, id_attribute (sc_id s)] @ close_tag ''script''"
    by (simp add: render_script_def Some open_tag_def)
  ultimately show ?thesis by (simp only:)
qed (simp add: render_script_def)

lemma made_render_node: "made (safe_token M rules nonce) (render_node L cat lang rules nd)"
proof -
  have w: "escaped ''node-text''" by (rule escaped_plain) simp
  have t: "made (safe_token M rules nonce) (open_tag ''p'' [attr ''class'' ''node-text'', id_attribute i] @ escape t @ close_tag ''p'')" for i t
    by (intro made_intros id_attribute_ok w; simp?)
  have d: "made (safe_token M rules nonce) (open_tag ''div'' [id_attribute i] @ close_tag ''div'')" for i
    by (intro made_intros id_attribute_ok; simp?)
  show ?thesis unfolding render_node_def
    by (rule made_append)
      (auto split: node_kind.split intro: t d made_render_input made_render_img made_render_anchor made_messages)
qed

lemma made_form:
  assumes "paths_rooted M rules" "escape nonce = nonce" "form L M cat lang rules nonce groups missing_only fl = Ok html"
  shows "made (safe_token M rules nonce) html"
proof -
  define nodes where "nodes = filter (chosen_node groups missing_only) (ui_nodes (fl_ui fl))"
  define scripts where "scripts = concat (map (node_script M rules nonce) nodes)"
  have s: "made (safe_token M rules nonce) scripts" unfolding scripts_def node_script_def
    by (rule made_concat) (auto split: node_kind.split intro: made_render_script assms(1,2))
  have b: "made (safe_token M rules nonce) (concat (map (render_node L cat lang rules) (filter (\<lambda>nd. \<not> is_script nd) nodes)))"
    by (rule made_concat) (rule made_render_node)
  note f = assms(3) [unfolded form_def Let_def, folded nodes_def, folded scripts_def]
  show ?thesis
  proof (cases "list_ex shows_something nodes")
    case True
    with f obtain act m where act: "local_url M rules (ui_action (fl_ui fl)) = Some act" and m: "m = ''get'' \<or> m = ''post''"
      and html: "html = open_tag ''form'' [attr ''class'' ''flow-form'', attr ''method'' m, attr ''action'' (escape act)] @
        concat (map (render_node L cat lang rules) (filter (\<lambda>nd. \<not> is_script nd) nodes)) @ close_tag ''form'' @ scripts"
      by (auto split: option.splits if_splits)
    have a: "attrs_ok (safe_attr M rules nonce ''form'') (attr ''action'' (escape act))"
      by (rule attrs_ok_attr, rule safe_attr_names)
        (use local_url_on_this_host [OF assms(1) act] in \<open>simp_all add: safe_attr_def SAFE_ATTRS_def\<close>)
    have w: "escaped ''flow-form''" "escaped m" using m by (auto intro: escaped_plain)
    have "attrs_ok (safe_attr M rules nonce ''form'') (attr ''class'' ''flow-form'')"
      "attrs_ok (safe_attr M rules nonce ''form'') (attr ''method'' m)"
      by (intro attrs_escaped w inert_attrs)+
    with a have "made (safe_token M rules nonce) (open_tag ''form'' [attr ''class'' ''flow-form'', attr ''method'' m, attr ''action'' (escape act)])"
      by (intro made_open_tag list_all_intros) simp_all
    then show ?thesis unfolding html by (intro made_append made_close_tag b s safe_tags)
  next
    case False
    with f s show ?thesis by simp
  qed
qed

lemma alphanumeric_plain: "list_all is_ascii_alphanumeric s \<Longrightarrow> escape s = s"
  by (rule escape_plain) (auto simp: list_all_iff is_ascii_alphanumeric_def byte_def)


definition rooted_libs :: login_libs where
  "rooted_libs = demo_login_libs\<lparr>join_url := (\<lambda>base s. if starts_with s ''/'' then Some (base\<lparr>url_path := s\<rparr>) else None)\<rparr>"

definition demo_rules :: render_rules where
  "demo_rules = \<lparr>rule_own = demo_url ''/'', rule_kratos_origin = ''http://kratos'', rule_provider_logos = []\<rparr>"

definition hostile_flow :: flow where
  "hostile_flow = \<lparr>fl_ui = \<lparr>ui_action = ''/self-service/login'', ui_method = ''POST'',
     ui_nodes = [
       \<lparr>nd_group = ''default'', nd_kind = InputNode \<lparr>in_name = [QUOTE] @ ''><script>'', in_kind = ''text'',
          in_value = Some (JStr ([QUOTE] @ '' onfocus=x'')), in_required = True, in_disabled = False, in_autocomplete = None,
          in_maxlength = None, in_pattern = None, in_onclick_trigger = Some ''eval'', in_onload_trigger = None\<rparr>,
          nd_messages = [], nd_meta = \<lparr>mt_label = None\<rparr>\<rparr>,
       \<lparr>nd_group = ''webauthn'', nd_kind = ScriptNode \<lparr>sc_src = ''/webauthn.js'', sc_is_async = True, sc_crossorigin = None,
          sc_integrity = None, sc_referrerpolicy = None, sc_id = []\<rparr>, nd_messages = [], nd_meta = \<lparr>mt_label = None\<rparr>\<rparr>],
     ui_messages = []\<rparr>, fl_request_url = None\<rparr>"


end
