(* ===== verification/Pages.thy ===== *)
theory Pages
  imports Render
begin

text \<open>
  The flow pages and \<open>/error\<close> (\<open>login/src/pages.rs\<close>), the calls to Kratos they make
  (\<open>login/src/kratos.rs\<close>), and login's routes (\<open>login/src/lib.rs\<close>). Whether a document reads as a flow is
  an argument (\<open>reads\<close>); a query is what the page's extractor delivers, \<open>None\<close> when it was malformed.
\<close>

section \<open>Flows\<close>

datatype flow_kind = LoginFlow | RegistrationFlow | RecoveryFlow | VerificationFlow | SettingsFlow

primrec segment :: "flow_kind \<Rightarrow> string" where
  "segment LoginFlow = ''login''"
| "segment RegistrationFlow = ''registration''"
| "segment RecoveryFlow = ''recovery''"
| "segment VerificationFlow = ''verification''"
| "segment SettingsFlow = ''settings''"

primrec flow_template :: "flow_kind \<Rightarrow> string" where
  "flow_template LoginFlow = ''login.html''"
| "flow_template RegistrationFlow = ''registration.html''"
| "flow_template RecoveryFlow = ''recovery.html''"
| "flow_template VerificationFlow = ''verification.html''"
| "flow_template SettingsFlow = ''settings.html''"

definition needs_challenge :: "flow_kind \<Rightarrow> bool" where
  "needs_challenge kind \<longleftrightarrow> kind \<in> {LoginFlow, RegistrationFlow}"

datatype flow_fetch = Found json | FlowGone | SignInRequired

definition fetch_flow ::
    "libs \<Rightarrow> login_libs \<Rightarrow> (json \<Rightarrow> bool) \<Rightarrow> url \<Rightarrow> (http_request \<Rightarrow> http_sent) \<Rightarrow> flow_kind \<Rightarrow> string \<Rightarrow> string option
      \<Rightarrow> login_upstream_error + flow_fetch" where
  "fetch_flow L M reads base upstream kind i cookie =
     (case kratos_endpoint M base (''self-service/'' @ segment kind @ ''/flows'') [(''id'', i)] of
        Inl e \<Rightarrow> Err e
      | Inr u \<Rightarrow> (case kratos_get M upstream u cookie of
          Inl e \<Rightarrow> Err e
        | Inr (status, body) \<Rightarrow>
            if status = 200 then
              (case json_read L body of
                 None \<Rightarrow> Err (upstream_unreadable M KRATOS u ''not JSON'')
               | Some j \<Rightarrow> if reads j then Ok (Found j) else Err (upstream_unreadable M KRATOS u ''not a flow''))
            else if status \<in> {404, 410, 403} then Ok FlowGone
            else if status = 401 then Ok SignInRequired
            else Err (upstream_status M KRATOS u status)))"

definition fetch_error ::
    "libs \<Rightarrow> login_libs \<Rightarrow> url \<Rightarrow> (http_request \<Rightarrow> http_sent) \<Rightarrow> string \<Rightarrow> login_upstream_error + json option" where
  "fetch_error L M base upstream i =
     (case kratos_endpoint M base ''self-service/errors'' [(''id'', i)] of
        Inl e \<Rightarrow> Err e
      | Inr u \<Rightarrow> (case kratos_get M upstream u None of
          Inl e \<Rightarrow> Err e
        | Inr (status, body) \<Rightarrow>
            if status = 200 then
              (case json_read L body of
                 None \<Rightarrow> Err (upstream_unreadable M KRATOS u ''not JSON'')
               | Some j \<Rightarrow> Ok (Some j))
            else if status \<in> {404, 410} then Ok None
            else Err (upstream_status M KRATOS u status)))"

section \<open>The pages\<close>

definition GENERIC_ERROR :: string where "GENERIC_ERROR = ''Something went wrong. Please try again.''"

definition UNAVAILABLE :: string where
  "UNAVAILABLE = ''Sign-in is unavailable right now. Please try again in a moment.''"

record page_query =
  pq_flow :: "string option"
  pq_login_challenge :: "string option"
  pq_return_to :: "string option"
  pq_redirect_uri :: "string option"
  pq_id :: "string option"

definition no_query :: page_query where
  "no_query = \<lparr>pq_flow = None, pq_login_challenge = None, pq_return_to = None, pq_redirect_uri = None, pq_id = None\<rparr>"

definition page_query_of :: "page_query option \<Rightarrow> page_query" where
  "page_query_of query = (case query of Some q \<Rightarrow> q | None \<Rightarrow> no_query)"

definition back_to_bff :: "libs \<Rightarrow> login_libs \<Rightarrow> string \<Rightarrow> login_state \<Rightarrow> page_query \<Rightarrow> body_response" where
  "back_to_bff L M nonce st query =
     (case opt_or (pq_redirect_uri query) (lg_default_redirect_uri (ls_config st)) of
        None \<Rightarrow> error_page L M nonce 400
          ''There is nothing to sign in to here. Open the sign-in page from the application.''
      | Some target \<Rightarrow>
          redirect_to_page L (lg_bff_url (ls_config st) @ ''/login?redirect_uri='' @ form_text L target))"

definition flow_params :: "flow_kind \<Rightarrow> page_query \<Rightarrow> (string \<times> string) list option" where
  "flow_params kind query =
     map_option (\<lambda>ps. ps @ (case pq_return_to query of Some r \<Rightarrow> [(''return_to'', r)] | None \<Rightarrow> []))
       (if needs_challenge kind
        then map_option (\<lambda>challenge. [(''login_challenge'', challenge)]) (pq_login_challenge query)
        else Some [])"

definition start_flow :: "libs \<Rightarrow> login_libs \<Rightarrow> string \<Rightarrow> login_state \<Rightarrow> flow_kind \<Rightarrow> page_query \<Rightarrow> body_response" where
  "start_flow L M nonce st kind query =
     (case flow_params kind query of
        None \<Rightarrow> back_to_bff L M nonce st query
      | Some ps \<Rightarrow>
          (let params = form_encode L ps in
           redirect_to_page L (''/self-service/'' @ segment kind @ ''/browser'' @
             (if params = [] then [] else ''?'' @ params))))"

definition carried :: "json \<Rightarrow> string \<Rightarrow> string option" where
  "carried fl key = opt_filter (\<lambda>v. v \<noteq> []) (Option.bind (json_get fl key) as_str)"

definition navigation_link :: "libs \<Rightarrow> json \<Rightarrow> string \<Rightarrow> string" where
  "navigation_link L fl path =
     (case (carried fl ''oauth2_login_challenge'', carried fl ''return_to'') of
        (Some challenge, r) \<Rightarrow> path @ ''?'' @ form_encode L [(''login_challenge'', challenge)]
      | (None, Some return_to) \<Rightarrow> path @ ''?'' @ form_encode L [(''return_to'', return_to)]
      | (None, None) \<Rightarrow> path)"

definition insert_navigation :: "libs \<Rightarrow> (string \<times> json) list \<Rightarrow> json \<Rightarrow> (string \<times> json) list" where
  "insert_navigation L ctx fl =
     ctx_insert (ctx_insert (ctx_insert ctx
       ''login_url'' (JStr (navigation_link L fl ''/login'')))
       ''registration_url'' (JStr (navigation_link L fl ''/registration'')))
       ''recovery_url'' (JStr (navigation_link L fl ''/recovery''))"

definition flow_context :: "libs \<Rightarrow> (string \<Rightarrow> f32 option) \<Rightarrow> login_state \<Rightarrow> catalog \<Rightarrow> headers \<Rightarrow> json \<Rightarrow> (string \<times> json) list" where
  "flow_context L parse_f32 st cat h fl =
     ctx_insert (ctx_insert (ctx_insert (insert_navigation L [] fl)
       ''flow'' fl)
       ''lang'' (JStr (negotiate L parse_f32 cat h)))
       ''bff_url'' (JStr (lg_bff_url (ls_config st)))"

definition flow_page ::
    "libs \<Rightarrow> login_libs \<Rightarrow> (string \<Rightarrow> f32 option) \<Rightarrow> (json \<Rightarrow> bool) \<Rightarrow> string \<Rightarrow> login_state \<Rightarrow> catalog
      \<Rightarrow> (http_request \<Rightarrow> http_sent) \<Rightarrow> flow_kind \<Rightarrow> headers \<Rightarrow> page_query option \<Rightarrow> body_response" where
  "flow_page L M parse_f32 reads nonce st cat upstream kind h q =
     (let query = page_query_of q in
      (case pq_flow query of
         None \<Rightarrow> start_flow L M nonce st kind query
       | Some i \<Rightarrow>
           (case fetch_flow L M reads (ls_kratos st) upstream kind i (one_cookie_header L h) of
              Inr (Found fl) \<Rightarrow> page L M nonce 200 (flow_template kind) (flow_context L parse_f32 st cat h fl)
            | Inr FlowGone \<Rightarrow> start_flow L M nonce st kind query
            | Inr SignInRequired \<Rightarrow>
                if kind = SettingsFlow then redirect_to_page L ''/login'' else start_flow L M nonce st kind query
            | Inl e \<Rightarrow> error_page L M nonce 502 UNAVAILABLE)))"

definition error_text :: "nat option \<Rightarrow> string" where
  "error_text code =
     (if code = Some 400 then ''The request was not valid. Please start again.''
      else if code = Some 401 \<or> code = Some 403 then ''You are not allowed to do that.''
      else if code = Some 404 then ''That page was not found.''
      else GENERIC_ERROR)"

fun as_u64 :: "json \<Rightarrow> nat option" where
  "as_u64 (JInt i) = (if 0 \<le> i \<and> i < 2 ^ 64 then Some (nat i) else None)"
| "as_u64 _ = None"

definition kratos_error_code :: "json \<Rightarrow> nat option" where
  "kratos_error_code j = Option.bind (Option.bind (json_get j ''error'') (\<lambda>e. json_get e ''code'')) as_u64"

definition kratos_error_page ::
    "libs \<Rightarrow> login_libs \<Rightarrow> string \<Rightarrow> login_state \<Rightarrow> (http_request \<Rightarrow> http_sent) \<Rightarrow> page_query option \<Rightarrow> body_response" where
  "kratos_error_page L M nonce st upstream q =
     (case pq_id (page_query_of q) of
        None \<Rightarrow> error_page L M nonce 200 GENERIC_ERROR
      | Some i \<Rightarrow> (case fetch_error L M (ls_kratos st) upstream i of
          Inr (Some e) \<Rightarrow> error_page L M nonce 200 (error_text (kratos_error_code e))
        | Inr None \<Rightarrow> error_page L M nonce 200 GENERIC_ERROR
        | Inl e \<Rightarrow> error_page L M nonce 502 UNAVAILABLE))"

section \<open>The routes and the state's upkeep\<close>

datatype login_handler =
    FlowPage flow_kind | ErrorPage | LogoutPage | ConsentPage | ToKratos | Health | UiScript
  | StaticFiles | ProviderLogos

text \<open>The bucket a request is counted in before its handler runs.\<close>

datatype login_bucket = General | Submit | Uncounted

datatype routed = Handled login_bucket login_handler | MethodNotAllowed | NoRoute

text \<open>A route of axum's \<open>get\<close> also answers \<open>HEAD\<close>; \<open>{*rest}\<close> matches at least one character.\<close>

definition is_get :: "string \<Rightarrow> bool" where
  "is_get m \<longleftrightarrow> m \<in> {''GET'', ''HEAD''}"

definition under :: "string \<Rightarrow> string \<Rightarrow> bool" where
  "under prefix path \<longleftrightarrow> starts_with path prefix \<and> length prefix < length path"

definition login_pages :: "(string \<times> login_handler) list" where
  "login_pages = [(''/login'', FlowPage LoginFlow), (''/registration'', FlowPage RegistrationFlow),
     (''/recovery'', FlowPage RecoveryFlow), (''/verification'', FlowPage VerificationFlow),
     (''/settings'', FlowPage SettingsFlow), (''/error'', ErrorPage), (''/logout'', LogoutPage),
     (''/consent'', ConsentPage)]"

definition login_route :: "string \<Rightarrow> string \<Rightarrow> routed" where
  "login_route m path =
     (case map_of login_pages path of
        Some handler \<Rightarrow> if is_get m then Handled General handler else MethodNotAllowed
      | None \<Rightarrow>
          if under ''/self-service/'' path then
            (if is_get m then Handled General ToKratos
             else if m = ''POST'' then Handled Submit ToKratos else MethodNotAllowed)
          else if under ''/.well-known/ory/'' path then
            (if is_get m then Handled General ToKratos else MethodNotAllowed)
          else if path = ''/health'' then (if is_get m then Handled Uncounted Health else MethodNotAllowed)
          else if path = ''/ui.js'' then (if is_get m then Handled Uncounted UiScript else MethodNotAllowed)
          else if path = ''/static'' \<or> starts_with path ''/static/'' then Handled Uncounted StaticFiles
          else if path = ''/providers'' \<or> starts_with path ''/providers/'' then Handled Uncounted ProviderLogos
          else NoRoute)"

definition app_sweep :: "login_state \<Rightarrow> time \<Rightarrow> login_state" where
  "app_sweep st now = st\<lparr>ls_throttle := throttle_sweep (ls_throttle st) now\<rparr>"

section \<open>Where the pages send a browser\<close>

lemma error_page_no_location: "header_get_all (rsp_headers (error_page L M nonce s m)) ''location'' = []"
  by (simp add: error_page_def page_def status_only_def page_headers_def Let_def header_get_all_def split: option.splits)

lemma page_no_location: "header_get_all (rsp_headers (page L M nonce s t ctx)) ''location'' = []"
  by (simp add: page_def status_only_def page_headers_def Let_def header_get_all_def split: option.splits)

lemma redirect_location:
  "loc \<in> set (header_get_all (rsp_headers (redirect_to_page L l)) ''location'') \<Longrightarrow> loc = l"
  by (auto simp: redirect_to_page_def text_response_def header_get_all_def split: if_splits)

lemma start_flow_location:
  assumes "loc \<in> set (header_get_all (rsp_headers (start_flow L M nonce st kind query)) ''location'')"
  shows "(\<exists>ps. flow_params kind query = Some ps \<and>
      loc = ''/self-service/'' @ segment kind @ ''/browser'' @ (if form_encode L ps = [] then [] else ''?'' @ form_encode L ps)) \<or>
    (flow_params kind query = None \<and>
      (\<exists>target. opt_or (pq_redirect_uri query) (lg_default_redirect_uri (ls_config st)) = Some target \<and>
         loc = lg_bff_url (ls_config st) @ ''/login?redirect_uri='' @ form_text L target))"
proof (cases "flow_params kind query")
  case (Some ps)
  with redirect_location assms show ?thesis unfolding start_flow_def Let_def by fastforce
next
  case None
  with assms show ?thesis
    by (cases "opt_or (pq_redirect_uri query) (lg_default_redirect_uri (ls_config st))")
      (auto simp: start_flow_def back_to_bff_def error_page_no_location dest: redirect_location)
qed

lemma flow_params_challenge:
  "flow_params kind query = Some ps \<Longrightarrow> needs_challenge kind \<Longrightarrow> pq_login_challenge query \<noteq> None"
  "flow_params kind query = None \<Longrightarrow> needs_challenge kind \<and> pq_login_challenge query = None"
  by (auto simp: flow_params_def split: if_splits)

text \<open>C34: A flow page redirects only to this host's own Kratos paths, to \<open>/login\<close> (the settings of
  a visitor who is not signed in), or to bff's \<open>/login\<close>; what the visitor's link carried is form-encoded
  inside the query. A login or a registration is started in Kratos only with a challenge of Hydra's;
  without one the visitor begins at bff, and with no destination either gets a page. No page redirects to
  itself.\<close>

theorem pages_redirect_home:
  assumes "loc \<in> set (header_get_all (rsp_headers
      (flow_page L M parse_f32 reads nonce st cat upstream kind h q)) ''location'')"
  shows "(loc = ''/login'' \<and> kind = SettingsFlow \<or>
     (\<exists>ps. flow_params kind (page_query_of q) = Some ps \<and>
        (needs_challenge kind \<longrightarrow> pq_login_challenge (page_query_of q) \<noteq> None) \<and>
        loc = ''/self-service/'' @ segment kind @ ''/browser'' @
          (if form_encode L ps = [] then [] else ''?'' @ form_encode L ps)) \<or>
     (needs_challenge kind \<and> pq_login_challenge (page_query_of q) = None \<and>
        (\<exists>target. opt_or (pq_redirect_uri (page_query_of q)) (lg_default_redirect_uri (ls_config st)) = Some target \<and>
           loc = lg_bff_url (ls_config st) @ ''/login?redirect_uri='' @ form_text L target))) \<and>
     loc \<noteq> ''/'' @ segment kind"
proof -
  let ?query = "page_query_of q"
  let ?start = "start_flow L M nonce st kind ?query"
  let ?started = "(\<exists>ps. flow_params kind ?query = Some ps \<and>
      loc = ''/self-service/'' @ segment kind @ ''/browser'' @ (if form_encode L ps = [] then [] else ''?'' @ form_encode L ps)) \<or>
    (flow_params kind ?query = None \<and>
      (\<exists>target. opt_or (pq_redirect_uri ?query) (lg_default_redirect_uri (ls_config st)) = Some target \<and>
         loc = lg_bff_url (ls_config st) @ ''/login?redirect_uri='' @ form_text L target))"
  have "loc \<in> set (header_get_all (rsp_headers ?start) ''location'') \<or>
      loc \<in> set (header_get_all (rsp_headers (redirect_to_page L ''/login'')) ''location'') \<and> kind = SettingsFlow"
    using assms by (auto simp: flow_page_def Let_def error_page_no_location page_no_location
        split: option.splits sum.splits flow_fetch.splits if_splits)
  then have "?started \<or> loc = ''/login'' \<and> kind = SettingsFlow"
    using start_flow_location redirect_location by metis
  moreover have "loc \<noteq> ''/'' @ segment kind" if "?started"
  proof
    assume l: "loc = ''/'' @ segment kind"
    have "length ''/login?redirect_uri='' > length (''/'' @ segment kind)" by (cases kind) simp_all
    moreover have "length ''/self-service/'' + length (segment kind) > length (''/'' @ segment kind)" by simp
    ultimately show False using that l by (elim disjE exE conjE) (auto dest!: arg_cong [where f = length])
  qed
  ultimately show ?thesis using flow_params_challenge by (elim disjE exE conjE) auto
qed

theorem pages_redirect_home_witness:
  "let r = flow_page demo_libs demo_login_libs (\<lambda>s. None) (\<lambda>j. True) ''n'' demo_login \<lparr>cat_default = ''en'', cat_locales = []\<rparr>
        (\<lambda>rq. Inl ''down'') LoginFlow [] (Some (no_query\<lparr>pq_login_challenge := Some ''c''\<rparr>));
      loc = ''/self-service/login/browser?login_challenge=c''
   in loc \<in> set (header_get_all (rsp_headers r) ''location'') \<and> loc \<noteq> ''/'' @ segment LoginFlow"
proof -
  let ?r = "flow_page demo_libs demo_login_libs (\<lambda>s. None) (\<lambda>j. True) ''n'' demo_login \<lparr>cat_default = ''en'', cat_locales = []\<rparr>
        (\<lambda>rq. Inl ''down'') LoginFlow [] (Some (no_query\<lparr>pq_login_challenge := Some ''c''\<rparr>))"
  let ?loc = "''/self-service/login/browser?login_challenge=c''"
  have "flow_params LoginFlow (no_query\<lparr>pq_login_challenge := Some ''c''\<rparr>) = Some [(''login_challenge'', ''c'')]"
    by (simp add: flow_params_def needs_challenge_def no_query_def)
  moreover have "form_encode demo_libs [(''login_challenge'', ''c'')] = ''login_challenge=c''"
    by (simp add: form_encode_def form_pair_def demo_libs_def join_with_def)
  ultimately have "?r = redirect_to_page demo_libs ?loc"
    by (simp add: flow_page_def page_query_of_def start_flow_def no_query_def)
  moreover have "header_value demo_libs ?loc" by (simp add: demo_libs_def ascii_str_def byte_def)
  ultimately have "?loc \<in> set (header_get_all (rsp_headers ?r) ''location'')"
    by (simp add: redirect_to_page_def header_get_all_def)
  from conjI [OF this conjunct2 [OF pages_redirect_home [OF this]]] show ?thesis unfolding Let_def .
qed

end
