(* ===== verification/LoginConfig.thy ===== *)
theory LoginConfig
  imports LoginState BffConfig
begin

text \<open>
  The settings of login (\<open>login/src/config.rs\<close>): \<open>Config::load\<close> from the point where \<open>figment\<close> has merged
  the defaults and the environment (\<open>extracted\<close> is its result, \<open>is_set\<close> says which keys the deployer
  set), and the parts of \<open>common/src/config.rs\<close> all services read the environment with.
\<close>

section \<open>What the services share\<close>

type_synonym env_table = "(string \<times> string) list"

definition EXPIRY_SWEEP_INTERVAL_SECS :: nat where "EXPIRY_SWEEP_INTERVAL_SECS = 60"

text \<open>A comma-separated variable as a list.\<close>

definition list_items :: "string \<Rightarrow> string list" where
  "list_items raw = filter (\<lambda>item. item \<noteq> []) (map trim (split_on (CHR '','') raw))"

definition env_lists :: "(string \<Rightarrow> string option) \<Rightarrow> env_table \<Rightarrow> (string \<times> string list) list" where
  "env_lists env table = List.map_filter (\<lambda>(var, key). map_option (\<lambda>raw. (key, list_items raw)) (env var)) table"

definition profile_of :: "(string \<Rightarrow> bool) \<Rightarrow> string + profile \<Rightarrow> string + profile" where
  "profile_of is_set extracted = (if \<not> is_set ''profile'' then Ok Prod else extracted)"

section \<open>login's settings\<close>

definition LOGIN_RATE_LIMIT_WINDOW_SECS :: nat where "LOGIN_RATE_LIMIT_WINDOW_SECS = 60"

definition default_login_config :: login_config where
  "default_login_config = \<lparr>lg_port = 8081, lg_bff_url = ''http://localhost:8080'',
     lg_own_origin = ''http://localhost:8081'', lg_default_redirect_uri = None, lg_default_locale = ''en'',
     lg_kratos_public_url = ''http://localhost:4433'', lg_hydra_admin_url = ''http://localhost:4445'',
     lg_bff_client_id = ''bff'', lg_kratos_session_cookie = ''ory_kratos_session'',
     lg_rate_limit_max_attempts = 10, lg_rate_limit_proxy_max_attempts = 600, lg_trusted_proxies = []\<rparr>"

definition LOGIN_ENV :: env_table where
  "LOGIN_ENV = [(''WA_PROFILE'', ''profile''), (''WA_BFF_URL'', ''bff_url''), (''WA_LOGIN_PUBLIC_URL'', ''own_origin''),
     (''WA_DEFAULT_REDIRECT_URI'', ''default_redirect_uri''), (''WA_DEFAULT_LOCALE'', ''default_locale''),
     (''WA_KRATOS_PUBLIC_URL'', ''kratos_public_url''), (''WA_HYDRA_ADMIN_URL'', ''hydra_admin_url''),
     (''WA_BFF_CLIENT_ID'', ''bff_client_id''), (''WA_KRATOS_SESSION_COOKIE'', ''kratos_session_cookie''),
     (''WA_RATE_LIMIT_MAX_ATTEMPTS'', ''rate_limit_max_attempts'')]"

definition LOGIN_ENV_LISTS :: env_table where
  "LOGIN_ENV_LISTS = [(''WA_TRUSTED_PROXIES'', ''trusted_proxies'')]"

datatype login_config_error = Refused config_error | Bad_login_port string

definition refused :: "config_error + unit \<Rightarrow> login_config_error + unit" where
  "refused r = (case r of Inl e \<Rightarrow> Err (Refused e) | Inr u \<Rightarrow> Ok u)"

text \<open>\<open>u16::from_str\<close>.\<close>

fun digits_value :: "nat \<Rightarrow> string \<Rightarrow> nat option" where
  "digits_value n [] = Some n"
| "digits_value n (c # cs) =
     (if 48 \<le> byte c \<and> byte c < 58 then digits_value (10 * n + (byte c - 48)) cs else None)"

definition parse_u16 :: "string \<Rightarrow> 16 word option" where
  "parse_u16 raw =
     (let digits = (case raw of c # cs \<Rightarrow> if c = CHR ''+'' then cs else raw | [] \<Rightarrow> []) in
      if digits = [] then None
      else map_option word_of_nat (opt_filter (\<lambda>n. n < 2 ^ 16) (digits_value 0 digits)))"

definition trim_login_urls :: "login_config \<Rightarrow> login_config" where
  "trim_login_urls c = c\<lparr>lg_own_origin := trim_slashes (lg_own_origin c), lg_bff_url := trim_slashes (lg_bff_url c),
     lg_kratos_public_url := trim_slashes (lg_kratos_public_url c),
     lg_hydra_admin_url := trim_slashes (lg_hydra_admin_url c)\<rparr>"

definition set_login_port :: "string option \<Rightarrow> login_config \<Rightarrow> login_config_error + login_config" where
  "set_login_port var c = (case var of
     None \<Rightarrow> Ok c
   | Some raw \<Rightarrow> (case parse_u16 raw of None \<Rightarrow> Err (Bad_login_port raw) | Some p \<Rightarrow> Ok (c\<lparr>lg_port := p\<rparr>)))"

fun has_whitespace :: "string \<Rightarrow> bool" where
  "has_whitespace [] \<longleftrightarrow> False"
| "has_whitespace (a # s) \<longleftrightarrow> ws1 (byte a) \<or>
     (case s of b # t \<Rightarrow> ws2 (byte a) (byte b) \<or> (case t of c # u \<Rightarrow> ws3 (byte a) (byte b) (byte c) | [] \<Rightarrow> False) | [] \<Rightarrow> False) \<or>
     has_whitespace s"

definition is_session_cookie_name :: "string \<Rightarrow> bool" where
  "is_session_cookie_name cookie \<longleftrightarrow>
     cookie \<noteq> [] \<and> \<not> has_whitespace cookie \<and> list_all (\<lambda>c. c \<noteq> CHR ''='' \<and> c \<noteq> CHR '';'') cookie"

definition check_default_redirect :: "libs \<Rightarrow> profile \<Rightarrow> string option \<Rightarrow> config_error + unit" where
  "check_default_redirect L prof uri = (case uri of
     None \<Rightarrow> Ok ()
   | Some raw \<Rightarrow> (case parse_url L raw of
       None \<Rightarrow> Err (Bad_redirect_uri raw)
     | Some u \<Rightarrow>
         if url_scheme u \<noteq> ''http'' \<and> url_scheme u \<noteq> ''https'' then Err (Bad_redirect_uri raw)
         else require_https_in_prod L prof [(''WA_DEFAULT_REDIRECT_URI'', raw, Base)]))"

definition check_login_settings :: "libs \<Rightarrow> profile \<Rightarrow> login_config \<Rightarrow> config_error + unit" where
  "check_login_settings L prof c =
     and_then (check_default_redirect L prof (lg_default_redirect_uri c))
    (and_then (ensures
       [(is_session_cookie_name (lg_kratos_session_cookie c), Bad_cookie_name),
        (lg_rate_limit_max_attempts c \<noteq> 0, Zero_rate_limit),
        (lg_rate_limit_proxy_max_attempts c \<noteq> 0, Zero_proxy_rate_limit)])
     (if prof = Prod
      then (case List.find too_wide_to_trust (lg_trusted_proxies c) of
              Some net \<Rightarrow> Err (Wide_trusted_proxy net) | None \<Rightarrow> Ok ())
      else Ok ()))"

definition login_limits :: "(string \<Rightarrow> bool) \<Rightarrow> profile \<Rightarrow> login_config \<Rightarrow> login_config" where
  "login_limits is_set prof c =
     (let c1 = (if \<not> is_set ''rate_limit_max_attempts'' \<and> prof = Dev
                then c\<lparr>lg_rate_limit_max_attempts := 100\<rparr> else c)
      in if \<not> is_set ''rate_limit_proxy_max_attempts'' \<and> prof = Dev
         then c1\<lparr>lg_rate_limit_proxy_max_attempts := 6000\<rparr> else c1)"

definition login_load ::
    "libs \<Rightarrow> (string \<Rightarrow> bool) \<Rightarrow> string + login_config \<Rightarrow> string + profile \<Rightarrow> string option \<Rightarrow> login_config_error + login_config" where
  "login_load L is_set extracted extracted_profile port_var =
     (case extracted of
        Inl e \<Rightarrow> Err (Refused (Unreadable_settings e))
      | Inr c0 \<Rightarrow> (case profile_of is_set extracted_profile of
          Inl e \<Rightarrow> Err (Refused (Unreadable_settings e))
        | Inr prof \<Rightarrow>
            and_then (refused (if prof = Prod
              then ensures [(is_set ''kratos_public_url'', Unset_in_prod ''kratos_public_url''),
                            (is_set ''hydra_admin_url'', Unset_in_prod ''hydra_admin_url'')]
              else Ok ()))
           (and_then (refused (require_https_in_prod L prof
              [(''WA_BFF_URL'', lg_bff_url c0, Base), (''WA_LOGIN_PUBLIC_URL'', lg_own_origin c0, Origin)]))
            (case set_login_port port_var (trim_login_urls c0) of
               Inl e \<Rightarrow> Err e
             | Inr c1 \<Rightarrow>
                 (let c2 = c1\<lparr>lg_default_redirect_uri := opt_filter (\<lambda>raw. raw \<noteq> []) (lg_default_redirect_uri c1)\<rparr> in
                  and_then (refused (check_login_settings L prof c2)) (Ok (login_limits is_set prof c2)))))))"

section \<open>What a configuration that loads promises\<close>

lemma refused_ok [simp]: "refused r = Inr u \<longleftrightarrow> r = Inr u"
  by (cases r) (simp_all add: refused_def)

lemma login_limits_fields [simp]:
  "lg_own_origin (login_limits f p c) = lg_own_origin c" "lg_bff_url (login_limits f p c) = lg_bff_url c"
  "lg_default_redirect_uri (login_limits f p c) = lg_default_redirect_uri c"
  "lg_kratos_public_url (login_limits f p c) = lg_kratos_public_url c"
  "lg_hydra_admin_url (login_limits f p c) = lg_hydra_admin_url c"
  "lg_kratos_session_cookie (login_limits f p c) = lg_kratos_session_cookie c"
  "lg_trusted_proxies (login_limits f p c) = lg_trusted_proxies c"
  by (simp_all add: login_limits_def Let_def)

lemma login_limits_nonzero:
  "lg_rate_limit_max_attempts c \<noteq> 0 \<Longrightarrow> lg_rate_limit_max_attempts (login_limits f p c) \<noteq> 0"
  "lg_rate_limit_proxy_max_attempts c \<noteq> 0 \<Longrightarrow> lg_rate_limit_proxy_max_attempts (login_limits f p c) \<noteq> 0"
  by (simp_all add: login_limits_def Let_def)

lemma set_login_port_ok:
  "set_login_port var c = Inr c1 \<Longrightarrow> \<exists>p. c1 = c\<lparr>lg_port := p\<rparr>"
  by (cases c) (auto simp: set_login_port_def split: option.splits)

lemma login_load_ok:
  assumes "login_load L is_set extracted extracted_profile port_var = Inr c"
  obtains c0 prof p where "extracted = Inr c0" "profile_of is_set extracted_profile = Inr prof"
    "prof = Prod \<longrightarrow> is_set ''kratos_public_url'' \<and> is_set ''hydra_admin_url''"
    "require_https_in_prod L prof
       [(''WA_BFF_URL'', lg_bff_url c0, Base), (''WA_LOGIN_PUBLIC_URL'', lg_own_origin c0, Origin)] = Inr ()"
    "check_login_settings L prof (trim_login_urls c0\<lparr>lg_port := p,
       lg_default_redirect_uri := opt_filter (\<lambda>raw. raw \<noteq> []) (lg_default_redirect_uri c0)\<rparr>) = Inr ()"
    "c = login_limits is_set prof (trim_login_urls c0\<lparr>lg_port := p,
       lg_default_redirect_uri := opt_filter (\<lambda>raw. raw \<noteq> []) (lg_default_redirect_uri c0)\<rparr>)"
proof -
  obtain c0 prof c1 where e: "extracted = Inr c0" "profile_of is_set extracted_profile = Inr prof"
    "set_login_port port_var (trim_login_urls c0) = Inr c1"
    using assms by (auto simp: login_load_def split: sum.splits)
  obtain p where p: "c1 = trim_login_urls c0\<lparr>lg_port := p\<rparr>" using set_login_port_ok [OF e(3)] by blast
  have d: "lg_default_redirect_uri c1 = lg_default_redirect_uri c0" by (simp add: p trim_login_urls_def)
  note l = assms [unfolded login_load_def e sum.case Let_def d, unfolded p, simplified]
  from l have "c = login_limits is_set prof (trim_login_urls c0\<lparr>lg_port := p,
      lg_default_redirect_uri := opt_filter (\<lambda>raw. raw \<noteq> []) (lg_default_redirect_uri c0)\<rparr>)" by simp
  with e l that [of c0 prof p] show thesis by (auto split: if_splits)
qed

lemma trim_slashes_end: "trim_slashes s = [] \<or> last (trim_slashes s) \<noteq> CHR ''/''"
proof (cases "trim_slashes s = []")
  case False
  then have ne: "dropWhile (\<lambda>ch. ch = CHR ''/'') (rev s) \<noteq> []" by (simp add: trim_slashes_def trim_end_matches_def)
  then show ?thesis using hd_dropWhile [OF ne] by (simp add: trim_slashes_def trim_end_matches_def last_rev)
qed simp

text \<open>Login only starts with settings its handlers can rely on. Its buckets can be built, Kratos'
  session cookie has a name no other cookie's text can be read as, every address paths are appended to
  ends without a slash, and the address a lost visitor is sent to is an http(s) URL. Under \<open>prod\<close>,
  moreover, the deployer chose both upstreams, the browser's addresses are https with login's own an
  origin, that default destination is https, and no trusted proxy's network is so wide that its clients
  could choose their own rate-limit key.\<close>

theorem login_load_guarantees:
  assumes "login_load L is_set extracted extracted_profile port_var = Ok c"
  shows "is_ok (build_governor (unat (lg_rate_limit_max_attempts c)) LOGIN_RATE_LIMIT_WINDOW_SECS) \<and>
    is_ok (build_governor (unat (lg_rate_limit_proxy_max_attempts c)) LOGIN_RATE_LIMIT_WINDOW_SECS) \<and>
    is_session_cookie_name (lg_kratos_session_cookie c) \<and>
    (\<forall>u \<in> {lg_own_origin c, lg_bff_url c, lg_kratos_public_url c, lg_hydra_admin_url c}. u = [] \<or> last u \<noteq> CHR ''/'') \<and>
    (\<forall>raw \<in> set_option (lg_default_redirect_uri c).
       \<exists>u. parse_url L raw = Some u \<and> url_scheme u \<in> {''http'', ''https''}) \<and>
    (profile_of is_set extracted_profile = Ok Prod \<longrightarrow>
       is_set ''kratos_public_url'' \<and> is_set ''hydra_admin_url'' \<and>
       (\<exists>raw u. lg_bff_url c = trim_slashes raw \<and> parse_url L raw = Some u \<and> url_scheme u = ''https'') \<and>
       (\<exists>raw u. lg_own_origin c = trim_slashes raw \<and> parse_url L raw = Some u \<and> url_scheme u = ''https'' \<and>
          url_path u = ''/'' \<and> url_query u = None \<and> url_fragment u = None) \<and>
       (\<forall>raw \<in> set_option (lg_default_redirect_uri c). \<exists>u. parse_url L raw = Some u \<and> url_scheme u = ''https'') \<and>
       (\<forall>net \<in> set (lg_trusted_proxies c). \<not> too_wide_to_trust net))"
proof -
  from login_load_ok [OF assms] obtain c0 prof p where l: "profile_of is_set extracted_profile = Inr prof"
    "prof = Prod \<longrightarrow> is_set ''kratos_public_url'' \<and> is_set ''hydra_admin_url''"
    "require_https_in_prod L prof
       [(''WA_BFF_URL'', lg_bff_url c0, Base), (''WA_LOGIN_PUBLIC_URL'', lg_own_origin c0, Origin)] = Inr ()"
    "check_login_settings L prof (trim_login_urls c0\<lparr>lg_port := p,
       lg_default_redirect_uri := opt_filter (\<lambda>raw. raw \<noteq> []) (lg_default_redirect_uri c0)\<rparr>) = Inr ()"
    "c = login_limits is_set prof (trim_login_urls c0\<lparr>lg_port := p,
       lg_default_redirect_uri := opt_filter (\<lambda>raw. raw \<noteq> []) (lg_default_redirect_uri c0)\<rparr>)" .
  let ?c2 = "trim_login_urls c0\<lparr>lg_port := p, lg_default_redirect_uri := opt_filter (\<lambda>raw. raw \<noteq> []) (lg_default_redirect_uri c0)\<rparr>"
  note checks = l(4) [unfolded check_login_settings_def, simplified]
  have f: "lg_own_origin c = trim_slashes (lg_own_origin c0)" "lg_bff_url c = trim_slashes (lg_bff_url c0)"
    "lg_kratos_public_url c = trim_slashes (lg_kratos_public_url c0)" "lg_hydra_admin_url c = trim_slashes (lg_hydra_admin_url c0)"
    "lg_default_redirect_uri c = lg_default_redirect_uri ?c2" "lg_kratos_session_cookie c = lg_kratos_session_cookie ?c2"
    "lg_trusted_proxies c = lg_trusted_proxies ?c2"
    by (simp_all add: l(5) trim_login_urls_def)
  have gov: "is_ok (build_governor (unat (lg_rate_limit_max_attempts c)) LOGIN_RATE_LIMIT_WINDOW_SECS)"
    "is_ok (build_governor (unat (lg_rate_limit_proxy_max_attempts c)) LOGIN_RATE_LIMIT_WINDOW_SECS)"
    using checks by (simp_all add: build_governor_def unat_eq_zero l(5) login_limits_nonzero)
  have dflt: "\<forall>raw \<in> set_option (lg_default_redirect_uri c).
      \<exists>u. parse_url L raw = Some u \<and> url_scheme u \<in> {''http'', ''https''} \<and> (prof = Prod \<longrightarrow> url_scheme u = ''https'')"
    using checks unfolding f(5)
    by (auto simp: check_default_redirect_def require_https_in_prod_def split: option.splits if_splits)
  have https: "prof = Prod \<longrightarrow> (\<exists>u. parse_url L (lg_bff_url c0) = Some u \<and> url_scheme u = ''https'') \<and>
      (\<exists>u. parse_url L (lg_own_origin c0) = Some u \<and> url_scheme u = ''https'' \<and> url_path u = ''/'' \<and>
         url_query u = None \<and> url_fragment u = None)"
    using l(3) by (auto simp: require_https_in_prod_def split: option.splits)
  have proxies: "prof = Prod \<longrightarrow> (\<forall>net \<in> set (lg_trusted_proxies c). \<not> too_wide_to_trust net)"
    using checks unfolding f(7) by (auto split: option.splits simp: find_None_iff)
  have cookie: "is_session_cookie_name (lg_kratos_session_cookie c)" using checks unfolding f(6) by simp
  have slashes: "\<forall>u \<in> {lg_own_origin c, lg_bff_url c, lg_kratos_public_url c, lg_hydra_admin_url c}. u = [] \<or> last u \<noteq> CHR ''/''"
    unfolding f(1-4) using trim_slashes_end by blast
  have pr: "profile_of is_set extracted_profile = Ok Prod \<longleftrightarrow> prof = Prod" by (simp add: l(1))
  have prod: "is_set ''kratos_public_url''" "is_set ''hydra_admin_url''"
    "\<exists>raw u. lg_bff_url c = trim_slashes raw \<and> parse_url L raw = Some u \<and> url_scheme u = ''https''"
    "\<exists>raw u. lg_own_origin c = trim_slashes raw \<and> parse_url L raw = Some u \<and> url_scheme u = ''https'' \<and>
       url_path u = ''/'' \<and> url_query u = None \<and> url_fragment u = None"
    "\<forall>raw \<in> set_option (lg_default_redirect_uri c). \<exists>u. parse_url L raw = Some u \<and> url_scheme u = ''https''"
    "\<forall>net \<in> set (lg_trusted_proxies c). \<not> too_wide_to_trust net" if "prof = Prod"
    using that l(2) proxies f(1,2) https dflt by simp_all blast+
  show ?thesis unfolding pr using dflt by (intro conjI impI gov cookie slashes prod; blast?)
qed

lemma default_login_loads: "\<exists>c. login_load demo_libs (\<lambda>k. k \<noteq> ''profile'') (Inr default_login_config) (Inr Dev) (Some ''8090'') = Inr c"
  by (simp add: login_load_def profile_of_def default_login_config_def demo_libs_def require_https_in_prod_def
      set_login_port_def parse_u16_def byte_def trim_login_urls_def trim_slashes_def trim_end_matches_def
      check_login_settings_def check_default_redirect_def is_session_cookie_name_def ws1_def ws2_def ws3_def Let_def)

theorem login_load_guarantees_witness:
  "\<exists>c. login_load demo_libs (\<lambda>k. k \<noteq> ''profile'') (Inr default_login_config) (Inr Dev) (Some ''8090'') = Ok c \<and>
     is_session_cookie_name (lg_kratos_session_cookie c)"
proof -
  obtain c where c: "login_load demo_libs (\<lambda>k. k \<noteq> ''profile'') (Inr default_login_config) (Inr Dev) (Some ''8090'') = Ok c"
    using default_login_loads by blast
  from conjI [OF this conjunct1 [OF conjunct2 [OF conjunct2 [OF login_load_guarantees [OF this]]]]] show ?thesis by (rule exI)
qed

end
