(* ===== verification/BffRouter.thy ===== *)
theory BffRouter
  imports Proxy BffLogout
begin

text \<open>
  The routes of bff's two listeners (\<open>bff/src/server/router.rs\<close>, and \<open>proxy_router\<close> of
  \<open>bff/src/server/api/proxy.rs\<close>): which handler a request reaches, and which bucket counts it first.
  A path of bff's own goes before a nested route, the fallback comes last. Which of the mounted prefixes a
  path falls under, and the path below it, is axum's: the argument \<open>mounted\<close>. The headers of a CORS
  answer are tower-http's.
\<close>

datatype bff_endpoint = StartLogin | Callback | Logout | LoggedOut | HealthOk

datatype bff_bucket = AuthBucket | ProxyBucket | NoBucket

text \<open>\<open>CorsAnswer\<close>: every \<open>OPTIONS\<close> of the proxied routes is answered before anything else. \<open>Proxied\<close> carries
  the upstream and the path it is asked for.\<close>

datatype bff_routed =
    OwnHandler bff_bucket bff_endpoint
  | OwnRefused
  | CorsAnswer
  | Proxied bff_bucket string string
  | NothingThere bff_bucket

definition own_routes :: "(string \<times> bool \<times> bff_endpoint) list" where
  "own_routes = [(''/login'', True, StartLogin), (''/callback'', True, Callback), (''/logout'', False, Logout),
     (''/logged-out'', True, LoggedOut), (''/health'', True, HealthOk)]"

definition endpoint_bucket :: "bff_endpoint \<Rightarrow> bff_bucket" where
  "endpoint_bucket e = (if e = HealthOk then NoBucket else AuthBucket)"

definition method_ok :: "bool \<Rightarrow> string \<Rightarrow> bool" where
  "method_ok is_get m \<longleftrightarrow> (if is_get then m \<in> {''GET'', ''HEAD''} else m = ''POST'')"

definition proxy_route ::
    "(string list \<Rightarrow> string \<Rightarrow> (string \<times> string) option) \<Rightarrow> config \<Rightarrow> string \<Rightarrow> string \<Rightarrow> bff_routed" where
  "proxy_route mounted c m path =
     (if m = ''OPTIONS'' then CorsAnswer
      else (case mounted (map fst (nested_routes c)) path of
        Some (prefix, rest) \<Rightarrow> (case map_of (nested_routes c) prefix of
            Some up \<Rightarrow> Proxied ProxyBucket up rest
          | None \<Rightarrow> NothingThere ProxyBucket)
      | None \<Rightarrow> (case fallback_route c of
          Some up \<Rightarrow> Proxied ProxyBucket up path
        | None \<Rightarrow> NothingThere ProxyBucket)))"

definition public_route ::
    "(string list \<Rightarrow> string \<Rightarrow> (string \<times> string) option) \<Rightarrow> config \<Rightarrow> string \<Rightarrow> string \<Rightarrow> bff_routed" where
  "public_route mounted c m path =
     (case map_of own_routes path of
        Some (is_get, e) \<Rightarrow> if method_ok is_get m then OwnHandler (endpoint_bucket e) e else OwnRefused
      | None \<Rightarrow> proxy_route mounted c m path)"

datatype internal_routed = BackchannelLogout | InternalRevoke | InternalRefused | InternalNothing

definition internal_route :: "string \<Rightarrow> string \<Rightarrow> internal_routed" where
  "internal_route m path =
     (if path = ''/backchannel-logout'' then (if m = ''POST'' then BackchannelLogout else InternalRefused)
      else if path = ''/internal/revoke'' then (if m = ''POST'' then InternalRevoke else InternalRefused)
      else InternalNothing)"

text \<open>What the internal listener answers is not to be stored.\<close>

definition internal_answer :: "response \<Rightarrow> response" where
  "internal_answer r = r\<lparr>rsp_headers := header_insert (rsp_headers r) ''cache-control'' ''no-store''\<rparr>"

section \<open>Which requests reach which handler\<close>

text \<open>What axum documents of nested services: the prefix itself is theirs, with the path \<open>/\<close>.\<close>

definition mounts_prefixes :: "(string list \<Rightarrow> string \<Rightarrow> (string \<times> string) option) \<Rightarrow> bool" where
  "mounts_prefixes mounted \<longleftrightarrow> (\<forall>ps p. distinct ps \<longrightarrow> p \<in> set ps \<longrightarrow> mounted ps p = Some (p, ''/''))"

text \<open>A configuration that loads has no dead route: asked for a route's own prefix, bff answers from that
  route's upstream, whatever the other routes are and in whatever order they come. The checks of the
  configuration are what this needs: no prefix twice, and none of bff's own paths.\<close>

theorem configured_route_reachable:
  assumes "load L prof is_set extracted = Ok c" "r \<in> set (routes c)" "path_prefix r \<noteq> ''/''" "m \<noteq> ''OPTIONS''"
    and "mounts_prefixes mounted"
  shows "public_route mounted c m (path_prefix r) = Proxied ProxyBucket (upstream_url r) ''/''"
proof -
  from load_ok [OF assms(1)] obtain c0 where c0: "check_settings L prof (trim_hydra_urls c0) = Inr ()"
    "c = default_limits is_set prof (trim_hydra_urls c0\<lparr>trusted_origins := map trim_slashes (trusted_origins c0)\<rparr>)" by metis
  have rts: "routes c = routes (trim_hydra_urls c0)" by (simp add: c0(2))
  have d: "distinct (map path_prefix (routes c))" and reserved: "path_prefix r \<notin> set RESERVED_PREFIXES"
    using c0(1) assms(2) by (auto simp: rts check_settings_def check_routes_ok)
  have own: "map_of own_routes (path_prefix r) = None"
    using reserved by (simp add: own_routes_def RESERVED_PREFIXES_def)
  have fst_nested: "map fst (nested_routes c) = map path_prefix (filter (\<lambda>r. path_prefix r \<noteq> ''/'') (routes c))"
    by (simp add: nested_routes_def)
  have dn: "distinct (map fst (nested_routes c))"
    unfolding fst_nested using d by (simp add: distinct_map inj_on_def)
  have mem: "(path_prefix r, upstream_url r) \<in> set (nested_routes c)"
    using assms(2,3) by (auto simp: nested_routes_def)
  then have "path_prefix r \<in> set (map fst (nested_routes c))" by force
  with assms(5) dn have "mounted (map fst (nested_routes c)) (path_prefix r) = Some (path_prefix r, ''/'')"
    by (simp add: mounts_prefixes_def)
  moreover have "map_of (nested_routes c) (path_prefix r) = Some (upstream_url r)" using dn mem by simp
  ultimately show ?thesis using own assms(4) by (simp add: public_route_def proxy_route_def)
qed

text \<open>The endpoints for Hydra and hooks are not on the public listener.\<close>

lemma internal_paths_not_public:
  "internal_route m path \<noteq> InternalNothing \<Longrightarrow> public_route mounted c m path = proxy_route mounted c m path"
  by (auto simp: internal_route_def public_route_def own_routes_def split: if_splits)

end
