(* ===== verification/Worlds.thy ===== *)
theory Worlds
  imports HooksClients
begin

text \<open>
  The calls a computation of hooks logs, replayed on the world they are made in. Most theorems about
  hooks speak of the log only; where the world is another component of the model, these lemmas say what
  the calls made of it.
\<close>

section \<open>Calls and the world they move\<close>

text \<open>The calls of a log, replayed.\<close>

fun replays :: "'w net \<Rightarrow> 'w \<Rightarrow> (hook_request \<times> http_sent option) list \<Rightarrow> 'w \<Rightarrow> bool" where
  "replays N w [] w' \<longleftrightarrow> w' = w"
| "replays N w ((rq, a) # c) w' \<longleftrightarrow> fst (N rq w) = a \<and> replays N (snd (N rq w)) c w'"

lemma replays_append: "replays N w (c @ d) w' \<longleftrightarrow> (\<exists>w1. replays N w c w1 \<and> replays N w1 d w')"
  by (induction c arbitrary: w) auto

lemma replays_call:
  assumes "replays N w c w'" "(rq, a) \<in> set c"
  obtains w1 c1 c2 where "replays N w c1 w1" "fst (N rq w1) = a" "replays N (snd (N rq w1)) c2 w'"
proof -
  obtain c1 c2 where "c = c1 @ (rq, a) # c2" using split_list [OF assms(2)] by blast
  with assms(1) that show thesis by (auto simp: replays_append)
qed

lemma replays_moves:
  assumes "\<And>rq w. R\<^sup>*\<^sup>* w (snd (N rq w))" "replays N w c w'"
  shows "R\<^sup>*\<^sup>* w w'"
  using assms(2)
proof (induction c arbitrary: w)
  case (Cons x c)
  then obtain rq a where "x = (rq, a)" "replays N (snd (N rq w)) c w'" by (cases x) auto
  with Cons.IH assms(1) [of w rq] show ?case by (auto intro: rtranclp_trans)
qed simp

text \<open>A computation is \<open>honest\<close> when the world has moved by the calls it logged and by nothing else.\<close>

named_theorems honest_intros \<open>the world moves by the logged calls only\<close>

definition honest :: "'w net \<Rightarrow> ('w, 'a) io \<Rightarrow> bool" where
  "honest N m \<longleftrightarrow> (\<forall>s. \<exists>c. ns_log (snd (m s)) = ns_log s @ c \<and> replays N (ns_world s) c (ns_world (snd (m s))))"

lemma honest_return [honest_intros]: "honest N (io_return x)"
  by (simp add: honest_def)

lemma honest_bind [honest_intros]:
  assumes "honest N m" "\<And>x. honest N (f x)"
  shows "honest N (io_bind m f)"
  unfolding honest_def
proof
  fix s
  obtain x s1 where m: "m s = (x, s1)" by fastforce
  from assms(1) m obtain c where c: "ns_log s1 = ns_log s @ c" "replays N (ns_world s) c (ns_world s1)"
    unfolding honest_def by (metis snd_conv)
  show "\<exists>c. ns_log (snd (io_bind m f s)) = ns_log s @ c \<and> replays N (ns_world s) c (ns_world (snd (io_bind m f s)))"
  proof (cases x)
    case None
    with m c show ?thesis by (auto simp: io_bind_def)
  next
    case (Some a)
    from assms(2) obtain d where d: "ns_log (snd (f a s1)) = ns_log s1 @ d" "replays N (ns_world s1) d (ns_world (snd (f a s1)))"
      unfolding honest_def by blast
    with c m Some show ?thesis by (intro exI [of _ "c @ d"]) (auto simp: io_bind_def replays_append)
  qed
qed

lemma honest_try [honest_intros]: "honest N m \<Longrightarrow> (\<And>x. honest N (f x)) \<Longrightarrow> honest N (io_try m f)"
  unfolding io_try_def by (intro honest_intros) (auto split: sum.split intro: honest_return)

lemma honest_call [honest_intros]: "honest N (call_net N rq)"
  by (auto simp: honest_def call_net_def split: prod.split intro!: exI [of _ "[(rq, fst (N rq (ns_world _)))]"])

lemma honest_send [honest_intros]: "honest N (send_hook N what rq)"
  unfolding send_hook_def by (intro honest_intros)

lemma honest_collect [honest_intros]: "(\<And>x. honest N (f x)) \<Longrightarrow> honest N (io_collect f xs)"
  by (induction xs) (auto intro: honest_intros)

lemma honest_join [honest_intros]:
  assumes "\<And>m. m \<in> set ms \<Longrightarrow> honest N m"
  shows "honest N (io_join rank ms)"
proof -
  have each: "\<exists>c. ns_log (snd (run_each m order s)) = ns_log s @ c \<and> replays N (ns_world s) c (ns_world (snd (run_each m order s)))"
    if "\<And>i. i \<in> set order \<Longrightarrow> honest N (m i)" for m :: "nat \<Rightarrow> ('a, 'b) io" and order s
    using that
  proof (induction order arbitrary: s)
    case (Cons i order)
    obtain x s1 xs s2 where m: "m i s = (x, s1)" and r: "run_each m order s1 = (xs, s2)" by (meson surj_pair)
    from Cons.prems [of i] m obtain c where "ns_log s1 = ns_log s @ c" "replays N (ns_world s) c (ns_world s1)"
      unfolding honest_def by (metis list.set_intros(1) snd_conv)
    moreover from Cons.IH [of s1] Cons.prems r obtain d where "ns_log s2 = ns_log s1 @ d" "replays N (ns_world s1) d (ns_world s2)"
      by auto
    ultimately show ?case using m r by (intro exI [of _ "c @ d"]) (auto simp: replays_append)
  qed simp
  have "snd (io_join rank ms s) = snd (run_each ((!) ms) (sort_key rank [0..<length ms]) s)" for s
    by (simp add: io_join_def split: prod.split)
  with each [of "sort_key rank [0..<length ms]" "(!) ms"] assms show ?thesis by (auto simp: honest_def)
qed

lemma honest_if [honest_intros]: "honest N m \<Longrightarrow> honest N m' \<Longrightarrow> honest N (if b then m else m')"
  by simp

lemma honest_sum [honest_intros]:
  "(\<And>x. honest N (f x)) \<Longrightarrow> (\<And>y. honest N (g y)) \<Longrightarrow> honest N (case r of Inl x \<Rightarrow> f x | Inr y \<Rightarrow> g y)"
  by (simp split: sum.split)

lemma honest_prod [honest_intros]: "(\<And>x y. honest N (f x y)) \<Longrightarrow> honest N (case p of (x, y) \<Rightarrow> f x y)"
  by (simp split: prod.split)

lemma honest_option [honest_intros]:
  "honest N m \<Longrightarrow> (\<And>y. honest N (g y)) \<Longrightarrow> honest N (case r of None \<Rightarrow> m | Some y \<Rightarrow> g y)"
  by (simp split: option.split)

lemma honest_let [honest_intros]: "(\<And>x. honest N (f x)) \<Longrightarrow> honest N (let x = y in f x)"
  by simp

lemma honest_invariant:
  assumes "honest N m" "\<And>rq w. I w \<Longrightarrow> I (snd (N rq w))" "I (ns_world s)"
  shows "I (ns_world (snd (m s)))"
proof -
  have "replays N w c w' \<Longrightarrow> I w \<Longrightarrow> I w'" for w c w'
    by (induction c arbitrary: w) (use assms(2) in auto)
  with assms(1,3) show ?thesis unfolding honest_def by blast
qed

end
