(* ===== verification/Runs.thy ===== *)
theory Runs
  imports Main
begin

text \<open>
  Machines: a step relation, its start states, an invariant, and a specification it refines. What the
  services do over time is stated over the states such a machine reaches; each service gives its own
  step relation and interprets the locales with it.
\<close>

section \<open>Invariants of reachable states\<close>

locale machine =
  fixes step :: "'s \<Rightarrow> 's \<Rightarrow> bool" and start :: "'s \<Rightarrow> bool" and inv :: "'s \<Rightarrow> bool"
  assumes inv_start: "start s \<Longrightarrow> inv s"
    and inv_step: "inv s \<Longrightarrow> step s s' \<Longrightarrow> inv s'"
begin

lemma inv_run: "step\<^sup>*\<^sup>* s s' \<Longrightarrow> inv s \<Longrightarrow> inv s'"
  by (induction rule: rtranclp_induct) (auto intro: inv_step)

lemma inv_reached: "start s \<Longrightarrow> step\<^sup>*\<^sup>* s s' \<Longrightarrow> inv s'"
  using inv_run inv_start by blast

text \<open>A quantity that no step loses.\<close>

lemma run_keeps:
  assumes "step\<^sup>*\<^sup>* s s'" "inv s" "P s" "\<And>t t'. inv t \<Longrightarrow> P t \<Longrightarrow> step t t' \<Longrightarrow> P t'"
  shows "P s'"
proof -
  have "inv s' \<and> P s'" using assms(1-3)
    by (induction rule: rtranclp_induct) (auto intro: inv_step assms(4))
  then show ?thesis ..
qed

end

section \<open>A specification and what refines it\<close>

text \<open>\<open>astep\<close> is what may be observed to happen; a step of the machine is one of those or changes nothing
  that \<open>abs\<close> shows.\<close>

locale refined_machine = machine +
  fixes abs :: "'s \<Rightarrow> 'a" and astep :: "'a \<Rightarrow> 'a \<Rightarrow> bool"
  assumes refine_step: "inv s \<Longrightarrow> step s s' \<Longrightarrow> astep\<^sup>*\<^sup>* (abs s) (abs s')"
begin

lemma refine_run: "step\<^sup>*\<^sup>* s s' \<Longrightarrow> inv s \<Longrightarrow> astep\<^sup>*\<^sup>* (abs s) (abs s')"
proof (induction rule: rtranclp_induct)
  case base
  then show ?case by simp
next
  case (step t t')
  from inv_run [OF step.hyps(1) step.prems] have "astep\<^sup>*\<^sup>* (abs t) (abs t')"
    by (rule refine_step) (rule step.hyps(2))
  with step.IH [OF step.prems] show ?case by (rule rtranclp_trans)
qed

lemma refine_reached: "start s \<Longrightarrow> step\<^sup>*\<^sup>* s s' \<Longrightarrow> astep\<^sup>*\<^sup>* (abs s) (abs s')"
  using refine_run inv_start by blast

end

end
