(* ===== verification/BffRuns.thy ===== *)
theory BffRuns
  imports Runs BffLogout Proxy
begin

text \<open>
  bff as a whole: its handlers as one machine in which requests interleave at their awaits. Of a
  callback, saving the new session and ending the browser's previous one are two steps; of a
  back-channel logout, remembering the \<open>jti\<close> and ending the sessions; of a refresh, asking Hydra and
  taking its answer in. A request may be dropped at any of these points. The locks only restrict which
  steps follow each other (\<open>RefreshLock\<close>); nothing here needs them.

  The trace records what happened, newest first. \<open>account_after\<close> reads from the trace alone whose session
  an id is; the theorems say that the session table always agrees with it, and that an access token is
  handed out for an id only while the trace says it is open.
\<close>

section \<open>What is observed\<close>

type_synonym account = "uuid \<times> string option"

datatype bff_event =
    Opened string uuid "string option"
  | Closed string
  | ClosedAll session_selector
  | Evicted uuid "string list"
  | Expired "string list"
  | Forwarded string string

fun selects :: "session_selector \<Rightarrow> account \<Rightarrow> bool" where
  "selects (User u) (v, s) = (v = u)"
| "selects (UserSession u x) (v, s) = (v = u \<and> is_none_or (\<lambda>own. own = x) s)"
| "selects (Session x) (v, s) = (s = Some x)"

fun account_after :: "bff_event list \<Rightarrow> string \<Rightarrow> account option" where
  "account_after [] = Map.empty"
| "account_after (Opened i u s # es) = (account_after es)(i \<mapsto> (u, s))"
| "account_after (Closed i # es) = (account_after es)(i := None)"
| "account_after (ClosedAll sel # es) = (\<lambda>i. opt_filter (\<lambda>ac. \<not> selects sel ac) (account_after es i))"
| "account_after (Evicted u js # es) = (\<lambda>i. if i \<in> set js then None else account_after es i)"
| "account_after (Expired js # es) = (\<lambda>i. if i \<in> set js then None else account_after es i)"
| "account_after (Forwarded i token # es) = account_after es"

definition opened_ids :: "bff_event list \<Rightarrow> string set" where
  "opened_ids es = {i. \<exists>u s. Opened i u s \<in> set es}"

text \<open>What a trace promises: an id is opened once, a login displaces sessions of its own user only, and
  a token is handed out for open sessions only.\<close>

fun trace_ok :: "bff_event list \<Rightarrow> bool" where
  "trace_ok [] = True"
| "trace_ok (Opened i u s # es) \<longleftrightarrow> i \<notin> opened_ids es \<and> trace_ok es"
| "trace_ok (Evicted u js # es) \<longleftrightarrow> (\<forall>j \<in> set js. \<exists>s. account_after es j = Some (u, s)) \<and> trace_ok es"
| "trace_ok (Forwarded i token # es) \<longleftrightarrow> account_after es i \<noteq> None \<and> trace_ok es"
| "trace_ok (_ # es) = trace_ok es"

section \<open>The machine\<close>

datatype pending_end = EndOne string | EndAll session_selector

record bff_sys =
  b_app :: app_state
  b_asking :: "(string \<times> session_data) list"
  b_ending :: "pending_end list"
  b_trace :: "bff_event list"

definition bff_start :: "app_state \<Rightarrow> bff_sys" where
  "bff_start a = \<lparr>b_app = a, b_asking = [], b_ending = [], b_trace = []\<rparr>"

definition observe :: "bff_sys \<Rightarrow> app_state \<Rightarrow> bff_event list \<Rightarrow> bff_sys" where
  "observe s a new = s\<lparr>b_app := a, b_trace := new @ b_trace s\<rparr>"

text \<open>Of some ids, those that are not in the table.\<close>

definition lost :: "string list \<Rightarrow> sessions \<Rightarrow> string list" where
  "lost ids s = filter (\<lambda>j. get_session s j = None) ids"

definition session_ids :: "app_state \<Rightarrow> string list" where
  "session_ids a = map fst (by_id (app_sessions a))"

definition answer_events :: "string \<Rightarrow> proxy_service_error + session_data \<Rightarrow> bff_event list" where
  "answer_events i res = (case res of
     Inr new \<Rightarrow> [Forwarded i (access_token new)]
   | Inl (RefreshRefused endpoint status) \<Rightarrow> [Closed i]
   | Inl _ \<Rightarrow> [])"

inductive bff_step :: "libs \<Rightarrow> jwt_libs \<Rightarrow> bff_sys \<Rightarrow> bff_sys \<Rightarrow> bool" for L :: libs and J :: jwt_libs where
  callback_opens: "callback_complete L J (b_app s) w (Some pending) r None = (Inr started, a') \<Longrightarrow>
     token_request L (cw_answer w) = Inr tokens \<Longrightarrow> ts_id_token tokens = Some it \<Longrightarrow>
     verify_id_token L J (app_hydra (b_app s)) (app_jwks (b_app s)) (cw_keys_at w) (cw_keys_done w) (cw_fetched w) it
       (ts_access_token tokens) (pl_nonce pending) = (Inr v, jwks) \<Longrightarrow>
     i = ss_session_id started \<Longrightarrow> i \<notin> opened_ids (b_trace s) \<Longrightarrow>
     bff_step L J s ((observe s a' [Evicted (vid_user_id v) (lost (i # session_ids (b_app s)) (app_sessions a')),
         Opened i (vid_user_id v) (vid_sid v)])
       \<lparr>b_ending := b_ending s @ (case previous of None \<Rightarrow> [] | Some p \<Rightarrow> [EndOne p])\<rparr>)"
| callback_refused: "callback L J (b_app s) w h q = (Inl e, a') \<Longrightarrow> bff_step L J s (observe s a' [])"
| end_one: "b_ending s = xs @ EndOne p # ys \<Longrightarrow>
     bff_step L J s ((observe s (snd (end_session L (b_app s) p)) [Closed p])\<lparr>b_ending := xs @ ys\<rparr>)"
| end_all: "b_ending s = xs @ EndAll sel # ys \<Longrightarrow>
     bff_step L J s ((observe s (end_sessions L (b_app s) sel) [ClosedAll sel])\<lparr>b_ending := xs @ ys\<rparr>)"
| gone: "b_ending s = xs @ p # ys \<Longrightarrow> bff_step L J s (s\<lparr>b_ending := xs @ ys\<rparr>)"
| logout: "logout L (b_app s) h requested = (res, a') \<Longrightarrow>
     bff_step L J s (observe s a' (if is_ok res
       then (case extract_cookie L h (session_cookie L (app_config (b_app s))) of None \<Rightarrow> [] | Some i \<Rightarrow> [Closed i]) else []))"
| backchannel: "verify_logout_token L J (app_hydra (b_app s)) (app_jwks (b_app s)) now ready later fetched token = (Inr lc, jwks) \<Longrightarrow>
     record_jti (app_jtis (b_app s)) rec (lc_jti lc) (lc_replay_until lc) = (Inr u, jtis) \<Longrightarrow>
     bff_step L J s ((observe s ((b_app s)\<lparr>app_jwks := jwks, app_jtis := jtis\<rparr>) [])
       \<lparr>b_ending := b_ending s @ [EndAll (lc_target lc)]\<rparr>)"
| backchannel_refused: "backchannel_service L J (b_app s) now ready later rec fetched token = (Inl e, a') \<Longrightarrow>
     bff_step L J s (observe s a' [])"
| internal: "internal_revoke L (b_app s) h (Inr u) = (Inr status, a') \<Longrightarrow> bff_step L J s (observe s a' [ClosedAll (User u)])"
| sweep: "a' = expiry_sweep (b_app s) t1 t2 \<Longrightarrow>
     bff_step L J s (observe s a' [Expired (lost (session_ids (b_app s)) (app_sessions a'))])"
| hand_out: "resolve_unlocked (b_app s) i t1 t2 = Some (Inr token) \<Longrightarrow> bff_step L J s (observe s (b_app s) [Forwarded i token])"
| recheck: "get_session (app_sessions (b_app s)) i = Some d \<Longrightarrow> is_fresh now d \<Longrightarrow>
     bff_step L J s (observe s (b_app s) [Forwarded i (access_token d)])"
| ask: "get_session (app_sessions (b_app s)) i = Some d \<Longrightarrow> \<not> is_fresh now d \<Longrightarrow>
     bff_step L J s (s\<lparr>b_app := log_request (b_app s) (refresh_request L (app_hydra (b_app s)) (refresh_token d)),
       b_asking := b_asking s @ [(i, d)]\<rparr>)"
| answered: "b_asking s = xs @ (i, d) # ys \<Longrightarrow> refresh_finish L (b_app s) i d answer now now' = (res, a') \<Longrightarrow>
     bff_step L J s ((observe s a' (answer_events i res))\<lparr>b_asking := xs @ ys\<rparr>)"
| cancelled: "b_asking s = xs @ x # ys \<Longrightarrow> bff_step L J s (s\<lparr>b_asking := xs @ ys\<rparr>)"

section \<open>Traces\<close>

definition account_of :: "session_data \<Rightarrow> account" where
  "account_of d = (user_id d, sid d)"

lemma selects_account [simp]: "selects sel (account_of d) = matches sel d"
  by (cases sel) (simp_all add: account_of_def)

lemma opened_ids_simps [simp]:
  "opened_ids [] = {}" "opened_ids (Opened i u s # es) = insert i (opened_ids es)"
  "opened_ids (Closed i # es) = opened_ids es" "opened_ids (ClosedAll sel # es) = opened_ids es"
  "opened_ids (Evicted u js # es) = opened_ids es" "opened_ids (Expired js # es) = opened_ids es"
  "opened_ids (Forwarded i t # es) = opened_ids es"
  by (auto simp: opened_ids_def)

lemma opened_ids_append: "opened_ids (es @ fs) = opened_ids es \<union> opened_ids fs"
  by (auto simp: opened_ids_def)

lemma account_after_opened: "account_after es i = Some (u, s) \<Longrightarrow> Opened i u s \<in> set es"
  by (induction es rule: account_after.induct) (auto split: if_splits)

lemma opened_once: "trace_ok es \<Longrightarrow> Opened i u s \<in> set es \<Longrightarrow> Opened i u' s' \<in> set es \<Longrightarrow> u' = u \<and> s' = s"
  by (induction es rule: trace_ok.induct) (auto simp: opened_ids_def)

lemma trace_ok_append: "trace_ok (es @ fs) \<Longrightarrow> trace_ok fs"
  by (induction es rule: trace_ok.induct) auto

text \<open>A session that is closed is closed for good.\<close>

lemma stays_closed:
  "trace_ok (later @ es) \<Longrightarrow> i \<in> opened_ids es \<Longrightarrow> account_after es i = None \<Longrightarrow>
    account_after (later @ es) i = None \<and> Forwarded i token \<notin> set later"
  by (induction later rule: trace_ok.induct) (auto simp: opened_ids_append)

section \<open>The table and the trace\<close>

definition agrees :: "sessions \<Rightarrow> bff_event list \<Rightarrow> bool" where
  "agrees t es \<longleftrightarrow> (\<forall>i. map_option account_of (get_session t i) = account_after es i)"

definition bff_inv :: "bff_sys \<Rightarrow> bool" where
  "bff_inv s \<longleftrightarrow> app_wf (b_app s) \<and> agrees (app_sessions (b_app s)) (b_trace s) \<and> trace_ok (b_trace s) \<and>
     (\<forall>(i, d) \<in> set (b_asking s). Opened i (user_id d) (sid d) \<in> set (b_trace s))"

lemma bff_invD:
  assumes "bff_inv s"
  shows "app_wf (b_app s)" "sessions_wf (app_sessions (b_app s))" "agrees (app_sessions (b_app s)) (b_trace s)"
    "trace_ok (b_trace s)" "(i, d) \<in> set (b_asking s) \<Longrightarrow> Opened i (user_id d) (sid d) \<in> set (b_trace s)"
  using assms by (auto simp: bff_inv_def app_wf_def)

lemma agrees_there: "agrees t es \<Longrightarrow> get_session t i = Some d \<Longrightarrow> account_after es i = Some (account_of d)"
  by (metis agrees_def option.map(2))

lemma agrees_opened: "agrees t es \<Longrightarrow> get_session t i = Some d \<Longrightarrow> Opened i (user_id d) (sid d) \<in> set es"
  using account_after_opened agrees_there by (metis account_of_def)

lemma lost_set: "set (lost ids t) = {j \<in> set ids. get_session t j = None}"
  by (auto simp: lost_def)

lemma session_ids_set: "set (session_ids a) = dom (get_session (app_sessions a))"
  by (simp add: session_ids_def get_session_def [abs_def] dom_map_of_conv_image_fst)

text \<open>The invariant after a step that appends events, one obligation for each part.\<close>

lemma bff_inv_observe:
  assumes "bff_inv s" "app_wf a" "agrees (app_sessions a) (new @ b_trace s)" "trace_ok (new @ b_trace s)"
    "set asking \<subseteq> set (b_asking s)"
  shows "bff_inv ((observe s a new)\<lparr>b_asking := asking, b_ending := ending\<rparr>)"
  using assms by (auto simp: bff_inv_def observe_def)

lemma bff_inv_observe_only:
  assumes "bff_inv s" "app_wf a" "agrees (app_sessions a) (new @ b_trace s)" "trace_ok (new @ b_trace s)"
  shows "bff_inv (observe s a new)"
  using assms by (auto simp: bff_inv_def observe_def)

lemma agrees_end_session: "sessions_wf (app_sessions a) \<Longrightarrow> agrees (app_sessions a) es \<Longrightarrow>
    agrees (app_sessions (snd (end_session L a p))) (Closed p # es)"
  by (simp add: agrees_def end_session_eq mem.tak_snd)

lemma agrees_end_sessions: "sessions_wf (app_sessions a) \<Longrightarrow> agrees (app_sessions a) es \<Longrightarrow>
    agrees (app_sessions (end_sessions L a sel)) (ClosedAll sel # es)"
  unfolding agrees_def
proof
  fix i assume wf: "sessions_wf (app_sessions a)" and "\<forall>i. map_option account_of (get_session (app_sessions a) i) = account_after es i"
  then have "account_after es i = map_option account_of (get_session (app_sessions a) i)" by simp
  then show "map_option account_of (get_session (app_sessions (end_sessions L a sel)) i) = account_after (ClosedAll sel # es) i"
    by (cases "get_session (app_sessions a) i") (simp_all add: end_sessions_eq mem.rev_sel_snd [OF wf])
qed

lemma agrees_sweep:
  assumes wf: "sessions_wf (app_sessions a)" and ag: "agrees (app_sessions a) es"
  shows "agrees (app_sessions (expiry_sweep a t1 t2)) (Expired (lost (session_ids a) (app_sessions (expiry_sweep a t1 t2))) # es)"
  unfolding agrees_def
proof
  let ?t = "app_sessions (expiry_sweep a t1 t2)"
  fix i
  have l: "get_session ?t i = opt_filter (\<lambda>d. t1 < ends_at d) (get_session (app_sessions a) i)"
    by (simp add: expiry_sweep_def sweep_sessions_lookup [OF wf])
  have "account_after es i = map_option account_of (get_session (app_sessions a) i)" using ag by (simp add: agrees_def)
  then show "map_option account_of (get_session ?t i) = account_after (Expired (lost (session_ids a) ?t) # es) i"
    using l by (cases "get_session (app_sessions a) i") (auto simp: lost_set session_ids_set)
qed

lemma agrees_save:
  assumes wf: "sessions_wf (app_sessions a)" and ag: "agrees (app_sessions a) es"
    and t: "t = snd (save_session (app_sessions a) i d)"
  shows "agrees t (Evicted (user_id d) (lost (i # session_ids a) t) # Opened i (user_id d) (sid d) # es)"
    "j \<in> set (lost (i # session_ids a) t) \<Longrightarrow> \<exists>x. account_after (Opened i (user_id d) (sid d) # es) j = Some (user_id d, x)"
proof -
  have acc: "account_after es j = map_option account_of (get_session (app_sessions a) j)" for j using ag by (simp add: agrees_def)
  show "agrees t (Evicted (user_id d) (lost (i # session_ids a) t) # Opened i (user_id d) (sid d) # es)"
    unfolding agrees_def
  proof
    fix j
    show "map_option account_of (get_session t j) =
        account_after (Evicted (user_id d) (lost (i # session_ids a) t) # Opened i (user_id d) (sid d) # es) j"
    proof (cases "get_session t j")
      case None
      then show ?thesis
        using acc [of j] by (cases "get_session (app_sessions a) j") (auto simp: lost_set session_ids_set)
    next
      case (Some e)
      then have "((get_session (app_sessions a))(i \<mapsto> d)) j = Some e"
        using mem.save_sub [OF wf, of i d] unfolding t map_le_def by (metis domI)
      with Some acc [of j] show ?thesis by (auto simp: lost_set account_of_def split: if_splits)
    qed
  qed
  show "\<exists>x. account_after (Opened i (user_id d) (sid d) # es) j = Some (user_id d, x)"
    if j: "j \<in> set (lost (i # session_ids a) t)"
  proof (cases "j = i")
    case False
    with j obtain e where e: "get_session (app_sessions a) j = Some e" and none: "get_session t j = None"
      by (auto simp: lost_set session_ids_set)
    have "user_id e = user_id d" using mem.save_other [OF wf False e, of d] none t by fastforce
    with e False acc [of j] show ?thesis by (simp add: account_of_def)
  qed simp
qed

lemma refresh_finish_effect:
  assumes wf: "app_wf a" and fin: "refresh_finish L a i d answer now now' = (res, a')"
  shows "get_session (app_sessions a') = (case res of
      Inr new \<Rightarrow> (get_session (app_sessions a))(i \<mapsto> new)
    | Inl (RefreshRefused endpoint status) \<Rightarrow> (get_session (app_sessions a))(i := None)
    | Inl _ \<Rightarrow> get_session (app_sessions a))"
    and "res = Inr new \<Longrightarrow> get_session (app_sessions a) i \<noteq> None \<and> account_of new = account_of d"
    and "app_wf a'"
proof -
  have ws: "sessions_wf (app_sessions a)" using wf by (simp add: app_wf_def)
  consider (refused) ep st where "token_request L answer = Inl (Rejected ep st)"
    | (failed) e where "token_request L answer = Inl e" "\<And>ep st. e \<noteq> Rejected ep st"
    | (tokens) tk where "token_request L answer = Inr tk"
    by (cases "token_request L answer"; blast)
  then have "get_session (app_sessions a') = (case res of
      Inr new \<Rightarrow> (get_session (app_sessions a))(i \<mapsto> new)
    | Inl (RefreshRefused endpoint status) \<Rightarrow> (get_session (app_sessions a))(i := None)
    | Inl _ \<Rightarrow> get_session (app_sessions a)) \<and>
    (res = Inr new \<longrightarrow> get_session (app_sessions a) i \<noteq> None \<and> account_of new = account_of d) \<and> app_wf a'"
  proof cases
    case refused
    with fin show ?thesis using wf by (auto simp: refresh_finish_def mem.tak_snd [OF ws] mem.tak_wf app_wf_def)
  next
    case failed
    with fin show ?thesis using wf by (cases e) (auto simp: refresh_finish_def)
  next
    case tokens
    let ?new = "refreshed_session (refresh_ttl (app_hydra a)) d tk now now'"
    show ?thesis
    proof (cases "get_session (app_sessions a) i")
      case None
      with tokens fin mem.upd_gone [OF ws None, of ?new] wf show ?thesis
        by (auto simp: refresh_finish_def Let_def)
    next
      case (Some e)
      obtain s where s: "update_session (app_sessions a) i ?new = (Inr (), s)"
        "get_session s = (get_session (app_sessions a))(i \<mapsto> ?new)" "sessions_wf s"
        using mem.upd_there [OF ws Some, of ?new] mem.upd_wf [OF ws, of i ?new] by (metis prod.collapse)
      with tokens fin Some wf show ?thesis
        by (auto simp: refresh_finish_def Let_def app_wf_def account_of_def refreshed_session_keeps)
    qed
  qed
  then show "get_session (app_sessions a') = (case res of
      Inr new \<Rightarrow> (get_session (app_sessions a))(i \<mapsto> new)
    | Inl (RefreshRefused endpoint status) \<Rightarrow> (get_session (app_sessions a))(i := None)
    | Inl _ \<Rightarrow> get_session (app_sessions a))"
    "res = Inr new \<Longrightarrow> get_session (app_sessions a) i \<noteq> None \<and> account_of new = account_of d" "app_wf a'"
    by blast+
qed

lemma agrees_answer:
  assumes wf: "app_wf a" and ag: "agrees (app_sessions a) es"
    and fin: "refresh_finish L a i d answer now now' = (res, a')"
    and ident: "\<And>e. get_session (app_sessions a) i = Some e \<Longrightarrow> account_of e = account_of d"
  shows "agrees (app_sessions a') (answer_events i res @ es)" "trace_ok es \<Longrightarrow> trace_ok (answer_events i res @ es)"
proof -
  note effect = refresh_finish_effect [OF wf fin]
  have acc: "account_after es j = map_option account_of (get_session (app_sessions a) j)" for j using ag by (simp add: agrees_def)
  have new: "account_after es i = Some (account_of n)" if "res = Inr n" for n
    using effect(2) [OF that] ident acc [of i] by auto
  show "agrees (app_sessions a') (answer_events i res @ es)"
    unfolding agrees_def effect(1)
    by (auto simp: answer_events_def acc [symmetric] new split: sum.splits proxy_service_error.splits)
  show "trace_ok es \<Longrightarrow> trace_ok (answer_events i res @ es)"
    by (auto simp: answer_events_def new split: sum.splits proxy_service_error.splits)
qed

section \<open>Every step keeps the table and the trace in agreement\<close>

lemma callback_opens_effect:
  assumes "callback_complete L J a w (Some pending) r None = (Inr started, a')"
    and "token_request L (cw_answer w) = Inr tokens" "ts_id_token tokens = Some it"
    and "verify_id_token L J (app_hydra a) (app_jwks a) (cw_keys_at w) (cw_keys_done w) (cw_fetched w) it
       (ts_access_token tokens) (pl_nonce pending) = (Inr v, jwks)"
  obtains d where "app_sessions a' = snd (save_session (app_sessions a) (ss_session_id started) d)"
    "user_id d = vid_user_id v" "sid d = vid_sid v" "app_wf a \<Longrightarrow> app_wf a'"
proof -
  from callback_complete_ok [OF assms(1)] obtain code tokens' it' rt v' jwks' where c:
    "token_request L (cw_answer w) = Inr tokens'" "ts_id_token tokens' = Some it'"
    "verify_id_token L J (app_hydra a) (app_jwks a) (cw_keys_at w) (cw_keys_done w) (cw_fetched w) it'
       (ts_access_token tokens') (pl_nonce pending) = (Inr v', jwks')"
    "ss_session_id started = cw_session_id w"
    "a' = install_session L ((log_request a (exchange_code_request L (app_hydra a) code (pl_verifier pending)))
       \<lparr>app_jwks := jwks'\<rparr>) (cw_session_id w) (new_session a tokens' rt it' v' (cw_now w)) None"
    by (metis option.inject started_session.select_convs(1))
  let ?b = "(log_request a (exchange_code_request L (app_hydra a) code (pl_verifier pending)))\<lparr>app_jwks := jwks'\<rparr>"
  have "app_wf a \<Longrightarrow> app_wf ?b" by (simp add: app_wf_def)
  then have "app_wf a \<Longrightarrow> app_wf a'" unfolding c(5) by (rule install_session_wf)
  moreover have "app_sessions a' = snd (save_session (app_sessions a) (ss_session_id started) (new_session a tokens' rt it' v' (cw_now w)))"
    unfolding c(4,5) by (simp add: install_session_def Let_def case_prod_beta)
  moreover have "user_id (new_session a tokens' rt it' v' (cw_now w)) = vid_user_id v"
    "sid (new_session a tokens' rt it' v' (cw_now w)) = vid_sid v"
    using c assms by (simp_all add: new_session_def)
  ultimately show thesis by (intro that)
qed

lemma logout_effect:
  assumes "logout L a h requested = (res, a')"
  shows "a' = (if is_ok res then (case extract_cookie L h (session_cookie L (app_config a)) of
      None \<Rightarrow> a | Some i \<Rightarrow> snd (end_session L a i)) else a)"
  using assms by (auto simp: logout_def logout_service_def Let_def case_prod_beta split: sum.splits option.splits)

lemma internal_revoke_effect:
  "internal_revoke L a h (Inr u) = (Inr status, a') \<Longrightarrow> a' = end_sessions L a (User u)"
  by (auto simp: internal_revoke_def split: sum.splits)

lemma callback_refused_effect:
  assumes "callback L J a w h q = (Inl e, a')"
  shows "app_sessions a' = app_sessions a" "app_wf a \<Longrightarrow> app_wf a'"
proof -
  from assms obtain se where "callback_complete L J a w
      (Option.bind (extract_cookie L h (login_cookie L (app_config a))) (from_cookie_value L))
      (returned_of q) (extract_cookie L h (session_cookie L (app_config a))) = (Inl se, a')"
    by (auto simp: callback_def Let_def split: prod.splits sum.splits)
  from callback_complete_err [OF this] show "app_sessions a' = app_sessions a" "app_wf a \<Longrightarrow> app_wf a'"
    by (simp_all add: app_wf_def)
qed

text \<open>A service starts without sessions.\<close>

definition app_start :: "app_state \<Rightarrow> bool" where
  "app_start a \<longleftrightarrow> app_wf a \<and> app_sessions a = empty_sessions"

lemma new_app_starts: "new_app L c = Inr a \<Longrightarrow> app_start a"
  using new_app_wf [of L c a] by (auto simp: app_start_def new_app_def split: sum.splits option.splits)

lemma bff_inv_start: "app_start a \<Longrightarrow> bff_inv (bff_start a)"
  by (auto simp: bff_inv_def bff_start_def agrees_def app_start_def)

lemma bff_inv_step: "bff_inv s \<Longrightarrow> bff_step L J s s' \<Longrightarrow> bff_inv s'"
proof (rotate_tac, induction rule: bff_step.induct)
  case (callback_opens s w pending r started a' tokens it v jwks i previous)
  note inv = bff_invD [OF callback_opens.prems]
  obtain d where d: "app_sessions a' = snd (save_session (app_sessions (b_app s)) i d)"
    "user_id d = vid_user_id v" "sid d = vid_sid v" "app_wf a'"
    using callback_opens_effect [OF callback_opens(1-4)] inv(1) callback_opens(5) by metis
  note save = agrees_save [OF inv(2,3) d(1)]
  have "bff_inv ((observe s a' [Evicted (vid_user_id v) (lost (i # session_ids (b_app s)) (app_sessions a')),
         Opened i (vid_user_id v) (vid_sid v)])\<lparr>b_asking := b_asking s,
       b_ending := b_ending s @ (case previous of None \<Rightarrow> [] | Some p \<Rightarrow> [EndOne p])\<rparr>)"
    using save callback_opens(6) inv(4) d by (intro bff_inv_observe [OF callback_opens.prems d(4)]) auto
  then show ?case by (simp add: observe_def)
next
  case (callback_refused s w h q e a')
  note inv = bff_invD [OF callback_refused.prems]
  show ?case
    by (rule bff_inv_observe_only [OF callback_refused.prems])
      (use callback_refused_effect [OF callback_refused(1)] inv in auto)
next
  case (end_one s xs p ys)
  note inv = bff_invD [OF end_one.prems]
  have "bff_inv ((observe s (snd (end_session L (b_app s) p)) [Closed p])\<lparr>b_asking := b_asking s, b_ending := xs @ ys\<rparr>)"
    by (rule bff_inv_observe [OF end_one.prems end_session_wf [OF inv(1)]])
      (use inv(4) agrees_end_session [OF inv(2,3)] in auto)
  then show ?case by (simp add: observe_def)
next
  case (end_all s xs sel ys)
  note inv = bff_invD [OF end_all.prems]
  have "bff_inv ((observe s (end_sessions L (b_app s) sel) [ClosedAll sel])\<lparr>b_asking := b_asking s, b_ending := xs @ ys\<rparr>)"
    by (rule bff_inv_observe [OF end_all.prems end_sessions_wf [OF inv(1)]])
      (use inv(4) agrees_end_sessions [OF inv(2,3)] in auto)
  then show ?case by (simp add: observe_def)
next
  case (gone s xs p ys)
  then show ?case by (simp add: bff_inv_def)
next
  case (logout s h requested res a')
  note inv = bff_invD [OF logout.prems]
  show ?case
    unfolding logout_effect [OF logout(1)]
    by (rule bff_inv_observe_only [OF logout.prems])
      (use inv(1,3,4) agrees_end_session [OF inv(2,3)] end_session_wf [OF inv(1)] in \<open>auto split: option.splits\<close>)
next
  case (backchannel s now ready later fetched token lc jwks rec u jtis)
  note inv = bff_invD [OF backchannel.prems]
  have "jtis_wf jtis" using jti.recd_wf [of "app_jtis (b_app s)" rec "lc_jti lc" "lc_replay_until lc"] inv(1) backchannel(2)
    by (simp add: app_wf_def)
  then have wf: "app_wf ((b_app s)\<lparr>app_jwks := jwks, app_jtis := jtis\<rparr>)" using inv(1) by (simp add: app_wf_def)
  have "bff_inv ((observe s ((b_app s)\<lparr>app_jwks := jwks, app_jtis := jtis\<rparr>) [])
      \<lparr>b_asking := b_asking s, b_ending := b_ending s @ [EndAll (lc_target lc)]\<rparr>)"
    by (rule bff_inv_observe [OF backchannel.prems wf]) (use inv in auto)
  then show ?case by (simp add: observe_def)
next
  case (backchannel_refused s now ready later rec fetched token e a')
  note inv = bff_invD [OF backchannel_refused.prems]
  have same: "app_sessions a' = app_sessions (b_app s)" "app_wf a'"
    using backchannel_service_err [OF backchannel_refused(1)] inv(1) by (simp_all add: app_wf_def)
  show ?case
    by (rule bff_inv_observe_only [OF backchannel_refused.prems same(2)]) (use same inv in auto)
next
  case (internal s h u status a')
  note inv = bff_invD [OF internal.prems]
  show ?case
    unfolding internal_revoke_effect [OF internal(1)]
    by (rule bff_inv_observe_only [OF internal.prems end_sessions_wf [OF inv(1)]])
      (use inv(4) agrees_end_sessions [OF inv(2,3)] in auto)
next
  case (sweep a' s t1 t2)
  note inv = bff_invD [OF sweep.prems]
  show ?case
    unfolding sweep(1)
    by (rule bff_inv_observe_only [OF sweep.prems expiry_sweep_wf [OF inv(1)]])
      (use inv(4) agrees_sweep [OF inv(2,3)] in auto)
next
  case (hand_out s i t1 t2 token)
  note inv = bff_invD [OF hand_out.prems]
  from hand_out(1) obtain d where "get_session (app_sessions (b_app s)) i = Some d"
    by (auto simp: resolve_unlocked_def split: option.splits)
  then show ?case
    by (intro bff_inv_observe_only [OF hand_out.prems inv(1)]) (use inv agrees_there [OF inv(3)] in \<open>auto simp: agrees_def\<close>)
next
  case (recheck s i d now)
  note inv = bff_invD [OF recheck.prems]
  from recheck(1) show ?case
    by (intro bff_inv_observe_only [OF recheck.prems inv(1)]) (use inv agrees_there [OF inv(3)] in \<open>auto simp: agrees_def\<close>)
next
  case (ask s i d now)
  note inv = bff_invD [OF ask.prems]
  show ?case using inv(1,3-5) agrees_opened [OF inv(3) ask(1)] by (auto simp: bff_inv_def)
next
  case (answered s xs i d ys answer now now' res a')
  note inv = bff_invD [OF answered.prems]
  have d: "Opened i (user_id d) (sid d) \<in> set (b_trace s)" using inv(5) answered(1) by simp
  have ident: "account_of e = account_of d" if "get_session (app_sessions (b_app s)) i = Some e" for e
    using opened_once [OF inv(4) d agrees_opened [OF inv(3) that]] by (simp add: account_of_def)
  note ans = agrees_answer [OF inv(1,3) answered(2) ident]
  have "bff_inv ((observe s a' (answer_events i res))\<lparr>b_asking := xs @ ys, b_ending := b_ending s\<rparr>)"
    by (rule bff_inv_observe [OF answered.prems refresh_finish_effect(3) [OF inv(1) answered(2)] ans(1) ans(2) [OF _ inv(4)]])
      (use answered(1) in auto)
  then show ?case by (simp add: observe_def)
next
  case (cancelled s xs x ys)
  then show ?case by (auto simp: bff_inv_def)
qed

section \<open>The handlers are runs of the machine\<close>

lemma install_session_previous:
  "install_session L a i d previous = (case previous of
     None \<Rightarrow> install_session L a i d None | Some p \<Rightarrow> snd (end_session L (install_session L a i d None) p))"
  by (simp add: install_session_def Let_def case_prod_beta split: option.split)

lemma callback_complete_previous:
  assumes "callback_complete L J a w pending r previous = (Inr started, a')"
  obtains x where "callback_complete L J a w pending r None = (Inr started, x)"
    "a' = (case previous of None \<Rightarrow> x | Some p \<Rightarrow> snd (end_session L x p))"
  using assms
  by (auto simp: callback_complete_def Let_def install_session_previous [of L _ _ _ previous]
      split: option.splits if_splits returned.splits sum.splits prod.splits)

lemma run_one: "bff_step L J s t \<Longrightarrow> (bff_step L J)\<^sup>*\<^sup>* s t"
  by (rule r_into_rtranclp)

lemma run_snoc: "(bff_step L J)\<^sup>*\<^sup>* s t \<Longrightarrow> bff_step L J t u \<Longrightarrow> (bff_step L J)\<^sup>*\<^sup>* s u"
  by (rule rtranclp.rtrancl_into_rtrancl)

text \<open>\<open>callback\<close> saves the session and then ends the browser's previous one.\<close>

theorem callback_is_run:
  assumes ok: "callback L J (b_app s) w h q = (Inr r, a')" and fresh: "cw_session_id w \<notin> opened_ids (b_trace s)"
  shows "\<exists>s'. (bff_step L J)\<^sup>*\<^sup>* s s' \<and> b_app s' = a' \<and> b_asking s' = b_asking s \<and> b_ending s' = b_ending s \<and>
    (\<exists>pending tokens it v jwks. Option.bind (extract_cookie L h (login_cookie L (app_config (b_app s)))) (from_cookie_value L) = Some pending \<and>
      token_request L (cw_answer w) = Inr tokens \<and> ts_id_token tokens = Some it \<and>
      verify_id_token L J (app_hydra (b_app s)) (app_jwks (b_app s)) (cw_keys_at w) (cw_keys_done w) (cw_fetched w) it
        (ts_access_token tokens) (pl_nonce pending) = (Inr v, jwks) \<and>
      Opened (cw_session_id w) (vid_user_id v) (vid_sid v) \<in> set (b_trace s'))"
proof -
  let ?a = "b_app s" and ?prev = "extract_cookie L h (session_cookie L (app_config (b_app s)))"
  let ?pending = "Option.bind (extract_cookie L h (login_cookie L (app_config ?a))) (from_cookie_value L)"
  from ok obtain started where cc: "callback_complete L J ?a w ?pending (returned_of q) ?prev = (Inr started, a')"
    by (auto simp: callback_def Let_def split: prod.splits sum.splits)
  from callback_complete_previous [OF cc] obtain x where x:
    "callback_complete L J ?a w ?pending (returned_of q) None = (Inr started, x)"
    "a' = (case ?prev of None \<Rightarrow> x | Some p \<Rightarrow> snd (end_session L x p))" .
  from callback_complete_ok [OF x(1)] obtain pending tokens it v jwks where c: "?pending = Some pending"
    "token_request L (cw_answer w) = Inr tokens" "ts_id_token tokens = Some it"
    "verify_id_token L J (app_hydra ?a) (app_jwks ?a) (cw_keys_at w) (cw_keys_done w) (cw_fetched w) it
       (ts_access_token tokens) (pl_nonce pending) = (Inr v, jwks)" "ss_session_id started = cw_session_id w"
    by (metis started_session.select_convs(1))
  note opens = bff_step.callback_opens [OF x(1) [unfolded c(1)] c(2-4) refl fresh [folded c(5)], where previous = ?prev]
  show ?thesis
  proof (cases ?prev)
    case None
    let ?t = "observe s x [Evicted (vid_user_id v) (lost (ss_session_id started # session_ids ?a) (app_sessions x)),
        Opened (ss_session_id started) (vid_user_id v) (vid_sid v)]\<lparr>b_ending := b_ending s @ []\<rparr>"
    have "(bff_step L J)\<^sup>*\<^sup>* s ?t" by (rule run_one) (use opens None in simp)
    with None x(2) c(1-4) show ?thesis by (intro exI [of _ ?t]) (auto simp: observe_def c(5))
  next
    case (Some p)
    let ?s1 = "observe s x [Evicted (vid_user_id v) (lost (ss_session_id started # session_ids ?a) (app_sessions x)),
        Opened (ss_session_id started) (vid_user_id v) (vid_sid v)]\<lparr>b_ending := b_ending s @ [EndOne p]\<rparr>"
    let ?t = "(observe ?s1 (snd (end_session L (b_app ?s1) p)) [Closed p])\<lparr>b_ending := b_ending s @ []\<rparr>"
    have "bff_step L J s ?s1" using opens Some by simp
    then have "(bff_step L J)\<^sup>*\<^sup>* s ?t" by (rule run_snoc [OF run_one bff_step.end_one]) simp
    with x(2) Some c(1-4) show ?thesis by (intro exI [of _ ?t]) (auto simp: observe_def c(5))
  qed
qed

text \<open>\<open>backchannel_logout\<close> remembers the \<open>jti\<close> and then ends the sessions.\<close>

theorem backchannel_is_run:
  assumes "backchannel_logout L J (b_app s) now ready later rec fetched token = (Inr status, a')"
  shows "\<exists>s' sel. (bff_step L J)\<^sup>*\<^sup>* s s' \<and> b_app s' = a' \<and> b_trace s' = ClosedAll sel # b_trace s"
proof -
  let ?a = "b_app s"
  from assms obtain u where "backchannel_service L J ?a now ready later rec fetched token = (Inr u, a')"
    by (auto simp: backchannel_logout_def split: prod.splits sum.splits)
  from backchannel_service_ok [OF this] obtain lc jwks where b:
    "verify_logout_token L J (app_hydra ?a) (app_jwks ?a) now ready later fetched token = (Inr lc, jwks)"
    "fst (record_jti (app_jtis ?a) rec (lc_jti lc) (lc_replay_until lc)) = Inr ()"
    "a' = end_sessions L (?a\<lparr>app_jwks := jwks, app_jtis := snd (record_jti (app_jtis ?a) rec (lc_jti lc) (lc_replay_until lc))\<rparr>)
       (lc_target lc)" .
  obtain jtis where j: "record_jti (app_jtis ?a) rec (lc_jti lc) (lc_replay_until lc) = (Inr (), jtis)"
    using b(2) by (metis prod.collapse)
  let ?s1 = "(observe s (?a\<lparr>app_jwks := jwks, app_jtis := jtis\<rparr>) [])\<lparr>b_ending := b_ending s @ [EndAll (lc_target lc)]\<rparr>"
  let ?t = "(observe ?s1 (end_sessions L (b_app ?s1) (lc_target lc)) [ClosedAll (lc_target lc)])\<lparr>b_ending := b_ending s @ []\<rparr>"
  have "bff_step L J s ?s1" by (rule bff_step.backchannel [OF b(1) j])
  then have "(bff_step L J)\<^sup>*\<^sup>* s ?t" by (rule run_snoc [OF run_one bff_step.end_all]) simp
  then show ?thesis by (intro exI [of _ ?t] exI [of _ "lc_target lc"] conjI) (simp_all add: observe_def b(3) j)
qed

text \<open>A proxied request that gets a token is a \<open>hand_out\<close>, or under the lock a \<open>recheck\<close>, or an \<open>ask\<close> and
  an \<open>answered\<close>, when what other requests do while it waits is a run of the machine too.\<close>

definition others_run :: "libs \<Rightarrow> jwt_libs \<Rightarrow> (app_state \<Rightarrow> app_state) \<Rightarrow> bool" where
  "others_run L J f \<longleftrightarrow> (\<forall>s. \<exists>s'. (bff_step L J)\<^sup>*\<^sup>* s s' \<and> b_app s' = f (b_app s) \<and> set (b_asking s) \<subseteq> set (b_asking s'))"

theorem authenticate_is_run:
  assumes ok: "authenticate L (b_app s) w upstream req = (Inr (sent, answer), a')"
    and others: "others_run L J (rw_waiting w)" "others_run L J (rw_asking w)"
  shows "\<exists>s' i token es. (bff_step L J)\<^sup>*\<^sup>* s s' \<and> b_app s' = a' \<and> b_trace s' = Forwarded i token # es \<and>
    extract_cookie L (req_headers req) (session_cookie L (app_config (b_app s))) = Some i \<and>
    sent = upstream_headers (req_headers req) token"
proof -
  from ok obtain i token where i: "extract_cookie L (req_headers req) (session_cookie L (app_config (b_app s))) = Some i"
    and tk: "resolve_bearer_token L (b_app s) w i = (Inr token, a')" "sent = upstream_headers (req_headers req) token"
    by (auto simp: authenticate_def Let_def split: if_splits option.splits prod.splits sum.splits)
  have "\<exists>s' es. (bff_step L J)\<^sup>*\<^sup>* s s' \<and> b_app s' = a' \<and> b_trace s' = Forwarded i token # es"
  proof (cases "resolve_unlocked (b_app s) i (rw_t1 w) (rw_t2 w)")
    case (Some r)
    with tk(1) have "resolve_unlocked (b_app s) i (rw_t1 w) (rw_t2 w) = Some (Inr token)" "a' = b_app s"
      by (auto simp: resolve_bearer_token_def)
    with run_one [OF bff_step.hand_out [OF this(1)]] show ?thesis
      by (intro exI [of _ "observe s (b_app s) [Forwarded i token]"] exI [of _ "b_trace s"] conjI) (simp_all add: observe_def)
  next
    case None
    from others(1) obtain s1 where s1: "(bff_step L J)\<^sup>*\<^sup>* s s1" "b_app s1 = rw_waiting w (b_app s)"
      by (auto simp: others_run_def)
    from None tk(1) have locked: "resolve_locked L (b_app s1) (rw_asking w) i (rw_t3 w) (rw_answer w) (rw_t4 w) (rw_t5 w) = (Inr token, a')"
      by (simp add: resolve_bearer_token_def s1(2))
    then obtain d where d: "get_session (app_sessions (b_app s1)) i = Some d" by (auto simp: resolve_locked_def split: option.splits)
    show ?thesis
    proof (cases "is_fresh (rw_t3 w) d")
      case True
      with locked d have "token = access_token d" "a' = b_app s1" by (auto simp: resolve_locked_def)
      with run_snoc [OF s1(1) bff_step.recheck [OF d True]] show ?thesis
        by (intro exI [of _ "observe s1 (b_app s1) [Forwarded i token]"] exI [of _ "b_trace s1"] conjI) (simp_all add: observe_def)
    next
      case False
      let ?s2 = "s1\<lparr>b_app := log_request (b_app s1) (refresh_request L (app_hydra (b_app s1)) (refresh_token d)),
        b_asking := b_asking s1 @ [(i, d)]\<rparr>"
      have s2: "(bff_step L J)\<^sup>*\<^sup>* s ?s2"
        by (rule run_snoc [OF s1(1) bff_step.ask [OF d False]])
      from others(2) obtain s3 where s3: "(bff_step L J)\<^sup>*\<^sup>* ?s2 s3" "b_app s3 = rw_asking w (b_app ?s2)"
        "set (b_asking ?s2) \<subseteq> set (b_asking s3)" unfolding others_run_def by blast
      then have "(i, d) \<in> set (b_asking s3)" by auto
      then obtain xs ys where split: "b_asking s3 = xs @ (i, d) # ys" by (meson split_list)
      from locked d False obtain new where fin:
        "refresh_finish L (b_app s3) i d (rw_answer w) (rw_t4 w) (rw_t5 w) = (Inr new, a')" "token = access_token new"
        by (auto simp: resolve_locked_def refresh_session_def s3(2) split: prod.splits sum.splits)
      from run_snoc [OF rtranclp_trans [OF s2 s3(1)] bff_step.answered [OF split fin(1)]]
      show ?thesis by (intro exI conjI, assumption) (simp_all add: observe_def answer_events_def fin(2))
    qed
  qed
  with i tk(2) show ?thesis by blast
qed

section \<open>The register the sessions refine\<close>

text \<open>The specification: ids and the account each was opened for. An id is new when it is opened, keeps
  its account as long as it is open, and once closed is never opened again.\<close>

type_synonym register = "(string \<rightharpoonup> account) \<times> string set"

inductive register_step :: "register \<Rightarrow> register \<Rightarrow> bool" where
  opens: "i \<notin> seen \<Longrightarrow> register_step (live, seen) (live(i \<mapsto> ac), insert i seen)"
| closes: "live' \<subseteq>\<^sub>m live \<Longrightarrow> register_step (live, seen) (live', seen)"

definition registered :: "bff_sys \<Rightarrow> register" where
  "registered s = ((\<lambda>i. map_option account_of (get_session (app_sessions (b_app s)) i)), opened_ids (b_trace s))"

lemma map_le_None: "m \<subseteq>\<^sub>m n \<Longrightarrow> n i = None \<Longrightarrow> m i = None"
  unfolding map_le_def by (metis domIff)

lemma register_gone:
  "register_step\<^sup>*\<^sup>* p q \<Longrightarrow> i \<in> snd p \<Longrightarrow> fst p i = None \<Longrightarrow> i \<in> snd q \<and> fst q i = None"
proof (induction rule: rtranclp_induct)
  case (step q r)
  from step.hyps(2) step.IH [OF step.prems] show ?case
    by (cases rule: register_step.cases) (auto dest: map_le_None)
qed simp

lemma event_registers:
  assumes "trace_ok (e # es)"
  shows "register_step (account_after es, opened_ids es) (account_after (e # es), opened_ids (e # es))"
proof (cases e)
  case (Opened i u s)
  with assms show ?thesis by (auto intro: register_step.opens)
next
  case (ClosedAll sel)
  have "(\<lambda>i. opt_filter P (m i)) \<subseteq>\<^sub>m m" for P and m :: "string \<rightharpoonup> account"
    unfolding map_le_def by (metis domD opt_filter_Some)
  with ClosedAll show ?thesis by (auto intro!: register_step.closes)
qed (auto intro!: register_step.closes simp: map_le_def dom_def split: if_splits)

lemma trace_registers:
  "trace_ok (new @ es) \<Longrightarrow> register_step\<^sup>*\<^sup>* (account_after es, opened_ids es) (account_after (new @ es), opened_ids (new @ es))"
proof (induction new)
  case (Cons e new)
  then have "trace_ok (new @ es)" using trace_ok_append [of "[e]"] by simp
  from Cons.IH [OF this] event_registers [of e "new @ es"] Cons.prems show ?case
    by (simp add: rtranclp.rtrancl_into_rtrancl)
qed simp

lemma registered_trace: "bff_inv s \<Longrightarrow> registered s = (account_after (b_trace s), opened_ids (b_trace s))"
  by (auto simp: registered_def fun_eq_iff dest: bff_invD(3) simp: agrees_def)

lemma trace_grows: "bff_step L J s s' \<Longrightarrow> \<exists>new. b_trace s' = new @ b_trace s"
  by (induction rule: bff_step.induct) (auto simp: observe_def)

lemma registered_step:
  assumes "bff_inv s" "bff_step L J s s'"
  shows "register_step\<^sup>*\<^sup>* (registered s) (registered s')"
proof -
  have inv: "bff_inv s'" by (rule bff_inv_step [OF assms])
  obtain new where new: "b_trace s' = new @ b_trace s" using trace_grows [OF assms(2)] by blast
  from trace_registers [of new "b_trace s"] bff_invD(4) [OF inv] show ?thesis
    unfolding registered_trace [OF assms(1)] registered_trace [OF inv] new by simp
qed

interpretation bff_machine: refined_machine "bff_step L J" "\<lambda>s. \<exists>a. app_start a \<and> s = bff_start a" bff_inv
    registered register_step for L J
  by unfold_locales (auto intro: bff_inv_start bff_inv_step registered_step)

lemma run_trace_grows: "(bff_step L J)\<^sup>*\<^sup>* s s' \<Longrightarrow> \<exists>new. b_trace s' = new @ b_trace s"
proof (induction rule: rtranclp_induct)
  case (step t u)
  then show ?case using trace_grows by fastforce
qed simp

lemma reached_inv: "app_start a \<Longrightarrow> (bff_step L J)\<^sup>*\<^sup>* (bff_start a) s \<Longrightarrow> bff_inv s"
  by (rule bff_machine.inv_reached) auto

text \<open>C4: Whatever requests bff gets and however they interleave, its session table refines a register
  of sessions: an id is opened once, by a login whose id_token was verified, for the account that token
  names; it belongs to that account as long as it is there; and once gone it never comes back. The table
  holds exactly the sessions the trace of logins, logouts, revocations, evictions and sweeps leaves
  open; a login displaces sessions of its own user only; and an access token is handed out for a session
  only at a moment when that session is open.\<close>

theorem sessions_refine_register:
  assumes "app_start a" "(bff_step L J)\<^sup>*\<^sup>* (bff_start a) s"
  shows "register_step\<^sup>*\<^sup>* (Map.empty, {}) (registered s) \<and>
    (\<forall>i. map_option account_of (get_session (app_sessions (b_app s)) i) = account_after (b_trace s) i) \<and>
    trace_ok (b_trace s)"
proof (intro conjI)
  have "registered (bff_start a) = (Map.empty, {})"
    using registered_trace [OF bff_inv_start [OF assms(1)]] by (simp add: bff_start_def)
  with bff_machine.refine_reached [OF _ assms(2)] assms(1) show "register_step\<^sup>*\<^sup>* (Map.empty, {}) (registered s)" by auto
qed (use bff_invD [OF reached_inv [OF assms]] in \<open>auto simp: agrees_def\<close>)

lemma closed_for_good:
  assumes "app_start a" "(bff_step L J)\<^sup>*\<^sup>* (bff_start a) s" "(bff_step L J)\<^sup>*\<^sup>* s s'"
    and "i \<in> opened_ids (b_trace s)" "account_after (b_trace s) i = None"
  shows "\<exists>new. b_trace s' = new @ b_trace s \<and> (\<forall>token. Forwarded i token \<notin> set new) \<and>
    get_session (app_sessions (b_app s')) i = None"
proof -
  have inv: "bff_inv s'" by (rule reached_inv [OF assms(1) rtranclp_trans [OF assms(2,3)]])
  obtain new where new: "b_trace s' = new @ b_trace s" using run_trace_grows [OF assms(3)] by blast
  have "account_after (b_trace s') i = None \<and> Forwarded i token \<notin> set new" for token
    unfolding new by (rule stays_closed [OF _ assms(4,5)]) (use bff_invD(4) [OF inv] new in simp)
  moreover from this have "get_session (app_sessions (b_app s')) i = None"
    using bff_invD(3) [OF inv] by (metis agrees_def option.map_disc_iff)
  ultimately show ?thesis using new by blast
qed

text \<open>C5: A session that was closed is closed for good: once the register no longer has it, however long
  bff runs and whatever requests were already under way, no access token is handed out for its id and
  its id is not in the table again.\<close>

theorem closed_session_gets_no_token:
  assumes "app_start a" "(bff_step L J)\<^sup>*\<^sup>* (bff_start a) s" "(bff_step L J)\<^sup>*\<^sup>* s s'"
    and "i \<in> opened_ids (b_trace s)" "account_after (b_trace s) i = None"
  shows "\<exists>new. b_trace s' = new @ b_trace s \<and> (\<forall>token. Forwarded i token \<notin> set new) \<and>
    get_session (app_sessions (b_app s')) i = None"
  using assms by (rule closed_for_good)

section \<open>A run\<close>

lemma refresh_finish_config: "refresh_finish L a i d answer now now' = (res, a') \<Longrightarrow> app_config a' = app_config a"
  by (auto simp: refresh_finish_def Let_def split: sum.splits hydra_error.splits prod.splits session_gone.splits)

lemma step_config: "bff_step L J s s' \<Longrightarrow> app_config (b_app s') = app_config (b_app s)"
proof (induction rule: bff_step.induct)
  case (callback_opens s w pending r started a' tokens it v jwks i previous)
  have "app_config a' = app_config (b_app s)"
    by (rule callback_complete_ok [OF callback_opens(1)]) simp
  then show ?case by (simp add: observe_def)
next
  case (callback_refused s w h q e a')
  then show ?case by (auto simp: observe_def callback_def Let_def dest: callback_complete_err split: prod.splits sum.splits)
next
  case (logout s h requested res a')
  then show ?case by (simp add: observe_def logout_effect [OF logout] end_session_eq split: option.split)
next
  case (backchannel_refused s now ready later rec fetched token e a')
  then show ?case by (auto simp: observe_def backchannel_service_def Let_def split: prod.splits sum.splits)
next
  case (internal s h u status a')
  then show ?case by (simp add: observe_def internal_revoke_effect [OF internal] end_sessions_eq)
next
  case (answered s xs i d ys answer now now' res a')
  then show ?case by (simp add: observe_def refresh_finish_config [OF answered(2)])
qed (simp_all add: observe_def end_session_eq end_sessions_eq expiry_sweep_def)

lemma run_config: "(bff_step L J)\<^sup>*\<^sup>* s s' \<Longrightarrow> app_config (b_app s') = app_config (b_app s)"
  by (induction rule: rtranclp_induct) (simp_all add: step_config)

lemma demo_app_start: "app_start (demo_app empty_sessions)"
  by (simp add: app_start_def demo_app_wf) (simp add: demo_app_def)

lemma demo_login_run:
  "\<exists>s. (bff_step codec_libs demo_jwt)\<^sup>*\<^sup>* (bff_start (demo_app empty_sessions)) s \<and>
     Opened ''new'' 65 None \<in> set (b_trace s) \<and> app_config (b_app s) = demo_config"
proof -
  let ?s = "bff_start (demo_app empty_sessions)"
  obtain r a' where cb: "callback codec_libs demo_jwt (b_app ?s) demo_world [(''cookie'', demo_cookies)] demo_query = (Inr r, a')"
    using demo_callback [of empty_sessions] by (auto simp: bff_start_def)
  have "cw_session_id demo_world \<notin> opened_ids (b_trace ?s)" by (simp add: bff_start_def)
  from callback_is_run [OF cb this] obtain s where s: "(bff_step codec_libs demo_jwt)\<^sup>*\<^sup>* ?s s"
    "Opened ''new'' 65 None \<in> set (b_trace s)"
    by (auto simp: bff_start_def demo_app_def demo_cookies_read demo_world_def demo_id_verified' demo_pending_def)
  have "app_config (b_app s) = demo_config"
    using run_config [OF s(1)] by (simp add: bff_start_def demo_app_def)
  with s show ?thesis by blast
qed

text \<open>A login, and then the user's sessions revoked through the internal listener.\<close>

definition demo_key_headers :: headers where
  "demo_key_headers = [(''authorization'', ''Bearer 0123456789abcdef'')]"

lemma demo_revoke:
  "app_config a = demo_config \<Longrightarrow> \<exists>a'. internal_revoke codec_libs a demo_key_headers (Inr u) = (Inr 204, a')"
proof -
  have "eq_ignore_ascii_case ''Bearer'' ''bearer''" by code_simp
  then have "bearer_token codec_libs demo_key_headers = Some ''0123456789abcdef''"
    by (simp add: bearer_token_def header_get_def codec_libs_def demo_key_headers_def)
  then show "app_config a = demo_config \<Longrightarrow> \<exists>a'. internal_revoke codec_libs a demo_key_headers (Inr u) = (Inr 204, a')"
    by (simp add: internal_revoke_def authorize_def demo_config_def default_config_def constant_time_eq_refl)
qed

lemma demo_closed_run:
  "\<exists>s. (bff_step codec_libs demo_jwt)\<^sup>*\<^sup>* (bff_start (demo_app empty_sessions)) s \<and> ''new'' \<in> opened_ids (b_trace s) \<and>
     account_after (b_trace s) ''new'' = None"
proof -
  obtain s where s: "(bff_step codec_libs demo_jwt)\<^sup>*\<^sup>* (bff_start (demo_app empty_sessions)) s"
    "Opened ''new'' 65 None \<in> set (b_trace s)" "app_config (b_app s) = demo_config"
    using demo_login_run by blast
  have ok: "trace_ok (b_trace s)" by (rule bff_invD(4) [OF reached_inv [OF demo_app_start s(1)]])
  then have u: "account_after (b_trace s) ''new'' = None \<or> account_after (b_trace s) ''new'' = Some (65, None)"
    using opened_once [OF ok s(2) account_after_opened] by (cases "account_after (b_trace s) ''new''") auto
  obtain a' where "internal_revoke codec_libs (b_app s) demo_key_headers (Inr 65) = (Inr 204, a')"
    using demo_revoke [OF s(3)] by blast
  from run_snoc [OF s(1) bff_step.internal [OF this]] s(2) u show ?thesis
    by (intro exI [of _ "observe s a' [ClosedAll (User 65)]"]) (auto simp: observe_def opened_ids_def)
qed

theorem sessions_refine_register_witness:
  "\<exists>s. (bff_step codec_libs demo_jwt)\<^sup>*\<^sup>* (bff_start (demo_app empty_sessions)) s \<and> ''new'' \<in> snd (registered s) \<and>
     register_step\<^sup>*\<^sup>* (Map.empty, {}) (registered s)"
proof -
  obtain s where s: "(bff_step codec_libs demo_jwt)\<^sup>*\<^sup>* (bff_start (demo_app empty_sessions)) s" "''new'' \<in> opened_ids (b_trace s)"
    using demo_login_run by (auto simp: opened_ids_def)
  with sessions_refine_register [OF demo_app_start s(1)] show ?thesis by (auto simp: registered_def)
qed

theorem closed_session_gets_no_token_witness:
  "\<exists>s. (bff_step codec_libs demo_jwt)\<^sup>*\<^sup>* (bff_start (demo_app empty_sessions)) s \<and> ''new'' \<in> opened_ids (b_trace s) \<and>
     get_session (app_sessions (b_app s)) ''new'' = None"
proof -
  obtain s where s: "(bff_step codec_libs demo_jwt)\<^sup>*\<^sup>* (bff_start (demo_app empty_sessions)) s"
    "''new'' \<in> opened_ids (b_trace s)" "account_after (b_trace s) ''new'' = None" using demo_closed_run by blast
  from closed_session_gets_no_token [OF demo_app_start s(1) rtranclp.rtrancl_refl s(2,3)] s(1,2) show ?thesis by blast
qed

end
