(* ===== verification/Lockout.thy ===== *)
theory Lockout
  imports Worlds BffRuns BffRouter Revocation
begin

text \<open>
  hooks and bff together: the revocation that a recovery or a password change asks for
  (\<open>hooks/src/server/api/revocation.rs\<close>), with bff's internal listener (\<open>bff/src/server/router.rs\<close>,
  \<open>internal_revoke.rs\<close>) as the upstream it calls, while bff serves its other requests. The world of
  hooks' calls is the running bff; Kratos and Hydra answer anything, and a request to bff or its answer
  may be lost.
\<close>

section \<open>A revocation is honest\<close>

lemma within_world: "snd (within H budget m s) = snd (m s)" "snd (kratos_within H budget n s) = snd (n s)"
  by (simp_all add: within_def kratos_within_def split: prod.split option.split)

lemma honest_within [honest_intros]:
  "honest N m \<Longrightarrow> honest N (within H budget m)" "honest N n \<Longrightarrow> honest N (kratos_within H budget n)"
  by (simp_all add: honest_def within_world)

lemma honest_failure_of [honest_intros]: "honest N m \<Longrightarrow> honest N (failure_of H m)"
  unfolding failure_of_def by (intro honest_intros)

lemma honest_rounds [honest_intros]: "honest N (revoke_rounds L H N s i keep n)"
proof (induction n)
  case 0
  show ?case unfolding revoke_rounds.simps by (rule honest_return)
next
  case (Suc n)
  then show ?case
    unfolding revoke_rounds.simps active_sessions_def revoke_kratos_session_def by (intro honest_intros)
qed

lemma honest_kratos_calls [honest_intros]:
  "honest N (get_identity L H N base i b)" "honest N (scramble_password L H N base i password)"
  "honest N (delete_oidc_link H N base i link)" "honest N (delete_credential L H N base i type)"
  "honest N (revoke_all_sessions H N base i)" "honest N (send_and_forget N what rq)"
  unfolding get_identity_def scramble_password_def delete_oidc_link_def delete_credential_def Let_def
    revoke_all_sessions_def send_and_forget_def
  by (intro honest_intros)+

lemma honest_revoke_account: "honest N (revoke_account L H N s rv p1 p2)"
  unfolding revoke_account_def revoke_in_kratos_def purge_step_def purge_credentials_def purge_password_def
    revoke_kratos_sessions_def revoke_consent_sessions_def revoke_login_sessions_def bff_revoke_def
  by (intro honest_intros) (auto intro: honest_intros)

section \<open>bff's internal listener\<close>

definition de_revoke_request :: "libs \<Rightarrow> json \<Rightarrow> uuid option" where
  "de_revoke_request L j = Option.bind (struct_fields [''sub''] j) (\<lambda>field. de_uuid L (field ''sub''))"

text \<open>axum's \<open>Json\<close>: 415 without a JSON body, 422 for one that is not a \<open>RevokeRequest\<close>.\<close>

definition revoke_body :: "libs \<Rightarrow> hook_request \<Rightarrow> nat + uuid" where
  "revoke_body L rq = (case hr_json rq of None \<Rightarrow> Inl 415 | Some j \<Rightarrow> ok_or (de_revoke_request L j) 422)"

definition status_answer :: "nat \<Rightarrow> http_answer" where
  "status_answer status = \<lparr>ha_status = status, ha_headers = [], ha_body = Inr []\<rparr>"

text \<open>The listener's answer to \<open>POST /internal/revoke\<close>, in the running bff.\<close>

definition serve_revoke :: "libs \<Rightarrow> hook_request \<Rightarrow> bff_sys \<Rightarrow> http_answer \<times> bff_sys" where
  "serve_revoke L rq s = (case internal_revoke L (b_app s) (hook_headers rq) (revoke_body L rq) of
     (Inl e, a) \<Rightarrow> (status_answer (er_status (revoke_error_response e)), observe s a [])
   | (Inr status, a) \<Rightarrow> (status_answer status, observe s a
       (case revoke_body L rq of Inr u \<Rightarrow> [ClosedAll (User u)] | Inl refused \<Rightarrow> [])))"

datatype delivery = Delivered | RequestLost | AnswerLost

text \<open>The world of hooks: a request to bff's listener reaches it when bff has done what it did meanwhile
  (\<open>others\<close>), any other request goes elsewhere (\<open>N0\<close>).\<close>

definition to_bff ::
    "libs \<Rightarrow> string \<Rightarrow> (hook_request \<Rightarrow> bff_sys \<Rightarrow> delivery) \<Rightarrow> (hook_request \<Rightarrow> bff_sys \<Rightarrow> bff_sys) \<Rightarrow> bff_sys net \<Rightarrow> bff_sys net" where
  "to_bff L base delivered others N0 rq s =
     (case strip_prefix base (hr_url rq) of
        None \<Rightarrow> N0 rq s
      | Some path \<Rightarrow>
          if internal_route (hr_method rq) path \<noteq> InternalRevoke then N0 rq s
          else (let s1 = others rq s; (answer, s2) = serve_revoke L rq s1
            in (case delivered rq s of
                 Delivered \<Rightarrow> (Some (Inr answer), s2)
               | RequestLost \<Rightarrow> (None, s1)
               | AnswerLost \<Rightarrow> (None, s2))))"

section \<open>Who is locked out\<close>

lemma serve_revoke_step:
  assumes "serve_revoke L rq s = (answer, s')"
  shows "(bff_step L J)\<^sup>*\<^sup>* s s'"
proof (cases "internal_revoke L (b_app s) (hook_headers rq) (revoke_body L rq)")
  case (Pair res a)
  have same: "observe s (b_app s) [] = s" by (simp add: observe_def)
  show ?thesis
  proof (cases res)
    case (Inl e)
    with Pair have "a = b_app s" by (auto simp: internal_revoke_def split: sum.splits)
    with Pair Inl assms same show ?thesis by (simp add: serve_revoke_def)
  next
    case (Inr status)
    show ?thesis
    proof (cases "revoke_body L rq")
      case (Inl refused)
      with Pair Inr have "a = b_app s" by (auto simp: internal_revoke_def split: sum.splits)
      with Pair Inr Inl assms same show ?thesis by (simp add: serve_revoke_def)
    next
      case (Inr u)
      with Pair \<open>res = Inr status\<close> have ir: "internal_revoke L (b_app s) (hook_headers rq) (Inr u) = (Inr status, a)" by simp
      with assms Inr have "s' = observe s a [ClosedAll (User u)]" by (auto simp: serve_revoke_def)
      with run_one [OF bff_step.internal [OF ir]] show ?thesis by simp
    qed
  qed
qed

lemma to_bff_moves:
  assumes "\<And>rq s. (bff_step L J)\<^sup>*\<^sup>* s (snd (N0 rq s))" "\<And>rq s. (bff_step L J)\<^sup>*\<^sup>* s (others rq s)"
  shows "(bff_step L J)\<^sup>*\<^sup>* s (snd (to_bff L base delivered others N0 rq s))"
proof -
  obtain answer s2 where sr: "serve_revoke L rq (others rq s) = (answer, s2)" by fastforce
  from rtranclp_trans [OF assms(2) serve_revoke_step [OF sr]] have "(bff_step L J)\<^sup>*\<^sup>* s s2" .
  with assms sr show ?thesis
    by (auto simp: to_bff_def Let_def split: option.split delivery.split)
qed

lemma serve_revoke_success:
  assumes "serve_revoke L rq s = (answer, s')" "is_success (ha_status answer)"
    and "revoke_body L rq = Inr u"
  shows "b_trace s' = ClosedAll (User u) # b_trace s"
  using assms by (auto simp: serve_revoke_def status_answer_def observe_def revoke_error_response_def is_success_def
      split: prod.splits sum.splits)

lemma revoke_request_body:
  "parse_uuid L (uuid_text H u) = Some u \<Longrightarrow> revoke_body L (bff_revoke_request H base key u) = Inr u"
  by (simp add: revoke_body_def bff_revoke_request_def de_revoke_request_def de_uuid_def de_string_def)

text \<open>A success of \<open>POST /internal/revoke\<close> in the log means that bff has closed the user's sessions.\<close>

lemma to_bff_success:
  assumes "fst (to_bff L base delivered others N0 (bff_revoke_request H base key u) s) = Some (Inr answer)"
    and "is_success (ha_status answer)" "parse_uuid L (uuid_text H u) = Some u"
  shows "\<exists>s1. s1 = others (bff_revoke_request H base key u) s \<and>
    b_trace (snd (to_bff L base delivered others N0 (bff_revoke_request H base key u) s)) = ClosedAll (User u) # b_trace s1"
proof -
  let ?rq = "bff_revoke_request H base key u"
  obtain ans s2 where sr: "serve_revoke L ?rq (others ?rq s) = (ans, s2)" by fastforce
  have "strip_prefix base (hr_url ?rq) = Some ''/internal/revoke''" "hr_method ?rq = ''POST''"
    by (simp_all add: bff_revoke_request_def strip_prefix_Some)
  then have at: "to_bff L base delivered others N0 ?rq s = (case delivered ?rq s of
      Delivered \<Rightarrow> (Some (Inr ans), s2) | RequestLost \<Rightarrow> (None, others ?rq s) | AnswerLost \<Rightarrow> (None, s2))"
    by (simp add: to_bff_def internal_route_def sr)
  with assms(1) have "ans = answer" "snd (to_bff L base delivered others N0 ?rq s) = s2"
    by (auto split: delivery.splits)
  with serve_revoke_success [OF sr _ revoke_request_body [OF assms(3)]] assms(2) show ?thesis by auto
qed

lemma user_closed:
  assumes "trace_ok es" "Opened i u x \<in> set es"
  shows "account_after (ClosedAll (User u) # es) i = None"
proof (cases "account_after es i")
  case (Some ac)
  then obtain v y where ac: "account_after es i = Some (v, y)" by (cases ac) auto
  from opened_once [OF assms account_after_opened [OF this]] ac show ?thesis by simp
qed simp

lemma revocation_closes:
  assumes start: "app_start a" "(bff_step L J)\<^sup>*\<^sup>* (bff_start a) (ns_world t)"
    and moves: "\<And>rq s. (bff_step L J)\<^sup>*\<^sup>* s (snd (N0 rq s))" "\<And>rq s. (bff_step L J)\<^sup>*\<^sup>* s (others rq s)"
    and uid: "parse_uuid L (uuid_text H (rv_identity rv)) = Some (rv_identity rv)"
    and ran: "revoke_account L H (to_bff L (hs_bff hs) delivered others N0) hs rv p1 p2 t = (Some (Inr u), t')"
    and old: "Opened i (rv_identity rv) x \<in> set (b_trace (ns_world t))"
  shows "(bff_step L J)\<^sup>*\<^sup>* (bff_start a) (ns_world t') \<and> i \<in> opened_ids (b_trace (ns_world t')) \<and>
    account_after (b_trace (ns_world t')) i = None"
proof -
  let ?N = "to_bff L (hs_bff hs) delivered others N0" and ?u = "rv_identity rv"
  let ?rq = "bff_revoke_request H (hs_bff hs) (hs_bff_key hs) ?u"
  note N = to_bff_moves [OF moves]
  from honest_revoke_account [of ?N L H hs rv p1 p2] ran obtain c
    where c: "ns_log t' = ns_log t @ c" "replays ?N (ns_world t) c (ns_world t')"
    unfolding honest_def by (metis snd_conv)
  from callsD [OF revoke_account_calls ran] obtain d where d: "ns_log t' = ns_log t @ d"
    "\<exists>c1 c2 c3 c4. d = (c1 @ c2 @ c3) @ c4 \<and> revocation_log L H hs rv p1 p2 (is_ok (Inr u)) c1 c2 c3 c4"
    by (elim exE conjE) simp
  from c(1) d(1) have cd: "d = c" by simp
  from d(2) obtain c1 c2 c3 c4 where c4: "c = (c1 @ c2 @ c3) @ c4"
    "revocation_log L H hs rv p1 p2 True c1 c2 c3 c4" unfolding cd by auto
  from c4(2) have "?rq \<in> fst ` set c4" "\<forall>rq\<in>set c4. answered c4 (fst rq) is_success"
    by (simp_all add: revocation_log_def)
  then have "answered c4 ?rq is_success" by auto
  then obtain answer where ans: "(?rq, Some (Inr answer)) \<in> set c" "is_success (ha_status answer)"
    by (auto simp: answered_def c4(1))
  from replays_call [OF c(2) ans(1)] obtain w1 d1 d2 where w: "replays ?N (ns_world t) d1 w1"
    "fst (?N ?rq w1) = Some (Inr answer)" "replays ?N (snd (?N ?rq w1)) d2 (ns_world t')" .
  let ?w2 = "snd (?N ?rq w1)" and ?s1 = "others ?rq w1"
  from to_bff_success [OF w(2) ans(2) uid] have closed: "b_trace ?w2 = ClosedAll (User ?u) # b_trace ?s1" by blast
  have r1: "(bff_step L J)\<^sup>*\<^sup>* (ns_world t) ?s1"
    using rtranclp_trans [OF replays_moves [OF N w(1)] moves(2)] .
  have r2: "(bff_step L J)\<^sup>*\<^sup>* (bff_start a) ?w2"
    using rtranclp_trans [OF start(2) rtranclp_trans [OF replays_moves [OF N w(1)] N]] .
  have r3: "(bff_step L J)\<^sup>*\<^sup>* ?w2 (ns_world t')" by (rule replays_moves [OF N w(3)])
  have ok: "trace_ok (b_trace ?s1)"
    using bff_invD(4) [OF reached_inv [OF start(1) rtranclp_trans [OF start(2) r1]]] .
  have op: "Opened i ?u x \<in> set (b_trace ?s1)" using run_trace_grows [OF r1] old by auto
  have "i \<in> opened_ids (b_trace ?w2)" using op unfolding closed by (auto simp: opened_ids_def)
  moreover have "account_after (b_trace ?w2) i = None" unfolding closed by (rule user_closed [OF ok op])
  moreover obtain new where new: "b_trace (ns_world t') = new @ b_trace ?w2" using run_trace_grows [OF r3] by blast
  moreover have "trace_ok (b_trace (ns_world t'))"
    by (rule bff_invD(4) [OF reached_inv [OF start(1) rtranclp_trans [OF r2 r3]]])
  ultimately have "account_after (b_trace (ns_world t')) i = None" "i \<in> opened_ids (b_trace (ns_world t'))"
    using stays_closed [of new "b_trace ?w2" i] by (auto simp: opened_ids_append)
  then show ?thesis using rtranclp_trans [OF r2 r3] by blast
qed

text \<open>C7: After a recovery or a password change that hooks reports as done to Kratos, nobody gets into the
  account on a session from before it: for no bff session of the user that was opened before the hook ran
  is an access token handed out ever again, whichever requests were under way while it ran, whatever
  Kratos and Hydra answered, and however often requests to bff or its answers were lost on the way.
  Nothing is assumed of bff's key: with a wrong one hooks would not report success.\<close>

theorem recovery_locks_out_old_sessions:
  assumes "app_start a" "(bff_step L J)\<^sup>*\<^sup>* (bff_start a) (ns_world t)"
    and "\<And>rq s. (bff_step L J)\<^sup>*\<^sup>* s (snd (N0 rq s))" "\<And>rq s. (bff_step L J)\<^sup>*\<^sup>* s (others rq s)"
    and "parse_uuid L (uuid_text H (rr_identity_id req)) = Some (rr_identity_id req)"
    and "handler \<in> {after_recovery, after_password_change}"
    and "handler L H (to_bff L (hs_bff hs) delivered others N0) hs req p1 p2 t = (Some (Ok body), t')"
    and "Opened i (rr_identity_id req) x \<in> set (b_trace (ns_world t))"
    and "(bff_step L J)\<^sup>*\<^sup>* (ns_world t') s"
  shows "\<exists>new. b_trace s = new @ b_trace (ns_world t') \<and> (\<forall>token. Forwarded i token \<notin> set new) \<and>
    get_session (app_sessions (b_app s)) i = None"
proof -
  obtain purge u where "revoke_account L H (to_bff L (hs_bff hs) delivered others N0) hs
      \<lparr>rv_identity = rr_identity_id req, rv_keep_session = rr_session_id req, rv_purge = purge\<rparr> p1 p2 t = (Some (Inr u), t')"
    using assms(6,7)
    by (auto simp: after_recovery_def after_password_change_def after_revocation_def io_bind_Some split: sum.splits)
      (metis old.unit.exhaust sum.exhaust)+
  from revocation_closes [OF assms(1-4) _ this] assms(5,8)
  have "(bff_step L J)\<^sup>*\<^sup>* (bff_start a) (ns_world t')" "i \<in> opened_ids (b_trace (ns_world t'))"
    "account_after (b_trace (ns_world t')) i = None" by simp_all
  from closed_for_good [OF assms(1) this(1) assms(9) this(2,3)] show ?thesis .
qed

text \<open>A login at bff, and then the password changed.\<close>

definition demo_lockout_libs :: hook_libs where
  "demo_lockout_libs = demo_hook_libs\<lparr>uuid_text := (\<lambda>u. ''A'')\<rparr>"

definition demo_lockout_hooks :: hooks_state where
  "demo_lockout_hooks = demo_hooks\<lparr>hs_bff_key := ''0123456789abcdef''\<rparr>"

definition demo_change :: revocation_request where
  "demo_change = \<lparr>rr_identity_id = 65, rr_session_id = None\<rparr>"

definition demo_elsewhere :: "bff_sys net" where
  "demo_elsewhere rq s = (Some (Inr (status_answer 204)), s)"

abbreviation demo_outside :: "bff_sys net" where
  "demo_outside \<equiv> to_bff codec_libs (hs_bff demo_lockout_hooks) (\<lambda>rq s. Delivered) (\<lambda>rq s. s) demo_elsewhere"

lemma demo_uuid: "parse_uuid codec_libs (uuid_text demo_lockout_libs 65) = Some 65"
  by (simp add: codec_libs_def demo_libs_def demo_lockout_libs_def byte_def)

lemma demo_user: "rr_identity_id demo_change = 65"
  by (simp add: demo_change_def)

lemma change_all_answered:
  assumes "rr_session_id req = None" "join_rank H = join_rank demo_hook_libs"
    "N (all_sessions_request H (hs_kratos hs) (rr_identity_id req)) s = (Some (Inr (status_answer 204)), s)"
    "\<And>w. N (consent_sessions_request H (hs_hydra hs) (rr_identity_id req)) w = (Some (Inr (status_answer 204)), w)"
    "\<And>w. N (login_sessions_request H (hs_hydra hs) (rr_identity_id req)) w = (Some (Inr (status_answer 204)), w)"
    "N (bff_revoke_request H (hs_bff hs) (hs_bff_key hs) (rr_identity_id req)) s = (Some (Inr (status_answer 204)), s')"
  shows "\<exists>t. after_password_change L H N hs req pw1 pw2 \<lparr>ns_world = s, ns_log = []\<rparr> = (Some (Inr (JObj [])), t)"
  using assms
  by (simp add: after_password_change_def after_revocation_def revoke_account_def Let_def io_bind_def
      kratos_within_def within_def revoke_in_kratos_def purge_step_def revoke_kratos_sessions_def
      revoke_all_sessions_def send_hook_def call_net_def classify_answer_def is_success_def status_answer_def
      ignore_not_found_def revoke_consent_sessions_def revoke_login_sessions_def bff_revoke_def send_and_forget_def
      io_try_def step_failure_def demo_join [OF refl])

lemma demo_change_done:
  assumes "app_config (b_app s) = demo_config"
  shows "\<exists>s'. after_password_change codec_libs demo_lockout_libs demo_outside demo_lockout_hooks demo_change [] []
    \<lparr>ns_world = s, ns_log = []\<rparr> = (Some (Inr (JObj [])), s')"
proof -
  obtain a' where r: "internal_revoke codec_libs (b_app s) demo_key_headers (Inr 65) = (Inr 204, a')"
    using demo_revoke [OF assms] by blast
  let ?rq = "bff_revoke_request demo_lockout_libs (hs_bff demo_lockout_hooks) (hs_bff_key demo_lockout_hooks) 65"
  have "hook_headers ?rq = demo_key_headers"
    by (simp add: hook_headers_def bff_revoke_request_def demo_key_headers_def demo_lockout_hooks_def)
  with r have "serve_revoke codec_libs ?rq s = (status_answer 204, observe s a' [ClosedAll (User 65)])"
    by (simp add: serve_revoke_def revoke_request_body [OF demo_uuid])
  moreover have "strip_prefix (hs_bff demo_lockout_hooks) (hr_url ?rq) = Some ''/internal/revoke''" "hr_method ?rq = ''POST''"
    by (simp_all add: bff_revoke_request_def strip_prefix_Some)
  ultimately have "demo_outside ?rq s = (Some (Inr (status_answer 204)), observe s a' [ClosedAll (User 65)])"
    by (simp add: to_bff_def internal_route_def)
  then have bff: "demo_outside ?rq s = (Some (Inr (status_answer 204)), observe s a' [ClosedAll (User 65)])"
    by simp
  have elsewhere: "demo_outside (hook_delete (c # u) q) w = (Some (Inr (status_answer 204)), w)" if "c \<noteq> CHR ''b''" for c u q w
    using that by (simp add: to_bff_def demo_elsewhere_def demo_lockout_hooks_def demo_hooks_def hook_delete_def)
  have "hs_kratos demo_lockout_hooks = ''k''" "hs_hydra demo_lockout_hooks = ''h''"
    by (simp_all add: demo_lockout_hooks_def demo_hooks_def)
  then show ?thesis
    using change_all_answered [where req = demo_change and N = demo_outside and H = demo_lockout_libs and
      hs = demo_lockout_hooks and s = s and L = codec_libs, OF _ _ _ _ _ bff [folded demo_user]]
    by (simp add: all_sessions_request_def identity_url_def consent_sessions_request_def login_sessions_request_def elsewhere
        demo_change_def demo_lockout_libs_def)
qed

theorem recovery_locks_out_old_sessions_witness:
  "\<exists>t t'. Opened ''new'' 65 None \<in> set (b_trace (ns_world t)) \<and>
     after_password_change codec_libs demo_lockout_libs demo_outside demo_lockout_hooks demo_change [] [] t =
       (Some (Inr (JObj [])), t') \<and>
     get_session (app_sessions (b_app (ns_world t'))) ''new'' = None"
proof -
  obtain s where s: "(bff_step codec_libs demo_jwt)\<^sup>*\<^sup>* (bff_start (demo_app empty_sessions)) s"
    "Opened ''new'' 65 None \<in> set (b_trace s)" "app_config (b_app s) = demo_config" using demo_login_run by blast
  let ?t = "\<lparr>ns_world = s, ns_log = []\<rparr>"
  obtain t' where run: "after_password_change codec_libs demo_lockout_libs demo_outside demo_lockout_hooks demo_change [] [] ?t =
      (Some (Inr (JObj [])), t')" using demo_change_done [OF s(3)] by blast
  have "rr_identity_id demo_change = 65" by (simp add: demo_change_def)
  note user = this demo_uuid
  from recovery_locks_out_old_sessions [where t = ?t and handler = after_password_change and i = "''new''" and x = None
      and s = "ns_world t'" and req = demo_change, OF demo_app_start _ _ _ _ _ run] s(1,2) user
  have "get_session (app_sessions (b_app (ns_world t'))) ''new'' = None" by (simp add: demo_elsewhere_def)
  with s(2) run show ?thesis by (intro exI [of _ ?t] exI [of _ t']) simp
qed

end
