(* ===== verification/Extractors.thy ===== *)
theory Extractors
  imports Web
begin

text \<open>
  The extractors of queries and forms (\<open>common/src/extract.rs\<close>) over decoded pairs, which are
  \<open>form_urlencoded\<close>'s to read.
\<close>

text \<open>A struct of texts read from pairs: a field twice is an error, unknown names are ignored.\<close>

definition pair_fields :: "string list \<Rightarrow> (string \<times> string) list \<Rightarrow> (string \<Rightarrow> string option) option" where
  "pair_fields names pairs =
     (if list_all (\<lambda>n. length (filter (\<lambda>(k, _). k = n) pairs) \<le> 1) names then Some (map_of pairs) else None)"

definition api_query ::
    "(string \<Rightarrow> (string \<times> string) list) \<Rightarrow> string list \<Rightarrow> string option \<Rightarrow> nat + (string \<Rightarrow> string option)" where
  "api_query parse names q = ok_or (pair_fields names (parse (case q of None \<Rightarrow> [] | Some q \<Rightarrow> q))) 400"

text \<open>A form: \<open>Inl\<close> the status of a body that is not one or cannot be read.\<close>

definition api_form ::
    "(string \<Rightarrow> (string \<times> string) list) \<Rightarrow> ((string \<Rightarrow> string option) \<Rightarrow> 'a option) \<Rightarrow> string list \<Rightarrow> nat + string \<Rightarrow> nat + 'a" where
  "api_form parse f names body = (case body of
     Inl status \<Rightarrow> Err status
   | Inr b \<Rightarrow> ok_or (Option.bind (pair_fields names (parse b)) f) 422)"

text \<open>A field is read as it was written, once: what two readers that take the first or the last of equal
  names would see differently is refused.\<close>

lemma pair_fields_unambiguous:
  assumes "pair_fields names pairs = Some f" "n \<in> set names"
  shows "f n = map_of pairs n" "f n = map_of (rev pairs) n"
proof -
  from assms have f: "f = map_of pairs" and l: "length (filter (\<lambda>(k, _). k = n) pairs) \<le> 1"
    by (auto simp: pair_fields_def list_all_iff split: if_splits)
  from f show "f n = map_of pairs n" by simp
  have get: "map_of ps n = map_option snd (List.find (\<lambda>p. fst p = n) ps)" for ps :: "(string \<times> string) list"
    by (induction ps) auto
  have find: "List.find P xs = (case filter P xs of [] \<Rightarrow> None | x # _ \<Rightarrow> Some x)" for P and xs :: "(string \<times> string) list"
    by (induction xs) auto
  have "length (filter (\<lambda>p. fst p = n) pairs) \<le> 1" using l by (simp add: case_prod_beta')
  then have "rev (filter (\<lambda>p. fst p = n) pairs) = filter (\<lambda>p. fst p = n) pairs"
    by (cases "filter (\<lambda>p. fst p = n) pairs") auto
  then show "f n = map_of (rev pairs) n" by (simp add: f get find rev_filter [symmetric])
qed

end
