(* ===== verification/BffServer.thy ===== *)
theory BffServer
  imports Lockout HooksServer Extractors
begin

text \<open>
  bff's two listeners as functions from a request to an answer and the new state: the routes of
  \<open>bff/src/server/router.rs\<close>, the rate limit, the extractors of \<open>common/src/extract.rs\<close>, the handlers, and
  the errors as they are sent. Other requests are not under way meanwhile where a theorem says so;
  \<open>BffRuns\<close> treats the interleavings. What governor, tower-http's CORS layer, axum's prefixes and the
  upstreams do is the record \<open>bff_layers\<close>.
\<close>

section \<open>Queries and forms\<close>

definition login_query :: "(string \<Rightarrow> string option) \<Rightarrow> string option" where
  "login_query f = f ''redirect_uri''"

definition callback_query_of :: "(string \<Rightarrow> string option) \<Rightarrow> callback_query" where
  "callback_query_of f = \<lparr>cq_code = f ''code'', cq_state = f ''state'', cq_error = f ''error''\<rparr>"

definition logout_query :: "(string \<Rightarrow> string option) \<Rightarrow> string option" where
  "logout_query f = f ''redirect_uri''"

definition logged_out_query :: "(string \<Rightarrow> string option) \<Rightarrow> string option" where
  "logged_out_query f = f ''state''"

definition logout_token_form :: "(string \<Rightarrow> string option) \<Rightarrow> string option" where
  "logout_token_form f = f ''logout_token''"

section \<open>Answers\<close>

datatype bff_body = Silent | JsonText json | PlainText string | Streamed

type_synonym served = "response \<times> bff_body"

definition json_served :: "nat \<times> json \<Rightarrow> served" where
  "json_served r = (\<lparr>rsp_status = fst r, rsp_headers = [(''content-type'', ''application/json'')]\<rparr>, JsonText (snd r))"

definition refusal :: "error_response \<Rightarrow> served" where
  "refusal e = json_served (error_body e)"

definition answer_of :: "('e \<Rightarrow> error_response) \<Rightarrow> 'e + response \<Rightarrow> served" where
  "answer_of f r = (case r of Inl e \<Rightarrow> refusal (f e) | Inr resp \<Rightarrow> (resp, Silent))"

definition bare :: "nat \<Rightarrow> served" where
  "bare status = (\<lparr>rsp_status = status, rsp_headers = []\<rparr>, Silent)"

definition method_refused :: "bool \<Rightarrow> served" where
  "method_refused is_get =
     (\<lparr>rsp_status = 405, rsp_headers = [(''allow'', if is_get then ''GET,HEAD'' else ''POST'')]\<rparr>, Silent)"

definition health :: served where
  "health = (\<lparr>rsp_status = 200, rsp_headers = [(''content-type'', ''text/plain; charset=utf-8'')]\<rparr>, PlainText ''ok'')"

section \<open>The public listener\<close>

text \<open>\<open>ly_admit\<close>: governor's answer to a request it does not let through, from the bucket and the key.\<close>

record bff_layers =
  ly_mounted :: "string list \<Rightarrow> string \<Rightarrow> (string \<times> string) option"
  ly_pairs :: "string \<Rightarrow> (string \<times> string) list"
  ly_admit :: "bff_bucket \<Rightarrow> governor_error + ip_addr \<Rightarrow> served option"
  ly_cors :: served
  ly_upstream :: "string \<Rightarrow> string \<Rightarrow> headers \<Rightarrow> response"

record public_request =
  pq_method :: string
  pq_path :: string
  pq_query :: "string option"
  pq_headers :: headers
  pq_peer :: "ip_addr option"

record public_world =
  pw_tokens :: "string \<times> string \<times> string"
  pw_callback :: callback_world
  pw_resolve :: resolve_world

definition limited ::
    "libs \<Rightarrow> bff_layers \<Rightarrow> public_request \<Rightarrow> bff_bucket \<Rightarrow> app_state \<Rightarrow> served \<times> app_state \<Rightarrow> served \<times> app_state" where
  "limited L Y rq b a run = (if b = NoBucket then run
     else (case ly_admit Y b (extract_key L (pq_peer rq) (pq_headers rq) (trusted_proxies (app_config a))) of
         Some r \<Rightarrow> (r, a) | None \<Rightarrow> run))"

definition with_query ::
    "bff_layers \<Rightarrow> public_request \<Rightarrow> app_state \<Rightarrow> string list \<Rightarrow> ((string \<Rightarrow> string option) \<Rightarrow> served \<times> app_state) \<Rightarrow>
      served \<times> app_state" where
  "with_query Y rq a names handler = (case api_query (ly_pairs Y) names (pq_query rq) of
     Inl status \<Rightarrow> (json_served (invalid_request status), a) | Inr f \<Rightarrow> handler f)"

definition run_endpoint ::
    "libs \<Rightarrow> jwt_libs \<Rightarrow> bff_layers \<Rightarrow> public_world \<Rightarrow> public_request \<Rightarrow> app_state \<Rightarrow> bff_endpoint \<Rightarrow> served \<times> app_state" where
  "run_endpoint L J Y w rq a e = (case e of
     StartLogin \<Rightarrow> with_query Y rq a [''redirect_uri''] (\<lambda>f.
       (answer_of login_error_response (start_login L a (pw_tokens w) (login_query f)), a))
   | Callback \<Rightarrow> with_query Y rq a [''code'', ''state'', ''error''] (\<lambda>f.
       (case callback L J a (pw_callback w) (pq_headers rq) (callback_query_of f) of
          (r, a') \<Rightarrow> (answer_of callback_error_response r, a')))
   | Logout \<Rightarrow> with_query Y rq a [''redirect_uri''] (\<lambda>f.
       (case logout L a (pq_headers rq) (logout_query f) of (r, a') \<Rightarrow> (answer_of logout_error_response r, a')))
   | LoggedOut \<Rightarrow> with_query Y rq a [''state''] (\<lambda>f.
       (answer_of logged_out_error_response (logged_out a (logged_out_query f)), a))
   | HealthOk \<Rightarrow> (health, a))"

definition serve_proxied ::
    "libs \<Rightarrow> public_world \<Rightarrow> public_request \<Rightarrow> app_state \<Rightarrow> (headers \<Rightarrow> response) \<Rightarrow> served \<times> app_state" where
  "serve_proxied L w rq a upstream =
     (case authenticate L a (pw_resolve w) upstream
         \<lparr>req_method = pq_method rq, req_path = pq_path rq, req_headers = pq_headers rq\<rparr> of
        (Inl e, a') \<Rightarrow> (refusal (proxy_error_response e), a')
      | (Inr (sent, r), a') \<Rightarrow> ((r, Streamed), a'))"

definition serve_public ::
    "libs \<Rightarrow> jwt_libs \<Rightarrow> bff_layers \<Rightarrow> public_world \<Rightarrow> public_request \<Rightarrow> app_state \<Rightarrow> served \<times> app_state" where
  "serve_public L J Y w rq a =
     (case public_route (ly_mounted Y) (app_config a) (pq_method rq) (pq_path rq) of
        OwnHandler b e \<Rightarrow> limited L Y rq b a (run_endpoint L J Y w rq a e)
      | OwnRefused \<Rightarrow> (case map_of own_routes (pq_path rq) of
            Some (is_get, e) \<Rightarrow> limited L Y rq (endpoint_bucket e) a (method_refused is_get, a)
          | None \<Rightarrow> (bare 404, a))
      | CorsAnswer \<Rightarrow> (ly_cors Y, a)
      | Proxied b up rest \<Rightarrow> limited L Y rq b a (serve_proxied L w rq a (ly_upstream Y up rest))
      | NothingThere b \<Rightarrow> limited L Y rq b a (bare 404, a))"

section \<open>The internal listener\<close>

record internal_request = public_request +
  iq_form :: "nat + string"
  iq_json :: "nat + json"

record internal_world =
  iw_now :: time
  iw_ready :: time
  iw_later :: time
  iw_rec :: time
  iw_fetched :: "jwks_error + keys"

definition serve_backchannel ::
    "libs \<Rightarrow> jwt_libs \<Rightarrow> bff_layers \<Rightarrow> internal_world \<Rightarrow> internal_request \<Rightarrow> app_state \<Rightarrow> served \<times> app_state" where
  "serve_backchannel L J Y w rq a = (case api_form (ly_pairs Y) logout_token_form [''logout_token''] (iq_form rq) of
     Inl status \<Rightarrow> (json_served (invalid_request status), a)
   | Inr token \<Rightarrow> (case backchannel_logout L J a (iw_now w) (iw_ready w) (iw_later w) (iw_rec w) (iw_fetched w) token of
         (Inl e, a') \<Rightarrow> (refusal (backchannel_error_response e), a')
       | (Inr status, a') \<Rightarrow> (bare status, a')))"

definition serve_internal_revoke :: "libs \<Rightarrow> internal_request \<Rightarrow> app_state \<Rightarrow> served \<times> app_state" where
  "serve_internal_revoke L rq a =
     (let body = api_json (de_revoke_request L) (iq_json rq)
      in (case internal_revoke L a (pq_headers rq) body of
          (Inl e, a') \<Rightarrow> (refusal (revoke_error_response e), a')
        | (Inr status, a') \<Rightarrow> ((case body of Inl _ \<Rightarrow> json_served (invalid_request status) | Inr _ \<Rightarrow> bare status), a')))"

definition serve_internal ::
    "libs \<Rightarrow> jwt_libs \<Rightarrow> bff_layers \<Rightarrow> internal_world \<Rightarrow> internal_request \<Rightarrow> app_state \<Rightarrow> served \<times> app_state" where
  "serve_internal L J Y w rq a =
     (case (case internal_route (pq_method rq) (pq_path rq) of
        BackchannelLogout \<Rightarrow> serve_backchannel L J Y w rq a
      | InternalRevoke \<Rightarrow> serve_internal_revoke L rq a
      | InternalRefused \<Rightarrow> (method_refused False, a)
      | InternalNothing \<Rightarrow> (bare 404, a)) of ((r, b), a') \<Rightarrow> ((internal_answer r, b), a'))"

section \<open>Which sessions a request touches\<close>

lemma resolve_alone:
  assumes "app_wf a" "rw_waiting w = id" "rw_asking w = id" "resolve_bearer_token L a w i = (res, a')" "j \<noteq> i"
  shows "get_session (app_sessions a') j = get_session (app_sessions a) j"
proof (cases "\<exists>d. resolve_unlocked a i (rw_t1 w) (rw_t2 w) = None \<and> get_session (app_sessions a) i = Some d \<and> \<not> is_fresh (rw_t3 w) d")
  case True
  then obtain d where d: "resolve_unlocked a i (rw_t1 w) (rw_t2 w) = None" "get_session (app_sessions a) i = Some d"
    "\<not> is_fresh (rw_t3 w) d" by blast
  let ?b = "log_request a (refresh_request L (app_hydra a) (refresh_token d))"
  obtain r x where fin: "refresh_finish L ?b i d (rw_answer w) (rw_t4 w) (rw_t5 w) = (r, x)" by fastforce
  with d assms(2-4) have "a' = x"
    by (auto simp: resolve_bearer_token_def resolve_locked_def refresh_session_def split: sum.splits)
  moreover have "app_wf ?b" using assms(1) by (simp add: app_wf_def)
  from refresh_finish_effect(1) [OF this fin] assms(5)
  have "get_session (app_sessions x) j = get_session (app_sessions a) j"
    by (auto split: sum.splits proxy_service_error.splits)
  ultimately show ?thesis by simp
next
  case False
  with assms(2-4) have "a' = a"
    by (auto simp: resolve_bearer_token_def resolve_locked_def split: option.splits if_splits)
  then show ?thesis by simp
qed

lemma authenticate_alone:
  assumes "app_wf a" "rw_waiting w = id" "rw_asking w = id" "authenticate L a w upstream req = (res, a')"
    and "get_session (app_sessions a') j \<noteq> get_session (app_sessions a) j"
  shows "extract_cookie L (req_headers req) (session_cookie L (app_config a)) = Some j"
    "req_method req \<notin> {''GET'', ''HEAD'', ''OPTIONS''} \<Longrightarrow>
       \<exists>origin. request_origin L (req_headers req) = Inr origin \<and> origin \<in> set (app_origins a)"
proof -
  have ne: "a' \<noteq> a" using assms(5) by auto
  with assms(4) obtain i r where i: "extract_cookie L (req_headers req) (session_cookie L (app_config a)) = Some i"
    "resolve_bearer_token L a w i = (r, a')"
    by (auto simp: authenticate_def Let_def split: if_splits option.splits prod.splits sum.splits)
  with resolve_alone [OF assms(1-3) i(2), of j] assms(5)
  show "extract_cookie L (req_headers req) (session_cookie L (app_config a)) = Some j" by (cases "j = i") simp_all
  show "req_method req \<notin> {''GET'', ''HEAD'', ''OPTIONS''} \<Longrightarrow>
       \<exists>origin. request_origin L (req_headers req) = Inr origin \<and> origin \<in> set (app_origins a)"
    using assms(4) ne by (auto simp: authenticate_def needs_trusted_origin_def require_trusted_origin_ok split: if_splits)
qed

lemma callback_alone:
  assumes wf: "app_wf a" and cb: "callback L J a w h q = (res, a')" and d: "get_session (app_sessions a) j = Some d"
    and ne: "get_session (app_sessions a') j \<noteq> Some d"
  shows "extract_cookie L h (session_cookie L (app_config a)) = Some j \<or>
    (\<exists>pending tokens it v jwks. Option.bind (extract_cookie L h (login_cookie L (app_config a))) (from_cookie_value L) = Some pending \<and>
      token_request L (cw_answer w) = Inr tokens \<and> ts_id_token tokens = Some it \<and>
      verify_id_token L J (app_hydra a) (app_jwks a) (cw_keys_at w) (cw_keys_done w) (cw_fetched w) it
        (ts_access_token tokens) (pl_nonce pending) = (Inr v, jwks) \<and> (j = cw_session_id w \<or> vid_user_id v = user_id d))"
proof (cases res)
  case (Inl e)
  with callback_refused_effect(1) cb d ne show ?thesis by metis
next
  case (Inr r)
  let ?prev = "extract_cookie L h (session_cookie L (app_config a))"
  let ?pending = "Option.bind (extract_cookie L h (login_cookie L (app_config a))) (from_cookie_value L)"
  from cb Inr obtain started where cc: "callback_complete L J a w ?pending (returned_of q) ?prev = (Inr started, a')"
    by (auto simp: callback_def Let_def split: prod.splits sum.splits)
  from callback_complete_previous [OF cc] obtain x where x:
    "callback_complete L J a w ?pending (returned_of q) None = (Inr started, x)"
    "a' = (case ?prev of None \<Rightarrow> x | Some p \<Rightarrow> snd (end_session L x p))" .
  from callback_complete_ok [OF x(1)] obtain pending tokens it v jwks where c: "?pending = Some pending"
    "token_request L (cw_answer w) = Inr tokens" "ts_id_token tokens = Some it"
    "verify_id_token L J (app_hydra a) (app_jwks a) (cw_keys_at w) (cw_keys_done w) (cw_fetched w) it
       (ts_access_token tokens) (pl_nonce pending) = (Inr v, jwks)" "ss_session_id started = cw_session_id w"
    by (metis started_session.select_convs(1))
  from callback_opens_effect [OF x(1) [unfolded c(1)] c(2-4)] obtain n where n:
    "app_sessions x = snd (save_session (app_sessions a) (cw_session_id w) n)" "user_id n = vid_user_id v" "app_wf x"
    using wf c(5) by metis
  show ?thesis
  proof (cases "?prev = Some j \<or> j = cw_session_id w \<or> vid_user_id v = user_id d")
    case True
    with c(1-4) show ?thesis by blast
  next
    case False
    have ws: "sessions_wf (app_sessions a)" "sessions_wf (app_sessions x)" using wf n(3) by (simp_all add: app_wf_def)
    have "get_session (app_sessions x) j = Some d"
      unfolding n(1) using mem.save_other [OF ws(1) _ d, of "cw_session_id w" n] False n(2) by auto
    then have "get_session (app_sessions a') j = Some d"
      using False by (auto simp: x(2) end_session_eq mem.tak_snd [OF ws(2)] split: option.split)
    with ne show ?thesis by simp
  qed
qed

lemma logout_alone:
  assumes wf: "app_wf a" and lo: "logout L a h requested = (res, a')"
    and ne: "get_session (app_sessions a') j \<noteq> get_session (app_sessions a) j"
  shows "extract_cookie L h (session_cookie L (app_config a)) = Some j"
    "\<exists>origin. request_origin L h = Inr origin \<and> origin \<in> set (app_origins a)"
proof -
  have ws: "sessions_wf (app_sessions a)" using wf by (simp add: app_wf_def)
  from ne logout_effect [OF lo] have "is_ok res" by (cases "is_ok res") simp_all
  with lo show "\<exists>origin. request_origin L h = Inr origin \<and> origin \<in> set (app_origins a)"
    by (auto simp: logout_def require_trusted_origin_ok split: sum.splits)
  from ne logout_effect [OF lo] show "extract_cookie L h (session_cookie L (app_config a)) = Some j"
    by (auto simp: end_session_eq mem.tak_snd [OF ws] split: if_splits option.splits)
qed

lemma public_route_own:
  assumes "public_route mounted c m p = OwnHandler b e"
  shows "\<exists>is_get. map_of own_routes p = Some (is_get, e) \<and> method_ok is_get m"
proof -
  have "proxy_route mounted c m p \<noteq> OwnHandler b e" by (simp add: proxy_route_def split: option.split prod.split)
  with assms show ?thesis by (auto simp: public_route_def split: option.splits prod.splits if_splits)
qed

lemma public_route_proxied:
  assumes "public_route mounted c m p = Proxied b up rest" shows "m \<noteq> ''OPTIONS''"
proof
  assume "m = ''OPTIONS''"
  then have "proxy_route mounted c m p = CorsAnswer" by (simp add: proxy_route_def)
  with assms show False by (auto simp: public_route_def split: option.splits prod.splits if_splits)
qed

text \<open>C6: A request to the public listener can change or end no session but its own: the one whose id its
  cookie carries, or, when it finishes a login with a verified id_token, a session of the very user who
  logged in, which the new one displaced. And a request whose method is neither \<open>GET\<close> nor \<open>HEAD\<close> changes
  none at all unless it comes from a trusted origin.\<close>

theorem request_touches_own_session:
  assumes "app_wf a" "rw_waiting (pw_resolve w) = id" "rw_asking (pw_resolve w) = id"
    and "serve_public L J Y w rq a = (answer, a')" "get_session (app_sessions a) j = Some d"
    and "get_session (app_sessions a') j \<noteq> Some d"
  shows "(extract_cookie L (pq_headers rq) (session_cookie L (app_config a)) = Some j \<or>
      pq_path rq = ''/callback'' \<and>
      (\<exists>pending tokens it v jwks.
        Option.bind (extract_cookie L (pq_headers rq) (login_cookie L (app_config a))) (from_cookie_value L) = Some pending \<and>
        token_request L (cw_answer (pw_callback w)) = Ok tokens \<and> ts_id_token tokens = Some it \<and>
        verify_id_token L J (app_hydra a) (app_jwks a) (cw_keys_at (pw_callback w)) (cw_keys_done (pw_callback w))
          (cw_fetched (pw_callback w)) it (ts_access_token tokens) (pl_nonce pending) = (Ok v, jwks) \<and>
        (j = cw_session_id (pw_callback w) \<or> vid_user_id v = user_id d))) \<and>
    (pq_method rq \<notin> {''GET'', ''HEAD''} \<longrightarrow>
      (\<exists>origin. request_origin L (pq_headers rq) = Ok origin \<and> origin \<in> set (app_origins a)))"
proof -
  have ne: "get_session (app_sessions a') j \<noteq> get_session (app_sessions a) j" "a' \<noteq> a" using assms(5,6) by auto
  consider (own) b e where "public_route (ly_mounted Y) (app_config a) (pq_method rq) (pq_path rq) = OwnHandler b e"
      "run_endpoint L J Y w rq a e = (answer, a')"
    | (proxied) b up rest where "public_route (ly_mounted Y) (app_config a) (pq_method rq) (pq_path rq) = Proxied b up rest"
      "serve_proxied L w rq a (ly_upstream Y up rest) = (answer, a')"
    using assms(4) ne(2) by (auto simp: serve_public_def limited_def split: bff_routed.splits if_splits option.splits prod.splits)
  then show ?thesis
  proof cases
    case own
    note route = public_route_own [OF own(1)]
    show ?thesis
    proof (cases e)
      case Callback
      with own(2) ne(2) obtain f r where "callback L J a (pw_callback w) (pq_headers rq) (callback_query_of f) = (r, a')"
        by (auto simp: run_endpoint_def with_query_def split: sum.splits prod.splits)
      from callback_alone [OF assms(1) this assms(5,6)] route Callback show ?thesis
        by (auto simp: own_routes_def method_ok_def split: if_splits)
    next
      case Logout
      with own(2) ne(2) obtain f r where "logout L a (pq_headers rq) (logout_query f) = (r, a')"
        by (auto simp: run_endpoint_def with_query_def split: sum.splits prod.splits)
      from logout_alone [OF assms(1) this ne(1)] show ?thesis by blast
    qed (use own(2) ne(2) in \<open>auto simp: run_endpoint_def with_query_def split: sum.splits\<close>)
  next
    case proxied
    then obtain res where au: "authenticate L a (pw_resolve w) (ly_upstream Y up rest)
        \<lparr>req_method = pq_method rq, req_path = pq_path rq, req_headers = pq_headers rq\<rparr> = (res, a')"
      by (auto simp: serve_proxied_def split: prod.splits sum.splits)
    have safe: "pq_method rq \<noteq> ''OPTIONS''" by (rule public_route_proxied [OF proxied(1)])
    have own: "extract_cookie L (pq_headers rq) (session_cookie L (app_config a)) = Some j"
      using authenticate_alone(1) [OF assms(1-3) au ne(1)] by (simp only: request.simps)
    have origin: "\<exists>origin. request_origin L (pq_headers rq) = Inr origin \<and> origin \<in> set (app_origins a)"
      if "pq_method rq \<notin> {''GET'', ''HEAD''}"
      using authenticate_alone(2) [OF assms(1-3) au ne(1)] safe that
      by (simp only: request.simps insert_iff empty_iff simp_thms)
    show ?thesis by (intro conjI disjI1 impI own origin)
  qed
qed

text \<open>The browser of the demo session logs out.\<close>

definition demo_layers :: bff_layers where
  "demo_layers = \<lparr>ly_mounted = (\<lambda>ps p. None), ly_pairs = (\<lambda>q. []), ly_admit = (\<lambda>b k. None), ly_cors = bare 200,
     ly_upstream = (\<lambda>up rest h. \<lparr>rsp_status = 200, rsp_headers = []\<rparr>)\<rparr>"

definition demo_logout :: public_request where
  "demo_logout = \<lparr>pq_method = ''POST'', pq_path = ''/logout'', pq_query = None,
     pq_headers = [(''origin'', ''https://app.test''), (''cookie'', ''__Host-wa_session=a'')], pq_peer = None\<rparr>"

definition demo_outside_world :: public_world where
  "demo_outside_world = \<lparr>pw_tokens = (''s'', ''v'', ''n''), pw_callback = demo_world, pw_resolve = demo_resolve\<rparr>"

theorem request_touches_own_session_witness:
  "\<exists>answer a'. serve_public demo_libs demo_jwt demo_layers demo_outside_world demo_logout (demo_app demo_sessions) = (answer, a') \<and>
     get_session (app_sessions a') ''a'' = None \<and>
     extract_cookie demo_libs (pq_headers demo_logout) (session_cookie demo_libs demo_config) = Some ''a''"
proof -
  let ?a = "demo_app demo_sessions" and ?h = "pq_headers demo_logout"
  have h: "?h = [(''origin'', ''https://app.test''), (''cookie'', ''__Host-wa_session=a'')]" by (simp add: demo_logout_def)
  have "request_origin demo_libs ?h = Inr ''https://app.test''"
    by (simp add: h request_origin_def header_get_def demo_libs_def ascii_str_def byte_def)
  then have tr: "require_trusted_origin demo_libs ?h (app_origins ?a) = Inr ()"
    by (simp add: require_trusted_origin_ok demo_app_def)
  obtain r a' where l: "logout demo_libs ?a ?h None = (Inr r, a')" by (simp add: logout_def tr Let_def case_prod_beta)
  have f: "api_query (ly_pairs demo_layers) [''redirect_uri''] (pq_query demo_logout) = Inr Map.empty"
    by (simp add: api_query_def pair_fields_def demo_layers_def demo_logout_def)
  have admitted: "limited L demo_layers rq b a run = run" for L rq b a run by (simp add: limited_def demo_layers_def)
  have "public_route (ly_mounted demo_layers) (app_config ?a) (pq_method demo_logout) (pq_path demo_logout) =
      OwnHandler AuthBucket Logout"
    by (simp add: public_route_def own_routes_def demo_logout_def method_ok_def endpoint_bucket_def)
  then have s: "serve_public demo_libs demo_jwt demo_layers demo_outside_world demo_logout ?a =
      (answer_of logout_error_response (Inr r), a')"
    by (simp add: serve_public_def admitted run_endpoint_def with_query_def f logout_query_def l)
  have "is_ok (Inr r)" by simp
  moreover have c: "extract_cookie demo_libs ?h (session_cookie demo_libs (app_config ?a)) = Some ''a''"
  proof -
    have "session_cookie demo_libs demo_config = ''__Host-wa_session''"
      by (simp add: session_cookie_def cookie_name_def secure_cookies_def demo_libs_def demo_config_def
          default_config_def HOST_COOKIE_PREFIX_def has_prefix_def get_to_def char_boundary_def
          eq_ignore_ascii_case_def to_ascii_lowercase_def ascii_lower_def byte_def)
    then show ?thesis
      by (simp add: demo_app_def h extract_cookie_def header_get_def demo_libs_def ascii_str_def byte_def cookie_pair_def
          trim_def ws1_def ws2_def ws3_def map_filter_simps)
  qed
  moreover have "sessions_wf (app_sessions ?a)" by (simp add: demo_app_def demo_sessions_wf)
  ultimately have gone: "get_session (app_sessions a') ''a'' = None"
    using logout_effect [OF l] by (simp add: end_session_eq mem.tak_snd)
  have there: "get_session (app_sessions ?a) ''a'' = Some (demo_data 1 ''rt'' 0)"
    by (simp add: demo_app_def demo_session_there)
  have "rw_waiting (pw_resolve demo_outside_world) = id" "rw_asking (pw_resolve demo_outside_world) = id"
    by (simp_all add: demo_outside_world_def demo_resolve_def)
  from request_touches_own_session [OF demo_app_wf [OF demo_sessions_wf] this s there] gone s show ?thesis
    by (auto simp: demo_app_def demo_logout_def)
qed

text \<open>Nothing behind the internal listener happens without the caller's proof: a session changes only for a
  request that carries the API key, or a logout token that was verified and had not been used.\<close>

theorem internal_request_proves_itself:
  assumes "serve_internal L J Y w rq a = (answer, a')" "app_sessions a' \<noteq> app_sessions a"
  shows "(pq_path rq = ''/internal/revoke'' \<and> authorize L (bearer_token L (pq_headers rq)) (internal_api_key (app_config a)) = Ok ()) \<or>
    (pq_path rq = ''/backchannel-logout'' \<and>
      (\<exists>token lc jwks. api_form (ly_pairs Y) logout_token_form [''logout_token''] (iq_form rq) = Ok token \<and>
        verify_logout_token L J (app_hydra a) (app_jwks a) (iw_now w) (iw_ready w) (iw_later w) (iw_fetched w) token = (Ok lc, jwks) \<and>
        fst (record_jti (app_jtis a) (iw_rec w) (lc_jti lc) (lc_replay_until lc)) = Ok ()))"
proof -
  consider (bc) "pq_path rq = ''/backchannel-logout''" "\<exists>r. serve_backchannel L J Y w rq a = (r, a')"
    | (rv) "pq_path rq = ''/internal/revoke''" "\<exists>r. serve_internal_revoke L rq a = (r, a')"
    using assms by (auto simp: serve_internal_def internal_route_def split: if_splits prod.splits)
  then show ?thesis
  proof cases
    case bc
    with assms(2) obtain token res where t: "api_form (ly_pairs Y) logout_token_form [''logout_token''] (iq_form rq) = Inr token"
      "backchannel_logout L J a (iw_now w) (iw_ready w) (iw_later w) (iw_rec w) (iw_fetched w) token = (res, a')"
      by (auto simp: serve_backchannel_def split: sum.splits prod.splits)
    from t(2) assms(2) obtain u where
      ok: "backchannel_service L J a (iw_now w) (iw_ready w) (iw_later w) (iw_rec w) (iw_fetched w) token = (Inr u, a')"
      by (auto simp: backchannel_logout_def backchannel_service_def Let_def split: prod.splits sum.splits)
    from backchannel_service_ok [OF ok] bc(1) t(1) show ?thesis by metis
  next
    case rv
    with assms(2) show ?thesis
      by (auto simp: serve_internal_revoke_def internal_revoke_def Let_def split: sum.splits)
  qed
qed

end
