(* ===== verification/LoginServer.thy ===== *)
theory LoginServer
  imports Extractors Pages Challenges LoginProxy
begin

text \<open>
  login's listener as a function from a request to its answer and the new state: the routes of
  \<open>login/src/lib.rs\<close>, the rate limit, the queries, the handlers. What governor answers to a request it
  stops, what \<open>ServeDir\<close> serves and the text of the browser script are the record \<open>login_layers\<close>.
\<close>

section \<open>Queries\<close>

definition page_query_read :: "login_libs \<Rightarrow> string option \<Rightarrow> page_query option" where
  "page_query_read M q = (case api_query (form_parse M)
       [''flow'', ''login_challenge'', ''return_to'', ''redirect_uri'', ''id''] q of
     Inl status \<Rightarrow> None
   | Inr f \<Rightarrow> Some \<lparr>pq_flow = f ''flow'', pq_login_challenge = f ''login_challenge'', pq_return_to = f ''return_to'',
       pq_redirect_uri = f ''redirect_uri'', pq_id = f ''id''\<rparr>)"

definition challenge_query_read :: "login_libs \<Rightarrow> string option \<Rightarrow> challenge_query option" where
  "challenge_query_read M q = (case api_query (form_parse M) [''logout_challenge'', ''consent_challenge''] q of
     Inl status \<Rightarrow> None
   | Inr f \<Rightarrow> Some \<lparr>logout_challenge = f ''logout_challenge'', consent_challenge = f ''consent_challenge''\<rparr>)"

section \<open>The listener\<close>

definition MAX_BODY_BYTES :: nat where "MAX_BODY_BYTES = 256 * 1024"

definition PROVIDER_LOGO_CSP :: string where
  "PROVIDER_LOGO_CSP = ''default-src '' @ [CHR 0x27] @ ''none'' @ [CHR 0x27] @ ''; style-src '' @ [CHR 0x27] @
     ''unsafe-inline'' @ [CHR 0x27] @ ''; sandbox''"

definition PROVIDER_LOGO_CACHE_CONTROL :: string where
  "PROVIDER_LOGO_CACHE_CONTROL = ''public, max-age=86400''"

record login_layers =
  ll_admit :: "login_bucket \<Rightarrow> governor_error + ip_addr \<Rightarrow> body_response option"
  ll_static :: "string \<Rightarrow> body_response"
  ll_providers :: "string \<Rightarrow> body_response"
  ll_script :: string

record login_world = proxy_world +
  lw_hydra :: "http_request \<Rightarrow> http_sent"
  lw_f32 :: "string \<Rightarrow> f32 option"
  lw_reads :: "json \<Rightarrow> bool"
  lw_catalog :: catalog

definition ui_js :: "string \<Rightarrow> body_response" where
  "ui_js script = \<lparr>rsp_status = 200, rsp_headers = [(''content-type'', ''text/javascript; charset=utf-8''),
     (''cache-control'', ''no-cache''), (''x-content-type-options'', ''nosniff'')], rsp_body = script\<rparr>"

definition static_answer :: "body_response \<Rightarrow> body_response" where
  "static_answer r = r\<lparr>rsp_headers := header_insert (header_insert (rsp_headers r) ''x-content-type-options'' ''nosniff'')
     ''cache-control'' ''no-cache''\<rparr>"

definition provider_answer :: "body_response \<Rightarrow> body_response" where
  "provider_answer r =
     (let h = header_insert (header_insert (rsp_headers r) ''content-security-policy'' PROVIDER_LOGO_CSP)
            ''x-content-type-options'' ''nosniff''
      in r\<lparr>rsp_headers := (if \<not> header_contains h ''cache-control'' \<and> is_success (rsp_status r)
           then header_append h ''cache-control'' PROVIDER_LOGO_CACHE_CONTROL else h)\<rparr>)"

definition too_large :: body_response where
  "too_large = text_response 413 ''Failed to buffer the request body: length limit exceeded''"

text \<open>The handlers of the five flow pages.\<close>

definition flow_handler ::
    "libs \<Rightarrow> login_libs \<Rightarrow> login_world \<Rightarrow> login_state \<Rightarrow> proxy_request \<Rightarrow> flow_kind \<Rightarrow> body_response" where
  "flow_handler L M w st rq kind = flow_page L M (lw_f32 w) (lw_reads w) (pw_nonce w) st (lw_catalog w) (pw_kratos w) kind
     (pr_headers rq) (page_query_read M (pr_query rq))"

definition run_login_handler ::
    "libs \<Rightarrow> login_libs \<Rightarrow> login_layers \<Rightarrow> login_world \<Rightarrow> login_state \<Rightarrow> proxy_request \<Rightarrow> login_handler
      \<Rightarrow> body_response \<times> login_state" where
  "run_login_handler L M Y w st rq handler = (case handler of
     FlowPage kind \<Rightarrow> (flow_handler L M w st rq kind, st)
   | ErrorPage \<Rightarrow> (kratos_error_page L M (pw_nonce w) st (pw_kratos w) (page_query_read M (pr_query rq)), st)
   | LogoutPage \<Rightarrow> (fst (login_logout L M (pw_nonce w) st (pw_kratos w) (lw_hydra w) (pr_headers rq)
       (challenge_query_read M (pr_query rq))), st)
   | ConsentPage \<Rightarrow> (fst (consent L M (pw_nonce w) st (lw_hydra w) (challenge_query_read M (pr_query rq))), st)
   | ToKratos \<Rightarrow> if MAX_BODY_BYTES < length (pr_body rq) then (too_large, st)
       else (case login_proxy L M (proxy_world.truncate w) st rq of (r, sent, st') \<Rightarrow> (r, st'))
   | Health \<Rightarrow> (text_response 200 ''ok'', st)
   | UiScript \<Rightarrow> (ui_js (ll_script Y), st)
   | StaticFiles \<Rightarrow> (static_answer (ll_static Y (pr_path rq)), st)
   | ProviderLogos \<Rightarrow> (provider_answer (ll_providers Y (pr_path rq)), st))"

definition login_limited ::
    "libs \<Rightarrow> login_layers \<Rightarrow> login_state \<Rightarrow> proxy_request \<Rightarrow> login_bucket \<Rightarrow> body_response \<times> login_state
      \<Rightarrow> body_response \<times> login_state" where
  "login_limited L Y st rq b run = (if b = Uncounted then run
     else (case ll_admit Y b (extract_key L (pr_peer rq) (pr_headers rq) (lg_trusted_proxies (ls_config st))) of
         Some r \<Rightarrow> (r, st) | None \<Rightarrow> run))"

text \<open>A method a route does not have is refused behind the route's bucket; where two are merged, the latter's.\<close>

definition refused_bucket :: "string \<Rightarrow> login_bucket" where
  "refused_bucket path =
     (if map_of login_pages path \<noteq> None then General
      else if under ''/self-service/'' path then Submit
      else if under ''/.well-known/ory/'' path then General else Uncounted)"

definition method_not_allowed :: "string \<Rightarrow> body_response" where
  "method_not_allowed path = \<lparr>rsp_status = 405,
     rsp_headers = [(''allow'', if under ''/self-service/'' path then ''GET,HEAD,POST'' else ''GET,HEAD'')], rsp_body = []\<rparr>"

definition serve_login ::
    "libs \<Rightarrow> login_libs \<Rightarrow> login_layers \<Rightarrow> login_world \<Rightarrow> login_state \<Rightarrow> proxy_request \<Rightarrow> body_response \<times> login_state" where
  "serve_login L M Y w st rq = (case login_route (pr_method rq) (pr_path rq) of
     Handled b handler \<Rightarrow> login_limited L Y st rq b (run_login_handler L M Y w st rq handler)
   | MethodNotAllowed \<Rightarrow>
       login_limited L Y st rq (refused_bucket (pr_path rq)) (method_not_allowed (pr_path rq), st)
   | NoRoute \<Rightarrow> (status_only 404, st))"

section \<open>Every page is guarded\<close>

text \<open>An answer a browser would render carries a policy under which no script runs but the page's own, is
  not sniffed for another type, and says whether it may be stored.\<close>

definition guarded :: "body_response \<Rightarrow> bool" where
  "guarded r \<longleftrightarrow> (\<forall>v \<in> set (header_get_all (rsp_headers r) ''content-type''). starts_with v ''text/html'' \<longrightarrow>
     (\<exists>policy. header_get_all (rsp_headers r) ''content-security-policy'' = [policy] \<and>
        starts_with policy (''default-src '' @ [CHR 0x27] @ ''none'' @ [CHR 0x27])) \<and>
     header_get_all (rsp_headers r) ''x-content-type-options'' = [''nosniff''] \<and>
     (is_success (rsp_status r) \<longrightarrow> header_contains (rsp_headers r) ''cache-control''))"

lemma guarded_if_plain:
  "(\<And>v. v \<in> set (header_get_all (rsp_headers r) ''content-type'') \<Longrightarrow> \<not> starts_with v ''text/html'') \<Longrightarrow> guarded r"
  by (auto simp: guarded_def)

lemma guarded_bodyless [simp]: "guarded (status_only status)"
  by (rule guarded_if_plain) (simp add: status_only_def header_get_all_def)

lemma guarded_text [simp]: "guarded (text_response status t)"
  by (rule guarded_if_plain) (simp add: text_response_def header_get_all_def starts_with_def)

lemma guarded_redirect [simp]: "guarded (redirect_to_page L location)"
  by (cases "header_value L location")
    (auto intro!: guarded_if_plain simp: redirect_to_page_def text_response_def header_get_all_def starts_with_def)

lemma guarded_page [simp]: "guarded (page L M nonce status template ctx)"
proof (cases "tera_render M template (ctx_insert (if map_of ctx ''lang'' \<noteq> None then ctx else ctx_insert ctx ''lang'' (JStr ''en'')) ''nonce'' (JStr nonce))")
  case None
  then show ?thesis by (simp add: page_def Let_def)
next
  case (Some html)
  then show ?thesis
    by (auto simp: page_def Let_def page_headers_def guarded_def header_get_all_def header_contains_def starts_with_def)
qed

lemma guarded_error_page [simp]: "guarded (error_page L M nonce status message)"
  by (simp add: error_page_def)

text \<open>Adding a header that is none of the three keeps a page guarded.\<close>

lemma guarded_other:
  assumes "guarded r" "rsp_status r' = rsp_status r"
    and "\<And>n. n \<in> {''content-type'', ''content-security-policy'', ''x-content-type-options'', ''cache-control''} \<Longrightarrow>
      header_get_all (rsp_headers r') n = header_get_all (rsp_headers r) n"
  shows "guarded r'"
  using assms by (simp add: guarded_def header_contains_get_all)

lemma guarded_retry_after: "guarded r \<Longrightarrow> guarded (r\<lparr>rsp_headers := header_insert (rsp_headers r) ''retry-after'' v\<rparr>)"
  by (rule guarded_other) auto

lemma guarded_throttled [simp]: "guarded (throttled_page L M nonce w)"
  unfolding throttled_page_def Let_def by (simp only: guarded_retry_after guarded_error_page split: if_split) simp

lemma get_all_cookies:
  "n \<noteq> ''set-cookie'' \<Longrightarrow> header_get_all (foldl (\<lambda>h c. header_append h ''set-cookie'' c) h cookies) n = header_get_all h n"
  by (induction cookies arbitrary: h) simp_all

lemma guarded_with_cookies [simp]: "guarded r \<Longrightarrow> guarded (with_cookies r cookies)"
  by (rule guarded_other) (auto simp: with_cookies_def get_all_cookies)

lemma guarded_browser_response [simp]: "guarded (browser_response status h body)"
  unfolding guarded_def browser_response_def Let_def header_contains_get_all
  by (simp add: starts_with_def)

lemma guarded_provider [simp]: "guarded (provider_answer r)"
  unfolding guarded_def provider_answer_def Let_def header_contains_get_all
  by (simp add: starts_with_def PROVIDER_LOGO_CSP_def)

lemma guarded_start_flow [simp]: "guarded (start_flow L M nonce st kind query)"
  by (simp add: start_flow_def back_to_bff_def Let_def split: option.split)

lemma guarded_flow_page [simp]: "guarded (flow_page L M parse_f32 reads nonce st cat upstream kind h q)"
  by (simp add: flow_page_def Let_def split: option.split sum.split flow_fetch.split)

lemma guarded_kratos_error_page [simp]: "guarded (kratos_error_page L M nonce st upstream q)"
  by (simp add: kratos_error_page_def split: option.split sum.split)

lemma guarded_logout [simp]: "guarded (fst (login_logout L M nonce st kratos hydra h q))"
  by (simp add: login_logout_def case_prod_beta Let_def split: option.split sum.split)

lemma guarded_consent [simp]: "guarded (fst (consent L M nonce st hydra q))"
  by (simp add: consent_def case_prod_beta Let_def split: option.split sum.split)

lemma guarded_proxy: "login_proxy L M w st rq = (r, sent, st') \<Longrightarrow> guarded r"
  by (auto simp: login_proxy_def proxy_forward_def Let_def split: if_splits prod.splits sum.splits refusal.splits option.splits)

text \<open>Whatever a browser asks of login, and whatever Kratos and Hydra answer, every page it is given has a
  policy that starts from \<open>default-src 'none'\<close>, is not sniffed, and, when it is a success, says whether it
  may be stored: the pages login renders, those Kratos' own answers are, and anything found among the
  provider logos. The stylesheets under \<open>/static\<close> are the deployment's, and what governor answers itself
  is a text.\<close>

theorem login_answers_are_guarded:
  assumes "serve_login L M Y w st rq = (r, st')" "\<And>b k x. ll_admit Y b k = Some x \<Longrightarrow> guarded x"
    and "\<not> starts_with (pr_path rq) ''/static''"
  shows "guarded r"
proof -
  have run: "guarded (fst (run_login_handler L M Y w st rq handler))" if "handler \<noteq> StaticFiles" for handler
    using that guarded_proxy
    by (cases handler) (auto simp: run_login_handler_def flow_handler_def too_large_def split: prod.splits
        intro!: guarded_if_plain simp: ui_js_def header_get_all_def starts_with_def)
  have not_static: "handler \<noteq> StaticFiles" if "login_route (pr_method rq) (pr_path rq) = Handled b handler" for b handler
  proof
    assume "handler = StaticFiles"
    with that have "map_of login_pages (pr_path rq) = None \<Longrightarrow> pr_path rq = ''/static'' \<or> starts_with (pr_path rq) ''/static/''"
      by (auto simp: login_route_def split: if_splits)
    moreover have "map_of login_pages (pr_path rq) = None"
      using that \<open>handler = StaticFiles\<close> by (auto simp: login_route_def login_pages_def split: if_splits option.splits)
    ultimately show False using assms(3) by (auto simp: starts_with_iff)
  qed
  show ?thesis
  proof (cases "login_route (pr_method rq) (pr_path rq)")
    case (Handled b handler)
    with assms(1) have "login_limited L Y st rq b (run_login_handler L M Y w st rq handler) = (r, st')"
      by (simp add: serve_login_def)
    with run [OF not_static [OF Handled]] assms(2) show ?thesis
      by (auto simp: login_limited_def split: if_splits option.splits)
  next
    case MethodNotAllowed
    have "guarded (method_not_allowed (pr_path rq))"
      by (rule guarded_if_plain) (simp add: method_not_allowed_def header_get_all_def)
    with MethodNotAllowed assms(1,2) show ?thesis
      by (auto simp: serve_login_def login_limited_def split: if_splits option.splits)
  qed (use assms(1) in \<open>auto simp: serve_login_def\<close>)
qed

text \<open>Only a password form posted to Kratos' login moves the throttle.\<close>

theorem only_submissions_move_the_throttle:
  assumes "serve_login L M Y w st rq = (r, st')" "pw_meanwhile w = id" "st' \<noteq> st"
  shows "pr_method rq = ''POST'' \<and> pr_path rq = LOGIN_SUBMIT_PATH"
proof -
  obtain b handler where h: "login_route (pr_method rq) (pr_path rq) = Handled b handler"
    "run_login_handler L M Y w st rq handler = (r, st')"
    using assms(1,3) by (auto simp: serve_login_def login_limited_def split: routed.splits if_splits option.splits)
  with assms(3) obtain sent where "login_proxy L M (proxy_world.truncate w) st rq = (r, sent, st')"
    by (auto simp: run_login_handler_def split: login_handler.splits if_splits prod.splits)
  with assms(2,3) show ?thesis
    by (auto simp: login_proxy_def proxy_attempt_def proxy_forward_def Let_def proxy_world.defs
        split: if_splits sum.splits option.splits)
qed

end
