(* ===== verification/ErrorDerive.thy ===== *)
theory ErrorDerive
  imports Web
begin

text \<open>
  The derive macro \<open>ErrorResponses\<close> (\<open>common/macros/src/lib.rs\<close>): how it reads the attributes of an
  enum, what it refuses, and the \<open>IntoResponse\<close> it generates, with the typing and the meaning of the
  three matches in it. Rust's parsers of an expression and of a path are arguments. The text of an
  error and its causes (\<open>common/src/error.rs\<close>) is at the end.
\<close>

section \<open>Syntax\<close>

datatype token = TComma | TEq | TColons | TIdent string | TLitStr string

datatype fields = Unit | Unnamed nat | Named "string list"

record attribute =
  at_path :: string
  at_tokens :: "token list"

record variant =
  vr_attrs :: "attribute list"
  vr_ident :: string
  vr_fields :: fields

datatype enum_data = EnumOf "variant list" | NoEnum

record derive_input =
  di_attrs :: "attribute list"
  di_ident :: string
  di_data :: enum_data

text \<open>What the macro takes from \<open>syn\<close>, and the number of a status expression.\<close>

record 'e syn =
  parse_expr :: "token list \<Rightarrow> ('e \<times> token list) option"
  parse_path :: "token list \<Rightarrow> (string list \<times> token list) option"
  status_of :: "'e \<Rightarrow> nat"

datatype derive_error = SynError | ExpectedDetails | OnlyEnums | DataNeedsDetails

section \<open>Reading the attributes\<close>

text \<open>\<open>ErrorResponseArgs::parse\<close>: the rest of the tokens with the result, as \<open>ParseStream\<close> leaves it.\<close>

definition parse_args :: "'e syn \<Rightarrow> token list \<Rightarrow> derive_error + ('e \<times> string option) \<times> token list" where
  "parse_args S ts = (case parse_expr S ts of
     None \<Rightarrow> Err SynError
   | Some (status, TComma # rest) \<Rightarrow> (case rest of
       TIdent key # rest1 \<Rightarrow>
         if key \<noteq> ''details'' then Err ExpectedDetails
         else (case rest1 of TEq # TLitStr details # rest2 \<Rightarrow> Ok ((status, Some details), rest2) | _ \<Rightarrow> Err SynError)
     | _ \<Rightarrow> Err SynError)
   | Some (status, rest) \<Rightarrow> Ok ((status, None), rest))"

text \<open>\<open>Attribute::parse_args\<close> refuses tokens that are left over.\<close>

definition error_response_args :: "'e syn \<Rightarrow> attribute \<Rightarrow> derive_error + 'e \<times> string option" where
  "error_response_args S a = (case parse_args S (at_tokens a) of
     Inl e \<Rightarrow> Err e | Inr (args, rest) \<Rightarrow> if rest = [] then Ok args else Err SynError)"

definition DEFAULT_TYPE :: "string list" where
  "DEFAULT_TYPE = [''common'', ''model'', ''error_response'', ''ErrorResponse'']"

definition parse_error_response_type :: "'e syn \<Rightarrow> attribute list \<Rightarrow> derive_error + string list" where
  "parse_error_response_type S attrs = (case List.find (\<lambda>a. at_path a = ''error_response_type'') attrs of
     None \<Rightarrow> Ok DEFAULT_TYPE
   | Some a \<Rightarrow> (case parse_path S (at_tokens a) of Some (path, []) \<Rightarrow> Ok path | _ \<Rightarrow> Err SynError))"

section \<open>The generated code\<close>

record 'e variant_info =
  vi_ident :: string
  vi_fields :: fields
  vi_status :: 'e
  vi_details :: "string option"

datatype pattern = PUnit string | PTuple string | PBraces string

datatype details_rhs = Literal string | SelfToString

record 'e into_response =
  ir_name :: string
  ir_status :: "(pattern \<times> 'e) list"
  ir_reason :: "(pattern \<times> string) list"
  ir_details :: "(pattern \<times> details_rhs) list"
  ir_type :: "string list"

definition pattern_of :: "string \<Rightarrow> fields \<Rightarrow> pattern" where
  "pattern_of ident fs = (case fs of Unit \<Rightarrow> PUnit ident | Unnamed _ \<Rightarrow> PTuple ident | Named _ \<Rightarrow> PBraces ident)"

definition details_arm :: "'e variant_info \<Rightarrow> pattern \<times> details_rhs" where
  "details_arm v = (case vi_details v of
     Some details \<Rightarrow> (pattern_of (vi_ident v) (vi_fields v), Literal details)
   | None \<Rightarrow> (PUnit (vi_ident v), SelfToString))"

definition generate_into_response :: "string \<Rightarrow> 'e variant_info list \<Rightarrow> string list \<Rightarrow> 'e into_response" where
  "generate_into_response name variants error_type =
     \<lparr>ir_name = name,
      ir_status = map (\<lambda>v. (pattern_of (vi_ident v) (vi_fields v), vi_status v)) variants,
      ir_reason = map (\<lambda>v. (pattern_of (vi_ident v) (vi_fields v), vi_ident v)) variants,
      ir_details = map details_arm variants, ir_type = error_type\<rparr>"

text \<open>The two loops of \<open>expand\<close>, over the variants and the attributes of each.\<close>

definition attribute_info :: "'e syn \<Rightarrow> variant \<Rightarrow> attribute \<Rightarrow> derive_error + 'e variant_info list" where
  "attribute_info S v a =
     (if at_path a \<noteq> ''error_response'' then Ok []
      else (case error_response_args S a of
          Inl e \<Rightarrow> Err e
        | Inr (status, details) \<Rightarrow>
            if details = None \<and> vr_fields v \<noteq> Unit then Err DataNeedsDetails
            else Ok [\<lparr>vi_ident = vr_ident v, vi_fields = vr_fields v, vi_status = status, vi_details = details\<rparr>]))"

fun collect_ok :: "('a \<Rightarrow> 'e + 'b list) \<Rightarrow> 'a list \<Rightarrow> 'e + 'b list" where
  "collect_ok f [] = Ok []"
| "collect_ok f (x # xs) = (case f x of Inl e \<Rightarrow> Err e | Inr ys \<Rightarrow> map_sum id ((@) ys) (collect_ok f xs))"

definition variant_infos :: "'e syn \<Rightarrow> variant \<Rightarrow> derive_error + 'e variant_info list" where
  "variant_infos S v = collect_ok (attribute_info S v) (vr_attrs v)"

definition expand :: "'e syn \<Rightarrow> derive_input \<Rightarrow> derive_error + 'e into_response" where
  "expand S d = (case di_data d of
     NoEnum \<Rightarrow> Err OnlyEnums
   | EnumOf variants \<Rightarrow> (case parse_error_response_type S (di_attrs d) of
       Inl e \<Rightarrow> Err e
     | Inr error_type \<Rightarrow> map_sum id (\<lambda>vs. generate_into_response (di_ident d) vs error_type)
         (collect_ok (variant_infos S) variants)))"

section \<open>What Rust makes of it\<close>

text \<open>The compiler's view of the three matches: each pattern is that of a variant of the enum, with its
  fields, and each variant has an arm.\<close>

fun ident_of :: "pattern \<Rightarrow> string" where
  "ident_of (PUnit i) = i" | "ident_of (PTuple i) = i" | "ident_of (PBraces i) = i"

definition match_ok :: "variant list \<Rightarrow> pattern list \<Rightarrow> bool" where
  "match_ok variants ps \<longleftrightarrow> variants \<noteq> [] \<and>
     list_all (\<lambda>p. list_ex (\<lambda>v. p = pattern_of (vr_ident v) (vr_fields v)) variants) ps \<and>
     list_all (\<lambda>v. list_ex (\<lambda>p. ident_of p = vr_ident v) ps) variants"

definition well_typed :: "variant list \<Rightarrow> 'e into_response \<Rightarrow> bool" where
  "well_typed variants g \<longleftrightarrow> match_ok variants (map fst (ir_status g)) \<and> match_ok variants (map fst (ir_reason g)) \<and>
     match_ok variants (map fst (ir_details g))"

text \<open>A value is a variant with its data. A match takes the first arm that fits.\<close>

fun run_match :: "(pattern \<times> 'a) list \<Rightarrow> string \<Rightarrow> 'a option" where
  "run_match [] i = None"
| "run_match ((p, a) # arms) i = (if ident_of p = i then Some a else run_match arms i)"

definition respond :: "'e syn \<Rightarrow> 'e into_response \<Rightarrow> (string \<times> 'v \<Rightarrow> string) \<Rightarrow> string \<times> 'v \<Rightarrow> error_response option" where
  "respond S g display value =
     Option.bind (run_match (ir_status g) (fst value)) (\<lambda>status.
     Option.bind (run_match (ir_reason g) (fst value)) (\<lambda>reason.
     Option.bind (run_match (ir_details g) (fst value)) (\<lambda>rhs.
       Some \<lparr>er_status = status_of S status, er_reason = reason,
         er_details = (case rhs of Literal text \<Rightarrow> text | SelfToString \<Rightarrow> display value)\<rparr>)))"

definition annotated :: "variant \<Rightarrow> bool" where
  "annotated v \<longleftrightarrow> list_ex (\<lambda>a. at_path a = ''error_response'') (vr_attrs v)"

section \<open>Lemmas\<close>

lemma collect_ok_Cons:
  "collect_ok f (x # xs) = Inr ys \<longleftrightarrow> (\<exists>zs ws. f x = Inr zs \<and> collect_ok f xs = Inr ws \<and> ys = zs @ ws)"
  by (cases "f x"; cases "collect_ok f xs") auto

lemma collect_okE:
  assumes "collect_ok f xs = Inr ys" "y \<in> set ys"
  obtains x zs where "x \<in> set xs" "f x = Inr zs" "y \<in> set zs"
  using assms
proof (induction xs arbitrary: ys thesis)
  case (Cons x xs)
  from Cons.prems(2,3) obtain zs ws where f: "f x = Inr zs" "collect_ok f xs = Inr ws" "y \<in> set zs \<union> set ws"
    unfolding collect_ok_Cons by auto
  show ?case
  proof (cases "y \<in> set zs")
    case True
    show thesis by (rule Cons.prems(1) [OF _ f(1) True]) simp
  next
    case False
    with Cons.IH [OF _ f(2)] f(3) Cons.prems(1) show thesis by (metis UnE list.set_intros(2))
  qed
qed simp

lemma collect_okI:
  assumes "collect_ok f xs = Inr ys" "x \<in> set xs"
  obtains zs where "f x = Inr zs" "set zs \<subseteq> set ys"
  using assms
proof (induction xs arbitrary: ys thesis)
  case (Cons w xs)
  from Cons.prems(2) obtain zs ws where f: "f w = Inr zs" "collect_ok f xs = Inr ws" "ys = zs @ ws"
    unfolding collect_ok_Cons by auto
  show ?case
  proof (cases "x = w")
    case True
    with f Cons.prems(1) show thesis by simp
  next
    case False
    with Cons.IH [OF _ f(2)] f(3) Cons.prems(1,3) show thesis by (metis UnCI set_ConsD set_append subset_iff)
  qed
qed simp

lemma attribute_infoD:
  assumes "attribute_info S v a = Inr zs" "z \<in> set zs"
  shows "at_path a = ''error_response''" "vi_ident z = vr_ident v" "vi_fields z = vr_fields v"
    "vi_details z = None \<Longrightarrow> vr_fields v = Unit" "error_response_args S a = Inr (vi_status z, vi_details z)"
  using assms by (auto simp: attribute_info_def split: if_splits sum.splits prod.splits)

lemma attribute_info_some: "attribute_info S v a = Inr zs \<Longrightarrow> at_path a = ''error_response'' \<Longrightarrow> zs \<noteq> []"
  by (auto simp: attribute_info_def split: if_splits sum.splits prod.splits)

lemma expandD:
  assumes "expand S d = Inr g"
  obtains variants vs path where "di_data d = EnumOf variants" "g = generate_into_response (di_ident d) vs path"
    "collect_ok (variant_infos S) variants = Inr vs"
proof (cases "di_data d")
  case (EnumOf variants)
  with assms obtain path where "parse_error_response_type S (di_attrs d) = Inr path"
    "map_sum id (\<lambda>vs. generate_into_response (di_ident d) vs path) (collect_ok (variant_infos S) variants) = Inr g"
    by (auto simp: expand_def split: sum.splits)
  with EnumOf that show thesis by (cases "collect_ok (variant_infos S) variants") auto
qed (use assms in \<open>simp add: expand_def\<close>)

lemma run_match_map:
  "run_match (map (\<lambda>v. (p v, a v)) vs) i = map_option a (List.find (\<lambda>v. ident_of (p v) = i) vs)"
  by (induction vs) auto

lemma ident_of_pattern [simp]: "ident_of (pattern_of i fs) = i"
  by (simp add: pattern_of_def split: fields.split)

text \<open>Every arm comes from an attribute of a variant, and every such attribute gives one.\<close>

definition from_variant :: "'e syn \<Rightarrow> 'e variant_info \<Rightarrow> variant \<Rightarrow> bool" where
  "from_variant S z v \<longleftrightarrow> vi_ident z = vr_ident v \<and> vi_fields z = vr_fields v \<and>
     (vi_details z = None \<longrightarrow> vr_fields v = Unit) \<and>
     (\<exists>a\<in>set (vr_attrs v). at_path a = ''error_response'' \<and> error_response_args S a = Inr (vi_status z, vi_details z))"

lemma infos_from:
  assumes "collect_ok (variant_infos S) variants = Inr vs" "z \<in> set vs"
  shows "\<exists>v\<in>set variants. from_variant S z v"
proof -
  from collect_okE [OF assms] obtain v zs where v: "v \<in> set variants" "variant_infos S v = Inr zs" "z \<in> set zs" .
  from collect_okE [OF v(2) [unfolded variant_infos_def] v(3)] obtain a ys where a: "a \<in> set (vr_attrs v)"
    "attribute_info S v a = Inr ys" "z \<in> set ys" .
  have "from_variant S z v" unfolding from_variant_def using attribute_infoD [OF a(2,3)] a(1) by blast
  with v(1) show ?thesis by blast
qed

lemma infos_for:
  assumes "collect_ok (variant_infos S) variants = Inr vs" "v \<in> set variants" "annotated v"
  shows "\<exists>z\<in>set vs. vi_ident z = vr_ident v"
proof -
  from collect_okI [OF assms(1,2)] obtain zs where zs: "variant_infos S v = Inr zs" "set zs \<subseteq> set vs" .
  from assms(3) obtain a where a: "a \<in> set (vr_attrs v)" "at_path a = ''error_response''"
    by (auto simp: annotated_def list_ex_iff)
  from collect_okI [OF zs(1) [unfolded variant_infos_def] a(1)] obtain ys where
    ys: "attribute_info S v a = Inr ys" "set ys \<subseteq> set zs" .
  from attribute_info_some [OF ys(1) a(2)] obtain z where "z \<in> set ys" by (cases ys) auto
  with attribute_infoD(2) [OF ys(1)] ys(2) zs(2) show ?thesis by blast
qed

lemma details_arm_pattern:
  "from_variant S z v \<Longrightarrow> fst (details_arm z) = pattern_of (vr_ident v) (vr_fields v)"
  by (auto simp: details_arm_def from_variant_def pattern_of_def split: option.split)

lemma match_ok_arms:
  assumes infos: "collect_ok (variant_infos S) variants = Inr vs" and distinct: "distinct (map vr_ident variants)"
    and p: "\<And>z v. from_variant S z v \<Longrightarrow> p z = pattern_of (vr_ident v) (vr_fields v)"
  shows "match_ok variants (map p vs) \<longleftrightarrow> variants \<noteq> [] \<and> list_all annotated variants"
proof -
  have fit: "list_all (\<lambda>p. list_ex (\<lambda>v. p = pattern_of (vr_ident v) (vr_fields v)) variants) (map p vs)"
    using infos_from [OF infos] p by (fastforce simp: list_all_iff list_ex_iff)
  have at: "ident_of (p z) = vi_ident z" if "z \<in> set vs" for z
    using infos_from [OF infos that] p by (metis from_variant_def ident_of_pattern)
  have "list_all (\<lambda>v. list_ex (\<lambda>q. ident_of q = vr_ident v) (map p vs)) variants \<longleftrightarrow> list_all annotated variants"
  proof
    assume "list_all annotated variants"
    then show "list_all (\<lambda>v. list_ex (\<lambda>q. ident_of q = vr_ident v) (map p vs)) variants"
      using infos_for [OF infos] at by (fastforce simp: list_all_iff list_ex_iff)
  next
    assume arms: "list_all (\<lambda>v. list_ex (\<lambda>q. ident_of q = vr_ident v) (map p vs)) variants"
    have "annotated v" if v: "v \<in> set variants" for v
    proof -
      from arms v at obtain z where z: "z \<in> set vs" "vi_ident z = vr_ident v"
        by (auto simp: list_all_iff list_ex_iff)
      from infos_from [OF infos z(1)] obtain w where w: "w \<in> set variants" "from_variant S z w" by blast
      with z(2) have "vr_ident w = vr_ident v" by (simp add: from_variant_def)
      with distinct v w(1) have "w = v" by (simp add: distinct_map inj_on_def)
      with w(2) show ?thesis by (auto simp: from_variant_def annotated_def list_ex_iff)
    qed
    then show "list_all annotated variants" by (simp add: list_all_iff)
  qed
  with fit show ?thesis by (auto simp: match_ok_def)
qed

lemma from_variant_pattern: "from_variant S z v \<Longrightarrow> pattern_of (vi_ident z) (vi_fields z) = pattern_of (vr_ident v) (vr_fields v)"
  by (simp add: from_variant_def)

lemma run_details: "run_match (map details_arm vs) i = map_option (snd \<circ> details_arm) (List.find (\<lambda>z. vi_ident z = i) vs)"
  by (induction vs) (auto simp: details_arm_def split: option.split)

lemma find_SomeD: "List.find P xs = Some x \<Longrightarrow> x \<in> set xs \<and> P x"
  by (induction xs) (auto split: if_splits)

lemma respond_find:
  "respond S (generate_into_response name vs path) display value =
     map_option (\<lambda>z. \<lparr>er_status = status_of S (vi_status z), er_reason = vi_ident z,
       er_details = (case vi_details z of Some text \<Rightarrow> text | None \<Rightarrow> display value)\<rparr>)
     (List.find (\<lambda>z. vi_ident z = fst value) vs)"
  by (auto simp: respond_def generate_into_response_def run_match_map run_details details_arm_def
      split: option.split bind_splits)

lemma well_typed_iff:
  assumes "collect_ok (variant_infos S) variants = Inr vs" "distinct (map vr_ident variants)"
  shows "well_typed variants (generate_into_response name vs path) \<longleftrightarrow> variants \<noteq> [] \<and> list_all annotated variants"
  using match_ok_arms [OF assms, of "\<lambda>z. pattern_of (vi_ident z) (vi_fields z)", OF from_variant_pattern]
    match_ok_arms [OF assms, of "\<lambda>z. fst (details_arm z)", OF details_arm_pattern]
  by (simp add: well_typed_def generate_into_response_def comp_def)

section \<open>The impl is well typed, and says nothing of a cause\<close>


text \<open>C37: The response to an error that carries data says nothing of the data: its details are the text
  written in the attribute, whatever the variant's \<open>Display\<close> would print of a cause.\<close>

theorem causes_stay_out_of_responses:
  assumes "expand S d = Inr g" "di_data d = EnumOf variants" "distinct (map vr_ident variants)"
    and "v \<in> set variants" "vr_fields v \<noteq> Unit" "respond S g display (vr_ident v, data) = Some r"
  shows "respond S g display' (vr_ident v, data') = Some r \<and>
    (\<exists>a\<in>set (vr_attrs v). \<exists>status. error_response_args S a = Inr (status, Some (er_details r)))"
proof -
  from assms(1,2) obtain vs path where g: "g = generate_into_response (di_ident d) vs path"
    and infos: "collect_ok (variant_infos S) variants = Inr vs" by (auto elim: expandD)
  from assms(6) obtain z where z: "List.find (\<lambda>z. vi_ident z = vr_ident v) vs = Some z"
    and r: "r = \<lparr>er_status = status_of S (vi_status z), er_reason = vi_ident z,
      er_details = (case vi_details z of Some text \<Rightarrow> text | None \<Rightarrow> display (vr_ident v, data))\<rparr>"
    by (auto simp: g respond_find)
  from z have "z \<in> set vs" "vi_ident z = vr_ident v" by (auto dest: find_SomeD)
  with infos_from [OF infos] obtain w where w: "w \<in> set variants" "from_variant S z w" "vr_ident w = vr_ident v"
    by (metis from_variant_def)
  with assms(3,4) have "w = v" by (simp add: distinct_map inj_on_def)
  with w(2) assms(5) obtain t where "vi_details z = Some t" by (auto simp: from_variant_def)
  with z r w(2) \<open>w = v\<close> show ?thesis by (auto simp: g respond_find from_variant_def)
qed

section \<open>An example\<close>

text \<open>The constants of \<open>http::StatusCode\<close> the services use.\<close>

definition STATUS_CODES :: "(string \<times> nat) list" where
  "STATUS_CODES = [(''BAD_REQUEST'', 400), (''UNAUTHORIZED'', 401), (''FORBIDDEN'', 403), (''NOT_FOUND'', 404),
     (''CONFLICT'', 409), (''GONE'', 410), (''UNPROCESSABLE_ENTITY'', 422), (''BAD_GATEWAY'', 502), (''SERVICE_UNAVAILABLE'', 503),
     (''GATEWAY_TIMEOUT'', 504)]"

definition status_tokens :: "string \<Rightarrow> token list" where
  "status_tokens name = [TIdent ''StatusCode'', TColons, TIdent name]"

definition demo_syn :: "nat syn" where
  "demo_syn = \<lparr>parse_expr = (\<lambda>ts. case ts of
       TIdent t # TColons # TIdent name # rest \<Rightarrow> map_option (\<lambda>code. (code, rest)) (map_of STATUS_CODES name)
     | _ \<Rightarrow> None),
     parse_path = (\<lambda>ts. case ts of TIdent name # rest \<Rightarrow> Some ([name], rest) | _ \<Rightarrow> None), status_of = id\<rparr>"

definition sample_variant :: "string \<Rightarrow> string \<Rightarrow> string option \<Rightarrow> fields \<Rightarrow> variant" where
  "sample_variant ident status details fs =
     \<lparr>vr_attrs = [\<lparr>at_path = ''error_response'', at_tokens = status_tokens status @ (case details of None \<Rightarrow> []
        | Some text \<Rightarrow> [TComma, TIdent ''details'', TEq, TLitStr text])\<rparr>], vr_ident = ident, vr_fields = fs\<rparr>"

definition sample_variants :: "variant list" where
  "sample_variants =
    [sample_variant ''Unit'' ''SERVICE_UNAVAILABLE'' (Some ''Try again later'') Unit,
     sample_variant ''Plain'' ''NOT_FOUND'' None Unit,
     sample_variant ''Tuple'' ''BAD_GATEWAY'' (Some ''Upstream failed'') (Unnamed 1),
     sample_variant ''Named'' ''CONFLICT'' (Some ''Conflict'') (Named [''cause''])]"

definition sample :: derive_input where
  "sample = \<lparr>di_attrs = [], di_ident = ''Sample'', di_data = EnumOf sample_variants\<rparr>"

lemma sample_expands:
  "\<exists>g. expand demo_syn sample = Inr g \<and>
     respond demo_syn g display (''Tuple'', data) =
       Some \<lparr>er_status = 502, er_reason = ''Tuple'', er_details = ''Upstream failed''\<rparr>"
  by (simp add: expand_def sample_def sample_variants_def sample_variant_def parse_error_response_type_def
      variant_infos_def attribute_info_def error_response_args_def parse_args_def demo_syn_def status_tokens_def
      STATUS_CODES_def respond_find)

lemma sample_refused:
  "expand demo_syn \<lparr>di_attrs = [], di_ident = ''Broken'',
     di_data = EnumOf [sample_variant ''Tuple'' ''BAD_GATEWAY'' None (Unnamed 1)]\<rparr> = Inl DataNeedsDetails"
  by (simp add: expand_def sample_variant_def parse_error_response_type_def variant_infos_def attribute_info_def
      error_response_args_def parse_args_def demo_syn_def status_tokens_def STATUS_CODES_def)

lemma sample_distinct: "di_data sample = EnumOf sample_variants" "distinct (map vr_ident sample_variants)"
  by (simp_all add: sample_def sample_variants_def sample_variant_def)


theorem causes_stay_out_of_responses_witness:
  "\<exists>g. expand demo_syn sample = Inr g \<and>
     respond demo_syn g snd (''Tuple'', ''database down'') = respond demo_syn g snd (''Tuple'', ''disk full'')"
proof -
  obtain g where g: "expand demo_syn sample = Inr g" "respond demo_syn g snd (''Tuple'', ''database down'') =
      Some \<lparr>er_status = 502, er_reason = ''Tuple'', er_details = ''Upstream failed''\<rparr>"
    using sample_expands [of snd "''database down''"] by blast
  let ?v = "sample_variant ''Tuple'' ''BAD_GATEWAY'' (Some ''Upstream failed'') (Unnamed 1)"
  have "?v \<in> set sample_variants" "vr_fields ?v \<noteq> Unit" "vr_ident ?v = ''Tuple''"
    by (simp_all add: sample_variants_def sample_variant_def)
  with causes_stay_out_of_responses [OF g(1) sample_distinct, of ?v snd _ _ snd "''disk full''"] g show ?thesis by auto
qed

section \<open>The text of an error and its causes\<close>

text \<open>An error is its own text and what \<open>source()\<close> gives.\<close>

datatype rust_error = Layer string "rust_error option"

fun chain_loop :: "string \<Rightarrow> rust_error option \<Rightarrow> string" where
  "chain_loop chain None = chain"
| "chain_loop chain (Some (Layer cause source)) = chain_loop (chain @ '': '' @ cause) source"

definition cause_chain :: "rust_error \<Rightarrow> string" where
  "cause_chain e = (case e of Layer message source \<Rightarrow> chain_loop message source)"

fun layers :: "rust_error \<Rightarrow> string list" where
  "layers (Layer message None) = [message]"
| "layers (Layer message (Some source)) = message # layers source"

lemma layers_nonempty [simp]: "layers e \<noteq> []"
  by (cases e rule: layers.cases) simp_all

lemma chain_loop_layers:
  "chain_loop chain source = join_with '': '' (chain # (case source of None \<Rightarrow> [] | Some e \<Rightarrow> layers e))"
proof (induction chain source rule: chain_loop.induct)
  case (2 chain cause source)
  then show ?case by (cases source) (simp_all add: join_with_def)
qed (simp add: join_with_def)

text \<open>Every layer is in the text, outermost first.\<close>

theorem cause_chain_joins_layers: "cause_chain e = join_with '': '' (layers e)"
  by (cases e rule: layers.cases) (simp_all add: cause_chain_def chain_loop_layers)

end
