(* ===== verification/ErrorEnums.thy ===== *)
theory ErrorEnums
  imports ErrorDerive BffLogin BffLogout Proxy TokenHook Revocation Registration
begin

text \<open>
  The error enums of bff and hooks as they are declared, run through the derive macro: the responses
  that \<open>ErrorDerive\<close> generates for them are the ones the handlers' theories write out.
\<close>

section \<open>The enums of the services\<close>

text \<open>A unit variant as the services write it: its \<open>#[error]\<close> text, its status and its \<open>details\<close>.\<close>

type_synonym unit_variant = "string \<times> string \<times> string \<times> string option"

definition unit_variant :: "unit_variant \<Rightarrow> variant" where
  "unit_variant u = (case u of (ident, printed, status, details) \<Rightarrow>
     \<lparr>vr_attrs = [\<lparr>at_path = ''error'', at_tokens = [TLitStr printed]\<rparr>,
        \<lparr>at_path = ''error_response'', at_tokens = status_tokens status @ (case details of None \<Rightarrow> []
           | Some text \<Rightarrow> [TComma, TIdent ''details'', TEq, TLitStr text])\<rparr>],
      vr_ident = ident, vr_fields = Unit\<rparr>)"

definition unit_enum :: "string \<Rightarrow> attribute list \<Rightarrow> unit_variant list \<Rightarrow> derive_input" where
  "unit_enum name attrs us = \<lparr>di_attrs = attrs, di_ident = name, di_data = EnumOf (map unit_variant us)\<rparr>"

text \<open>The \<open>Display\<close> that \<open>thiserror\<close> derives prints the text of a unit variant.\<close>

definition printed_text :: "unit_variant list \<Rightarrow> string \<times> unit \<Rightarrow> string" where
  "printed_text us value = (case map_of us (fst value) of Some (printed, _) \<Rightarrow> printed | None \<Rightarrow> [])"

definition derived_response :: "'e syn \<Rightarrow> string \<Rightarrow> attribute list \<Rightarrow> unit_variant list \<Rightarrow> string \<Rightarrow> error_response option" where
  "derived_response S name attrs us ident = (case expand S (unit_enum name attrs us) of
     Inl e \<Rightarrow> None
   | Inr g \<Rightarrow> if well_typed (map unit_variant us) g then respond S g (printed_text us) (ident, ()) else None)"

definition LoginError :: "unit_variant list" where
  "LoginError = [(''InvalidRedirectUri'', ''redirect_uri is not allowed'', ''BAD_REQUEST'', Some ''redirect_uri is not allowed'')]"

definition CallbackError :: "unit_variant list" where
  "CallbackError =
    [(''NoLoginInProgress'', ''no login in progress'', ''BAD_REQUEST'', Some ''no login in progress''),
     (''StateMismatch'', ''state does not match the login in progress'', ''BAD_REQUEST'', Some ''invalid state''),
     (''LoginRefused'', ''the login was refused'', ''BAD_REQUEST'', Some ''the login was refused''),
     (''MissingCode'', ''no authorization code'', ''BAD_REQUEST'', Some ''no authorization code''),
     (''InvalidRedirectUri'', ''redirect_uri is not allowed'', ''BAD_REQUEST'', Some ''redirect_uri is not allowed''),
     (''TokenExchangeFailed'', ''token exchange failed'', ''BAD_REQUEST'', Some ''token exchange failed''),
     (''InvalidTokenResponse'', ''identity provider returned an invalid response'', ''BAD_GATEWAY'',
        Some ''identity provider returned an invalid response''),
     (''IdentityProviderUnavailable'', ''identity provider unavailable'', ''BAD_GATEWAY'',
        Some ''identity provider unavailable'')]"

definition LogoutError :: "unit_variant list" where
  "LogoutError = [(''UntrustedOrigin'', ''request did not come from a trusted origin'', ''FORBIDDEN'',
     Some ''request did not come from a trusted origin'')]"

definition LoggedOutError :: "unit_variant list" where
  "LoggedOutError = [(''NoDestination'', ''no destination to send the browser to'', ''BAD_REQUEST'', Some ''no destination'')]"

definition BackchannelLogoutError :: "unit_variant list" where
  "BackchannelLogoutError =
    [(''InvalidLogoutToken'', ''invalid logout_token'', ''BAD_REQUEST'', Some ''invalid logout_token''),
     (''ReplayedLogoutToken'', ''logout_token was already used'', ''BAD_REQUEST'', Some ''invalid logout_token''),
     (''KeysUnavailable'', ''signing keys unavailable'', ''SERVICE_UNAVAILABLE'', Some ''signing keys unavailable'')]"

definition RevokeError :: "unit_variant list" where
  "RevokeError = [(''Unauthorized'', ''missing or invalid API key'', ''UNAUTHORIZED'', Some ''missing or invalid API key'')]"

definition ProxyError :: "unit_variant list" where
  "ProxyError =
    [(''PathNotProxied'', ''path is not proxied'', ''NOT_FOUND'', Some ''not found''),
     (''Unauthenticated'', ''missing or invalid session'', ''UNAUTHORIZED'', Some ''missing or invalid session''),
     (''RefreshUnavailable'', ''session refresh failed'', ''BAD_GATEWAY'', Some ''session refresh failed''),
     (''UntrustedOrigin'', ''request did not come from a trusted origin'', ''FORBIDDEN'',
        Some ''request did not come from a trusted origin'')]"

definition ApiKeyError :: "unit_variant list" where
  "ApiKeyError = [(''Unauthorized'', ''missing or invalid API key'', ''UNAUTHORIZED'', None)]"

definition TokenHookError :: "unit_variant list" where
  "TokenHookError =
    [(''InvalidSubject'', ''invalid subject'', ''FORBIDDEN'', None),
     (''IdentityNotFound'', ''unknown identity'', ''FORBIDDEN'', None),
     (''IdentityLookupFailed'', ''identity lookup failed'', ''BAD_GATEWAY'', None),
     (''IdentityInactive'', ''identity is not active'', ''FORBIDDEN'', None),
     (''IdentityWithoutEmail'', ''identity has no email'', ''FORBIDDEN'', None),
     (''EmailNotVerified'', ''email is not verified'', ''FORBIDDEN'', None),
     (''DownstreamServiceFailed'', ''downstream login-claims handler failed'', ''BAD_GATEWAY'', None),
     (''ReservedClaimOverridden'', ''downstream login-claims handler returned a reserved claim name'', ''FORBIDDEN'', None)]"

definition RevocationError :: "unit_variant list" where
  "RevocationError = [(''RevocationIncomplete'', ''revoking the account's other sign-ins did not complete'', ''BAD_GATEWAY'', None)]"

definition AfterRegistrationError :: "unit_variant list" where
  "AfterRegistrationError =
    [(''ConsentRequired'', ''a permission this sign-up needs was not granted'', ''UNPROCESSABLE_ENTITY'', None),
     (''ProfileApiFailed'', ''the profile could not be read from the sign-in provider'', ''UNPROCESSABLE_ENTITY'', None),
     (''RegistrationRejected'', ''the registration was rejected'', ''UNPROCESSABLE_ENTITY'', None),
     (''RegistrationHandlerFailed'', ''the registration could not be completed'', ''BAD_GATEWAY'', None),
     (''IdentityLookupFailed'', ''the identity could not be looked up'', ''BAD_GATEWAY'', None),
     (''IdentityGone'', ''the identity no longer exists'', ''GONE'', None),
     (''RegistrationTimedOut'', ''the registration took too long'', ''GATEWAY_TIMEOUT'', None)]"

definition AfterVerificationError :: "unit_variant list" where
  "AfterVerificationError = [(''NoticeFailed'', ''the verification notice could not be delivered'', ''BAD_GATEWAY'', None)]"

definition kratos_type :: "attribute list" where
  "kratos_type = [\<lparr>at_path = ''error_response_type'', at_tokens = [TIdent ''KratosHookError'']\<rparr>]"

section \<open>What the macro generates for them\<close>

text \<open>That \<open>syn\<close> reads the path to a status, and the type of the bodies Kratos gets.\<close>

definition reads_paths :: "'e syn \<Rightarrow> bool" where
  "reads_paths S \<longleftrightarrow> (\<forall>name code rest. (name, code) \<in> set STATUS_CODES \<longrightarrow> (rest = [] \<or> hd rest = TComma) \<longrightarrow>
      (\<exists>e. parse_expr S (status_tokens name @ rest) = Some (e, rest) \<and> status_of S e = code)) \<and>
     parse_path S [TIdent ''KratosHookError''] = Some ([''KratosHookError''], [])"

lemma unit_variant_simps [simp]: "vr_ident (unit_variant u) = fst u" "vr_fields (unit_variant u) = Unit"
  "annotated (unit_variant u)"
  by (auto simp: unit_variant_def annotated_def split: prod.split)

lemma reads_status:
  "reads_paths S \<Longrightarrow> map_of STATUS_CODES name = Some code \<Longrightarrow> rest = [] \<or> hd rest = TComma \<Longrightarrow>
   \<exists>e. parse_expr S (status_tokens name @ rest) = Some (e, rest) \<and> status_of S e = code"
  using map_of_SomeD by (fastforce simp: reads_paths_def)

lemma unit_args:
  assumes "reads_paths S" "map_of STATUS_CODES status = Some code"
  shows "\<exists>e. error_response_args S \<lparr>at_path = p, at_tokens = status_tokens status @ (case details of None \<Rightarrow> []
       | Some text \<Rightarrow> [TComma, TIdent ''details'', TEq, TLitStr text])\<rparr> = Inr (e, details) \<and> status_of S e = code"
proof (cases details)
  case None
  from reads_status [OF assms, of "[]"] obtain e where
    "parse_expr S (status_tokens status) = Some (e, [])" "status_of S e = code" by auto
  with None show ?thesis by (simp add: error_response_args_def parse_args_def)
next
  case (Some d)
  from reads_status [OF assms, of "[TComma, TIdent ''details'', TEq, TLitStr d]"] obtain e where
    "parse_expr S (status_tokens status @ [TComma, TIdent ''details'', TEq, TLitStr d]) =
      Some (e, [TComma, TIdent ''details'', TEq, TLitStr d])" "status_of S e = code" by auto
  with Some show ?thesis by (simp add: error_response_args_def parse_args_def)
qed

lemma unit_infos:
  assumes "reads_paths S" "map_of STATUS_CODES (fst (snd (snd u))) = Some code"
  shows "\<exists>e. variant_infos S (unit_variant u) =
    Inr [\<lparr>vi_ident = fst u, vi_fields = Unit, vi_status = e, vi_details = snd (snd (snd u))\<rparr>] \<and> status_of S e = code"
proof -
  obtain ident printed status details where u: "u = (ident, printed, status, details)" by (cases u) auto
  from unit_args [OF assms(1), of status code "''error_response''" details] assms(2) u obtain e where
    "error_response_args S \<lparr>at_path = ''error_response'', at_tokens = status_tokens status @ (case details of None \<Rightarrow> []
       | Some text \<Rightarrow> [TComma, TIdent ''details'', TEq, TLitStr text])\<rparr> = Inr (e, details)" "status_of S e = code" by auto
  then show ?thesis by (simp add: u variant_infos_def unit_variant_def attribute_info_def)
qed

lemma units_infos:
  assumes "reads_paths S" "\<forall>u\<in>set us. \<exists>code. map_of STATUS_CODES (fst (snd (snd u))) = Some code"
  shows "\<exists>vs. collect_ok (variant_infos S) (map unit_variant us) = Inr vs \<and>
    (\<forall>ident printed status details. map_of us ident = Some (printed, status, details) \<longrightarrow>
      (\<exists>z. List.find (\<lambda>z. vi_ident z = ident) vs = Some z \<and> vi_details z = details \<and>
         map_of STATUS_CODES status = Some (status_of S (vi_status z))))"
  using assms(2)
proof (induction us)
  case (Cons u us)
  then obtain vs code where vs: "collect_ok (variant_infos S) (map unit_variant us) = Inr vs"
    and IH: "\<forall>ident printed status details. map_of us ident = Some (printed, status, details) \<longrightarrow>
      (\<exists>z. List.find (\<lambda>z. vi_ident z = ident) vs = Some z \<and> vi_details z = details \<and>
         map_of STATUS_CODES status = Some (status_of S (vi_status z)))"
    and code: "map_of STATUS_CODES (fst (snd (snd u))) = Some code" by fastforce
  from unit_infos [OF assms(1) code] obtain e where e: "variant_infos S (unit_variant u) =
    Inr [\<lparr>vi_ident = fst u, vi_fields = Unit, vi_status = e, vi_details = snd (snd (snd u))\<rparr>]" "status_of S e = code" by blast
  then show ?case using vs IH code by (cases u) simp
qed simp

lemma derived_unit_response:
  assumes "reads_paths S" "\<forall>u\<in>set us. \<exists>code. map_of STATUS_CODES (fst (snd (snd u))) = Some code"
    and "distinct (map fst us)" "attrs \<in> {[], kratos_type}"
    and "map_of us ident = Some (printed, status, details)"
  shows "derived_response S name attrs us ident = Some \<lparr>er_status = the (map_of STATUS_CODES status), er_reason = ident,
    er_details = (case details of Some text \<Rightarrow> text | None \<Rightarrow> printed)\<rparr>"
proof -
  from units_infos [OF assms(1,2)] assms(5) obtain vs z where vs: "collect_ok (variant_infos S) (map unit_variant us) = Inr vs"
    and z: "List.find (\<lambda>z. vi_ident z = ident) vs = Some z" "vi_details z = details"
      "map_of STATUS_CODES status = Some (status_of S (vi_status z))" by blast
  have "\<exists>path. parse_error_response_type S attrs = Inr path"
    using assms(1,4) by (auto simp: parse_error_response_type_def kratos_type_def reads_paths_def)
  then obtain path where path: "parse_error_response_type S attrs = Inr path" ..
  have g: "expand S (unit_enum name attrs us) = Inr (generate_into_response name vs path)"
    by (simp add: expand_def unit_enum_def path vs)
  have "us \<noteq> []" using assms(5) by auto
  have "well_typed (map unit_variant us) (generate_into_response name vs path)"
    using well_typed_iff [OF vs, of name path] assms(3) \<open>us \<noteq> []\<close> by (simp add: list_all_iff comp_def)
  with g z assms(5) find_SomeD [OF z(1)] show ?thesis
    by (simp add: derived_response_def respond_find printed_text_def split: option.split)
qed

fun callback_variant :: "callback_error \<Rightarrow> string" where
  "callback_variant CbNoLoginInProgress = ''NoLoginInProgress''"
| "callback_variant CbStateMismatch = ''StateMismatch''"
| "callback_variant CbLoginRefused = ''LoginRefused''"
| "callback_variant CbMissingCode = ''MissingCode''"
| "callback_variant CbInvalidRedirectUri = ''InvalidRedirectUri''"
| "callback_variant CbTokenExchangeFailed = ''TokenExchangeFailed''"
| "callback_variant CbInvalidTokenResponse = ''InvalidTokenResponse''"
| "callback_variant CbIdentityProviderUnavailable = ''IdentityProviderUnavailable''"

fun backchannel_variant :: "backchannel_error \<Rightarrow> string" where
  "backchannel_variant InvalidLogoutToken = ''InvalidLogoutToken''"
| "backchannel_variant ReplayedLogoutToken = ''ReplayedLogoutToken''"
| "backchannel_variant BcKeysUnavailable = ''KeysUnavailable''"

fun proxy_variant :: "proxy_error \<Rightarrow> string" where
  "proxy_variant PathNotProxied = ''PathNotProxied''"
| "proxy_variant ProxyUnauthenticated = ''Unauthenticated''"
| "proxy_variant ProxyRefreshUnavailable = ''RefreshUnavailable''"
| "proxy_variant UntrustedOrigin = ''UntrustedOrigin''"

text \<open>The \<open>From\<close> implementations of the hooks' errors: the variant without its cause.\<close>

fun token_hook_variant :: "token_hook_service_error \<Rightarrow> string" where
  "token_hook_variant InvalidSubject = ''InvalidSubject''"
| "token_hook_variant IdentityNotFound = ''IdentityNotFound''"
| "token_hook_variant (TokenHook.IdentityLookupFailed _) = ''IdentityLookupFailed''"
| "token_hook_variant IdentityInactive = ''IdentityInactive''"
| "token_hook_variant IdentityWithoutEmail = ''IdentityWithoutEmail''"
| "token_hook_variant EmailNotVerified = ''EmailNotVerified''"
| "token_hook_variant (DownstreamServiceFailed _) = ''DownstreamServiceFailed''"
| "token_hook_variant (ReservedClaimOverridden _) = ''ReservedClaimOverridden''"

fun registration_variant :: "registration_service_error \<Rightarrow> string" where
  "registration_variant (ConsentRequired _) = ''ConsentRequired''"
| "registration_variant (ProfileApiFailed _) = ''ProfileApiFailed''"
| "registration_variant (RegistrationRejected _) = ''RegistrationRejected''"
| "registration_variant (RegistrationHandlerFailed _) = ''RegistrationHandlerFailed''"
| "registration_variant (Registration.IdentityLookupFailed _) = ''IdentityLookupFailed''"
| "registration_variant IdentityGone = ''IdentityGone''"
| "registration_variant (TimedOut _) = ''RegistrationTimedOut''"

definition of_triple :: "nat \<times> string \<times> string \<Rightarrow> error_response" where
  "of_triple r = (case r of (status, reason, details) \<Rightarrow> \<lparr>er_status = status, er_reason = reason, er_details = details\<rparr>)"

lemmas declared_defs = LoginError_def CallbackError_def LogoutError_def LoggedOutError_def BackchannelLogoutError_def
  RevokeError_def ProxyError_def ApiKeyError_def TokenHookError_def RevocationError_def AfterRegistrationError_def
  AfterVerificationError_def

definition declared :: "unit_variant list set" where
  "declared = {LoginError, CallbackError, LogoutError, LoggedOutError, BackchannelLogoutError, RevokeError, ProxyError,
     ApiKeyError, TokenHookError, RevocationError, AfterRegistrationError, AfterVerificationError}"

lemma declared_ok:
  "us \<in> declared \<Longrightarrow>
    (\<forall>u\<in>set us. \<exists>code. map_of STATUS_CODES (fst (snd (snd u))) = Some code) \<and> distinct (map fst us)"
  unfolding declared_def by (elim insertE emptyE; simp add: declared_defs STATUS_CODES_def)

definition row_response :: "string \<Rightarrow> string \<times> string \<times> string option \<Rightarrow> error_response" where
  "row_response ident row = (case row of (printed, status, details) \<Rightarrow>
     \<lparr>er_status = the (map_of STATUS_CODES status), er_reason = ident,
      er_details = (case details of Some text \<Rightarrow> text | None \<Rightarrow> printed)\<rparr>)"

lemma derived_row:
  assumes "reads_paths S" "us \<in> declared" "attrs \<in> {[], kratos_type}"
    and "map_option (row_response ident) (map_of us ident) = Some r"
  shows "derived_response S name attrs us ident = Some r"
  using derived_unit_response [OF assms(1) _ _ assms(3)] declared_ok [OF assms(2)] assms(4)
  by (auto simp: row_response_def)

lemmas row_simps = row_response_def STATUS_CODES_def

lemma LoginError_derived:
  assumes "reads_paths S"
  shows "derived_response S ''LoginError'' [] LoginError ''InvalidRedirectUri'' = Some (login_error_response e1)"
  by (rule derived_row [OF assms]; (simp add: declared_def)?)
    (simp add: LoginError_def row_simps login_error_response_def)

lemma CallbackError_derived:
  assumes "reads_paths S"
  shows "derived_response S ''CallbackError'' [] CallbackError (callback_variant e2) = Some (callback_error_response e2)"
  by (rule derived_row [OF assms]; (simp add: declared_def)?)
    (cases e2; simp add: CallbackError_def row_simps)

lemma LogoutError_derived:
  assumes "reads_paths S"
  shows "derived_response S ''LogoutError'' [] LogoutError ''UntrustedOrigin'' = Some (logout_error_response e3)"
  by (rule derived_row [OF assms]; (simp add: declared_def)?)
    (simp add: LogoutError_def row_simps logout_error_response_def)

lemma LoggedOutError_derived:
  assumes "reads_paths S"
  shows "derived_response S ''LoggedOutError'' [] LoggedOutError ''NoDestination'' = Some (logged_out_error_response e4)"
  by (rule derived_row [OF assms]; (simp add: declared_def)?)
    (simp add: LoggedOutError_def row_simps logged_out_error_response_def)

lemma BackchannelLogoutError_derived:
  assumes "reads_paths S"
  shows "derived_response S ''BackchannelLogoutError'' [] BackchannelLogoutError (backchannel_variant e5) = Some (backchannel_error_response e5)"
  by (rule derived_row [OF assms]; (simp add: declared_def)?)
    (cases e5; simp add: BackchannelLogoutError_def row_simps)

lemma RevokeError_derived:
  assumes "reads_paths S"
  shows "derived_response S ''RevokeError'' [] RevokeError ''Unauthorized'' = Some (revoke_error_response e6)"
  by (rule derived_row [OF assms]; (simp add: declared_def)?)
    (simp add: RevokeError_def row_simps revoke_error_response_def)

lemma ProxyError_derived:
  assumes "reads_paths S"
  shows "derived_response S ''ProxyError'' [] ProxyError (proxy_variant e7) = Some (proxy_error_response e7)"
  by (rule derived_row [OF assms]; (simp add: declared_def)?)
    (cases e7; simp add: ProxyError_def row_simps)

lemma ApiKeyError_derived:
  assumes "reads_paths S"
  shows "derived_response S ''ApiKeyError'' [] ApiKeyError ''Unauthorized'' = Some (api_key_error_response e8)"
  by (rule derived_row [OF assms]; (simp add: declared_def)?)
    (cases e8; simp add: ApiKeyError_def row_simps api_key_error_response_def)

lemma TokenHookError_derived:
  assumes "reads_paths S"
  shows "derived_response S ''TokenHookError'' [] TokenHookError (token_hook_variant e9) = Some (token_hook_status e9)"
  by (rule derived_row [OF assms]; (simp add: declared_def)?)
    (cases e9; simp add: TokenHookError_def row_simps token_hook_status_def)

lemma RevocationError_derived:
  assumes "reads_paths S"
  shows "derived_response S ''RevocationError'' [] RevocationError ''RevocationIncomplete'' = Some revocation_error_response"
  by (rule derived_row [OF assms]; (simp add: declared_def)?)
    (simp add: RevocationError_def row_simps revocation_error_response_def)

lemma AfterRegistrationError_derived:
  assumes "reads_paths S"
  shows "derived_response S ''AfterRegistrationError'' kratos_type AfterRegistrationError (registration_variant e10) = Some (of_triple (registration_status e10))"
  by (rule derived_row [OF assms]; (simp add: declared_def)?)
    (cases e10; simp add: AfterRegistrationError_def of_triple_def row_simps registration_status_def)

lemma AfterVerificationError_derived:
  assumes "reads_paths S"
  shows "derived_response S ''AfterVerificationError'' kratos_type AfterVerificationError ''NoticeFailed'' = Some (of_triple (verification_status e11))"
  by (rule derived_row [OF assms]; (simp add: declared_def)?)
    (simp add: AfterVerificationError_def of_triple_def row_simps verification_status_def)

lemmas derived_all = LoginError_derived
  CallbackError_derived
  LogoutError_derived
  LoggedOutError_derived
  BackchannelLogoutError_derived
  RevokeError_derived
  ProxyError_derived
  ApiKeyError_derived
  TokenHookError_derived
  RevocationError_derived
  AfterRegistrationError_derived
  AfterVerificationError_derived



end
