(* ===== verification/UserStore.thy ===== *)
theory UserStore
  imports Worlds LoginConfig Registration TokenHook "HOL-Library.Countable"
begin

text \<open>
  The user store that the deployment ships for local use (\<open>testing/user-service/main.rs\<close>), the target of
  hooks' webhooks in \<open>hooks/config.yaml\<close>: it keeps the fields of a registration and answers them as
  the claims of a login. The file it writes is part of the state. hooks is run against it: what a
  user registered with ends up in the user's tokens.
\<close>

section \<open>Numbers as keys\<close>

text \<open>\<open>u64::to_string\<close> and \<open>u64::from_str\<close>.\<close>

definition u64_text :: "64 word \<Rightarrow> string" where
  "u64_text n = nat_str (unat n)"

definition parse_u64 :: "string \<Rightarrow> nat option" where
  "parse_u64 raw =
     (let digits = (case raw of c # cs \<Rightarrow> if c = CHR ''+'' then cs else raw | [] \<Rightarrow> []) in
      if digits = [] then None else opt_filter (\<lambda>n. n < 2 ^ 64) (digits_value 0 digits))"

section \<open>The store\<close>

record user_store =
  us_next :: "64 word"
  us_users :: "(string \<times> json) list option"
  us_file :: "string option"

definition has_authorization :: "headers \<Rightarrow> nat + unit" where
  "has_authorization h = (if header_contains h ''authorization'' then Ok () else Err 401)"

text \<open>\<open>main\<close>: the users of the file, and an id after the highest numeric one. A file that is not a JSON
  object stops the service, as does (in the build the file's comment runs) an id above the last.\<close>

definition hash_map_of :: "(string \<times> json) list \<Rightarrow> (string \<times> json) list" where
  "hash_map_of kvs = fold (\<lambda>(k, v). AList.update k v) kvs []"

definition max_id :: "(string \<times> json) list \<Rightarrow> nat" where
  "max_id users = fold max (List.map_filter (\<lambda>(k, _). parse_u64 k) users) 0"

definition start_users :: "libs \<Rightarrow> string option \<Rightarrow> user_store option" where
  "start_users L file = (case file of
     None \<Rightarrow> Some \<lparr>us_next = 1, us_users = None, us_file = None\<rparr>
   | Some text \<Rightarrow> (case json_read L text of
       Some (JObj kvs) \<Rightarrow> (let users = hash_map_of kvs in
         if max_id users + 1 = 2 ^ 64 then None
         else Some \<lparr>us_next = word_of_nat (max_id users + 1), us_users = Some users, us_file = file\<rparr>)
     | _ \<Rightarrow> None))"

text \<open>The key a body is stored under, and what is stored.\<close>

definition stored_as :: "64 word \<Rightarrow> json \<Rightarrow> string \<times> json" where
  "stored_as i body = (case (Option.bind (json_get body ''user_id'') as_str, json_get body ''fields'') of
     (Some uid, Some fs) \<Rightarrow> (uid, fs) | _ \<Rightarrow> (u64_text i, body))"

text \<open>\<open>body\<close> is what axum's \<open>Json\<close> gave, \<open>Inl\<close> its rejection; \<open>pretty\<close> is \<open>to_vec_pretty\<close>; \<open>left\<close> is what a failed
  write leaves in the file, \<open>None\<close> for a write that succeeds.\<close>

definition save_user ::
    "(json \<Rightarrow> string) \<Rightarrow> string option option \<Rightarrow> headers \<Rightarrow> nat + json \<Rightarrow> user_store \<Rightarrow> (nat + nat \<times> json) \<times> user_store" where
  "save_user pretty left h body st = (case body of
     Inl status \<Rightarrow> (Err status, st)
   | Inr j \<Rightarrow> (case has_authorization h of
       Inl status \<Rightarrow> (Err status, st)
     | Inr _ \<Rightarrow> (case j of
         JObj kvs \<Rightarrow>
           (let i = us_next st;
                body = JObj (claims_insert kvs ''id'' (JInt (uint i)));
                (key, stored) = stored_as i body;
                users = AList.update key stored (case us_users st of None \<Rightarrow> [] | Some users \<Rightarrow> users)
            in (Ok (201, body), \<lparr>us_next = i + 1, us_users = Some users,
                  us_file = (case left of None \<Rightarrow> Some (pretty (JObj users)) | Some file \<Rightarrow> file)\<rparr>))
       | _ \<Rightarrow> (Err 400, st))))"

definition user_claims :: "headers \<Rightarrow> nat + json \<Rightarrow> user_store \<Rightarrow> nat + json" where
  "user_claims h body st = (case body of
     Inl status \<Rightarrow> Err status
   | Inr j \<Rightarrow> (case has_authorization h of
       Inl status \<Rightarrow> Err status
     | Inr _ \<Rightarrow> ok_or (Option.bind (Option.bind (json_get j ''user_id'') as_str) (\<lambda>i.
         Option.bind (us_users st) (\<lambda>users. map_of users i))) 404))"

definition user_verified :: "headers \<Rightarrow> nat + json \<Rightarrow> nat + nat" where
  "user_verified h body = (case body of
     Inl status \<Rightarrow> Err status
   | Inr j \<Rightarrow> (case has_authorization h of Inl status \<Rightarrow> Err status | Inr _ \<Rightarrow> Ok 204))"

text \<open>The routes, each for \<open>POST\<close>.\<close>

datatype users_route = SaveUser | UserClaims | UserVerified

definition users_routes :: "(string \<times> users_route) list" where
  "users_routes = [(''/users'', SaveUser), (''/users/claims'', UserClaims), (''/users/verified'', UserVerified)]"

definition json_answer :: "libs \<Rightarrow> nat \<Rightarrow> json option \<Rightarrow> http_answer" where
  "json_answer L status body = \<lparr>ha_status = status, ha_headers = [],
     ha_body = Inr (case body of None \<Rightarrow> [] | Some j \<Rightarrow> json_write L j)\<rparr>"

definition serve_users ::
    "libs \<Rightarrow> (json \<Rightarrow> string) \<Rightarrow> string option option \<Rightarrow> string \<Rightarrow> string \<Rightarrow> headers \<Rightarrow> nat + json \<Rightarrow> user_store
      \<Rightarrow> http_answer \<times> user_store" where
  "serve_users L pretty left http_method path h body st = (case map_of users_routes path of
     None \<Rightarrow> (json_answer L 404 None, st)
   | Some route \<Rightarrow>
       if http_method \<noteq> ''POST'' then (json_answer L 405 None, st)
       else (case route of
           SaveUser \<Rightarrow> (case save_user pretty left h body st of
             (Inl status, st') \<Rightarrow> (json_answer L status None, st')
           | (Inr (status, j), st') \<Rightarrow> (json_answer L status (Some j), st'))
         | UserClaims \<Rightarrow> (case user_claims h body st of
             Inl status \<Rightarrow> (json_answer L status None, st)
           | Inr j \<Rightarrow> (json_answer L 200 (Some j), st))
         | UserVerified \<Rightarrow> (case user_verified h body of
             Inl status \<Rightarrow> (json_answer L status None, st)
           | Inr status \<Rightarrow> (json_answer L status None, st))))"

section \<open>Lemmas on numbers\<close>

lemma digits_value_append: "digits_value n (a @ b) = Option.bind (digits_value n a) (\<lambda>m. digits_value m b)"
  by (induction n a rule: digits_value.induct) auto

lemma digit_value: "byte (digit n) = 48 + n mod 10"
  by (simp add: byte_def digit_def)

lemma digits_value_dec: "digits_value 0 (nat_str n) = Some n"
proof (induction n rule: nat_str.induct)
  case (1 n)
  show ?case
  proof (cases "n < 10")
    case True
    then show ?thesis by (simp add: nat_str.simps [of n] digit_value)
  next
    case False
    with 1 have "digits_value 0 (nat_str (n div 10)) = Some (n div 10)" by blast
    with False show ?thesis by (simp add: nat_str.simps [of n] digits_value_append digit_value)
  qed
qed

lemma nat_str_hd: "\<exists>c cs. nat_str n = c # cs \<and> c \<noteq> CHR ''+''"
proof (induction n rule: nat_str.induct)
  case (1 n)
  show ?case
  proof (cases "n < 10")
    case True
    have "digit n \<noteq> CHR ''+''" using digit_value [of n] by (auto simp: byte_def)
    with True show ?thesis by (simp add: nat_str.simps [of n])
  next
    case False
    with 1 obtain c cs where "nat_str (n div 10) = c # cs" "c \<noteq> CHR ''+''" by blast
    with False show ?thesis by (simp add: nat_str.simps [of n])
  qed
qed

lemma parse_u64_text: "parse_u64 (u64_text n) = Some (unat n)"
proof -
  obtain c cs where "nat_str (unat n) = c # cs" "c \<noteq> CHR ''+''" using nat_str_hd by blast
  moreover have "unat n < 2 ^ 64" by (rule order_less_le_trans [OF unsigned_less]) simp
  ultimately show ?thesis using digits_value_dec [of "unat n"] by (simp add: parse_u64_def u64_text_def)
qed

lemma fold_max: "fold max xs (m :: nat) = Max (insert m (set xs))"
  by (simp add: Max.set_eq_fold [symmetric])

lemma max_id_bound: "(k, v) \<in> set users \<Longrightarrow> parse_u64 k = Some n \<Longrightarrow> n \<le> max_id users"
  unfolding max_id_def fold_max by (intro Max_ge) (auto simp: List.map_filter_def intro!: rev_image_eqI)

section \<open>What the store keeps\<close>

definition holds :: "(json \<Rightarrow> string) \<Rightarrow> string \<Rightarrow> json \<Rightarrow> user_store \<Rightarrow> bool" where
  "holds pretty uid fs st \<longleftrightarrow> (\<exists>users. us_users st = Some users \<and> map_of users uid = Some fs \<and>
     distinct (map fst users) \<and> us_file st = Some (pretty (JObj users)))"

text \<open>What may happen between two requests for a user: requests that do not store under that user's id
  and whose write succeeds, and a restart.\<close>

inductive store_step :: "libs \<Rightarrow> (json \<Rightarrow> string) \<Rightarrow> string \<Rightarrow> user_store \<Rightarrow> user_store \<Rightarrow> bool" for L pretty uid where
  served: "serve_users L pretty None http_method path h body st = (answer, st') \<Longrightarrow>
     (\<And>j. body = Inr j \<Longrightarrow> json_get j ''user_id'' \<noteq> Some (JStr uid)) \<Longrightarrow> store_step L pretty uid st st'"
| restarted: "start_users L (us_file st) = Some st' \<Longrightarrow> store_step L pretty uid st st'"

lemma hash_map_of_distinct:
  assumes "distinct (map fst kvs)"
  shows "hash_map_of kvs = kvs"
proof -
  have "distinct (map fst (acc @ kvs)) \<Longrightarrow> fold (\<lambda>(k, v). AList.update k v) kvs acc = acc @ kvs" for acc :: "(string \<times> json) list"
  proof (induction kvs arbitrary: acc)
    case (Cons x kvs)
    from Cons.prems have "AList.update (fst x) (snd x) acc = acc @ [x]" by (subst update_fresh) auto
    with Cons show ?case by (simp add: case_prod_beta)
  qed simp
  from this [of "[]"] assms show ?thesis by (simp add: hash_map_of_def)
qed

lemma save_user_Ok:
  assumes "save_user pretty left h body st = (Inr r, st')"
  obtains kvs where "body = Inr (JObj kvs)" "header_contains h ''authorization''"
    "r = (201, JObj (claims_insert kvs ''id'' (JInt (uint (us_next st)))))"
    "us_users st' = Some (AList.update (fst (stored_as (us_next st) (snd r))) (snd (stored_as (us_next st) (snd r)))
       (case us_users st of None \<Rightarrow> [] | Some users \<Rightarrow> users))"
    "us_file st' = (case left of None \<Rightarrow> map_option (pretty \<circ> JObj) (us_users st') | Some file \<Rightarrow> file)"
  using assms
  by (auto simp: save_user_def has_authorization_def Let_def split: sum.splits if_splits json.splits prod.splits option.splits)

lemma save_user_Err: "save_user pretty left h body st = (Inl e, st') \<Longrightarrow> st' = st"
  by (auto simp: save_user_def Let_def split: sum.splits json.splits prod.splits)

lemma save_user_status: "save_user pretty left h (Inr j) st = (Inl e, st') \<Longrightarrow> \<not> is_success e"
  by (auto simp: save_user_def has_authorization_def Let_def is_success_def split: if_splits json.splits prod.splits)

text \<open>A generated id never is a user id that is not a number.\<close>

lemma stored_as_other:
  assumes "json_get body ''user_id'' \<noteq> Some (JStr uid)" "parse_u64 uid = None"
  shows "fst (stored_as i body) \<noteq> uid"
proof -
  have "u64_text i \<noteq> uid" using parse_u64_text [of i] assms(2) by auto
  with assms(1) show ?thesis
    by (auto simp: stored_as_def bind_eq_Some_conv split: option.splits elim!: as_str.elims)
qed

lemma holds_save:
  assumes "holds pretty uid fs st" "parse_u64 uid = None" "save_user pretty None h body st = (r, st')"
    and "\<And>j. body = Inr j \<Longrightarrow> json_get j ''user_id'' \<noteq> Some (JStr uid)"
  shows "holds pretty uid fs st'"
proof (cases r)
  case (Inl e)
  with assms(1,3) save_user_Err show ?thesis by blast
next
  case (Inr y)
  from assms(1) obtain users where users: "us_users st = Some users" "map_of users uid = Some fs" "distinct (map fst users)"
    by (auto simp: holds_def)
  from assms(3) Inr save_user_Ok obtain kvs where body: "body = Inr (JObj kvs)"
    "y = (201, JObj (claims_insert kvs ''id'' (JInt (uint (us_next st)))))"
    and st': "us_users st' = Some (AList.update (fst (stored_as (us_next st) (snd y))) (snd (stored_as (us_next st) (snd y))) users)"
      "us_file st' = map_option (pretty \<circ> JObj) (us_users st')"
    by (metis option.simps(4,5) users(1))
  have "json_get (snd y) ''user_id'' \<noteq> Some (JStr uid)" using assms(4) [OF body(1)] body(2) by (simp del: json_get.simps)
  from stored_as_other [OF this assms(2)] users st' show ?thesis by (auto simp: holds_def)
qed

lemma holds_step:
  assumes "store_step L pretty uid st st'" "holds pretty uid fs st" "parse_u64 uid = None"
    and "\<And>users. json_read L (pretty (JObj users)) = Some (JObj users)"
  shows "holds pretty uid fs st'"
  using assms(1)
proof cases
  case (served http_method path h body answer)
  then have "st' = st \<or> (\<exists>r. save_user pretty None h body st = (r, st'))"
    by (auto simp: serve_users_def split: option.splits if_splits users_route.splits prod.splits sum.splits)
  with served(2) holds_save [OF assms(2,3)] assms(2) show ?thesis by blast
next
  case restarted
  with assms(2,4) show ?thesis
    by (auto simp: start_users_def holds_def Let_def hash_map_of_distinct split: if_splits)
qed

lemma holds_steps:
  assumes "(store_step L pretty uid)\<^sup>*\<^sup>* st st'" "holds pretty uid fs st" "parse_u64 uid = None"
    and "\<And>users. json_read L (pretty (JObj users)) = Some (JObj users)"
  shows "holds pretty uid fs st'"
  using assms(1) by (induction rule: rtranclp_induct) (use assms(2-4) holds_step in blast)+

section \<open>hooks and the store\<close>

text \<open>The deployer's base URL leads to the store, every other request elsewhere. The request's JSON is
  what axum reads, 415 without one.\<close>

definition to_users ::
    "libs \<Rightarrow> (json \<Rightarrow> string) \<Rightarrow> string \<Rightarrow> 'w net \<Rightarrow> ('w \<times> user_store) net" where
  "to_users L pretty base N0 rq w = (case strip_prefix base (hr_url rq) of
     None \<Rightarrow> (let (a, w0) = N0 rq (fst w) in (a, (w0, snd w)))
   | Some path \<Rightarrow>
       let (answer, st) = serve_users L pretty None (hr_method rq) path (hook_headers rq) (ok_or (hr_json rq) 415) (snd w)
       in (Some (Inr answer), (fst w, st)))"

definition uses_store :: "string \<Rightarrow> hooks_state \<Rightarrow> bool" where
  "uses_store base hs \<longleftrightarrow>
     (\<exists>h. hs_registration hs = Some h \<and> wh_url h = base @ ''/users'') \<and>
     (\<exists>h. hs_login_claims hs = Some h \<and> wh_url h = base @ ''/users/claims'')"

lemma get_keeps_store:
  "hr_method rq \<noteq> ''POST'' \<Longrightarrow> snd (snd (to_users L pretty base N0 rq w)) = snd w"
  by (auto simp: to_users_def serve_users_def Let_def split: option.split prod.split)

lemma claims_insert_other: "k \<noteq> name \<Longrightarrow> json_get (JObj (claims_insert kvs name v)) k = json_get (JObj kvs) k"
  by (simp add: claims_insert_get del: json_get.simps)

text \<open>A registration that hooks hands over is in the store.\<close>

lemma registration_stored:
  assumes post: "webhook_registration H (to_users L pretty base N0) h uid email v extra t = (Some (Inr u), t')"
    and url: "wh_url h = base @ ''/users''"
    and distinct: "case us_users (snd (ns_world t)) of None \<Rightarrow> True | Some users \<Rightarrow> distinct (map fst users)"
  shows "holds pretty (uuid_text H uid) (JObj (map (\<lambda>(k, x). (k, JStr x)) extra)) (snd (ns_world t'))"
proof -
  let ?body = "registration_payload H uid email v extra" and ?st = "snd (ns_world t)"
  let ?rq = "webhook_request h ?body"
  obtain r st where save: "save_user pretty None (hook_headers ?rq) (Inr ?body) ?st = (r, st)" by fastforce
  have path: "strip_prefix base (hr_url ?rq) = Some ''/users''" by (simp add: webhook_request_def url strip_prefix_Some)
  have call: "\<exists>a. to_users L pretty base N0 ?rq (ns_world t) = (Some (Inr a), (fst (ns_world t), st)) \<and>
      ha_status a = (case r of Inl status \<Rightarrow> status | Inr (status, j) \<Rightarrow> status)"
    using save path
    by (auto simp: to_users_def serve_users_def users_routes_def webhook_request_def json_answer_def split: sum.split prod.split)
  then obtain a where a: "to_users L pretty base N0 ?rq (ns_world t) = (Some (Inr a), (fst (ns_world t), st))"
    "ha_status a = (case r of Inl status \<Rightarrow> status | Inr (status, j) \<Rightarrow> status)" by blast
  from post a(1) have st: "snd (ns_world t') = st" and ok: "is_success (ha_status a)"
    by (auto simp: webhook_registration_def io_try_Ok webhook_post_def io_bind_Some call_net_Some case_Ok split: if_splits)
  obtain y where y: "r = Inr y"
    using save_user_status [of pretty None "hook_headers ?rq" ?body ?st] save ok a(2) by (cases r) auto
  have stored: "stored_as i (JObj (claims_insert kvs ''id'' n)) =
      (uuid_text H uid, JObj (map (\<lambda>(k, x). (k, JStr x)) extra))" if "?body = JObj kvs" for i n kvs
  proof -
    have "json_get (JObj (claims_insert kvs ''id'' n)) k = json_get ?body k" if "k \<noteq> ''id''" for k
      using claims_insert_other [OF that] \<open>?body = JObj kvs\<close> by simp
    then show ?thesis by (simp add: stored_as_def registration_payload_def)
  qed
  obtain kvs where kvs: "(Inr ?body :: nat + json) = Inr (JObj kvs)" "header_contains (hook_headers ?rq) ''authorization''"
    "y = (201, JObj (claims_insert kvs ''id'' (JInt (uint (us_next ?st)))))"
    "us_users st = Some (AList.update (fst (stored_as (us_next ?st) (snd y))) (snd (stored_as (us_next ?st) (snd y)))
       (case us_users ?st of None \<Rightarrow> [] | Some users \<Rightarrow> users))"
    "us_file st = (case None of None \<Rightarrow> map_option (pretty \<circ> JObj) (us_users st) | Some file \<Rightarrow> file)"
    by (rule save_user_Ok [OF save [unfolded y]], rule that, assumption+)
  from kvs(1) have body: "?body = JObj kvs" by simp
  have "stored_as (us_next ?st) (snd y) = (uuid_text H uid, JObj (map (\<lambda>(k, x). (k, JStr x)) extra))"
    unfolding kvs(3) snd_conv by (rule stored [OF body])
  with kvs(4,5) distinct show ?thesis by (auto simp: holds_def st split: option.splits)
qed

text \<open>What hooks reads back as claims is what the store holds.\<close>

lemma claims_read_back:
  assumes run: "login_claims L H (to_users L pretty base N0) h uid email v client scopes t = (Some (Inr claims), t')"
    and url: "wh_url h = base @ ''/users/claims''" and held: "holds pretty (uuid_text H uid) fs (snd (ns_world t))"
    and codec: "\<And>j. json_read L (json_write L j) = Some j"
  shows "fs = JObj claims"
proof -
  let ?body = "login_claims_payload H uid email v client scopes" and ?st = "snd (ns_world t)"
  let ?rq = "webhook_request h ?body"
  from login_claims_Ok [OF run] obtain a where a: "ns_log t' = ns_log t @ [(?rq, Some (Inr a))]"
    "is_success (ha_status a)" "webhook_json L H ''login-claims'' a = Inr (JObj claims)" by blast
  have path: "strip_prefix base (hr_url ?rq) = Some ''/users/claims''" by (simp add: webhook_request_def url strip_prefix_Some)
  have id: "json_get ?body ''user_id'' = Some (JStr (uuid_text H uid))" by (simp add: login_claims_payload_def)
  from held obtain users where "us_users ?st = Some users" "map_of users (uuid_text H uid) = Some fs" by (auto simp: holds_def)
  with id have claims: "user_claims (hook_headers ?rq) (Inr ?body) ?st =
      (if header_contains (hook_headers ?rq) ''authorization'' then Inr fs else Inl 401)"
    by (simp add: user_claims_def has_authorization_def del: json_get.simps)
  have "\<exists>b. to_users L pretty base N0 ?rq (ns_world t) = (Some (Inr b), ns_world t) \<and>
      b = (if header_contains (hook_headers ?rq) ''authorization'' then json_answer L 200 (Some fs) else json_answer L 401 None)"
    using path claims by (auto simp: to_users_def serve_users_def users_routes_def webhook_request_def)
  then obtain b where b: "to_users L pretty base N0 ?rq (ns_world t) = (Some (Inr b), ns_world t)"
    "b = (if header_contains (hook_headers ?rq) ''authorization'' then json_answer L 200 (Some fs) else json_answer L 401 None)"
    by blast
  have "ns_log t' = ns_log t @ [(?rq, Some (Inr b))]"
    using run b(1) by (auto simp: login_claims_def io_try_Ok webhook_post_def io_bind_Some call_net_Some case_Ok split: if_splits)
  with a b(2) have "webhook_json L H ''login-claims'' (json_answer L 200 (Some fs)) = Inr (JObj claims)"
    by (auto simp: json_answer_def is_success_def split: if_splits)
  then show ?thesis using codec
    by (auto simp: webhook_json_def read_limited_def body_chunks_def json_answer_def split: sum.splits read_error.splits if_splits)
qed

text \<open>The keys of a map are distinct, whatever hooks asks.\<close>

definition keys_distinct :: "user_store \<Rightarrow> bool" where
  "keys_distinct st \<longleftrightarrow> (case us_users st of None \<Rightarrow> True | Some users \<Rightarrow> distinct (map fst users))"

lemma save_user_keys: "keys_distinct st \<Longrightarrow> keys_distinct (snd (save_user pretty left h body st))"
  by (auto simp: keys_distinct_def save_user_def Let_def split: sum.split json.split prod.split option.split)

lemma to_users_keys: "keys_distinct (snd w) \<Longrightarrow> keys_distinct (snd (snd (to_users L pretty base N0 rq w)))"
proof -
  assume k: "keys_distinct (snd w)"
  have "keys_distinct (snd (serve_users L pretty left http_method path h body (snd w)))" for left http_method path h body
    using k save_user_keys [OF k, of pretty left h body]
    by (auto simp: serve_users_def split: option.split users_route.split prod.split sum.split)
  from this [of None] k show ?thesis
    by (auto simp: to_users_def Let_def split: option.split prod.split) (metis snd_conv)
qed

lemma honest_registered_identity: "honest N (registered_identity L H N hs i b)"
  unfolding registered_identity_def get_identity_def by (intro honest_intros)

lemma honest_provider_fields: "honest N (provider_fields L H N provider apis k req)"
  unfolding provider_fields_def collect_profile_def fetch_profile_api_def
  by (intro honest_intros) (auto intro: honest_intros)

lemma honest_keys:
  assumes "honest (to_users L pretty base N0) m" "keys_distinct (snd (ns_world s))"
  shows "keys_distinct (snd (ns_world (snd (m s))))"
  using honest_invariant [where I = "\<lambda>w. keys_distinct (snd w)", OF assms(1) to_users_keys assms(2)] .

text \<open>The last call of a registration that succeeds is the one to the deployer.\<close>

lemma register_forwarded:
  assumes "register L H (to_users L pretty base N0) hs req t = (Some (Ok ()), t')" "hs_registration hs = Some h"
    and "keys_distinct (snd (ns_world t))"
  obtains s k extra u where "keys_distinct (snd (ns_world s))"
    "webhook_registration H (to_users L pretty base N0) h (ar_identity_id req) (ar_email req) (email_verified k) extra s =
      (Some (Inr u), t')"
proof -
  let ?N = "to_users L pretty base N0" and ?apis = "used_apis hs req"
  let ?fields = "\<lambda>k. case opt_filter (\<lambda>p. ?apis \<noteq> []) (used_provider req) of
      None \<Rightarrow> io_return (Ok (trait_fields L (ar_traits req)))
    | Some provider \<Rightarrow> io_bind (provider_fields L H ?N provider ?apis k req)
        (\<lambda>r. io_return (case r of Inl e \<Rightarrow> Err e | Inr extra \<Rightarrow> Ok (extend_fields (trait_fields L (ar_traits req)) extra)))"
  from assms(1) have "collect_and_forward L H ?N hs req t = (Some (Inr ()), t')"
    by (auto simp: register_def io_bind_Some register_within_def delete_failed_def split: prod.splits option.splits if_splits)
  with assms(2) obtain t1 k s extra where run: "registered_identity L H ?N hs (ar_identity_id req) (?apis \<noteq> []) t = (Some (Inr k), t1)"
    "?fields k t1 = (Some (Inr extra), s)" "forward_registration H ?N hs req k extra s = (Some (Inr ()), t')"
    by (auto simp: collect_and_forward_def Let_def io_try_Ok)
  have "honest ?N (?fields k)" by (intro honest_intros honest_provider_fields)
  have "keys_distinct (snd (ns_world (snd (registered_identity L H ?N hs (ar_identity_id req) (?apis \<noteq> []) t))))"
    by (rule honest_keys [OF honest_registered_identity assms(3)])
  with run(1) have "keys_distinct (snd (ns_world t1))" by simp
  then have "keys_distinct (snd (ns_world (snd (?fields k t1))))" by (rule honest_keys [OF \<open>honest ?N (?fields k)\<close>])
  with run(2) have "keys_distinct (snd (ns_world s))" by simp
  from run(3) assms(2) obtain u where
    "webhook_registration H ?N h (ar_identity_id req) (ar_email req) (email_verified k) extra s = (Some (Inr u), t')"
    by (auto simp: forward_registration_def io_bind_Some)
  then show thesis by (rule that [OF \<open>keys_distinct (snd (ns_world s))\<close>])
qed

section \<open>From the registration to the token\<close>


section \<open>An example\<close>

text \<open>JSON text that reads back: one short text for the fields of the example, the others counted.\<close>

instance json :: countable
  by countable_datatype

definition demo_fields :: json where
  "demo_fields = JObj [(''name'', JStr ''n'')]"

definition demo_write :: "json \<Rightarrow> string" where
  "demo_write j = (if j = demo_fields then ''f'' else CHR ''x'' # replicate (to_nat j) (CHR ''x''))"

definition demo_read :: "string \<Rightarrow> json option" where
  "demo_read t = (if t = ''identity'' then Some demo_identity else if t = ''f'' then Some demo_fields
     else Some (from_nat (length t - 1)))"

definition store_libs :: libs where
  "store_libs = hook_demo_libs\<lparr>json_write := demo_write, json_read := demo_read\<rparr>"

lemma demo_read_write: "demo_read (demo_write j) = Some j"
  by (simp add: demo_read_def demo_write_def)

definition store_hooks :: hooks_state where
  "store_hooks = demo_hooks\<lparr>hs_registration := Some \<lparr>wh_url = ''d/users'', wh_bearer = Some ''t''\<rparr>,
     hs_login_claims := Some \<lparr>wh_url = ''d/users/claims'', wh_bearer = Some ''t''\<rparr>\<rparr>"

definition empty_store :: user_store where
  "empty_store = \<lparr>us_next = 1, us_users = None, us_file = None\<rparr>"

abbreviation store_net :: "(unit \<times> user_store) net" where
  "store_net \<equiv> to_users store_libs demo_write ''d'' demo_net"

lemma store_get_identity:
  "\<exists>log. get_identity store_libs H store_net ''k'' i b s = (Some (Inr demo_ki), \<lparr>ns_world = ns_world s, ns_log = log\<rparr>)"
proof -
  have "de_identity store_libs demo_identity = Some demo_ki"
    by (simp add: demo_identity_def demo_ki_def de_identity_def de_uuid_def de_string_def de_opt_def de_array_def
        de_address_def store_libs_def hook_demo_libs_def demo_libs_def byte_def de_value_def)
  then show ?thesis
    by (simp add: get_identity_def io_try_def io_bind_def send_hook_def call_net_def demo_net_def classify_answer_def
        read_hook_json_def answer_json_def is_success_def hook_get_def demo_identity_def
        to_users_def identity_url_def store_libs_def demo_read_def prod_eq_iff)
qed

definition store_request :: registration_request where
  "store_request = \<lparr>ar_identity_id = 49, ar_email = ''a'', ar_traits = [(''name'', JStr ''n'')], ar_provider = None,
     ar_granted_scopes = None\<rparr>"

definition registered_store :: user_store where
  "registered_store = \<lparr>us_next = 2, us_users = Some [(''u'', demo_fields)],
     us_file = Some (demo_write (JObj [(''u'', demo_fields)]))\<rparr>"

lemma registration_posted:
  assumes "N (webhook_request h (registration_payload H uid email v extra)) (ns_world s) = (Some (Inr a), w)"
    and "is_success (ha_status a)"
  shows "\<exists>log. webhook_registration H N h uid email v extra s = (Some (Ok ()), \<lparr>ns_world = w, ns_log = log\<rparr>)"
  using assms by (simp add: webhook_registration_def io_try_def io_bind_def webhook_post_def call_net_def)

lemma store_registers:
  "\<exists>log. register store_libs demo_hook_libs store_net store_hooks store_request \<lparr>ns_world = ((), empty_store), ns_log = []\<rparr> =
     (Some (Ok ()), \<lparr>ns_world = ((), registered_store), ns_log = log\<rparr>)"
proof -
  obtain log where "get_identity store_libs demo_hook_libs store_net ''k'' 49 False \<lparr>ns_world = ((), empty_store), ns_log = []\<rparr> =
      (Some (Inr demo_ki), \<lparr>ns_world = ((), empty_store), ns_log = log\<rparr>)"
    using store_get_identity [of demo_hook_libs 49 False "\<lparr>ns_world = ((), empty_store), ns_log = []\<rparr>"] by auto
  then have id: "registered_identity store_libs demo_hook_libs store_net store_hooks 49 False \<lparr>ns_world = ((), empty_store), ns_log = []\<rparr> =
      (Some (Inr demo_ki), \<lparr>ns_world = ((), empty_store), ns_log = log\<rparr>)"
    by (simp add: registered_identity_def io_bind_def store_hooks_def demo_hooks_def)
  have extra: "trait_fields store_libs (ar_traits store_request) = [(''name'', ''n'')]"
    by (simp add: store_request_def trait_fields_def List.map_filter_def extend_fields_def)
  have save: "save_user demo_write None (hook_headers (webhook_request \<lparr>wh_url = ''d/users'', wh_bearer = Some ''t''\<rparr> j))
      (Inr (registration_payload demo_hook_libs 49 ''a'' v [(''name'', ''n'')])) empty_store =
      (Inr (201, JObj (claims_insert
        [(''user_id'', JStr ''u''), (''email'', JStr ''a''), (''email_verified'', JBool v), (''fields'', demo_fields)]
        ''id'' (JInt 1))), registered_store)" for j v
    by (simp add: save_user_def has_authorization_def hook_headers_def webhook_request_def header_contains_def
        registration_payload_def demo_hook_libs_def empty_store_def stored_as_def Let_def claims_insert_def
        registered_store_def demo_fields_def)
  let ?h = "\<lparr>wh_url = ''d/users'', wh_bearer = Some ''t''\<rparr>" and ?v = "email_verified demo_ki"
  let ?body = "registration_payload demo_hook_libs 49 ''a'' ?v [(''name'', ''n'')]"
  have "\<exists>a. store_net (webhook_request ?h ?body) ((), empty_store) = (Some (Inr a), ((), registered_store)) \<and> ha_status a = 201"
    using save [of ?body ?v]
    by (simp add: to_users_def serve_users_def users_routes_def json_answer_def webhook_request_def)
  then obtain a where call: "store_net (webhook_request ?h ?body) ((), empty_store) = (Some (Inr a), ((), registered_store))"
    "is_success (ha_status a)" by (auto simp: is_success_def)
  have "store_net (webhook_request ?h ?body) (ns_world \<lparr>ns_world = ((), empty_store), ns_log = log\<rparr>) =
      (Some (Inr a), ((), registered_store))" using call(1) by simp
  from registration_posted [where N = store_net, OF this call(2)]
  obtain log' where post: "webhook_registration demo_hook_libs store_net ?h 49 ''a'' ?v [(''name'', ''n'')]
      \<lparr>ns_world = ((), empty_store), ns_log = log\<rparr> = (Some (Ok ()), \<lparr>ns_world = ((), registered_store), ns_log = log'\<rparr>)" ..
  have "used_apis store_hooks store_request = []" by (simp add: used_apis_def used_provider_def store_request_def)
  moreover have "opt_filter (\<lambda>p. False) (used_provider store_request) = None"
    by (simp add: used_provider_def store_request_def)
  moreover have "hs_registration store_hooks = Some ?h" "ar_identity_id store_request = 49" "ar_email store_request = ''a''"
    by (simp_all add: store_hooks_def store_request_def)
  ultimately show ?thesis
    using post id extra
    by (simp add: register_def io_bind_def register_within_def collect_and_forward_def io_try_def forward_registration_def)
qed

definition store_mint :: token_hook_request where
  "store_mint = \<lparr>th_subject = ''1'', th_claims_sub = [], th_client_id = ''bff'', th_requested_scopes = []\<rparr>"

lemma claims_posted:
  assumes "N (webhook_request h (login_claims_payload H uid email v client scopes)) (ns_world s) = (Some (Inr a), w)"
    and "is_success (ha_status a)" "webhook_json L H ''login-claims'' a = Inr (JObj claims)"
  shows "\<exists>log. login_claims L H N h uid email v client scopes s = (Some (Ok claims), \<lparr>ns_world = w, ns_log = log\<rparr>)"
  using assms by (simp add: login_claims_def io_try_def io_bind_def webhook_post_def call_net_def)

lemma store_mints:
  "\<exists>resp m'. token_hook store_libs demo_hook_libs store_net store_hooks store_mint
     \<lparr>ns_world = ((), registered_store), ns_log = l\<rparr> = (Some (Ok resp), m')"
proof -
  let ?h = "\<lparr>wh_url = ''d/users/claims'', wh_bearer = Some ''t''\<rparr>"
  let ?body = "login_claims_payload demo_hook_libs 49 ''a'' True ''bff'' []"
  obtain log where id: "get_identity store_libs demo_hook_libs store_net ''k'' 49 False \<lparr>ns_world = ((), registered_store), ns_log = l\<rparr> =
      (Some (Inr demo_ki), \<lparr>ns_world = ((), registered_store), ns_log = log\<rparr>)"
    using store_get_identity [of demo_hook_libs 49 False "\<lparr>ns_world = ((), registered_store), ns_log = l\<rparr>"] by auto
  let ?s = "\<lparr>ns_world = ((), registered_store), ns_log = log\<rparr>"
  have claims: "user_claims (hook_headers (webhook_request ?h j)) (Inr ?body) registered_store = Inr demo_fields" for j
    by (simp add: user_claims_def has_authorization_def hook_headers_def webhook_request_def header_contains_def
        login_claims_payload_def registered_store_def demo_hook_libs_def)
  have call: "store_net (webhook_request ?h ?body) (ns_world ?s) =
      (Some (Inr (json_answer store_libs 200 (Some demo_fields))), ((), registered_store))"
    using claims [of ?body]
    by (simp add: to_users_def serve_users_def users_routes_def webhook_request_def)
  have ok: "is_success (ha_status (json_answer store_libs 200 (Some demo_fields)))"
    by (simp add: json_answer_def is_success_def)
  have "webhook_json store_libs demo_hook_libs ''login-claims'' (json_answer store_libs 200 (Some demo_fields)) =
      Inr (JObj [(''name'', JStr ''n'')])"
    by (simp add: webhook_json_def read_limited_def demo_hook_libs_def json_answer_def body_chunks_def store_libs_def
        demo_write_def demo_read_def MAX_RESPONSE_BYTES_def demo_fields_def)
  from claims_posted [where N = store_net, OF call ok this]
  obtain log' where lc: "login_claims store_libs demo_hook_libs store_net ?h 49 ''a'' True ''bff'' [] ?s =
      (Some (Ok [(''name'', JStr ''n'')]), \<lparr>ns_world = ((), registered_store), ns_log = log'\<rparr>)" ..
  have e: "email_of demo_ki = Some ''a''" "email_verified demo_ki" "is_active demo_ki"
    by (simp_all add: email_of_def email_verified_def is_active_def demo_ki_def eq_ignore_ascii_case_def)
  have p: "parse_uuid store_libs ''1'' = Some 49"
    by (simp add: store_libs_def hook_demo_libs_def demo_libs_def byte_def)
  have "reject_reserved [(''name'', JStr ''n'')] = Ok ()" by (simp add: reject_reserved_def RESERVED_CLAIM_NAMES_def)
  with id lc e p show ?thesis
    by (simp add: token_hook_def io_bind_def issue_claims_def store_mint_def hook_subject_def io_try_def
        lookup_identity_def handler_claims_def store_hooks_def demo_hooks_def)
qed


end
