(* ===== verification/SignIn.thy ===== *)
theory SignIn
  imports BffLogin Challenges
begin

text \<open>
  bff's authorization request (\<open>bff/src/hydra/mod.rs\<close>) meets login's consent (\<open>login/src/challenges.rs\<close>):
  Hydra passes the client and the scopes of the one on to the other.
\<close>

definition passed_on :: "(string \<times> string) list \<Rightarrow> consent_request \<Rightarrow> bool" where
  "passed_on params request \<longleftrightarrow> map_of params ''client_id'' = Some (cr_client_id request) \<and>
     map_option (split_on (CHR '' '')) (map_of params ''scope'') = Some (requested_scope request)"

text \<open>What bff asks for is what login grants: with the same client configured on both sides, the consent of a
  login that bff started is accepted, for exactly the two scopes bff asks for and the audience Hydra
  reports, unless the consent request cannot be read.\<close>

theorem bff_login_is_consented:
  assumes "passed_on (authorize_params h t n challenge) request" "client_id h = lg_bff_client_id (ls_config st)"
    and "consent_challenge (challenge_query_of query) = Some c"
    and "hydra_lookup L M (ls_hydra st) hydra de_consent_request ''consent'' ''consent_challenge'' c = Ok (Some request)"
    and "challenge_url M (ls_hydra st) ''consent/accept'' ''consent_challenge'' c = Ok u"
  shows "snd (consent L M nonce st hydra query) = [put_request L u (JObj
     [(''grant_scope'', JArr [JStr ''openid'', JStr ''offline_access'']),
      (''grant_access_token_audience'', JArr (map JStr (requested_access_token_audience request))),
      (''remember'', JBool False)])]"
proof -
  have scope: "requested_scope request = [''openid'', ''offline_access'']" and "cr_client_id request = client_id h"
    using assms(1) by (simp_all add: passed_on_def authorize_params_def)
  with assms(2) have "check_grantable request (lg_bff_client_id (ls_config st)) = Ok ()"
    by (simp add: check_grantable_ok)
  with assms(3-5) scope show ?thesis
    by (simp add: consent_def hydra_put_def accept_consent_body_def Let_def split: prod.split)
qed

end
