(* ===== verification/Browser.thy ===== *)
theory Browser
  imports BffLogout LoginProxy "HOL-Library.List_Lexorder" "HOL-Library.Char_ord"
begin

text \<open>
  The stand-in browser of the system tests (\<open>system-tests/src/support/browser.rs\<close>): a cookie jar per
  host and redirects followed by hand. It is run against bff's own cookies: a login that it starts at
  bff is the one it finishes there. URLs are texts; how the \<open>url\<close> crate reads them is an argument,
  and so is the world that answers. A panic of the browser is \<open>None\<close>.
\<close>

section \<open>The jar\<close>

text \<open>A \<open>BTreeMap\<close>: the entries in the order of their keys.\<close>

fun bt_insert :: "'k::linorder \<Rightarrow> 'v \<Rightarrow> ('k \<times> 'v) list \<Rightarrow> ('k \<times> 'v) list" where
  "bt_insert k v [] = [(k, v)]"
| "bt_insert k v ((k', v') # m) =
     (if k = k' then (k, v) # m else if k < k' then (k, v) # (k', v') # m else (k', v') # bt_insert k v m)"

type_synonym cookies = "(string \<times> string) list"
type_synonym jar = "string \<Rightarrow> cookies option"

definition store_cookie :: "libs \<Rightarrow> string \<Rightarrow> cookies \<Rightarrow> cookies" where
  "store_cookie L header jar = (case header_str L header of
     None \<Rightarrow> jar
   | Some value \<Rightarrow>
       let (pair, attributes) = (case split_once (CHR '';'') value of Some pa \<Rightarrow> pa | None \<Rightarrow> (value, []))
       in (case split_once (CHR ''='') pair of
          None \<Rightarrow> jar
        | Some (name, val) \<Rightarrow>
            let attributes = to_ascii_lowercase attributes;
                expired = contains ''max-age=0'' attributes \<or> contains ''expires=thu, 01 jan 1970'' attributes \<or> val = []
            in if expired then AList.delete (trim name) jar else bt_insert (trim name) val jar))"

definition store_cookies :: "libs \<Rightarrow> string \<Rightarrow> headers \<Rightarrow> jar \<Rightarrow> jar" where
  "store_cookies L host h jar =
     jar(host \<mapsto> fold (store_cookie L) (header_get_all h ''set-cookie'') (case jar host of None \<Rightarrow> [] | Some m \<Rightarrow> m))"

definition jar_header :: "jar \<Rightarrow> string \<Rightarrow> headers" where
  "jar_header jar host =
     (let text = (case jar host of None \<Rightarrow> [] | Some m \<Rightarrow> join_with ''; '' (map (\<lambda>(k, v). k @ ''='' @ v) m))
      in if text = [] then [] else [(''cookie'', text)])"

section \<open>Requests\<close>

record url_libs =
  url_parse :: "string \<Rightarrow> string option"
  url_join :: "string \<Rightarrow> string \<Rightarrow> string option"
  url_hostname :: "string \<Rightarrow> string option"
  url_pairs :: "string \<Rightarrow> (string \<times> string) list"

datatype body = NoBody | FormBody "(string \<times> string) list" | JsonBody json

record browser_request =
  bq_method :: string
  bq_url :: string
  bq_headers :: headers
  bq_body :: body

record resp =
  rs_status :: nat
  rs_headers :: headers
  rs_body :: string
  rs_url :: string

type_synonym 'w web = "browser_request \<Rightarrow> 'w \<Rightarrow> (nat \<times> headers \<times> string) option \<times> 'w"

datatype follow = FollowNo | FollowAll | FollowUntil string

definition resp_location :: "libs \<Rightarrow> resp \<Rightarrow> string option" where
  "resp_location L r = Option.bind (header_get (rs_headers r) ''location'') (header_str L)"

definition redirect_target :: "libs \<Rightarrow> url_libs \<Rightarrow> resp \<Rightarrow> string option" where
  "redirect_target L U r = Option.bind (resp_location L r) (url_join U (rs_url r))"

definition resp_query :: "url_libs \<Rightarrow> resp \<Rightarrow> string \<Rightarrow> string option" where
  "resp_query U r name = map_option snd (List.find (\<lambda>(k, v). k = name) (url_pairs U (rs_url r)))"

definition browser_cookie :: "url_libs \<Rightarrow> jar \<Rightarrow> string \<Rightarrow> string \<Rightarrow> string option" where
  "browser_cookie U jar u name =
     Option.bind (Option.bind (url_parse U u) (url_hostname U)) (\<lambda>host. Option.bind (jar host) (\<lambda>m. map_of m name))"

definition host_of :: "url_libs \<Rightarrow> string \<Rightarrow> string" where
  "host_of U u = (case url_hostname U u of None \<Rightarrow> [] | Some host \<Rightarrow> host)"

definition once ::
    "libs \<Rightarrow> url_libs \<Rightarrow> 'w web \<Rightarrow> string \<Rightarrow> string \<Rightarrow> body \<Rightarrow> headers \<Rightarrow> jar \<times> 'w \<Rightarrow> (resp \<times> jar \<times> 'w) option" where
  "once L U W http_method u b h s =
     (let host = host_of U u;
          rq = \<lparr>bq_method = http_method, bq_url = u, bq_headers = h @ jar_header (fst s) host, bq_body = b\<rparr>
      in (case W rq (snd s) of
         (None, w) \<Rightarrow> None
       | (Some (status, headers, body_text), w) \<Rightarrow>
           Some (\<lparr>rs_status = status, rs_headers = headers, rs_body = body_text, rs_url = u\<rparr>,
             store_cookies L host headers (fst s), w)))"

definition MAX_REDIRECTS :: nat where "MAX_REDIRECTS = 25"

definition stops_at :: "libs \<Rightarrow> url_libs \<Rightarrow> follow \<Rightarrow> resp \<Rightarrow> string option" where
  "stops_at L U follow r = (case opt_filter (\<lambda>t. rs_status r \<in> {301, 302, 303, 307, 308}) (redirect_target L U r) of
     None \<Rightarrow> None
   | Some target \<Rightarrow> (case follow of
       FollowNo \<Rightarrow> None
     | FollowUntil prefix \<Rightarrow> if starts_with target prefix then None else Some target
     | FollowAll \<Rightarrow> Some target))"

text \<open>The loop: the body goes with the first request only. \<open>None\<close> at the end is the panic.\<close>

fun send_loop ::
    "nat \<Rightarrow> libs \<Rightarrow> url_libs \<Rightarrow> 'w web \<Rightarrow> string \<Rightarrow> string \<Rightarrow> body \<Rightarrow> headers \<Rightarrow> follow \<Rightarrow> jar \<times> 'w
      \<Rightarrow> (resp \<times> jar \<times> 'w) option" where
  "send_loop 0 L U W http_method u b h follow s = None"
| "send_loop (Suc n) L U W http_method u b h follow s = (case once L U W http_method u b h s of
     None \<Rightarrow> None
   | Some (r, s') \<Rightarrow> (case stops_at L U follow r of
       None \<Rightarrow> Some (r, s')
     | Some target \<Rightarrow> send_loop n L U W ''GET'' target NoBody h follow s'))"

definition browser_send ::
    "libs \<Rightarrow> url_libs \<Rightarrow> 'w web \<Rightarrow> string \<Rightarrow> string \<Rightarrow> body \<Rightarrow> headers \<Rightarrow> follow \<Rightarrow> jar \<times> 'w \<Rightarrow> (resp \<times> jar \<times> 'w) option" where
  "browser_send L U W http_method u b h follow s = (case url_parse U u of
     None \<Rightarrow> None | Some u' \<Rightarrow> send_loop MAX_REDIRECTS L U W http_method u' b h follow s)"

definition browser_get ::
    "libs \<Rightarrow> url_libs \<Rightarrow> 'w web \<Rightarrow> string \<Rightarrow> follow \<Rightarrow> jar \<times> 'w \<Rightarrow> (resp \<times> jar \<times> 'w) option" where
  "browser_get L U W u follow s = browser_send L U W ''GET'' u NoBody [] follow s"

definition browser_get_json ::
    "libs \<Rightarrow> url_libs \<Rightarrow> 'w web \<Rightarrow> string \<Rightarrow> jar \<times> 'w \<Rightarrow> (resp \<times> jar \<times> 'w) option" where
  "browser_get_json L U W u s = browser_send L U W ''GET'' u NoBody [(''accept'', ''application/json'')] FollowNo s"

definition browser_post_form ::
    "libs \<Rightarrow> url_libs \<Rightarrow> 'w web \<Rightarrow> string \<Rightarrow> (string \<times> string) list \<Rightarrow> headers \<Rightarrow> follow \<Rightarrow> jar \<times> 'w
      \<Rightarrow> (resp \<times> jar \<times> 'w) option" where
  "browser_post_form L U W u form h follow s = browser_send L U W ''POST'' u (FormBody form) h follow s"

section \<open>What the loop sends\<close>

text \<open>A web that records the requests it is asked.\<close>

definition recorded :: "'w web \<Rightarrow> ('w \<times> browser_request list) web" where
  "recorded W rq w = (let (a, w') = W rq (fst w) in (a, (w', snd w @ [rq])))"

lemma once_recorded:
  "once L U (recorded W) http_method u b h (jar, w, log) = (case once L U W http_method u b h (jar, w) of
     None \<Rightarrow> None
   | Some (r, jar', w') \<Rightarrow> Some (r, jar', w', log @ [\<lparr>bq_method = http_method, bq_url = u,
       bq_headers = h @ jar_header jar (host_of U u), bq_body = b\<rparr>]))"
  by (auto simp: once_def recorded_def Let_def split: prod.split option.split)

definition plain_get :: "browser_request \<Rightarrow> bool" where
  "plain_get rq \<longleftrightarrow> bq_method rq = ''GET'' \<and> bq_body rq = NoBody"

lemma send_loop_sends:
  assumes "send_loop n L U (recorded W) http_method u b h follow (jar, w, log) = Some (r, jar', w', log')"
  shows "\<exists>rq rest. log' = log @ rq # rest \<and> length rest < n \<and> bq_method rq = http_method \<and> bq_url rq = u \<and> bq_body rq = b \<and>
    list_all plain_get rest \<and> stops_at L U follow r = None \<and> rs_url r = bq_url (last (rq # rest))"
  using assms
proof (induction n arbitrary: http_method u b jar w log)
  case (Suc n)
  from Suc.prems obtain r1 jar1 w1 where o: "once L U W http_method u b h (jar, w) = Some (r1, jar1, w1)"
    by (auto simp: once_recorded split: option.splits prod.splits)
  let ?rq = "\<lparr>bq_method = http_method, bq_url = u, bq_headers = h @ jar_header jar (host_of U u), bq_body = b\<rparr>"
  have u: "rs_url r1 = u" using o by (auto simp: once_def Let_def split: prod.splits option.splits)
  show ?case
  proof (cases "stops_at L U follow r1")
    case None
    with Suc.prems o u show ?thesis by (auto simp: once_recorded intro!: exI [of _ ?rq] exI [of _ "[]"])
  next
    case (Some target)
    with Suc.prems o have "send_loop n L U (recorded W) ''GET'' target NoBody h follow (jar1, w1, log @ [?rq]) =
        Some (r, jar', w', log')" by (simp add: once_recorded)
    from Suc.IH [OF this] obtain rq rest where "log' = (log @ [?rq]) @ rq # rest" "length rest < n"
      "bq_method rq = ''GET''" "bq_body rq = NoBody" "list_all plain_get rest" "stops_at L U follow r = None"
      "rs_url r = bq_url (last (rq # rest))" by blast
    moreover from this have "list_all plain_get (rq # rest)" by (simp add: plain_get_def [of rq])
    ultimately show ?thesis by (intro exI [of _ ?rq] exI [of _ "rq # rest"]) simp
  qed
qed simp

text \<open>However the servers redirect it, a browser sends at most 25 requests for one call, the first as it was
  asked and every other a plain \<open>GET\<close>: a form is never submitted twice, and never to another address.\<close>

theorem browser_send_bounded:
  assumes "browser_send L U (recorded W) http_method u b h follow (jar, w, []) = Some (r, jar', w', log)"
  shows "\<exists>rq rest. log = rq # rest \<and> length log \<le> 25 \<and> bq_method rq = http_method \<and> url_parse U u = Some (bq_url rq) \<and>
    bq_body rq = b \<and> list_all plain_get rest \<and> rs_url r = bq_url (last log)"
proof -
  from assms obtain u' where u: "url_parse U u = Some u'"
    "send_loop MAX_REDIRECTS L U (recorded W) http_method u' b h follow (jar, w, []) = Some (r, jar', w', log)"
    by (auto simp: browser_send_def split: option.splits)
  from send_loop_sends [OF u(2)] u(1) show ?thesis by (auto simp: MAX_REDIRECTS_def)
qed

section \<open>Cookies\<close>

lemma map_of_bt_insert [simp]: "map_of (bt_insert k v m) = (map_of m)(k \<mapsto> v)"
  by (induction k v m rule: bt_insert.induct) auto

lemma set_bt_insert: "set (bt_insert k v m) \<subseteq> insert (k, v) (set m)" "fst ` set (bt_insert k v m) = insert k (fst ` set m)"
  by (induction k v m rule: bt_insert.induct) auto

definition visible :: "char \<Rightarrow> bool" where
  "visible c \<longleftrightarrow> 32 \<le> byte c \<and> byte c < 127"

definition jar_cookie :: "string \<times> string \<Rightarrow> bool" where
  "jar_cookie p \<longleftrightarrow> cookie_ok p \<and> list_all visible (cookie_text p)"

definition jar_ok :: "cookies \<Rightarrow> bool" where
  "jar_ok m \<longleftrightarrow> sorted_wrt (<) (map fst m) \<and> list_all jar_cookie m"

lemma jar_ok_insert:
  assumes "jar_ok m" "jar_cookie (k, v)" shows "jar_ok (bt_insert k v m)"
proof -
  have "sorted_wrt (<) (map fst m) \<Longrightarrow> sorted_wrt (<) (map fst (bt_insert k v m))"
  proof (induction k v m rule: bt_insert.induct)
    case (2 k v k' v' m)
    have "set (map fst (bt_insert k v m)) = insert k (fst ` set m)"
      using set_bt_insert(2) [of k v m] by simp
    with 2 show ?case by (auto simp: not_less order.strict_iff_order)
  qed simp
  moreover have "list_all jar_cookie (bt_insert k v m)"
    using assms set_bt_insert(1) [of k v m] by (auto simp: jar_ok_def list_all_iff)
  ultimately show ?thesis using assms(1) by (simp add: jar_ok_def)
qed

lemma sorted_wrt_filter: "sorted_wrt P (map f m) \<Longrightarrow> sorted_wrt P (map f (filter q m))"
  by (induction m) auto

lemma jar_ok_delete: "jar_ok m \<Longrightarrow> jar_ok (AList.delete k m)"
  by (auto simp: jar_ok_def AList.delete_eq list_all_iff intro: sorted_wrt_filter)

text \<open>bff reads from a jar's header what the jar holds.\<close>

text \<open>The documented behaviour of the codecs, of \<open>to_str\<close> on visible text, and that nothing is encoded as
  nothing.\<close>

definition browser_codecs :: "libs \<Rightarrow> bool" where
  "browser_codecs L \<longleftrightarrow> codecs_ok L \<and> (\<forall>v. list_all visible (pct_encode L v) \<and> (v \<noteq> [] \<longrightarrow> pct_encode L v \<noteq> [])) \<and>
     (\<forall>p. to_cookie_value L p \<noteq> []) \<and> (\<forall>s. list_all visible s \<longrightarrow> header_str L s = Some s)"

lemma jar_header_visible:
  assumes "jar_ok m" shows "list_all visible (cookie_header m)"
proof (cases m)
  case Nil
  then show ?thesis by (simp add: cookie_header_def join_with_def)
next
  case (Cons p ps)
  with assms have "\<forall>q \<in> set (p # ps). list_all visible (cookie_text q)"
    by (auto simp: jar_ok_def list_all_iff jar_cookie_def)
  then show ?thesis by (auto simp: Cons cookie_header_def join_with_def list_all_iff visible_def byte_def)
qed

lemma jar_extract:
  assumes "browser_codecs L" "jar_ok m" "jar host = Some m"
  shows "extract_cookie L (jar_header jar host) n = map_option (pct_decode L) (map_of m n)"
proof (cases m)
  case Nil
  with assms(3) show ?thesis by (simp add: jar_header_def join_with_def extract_cookie_def header_get_def)
next
  case (Cons p ps)
  have eq: "(\<lambda>(k, v). k @ CHR ''='' # v) = cookie_text" by (auto simp: cookie_text_def)
  from assms(2) Cons have "fst p \<noteq> []" by (cases p) (simp add: jar_ok_def jar_cookie_def cookie_ok_def)
  then have "cookie_header m \<noteq> []" by (simp add: Cons cookie_header_def join_with_def cookie_text_def)
  then have h: "header_get (jar_header jar host) ''cookie'' = Some (cookie_header m)"
    using assms(3) by (simp add: jar_header_def eq cookie_header_def [symmetric] header_get_def Let_def)
  have "distinct (map fst m)" using assms(2) by (auto simp: jar_ok_def strict_sorted_iff)
  then have "filter (\<lambda>p. fst p = n) m = (case map_of m n of None \<Rightarrow> [] | Some v \<Rightarrow> [(n, v)])"
  proof (induction m)
    case (Cons q m)
    then have "map_of m (fst q) = None" by (simp add: map_of_eq_None_iff)
    with Cons show ?case by (cases q) auto
  qed simp
  moreover have "header_str L (cookie_header m) = Some (cookie_header m)" "list_all cookie_ok m"
    using assms(1,2) jar_header_visible [OF assms(2)] by (auto simp: browser_codecs_def jar_ok_def list_all_iff jar_cookie_def)
  ultimately show ?thesis using extract_cookie_unambiguous [OF _ h] by (simp split: option.split)
qed

text \<open>What the jar makes of bff's \<open>Set-Cookie\<close>.\<close>

lemma contains_hd: "c \<notin> set s \<Longrightarrow> \<not> contains (c # cs) s"
  by (induction s) (auto simp: starts_with_def)

lemma nat_str_digits: "set (nat_str n) \<subseteq> range digit"
proof (induction n rule: nat_str.induct)
  case (1 n)
  then show ?case by (cases "n < 10") (auto simp: nat_str.simps [of n])
qed

lemma digit_byte: "byte (digit n) = 48 + n mod 10"
  by (simp add: digit_def byte_def)

lemma nat_str_lower: "to_ascii_lowercase (nat_str n) = nat_str n"
proof -
  have "ascii_lower c = c" if "c \<in> set (nat_str n)" for c
    using that nat_str_digits [of n] by (auto simp: ascii_lower_def digit_byte)
  then show ?thesis by (simp add: to_ascii_lowercase_def map_idI)
qed

lemma nat_str_zero: "starts_with (nat_str n) ''0'' \<longleftrightarrow> n = 0"
proof (induction n rule: nat_str.induct)
  case (1 n)
  show ?case
  proof (cases "n < 10")
    case True
    have "n = 0" if "digit n = CHR ''0''"
    proof -
      from that have "byte (digit n) = 48" by (simp add: byte_def)
      with True show ?thesis by (simp add: digit_byte)
    qed
    moreover have "digit 0 = CHR ''0''" by code_simp
    ultimately have "digit n = CHR ''0'' \<longleftrightarrow> n = 0" by blast
    with True show ?thesis by (auto simp: nat_str.simps [of n] starts_with_def)
  next
    case False
    then have "nat_str (n div 10) \<noteq> []" by (simp add: nat_str.simps [of "n div 10"])
    with False 1 show ?thesis
      by (cases "nat_str (n div 10)") (auto simp: nat_str.simps [of n] starts_with_def)
  qed
qed

lemma attributes_lower:
  "0 \<le> n \<Longrightarrow> to_ascii_lowercase (cookie_attributes ''/'' n secure) =
    ''; httponly; path=/; samesite=lax'' @ (if secure then ''; secure'' else []) @ ''; max-age='' @ nat_str (nat n)"
proof -
  have app: "to_ascii_lowercase (u @ v) = to_ascii_lowercase u @ to_ascii_lowercase v" for u v
    by (simp add: to_ascii_lowercase_def)
  have "to_ascii_lowercase ''; HttpOnly; Path=/; SameSite=Lax'' = ''; httponly; path=/; samesite=lax''"
    "to_ascii_lowercase ''; Secure'' = ''; secure''" "to_ascii_lowercase ''; Max-Age='' = ''; max-age=''"
    "to_ascii_lowercase [] = []" by code_simp+
  moreover have "cookie_attributes ''/'' n secure =
      ''; HttpOnly; Path=/; SameSite=Lax'' @ (if secure then ''; Secure'' else []) @ ''; Max-Age='' @ int_str n"
    by (simp add: cookie_attributes_def)
  moreover assume "0 \<le> n"
  then have "int_str n = nat_str (nat n)" by (simp add: int_str_def)
  ultimately show ?thesis using nat_str_lower [of "nat n"] by (simp only: app if_distrib [of to_ascii_lowercase])
qed

lemma attributes_expire:
  assumes "0 \<le> n"
  shows "contains ''max-age=0'' (tl (to_ascii_lowercase (cookie_attributes ''/'' n secure))) \<longleftrightarrow> n = 0"
    and "\<not> contains ''expires=thu, 01 jan 1970'' (tl (to_ascii_lowercase (cookie_attributes ''/'' n secure)))"
proof -
  have no: "c \<notin> set (nat_str k)" if "byte c < 48 \<or> 58 \<le> byte c" for c k
    using nat_str_digits [of k] that by (auto simp: digit_byte dest!: subsetD)
  have "\<not> contains ''max-age=0'' (nat_str k)" "\<not> contains ''expires=thu, 01 jan 1970'' (nat_str k)" for k
    by (rule contains_hd, rule no, simp add: byte_def)+
  then show "contains ''max-age=0'' (tl (to_ascii_lowercase (cookie_attributes ''/'' n secure))) \<longleftrightarrow> n = 0"
    "\<not> contains ''expires=thu, 01 jan 1970'' (tl (to_ascii_lowercase (cookie_attributes ''/'' n secure)))"
    using assms nat_str_zero [of "nat n"] by (simp_all add: attributes_lower starts_with_def)
qed

text \<open>A cookie of bff's is stored under its name, or removed when it has no age or no value.\<close>

lemma trim_name: "cookie_ok (name, []) \<Longrightarrow> list_all plain_char name \<Longrightarrow> trim name = name"
  by (rule trim_plain) (auto simp: cookie_ok_def plain_char_def list_all_iff)

definition bff_name :: "string \<Rightarrow> bool" where
  "bff_name name \<longleftrightarrow> cookie_ok (name, []) \<and> list_all plain_char name"

lemma store_bff_cookie:
  assumes "codecs_ok L" "bff_name name" "0 \<le> age" "header_str L (build_cookie L name v ''/'' age secure) = Some (build_cookie L name v ''/'' age secure)"
  shows "store_cookie L (build_cookie L name v ''/'' age secure) m =
    (if age = 0 \<or> pct_encode L v = [] then AList.delete name m else bt_insert name (pct_encode L v) m)"
proof -
  have semi: "CHR '';'' \<notin> set (name @ CHR ''='' # pct_encode L v)"
    using assms(1,2) by (auto simp: codecs_ok_def bff_name_def cookie_ok_def plain_char_def list_all_iff)
  have shape: "build_cookie L name v ''/'' age secure =
      (name @ CHR ''='' # pct_encode L v) @ CHR '';'' # tl (cookie_attributes ''/'' age secure)"
    by (simp add: build_cookie_def cookie_attributes_def)
  have "split_once (CHR '';'') (build_cookie L name v ''/'' age secure) =
      Some (name @ CHR ''='' # pct_encode L v, tl (cookie_attributes ''/'' age secure))"
    unfolding shape by (rule split_once_append [OF semi])
  moreover have "split_once (CHR ''='') (name @ CHR ''='' # pct_encode L v) = Some (name, pct_encode L v)"
    using assms(2) by (intro split_once_append) (simp add: bff_name_def cookie_ok_def)
  moreover have "to_ascii_lowercase (tl (cookie_attributes ''/'' age secure)) = tl (to_ascii_lowercase (cookie_attributes ''/'' age secure))"
    by (simp add: to_ascii_lowercase_def map_tl)
  moreover have "trim name = name" using assms(2) by (simp add: bff_name_def trim_name)
  ultimately show ?thesis
    using attributes_expire [OF assms(3), of secure] assms(4) by (simp add: store_cookie_def Let_def)
qed

lemma bff_cookie_ok:
  assumes "codecs_ok L" "bff_name name"
  shows "cookie_ok (name, pct_encode L v)"
proof -
  have plain: "list_all plain_char (pct_encode L v)" using assms(1) by (simp add: codecs_ok_def)
  then have "CHR '';'' \<notin> set (pct_encode L v)" by (auto simp: list_all_iff plain_char_def)
  moreover have "pct_encode L v = [] \<or> plain_char (last (pct_encode L v))"
    using plain by (metis last_in_set list_all_iff)
  ultimately show ?thesis using assms(2) by (simp add: bff_name_def cookie_ok_def)
qed

lemma bff_jar_cookie:
  "browser_codecs L \<Longrightarrow> bff_name name \<Longrightarrow> list_all visible name \<Longrightarrow> jar_cookie (name, pct_encode L v)"
  using bff_cookie_ok [of L name v]
  by (auto simp: jar_cookie_def browser_codecs_def cookie_text_def list_all_iff visible_def byte_def)

lemma build_cookie_visible:
  assumes "browser_codecs L" "list_all visible name" "0 \<le> age"
  shows "list_all visible (build_cookie L name v ''/'' age secure)"
proof -
  have "visible c" if "c \<in> set (nat_str n)" for c n
    using that nat_str_digits [of n] by (auto simp: visible_def digit_byte)
  moreover have "list_all visible ''; HttpOnly; Path=/; SameSite=Lax'' \<and> list_all visible ''; Secure'' \<and> list_all visible ''; Max-Age=''"
    by code_simp
  ultimately show ?thesis
    using assms by (auto simp: build_cookie_def cookie_attributes_def int_str_def list_all_iff browser_codecs_def)
qed

lemma store_visible:
  assumes "browser_codecs L" "bff_name name" "list_all visible name" "0 \<le> age" "jar_ok m"
  shows "store_cookie L (build_cookie L name v ''/'' age secure) m =
      (if age = 0 \<or> pct_encode L v = [] then AList.delete name m else bt_insert name (pct_encode L v) m)"
    and "jar_ok (store_cookie L (build_cookie L name v ''/'' age secure) m)"
proof -
  have "codecs_ok L" "header_str L (build_cookie L name v ''/'' age secure) = Some (build_cookie L name v ''/'' age secure)"
    using assms(1) build_cookie_visible [OF assms(1,3,4)] by (auto simp: browser_codecs_def)
  from store_bff_cookie [OF this(1) assms(2,4) this(2)]
  show "store_cookie L (build_cookie L name v ''/'' age secure) m =
      (if age = 0 \<or> pct_encode L v = [] then AList.delete name m else bt_insert name (pct_encode L v) m)" .
  then show "jar_ok (store_cookie L (build_cookie L name v ''/'' age secure) m)"
    using jar_ok_insert [OF assms(5) bff_jar_cookie [OF assms(1-3)]] jar_ok_delete [OF assms(5)] by simp
qed

section \<open>bff's cookies\<close>

lemma cookie_token_name:
  assumes "is_cookie_token name" shows "bff_name name" "list_all visible name"
proof -
  have "plain_char c \<and> visible c \<and> c \<noteq> CHR ''=''" if "c \<in> set name" for c
  proof -
    let ?extra = "''!#$%&'' @ [CHR 0x27] @ ''*+-.^_'' @ [CHR 0x60] @ ''|~''"
    have "list_all (\<lambda>c. plain_char c \<and> visible c \<and> c \<noteq> CHR ''='') ?extra" by code_simp
    moreover have "is_ascii_alphanumeric c \<or> c \<in> set ?extra"
      using assms that by (auto simp: is_cookie_token_def list_all_iff)
    moreover have "plain_char c \<and> visible c \<and> c \<noteq> CHR ''=''" if "is_ascii_alphanumeric c"
      using that by (auto simp: is_ascii_alphanumeric_def plain_char_def visible_def ws1_def byte_def Let_def)
    ultimately show ?thesis by (auto simp: list_all_iff)
  qed
  moreover have "name \<noteq> []" using assms by (simp add: is_cookie_token_def)
  ultimately show "bff_name name" "list_all visible name"
    by (auto simp: bff_name_def cookie_ok_def list_all_iff plain_char_def)
qed

lemma bff_cookie_names:
  assumes "check_settings L prof c = Ok ()"
  shows "bff_name (session_cookie L c)" "list_all visible (session_cookie L c)"
    "bff_name (login_cookie L c)" "list_all visible (login_cookie L c)" "session_cookie L c \<noteq> login_cookie L c"
proof -
  from assms have t: "is_cookie_token (session_cookie_name c)" and ne: "session_cookie L c \<noteq> login_cookie L c"
    by (simp_all add: check_settings_def)
  have "is_cookie_token LOGIN_COOKIE" "is_cookie_token HOST_COOKIE_PREFIX" by code_simp+
  then have "is_cookie_token (session_cookie L c)" "is_cookie_token (login_cookie L c)"
    using t by (auto simp: session_cookie_def login_cookie_def cookie_name_def is_cookie_token_def list_all_append)
  with cookie_token_name ne show "bff_name (session_cookie L c)" "list_all visible (session_cookie L c)"
    "bff_name (login_cookie L c)" "list_all visible (login_cookie L c)" "session_cookie L c \<noteq> login_cookie L c" by auto
qed

text \<open>What a request carries beside the jar's header does not matter when it has no cookie of its own.\<close>

lemma extract_beside: "header_get h ''cookie'' = None \<Longrightarrow> extract_cookie L (h @ h') n = extract_cookie L h' n"
  by (simp add: extract_cookie_def header_get_def map_add_def)

text \<open>The jar of a host after bff's response, and what bff reads from it in the next request.\<close>

lemma stored_jar:
  "store_cookies L host h jar host = Some (fold (store_cookie L) (header_get_all h ''set-cookie'') (case jar host of None \<Rightarrow> [] | Some m \<Rightarrow> m))"
  by (simp add: store_cookies_def)

definition held :: "jar \<Rightarrow> string \<Rightarrow> cookies" where
  "held jar host = (case jar host of None \<Rightarrow> [] | Some m \<Rightarrow> m)"

lemma login_jar:
  assumes "browser_codecs L" "check_settings L prof (app_config a) = Ok ()" "jar_ok (held jar host)"
    and "start_login L a (t1, t2, t3) requested = Ok r"
  obtains uri where "uri \<in> set (redirect_uri_allowlist (app_config a))"
    "opt_or (opt_filter (\<lambda>r. r \<noteq> []) requested) (default_redirect_uri (app_config a)) = Some uri"
    "store_cookies L host (rsp_headers r) jar host = Some (bt_insert (login_cookie L (app_config a))
       (pct_encode L (to_cookie_value L (new_pending_login t1 t2 t3 uri))) (held jar host))"
    "jar_ok (held (store_cookies L host (rsp_headers r) jar) host)"
proof -
  let ?login = "login_cookie L (app_config a)" and ?m = "held jar host"
  from assms(4) obtain uri where uri: "uri \<in> set (redirect_uri_allowlist (app_config a))"
      "opt_or (opt_filter (\<lambda>r. r \<noteq> []) requested) (default_redirect_uri (app_config a)) = Some uri"
    and set1: "header_get_all (rsp_headers r) ''set-cookie'' = [build_cookie L ?login
      (to_cookie_value L (new_pending_login t1 t2 t3 uri)) ''/'' LOGIN_COOKIE_MAX_AGE_SECS (secure_cookies L (app_config a))]"
    by (auto simp: start_login_def login_start_ok header_get_all_def split: sum.splits)
  let ?p = "to_cookie_value L (new_pending_login t1 t2 t3 uri)"
  have "?p \<noteq> []" "\<forall>v. v \<noteq> [] \<longrightarrow> pct_encode L v \<noteq> []" using assms(1) by (simp_all add: browser_codecs_def)
  then have "pct_encode L ?p \<noteq> []" by blast
  with store_visible [OF assms(1) bff_cookie_names(3,4) [OF assms(2)], of LOGIN_COOKIE_MAX_AGE_SECS ?m ?p "secure_cookies L (app_config a)"]
    assms(3) that [OF uri] show thesis
    by (simp add: stored_jar set1 held_def LOGIN_COOKIE_MAX_AGE_SECS_def)
qed

lemma callback_jar:
  assumes "browser_codecs L" "check_settings L prof (app_config a) = Ok ()" "jar_ok (held jar host)"
    and "callback L J a w h query = (Ok r, a')"
    and "0 < session_max_age_secs (refresh_ttl (app_hydra a))" "cw_session_id w \<noteq> []"
  shows "store_cookies L host (rsp_headers r) jar host = Some (AList.delete (login_cookie L (app_config a))
      (bt_insert (session_cookie L (app_config a)) (pct_encode L (cw_session_id w)) (held jar host)))"
    and "jar_ok (held (store_cookies L host (rsp_headers r) jar) host)"
proof -
  let ?c = "app_config a" let ?login = "login_cookie L ?c" and ?session = "session_cookie L ?c"
  let ?age = "session_max_age_secs (refresh_ttl (app_hydra a))" and ?m = "held jar host"
  from assms(4) have set2: "header_get_all (rsp_headers r) ''set-cookie'' =
      [build_cookie L ?session (cw_session_id w) ''/'' ?age (secure_cookies L ?c), clear_cookie L ?login ''/'' (secure_cookies L ?c)]"
    by (auto simp: callback_def Let_def header_get_all_def split: prod.splits sum.splits elim!: callback_complete_ok)
  have "pct_encode L (cw_session_id w) \<noteq> []" using assms(1,6) by (simp add: browser_codecs_def)
  then have "store_cookie L (build_cookie L ?session (cw_session_id w) ''/'' ?age (secure_cookies L ?c)) ?m =
      bt_insert ?session (pct_encode L (cw_session_id w)) ?m \<and> jar_ok (bt_insert ?session (pct_encode L (cw_session_id w)) ?m)"
    using store_visible [OF assms(1) bff_cookie_names(1,2) [OF assms(2)], of ?age ?m "cw_session_id w" "secure_cookies L ?c"]
      assms(3,5) by simp
  then show "store_cookies L host (rsp_headers r) jar host =
      Some (AList.delete ?login (bt_insert ?session (pct_encode L (cw_session_id w)) ?m))"
    "jar_ok (held (store_cookies L host (rsp_headers r) jar) host)"
    using store_visible [OF assms(1) bff_cookie_names(3,4) [OF assms(2)], of 0
        "bt_insert ?session (pct_encode L (cw_session_id w)) ?m" "[]" "secure_cookies L ?c"]
    by (simp_all add: stored_jar set2 clear_cookie_def held_def)
qed

lemma logout_jar:
  assumes "browser_codecs L" "check_settings L prof (app_config a) = Ok ()" "jar_ok (held jar host)"
    and "logout L a h destination = (Ok r, a')"
  shows "store_cookies L host (rsp_headers r) jar host = Some (AList.delete (session_cookie L (app_config a)) (held jar host))"
    and "jar_ok (held (store_cookies L host (rsp_headers r) jar) host)"
proof -
  let ?session = "session_cookie L (app_config a)"
  from assms(4) have set3: "header_get_all (rsp_headers r) ''set-cookie'' = [clear_cookie L ?session ''/'' (secure_cookies L (app_config a))]"
    by (auto simp: logout_def Let_def header_get_all_def split: prod.splits sum.splits)
  show "store_cookies L host (rsp_headers r) jar host = Some (AList.delete ?session (held jar host))"
    "jar_ok (held (store_cookies L host (rsp_headers r) jar) host)"
    using store_visible [OF assms(1) bff_cookie_names(1,2) [OF assms(2)], of 0 "held jar host" "[]" "secure_cookies L (app_config a)"] assms(3)
    by (simp_all add: stored_jar set3 clear_cookie_def held_def)
qed

text \<open>What bff reads from the header of a jar that stores what its responses set.\<close>

lemma jar_reads:
  assumes "browser_codecs L" "jar_ok (held jar host)" "header_get h ''cookie'' = None"
  shows "extract_cookie L (h @ jar_header jar host) n = map_option (pct_decode L) (map_of (held jar host) n)"
proof (cases "jar host")
  case None
  then show ?thesis using assms(3) by (simp add: extract_beside held_def jar_header_def extract_cookie_def header_get_def)
next
  case (Some m)
  with assms jar_extract [OF assms(1), of m jar host n] show ?thesis by (simp add: extract_beside held_def)
qed

text \<open>A browser finishes at bff the login it started there. With the cookies of bff's response to
  \<open>/login\<close> in its jar, whatever else the jar holds, it brings \<open>/callback\<close> the very login that was started;
  with those of a successful \<open>/callback\<close> stored on top, it brings the proxy the new session's id and no
  longer the login; and after a \<open>/logout\<close> it brings neither. The names bff's configuration check admits
  are enough for this: they are names a browser keeps, and never those of both cookies.\<close>

theorem browser_finishes_the_login:
  assumes "browser_codecs L" "check_settings L prof (app_config a) = Ok ()"
    and "jar_ok (held jar host)"
    and "start_login L a (t1, t2, t3) requested = Ok r" "jar1 = store_cookies L host (rsp_headers r) jar"
    and "app_config a1 = app_config a" "0 < session_max_age_secs (refresh_ttl (app_hydra a1))" "cw_session_id w \<noteq> []"
    and "header_get h ''cookie'' = None" "callback L J a1 w (h @ jar_header jar1 host) query = (Ok r1, a2)"
    and "jar2 = store_cookies L host (rsp_headers r1) jar1"
    and "app_config a3 = app_config a" "header_get h' ''cookie'' = None"
    and "logout L a3 (h' @ jar_header jar2 host) destination = (Ok r2, a4)" "jar3 = store_cookies L host (rsp_headers r2) jar2"
  shows "(\<exists>uri \<in> set (redirect_uri_allowlist (app_config a)).
      Option.bind (extract_cookie L (h @ jar_header jar1 host) (login_cookie L (app_config a))) (from_cookie_value L) =
        Some \<lparr>pl_state = t1, pl_verifier = t2, pl_nonce = t3, pl_redirect_uri = uri\<rparr>) \<and>
    extract_cookie L (jar_header jar2 host) (session_cookie L (app_config a)) = Some (cw_session_id w) \<and>
    extract_cookie L (jar_header jar2 host) (login_cookie L (app_config a)) = None \<and>
    extract_cookie L (jar_header jar3 host) (session_cookie L (app_config a)) = None \<and>
    extract_cookie L (jar_header jar3 host) (login_cookie L (app_config a)) = None"
proof -
  let ?c = "app_config a"
  let ?login = "login_cookie L ?c" and ?session = "session_cookie L ?c"
  have codecs: "codecs_ok L" "\<And>v. pct_decode L (pct_encode L v) = v" using assms(1) by (auto simp: browser_codecs_def codecs_ok_def)
  from login_jar [OF assms(1-4), folded assms(5)] obtain uri where uri: "uri \<in> set (redirect_uri_allowlist ?c)"
    and jar1: "jar1 host = Some (bt_insert ?login (pct_encode L (to_cookie_value L (new_pending_login t1 t2 t3 uri))) (held jar host))"
      "jar_ok (held jar1 host)" by metis
  note set1 = assms(2) [folded assms(6)] and set3 = assms(2) [folded assms(12)]
  note jar2 = callback_jar [OF assms(1) set1 jar1(2) assms(10,7,8), folded assms(11), unfolded assms(6)]
  note jar3 = logout_jar [OF assms(1) set3 jar2(2) assms(14), folded assms(15), unfolded assms(12)]
  have reads: "extract_cookie L (h @ jar_header jar1 host) n = map_option (pct_decode L) (map_of (held jar1 host) n)"
    "extract_cookie L (jar_header jar2 host) n = map_option (pct_decode L) (map_of (held jar2 host) n)"
    "extract_cookie L (jar_header jar3 host) n = map_option (pct_decode L) (map_of (held jar3 host) n)" for n
    using jar_reads [OF assms(1) jar1(2) assms(9)] jar_reads [OF assms(1) jar2(2), of "[]"] jar_reads [OF assms(1) jar3(2), of "[]"]
    by (simp_all add: header_get_def)
  have "Option.bind (extract_cookie L (h @ jar_header jar1 host) ?login) (from_cookie_value L) = Some (new_pending_login t1 t2 t3 uri)"
    by (simp add: reads jar1(1) held_def codecs from_to_cookie_value)
  then show ?thesis
    using uri bff_cookie_names(5) [OF assms(2)] jar1(1) jar2(1) jar3(1)
    by (auto simp: reads held_def codecs(2) map_of_delete new_pending_login_def)
qed

section \<open>An example\<close>

lemma codec_browser: "browser_codecs codec_libs"
proof -
  have "list_all visible (enc2 v)" for v
    using enc2_plain [of v] by (auto simp: list_all_iff visible_def)
  moreover have "enc2 v \<noteq> []" if "v \<noteq> []" for v using that by (cases v) (simp_all add: enc2_def)
  moreover have "to_cookie_value codec_libs p \<noteq> []" for p
    by (simp add: to_cookie_value_def codec_libs_def demo_libs_def write_pending_def pending_json_def join_with_def)
  ultimately show ?thesis using codec_libs_ok by (simp add: browser_codecs_def) (simp add: codec_libs_def)
qed

lemma codec_settings: "check_settings codec_libs Prod demo_config = Ok ()"
  by (simp add: codec_libs_def demo_config_def default_config_def demo_libs_def settings_simps redirect_uri_ok_def
      is_cookie_token_def session_cookie_def login_cookie_def cookie_name_def secure_cookies_def
      has_prefix_def get_to_def char_boundary_def HOST_COOKIE_PREFIX_def SECURE_COOKIE_PREFIX_def
      eq_ignore_ascii_case_def to_ascii_lowercase_def ascii_lower_def byte_def LOGIN_COOKIE_def
      COMMITTED_DEV_SECRETS_def MIN_PROD_API_KEY_LEN_def MAX_REFRESH_TOKEN_TTL_SECS_def
      DEFAULT_REFRESH_TOKEN_TTL_SECS_def is_route_prefix_def RESERVED_PREFIXES_def upstream_ok_def
      is_ascii_alphanumeric_def is_ascii_graphic_def check_origin_def starts_with_def Let_def)

theorem browser_finishes_the_login_witness:
  "\<exists>r jar1 r1 a2 jar2. start_login codec_libs (demo_app empty_sessions) (''s'', ''v'', ''n'') (Some ''https://app.test/'') = Ok r \<and>
     jar1 = store_cookies codec_libs ''bff'' (rsp_headers r) (\<lambda>host. None) \<and>
     callback codec_libs demo_jwt (demo_app empty_sessions) demo_world (jar_header jar1 ''bff'') demo_query = (Ok r1, a2) \<and>
     jar2 = store_cookies codec_libs ''bff'' (rsp_headers r1) jar1 \<and>
     extract_cookie codec_libs (jar_header jar2 ''bff'') ''__Host-wa_session'' = Some ''new''"
proof -
  let ?a = "demo_app empty_sessions"
  have c: "app_config ?a = demo_config" by (simp add: demo_app_def)
  let ?set = "build_cookie codec_libs (login_cookie codec_libs demo_config)
      (to_cookie_value codec_libs demo_pending) ''/'' LOGIN_COOKIE_MAX_AGE_SECS (secure_cookies codec_libs demo_config)"
  obtain r where r: "start_login codec_libs ?a (''s'', ''v'', ''n'') (Some ''https://app.test/'') = Inr r"
    "header_get_all (rsp_headers r) ''set-cookie'' = [?set]"
    by (simp add: start_login_def login_start_def c allows_redirect_uri_iff demo_allowlist Let_def
        new_pending_login_def demo_pending_def header_get_all_def)
  let ?jar1 = "store_cookies codec_libs ''bff'' (rsp_headers r) (\<lambda>host. None)"
  let ?enc = "pct_encode codec_libs (to_cookie_value codec_libs demo_pending)"
  have "?enc \<noteq> []" using codec_browser by (auto simp: browser_codecs_def)
  then have "?jar1 ''bff'' = Some [(login_cookie codec_libs demo_config, ?enc)]"
    using store_visible(1) [OF codec_browser bff_cookie_names(3,4) [OF codec_settings], of LOGIN_COOKIE_MAX_AGE_SECS "[]"
        "to_cookie_value codec_libs demo_pending" "secure_cookies codec_libs demo_config"]
    by (simp add: stored_jar r(2) LOGIN_COOKIE_MAX_AGE_SECS_def jar_ok_def)
  then have jar1: "jar_header ?jar1 ''bff'' = [(''cookie'', demo_cookies)]"
    by (simp add: jar_header_def demo_cookies_def cookie_header_def cookie_text_def join_with_def demo_cookie_names)
  obtain r1 a2 where cb: "callback codec_libs demo_jwt ?a demo_world ([] @ jar_header ?jar1 ''bff'') demo_query = (Inr r1, a2)"
    using demo_callback [of empty_sessions] by (auto simp: jar1)
  let ?jar2 = "store_cookies codec_libs ''bff'' (rsp_headers r1) ?jar1" and ?o = "[(''origin'', ''https://app.test'')]"
  have "require_trusted_origin codec_libs (?o @ h) (app_origins ?a) = Ok ()" for h
    by (simp add: require_trusted_origin_ok request_origin_def header_get_def codec_libs_def demo_app_def)
  then have "\<exists>r2 a4. logout codec_libs ?a (?o @ jar_header ?jar2 ''bff'') None = (Inr r2, a4)"
    by (simp add: logout_def Let_def case_prod_beta)
  then obtain r2 a4 where lo: "logout codec_libs ?a (?o @ jar_header ?jar2 ''bff'') None = (Inr r2, a4)" by blast
  have no_cookies: "jar_ok (held (\<lambda>host. None) ''bff'')" by (simp add: held_def jar_ok_def)
  have "0 < session_max_age_secs (refresh_ttl (app_hydra ?a))" "cw_session_id demo_world \<noteq> []"
    by (simp_all add: demo_app_def session_max_age_secs_def demo_hydra_def demo_world_def num_seconds_def seconds_def MAX_SESSION_LIFETIME_def)
  from browser_finishes_the_login [OF codec_browser codec_settings [folded c] no_cookies r(1) refl refl this _ cb refl refl _ lo refl]
  have "extract_cookie codec_libs (jar_header ?jar2 ''bff'') (session_cookie codec_libs demo_config) = Some ''new''"
    by (simp add: c header_get_def demo_world_def)
  with r(1) cb show ?thesis by (auto simp: demo_cookie_names)
qed

end
