(* ===== verification/Doubles.thy ===== *)
theory Doubles
  imports Browser Proxy
begin

text \<open>
  The stand-ins around the services: the deployer's webhooks and upstream of the system tests
  (\<open>system-tests/src/support/stubs.rs\<close>), the login host as its reverse proxy presents it
  (\<open>support/edge.rs\<close>), and the demo upstream (\<open>testing/downstream-service\<close>). What they are asked
  through bff is what its proxy sends. A panic is \<open>None\<close>.
\<close>

section \<open>JSON values by index\<close>

text \<open>\<open>Value\<close> indexed by a key or a position: \<open>Null\<close> where there is nothing; and the assignment to a key.\<close>

definition json_at :: "json \<Rightarrow> string \<Rightarrow> json" where
  "json_at j k = (case json_get j k of None \<Rightarrow> JNull | Some v \<Rightarrow> v)"

fun json_nth :: "json \<Rightarrow> nat \<Rightarrow> json" where
  "json_nth (JArr xs) i = (if i < length xs then xs ! i else JNull)"
| "json_nth _ i = JNull"

fun json_set :: "json \<Rightarrow> string \<Rightarrow> json \<Rightarrow> json option" where
  "json_set (JObj kvs) k v = Some (JObj (filter (\<lambda>(k', _). k' \<noteq> k) kvs @ [(k, v)]))"
| "json_set JNull k v = Some (JObj [(k, v)])"
| "json_set _ k v = None"

text \<open>\<open>==\<close> on values: of two members with one name the last counts, and their order does not.\<close>

fun json_norm :: "json \<Rightarrow> json" where
  "json_norm (JObj kvs) = JObj (fold (\<lambda>(k, v). bt_insert k v) (map (map_prod id json_norm) kvs) [])"
| "json_norm (JArr xs) = JArr (map json_norm xs)"
| "json_norm j = j"

definition json_eq :: "json \<Rightarrow> json \<Rightarrow> bool" where
  "json_eq a b \<longleftrightarrow> json_norm a = json_norm b"

definition str_or_empty :: "json \<Rightarrow> string" where
  "str_or_empty j = (case as_str j of None \<Rightarrow> [] | Some s \<Rightarrow> s)"

definition items :: "json \<Rightarrow> json list" where
  "items j = (case as_array j of None \<Rightarrow> [] | Some xs \<Rightarrow> xs)"

section \<open>The deployer's webhooks and upstream\<close>

record stubs =
  registrations :: "json list"
  verifications :: "json list"
  kratos_admin_url :: string

definition stub_claims :: "json \<Rightarrow> json" where
  "stub_claims rq =
     (let email = str_or_empty (json_at rq ''email'')
      in if starts_with email ''evil-'' then JObj [(''aud'', JArr [JStr ''somewhere-else''])]
         else (let admin = starts_with email ''admin-'';
                   roles = (if admin then JArr [JStr ''member'', JStr ''admin''] else JArr [JStr ''member''])
               in JObj [(''roles'', roles)]))"

definition stub_registration :: "stubs \<Rightarrow> json \<Rightarrow> nat \<times> stubs" where
  "stub_registration s rq = (204, s\<lparr>registrations := registrations s @ [rq]\<rparr>)"

text \<open>\<open>K\<close> answers a \<open>GET\<close>; \<open>error_for_status\<close> is an error for a status of 400 to 599.\<close>

definition stub_verification :: "(string \<Rightarrow> sent) \<Rightarrow> stubs \<Rightarrow> json \<Rightarrow> (nat \<times> stubs) option" where
  "stub_verification K s rq =
     (let url = kratos_admin_url s @ ''/admin/identities/'' @ str_or_empty (json_at rq ''user_id'');
          identity = (case K url of
             Inl _ \<Rightarrow> None
           | Inr r \<Rightarrow> if 400 \<le> reply_status r \<and> reply_status r < 600 then None
               else (case reply_json r of Inl _ \<Rightarrow> None | Inr j \<Rightarrow> Some j));
          verified = (case identity of
             Some identity \<Rightarrow> JBool (list_ex (\<lambda>a. json_eq (json_at a ''value'') (json_at rq ''email'') \<and>
                 json_at a ''verified'' = JBool True) (items (json_at identity ''verifiable_addresses'')))
           | None \<Rightarrow> JStr ''kratos lookup failed'')
      in map_option (\<lambda>rq. (204, s\<lparr>verifications := verifications s @ [rq]\<rparr>)) (json_set rq ''verified_at_call'' verified))"

definition stub_whoami :: "libs \<Rightarrow> headers \<Rightarrow> json" where
  "stub_whoami L h = JObj
     [(''authorization'', case Option.bind (header_get h ''authorization'') (header_str L) of None \<Rightarrow> JNull | Some s \<Rightarrow> JStr s),
      (''cookie'', JBool (header_contains h ''cookie''))]"

section \<open>The login host\<close>

record edge_request =
  eq_method :: string
  eq_path :: string
  eq_path_and_query :: "string option"
  eq_headers :: headers
  eq_body :: "string option"

record edge_forward =
  ep_method :: string
  ep_url :: string
  ep_headers :: headers
  ep_body :: string

type_synonym edge_response = "nat \<times> headers \<times> string"

text \<open>The part \<open>to_hydra\<close> forwards: a body that cannot be read, or is over a MiB, is empty.\<close>

definition hydra_bound :: "string \<Rightarrow> edge_request \<Rightarrow> edge_forward" where
  "hydra_bound hydra_public rq =
     (let path = (case eq_path_and_query rq of None \<Rightarrow> ''/'' | Some p \<Rightarrow> p);
          b = (case eq_body rq of None \<Rightarrow> [] | Some b \<Rightarrow> if length b \<le> 2 ^ 20 then b else [])
      in \<lparr>ep_method = eq_method rq, ep_url = hydra_public @ path,
          ep_headers = filter (\<lambda>(name, _). name \<noteq> ''host'' \<and> name \<noteq> ''content-length'') (eq_headers rq), ep_body = b\<rparr>)"

definition to_hydra ::
    "string \<Rightarrow> (edge_forward \<Rightarrow> string + nat \<times> headers \<times> string option) \<Rightarrow> edge_request \<Rightarrow> edge_response" where
  "to_hydra hydra_public H rq = (case H (hydra_bound hydra_public rq) of
     Inl error \<Rightarrow> (502, [], error)
   | Inr (status, h, b) \<Rightarrow>
       (status, filter (\<lambda>(name, _). name \<noteq> ''transfer-encoding'' \<and> name \<noteq> ''connection'') h,
        case b of None \<Rightarrow> [] | Some b \<Rightarrow> b))"

definition edge_serve ::
    "(edge_request \<Rightarrow> edge_response) \<Rightarrow> string \<Rightarrow> (edge_forward \<Rightarrow> string + nat \<times> headers \<times> string option) \<Rightarrow>
      edge_request \<Rightarrow> edge_response" where
  "edge_serve login hydra_public H rq =
     (if eq_path rq \<in> {''/oauth2/auth'', ''/oauth2/sessions/logout''} then to_hydra hydra_public H rq else login rq)"

section \<open>The demo upstream\<close>

definition decode_segment :: "libs \<Rightarrow> (json \<Rightarrow> string) \<Rightarrow> string \<Rightarrow> string" where
  "decode_segment L pretty segment = (case b64_decode L segment of
     None \<Rightarrow> ''<not valid base64url>''
   | Some bytes \<Rightarrow> (case json_read L bytes of Some j \<Rightarrow> pretty j | None \<Rightarrow> utf8_lossy L bytes))"

definition PAGE_CSP :: string where
  "PAGE_CSP = (let none = [CHR 0x27] @ ''none'' @ [CHR 0x27]
     in ''default-src '' @ none @ ''; style-src '' @ [CHR 0x27] @ ''unsafe-inline'' @ [CHR 0x27] @ ''; frame-ancestors '' @ none)"

definition PAGE_HEAD :: string where
  "PAGE_HEAD =
     (let q = [CHR 0x22]
      in concat (map (\<lambda>l. l @ [CHR 0x0A])
       [''<!doctype html>'',
        ''<html lang='' @ q @ ''en'' @ q @ ''>'',
        ''<head>'',
        ''  <meta charset='' @ q @ ''utf-8'' @ q @ ''>'',
        ''  <title>Downstream Service</title>'',
        ''  <style>'',
        ''    body { font-family: system-ui, sans-serif; max-width: 40rem; margin: 3rem auto; padding: 0 1rem; }'',
        ''    code { background: #f1f1f1; padding: 0.2rem 0.4rem; border-radius: 0.25rem; word-break: break-all; }'',
        ''    pre { background: #f1f1f1; padding: 0.75rem; border-radius: 0.25rem; overflow-x: auto; }'',
        ''  </style>'',
        ''</head>'']))"

definition downstream_body :: "string \<Rightarrow> string \<Rightarrow> string" where
  "downstream_body authorization decoded =
     (let nl = [CHR 0x0A]; q = [CHR 0x22]
      in ''<body>'' @ nl @ ''  <h1>Downstream Service</h1>'' @ nl @
         ''  <p>You reached this page through the bff'' @ [CHR 0x27] @ ''s proxy. It received:</p>'' @ nl @
         ''  <p><code>Authorization: '' @ authorization @ ''</code></p>'' @ nl @
         ''  '' @ decoded @ nl @
         ''  <form method='' @ q @ ''post'' @ q @ '' action='' @ q @
         ''/logout?redirect_uri=http%3A%2F%2Flocalhost%3A8081%2Flogin'' @ q @ ''><button>Log out</button></form>'' @ nl @
         ''</body>'' @ nl @ ''</html>'')"

definition decoded_token :: "libs \<Rightarrow> (json \<Rightarrow> string) \<Rightarrow> string \<Rightarrow> string" where
  "decoded_token L pretty token = (case split_on (CHR ''.'') token of
     h # p # _ \<Rightarrow> ''<h2>Header</h2>'' @ CHR 0x0A # ''<pre>'' @ decode_segment L pretty h @ ''</pre>'' @ CHR 0x0A #
       ''<h2>Payload</h2>'' @ CHR 0x0A # ''<pre>'' @ decode_segment L pretty p @ ''</pre>''
   | _ \<Rightarrow> ''<p><em>Not a JWT (expected header.payload.signature)</em></p>'')"

definition downstream :: "libs \<Rightarrow> (json \<Rightarrow> string) \<Rightarrow> headers \<Rightarrow> nat + headers \<times> string" where
  "downstream L pretty h =
     (case Option.bind (header_get h ''authorization'') (header_str L) of
        None \<Rightarrow> Err 401
      | Some authorization \<Rightarrow>
          let token = (case strip_prefix ''Bearer '' authorization of None \<Rightarrow> authorization | Some t \<Rightarrow> t)
          in Ok ([(''content-security-policy'', PAGE_CSP), (''content-type'', ''text/html; charset=utf-8'')],
                 PAGE_HEAD @ downstream_body authorization (decoded_token L pretty token)))"

definition downstream_response :: "libs \<Rightarrow> (json \<Rightarrow> string) \<Rightarrow> headers \<Rightarrow> response" where
  "downstream_response L pretty h = (case downstream L pretty h of
     Inl status \<Rightarrow> \<lparr>rsp_status = status, rsp_headers = []\<rparr>
   | Inr (headers, body) \<Rightarrow> \<lparr>rsp_status = 200, rsp_headers = headers\<rparr>)"

section \<open>Behind bff\<close>

lemma header_get_all_upstream:
  "header_get_all (upstream_headers h token) n = (if n = ''authorization'' then [''Bearer '' @ token]
     else if n \<in> set REQUEST_HEADERS then header_get_all h n else [])"
  by (simp add: upstream_headers_def header_get_all_allowed_distinct [OF distinct_header_lists(1)])

lemma upstream_authorization:
  "header_str L (''Bearer '' @ token) = Some (''Bearer '' @ token) \<Longrightarrow>
     Option.bind (header_get (upstream_headers h token) ''authorization'') (header_str L) = Some (''Bearer '' @ token)"
  by (simp add: header_get_hd header_get_all_upstream)

text \<open>The upstream stub is shown the session's token and no cookie.\<close>

lemma whoami_behind_bff:
  assumes "header_str L (''Bearer '' @ token) = Some (''Bearer '' @ token)"
  shows "stub_whoami L (upstream_headers h token) = JObj [(''authorization'', JStr (''Bearer '' @ token)), (''cookie'', JBool False)]"
  using upstream_authorization [OF assms]
  by (simp add: stub_whoami_def header_contains_get_all header_get_all_upstream REQUEST_HEADERS_def)

text \<open>The demo upstream never refuses what bff sends it, and its page keeps its own policy, so that the
  logout form on it works, where bff's sandbox would have blocked it.\<close>

theorem page_keeps_its_policy:
  assumes "header_str L (''Bearer '' @ token) = Some (''Bearer '' @ token)"
  shows "rsp_status (downstream_response L pretty (upstream_headers h token)) = 200 \<and>
    header_get_all (rsp_headers (guard_response L (downstream_response L pretty (upstream_headers h token)))) ''content-security-policy'' =
      [PAGE_CSP]"
proof -
  let ?h = "[(''content-security-policy'', PAGE_CSP), (''content-type'', ''text/html; charset=utf-8'')]"
  have r: "downstream_response L pretty (upstream_headers h token) = \<lparr>rsp_status = 200, rsp_headers = ?h\<rparr>"
    by (simp add: downstream_response_def downstream_def upstream_authorization [OF assms] Let_def)
  have "header_get_all ?h ''content-security-policy'' = [PAGE_CSP]" by (simp add: header_get_all_def)
  then show ?thesis
    unfolding r guard_response_def Let_def header_contains_get_all
    by (simp add: keep_out_other header_get_all_allowed_distinct [OF distinct_header_lists(2)])
      (simp add: RESPONSE_HEADERS_def)
qed

text \<open>The verification stub records whether Kratos held the address as verified when it was called.\<close>

theorem verification_records_kratos:
  assumes "K (kratos_admin_url s @ ''/admin/identities/'' @ u) = Inr r" "reply_status r < 400" "reply_json r = Inr identity"
    and "rq = JObj [(''user_id'', JStr u), (''email'', JStr e)]"
  shows "stub_verification K s rq = Some (204, s\<lparr>verifications := verifications s @ [JObj [(''user_id'', JStr u), (''email'', JStr e),
      (''verified_at_call'', JBool (\<exists>a \<in> set (items (json_at identity ''verifiable_addresses'')).
         json_at a ''value'' = JStr e \<and> json_at a ''verified'' = JBool True))]]\<rparr>)"
proof -
  have "json_eq j (JStr e) \<longleftrightarrow> j = JStr e" for j by (cases j) (auto simp: json_eq_def)
  with assms show ?thesis
    by (simp add: stub_verification_def Let_def json_at_def str_or_empty_def list_ex_iff)
qed

end
