(* ===== verification/Flows.thy ===== *)
theory Flows
  imports Doubles
begin

text \<open>
  Driving the browser flows (\<open>system-tests/src/support/flows.rs\<close>): Kratos' flow objects through login's
  proxy, form posts, mailed codes, and OAuth2 through bff and straight at Hydra. A function that panics
  (an assertion that fails, an \<open>expect\<close>) is \<open>None\<close>. The browser's jar and the world are the state; the
  test's own client is an argument, as are its random bytes.
\<close>

section \<open>Kratos' flow objects\<close>

record stack =
  st_login_url :: string
  st_bff_url :: string
  st_hydra_public :: string
  st_mail_api :: string

definition BFF_CLIENT_ID :: string where "BFF_CLIENT_ID = ''bff''"

definition BFF_CLIENT_SECRET :: string where "BFF_CLIENT_SECRET = ''system-test-bff-client-secret''"

definition REDIRECT_URI :: string where "REDIRECT_URI = ''http://app.localhost:9/done''"

definition unique_email :: "string \<Rightarrow> string \<Rightarrow> string" where
  "unique_email prefix uuid = prefix @ ''-'' @ take 10 uuid @ ''@example.test''"

definition form_value :: "libs \<Rightarrow> string \<Rightarrow> json \<Rightarrow> (string \<times> string) option" where
  "form_value L m node =
     (let attributes = json_at node ''attributes''
      in (case opt_filter (\<lambda>n. n \<noteq> []) (as_str (json_at attributes ''name'')) of
          None \<Rightarrow> None
        | Some name \<Rightarrow>
            let group = str_or_empty (json_at node ''group'');
                submit = (as_str (json_at attributes ''type'') \<in> {Some ''submit'', Some ''button''})
            in if as_str (json_at node ''type'') \<noteq> Some ''input'' \<or> submit \<or> (group \<noteq> ''default'' \<and> group \<noteq> m) then None
               else (case json_at attributes ''value'' of
                   JNull \<Rightarrow> None
                 | JStr v \<Rightarrow> Some (name, v)
                 | other \<Rightarrow> Some (name, json_write L other))))"

definition form_values :: "libs \<Rightarrow> json \<Rightarrow> string \<Rightarrow> (string \<times> string) list" where
  "form_values L flow m = List.map_filter (form_value L m) (items (json_at (json_at flow ''ui'') ''nodes''))"

type_synonym ('w, 'a) drive = "jar \<times> 'w \<Rightarrow> ('a \<times> jar \<times> 'w) option"

definition resp_json :: "libs \<Rightarrow> resp \<Rightarrow> json option" where
  "resp_json L r = json_read L (rs_body r)"

definition kratos_flow :: "libs \<Rightarrow> url_libs \<Rightarrow> 'w web \<Rightarrow> stack \<Rightarrow> string \<Rightarrow> string \<Rightarrow> ('w, json) drive" where
  "kratos_flow L U W st kind i s =
     Option.bind (browser_get_json L U W (st_login_url st @ ''/self-service/'' @ kind @ ''/flows?id='' @ i) s) (\<lambda>(r, s).
       if rs_status r \<noteq> 200 then None else map_option (\<lambda>j. (j, s)) (resp_json L r))"

definition flow_of :: "libs \<Rightarrow> url_libs \<Rightarrow> 'w web \<Rightarrow> stack \<Rightarrow> string \<Rightarrow> resp \<Rightarrow> ('w, json) drive" where
  "flow_of L U W st kind pg s =
     (case resp_query U pg ''flow'' of None \<Rightarrow> None | Some i \<Rightarrow> kratos_flow L U W st kind i s)"

definition new_flow :: "libs \<Rightarrow> url_libs \<Rightarrow> 'w web \<Rightarrow> stack \<Rightarrow> string \<Rightarrow> string option \<Rightarrow> ('w, json) drive" where
  "new_flow L U W st kind challenge s =
     (let u = st_login_url st @ ''/self-service/'' @ kind @ ''/browser'';
          u = (case challenge of None \<Rightarrow> u | Some c \<Rightarrow> u @ ''?login_challenge='' @ c)
      in Option.bind (browser_get L U W u FollowAll s) (\<lambda>(pg, s). flow_of L U W st kind pg s))"

text \<open>The form of \<open>submit\<close>: an override replaces the flow's value of its name or is added.\<close>

definition submitted :: "libs \<Rightarrow> json \<Rightarrow> string \<Rightarrow> (string \<times> string) list \<Rightarrow> (string \<times> string) list" where
  "submitted L flow m overrides =
     filter (\<lambda>(name, _). \<not> list_ex (\<lambda>(n, _). n = name) overrides) (form_values L flow m) @ overrides @ [(''method'', m)]"

definition flow_action :: "json \<Rightarrow> string option" where
  "flow_action flow = as_str (json_at (json_at flow ''ui'') ''action'')"

definition submit :: "libs \<Rightarrow> url_libs \<Rightarrow> 'w web \<Rightarrow> json \<Rightarrow> string \<Rightarrow> (string \<times> string) list \<Rightarrow> follow \<Rightarrow> ('w, resp) drive" where
  "submit L U W flow m overrides follow s = (case flow_action flow of
     None \<Rightarrow> None | Some action \<Rightarrow> browser_post_form L U W action (submitted L flow m overrides) [] follow s)"

definition provider :: "libs \<Rightarrow> url_libs \<Rightarrow> 'w web \<Rightarrow> json \<Rightarrow> string \<Rightarrow> follow \<Rightarrow> ('w, resp) drive" where
  "provider L U W flow p follow s =
     (let csrf = (case map_of (form_values L flow ''oidc'') ''csrf_token'' of None \<Rightarrow> [] | Some v \<Rightarrow> v)
      in (case flow_action flow of
          None \<Rightarrow> None
        | Some action \<Rightarrow> browser_post_form L U W action [(''provider'', p), (''csrf_token'', csrf)] [] follow s))"

definition first_message :: "json \<Rightarrow> string" where
  "first_message flow = str_or_empty (json_at (json_nth (json_at (json_at flow ''ui'') ''messages'') 0) ''text'')"

section \<open>Mailed codes\<close>

definition is_digit :: "char \<Rightarrow> bool" where
  "is_digit c \<longleftrightarrow> 48 \<le> byte c \<and> byte c \<le> 57"

definition is_word :: "char \<Rightarrow> bool" where
  "is_word c \<longleftrightarrow> is_ascii_alphanumeric c \<or> c = CHR ''_''"

text \<open>The scan, from run to run: the bytes of a character that is not ASCII are no digits and no part of
  a word, as the character is.\<close>

definition run_end :: "string \<Rightarrow> nat \<Rightarrow> nat" where
  "run_end cs start = start + length (takeWhile is_digit (drop start cs))"

lemma run_end_gt: "start < length cs \<Longrightarrow> is_digit (cs ! start) \<Longrightarrow> start < run_end cs start"
  by (simp add: run_end_def Cons_nth_drop_Suc [symmetric])

definition get_char :: "string \<Rightarrow> nat \<Rightarrow> char option" where
  "get_char cs i = (if i < length cs then Some (cs ! i) else None)"

function six_digits_from :: "string \<Rightarrow> nat \<Rightarrow> string option" where
  "six_digits_from cs start =
     (if length cs \<le> start then None
      else if \<not> is_digit (cs ! start) then six_digits_from cs (start + 1)
      else (let end_at = run_end cs start;
                before = (if start = 0 then None else get_char cs (start - 1));
                after = get_char cs end_at
            in if end_at - start = 6 \<and> \<not> is_some_and is_word before \<and> \<not> is_some_and is_word after
               then Some (take (end_at - start) (drop start cs))
               else six_digits_from cs end_at))"
  by pat_completeness auto

termination
  by (relation "measure (\<lambda>(cs, start). length cs - start)")
    (auto intro: diff_less_mono2 run_end_gt simp: not_le)

declare six_digits_from.simps [simp del]

definition six_digits :: "string \<Rightarrow> string option" where
  "six_digits text_of = six_digits_from text_of 0"

text \<open>The test's own client: a request, and its JSON if it was answered with any.\<close>

record client_request =
  cl_method :: string
  cl_url :: string
  cl_auth :: "(string \<times> string) option"
  cl_form :: "(string \<times> string) list"

type_synonym 'w client = "client_request \<Rightarrow> 'w \<Rightarrow> sent \<times> 'w"

definition client_get :: "'w client \<Rightarrow> string \<Rightarrow> 'w \<Rightarrow> (json \<times> 'w) option" where
  "client_get C u w =
     (case C \<lparr>cl_method = ''GET'', cl_url = u, cl_auth = None, cl_form = []\<rparr> w of
        (Inr r, w) \<Rightarrow> (case reply_json r of Inr j \<Rightarrow> Some (j, w) | Inl _ \<Rightarrow> None)
      | _ \<Rightarrow> None)"

definition mail_matches :: "string \<Rightarrow> string \<Rightarrow> json \<Rightarrow> bool" where
  "mail_matches email subject m \<longleftrightarrow>
     as_str (json_at (json_nth (json_at m ''To'') 0) ''Address'') = Some email \<and>
     is_some_and (contains subject) (as_str (json_at m ''Subject''))"

text \<open>\<open>mail_code\<close> asks at most sixty times; \<open>sleep\<close> is what happens in the half second between.\<close>

fun mail_loop :: "nat \<Rightarrow> 'w client \<Rightarrow> ('w \<Rightarrow> 'w) \<Rightarrow> stack \<Rightarrow> string \<Rightarrow> string \<Rightarrow> nat \<Rightarrow> 'w \<Rightarrow> (string \<times> 'w) option" where
  "mail_loop 0 C sleep st email subject k w = None"
| "mail_loop (Suc n) C sleep st email subject k w =
     (case client_get C (st_mail_api st @ ''/api/v1/messages'') w of
        None \<Rightarrow> None
      | Some (listing, w) \<Rightarrow>
          let matching = filter (mail_matches email subject) (items (json_at listing ''messages''))
          in if k \<le> length matching
             then (case matching of [] \<Rightarrow> None | m # _ \<Rightarrow>
                 (case as_str (json_at m ''ID'') of None \<Rightarrow> None | Some i \<Rightarrow>
                   (case client_get C (st_mail_api st @ ''/api/v1/message/'' @ i) w of None \<Rightarrow> None | Some (message, w) \<Rightarrow>
                      map_option (\<lambda>code. (code, w)) (six_digits (str_or_empty (json_at message ''Text''))))))
             else mail_loop n C sleep st email subject k (sleep w))"

definition mail_code :: "'w client \<Rightarrow> ('w \<Rightarrow> 'w) \<Rightarrow> stack \<Rightarrow> string \<Rightarrow> string \<Rightarrow> nat \<Rightarrow> 'w \<Rightarrow> (string \<times> 'w) option" where
  "mail_code C sleep st email subject k w = mail_loop 60 C sleep st email subject k w"

text \<open>What \<open>\b\d{6}\b\<close> matches: six digits with a word boundary on either side.\<close>

definition boundary :: "string \<Rightarrow> nat \<Rightarrow> bool" where
  "boundary cs i \<longleftrightarrow> (0 < i \<and> is_word (cs ! (i - 1))) \<noteq> (i < length cs \<and> is_word (cs ! i))"

definition code_at :: "string \<Rightarrow> nat \<Rightarrow> bool" where
  "code_at cs i \<longleftrightarrow> i + 6 \<le> length cs \<and> (\<forall>j<6. is_digit (cs ! (i + j))) \<and> boundary cs i \<and> boundary cs (i + 6)"

lemma digit_word: "is_digit c \<Longrightarrow> is_word c"
  by (simp add: is_digit_def is_word_def is_ascii_alphanumeric_def Let_def)

lemma run_end_props:
  assumes "start < length cs"
  shows "run_end cs start \<le> length cs" "start \<le> i \<Longrightarrow> i < run_end cs start \<Longrightarrow> is_digit (cs ! i)"
    "run_end cs start < length cs \<Longrightarrow> \<not> is_digit (cs ! run_end cs start)"
proof -
  let ?run = "takeWhile is_digit (drop start cs)"
  have len: "length ?run \<le> length cs - start" using length_takeWhile_le [of is_digit "drop start cs"] by simp
  then show "run_end cs start \<le> length cs" using assms by (simp add: run_end_def)
  show "is_digit (cs ! i)" if "start \<le> i" "i < run_end cs start"
  proof -
    from that have "i - start < length ?run" by (simp add: run_end_def)
    then have "is_digit (?run ! (i - start))" by (metis nth_mem set_takeWhileD)
    with \<open>i - start < length ?run\<close> that(1) assms show ?thesis by (simp add: takeWhile_nth)
  qed
  show "\<not> is_digit (cs ! run_end cs start)" if "run_end cs start < length cs"
  proof -
    from that have "length ?run < length (drop start cs)" by (simp add: run_end_def)
    from nth_length_takeWhile [OF this] assms show ?thesis by (simp add: run_end_def)
  qed
qed

lemma no_code_within_run:
  assumes "start < i" "i < run_end cs start" "start < length cs"
  shows "\<not> code_at cs i"
proof -
  have "is_word (cs ! (i - 1))" "is_word (cs ! i)"
    using assms by (auto intro!: digit_word run_end_props(2) [OF assms(3)])
  moreover have "i < length cs" using run_end_props(1) [OF assms(3)] assms(2) by simp
  ultimately show ?thesis using assms(1) by (simp add: code_at_def boundary_def)
qed

text \<open>At the start of a run, the function's test is the pattern's.\<close>

lemma code_at_run:
  assumes "start < length cs" "is_digit (cs ! start)"
  shows "code_at cs start \<longleftrightarrow> run_end cs start - start = 6 \<and>
    \<not> is_some_and is_word (if start = 0 then None else get_char cs (start - 1)) \<and>
    \<not> is_some_and is_word (get_char cs (run_end cs start))" (is "?code \<longleftrightarrow> ?run \<and> ?before \<and> ?after")
proof
  note props = run_end_props [OF assms(1)]
  assume code: ?code
  then have digits: "\<And>j. j < 6 \<Longrightarrow> is_digit (cs ! (start + j))" and len: "start + 6 \<le> length cs"
    and b: "boundary cs start" "boundary cs (start + 6)" by (simp_all add: code_at_def)
  from b(1) assms have ?before by (auto simp: boundary_def get_char_def digit_word)
  have w: "is_word (cs ! (start + 5))" using digits [of 5] by (simp add: digit_word)
  with b(2) have after: "start + 6 < length cs \<Longrightarrow> \<not> is_word (cs ! (start + 6))" by (auto simp: boundary_def eval_nat_numeral)
  have "\<not> run_end cs start < start + 6"
  proof
    assume "run_end cs start < start + 6"
    with digits [of "run_end cs start - start"] run_end_gt [OF assms] have "is_digit (cs ! run_end cs start)" by simp
    with props(3) len \<open>run_end cs start < start + 6\<close> show False by simp
  qed
  moreover have "\<not> start + 6 < run_end cs start"
    using props(1) props(2) [of "start + 6"] after digit_word by fastforce
  ultimately have "run_end cs start = start + 6" by simp
  with after \<open>?before\<close> show "?run \<and> ?before \<and> ?after" by (simp add: get_char_def)
next
  note props = run_end_props [OF assms(1)]
  assume r: "?run \<and> ?before \<and> ?after"
  then have e: "run_end cs start = start + 6" using run_end_gt [OF assms] by linarith
  have digits: "\<And>j. j < 6 \<Longrightarrow> is_digit (cs ! (start + j))" using props(2) e by simp
  with r e props(1) assms digits [of 5] show ?code
    by (auto simp: code_at_def boundary_def get_char_def digit_word eval_nat_numeral split: if_splits)
qed

lemma find_after: "List.find P xs = None \<Longrightarrow> List.find P (xs @ ys) = List.find P ys"
  by (induction xs) (auto split: if_splits)

text \<open>The scan finds exactly what the pattern it stands for finds: the first match.\<close>

theorem six_digits_is_the_pattern:
  "six_digits cs = map_option (\<lambda>i. take 6 (drop i cs)) (List.find (code_at cs) [0..<length cs])"
proof -
  have "six_digits_from cs start = map_option (\<lambda>i. take 6 (drop i cs)) (List.find (code_at cs) [start..<length cs])" for start
  proof (induction cs start rule: six_digits_from.induct)
    case (1 cs start)
    show ?case
    proof (cases "start < length cs")
      case False
      then show ?thesis by (simp add: six_digits_from.simps [of cs start])
    next
      case True
      then have up: "[start..<length cs] = start # [start + 1..<length cs]" by (simp add: upt_conv_Cons)
      show ?thesis
      proof (cases "is_digit (cs ! start)")
        case False
        then have "\<not> code_at cs start" by (metis add_0_right code_at_def zero_less_numeral)
        with False True 1(1) show ?thesis by (simp add: six_digits_from.simps [of cs start] up)
      next
        case digit: True
        let ?e = "run_end cs start"
        have e: "start < ?e" "?e \<le> length cs" using run_end_gt run_end_props(1) True digit by auto
        show ?thesis
        proof (cases "code_at cs start")
          case code: True
          with True digit show ?thesis
            by (simp add: six_digits_from.simps [of cs start] up code_at_run [OF True digit] Let_def)
        next
          case False
          have "[start..<length cs] = [start..<?e] @ [?e..<length cs]"
            using e upt_add_eq_append [of start ?e "length cs - ?e"] by simp
          moreover have "List.find (code_at cs) [start..<?e] = None"
            using no_code_within_run [OF _ _ True] False by (auto simp: find_None_iff) (metis le_neq_implies_less)
          ultimately have "List.find (code_at cs) [start..<length cs] = List.find (code_at cs) [?e..<length cs]"
            by (simp add: find_after)
          moreover have "six_digits_from cs start = six_digits_from cs ?e"
            using True digit False unfolding code_at_run [OF True digit]
            by (auto simp: six_digits_from.simps [of cs start] Let_def split: if_splits)
          moreover have "six_digits_from cs ?e = map_option (\<lambda>i. take 6 (drop i cs)) (List.find (code_at cs) [?e..<length cs])"
            using 1(2) [OF _ _ refl refl refl] True digit False unfolding code_at_run [OF True digit] by simp
          ultimately show ?thesis by simp
        qed
      qed
    qed
  qed
  then show ?thesis by (simp add: six_digits_def)
qed

section \<open>Logging in through bff\<close>

definition bff_login :: "libs \<Rightarrow> url_libs \<Rightarrow> 'w web \<Rightarrow> stack \<Rightarrow> ('w, resp) drive" where
  "bff_login L U W st s =
     browser_get L U W (st_bff_url st @ ''/login?redirect_uri='' @ form_text L REDIRECT_URI) (FollowUntil REDIRECT_URI) s"

definition landed_on_app :: "libs \<Rightarrow> url_libs \<Rightarrow> resp \<Rightarrow> bool" where
  "landed_on_app L U r \<longleftrightarrow> is_some_and (\<lambda>target. starts_with target REDIRECT_URI) (redirect_target L U r)"

definition has_session :: "url_libs \<Rightarrow> stack \<Rightarrow> jar \<Rightarrow> bool" where
  "has_session U st jar \<longleftrightarrow> browser_cookie U jar (st_bff_url st) ''wa_session'' \<noteq> None"

definition login_via_bff :: "libs \<Rightarrow> url_libs \<Rightarrow> 'w web \<Rightarrow> stack \<Rightarrow> string \<Rightarrow> string \<Rightarrow> ('w, resp) drive" where
  "login_via_bff L U W st email password s =
     Option.bind (bff_login L U W st s) (\<lambda>(pg, s).
     Option.bind (flow_of L U W st ''login'' pg s) (\<lambda>(lf, s).
     submit L U W lf ''password'' [(''identifier'', email), (''password'', password)] (FollowUntil REDIRECT_URI) s))"

definition session_for :: "libs \<Rightarrow> url_libs \<Rightarrow> 'w web \<Rightarrow> stack \<Rightarrow> string \<Rightarrow> string \<Rightarrow> 'w \<Rightarrow> (jar \<times> 'w) option" where
  "session_for L U W st email password w =
     Option.bind (login_via_bff L U W st email password (\<lambda>host. None, w)) (\<lambda>(r, jar, w).
       if \<not> landed_on_app L U r \<or> \<not> has_session U st jar then None else Some (jar, w))"

definition register_via_bff :: "libs \<Rightarrow> url_libs \<Rightarrow> 'w web \<Rightarrow> stack \<Rightarrow> string \<Rightarrow> string \<Rightarrow> ('w, resp) drive" where
  "register_via_bff L U W st email password s =
     Option.bind (bff_login L U W st s) (\<lambda>(pg, s).
     Option.bind (flow_of L U W st ''login'' pg s) (\<lambda>(lf, s).
     Option.bind (as_str (json_at lf ''oauth2_login_challenge'')) (\<lambda>challenge.
     Option.bind (new_flow L U W st ''registration'' (Some challenge) s) (\<lambda>(rf, s).
     Option.bind (submit L U W rf ''profile''
       [(''traits.email'', email), (''traits.first_name'', ''System''), (''traits.last_name'', ''Test''),
        (''traits.phone_number'', ''+46701234567'')] FollowNo s) (\<lambda>(_, s).
     Option.bind (as_str (json_at rf ''id'')) (\<lambda>i.
     Option.bind (kratos_flow L U W st ''registration'' i s) (\<lambda>(rf, s).
     submit L U W rf ''password'' [(''password'', password)] (FollowUntil REDIRECT_URI) s)))))))"

text \<open>After the code, the page is only asked for what Kratos told the user when it is still there.\<close>

definition verify_email ::
    "libs \<Rightarrow> url_libs \<Rightarrow> 'w web \<Rightarrow> 'w client \<Rightarrow> ('w \<Rightarrow> 'w) \<Rightarrow> stack \<Rightarrow> resp \<Rightarrow> string \<Rightarrow> ('w, resp) drive" where
  "verify_email L U W C sleep st pg email s =
     Option.bind (flow_of L U W st ''verification'' pg s) (\<lambda>(vf, jar, w).
     Option.bind (mail_code C sleep st email ''verification code'' 1 w) (\<lambda>(code, w).
     Option.bind (submit L U W vf ''code'' [(''code'', code)] (FollowUntil REDIRECT_URI) (jar, w)) (\<lambda>(r, s).
     if rs_status r = 200 then map_option (\<lambda>(_, s). (r, s)) (flow_of L U W st ''verification'' r s)
     else Some (r, s))))"

definition whoami :: "libs \<Rightarrow> url_libs \<Rightarrow> 'w web \<Rightarrow> stack \<Rightarrow> ('w, resp) drive" where
  "whoami L U W st s = browser_get L U W (st_bff_url st @ ''/downstream/whoami'') FollowNo s"

definition upstream_token :: "libs \<Rightarrow> url_libs \<Rightarrow> 'w web \<Rightarrow> stack \<Rightarrow> ('w, string) drive" where
  "upstream_token L U W st s = Option.bind (whoami L U W st s) (\<lambda>(r, s).
     if rs_status r \<noteq> 200 then None
     else Option.bind (resp_json L r) (\<lambda>seen.
       if json_at seen ''cookie'' \<noteq> JBool False then None
       else map_option (\<lambda>t. (t, s)) (Option.bind (as_str (json_at seen ''authorization'')) (strip_prefix ''Bearer ''))))"

section \<open>OAuth2 straight at Hydra\<close>

definition pkce :: "libs \<Rightarrow> string \<Rightarrow> string \<times> string" where
  "pkce L random = (let verifier = b64_encode L random in (verifier, pkce_challenge L verifier))"

definition flows_callback :: "stack \<Rightarrow> string" where
  "flows_callback st = st_bff_url st @ ''/callback''"

definition is_callback :: "libs \<Rightarrow> url_libs \<Rightarrow> stack \<Rightarrow> resp \<Rightarrow> bool" where
  "is_callback L U st r \<longleftrightarrow> is_some_and (\<lambda>t. starts_with t (flows_callback st)) (redirect_target L U r)"

definition direct_authorize :: "libs \<Rightarrow> url_libs \<Rightarrow> 'w web \<Rightarrow> stack \<Rightarrow> string \<Rightarrow> ('w, resp \<times> string) drive" where
  "direct_authorize L U W st random s =
     (let (verifier, challenge) = pkce L random;
          u = st_login_url st @ ''/oauth2/auth?client_id='' @ BFF_CLIENT_ID @
            ''&response_type=code&scope=openid+offline_access&redirect_uri='' @ form_text L (flows_callback st) @
            ''&state=st12345678&code_challenge='' @ challenge @ ''&code_challenge_method=S256&audience=weaveauth''
      in map_option (\<lambda>(r, s). ((r, verifier), s)) (browser_get L U W u (FollowUntil (flows_callback st)) s))"

definition flows_token_request :: "'w client \<Rightarrow> stack \<Rightarrow> (string \<times> string) list \<Rightarrow> 'w \<Rightarrow> ((nat \<times> json) \<times> 'w) option" where
  "flows_token_request C st form w =
     (case C \<lparr>cl_method = ''POST'', cl_url = st_hydra_public st @ ''/oauth2/token'',
          cl_auth = Some (BFF_CLIENT_ID, BFF_CLIENT_SECRET), cl_form = form\<rparr> w of
        (Inl _, w) \<Rightarrow> None
      | (Inr r, w) \<Rightarrow> Some ((reply_status r, case reply_json r of Inl _ \<Rightarrow> JNull | Inr j \<Rightarrow> j), w))"

definition direct_tokens ::
    "libs \<Rightarrow> url_libs \<Rightarrow> 'w web \<Rightarrow> 'w client \<Rightarrow> stack \<Rightarrow> string \<Rightarrow> (string \<times> string) option \<Rightarrow> ('w, json) drive" where
  "direct_tokens L U W C st random credentials s =
     Option.bind (direct_authorize L U W st random s) (\<lambda>((r, verifier), s).
     Option.bind (case credentials of
         Some (email, password) \<Rightarrow>
           if \<not> is_callback L U st r
           then Option.bind (flow_of L U W st ''login'' r s) (\<lambda>(lf, s).
             submit L U W lf ''password'' [(''identifier'', email), (''password'', password)] (FollowUntil (flows_callback st)) s)
           else Some (r, s)
       | None \<Rightarrow> Some (r, s)) (\<lambda>(r, jar, w).
     if \<not> is_callback L U st r then None
     else Option.bind (redirect_target L U r) (\<lambda>target.
       Option.bind (map_option snd (List.find (\<lambda>(k, _). k = ''code'') (url_pairs U target))) (\<lambda>code.
       Option.bind (flows_token_request C st
         [(''grant_type'', ''authorization_code''), (''code'', code), (''redirect_uri'', flows_callback st),
          (''code_verifier'', verifier)] w) (\<lambda>((status, tokens), w).
       if status \<noteq> 200 then None else Some (tokens, jar, w))))))"

definition flows_refresh :: "'w client \<Rightarrow> stack \<Rightarrow> string \<Rightarrow> 'w \<Rightarrow> ((nat \<times> json) \<times> 'w) option" where
  "flows_refresh C st rt w = flows_token_request C st [(''grant_type'', ''refresh_token''), (''refresh_token'', rt)] w"

text \<open>The payload of a token: \<open>b64_std\<close> is base64 with the standard alphabet and no padding.\<close>

definition jwt_payload :: "libs \<Rightarrow> (string \<Rightarrow> string option) \<Rightarrow> string \<Rightarrow> json option" where
  "jwt_payload L b64_std token = (case split_on (CHR ''.'') token of
     _ # payload # _ \<Rightarrow> Option.bind (opt_or (b64_decode L payload) (b64_std payload)) (json_read L)
   | _ \<Rightarrow> None)"

definition kratos_session_active :: "libs \<Rightarrow> url_libs \<Rightarrow> 'w web \<Rightarrow> stack \<Rightarrow> ('w, bool) drive" where
  "kratos_session_active L U W st s =
     map_option (\<lambda>(r, s). (rs_status r = 200, s))
       (browser_get_json L U W (st_login_url st @ ''/self-service/logout/browser'') s)"

section \<open>Through bff to the upstream and back\<close>

text \<open>The world of one proxied request: bff in front of the upstream stub.\<close>

definition whoami_web :: "libs \<Rightarrow> resolve_world \<Rightarrow> app_state web" where
  "whoami_web L rw rq a =
     (case authenticate L a rw (\<lambda>h. \<lparr>rsp_status = 200, rsp_headers = [(''content-type'', ''application/json'')]\<rparr>)
        \<lparr>req_method = bq_method rq, req_path = ''/downstream/whoami'', req_headers = bq_headers rq\<rparr> of
        (Inl e, a') \<Rightarrow> (Some (er_status (proxy_error_response e), [], []), a')
      | (Inr (sent, r), a') \<Rightarrow> (Some (rsp_status r, rsp_headers r, json_write L (stub_whoami L sent)), a'))"

definition whoami_doc :: "string \<Rightarrow> json" where
  "whoami_doc token = JObj [(''authorization'', JStr (''Bearer '' @ token)), (''cookie'', JBool False)]"

text \<open>What the tests read as the upstream's token is the one bff resolved for the session in the browser's
  jar, and asking leaves the browser's cookies as they were: the upstream was not shown them and could not
  set any.\<close>

theorem upstream_token_is_the_sessions:
  assumes "url_parse U (st_bff_url st @ ''/downstream/whoami'') = Some u" "is_clean_path L ''/downstream/whoami''"
    and "extract_cookie L (jar_header jar (host_of U u)) (session_cookie L (app_config a)) = Some i"
    and "resolve_bearer_token L a rw i = (Ok token, a')" "header_value L (''Bearer '' @ token)"
    and bearer: "header_str L (''Bearer '' @ token) = Some (''Bearer '' @ token)"
    and "json_read L (json_write L (whoami_doc token)) = Some (whoami_doc token)"
  shows "\<exists>jar'. upstream_token L U (whoami_web L rw) st (jar, a) = Some (token, jar', a') \<and>
    (\<forall>host. jar_header jar' host = jar_header jar host)"
proof -
  let ?h = "jar_header jar (host_of U u)" and ?host = "host_of U u"
  let ?up = "\<lparr>rsp_status = 200, rsp_headers = [(''content-type'', ''application/json'')]\<rparr>"
  let ?r = "guard_response L ?up"
  have "header_get_all (rsp_headers ?r) ''set-cookie'' = []"
    by (simp add: guard_response_def Let_def keep_out_other header_get_all_allowed_distinct [OF distinct_header_lists(2)])
      (simp add: RESPONSE_HEADERS_def)
  moreover have status: "rsp_status ?r = 200" by (simp add: guard_response_def Let_def)
  moreover have "authenticate L a rw (\<lambda>h. ?up) \<lparr>req_method = ''GET'', req_path = ''/downstream/whoami'', req_headers = ?h\<rparr> =
      (Inr (upstream_headers ?h token, ?r), a')"
    using assms(2-5) by (simp add: authenticate_def needs_trusted_origin_def Let_def)
  ultimately have "once L U (whoami_web L rw) ''GET'' u NoBody [] (jar, a) =
      Some (\<lparr>rs_status = 200, rs_headers = rsp_headers ?r, rs_body = json_write L (whoami_doc token), rs_url = u\<rparr>,
        jar(?host \<mapsto> (case jar ?host of None \<Rightarrow> [] | Some m \<Rightarrow> m)), a')"
    by (simp add: once_def whoami_web_def Let_def store_cookies_def whoami_behind_bff [OF bearer] whoami_doc_def)
  moreover have "stops_at L U FollowNo \<lparr>rs_status = 200, rs_headers = h, rs_body = b, rs_url = u\<rparr> = None" for h b
    by (cases "redirect_target L U \<lparr>rs_status = 200, rs_headers = h, rs_body = b, rs_url = u\<rparr>") (simp_all add: stops_at_def)
  ultimately have "whoami L U (whoami_web L rw) st (jar, a) =
      Some (\<lparr>rs_status = 200, rs_headers = rsp_headers ?r, rs_body = json_write L (whoami_doc token), rs_url = u\<rparr>,
        jar(?host \<mapsto> (case jar ?host of None \<Rightarrow> [] | Some m \<Rightarrow> m)), a')"
    using assms(1) by (simp add: whoami_def browser_get_def browser_send_def MAX_REDIRECTS_def eval_nat_numeral)
  moreover have "jar_header (jar(?host \<mapsto> (case jar ?host of None \<Rightarrow> [] | Some m \<Rightarrow> m))) host = jar_header jar host" for host
    by (simp add: jar_header_def join_with_def split: option.split)
  ultimately show ?thesis
    using assms(7) by (simp add: upstream_token_def resp_json_def) (simp add: whoami_doc_def json_at_def)
qed

end
