(* ===== verification/TestIdp.thy ===== *)
theory TestIdp
  imports Web
begin

text \<open>
  The stand-in identity provider of the system tests (\<open>system-tests/src/support/idp.rs\<close>), which Kratos
  signs users in with: several issuers on one server, each asserting one identity, without a state
  between the authorization and the token. Signing a token and checking UTF-8 are arguments.
\<close>

section \<open>The identities\<close>

definition IDP_CLIENT_ID :: string where "IDP_CLIENT_ID = ''kratos''"

definition IDP_KID :: string where "IDP_KID = ''system-test-idp''"

definition IDP_KEY_N :: string where
  "IDP_KEY_N =
     ''tEKf-nMS_hzObIURgfaFCrWxX-qXwPRBt1psVgcPTVLm7aAXgRT_hd24tZKbMyPq3nhhXnSGTIW9HdbpFeJse'' @
     ''CSYVj-fGGEL60IzsNb9yJUs31wZtlCAXp-C2wLWTCX5-h7rs_S8_LYfAT9NOcED8HpUBsyPWzGlJ0pm77OII8'' @
     ''rS1vhIIOYsRnvrA9xHohjca4ocHj0G6W6WVZgLPnYA94w9vVT82zE6fQrXz_kPjPR9PqfkAr-r7ZvMQ3L-tgW'' @
     ''fH9mIto5FJur7uqzpfFQd1oaiQQ_2sZbN8GoeaPZfdFBfQpoxv5DqptKiUcQNkSLcqES7ZAZ83TYeYEk9uABm'' @
     ''_w''"

record idp_identity =
  idp_id :: string
  idp_sub :: string
  idp_email :: string
  idp_email_verified :: bool
  idp_name :: string
  idp_phone_number :: "string option"
  idp_family_name :: "string option"

definition IDENTITIES :: "idp_identity list" where
  "IDENTITIES =
    [\<lparr>idp_id = ''verified'', idp_sub = ''idp-sub-verified'', idp_email = ''idp-user@example.test'', idp_email_verified = True,
        idp_name = ''IdP User'', idp_phone_number = Some ''+46701234567'', idp_family_name = Some ''User''\<rparr>,
     \<lparr>idp_id = ''unverified'', idp_sub = ''idp-sub-unverified'', idp_email = ''idp-unverified@example.test'', idp_email_verified = False,
        idp_name = ''IdP Unverified'', idp_phone_number = Some ''+46701234567'', idp_family_name = Some ''User''\<rparr>,
     \<lparr>idp_id = ''link'', idp_sub = ''idp-sub-link'', idp_email = ''pw-user@example.test'', idp_email_verified = True,
        idp_name = ''Linked User'', idp_phone_number = Some ''+46701234567'', idp_family_name = Some ''User''\<rparr>,
     \<lparr>idp_id = ''recover'', idp_sub = ''recover-sub'', idp_email = ''recover-user@example.test'', idp_email_verified = True,
        idp_name = ''Recovered User'', idp_phone_number = Some ''+46701234567'', idp_family_name = Some ''User''\<rparr>,
     \<lparr>idp_id = ''nophone'', idp_sub = ''idp-sub-nophone'', idp_email = ''idp-nophone@example.test'', idp_email_verified = True,
        idp_name = ''No Phone'', idp_phone_number = None, idp_family_name = Some ''User''\<rparr>,
     \<lparr>idp_id = ''nolast'', idp_sub = ''idp-sub-nolast'', idp_email = ''idp-nolast@example.test'', idp_email_verified = True,
        idp_name = ''Madonna'', idp_phone_number = Some ''+46701234567'', idp_family_name = None\<rparr>,
     \<lparr>idp_id = ''tamper'', idp_sub = ''idp-sub-tamper'', idp_email = ''idp-tamper@example.test'', idp_email_verified = True,
        idp_name = ''Tamper'', idp_phone_number = Some ''+46701234567'', idp_family_name = None\<rparr>]"

definition idp_find :: "string \<Rightarrow> idp_identity option" where
  "idp_find i = List.find (\<lambda>x. idp_id x = i) IDENTITIES"

section \<open>The routes\<close>

record idp_libs =
  idp_utf8 :: "string \<Rightarrow> bool"
  idp_sign :: "json \<Rightarrow> json \<Rightarrow> string"

definition idp_issuer :: "string \<Rightarrow> string \<Rightarrow> string" where
  "idp_issuer base i = base @ ''/'' @ i"

definition idp_discovery :: "string \<Rightarrow> string \<Rightarrow> nat + json" where
  "idp_discovery base i = (if idp_find i = None then Err 404
     else let issuer = idp_issuer base i in Ok (JObj
       [(''issuer'', JStr issuer), (''authorization_endpoint'', JStr (issuer @ ''/authorize'')),
        (''token_endpoint'', JStr (issuer @ ''/token'')), (''jwks_uri'', JStr (issuer @ ''/jwks'')),
        (''response_types_supported'', JArr [JStr ''code'']), (''subject_types_supported'', JArr [JStr ''public'']),
        (''id_token_signing_alg_values_supported'', JArr [JStr ''RS256''])]))"

definition idp_jwks :: json where
  "idp_jwks = JObj [(''keys'', JArr [JObj [(''kty'', JStr ''RSA''), (''use'', JStr ''sig''), (''alg'', JStr ''RS256''),
     (''kid'', JStr IDP_KID), (''n'', JStr IDP_KEY_N), (''e'', JStr ''AQAB'')]])]"

text \<open>\<open>authorize\<close>: where the browser is sent; the nonce rides along as the code.\<close>

definition idp_code :: "libs \<Rightarrow> (string \<Rightarrow> string option) \<Rightarrow> string" where
  "idp_code L query = ''c'' @ b64_encode L (case query ''nonce'' of None \<Rightarrow> [] | Some n \<Rightarrow> n)"

definition idp_authorize :: "libs \<Rightarrow> (string \<Rightarrow> string option) \<Rightarrow> nat + string" where
  "idp_authorize L query = (case (query ''redirect_uri'', query ''state'') of
     (Some uri, Some st) \<Rightarrow> Ok (uri @ (if CHR ''?'' \<in> set uri then ''&'' else ''?'') @
       ''code='' @ form_text L (idp_code L query) @ ''&state='' @ form_text L st)
   | _ \<Rightarrow> Err 400)"

definition idp_claims :: "string \<Rightarrow> string \<Rightarrow> int \<Rightarrow> idp_identity \<Rightarrow> string \<Rightarrow> json" where
  "idp_claims base i now x nonce = JObj
     ([(''iss'', JStr (idp_issuer base i)), (''sub'', JStr (idp_sub x)), (''aud'', JStr IDP_CLIENT_ID),
       (''iat'', JInt now), (''exp'', JInt (now + 3600)), (''email'', JStr (idp_email x)),
       (''email_verified'', JBool (idp_email_verified x)), (''name'', JStr (idp_name x)), (''given_name'', JStr ''Idp'')] @
      (case idp_family_name x of None \<Rightarrow> [] | Some f \<Rightarrow> [(''family_name'', JStr f)]) @
      (case idp_phone_number x of None \<Rightarrow> [] | Some p \<Rightarrow> [(''phone_number'', JStr p)]) @
      (if nonce = [] then [] else [(''nonce'', JStr nonce)]))"

definition idp_header :: json where
  "idp_header = JObj [(''typ'', JStr ''JWT''), (''alg'', JStr ''RS256''), (''kid'', JStr IDP_KID)]"

definition idp_token ::
    "libs \<Rightarrow> idp_libs \<Rightarrow> string \<Rightarrow> int \<Rightarrow> string \<Rightarrow> (string \<Rightarrow> string option) \<Rightarrow> nat + headers \<times> json" where
  "idp_token L I base now i form = (case (idp_find i, form ''code'') of
     (Some x, Some code) \<Rightarrow> (case opt_filter (idp_utf8 I) (Option.bind (strip_prefix ''c'' code) (b64_decode L)) of
         None \<Rightarrow> Err 400
       | Some nonce \<Rightarrow> Ok ([(''cache-control'', ''no-store'')], JObj
           [(''access_token'', JStr ''fake-idp-access-token''), (''token_type'', JStr ''Bearer''),
            (''id_token'', JStr (idp_sign I idp_header (idp_claims base i now x nonce)))]))
   | _ \<Rightarrow> Err 400)"

text \<open>The Kratos config file that registers the providers.\<close>

definition idp_provider :: "string \<Rightarrow> string \<times> string \<Rightarrow> string" where
  "idp_provider base p = (case p of (i, issuer) \<Rightarrow>
     ''          - {id: '' @ i @ '', provider: generic, label: Fake '' @ i @ '', client_id: '' @ IDP_CLIENT_ID @
     '', client_secret: s, issuer_url: '' @ CHR 0x22 # base @ ''/'' @ issuer @ CHR 0x22 #
     '', mapper_url: '' @ CHR 0x22 # ''file:///etc/kratos/oidc/generic.jsonnet'' @ CHR 0x22 #
     '', scope: [openid, email, profile]}'' @ [CHR 0x0A])"

definition idp_lines :: "string list \<Rightarrow> string" where
  "idp_lines ls = concat (map (\<lambda>l. l @ [CHR 0x0A]) ls)"

definition PROVIDERS :: "(string \<times> string) list" where
  "PROVIDERS = [(''fake'', ''verified''), (''fakeu'', ''unverified''), (''fakelink'', ''link''), (''fakerecover'', ''recover''),
     (''fakenophone'', ''nophone''), (''fakenolast'', ''nolast''), (''faketamper'', ''tamper'')]"

definition kratos_providers :: "string \<Rightarrow> string" where
  "kratos_providers base = idp_lines [''selfservice:'', ''  methods:'', ''    oidc:'', ''      config:'', ''        providers:''] @
     concat (map (idp_provider base) PROVIDERS)"

section \<open>Lemmas\<close>

lemma issuers_distinct: "distinct (map idp_id IDENTITIES)"
  by (simp add: IDENTITIES_def)

lemma subjects_distinct: "distinct (map idp_sub IDENTITIES)" "distinct (map idp_email IDENTITIES)"
  by (simp_all add: IDENTITIES_def)

text \<open>Every registered provider is an issuer that answers.\<close>

lemma providers_answer: "p \<in> set PROVIDERS \<Longrightarrow> \<exists>j. idp_discovery base (snd p) = Ok j"
  by (auto simp: PROVIDERS_def idp_discovery_def idp_find_def IDENTITIES_def Let_def)

lemma claims_nonce: "json_get (idp_claims base i now x nonce) ''nonce'' = (if nonce = [] then None else Some (JStr nonce))"
  by (auto simp: idp_claims_def split: option.split)

text \<open>The nonce of an authorization comes back in the token for its code: the browser is sent to the
  client's redirect URI with that code and its \<open>state\<close>, and the code's token is signed for the issuer's
  own identity.\<close>

theorem idp_returns_the_nonce:
  assumes "\<And>b. b64_decode L (b64_encode L b) = Some b" "idp_authorize L query = Ok location"
    and "\<And>n. query ''nonce'' = Some n \<Longrightarrow> idp_utf8 I n" "idp_utf8 I []" "idp_find i = Some x"
  shows "\<exists>uri st. query ''redirect_uri'' = Some uri \<and> query ''state'' = Some st \<and>
      location = uri @ (if CHR ''?'' \<in> set uri then ''&'' else ''?'') @ ''code='' @ form_text L (idp_code L query) @
        ''&state='' @ form_text L st" (is ?sent)
    and "\<exists>claims h. idp_token L I base now i [''code'' \<mapsto> idp_code L query] = Ok (h, JObj
        [(''access_token'', JStr ''fake-idp-access-token''), (''token_type'', JStr ''Bearer''),
         (''id_token'', JStr (idp_sign I idp_header claims))]) \<and>
      json_get claims ''nonce'' = map_option JStr (opt_filter (\<lambda>n. n \<noteq> []) (query ''nonce'')) \<and>
      json_get claims ''sub'' = Some (JStr (idp_sub x)) \<and> json_get claims ''iss'' = Some (JStr (idp_issuer base i))" (is ?token)
proof -
  show ?sent using assms(2) by (auto simp: idp_authorize_def split: option.splits)
  let ?nonce = "case query ''nonce'' of None \<Rightarrow> [] | Some n \<Rightarrow> n"
  have "idp_utf8 I ?nonce" using assms(3,4) by (simp split: option.split)
  then have "idp_token L I base now i [''code'' \<mapsto> idp_code L query] = Ok ([(''cache-control'', ''no-store'')], JObj
      [(''access_token'', JStr ''fake-idp-access-token''), (''token_type'', JStr ''Bearer''),
       (''id_token'', JStr (idp_sign I idp_header (idp_claims base i now x ?nonce)))])"
    using assms(1,5) by (simp add: idp_token_def idp_code_def)
  moreover have "json_get (idp_claims base i now x ?nonce) ''nonce'' = map_option JStr (opt_filter (\<lambda>n. n \<noteq> []) (query ''nonce''))"
    unfolding claims_nonce by (simp split: option.split)
  moreover have "json_get (idp_claims base i now x n) ''sub'' = Some (JStr (idp_sub x))"
    "json_get (idp_claims base i now x n) ''iss'' = Some (JStr (idp_issuer base i))" for n
    by (auto simp: idp_claims_def split: option.split)
  ultimately show ?token by blast
qed

end
