(* ===== verification/StoreTests.thy ===== *)
theory StoreTests
  imports StoreRuns Cookie
begin

text \<open>
  The unit tests of the in-memory stores (\<open>bff/src/storage/in_memory.rs\<close>), run on the model. Each test is
  a definition, true when its assertions hold; what a test reads at random or from a clock are its
  arguments, so that it is shown to pass for all of them, not for those of one run. They tie the model to
  what its authors ran the code on.
\<close>

type_synonym clock3 = "time \<times> time \<times> time"

definition sample_session :: "clock3 \<Rightarrow> uuid \<Rightarrow> string \<Rightarrow> session_data" where
  "sample_session now u token = (case now of (t1, t2, t3) \<Rightarrow>
     \<lparr>access_token = token, refresh_token = token @ ''-refresh'', id_token = token @ ''-id'', expires_at = t1,
       created_at = t2, refresh_expires_at = t3, user_id = u, sid = None\<rparr>)"

definition session_of :: "clock3 \<Rightarrow> uuid \<Rightarrow> string option \<Rightarrow> session_data" where
  "session_of now u x = (sample_session now u ''t'')\<lparr>sid := x\<rparr>"

definition saving :: "(string \<times> session_data) list \<Rightarrow> sessions \<Rightarrow> sessions" where
  "saving = fold (\<lambda>(i, d) s. snd (save_session s i d))"

definition is_there :: "sessions \<Rightarrow> string \<Rightarrow> bool" where
  "is_there s i \<longleftrightarrow> get_session s i \<noteq> None"

section \<open>The tests of sessions\<close>

definition revoking_a_user_drops_only_that_users_sessions :: "clock3 \<Rightarrow> uuid \<Rightarrow> uuid \<Rightarrow> bool" where
  "revoking_a_user_drops_only_that_users_sessions now alice bob \<longleftrightarrow>
     (let a = sample_session now alice ''alice'';
          s = saving [(''a1'', a), (''a2'', a), (''b1'', sample_session now bob ''bob'')] empty_sessions;
          s = snd (revoke s (User alice))
      in \<not> is_there s ''a1'' \<and> \<not> is_there s ''a2'' \<and> is_there s ''b1'')"

definition revoking_hands_back_the_dropped_sessions :: "clock3 \<Rightarrow> uuid \<Rightarrow> uuid \<Rightarrow> bool" where
  "revoking_hands_back_the_dropped_sessions now alice bob \<longleftrightarrow>
     (let s = saving [(''a'', session_of now alice (Some ''sid-1'')), (''b'', session_of now bob None)] empty_sessions;
          dropped = fst (revoke s (User alice))
      in length dropped = 1 \<and> map user_id (take 1 dropped) = [alice])"

definition revoking_a_login_session_keeps_the_users_other_ones :: "clock3 \<Rightarrow> uuid \<Rightarrow> uuid \<Rightarrow> bool" where
  "revoking_a_login_session_keeps_the_users_other_ones now alice bob \<longleftrightarrow>
     (let s = saving [(''a-one'', session_of now alice (Some ''sid-1'')), (''a-two'', session_of now alice (Some ''sid-2'')),
            (''a-none'', session_of now alice None), (''b-one'', session_of now bob (Some ''sid-1''))] empty_sessions;
          s = snd (revoke s (UserSession alice ''sid-1''))
      in \<not> is_there s ''a-one'' \<and> \<not> is_there s ''a-none'' \<and> is_there s ''a-two'' \<and> is_there s ''b-one'')"

definition revoking_by_sid_alone_never_touches_a_session_without_one :: "clock3 \<Rightarrow> uuid \<Rightarrow> bool" where
  "revoking_by_sid_alone_never_touches_a_session_without_one now alice \<longleftrightarrow>
     (let s = saving [(''one'', session_of now alice (Some ''sid-1'')), (''two'', session_of now alice (Some ''sid-2'')),
            (''none'', session_of now alice None)] empty_sessions;
          s = snd (revoke s (Session ''sid-1''))
      in \<not> is_there s ''one'' \<and> is_there s ''two'' \<and> is_there s ''none'')"

definition get_session_returns_none_for_unknown_id :: bool where
  "get_session_returns_none_for_unknown_id \<longleftrightarrow> get_session empty_sessions ''missing'' = None"

definition save_then_get_round_trips :: "clock3 \<Rightarrow> uuid \<Rightarrow> bool" where
  "save_then_get_round_trips now u \<longleftrightarrow>
     (case get_session (saving [(''session-1'', sample_session now u ''token-1'')] empty_sessions) ''session-1'' of
        None \<Rightarrow> False
      | Some d \<Rightarrow> access_token d = ''token-1'' \<and> refresh_token d = ''token-1-refresh'' \<and> id_token d = ''token-1-id'')"

definition get_session_does_not_consume_it :: "clock3 \<Rightarrow> uuid \<Rightarrow> bool" where
  "get_session_does_not_consume_it now u \<longleftrightarrow>
     (let s = saving [(''session-1'', sample_session now u ''token-1'')] empty_sessions
      in is_there s ''session-1'' \<and> is_there s ''session-1'')"

definition saving_the_same_id_again_overwrites_the_previous_entry :: "clock3 \<Rightarrow> uuid \<Rightarrow> uuid \<Rightarrow> bool" where
  "saving_the_same_id_again_overwrites_the_previous_entry now u v \<longleftrightarrow>
     map_option access_token (get_session (saving [(''session-1'', sample_session now u ''token-1''),
       (''session-1'', sample_session now v ''token-2'')] empty_sessions) ''session-1'') = Some ''token-2''"

definition update_replaces_an_existing_session_but_never_creates_one :: "clock3 \<Rightarrow> uuid \<Rightarrow> uuid \<Rightarrow> uuid \<Rightarrow> bool" where
  "update_replaces_an_existing_session_but_never_creates_one now u v w \<longleftrightarrow>
     (let s = saving [(''session-1'', sample_session now u ''token-1'')] empty_sessions;
          (updated, s) = update_session s ''session-1'' (sample_session now v ''token-2'');
          (missing, s) = update_session s ''session-2'' (sample_session now w ''token-3'')
      in is_ok updated \<and> map_option access_token (get_session s ''session-1'') = Some ''token-2'' \<and>
         missing = Err SessionGone \<and> \<not> is_there s ''session-2'')"

definition take_session_removes_and_returns_it :: "clock3 \<Rightarrow> uuid \<Rightarrow> bool" where
  "take_session_removes_and_returns_it now u \<longleftrightarrow>
     (let (taken, s) = take_session (saving [(''session-1'', sample_session now u ''token-1'')] empty_sessions) ''session-1''
      in map_option access_token taken = Some ''token-1'' \<and> \<not> is_there s ''session-1'' \<and>
         fst (take_session s ''session-1'') = None)"

text \<open>The sweep reads the clock at \<open>t\<close>, the test at \<open>t1\<close> and \<open>t2\<close> before.\<close>

definition the_sweep_drops_only_sessions_whose_refresh_token_died ::
    "clock3 \<Rightarrow> uuid \<Rightarrow> uuid \<Rightarrow> time \<Rightarrow> time \<Rightarrow> time \<Rightarrow> bool" where
  "the_sweep_drops_only_sessions_whose_refresh_token_died now u v t1 t2 t \<longleftrightarrow>
     (let live = (sample_session now u ''live'')\<lparr>refresh_expires_at := t1 + seconds 3600\<rparr>;
          dead = (sample_session now v ''dead'')\<lparr>refresh_expires_at := t2 - seconds 1\<rparr>;
          s = sweep_expired_sessions (saving [(''live'', live), (''dead'', dead)] empty_sessions) t
      in is_there s ''live'' \<and> \<not> is_there s ''dead'')"

definition the_sweep_drops_a_session_past_the_max_lifetime_whose_refresh_token_lives ::
    "clock3 \<Rightarrow> uuid \<Rightarrow> time \<Rightarrow> time \<Rightarrow> time \<Rightarrow> bool" where
  "the_sweep_drops_a_session_past_the_max_lifetime_whose_refresh_token_lives now u t1 t2 t \<longleftrightarrow>
     (let old = (sample_session now u ''old'')\<lparr>created_at := t1 - MAX_SESSION_LIFETIME - seconds 1,
            refresh_expires_at := t2 + seconds 3600\<rparr>
      in \<not> is_there (sweep_expired_sessions (saving [(''old'', old)] empty_sessions) t) ''old'')"

definition the_user_index_follows_every_way_a_session_leaves :: "clock3 \<Rightarrow> uuid \<Rightarrow> time \<Rightarrow> time \<Rightarrow> time \<Rightarrow> bool" where
  "the_user_index_follows_every_way_a_session_leaves now u t1 t2 t \<longleftrightarrow>
     (let live = (session_of now u None)\<lparr>refresh_expires_at := t1 + seconds 3600\<rparr>;
          dead = (session_of now u None)\<lparr>refresh_expires_at := t2 - seconds 1\<rparr>;
          s1 = saving [(''taken'', live), (''revoked'', live), (''dead'', dead)] empty_sessions;
          s2 = snd (take_session s1 ''taken'');
          s3 = sweep_expired_sessions s2 t;
          s4 = snd (revoke s3 (User u))
      in map_option length (map_of (by_user s1) u) = Some 3 \<and> map_option length (map_of (by_user s2) u) = Some 2 \<and>
         map_of (by_user s3) u = Some [''revoked''] \<and> by_user s4 = [])"

text \<open>The logins of one user, a second apart: the clock reads \<open>t n\<close> for the \<open>n\<close>-th.\<close>

definition nth_session :: "clock3 \<Rightarrow> uuid \<Rightarrow> (nat \<Rightarrow> time) \<Rightarrow> nat \<Rightarrow> string \<times> session_data" where
  "nth_session now u t n =
     (''s'' @ nat_str n, (session_of now u None)\<lparr>created_at := t n - seconds (1000 - int n)\<rparr>)"

fun save_each :: "sessions \<Rightarrow> (string \<times> session_data) list \<Rightarrow> session_data list list \<times> sessions" where
  "save_each s [] = ([], s)"
| "save_each s ((i, d) # xs) =
     (let (evicted, s1) = save_session s i d; (es, s2) = save_each s1 xs in (evicted # es, s2))"

definition a_user_beyond_the_session_cap_loses_the_oldest_and_gets_it_handed_back ::
    "clock3 \<Rightarrow> clock3 \<Rightarrow> uuid \<Rightarrow> uuid \<Rightarrow> (nat \<Rightarrow> time) \<Rightarrow> bool" where
  "a_user_beyond_the_session_cap_loses_the_oldest_and_gets_it_handed_back now later u v t \<longleftrightarrow>
     (let s = saving [(''other'', session_of now v None)] empty_sessions;
          (es, s) = save_each s (map (nth_session now u t) [0..<MAX_SESSIONS_PER_USER]);
          (evicted, s) = save_session s ''newest'' (session_of later u None)
      in list_all (\<lambda>e. e = []) es \<and> length evicted = 1 \<and> \<not> is_there s ''s0'' \<and> is_there s ''s1'' \<and>
         is_there s ''newest'' \<and> is_there s ''other'')"

definition the_user_index_follows_an_eviction :: "clock3 \<Rightarrow> uuid \<Rightarrow> (nat \<Rightarrow> time) \<Rightarrow> bool" where
  "the_user_index_follows_an_eviction now u t \<longleftrightarrow>
     (let s = saving (map (nth_session now u t) [0..<Suc MAX_SESSIONS_PER_USER]) empty_sessions
      in (case map_of (by_user s) u of
            None \<Rightarrow> False | Some ids \<Rightarrow> length ids = MAX_SESSIONS_PER_USER \<and> ''s0'' \<notin> set ids))"

section \<open>The tests of token ids\<close>

definition a_jti_can_be_recorded_once :: "time \<Rightarrow> time \<Rightarrow> time \<Rightarrow> time \<Rightarrow> bool" where
  "a_jti_can_be_recorded_once t0 t1 t2 t3 \<longleftrightarrow>
     (let until = t0 + seconds 600;
          (r1, used) = record_jti empty_jtis t1 ''jti-1'' until;
          (r2, used) = record_jti used t2 ''jti-1'' until;
          (r3, used) = record_jti used t3 ''jti-2'' until
      in r1 = Ok () \<and> r2 = Err JtiReplayed \<and> r3 = Ok ())"

definition a_jti_whose_window_passed_is_forgotten_even_before_a_sweep :: "time \<Rightarrow> time \<Rightarrow> time \<Rightarrow> time \<Rightarrow> bool" where
  "a_jti_whose_window_passed_is_forgotten_even_before_a_sweep t0 t1 t2 t3 \<longleftrightarrow>
     (let (r1, used) = record_jti empty_jtis t1 ''jti-1'' (t0 - seconds 1)
      in is_ok r1 \<and> fst (record_jti used t3 ''jti-1'' (t2 + seconds 60)) = Ok ())"

definition the_sweep_forgets_expired_jtis_only :: "time \<Rightarrow> time \<Rightarrow> time \<Rightarrow> time \<Rightarrow> time \<Rightarrow> time \<Rightarrow> time \<Rightarrow> bool" where
  "the_sweep_forgets_expired_jtis_only t0 t1 t2 t3 t4 t5 t6 \<longleftrightarrow>
     (let (r1, used) = record_jti empty_jtis t1 ''old'' (t0 - seconds 1);
          (r2, used) = record_jti used t3 ''fresh'' (t2 + seconds 300);
          used = sweep_expired_jtis used t4
      in is_ok r1 \<and> is_ok r2 \<and> length used = 1 \<and>
         fst (record_jti used t6 ''fresh'' (t5 + seconds 300)) = Err JtiReplayed)"

section \<open>They pass\<close>

text \<open>A save that stays below the cap evicts nothing.\<close>

lemma save_below_cap:
  assumes "sessions_wf s" "length (ids_of s (user_id d)) < MAX_SESSIONS_PER_USER"
  shows "save_session s i d = ([], insert_session s i d)"
proof -
  have "length (ids_of (insert_session s i d) (user_id d)) \<le> Suc (length (ids_of s (user_id d)))"
    by (simp add: ids_of_insert_session [OF assms(1)])
  with assms show ?thesis
    by (simp add: save_session_def Let_def own_by_age_props(2) [OF insert_session_wf])
qed



lemmas store_eval = saving_def is_there_def sample_session_def session_of_def empty_sessions_def save_session_def
  insert_session_def ids_of_def unindex_def get_session_def revoke_def remove_session_def take_session_def
  update_session_def sweep_expired_sessions_def own_by_age_def MAX_SESSIONS_PER_USER_def map_filter_simps Let_def

lemma revocation_tests_pass:
  assumes "alice \<noteq> bob"
  shows "revoking_a_user_drops_only_that_users_sessions now alice bob"
    "revoking_hands_back_the_dropped_sessions now alice bob"
    "revoking_a_login_session_keeps_the_users_other_ones now alice bob"
    "revoking_by_sid_alone_never_touches_a_session_without_one now alice"
  using assms
  by (cases now, simp add: store_eval revoking_a_user_drops_only_that_users_sessions_def
      revoking_hands_back_the_dropped_sessions_def revoking_a_login_session_keeps_the_users_other_ones_def
      revoking_by_sid_alone_never_touches_a_session_without_one_def)+

lemma lookup_tests_pass:
  "get_session_returns_none_for_unknown_id" "save_then_get_round_trips now u" "get_session_does_not_consume_it now u"
  "saving_the_same_id_again_overwrites_the_previous_entry now u v"
  "update_replaces_an_existing_session_but_never_creates_one now u v w" "take_session_removes_and_returns_it now u"
  by (cases now, simp add: store_eval get_session_returns_none_for_unknown_id_def save_then_get_round_trips_def
      get_session_does_not_consume_it_def saving_the_same_id_again_overwrites_the_previous_entry_def
      update_replaces_an_existing_session_but_never_creates_one_def take_session_removes_and_returns_it_def)+

text \<open>The clock does not go back, and a test takes less than an hour.\<close>

lemma index_test:
  assumes "t < ends_at live" "ends_at dead \<le> t" "user_id live = u" "user_id dead = u"
  shows "(let s1 = saving [(''taken'', live), (''revoked'', live), (''dead'', dead)] empty_sessions;
          s2 = snd (take_session s1 ''taken'');
          s3 = sweep_expired_sessions s2 t;
          s4 = snd (revoke s3 (User u))
      in map_option length (map_of (by_user s1) u) = Some 3 \<and> map_option length (map_of (by_user s2) u) = Some 2 \<and>
         map_of (by_user s3) u = Some [''revoked''] \<and> by_user s4 = [])"
proof -
  have s1: "saving [(''taken'', live), (''revoked'', live), (''dead'', dead)] empty_sessions =
    \<lparr>by_id = [(''taken'', live), (''revoked'', live), (''dead'', dead)], by_user = [(u, [''taken'', ''revoked'', ''dead''])]\<rparr>"
    by (simp add: store_eval assms(3,4))
  show ?thesis
    using assms by (simp add: s1 Let_def take_session_def remove_session_def unindex_def sweep_expired_sessions_def
        revoke_def ids_of_def)
qed

lemma sweep_test:
  assumes "t < ends_at live" "ends_at dead \<le> t"
  shows "is_there (sweep_expired_sessions (saving [(''live'', live), (''dead'', dead)] empty_sessions) t) ''live'' \<and>
    \<not> is_there (sweep_expired_sessions (saving [(''live'', live), (''dead'', dead)] empty_sessions) t) ''dead''"
proof -
  let ?s = "saving [(''live'', live), (''dead'', dead)] empty_sessions"
  have "get_session ?s ''live'' = Some live" "get_session ?s ''dead'' = Some dead" by (simp_all add: store_eval)
  moreover have "sessions_wf ?s" by (simp add: saving_def wf_intros)
  ultimately show ?thesis using assms by (simp add: is_there_def sweep_sessions_lookup)
qed

lemma sweep_tests_pass:
  assumes "t1 \<le> t" "t2 \<le> t" "t < t1 + seconds 3600" "fst (snd now) \<le> t" "t < fst (snd now) + seconds 3600"
  shows "the_sweep_drops_only_sessions_whose_refresh_token_died now u v t1 t2 t"
    "the_sweep_drops_a_session_past_the_max_lifetime_whose_refresh_token_lives now u t1 t2 t"
    "the_user_index_follows_every_way_a_session_leaves now u t1 t2 t"
proof -
  obtain a b c where now: "now = (a, b, c)" by (cases now)
  have life: "t < b + MAX_SESSION_LIFETIME" using assms(5) by (simp add: now MAX_SESSION_LIFETIME_def seconds_def)
  show "the_sweep_drops_only_sessions_whose_refresh_token_died now u v t1 t2 t"
    unfolding the_sweep_drops_only_sessions_whose_refresh_token_died_def Let_def
    using assms life by (intro sweep_test) (simp_all add: ends_at_def sample_session_def now seconds_def)
  show "the_sweep_drops_a_session_past_the_max_lifetime_whose_refresh_token_lives now u t1 t2 t"
    using assms by (simp add: the_sweep_drops_a_session_past_the_max_lifetime_whose_refresh_token_lives_def store_eval now
        ends_at_def seconds_def)
  show "the_user_index_follows_every_way_a_session_leaves now u t1 t2 t"
    unfolding the_user_index_follows_every_way_a_session_leaves_def Let_def
    using assms life
    by (intro index_test [unfolded Let_def]) (simp_all add: ends_at_def session_of_def sample_session_def now seconds_def)
qed

lemma jti_tests_pass:
  assumes "t0 \<le> t1" "t1 \<le> t2" "t2 \<le> t3" "t3 \<le> t4" "t4 \<le> t5" "t5 \<le> t6" "t6 < t0 + seconds 300"
  shows "a_jti_can_be_recorded_once t0 t1 t2 t3"
    "a_jti_whose_window_passed_is_forgotten_even_before_a_sweep t0 t1 t2 t3"
    "the_sweep_forgets_expired_jtis_only t0 t1 t2 t3 t4 t5 t6"
  using assms
  by (simp add: a_jti_can_be_recorded_once_def a_jti_whose_window_passed_is_forgotten_even_before_a_sweep_def
      the_sweep_forgets_expired_jtis_only_def record_jti_def sweep_expired_jtis_def empty_jtis_def seconds_def Let_def)+

text \<open>The logins of one user in a row: they are in the index in their order, and their times rise.\<close>

lemma save_each_below_cap:
  assumes "sessions_wf s" "\<And>i d. (i, d) \<in> set xs \<Longrightarrow> user_id d = u \<and> get_session s i = None" "distinct (map fst xs)"
    "length (ids_of s u) + length xs \<le> MAX_SESSIONS_PER_USER"
  shows "save_each s xs = (replicate (length xs) [], saving xs s) \<and> sessions_wf (saving xs s) \<and>
    ids_of (saving xs s) u = ids_of s u @ map fst xs \<and> (\<forall>j. get_session (saving xs s) j = (case map_of xs j of None \<Rightarrow> get_session s j | Some d \<Rightarrow> Some d))"
  using assms
proof (induction xs arbitrary: s)
  case Nil
  then show ?case by (simp add: saving_def)
next
  case (Cons x xs)
  obtain i d where x: "x = (i, d)" by fastforce
  with Cons.prems have d: "user_id d = u" "get_session s i = None" by auto
  let ?s = "insert_session s i d"
  have saved: "save_session s i d = ([], ?s)"
    using Cons.prems d by (intro save_below_cap) simp_all
  have wf: "sessions_wf ?s" by (rule insert_session_wf [OF Cons.prems(1)])
  have "i \<notin> set (ids_of s u)" using sessions_wfD(4) [OF Cons.prems(1), of i u] d(2) by (simp add: get_session_def)
  then have ids: "ids_of ?s u = ids_of s u @ [i]"
    using d(1) by (auto simp: ids_of_insert_session [OF Cons.prems(1)] intro!: filter_True)
  have lookup: "get_session ?s = (get_session s)(i \<mapsto> d)" by (simp add: get_session_eq)
  have "user_id e = u \<and> get_session ?s j = None" if "(j, e) \<in> set xs" for j e
    using Cons.prems(2) [of j e] Cons.prems(3) that x by (auto simp: lookup image_iff)
  with Cons.IH [OF wf] Cons.prems(3,4) ids have IH: "save_each ?s xs = (replicate (length xs) [], saving xs ?s) \<and>
    sessions_wf (saving xs ?s) \<and> ids_of (saving xs ?s) u = ids_of ?s u @ map fst xs \<and>
    (\<forall>j. get_session (saving xs ?s) j = (case map_of xs j of None \<Rightarrow> get_session ?s j | Some d \<Rightarrow> Some d))" by simp
  moreover have "saving (x # xs) s = saving xs ?s" by (simp add: saving_def x saved)
  moreover have "map_of xs i = None" using Cons.prems(3) by (simp add: x map_of_eq_None_iff)
  ultimately show ?case using ids by (auto simp: x saved lookup split: option.split)
qed

lemma own_by_age_in_order:
  assumes "sessions_wf s" "sorted (map (\<lambda>i. created_at (the (get_session s i))) (ids_of s u))"
  shows "map fst (own_by_age s u) = ids_of s u"
proof -
  let ?own = "List.map_filter (\<lambda>i. map_option (\<lambda>d. (i, created_at d)) (map_of (by_id s) i)) (ids_of s u)"
  have "map snd ?own = map (\<lambda>i. created_at (the (get_session s i))) ids"
    if "\<forall>i \<in> set ids. get_session s i \<noteq> None"
      "?own = List.map_filter (\<lambda>i. map_option (\<lambda>d. (i, created_at d)) (map_of (by_id s) i)) ids" for ids
    using that(1) unfolding that(2) by (induction ids) (auto simp: map_filter_simps get_session_def)
  moreover have "\<forall>i \<in> set (ids_of s u). get_session s i \<noteq> None"
    using sessions_wfD(4) [OF assms(1)] by (auto simp: get_session_def)
  ultimately have "sorted (map snd ?own)" using assms(2) by simp
  then have "sort_key snd ?own = ?own" by (rule sort_key_id_if_sorted)
  then show ?thesis by (simp add: own_by_age_def map_filter_own [OF assms(1)])
qed


lemma nth_session_names:
  "map fst (map (nth_session now u t) [0..<21]) =
     [''s0'', ''s1'', ''s2'', ''s3'', ''s4'', ''s5'', ''s6'', ''s7'', ''s8'', ''s9'', ''s10'', ''s11'', ''s12'', ''s13'', ''s14'', ''s15'', ''s16'', ''s17'', ''s18'', ''s19'', ''s20'']"
proof -
  have "map fst (map (nth_session now u t) [0..<21]) = map (\<lambda>n. ''s'' @ nat_str n) [0..<21]" by (simp add: nth_session_def)
  also have "\<dots> = [''s0'', ''s1'', ''s2'', ''s3'', ''s4'', ''s5'', ''s6'', ''s7'', ''s8'', ''s9'', ''s10'', ''s11'', ''s12'', ''s13'', ''s14'', ''s15'', ''s16'', ''s17'', ''s18'', ''s19'', ''s20'']"
    by code_simp
  finally show ?thesis .
qed

lemma nth_session_user: "(i, d) \<in> set (map (nth_session now u t) ns) \<Longrightarrow> user_id d = u"
  by (auto simp: nth_session_def session_of_def sample_session_def split: prod.splits)


lemma nth_session_created:
  "created_at (snd (nth_session now u t n)) = t n - seconds (1000 - int n)"
  by (simp add: nth_session_def)

text \<open>One login more than the cap, each later than the one before: the first is evicted.\<close>

lemma one_too_many:
  assumes "sessions_wf s" "ids_of s u = map fst xs" "length xs = MAX_SESSIONS_PER_USER" "distinct (map fst xs)"
    "\<And>i d. (i, d) \<in> set xs \<Longrightarrow> get_session s i = Some d" "sorted (map (created_at \<circ> snd) xs)"
    "user_id d = u" "get_session s i = None" "\<And>e. e \<in> snd ` set xs \<Longrightarrow> created_at e \<le> created_at d"
  shows "evicted_ids s i d = [fst (hd xs)]"
proof -
  let ?s = "insert_session s i d"
  have wf: "sessions_wf ?s" by (rule insert_session_wf [OF assms(1)])
  have "i \<notin> set (ids_of s u)" using sessions_wfD(4) [OF assms(1), of i u] assms(8) by (simp add: get_session_def)
  then have ids: "ids_of ?s u = map fst xs @ [i]"
    using assms(2,7) by (auto simp: ids_of_insert_session [OF assms(1)] intro!: filter_True)
  have "created_at (the (get_session ?s (fst x))) = (created_at \<circ> snd) x" if "x \<in> set xs" for x
    using that assms(5) [of "fst x" "snd x"] assms(8) by (auto simp: get_session_eq)
  then have "map (\<lambda>j. created_at (the (get_session ?s j))) (ids_of ?s u) = map (created_at \<circ> snd) xs @ [created_at d]"
    by (simp add: ids) (simp add: get_session_eq)
  then have "sorted (map (\<lambda>j. created_at (the (get_session ?s j))) (ids_of ?s u))"
    using assms(6,9) by (simp add: sorted_append)
  from own_by_age_in_order [OF wf this] have own: "map fst (own_by_age ?s u) = map fst xs @ [i]" by (simp add: ids)
  then have len: "length (own_by_age ?s u) = Suc MAX_SESSIONS_PER_USER"
    using assms(3) by (metis length_append_singleton length_map)
  obtain x ys where xs: "xs = x # ys" using assms(3) by (cases xs) (auto simp: MAX_SESSIONS_PER_USER_def)
  have "map fst (take 1 (own_by_age ?s u)) = take 1 (map fst (own_by_age ?s u))" by (simp add: take_map)
  with own len assms(7) xs show ?thesis by (simp add: evicted_ids_def Let_def)
qed


text \<open>The sessions the two tests of the cap save.\<close>

lemma nth_sessions:
  assumes "mono t" and xs_def: "xs = map (nth_session now u t) [0..<20]"
  shows "map fst xs = [''s0'', ''s1'', ''s2'', ''s3'', ''s4'', ''s5'', ''s6'', ''s7'', ''s8'', ''s9'', ''s10'', ''s11'', ''s12'', ''s13'', ''s14'', ''s15'', ''s16'', ''s17'', ''s18'', ''s19'']"
    "distinct (map fst xs)" "sorted (map (created_at \<circ> snd) xs)" "fst (nth_session now u t 20) = ''s20''"
    "xs = nth_session now u t 0 # map (nth_session now u t) [1..<20]"
proof -
  have up: "map (nth_session now u t) [0..<21] = xs @ [nth_session now u t 20]"
    using upt_Suc_append [of 0 20] by (simp add: xs_def)
  then have "map fst xs @ [fst (nth_session now u t 20)] = map fst (map (nth_session now u t) [0..<21])" by simp
  then have "map fst xs @ [fst (nth_session now u t 20)] = [''s0'', ''s1'', ''s2'', ''s3'', ''s4'', ''s5'', ''s6'', ''s7'', ''s8'', ''s9'', ''s10'', ''s11'', ''s12'', ''s13'', ''s14'', ''s15'', ''s16'', ''s17'', ''s18'', ''s19''] @ [''s20'']" unfolding nth_session_names by simp
  then show n: "map fst xs = [''s0'', ''s1'', ''s2'', ''s3'', ''s4'', ''s5'', ''s6'', ''s7'', ''s8'', ''s9'', ''s10'', ''s11'', ''s12'', ''s13'', ''s14'', ''s15'', ''s16'', ''s17'', ''s18'', ''s19'']" "fst (nth_session now u t 20) = ''s20''" by blast+
  show "distinct (map fst xs)" unfolding n by simp
  have "t m - seconds (1000 - int m) \<le> t n - seconds (1000 - int n)" if "m < n" for m n
    using monoD [OF assms(1), of m n] that by (simp add: seconds_def)
  then have "sorted (map (\<lambda>n. t n - seconds (1000 - int n)) [0..<20])"
    unfolding sorted_map by (intro sorted_wrt_mono_rel [OF _ sorted_wrt_upt])
  then show "sorted (map (created_at \<circ> snd) xs)" by (simp add: xs_def comp_def nth_session_created)
  show "xs = nth_session now u t 0 # map (nth_session now u t) [1..<20]" by (simp add: xs_def upt_conv_Cons)
qed


lemma cap_tests_pass:
  assumes "mono t" "t 19 \<le> fst (snd later)" "u \<noteq> v"
  shows "a_user_beyond_the_session_cap_loses_the_oldest_and_gets_it_handed_back now later u v t"
    "the_user_index_follows_an_eviction now u t"
proof -
  define xs where "xs = map (nth_session now u t) [0..<20]"
  note xs = nth_sessions [OF assms(1) xs_def]
  have cap: "MAX_SESSIONS_PER_USER = 20" by (simp add: MAX_SESSIONS_PER_USER_def)
  have user: "user_id d = u" if "(i, d) \<in> set xs" for i d using that nth_session_user unfolding xs_def by blast
  have len: "length xs = 20" by (simp add: xs_def)
  have names: "fst ` set xs = set [''s0'', ''s1'', ''s2'', ''s3'', ''s4'', ''s5'', ''s6'', ''s7'', ''s8'', ''s9'', ''s10'', ''s11'', ''s12'', ''s13'', ''s14'', ''s15'', ''s16'', ''s17'', ''s18'', ''s19'']" using xs(1) by (metis list.set_map)
  have present: "map_of xs ''s0'' \<noteq> None" "map_of xs ''s1'' \<noteq> None" unfolding map_of_eq_None_iff names by simp_all
  have absent: "map_of xs ''newest'' = None" "map_of xs ''other'' = None" "map_of xs ''s20'' = None"
    unfolding map_of_eq_None_iff names by simp_all
  have created: "created_at e \<le> fst (snd later)" if "e \<in> snd ` set xs" for e
  proof -
    from that obtain n where n: "n < 20" "e = snd (nth_session now u t n)" by (auto simp: xs_def)
    then have "t n \<le> t 19" using assms(1) by (simp add: monoD)
    with n assms(2) show ?thesis by (simp add: nth_session_created seconds_def)
  qed
  have s0: "\<exists>d. nth_session now u t 0 = (''s0'', d)" using xs(1) unfolding xs(5) by (cases "nth_session now u t 0") simp
  have run: "save_each s xs = (replicate 20 [], saving xs s)" "sessions_wf (saving xs s)" "ids_of (saving xs s) u = map fst xs"
    "\<And>j. get_session (saving xs s) j = (case map_of xs j of None \<Rightarrow> get_session s j | Some d \<Rightarrow> Some d)" "\<And>i d. (i, d) \<in> set xs \<Longrightarrow> get_session (saving xs s) i = Some d"
    if "sessions_wf s" "ids_of s u = []" "\<forall>i \<in> set (map fst xs). get_session s i = None" for s
  proof -
    have "user_id d = u \<and> get_session s i = None" if "(i, d) \<in> set xs" for i d
      using user [OF that] that \<open>\<forall>i \<in> set (map fst xs). get_session s i = None\<close> by force
    from save_each_below_cap [OF that(1) this xs(2)] that(2) len cap
    show "save_each s xs = (replicate 20 [], saving xs s)" "sessions_wf (saving xs s)" "ids_of (saving xs s) u = map fst xs"
      and l: "\<And>j. get_session (saving xs s) j = (case map_of xs j of None \<Rightarrow> get_session s j | Some d \<Rightarrow> Some d)" by simp_all
    show "get_session (saving xs s) i = Some d" if "(i, d) \<in> set xs" for i d
      using that xs(2) by (simp add: l)
  qed
  show "a_user_beyond_the_session_cap_loses_the_oldest_and_gets_it_handed_back now later u v t"
  proof -
    define s where "s = saving [(''other'', session_of now v None)] empty_sessions"
    have s: "sessions_wf s" "ids_of s u = []" "get_session s = [''other'' \<mapsto> session_of now v None]"
      using assms(3) by (auto simp: s_def saving_def save_session_wf)
        (simp_all add: store_eval fun_eq_iff split: prod.split)
    have "\<forall>i \<in> set (map fst xs). get_session s i = None" unfolding xs(1) s(3) by simp
    note r = run [OF s(1,2) this]
    let ?d = "session_of later u None"
    have newest: "get_session (saving xs s) ''newest'' = None" using r(4) [of "''newest''"] by (simp add: absent s(3))
    have "evicted_ids (saving xs s) ''newest'' ?d = [fst (hd xs)]"
    proof (rule one_too_many [OF r(2,3) _ xs(2) r(5) xs(3)])
      show "created_at e \<le> created_at ?d" if "e \<in> snd ` set xs" for e
        using that created [of e] by (auto simp: session_of_def sample_session_def split: prod.split)
    qed (simp_all add: len cap session_of_def sample_session_def newest split: prod.split)
    then have ev: "evicted_ids (saving xs s) ''newest'' ?d = [''s0'']" using s0 xs(5) by auto
    have there: "get_session (saving xs s) ''s0'' \<noteq> None" "get_session (saving xs s) ''s1'' \<noteq> None"
      "get_session (saving xs s) ''other'' \<noteq> None"
      using present r(4) [of "''s0''"] r(4) [of "''s1''"] r(4) [of "''other''"] by (auto simp: s(3) absent)
    then have "length (fst (save_session (saving xs s) ''newest'' ?d)) = 1"
      by (auto simp: save_session_fst [OF r(2)] ev map_filter_simps get_session_def)
    moreover have "is_there (snd (save_session (saving xs s) ''newest'' ?d)) i \<longleftrightarrow>
        i \<noteq> ''s0'' \<and> (i = ''newest'' \<or> get_session (saving xs s) i \<noteq> None)" for i
      by (simp add: is_there_def save_session_lookup ev) (simp add: get_session_eq)
    ultimately show ?thesis using r(1) there
      by (simp add: a_user_beyond_the_session_cap_loses_the_oldest_and_gets_it_handed_back_def Let_def
          cap case_prod_beta list_all_iff flip: xs_def s_def)
  qed
  show "the_user_index_follows_an_eviction now u t"
  proof -
    have none: "ids_of empty_sessions u = []" "\<forall>i \<in> set (map fst xs). get_session empty_sessions i = None"
      by (simp_all add: ids_of_def empty_sessions_def get_session_def)
    note r = run [OF empty_sessions_wf none]
    have last: "get_session (saving xs empty_sessions) ''s20'' = None" using r(4) [of "''s20''"] by (simp add: absent)
    let ?s = "saving xs empty_sessions"
    obtain d where d: "nth_session now u t 20 = (''s20'', d)" using xs(4) by (cases "nth_session now u t 20") simp
    have "user_id d = u" using nth_session_user [of "''s20''" d now u t "[20]"] d by simp
    have "evicted_ids ?s ''s20'' d = [fst (hd xs)]"
    proof (rule one_too_many [OF r(2,3) _ xs(2) r(5) xs(3)])
      show "created_at e \<le> created_at d" if "e \<in> snd ` set xs" for e
      proof -
        from that obtain n where n: "n < 20" "e = snd (nth_session now u t n)" by (auto simp: xs_def)
        then have "t n \<le> t 20" using assms(1) by (simp add: monoD)
        with n nth_session_created [of now u t 20] d show ?thesis by (simp add: nth_session_created seconds_def)
      qed
    qed (simp_all add: len cap last \<open>user_id d = u\<close>)
    then have ev: "evicted_ids ?s ''s20'' d = [''s0'']" using s0 xs(5) by auto
    let ?t = "snd (save_session ?s ''s20'' d)" and ?names = "[''s1'', ''s2'', ''s3'', ''s4'', ''s5'', ''s6'', ''s7'', ''s8'', ''s9'', ''s10'', ''s11'', ''s12'', ''s13'', ''s14'', ''s15'', ''s16'', ''s17'', ''s18'', ''s19'', ''s20'']"
    have ids: "ids_of ?t u = ?names"
      unfolding save_session_eq ev remove_all_ids_of [OF insert_session_wf [OF r(2)]] ids_of_insert_session [OF r(2)] r(3)
      by (simp add: \<open>user_id d = u\<close> xs(1))
    have "saving (map (nth_session now u t) [0..<Suc MAX_SESSIONS_PER_USER]) empty_sessions = ?t"
      using d upt_Suc_append [of 0 20] by (simp add: saving_def cap xs_def)
    moreover have "map_of (by_user ?t) u = Some (ids_of ?t u)"
      using ids by (cases "map_of (by_user ?t) u") (simp_all add: ids_of_def)
    ultimately show ?thesis
      by (simp add: the_user_index_follows_an_eviction_def cap ids)
  qed
qed

end
