(* ===== verification/ThrottleTests.thy ===== *)
theory ThrottleTests
  imports Throttle Cookie
begin

text \<open>
  The unit tests of login's throttle (\<open>login/src/throttle.rs\<close>, \<open>mod tests\<close>), run on the model. Each is a
  definition, true when its assertions hold. \<open>key\<close> is \<open>Key::of\<close>, \<open>now\<close> what the clock read, \<open>tie\<close> the order in
  which an eviction takes equal entries.

  The tests pass for every key function that tells the names of a test apart.
\<close>

section \<open>The tests\<close>

definition spelling_variants_are_one_identifier :: "(string \<Rightarrow> throttle_key) \<Rightarrow> bool" where
  "spelling_variants_are_one_identifier key \<longleftrightarrow>
     key ''A@B.c'' = key ''  a@b.C '' \<and> key ''a@b.c'' \<noteq> key ''a@b.d''"

text \<open>\<open>v\<close> and a dotted capital \<open>I\<close>, two bytes of UTF-8.\<close>

definition lowercasing_is_one_to_one_like_gos :: "(string \<Rightarrow> throttle_key) \<Rightarrow> bool" where
  "lowercasing_is_one_to_one_like_gos key \<longleftrightarrow> key (''v'' @ [CHR 0xC4, CHR 0xB0] @ ''ctim@x'') = key ''victim@x''"

fun admits :: "(throttle_key \<Rightarrow> nat) \<Rightarrow> throttle_key \<Rightarrow> time \<Rightarrow> nat \<Rightarrow> throttle \<Rightarrow> admission list \<times> throttle" where
  "admits tie k now 0 t = ([], t)"
| "admits tie k now (Suc n) t =
     (let (r, t) = admit tie t k now; (rs, t) = admits tie k now n t in (r # rs, t))"

definition all_admitted :: "admission list \<Rightarrow> bool" where
  "all_admitted rs \<longleftrightarrow> list_all (\<lambda>r. r = Admitted) rs"

definition is_wait :: "admission \<Rightarrow> bool" where
  "is_wait r \<longleftrightarrow> (case r of Wait d \<Rightarrow> True | Admitted \<Rightarrow> False)"

definition the_free_attempts_wait_for_nothing :: "(throttle_key \<Rightarrow> nat) \<Rightarrow> (string \<Rightarrow> throttle_key) \<Rightarrow> time \<Rightarrow> bool" where
  "the_free_attempts_wait_for_nothing tie key now \<longleftrightarrow>
     (let (rs, t) = admits tie (key ''a'') now (unat FREE_ATTEMPTS) []
      in all_admitted rs \<and> fst (admit tie t (key ''a'') now) = Wait SHORT_DELAY)"

definition the_delay_counts_down_and_then_lets_one_attempt_through ::
    "(throttle_key \<Rightarrow> nat) \<Rightarrow> (string \<Rightarrow> throttle_key) \<Rightarrow> time \<Rightarrow> bool" where
  "the_delay_counts_down_and_then_lets_one_attempt_through tie key start \<longleftrightarrow>
     (let (rs, t) = admits tie (key ''a'') start (unat FREE_ATTEMPTS) [];
          (early, t) = admit tie t (key ''a'') (start + seconds 10);
          ready = start + SHORT_DELAY;
          (one, t) = admit tie t (key ''a'') ready
      in early = Wait (seconds 20) \<and> one = Admitted \<and> is_wait (fst (admit tie t (key ''a'') ready)))"

text \<open>One attempt after each short delay, \<open>n\<close> times; and when the last was.\<close>

fun after_delays ::
    "(throttle_key \<Rightarrow> nat) \<Rightarrow> throttle_key \<Rightarrow> time \<Rightarrow> nat \<Rightarrow> throttle \<Rightarrow> admission list \<times> time \<times> throttle" where
  "after_delays tie k now 0 t = ([], now, t)"
| "after_delays tie k now (Suc n) t =
     (let (r, t) = admit tie t k (now + SHORT_DELAY);
          (rs, later, t) = after_delays tie k (now + SHORT_DELAY) n t
      in (r # rs, later, t))"

definition the_delay_grows_with_failures :: "(throttle_key \<Rightarrow> nat) \<Rightarrow> (string \<Rightarrow> throttle_key) \<Rightarrow> time \<Rightarrow> bool" where
  "the_delay_grows_with_failures tie key start \<longleftrightarrow>
     (let (free, t) = admits tie (key ''a'') start (unat FREE_ATTEMPTS) [];
          (rs, now, t) = after_delays tie (key ''a'') start (unat SHORT_DELAY_ATTEMPTS) t
      in all_admitted rs \<and> fst (admit tie t (key ''a'') now) = Wait LONG_DELAY)"

definition identifiers_are_independent :: "(throttle_key \<Rightarrow> nat) \<Rightarrow> (string \<Rightarrow> throttle_key) \<Rightarrow> time \<Rightarrow> bool" where
  "identifiers_are_independent tie key now \<longleftrightarrow>
     fst (admit tie (snd (admits tie (key ''a'') now (unat FREE_ATTEMPTS) [])) (key ''b'') now) = Admitted"

definition success_starts_over :: "(throttle_key \<Rightarrow> nat) \<Rightarrow> (string \<Rightarrow> throttle_key) \<Rightarrow> time \<Rightarrow> bool" where
  "success_starts_over tie key now \<longleftrightarrow>
     (let t = settle (snd (admits tie (key ''a'') now (unat FREE_ATTEMPTS) [])) (key ''a'') Succeeded
      in length t = 0 \<and> all_admitted (fst (admits tie (key ''a'') now (unat FREE_ATTEMPTS) t)))"

text \<open>An attempt and its outcome, \<open>n\<close> times.\<close>

fun tries ::
    "(throttle_key \<Rightarrow> nat) \<Rightarrow> throttle_key \<Rightarrow> time \<Rightarrow> outcome \<Rightarrow> nat \<Rightarrow> throttle \<Rightarrow> throttle" where
  "tries tie k now out 0 t = t"
| "tries tie k now out (Suc n) t = tries tie k now out n (settle (snd (admit tie t k now)) k out)"

definition an_attempt_that_says_nothing_about_the_password_is_given_back ::
    "(throttle_key \<Rightarrow> nat) \<Rightarrow> (string \<Rightarrow> throttle_key) \<Rightarrow> time \<Rightarrow> bool" where
  "an_attempt_that_says_nothing_about_the_password_is_given_back tie key now \<longleftrightarrow>
     (let t = tries tie (key ''a'') now NotAnAttempt (unat FREE_ATTEMPTS) []
      in length t = 0 \<and> fst (admit tie t (key ''a'') now) = Admitted)"

definition a_failed_attempt_stays_counted :: "(throttle_key \<Rightarrow> nat) \<Rightarrow> (string \<Rightarrow> throttle_key) \<Rightarrow> time \<Rightarrow> bool" where
  "a_failed_attempt_stays_counted tie key now \<longleftrightarrow>
     is_wait (fst (admit tie (tries tie (key ''a'') now Failed (unat FREE_ATTEMPTS) []) (key ''a'') now))"

definition an_identifier_nobody_tried_for_an_hour_is_forgotten ::
    "(throttle_key \<Rightarrow> nat) \<Rightarrow> (string \<Rightarrow> throttle_key) \<Rightarrow> time \<Rightarrow> bool" where
  "an_identifier_nobody_tried_for_an_hour_is_forgotten tie key now \<longleftrightarrow>
     (let (free, t) = admits tie (key ''a'') now (unat FREE_ATTEMPTS) [];
          later = now + FORGET_AFTER;
          (one, t) = admit tie t (key ''a'') later
      in one = Admitted \<and> all_admitted (fst (admits tie (key ''a'') later (unat FREE_ATTEMPTS - 1) t)))"

definition the_sweep_drops_expired_identifiers_only ::
    "(throttle_key \<Rightarrow> nat) \<Rightarrow> (string \<Rightarrow> throttle_key) \<Rightarrow> time \<Rightarrow> bool" where
  "the_sweep_drops_expired_identifiers_only tie key now \<longleftrightarrow>
     (let t = snd (admit tie [] (key ''old'') now);
          t = snd (admit tie t (key ''new'') (now + FORGET_AFTER - seconds 1))
      in length (throttle_sweep t (now + FORGET_AFTER)) = 1)"

definition delayed :: "time \<Rightarrow> throttle_entry" where
  "delayed now = \<lparr>attempts = FREE_ATTEMPTS, last_attempt = now\<rparr>"

text \<open>A table filled up with made-up names.\<close>

definition filler :: "nat \<Rightarrow> string" where
  "filler n = ''filler-'' @ nat_str n"

definition filled :: "(string \<Rightarrow> throttle_key) \<Rightarrow> throttle_entry \<Rightarrow> throttle \<Rightarrow> throttle" where
  "filled key e t = foldl (\<lambda>t n. AList.update (key (filler n)) e t) t [0..<MAX_TRACKED]"

definition a_full_map_evicts_the_undelayed_before_the_delayed ::
    "(throttle_key \<Rightarrow> nat) \<Rightarrow> (string \<Rightarrow> throttle_key) \<Rightarrow> time \<Rightarrow> bool" where
  "a_full_map_evicts_the_undelayed_before_the_delayed tie key now \<longleftrightarrow>
     (let (free, t) = admits tie (key ''victim'') now (unat FREE_ATTEMPTS) [];
          (r, t) = admit tie (filled key \<lparr>attempts = 1, last_attempt = now\<rparr> t) (key ''fresh'') now
      in r = Admitted \<and> length t < MAX_TRACKED \<and> is_wait (fst (admit tie t (key ''victim'') now)))"

definition a_new_identifier_is_still_throttled_when_the_map_is_full_of_delayed_ones ::
    "(throttle_key \<Rightarrow> nat) \<Rightarrow> (string \<Rightarrow> throttle_key) \<Rightarrow> time \<Rightarrow> bool" where
  "a_new_identifier_is_still_throttled_when_the_map_is_full_of_delayed_ones tie key now \<longleftrightarrow>
     (let (rs, t) = admits tie (key ''victim'') now (unat FREE_ATTEMPTS) (filled key (delayed now) []);
          (r, t) = admit tie t (key ''victim'') now
      in all_admitted rs \<and> is_wait r \<and> length t \<le> MAX_TRACKED)"

section \<open>They pass\<close>

text \<open>The hash tells apart what is not the same in lower case.\<close>

lemma key_tests_pass:
  assumes "\<And>s. list_all (\<lambda>c. byte c < 128) s \<Longrightarrow> lower s = to_ascii_lowercase s"
    and "lower (''v'' @ [CHR 0xC4, CHR 0xB0] @ ''ctim@x'') = ''victim@x''"
    and "sha256 L ''a@b.c'' \<noteq> sha256 L ''a@b.d''"
  shows "spelling_variants_are_one_identifier (key_of L lower)" "lowercasing_is_one_to_one_like_gos (key_of L lower)"
proof -
  have trimmed: "trim ''A@B.c'' = ''A@B.c''" "trim ''  a@b.C '' = ''a@b.C''" "trim ''a@b.c'' = ''a@b.c''"
    "trim ''a@b.d'' = ''a@b.d''" "trim ''victim@x'' = ''victim@x''"
    "trim (''v'' @ [CHR 0xC4, CHR 0xB0] @ ''ctim@x'') = ''v'' @ [CHR 0xC4, CHR 0xB0] @ ''ctim@x''" by code_simp+
  have small: "to_ascii_lowercase ''A@B.c'' = ''a@b.c''" "to_ascii_lowercase ''a@b.C'' = ''a@b.c''"
    "to_ascii_lowercase ''a@b.c'' = ''a@b.c''" "to_ascii_lowercase ''a@b.d'' = ''a@b.d''"
    "to_ascii_lowercase ''victim@x'' = ''victim@x''" by code_simp+
  have "lower ''A@B.c'' = ''a@b.c''" "lower ''a@b.C'' = ''a@b.c''" "lower ''a@b.c'' = ''a@b.c''" "lower ''a@b.d'' = ''a@b.d''"
    "lower ''victim@x'' = ''victim@x''" using small by (simp_all add: assms(1) byte_def)
  with trimmed assms(2,3) show "spelling_variants_are_one_identifier (key_of L lower)"
    "lowercasing_is_one_to_one_like_gos (key_of L lower)"
    by (simp_all add: spelling_variants_are_one_identifier_def lowercasing_is_one_to_one_like_gos_def key_of_def)
qed

lemmas attempt_numbers = FREE_ATTEMPTS_def SHORT_DELAY_ATTEMPTS_def SHORT_DELAY_def LONG_DELAY_def FORGET_AFTER_def
  MAX_TRACKED_def seconds_def

lemma five: "unat FREE_ATTEMPTS = Suc (Suc (Suc (Suc (Suc 0))))" "unat SHORT_DELAY_ATTEMPTS = Suc (Suc (Suc (Suc (Suc 0))))"
  by (simp_all add: FREE_ATTEMPTS_def SHORT_DELAY_ATTEMPTS_def)

lemma first_attempt:
  "map_of t k = None \<Longrightarrow> admit tie t k now = (Admitted, AList.update k \<lparr>attempts = 1, last_attempt = now\<rparr>
     (if MAX_TRACKED \<le> length t then evict tie t else t))"
  by (simp add: admit_def)

lemma next_attempt:
  assumes "map_of t k = Some \<lparr>attempts = n, last_attempt = now\<rparr>" "n < FREE_ATTEMPTS"
  shows "admit tie t k now = (Admitted, AList.update k \<lparr>attempts = n + 1, last_attempt = now\<rparr> t)"
  using assms by (simp add: admit_def wait_until_def delay_after_def attempt_numbers)

lemma too_many:
  assumes "map_of t k = Some \<lparr>attempts = FREE_ATTEMPTS, last_attempt = now\<rparr>"
  shows "admit tie t k now = (Wait SHORT_DELAY, t)"
  using assms by (simp add: admit_def wait_until_def delay_after_def attempt_numbers)

lemma update_again: "map_of (AList.update k v t) = (map_of t)(k \<mapsto> v)"
  "AList.update k v (AList.update k w t) = AList.update k v t"
  by (rule update_conv') (induction t; auto)

lemma update_same_length: "length (AList.update k v t) = length (AList.update k w t)"
  by (induction t) auto

text \<open>Five attempts of a name that is not in the table: room is made once, and all are admitted.\<close>

lemma free_attempts:
  assumes "map_of t k = None"
  obtains t' where "admits tie k now (unat FREE_ATTEMPTS) t = ([Admitted, Admitted, Admitted, Admitted, Admitted], t')"
    "map_of t' = (map_of (if MAX_TRACKED \<le> length t then evict tie t else t))(k \<mapsto> \<lparr>attempts = FREE_ATTEMPTS, last_attempt = now\<rparr>)"
    "length t' \<le> Suc (length (if MAX_TRACKED \<le> length t then evict tie t else t))"
proof -
  let ?u = "if MAX_TRACKED \<le> length t then evict tie t else t"
  let ?e = "\<lambda>n. \<lparr>attempts = n, last_attempt = now\<rparr> :: throttle_entry"
  define t1 where "t1 = AList.update k (?e 1) ?u"
  define t2 where "t2 = AList.update k (?e 2) t1"
  define t3 where "t3 = AList.update k (?e 3) t2"
  define t4 where "t4 = AList.update k (?e 4) t3"
  define t5 where "t5 = AList.update k (?e FREE_ATTEMPTS) t4"
  have m: "map_of t1 k = Some (?e 1)" "map_of t2 k = Some (?e 2)" "map_of t3 k = Some (?e 3)" "map_of t4 k = Some (?e 4)"
    by (simp_all add: t1_def t2_def t3_def t4_def update_again)
  have "admit tie t k now = (Admitted, t1)" using first_attempt [OF assms] by (simp add: t1_def)
  moreover have "admit tie t1 k now = (Admitted, t2)" "admit tie t2 k now = (Admitted, t3)" "admit tie t3 k now = (Admitted, t4)"
    "admit tie t4 k now = (Admitted, t5)"
    using m [THEN next_attempt, of tie] by (simp_all add: t2_def t3_def t4_def t5_def FREE_ATTEMPTS_def)
  ultimately have "admits tie k now (unat FREE_ATTEMPTS) t = ([Admitted, Admitted, Admitted, Admitted, Admitted], t5)"
    by (simp add: five)
  moreover have "map_of t5 = (map_of ?u)(k \<mapsto> ?e FREE_ATTEMPTS)"
    by (simp add: t1_def t2_def t3_def t4_def t5_def update_again(1))
  moreover have last: "t5 = AList.update k (?e FREE_ATTEMPTS) ?u"
    unfolding t5_def t4_def t3_def t2_def t1_def update_again(2) by (rule refl)
  have "length t5 = length t1" unfolding last t1_def by (rule update_same_length)
  then have "length t5 \<le> Suc (length ?u)" using update_length_le [of k "?e 1" ?u] by (simp add: t1_def)
  ultimately show thesis by (rule that)
qed

lemma counting_tests_pass:
  assumes "key ''a'' \<noteq> key ''b''" "key ''old'' \<noteq> key ''new''"
  shows "the_free_attempts_wait_for_nothing tie key now"
    "the_delay_counts_down_and_then_lets_one_attempt_through tie key now"
    "the_delay_grows_with_failures tie key now"
    "identifiers_are_independent tie key now"
    "success_starts_over tie key now"
    "an_attempt_that_says_nothing_about_the_password_is_given_back tie key now"
    "a_failed_attempt_stays_counted tie key now"
    "an_identifier_nobody_tried_for_an_hour_is_forgotten tie key now"
    "the_sweep_drops_expired_identifiers_only tie key now"
  using assms
  unfolding the_free_attempts_wait_for_nothing_def the_delay_counts_down_and_then_lets_one_attempt_through_def
      the_delay_grows_with_failures_def identifiers_are_independent_def success_starts_over_def
      an_attempt_that_says_nothing_about_the_password_is_given_back_def a_failed_attempt_stays_counted_def
      an_identifier_nobody_tried_for_an_hour_is_forgotten_def the_sweep_drops_expired_identifiers_only_def five
  by (simp_all add: all_admitted_def is_wait_def admit_def settle_def throttle_sweep_def wait_until_def delay_after_def
      saturating_sub1_def attempt_numbers Let_def)

text \<open>The table of made-up names.\<close>

lemma filled_fold:
  assumes "distinct (map g ns)" "\<And>n. n \<in> set ns \<Longrightarrow> map_of t (g n) = None"
  shows "map_of (foldl (\<lambda>t n. AList.update (g n) e t) t ns) k = (if k \<in> g ` set ns then Some e else map_of t k) \<and>
    length (foldl (\<lambda>t n. AList.update (g n) e t) t ns) = length t + length ns \<and>
    (distinct (map fst t) \<longrightarrow> distinct (map fst (foldl (\<lambda>t n. AList.update (g n) e t) t ns)))"
  using assms
proof (induction ns arbitrary: t)
  case (Cons n ns)
  have "g n \<notin> fst ` set t" using Cons.prems(2) [of n] by (simp add: map_of_eq_None_iff)
  then have len: "length (AList.update (g n) e t) = Suc (length t)" by (simp add: length_update)
  have "map_of (AList.update (g n) e t) (g m) = None" if "m \<in> set ns" for m
    using that Cons.prems by (auto simp: update_conv) (metis imageI)
  from Cons.IH [OF _ this] Cons.prems(1) len show ?case by (auto simp: update_conv distinct_update)
qed simp

lemma nat_str_value: "foldl (\<lambda>a c. a * 10 + (of_char c - 48)) 0 (nat_str n) = n"
proof (induction n rule: nat_str.induct)
  case (1 n)
  have d: "of_char (digit n) - 48 = n mod 10" by (simp add: digit_def of_char_of take_bit_eq_mod)
  show ?case
  proof (cases "n < 10")
    case True
    with d show ?thesis by (simp add: nat_str.simps [of n])
  next
    case False
    with d 1 show ?thesis by (simp add: nat_str.simps [of n])
  qed
qed

lemma filler_inj: "inj filler"
proof (rule injI)
  fix m n assume "filler m = filler n"
  then have "nat_str m = nat_str n" by (simp add: filler_def)
  then show "m = n" by (metis nat_str_value)
qed

lemma filled_props:
  assumes "inj_on key (range filler \<union> names)" "\<And>n. map_of t (key (filler n)) = None" "distinct (map fst t)"
  shows "length (filled key e t) = length t + MAX_TRACKED" "distinct (map fst (filled key e t))"
    "x \<in> names \<Longrightarrow> x \<notin> range filler \<Longrightarrow> map_of (filled key e t) (key x) = map_of t (key x)"
    "n < MAX_TRACKED \<Longrightarrow> map_of (filled key e t) (key (filler n)) = Some e"
proof -
  have "inj_on key (range filler)" by (rule inj_on_subset [OF assms(1)]) simp
  from comp_inj_on [OF filler_inj this] have "inj (\<lambda>n. key (filler n))" by (simp add: comp_def)
  then have d: "distinct (map (\<lambda>n. key (filler n)) [0..<MAX_TRACKED])"
    by (simp add: distinct_map inj_on_subset [OF _ subset_UNIV])
  note f = filled_fold [OF d assms(2), of e, folded filled_def]
  have "length [0..<MAX_TRACKED] = MAX_TRACKED" by simp
  with f [of "[]"] assms(3) show "length (filled key e t) = length t + MAX_TRACKED" "distinct (map fst (filled key e t))"
    by argo+
  show "n < MAX_TRACKED \<Longrightarrow> map_of (filled key e t) (key (filler n)) = Some e"
    using f [of "key (filler n)"] by simp
  assume x: "x \<in> names" "x \<notin> range filler"
  have "key x \<notin> (\<lambda>n. key (filler n)) ` set [0..<MAX_TRACKED]"
    using inj_onD [OF assms(1), of x] x by blast
  then show "map_of (filled key e t) (key x) = map_of t (key x)" using f [of "key x"] by simp
qed

lemma not_filler: "filler n \<noteq> ''victim''" "filler n \<noteq> ''fresh''" "''victim'' \<notin> range filler" "''fresh'' \<notin> range filler"
  by (auto simp: filler_def)

lemma evict_exact:
  assumes "distinct (map fst t)" "MAX_TRACKED \<le> length t"
  shows "length (evict tie t) + MAX_TRACKED div 10 = length t"
proof -
  let ?gone = "take (MAX_TRACKED div 10) (ranked tie t)"
  have e: "evict tie t = foldl (\<lambda>t (k, e). AList.delete k t) t ?gone"
    using assms(2) by (simp add: evict_def Let_def MAX_TRACKED_def)
  have size: "length u = card (dom (map_of u))" if "distinct (map fst u)" for u :: throttle
    using that by (metis dom_map_of_conv_image_fst distinct_card length_map set_map)
  have same: "mset (map fst (ranked tie t)) = mset (map fst t)" by (metis mset_map ranked_set(2))
  then have "distinct (map fst (ranked tie t))" using assms(1) by (metis mset_eq_imp_distinct_iff)
  then have "distinct (map fst ?gone)" by (metis distinct_take take_map)
  moreover have "length (ranked tie t) = length t" using same by (metis length_map size_mset)
  moreover have "MAX_TRACKED div 10 \<le> length t" using assms(2) by (simp add: MAX_TRACKED_def)
  ultimately have "card (fst ` set ?gone) = MAX_TRACKED div 10"
    using distinct_card [of "map fst ?gone"] by simp
  moreover have "fst ` set ?gone \<subseteq> dom (map_of t)"
    by (auto simp: dom_map_of_conv_image_fst dest!: in_set_takeD intro: rev_image_eqI)
  moreover have "dom (map_of (evict tie t)) = dom (map_of t) - fst ` set ?gone"
    by (rule set_eqI) (simp add: e delete_all_lookup dom_def)
  ultimately have "card (dom (map_of (evict tie t))) + MAX_TRACKED div 10 = card (dom (map_of t))"
    using card_mono [of "dom (map_of t)" "fst ` set ?gone"] by (simp add: card_Diff_subset finite_dom_map_of)
  then show ?thesis using size [OF assms(1)] size [OF evict_distinct [OF assms(1)]] by simp
qed

lemma evict_keeps_delaying:
  assumes "distinct (map fst t)" "map_of t k = Some e" "delaying e"
    and "MAX_TRACKED div 10 \<le> length (filter (\<lambda>(k, e). \<not> delaying e) t)"
  shows "map_of (evict tie t) k = Some e"
proof (rule ccontr)
  assume "map_of (evict tie t) k \<noteq> Some e"
  with assms(2) obtain e' where e': "(k, e') \<in> set (take (min (max (MAX_TRACKED div 10) 1) (length t)) (ranked tie t))"
    by (auto simp: evict_def Let_def delete_all_lookup split: if_splits)
  then have "(k, e') \<in> set t" by (auto dest: in_set_takeD)
  with assms(1,2) have "e' = e" by simp
  with evicted_delaying [OF e'] assms(3,4) show False by simp
qed

lemma full_map_tests_pass:
  assumes "inj_on key (range filler \<union> {''victim'', ''fresh''})"
  shows "a_full_map_evicts_the_undelayed_before_the_delayed tie key now"
    "a_new_identifier_is_still_throttled_when_the_map_is_full_of_delayed_ones tie key now"
proof -
  let ?v = "key ''victim''" and ?one = "\<lparr>attempts = 1, last_attempt = now\<rparr> :: throttle_entry"
  have apart: "key (filler n) \<noteq> ?v" "key (filler n) \<noteq> key ''fresh''" "?v \<noteq> key ''fresh''" for n
    using inj_on_eq_iff [OF assms, of "filler n" "''victim''"] inj_on_eq_iff [OF assms, of "filler n" "''fresh''"]
      inj_on_eq_iff [OF assms, of "''victim''" "''fresh''"] not_filler by auto
  have empty: "\<not> MAX_TRACKED \<le> length ([] :: throttle)" by (simp add: MAX_TRACKED_def)
  obtain t where t: "admits tie ?v now (unat FREE_ATTEMPTS) [] = ([Admitted, Admitted, Admitted, Admitted, Admitted], t)"
    "map_of t = [?v \<mapsto> delayed now]" "length t \<le> 1"
    by (rule free_attempts [of "[]" ?v tie now]) (use empty in \<open>simp_all add: delayed_def\<close>)
  then have d: "distinct (map fst t)" by (cases t) auto
  let ?f = "filled key ?one t"
  note f = filled_props [where t = t and e = ?one, OF assms _ d]
  have f': "length ?f = length t + MAX_TRACKED" "distinct (map fst ?f)" "map_of ?f ?v = Some (delayed now)"
    "map_of ?f (key ''fresh'') = None" "n < MAX_TRACKED \<Longrightarrow> map_of ?f (key (filler n)) = Some ?one" for n
    using f(1,2) f(3) [where x = "''victim''"] f(3) [where x = "''fresh''"] f(4) [of n] apart not_filler by (simp_all add: t(2))
  have slow: "\<not> delaying ?one" "delaying (delayed now)" by (simp_all add: delaying_def delayed_def FREE_ATTEMPTS_def word_le_nat_alt)
  have "(\<lambda>n. (key (filler n), ?one)) ` {..<MAX_TRACKED} \<subseteq> set (filter (\<lambda>(k, e). \<not> delaying e) ?f)"
    using f'(5) slow(1) by (auto dest: map_of_SomeD)
  moreover have "inj_on (\<lambda>n. (key (filler n), ?one)) {..<MAX_TRACKED}"
    using inj_on_eq_iff [OF assms] inj_eq [OF filler_inj] by (simp add: inj_on_def)
  ultimately have "MAX_TRACKED \<le> card (set (filter (\<lambda>(k, e). \<not> delaying e) ?f))"
    by (metis card_image card_lessThan card_mono finite_set)
  also have "\<dots> \<le> length (filter (\<lambda>(k, e). \<not> delaying e) ?f)" by (rule card_length)
  finally have "map_of (evict tie ?f) ?v = Some (delayed now)"
    by (intro evict_keeps_delaying [OF f'(2,3) slow(2)]) simp
  moreover have "length (AList.update (key ''fresh'') ?one (evict tie ?f)) < MAX_TRACKED"
    using evict_exact [OF f'(2), of tie] f'(1) t(3) update_length_le [of "key ''fresh''" ?one "evict tie ?f"]
    by (simp add: MAX_TRACKED_def)
  ultimately show "a_full_map_evicts_the_undelayed_before_the_delayed tie key now"
    using f'(1) t(1) apart(3) first_attempt [OF f'(4), of tie now]
    by (simp add: a_full_map_evicts_the_undelayed_before_the_delayed_def Let_def update_again(1) is_wait_def delayed_def too_many)
  let ?g = "filled key (delayed now) []"
  have g: "length ?g = MAX_TRACKED" "map_of ?g ?v = None"
    using filled_props(1,3) [where t = "[]" and e = "delayed now", OF assms] not_filler by simp_all
  obtain t' where "admits tie ?v now (unat FREE_ATTEMPTS) ?g = ([Admitted, Admitted, Admitted, Admitted, Admitted], t')"
    "map_of t' ?v = Some (delayed now)" "length t' \<le> Suc (length (evict tie ?g))"
    by (rule free_attempts [OF g(2), of tie now]) (use g(1) in \<open>simp_all add: delayed_def\<close>)
  with evict_length [of ?g tie] g(1)
  show "a_new_identifier_is_still_throttled_when_the_map_is_full_of_delayed_ones tie key now"
    by (simp add: a_new_identifier_is_still_throttled_when_the_map_is_full_of_delayed_ones_def too_many [folded delayed_def]
        all_admitted_def is_wait_def)
qed

end
