(* ===== verification/GuardTests.thy ===== *)
theory GuardTests
  imports BffApp
begin

text \<open>
  The unit tests of bff's cookies, secrets and origin check (\<open>bff/src/server/cookie.rs\<close>, \<open>login_cookie.rs\<close>,
  \<open>secrets.rs\<close>, \<open>origin_check.rs\<close>, \<open>mod tests\<close>), run on the model. Each is a definition, true when its assertions
  hold; what a test draws at random is its argument. Where a test depends on what a crate answers at its inputs,
  the lemma that it passes says so.
\<close>

section \<open>Cookies\<close>

definition headers_with_cookie :: "string \<Rightarrow> headers" where
  "headers_with_cookie v = [(''cookie'', v)]"

definition extract_cookie_returns_none_without_a_cookie_header :: "libs \<Rightarrow> bool" where
  "extract_cookie_returns_none_without_a_cookie_header L \<longleftrightarrow> extract_cookie L [] ''wa_session'' = None"

definition extract_cookie_finds_the_named_cookie_among_several :: "libs \<Rightarrow> bool" where
  "extract_cookie_finds_the_named_cookie_among_several L \<longleftrightarrow>
     extract_cookie L (headers_with_cookie ''other=1; wa_session=abc123; another=2'') ''wa_session'' = Some ''abc123''"

definition extract_cookie_refuses_a_name_sent_twice :: "libs \<Rightarrow> bool" where
  "extract_cookie_refuses_a_name_sent_twice L \<longleftrightarrow>
     list_all (\<lambda>header. extract_cookie L (headers_with_cookie header) ''wa_session'' = None)
       [''wa_session=planted; wa_session=real'', ''wa_session=a; other=1; wa_session=a'']"

definition extract_cookie_returns_none_when_name_is_absent :: "libs \<Rightarrow> bool" where
  "extract_cookie_returns_none_when_name_is_absent L \<longleftrightarrow>
     extract_cookie L (headers_with_cookie ''other=1; another=2'') ''wa_session'' = None"

definition extract_cookie_handles_a_single_cookie_with_no_semicolons :: "libs \<Rightarrow> bool" where
  "extract_cookie_handles_a_single_cookie_with_no_semicolons L \<longleftrightarrow>
     extract_cookie L (headers_with_cookie ''wa_session=only-one'') ''wa_session'' = Some ''only-one''"

definition malicious :: string where
  "malicious = ''/x;Domain=evil.com;Max-Age=999999''"

definition build_cookie_percent_encodes_special_characters :: "libs \<Rightarrow> bool" where
  "build_cookie_percent_encodes_special_characters L \<longleftrightarrow>
     build_cookie L ''next'' ''/x;Domain=evil.com;Max-Age=999999'' ''/'' 60 False =
       ''next=%2Fx%3BDomain%3Devil.com%3BMax-Age%3D999999; HttpOnly; Path=/; SameSite=Lax; Max-Age=60''"

definition build_cookie_adds_secure_flag_when_requested :: "libs \<Rightarrow> bool" where
  "build_cookie_adds_secure_flag_when_requested L \<longleftrightarrow>
     build_cookie L ''wa_session'' ''abc'' ''/'' 60 True =
       ''wa_session=abc; HttpOnly; Path=/; SameSite=Lax; Secure; Max-Age=60''"

definition build_cookie_and_extract_cookie_roundtrip_a_value_with_semicolons :: "libs \<Rightarrow> bool" where
  "build_cookie_and_extract_cookie_roundtrip_a_value_with_semicolons L \<longleftrightarrow>
     (let set_cookie = build_cookie L ''next'' malicious ''/'' 60 False
      in case split_once (CHR ''='') (hd (split_on (CHR '';'') set_cookie)) of
           None \<Rightarrow> False
         | Some (name, v) \<Rightarrow> extract_cookie L (headers_with_cookie (''next='' @ v)) ''next'' = Some malicious)"

section \<open>The login cookie and secrets\<close>

definition a_pending_login_round_trips_through_its_cookie_value :: "libs \<Rightarrow> string \<Rightarrow> string \<Rightarrow> string \<Rightarrow> bool" where
  "a_pending_login_round_trips_through_its_cookie_value L t1 t2 t3 \<longleftrightarrow>
     (let pending = new_pending_login t1 t2 t3 ''https://app.test/?a=b;c''
      in case from_cookie_value L (to_cookie_value L pending) of
           None \<Rightarrow> False
         | Some back \<Rightarrow> pl_state back = pl_state pending \<and> pl_verifier back = pl_verifier pending \<and>
             pl_nonce back = pl_nonce pending \<and> pl_redirect_uri back = ''https://app.test/?a=b;c'')"

definition the_secrets_of_one_login_differ_from_each_other_and_from_the_next ::
    "libs \<Rightarrow> string \<times> string \<times> string \<Rightarrow> string \<times> string \<times> string \<Rightarrow> bool" where
  "the_secrets_of_one_login_differ_from_each_other_and_from_the_next L first_tokens next_tokens \<longleftrightarrow>
     (case (first_tokens, next_tokens) of ((a1, a2, a3), (b1, b2, b3)) \<Rightarrow>
        let a = new_pending_login a1 a2 a3 ''x''; b = new_pending_login b1 b2 b3 ''x''
        in pl_state a \<noteq> pl_verifier a \<and> pl_verifier a \<noteq> pl_nonce a \<and> pl_state a \<noteq> pl_state b \<and>
           code_challenge L a = pkce_challenge L (pl_verifier a))"

definition a_cookie_value_that_is_not_a_pending_login_is_none :: "libs \<Rightarrow> bool" where
  "a_cookie_value_that_is_not_a_pending_login_is_none L \<longleftrightarrow>
     list_all (\<lambda>v. from_cookie_value L v = None) ['''', ''abc'', ''!!!'', b64_encode L ''{}'', b64_encode L ''[1]'']"

definition the_pkce_challenge_matches_the_rfc_7636_example :: "libs \<Rightarrow> bool" where
  "the_pkce_challenge_matches_the_rfc_7636_example L \<longleftrightarrow>
     pkce_challenge L ''dBjftJeZ4CVP-mB92K27uhbUJU1p1r_wW1gFWFOEjXk'' = ''E9Melhoa2OwvFrEMTJguCHaoeK1t8URWbuGJSstw-cM''"

definition constant_time_eq_compares_whole_values :: "libs \<Rightarrow> bool" where
  "constant_time_eq_compares_whole_values L \<longleftrightarrow>
     constant_time_eq L ''secret'' ''secret'' \<and> constant_time_eq L '''' '''' \<and>
     list_all (\<lambda>other. \<not> constant_time_eq L ''secret'' other) [''secreT'', ''secre'', ''secrets'', '''', [CHR 0x00]]"

section \<open>Origins\<close>

definition trusted :: "string list" where
  "trusted = [''http://login.test'']"

definition accepts_a_trusted_origin_header :: "libs \<Rightarrow> bool" where
  "accepts_a_trusted_origin_header L \<longleftrightarrow>
     require_trusted_origin L [(''origin'', ''http://login.test'')] trusted = Ok ()"

definition rejects_an_untrusted_origin_header :: "libs \<Rightarrow> bool" where
  "rejects_an_untrusted_origin_header L \<longleftrightarrow>
     require_trusted_origin L [(''origin'', ''http://evil.test'')] trusted = Err (OriginUntrusted ''http://evil.test'')"

definition falls_back_to_referer_when_origin_is_absent :: "libs \<Rightarrow> bool" where
  "falls_back_to_referer_when_origin_is_absent L \<longleftrightarrow>
     require_trusted_origin L [(''referer'', ''http://login.test/index.html?redirect_uri=x'')] trusted = Ok ()"

definition rejects_an_untrusted_referer :: "libs \<Rightarrow> bool" where
  "rejects_an_untrusted_referer L \<longleftrightarrow>
     require_trusted_origin L [(''referer'', ''http://evil.test/'')] trusted = Err (OriginUntrusted ''http://evil.test'')"

definition rejects_when_neither_header_is_present :: "libs \<Rightarrow> bool" where
  "rejects_when_neither_header_is_present L \<longleftrightarrow> require_trusted_origin L [] trusted = Err OriginMissing"

definition origin_takes_precedence_over_referer :: "libs \<Rightarrow> bool" where
  "origin_takes_precedence_over_referer L \<longleftrightarrow>
     require_trusted_origin L [(''origin'', ''http://login.test''), (''referer'', ''http://evil.test/'')] trusted = Ok ()"

definition an_origin_that_is_not_text_is_refused_even_with_a_trusted_referer :: "libs \<Rightarrow> bool" where
  "an_origin_that_is_not_text_is_refused_even_with_a_trusted_referer L \<longleftrightarrow>
     require_trusted_origin L
       [(''origin'', ''http://login.test'' @ [CHR 0xFF]), (''referer'', ''http://login.test/'')] trusted = Err OriginUnreadable"

definition trusted_origins_gain_bffs_own :: "libs \<Rightarrow> bool" where
  "trusted_origins_gain_bffs_own L \<longleftrightarrow>
     (let config = default_config\<lparr>bff_url := ''https://bff.test'',
            trusted_origins := [''https://app.test'', ''http://localhost:3000'']\<rparr>
      in trusted_origins_of L config = Some [''https://app.test'', ''http://localhost:3000'', ''https://bff.test''])"

section \<open>They pass\<close>

text \<open>Visible text is what \<open>HeaderValue::to_str\<close> reads, and text without special characters percent-decodes to itself.\<close>

lemma test_headers:
  "split_on (CHR '';'') ''other=1; wa_session=abc123; another=2'' = [''other=1'', '' wa_session=abc123'', '' another=2'']"
  "split_on (CHR '';'') ''wa_session=planted; wa_session=real'' = [''wa_session=planted'', '' wa_session=real'']"
  "split_on (CHR '';'') ''wa_session=a; other=1; wa_session=a'' = [''wa_session=a'', '' other=1'', '' wa_session=a'']"
  "split_on (CHR '';'') ''other=1; another=2'' = [''other=1'', '' another=2'']"
  "split_on (CHR '';'') ''wa_session=only-one'' = [''wa_session=only-one'']"
  by code_simp+

lemma test_trims:
  "trim ''other=1'' = ''other=1''" "trim '' wa_session=abc123'' = ''wa_session=abc123''" "trim '' another=2'' = ''another=2''"
  "trim ''wa_session=planted'' = ''wa_session=planted''" "trim '' wa_session=real'' = ''wa_session=real''"
  "trim ''wa_session=a'' = ''wa_session=a''" "trim '' other=1'' = ''other=1''" "trim '' wa_session=a'' = ''wa_session=a''"
  "trim ''wa_session=only-one'' = ''wa_session=only-one''"
  by code_simp+

lemma cookie_tests_pass:
  assumes "header_str L = ascii_str" "\<And>s. CHR ''%'' \<notin> set s \<Longrightarrow> pct_decode L s = s"
  shows "extract_cookie_returns_none_without_a_cookie_header L"
    "extract_cookie_finds_the_named_cookie_among_several L"
    "extract_cookie_refuses_a_name_sent_twice L"
    "extract_cookie_returns_none_when_name_is_absent L"
    "extract_cookie_handles_a_single_cookie_with_no_semicolons L"
  by (simp_all add: extract_cookie_returns_none_without_a_cookie_header_def
      extract_cookie_finds_the_named_cookie_among_several_def extract_cookie_refuses_a_name_sent_twice_def
      extract_cookie_returns_none_when_name_is_absent_def extract_cookie_handles_a_single_cookie_with_no_semicolons_def
      extract_cookie_def headers_with_cookie_def header_get_def assms ascii_str_def byte_def test_headers test_trims
      cookie_pair_def List.map_filter_def)

lemma set_cookie_tests_pass:
  assumes "pct_encode L ''/x;Domain=evil.com;Max-Age=999999'' = ''%2Fx%3BDomain%3Devil.com%3BMax-Age%3D999999''"
    and "pct_encode L ''abc'' = ''abc''" "header_str L = ascii_str" "pct_decode L (pct_encode L malicious) = malicious"
  shows "build_cookie_percent_encodes_special_characters L"
    "build_cookie_adds_secure_flag_when_requested L"
    "build_cookie_and_extract_cookie_roundtrip_a_value_with_semicolons L"
proof -
  have sixty: "int_str 60 = ''60''" by code_simp
  show "build_cookie_percent_encodes_special_characters L" "build_cookie_adds_secure_flag_when_requested L"
    by (simp_all add: build_cookie_percent_encodes_special_characters_def build_cookie_adds_secure_flag_when_requested_def
        build_cookie_def assms(1,2) cookie_attributes_def sixty)
  have cut: "hd (split_on (CHR '';'') ''next=%2Fx%3BDomain%3Devil.com%3BMax-Age%3D999999; HttpOnly; Path=/; SameSite=Lax; Max-Age=60'') =
      ''next=%2Fx%3BDomain%3Devil.com%3BMax-Age%3D999999''"
    "split_on (CHR '';'') ''next=%2Fx%3BDomain%3Devil.com%3BMax-Age%3D999999'' = [''next=%2Fx%3BDomain%3Devil.com%3BMax-Age%3D999999'']"
    "trim ''next=%2Fx%3BDomain%3Devil.com%3BMax-Age%3D999999'' = ''next=%2Fx%3BDomain%3Devil.com%3BMax-Age%3D999999''"
    by code_simp+
  have cookie: "build_cookie L ''next'' malicious ''/'' 60 False =
      ''next=%2Fx%3BDomain%3Devil.com%3BMax-Age%3D999999; HttpOnly; Path=/; SameSite=Lax; Max-Age=60''"
    by (simp add: malicious_def build_cookie_def assms(1) cookie_attributes_def sixty)
  have decoded: "pct_decode L ''%2Fx%3BDomain%3Devil.com%3BMax-Age%3D999999'' = malicious"
    using assms(4) unfolding malicious_def assms(1) .
  show "build_cookie_and_extract_cookie_roundtrip_a_value_with_semicolons L"
    unfolding build_cookie_and_extract_cookie_roundtrip_a_value_with_semicolons_def cookie Let_def cut(1)
    by (simp add: extract_cookie_def headers_with_cookie_def header_get_def assms(3) ascii_str_def byte_def
        cut(2,3) cookie_pair_def List.map_filter_def decoded)
qed

lemma pending_login_tests_pass:
  assumes "\<And>b. b64_decode L (b64_encode L b) = Some b"
    and "\<And>p. json_read L (json_write L (pending_json p)) = Some (pending_json p)"
    and "json_read L ''{}'' = Some (JObj [])" "json_read L ''[1]'' = Some (JArr [JInt 1])"
    and "\<forall>v \<in> {'''', ''abc'', ''!!!''}. Option.bind (b64_decode L v) (json_read L) = None"
  shows "a_pending_login_round_trips_through_its_cookie_value L t1 t2 t3"
    "a_cookie_value_that_is_not_a_pending_login_is_none L"
proof -
  show "a_pending_login_round_trips_through_its_cookie_value L t1 t2 t3"
    by (simp add: a_pending_login_round_trips_through_its_cookie_value_def from_cookie_value_def to_cookie_value_def assms(1,2) Let_def)
      (simp add: new_pending_login_def)
  have "Option.bind (b64_decode L v) (\<lambda>bytes. Option.bind (json_read L bytes) de_pending_login) = None"
    if "v \<in> {'''', ''abc'', ''!!!''}" for v
    using that assms(5) by (auto simp: bind_eq_None_conv)
  then show "a_cookie_value_that_is_not_a_pending_login_is_none L"
    by (simp add: a_cookie_value_that_is_not_a_pending_login_is_none_def from_cookie_value_def assms(1,3,4) de_pending_login_def
        de_string_def)
qed

text \<open>Tokens drawn at random differ.\<close>

lemma secrets_tests_pass:
  assumes "\<And>s. length (sha256 L s) = 32"
    and "\<forall>other \<in> {''secreT'', ''secre'', ''secrets'', '''', [CHR 0x00]}. sha256 L other \<noteq> sha256 L ''secret''"
    and "distinct [a1, a2, a3]" "a1 \<noteq> b1"
    and "b64_encode L (map (\<lambda>b. char_of (unat b)) (sha256 L ''dBjftJeZ4CVP-mB92K27uhbUJU1p1r_wW1gFWFOEjXk'')) =
      ''E9Melhoa2OwvFrEMTJguCHaoeK1t8URWbuGJSstw-cM''"
  shows "constant_time_eq_compares_whole_values L"
    "the_secrets_of_one_login_differ_from_each_other_and_from_the_next L (a1, a2, a3) (b1, b2, b3)"
    "the_pkce_challenge_matches_the_rfc_7636_example L"
  using assms(2-5)
  by (auto simp: constant_time_eq_compares_whole_values_def constant_time_eq_digest [OF assms(1)]
      the_secrets_of_one_login_differ_from_each_other_and_from_the_next_def new_pending_login_def code_challenge_def Let_def
      the_pkce_challenge_matches_the_rfc_7636_example_def pkce_challenge_def)

lemma origin_tests_pass:
  assumes "header_str L = ascii_str"
    and "map_option url_origin (parse_url L ''http://login.test/index.html?redirect_uri=x'') = Some ''http://login.test''"
    and "map_option url_origin (parse_url L ''http://evil.test/'') = Some ''http://evil.test''"
    and "map_option url_origin (parse_url L ''https://bff.test'') = Some ''https://bff.test''"
  shows "accepts_a_trusted_origin_header L" "rejects_an_untrusted_origin_header L"
    "falls_back_to_referer_when_origin_is_absent L" "rejects_an_untrusted_referer L"
    "rejects_when_neither_header_is_present L" "origin_takes_precedence_over_referer L"
    "an_origin_that_is_not_text_is_refused_even_with_a_trusted_referer L" "trusted_origins_gain_bffs_own L"
  using assms
  by (auto simp: accepts_a_trusted_origin_header_def rejects_an_untrusted_origin_header_def
      falls_back_to_referer_when_origin_is_absent_def rejects_an_untrusted_referer_def
      rejects_when_neither_header_is_present_def origin_takes_precedence_over_referer_def
      an_origin_that_is_not_text_is_refused_even_with_a_trusted_referer_def trusted_origins_gain_bffs_own_def
      require_trusted_origin_def request_origin_def header_get_def ascii_str_def byte_def trusted_def trusted_origins_of_def)

end
