(* ===== verification/Settings.thy ===== *)
theory Settings
  imports LoginConfig HooksServer
begin

text \<open>
  Where the settings come from (\<open>common/src/config.rs\<close>): the \<open>.env\<close> file, the YAML file and the
  environment, laid over the defaults; how each service reads its settings out of the result; and the
  three \<open>Config::load\<close> as functions of the host they run on. What the crates do is a parameter:
  \<^item> \<open>fg_env\<close>: the value \<open>figment\<close> reads out of a variable's text (\<open>Env\<close>);
  \<^item> \<open>fg_merge\<close>: one dictionary laid over another (\<open>Figment::merge\<close>);
  \<^item> \<open>fg_cause\<close>: what \<open>figment\<close> says of a dictionary that does not fit, given the text of the
    deserializer's own error where there is one;
  \<^item> \<open>fg_net\<close>, \<open>fg_net_text\<close>: parsing and printing an \<open>IpNet\<close>; \<open>fg_debug\<close>: a text as \<open>{:?}\<close> prints it.
  A profile written as a dictionary with one empty member, which serde also takes for a unit variant, is not modelled.
\<close>

record figment =
  fg_env :: "string \<Rightarrow> json"
  fg_merge :: "json \<Rightarrow> json \<Rightarrow> json"
  fg_cause :: "string option \<Rightarrow> json \<Rightarrow> string"
  fg_net :: "string \<Rightarrow> ip_net option"
  fg_net_text :: "ip_net \<Rightarrow> string"
  fg_debug :: "string \<Rightarrow> string"

text \<open>What \<open>figment\<close> documents of \<open>merge\<close>: the result has the keys of both; where both have one, the later
  value is taken, unless both are dictionaries, which are merged in turn.\<close>

definition merges :: "figment \<Rightarrow> bool" where
  "merges F \<longleftrightarrow> (\<forall>a b. is_object a \<and> is_object b \<longrightarrow> is_object (fg_merge F a b) \<and>
     (\<forall>k. json_get (fg_merge F a b) k = (case json_get b k of
        None \<Rightarrow> json_get a k
      | Some v \<Rightarrow> (case json_get a k of
          Some w \<Rightarrow> Some (if is_object v \<and> is_object w then fg_merge F w v else v)
        | None \<Rightarrow> Some v))))"

section \<open>The host\<close>

text \<open>Opening a file, and what \<open>Yaml::file\<close> reads at a path: a dictionary, empty where it finds no file.
  \<open>dotenvy::dotenv\<close> finds no \<open>.env\<close>, fails on it, or sets those of its variables that are not set.\<close>

datatype opened = Opened | Not_found | Open_failed string

datatype dotenv = No_dotenv | Malformed_dotenv string | Dotenv "(string \<times> string) list"

record host =
  env :: "string \<Rightarrow> string option"
  open_file :: "string \<Rightarrow> opened"
  yaml_file :: "string \<Rightarrow> string + (string \<times> json) list"
  dotenv_file :: dotenv

datatype settings_error =
    Bad_dotenv string
  | Unreadable_file string string
  | Bad_profile string

definition load_dotenv :: "host \<Rightarrow> settings_error + host" where
  "load_dotenv H = (case dotenv_file H of
     No_dotenv \<Rightarrow> Ok H
   | Malformed_dotenv cause \<Rightarrow> Err (Bad_dotenv cause)
   | Dotenv vars \<Rightarrow> Ok (H\<lparr>env := (\<lambda>var. opt_or (env H var) (map_of vars var))\<rparr>))"

section \<open>What the deployer set\<close>

text \<open>A \<open>Figment\<close>: what its layers come to, or the error of one of them.\<close>

type_synonym layers = "string + json"

definition merge_layer :: "figment \<Rightarrow> layers \<Rightarrow> layers \<Rightarrow> layers" where
  "merge_layer F a b = (case a of Inl e \<Rightarrow> Err e | Inr x \<Rightarrow> (case b of Inl e \<Rightarrow> Err e | Inr y \<Rightarrow> Ok (fg_merge F x y)))"

definition contains_key :: "layers \<Rightarrow> string \<Rightarrow> bool" where
  "contains_key user key = (case user of Inl e \<Rightarrow> False | Inr d \<Rightarrow> json_get d key \<noteq> None)"

definition config_path :: "host \<Rightarrow> string" where
  "config_path H = (case env H ''WA_CONFIG_FILE'' of None \<Rightarrow> ''config.yaml'' | Some path \<Rightarrow> path)"

definition env_scalars :: "figment \<Rightarrow> host \<Rightarrow> env_table \<Rightarrow> json" where
  "env_scalars F H scalars = JObj (List.map_filter (\<lambda>(var, key). map_option (\<lambda>raw. (key, fg_env F raw)) (env H var)) scalars)"

definition list_layers :: "host \<Rightarrow> env_table \<Rightarrow> layers list" where
  "list_layers H list_vars = map (\<lambda>(key, items). Ok (JObj [(key, JArr (map JStr items))])) (env_lists (env H) list_vars)"

definition user_settings :: "figment \<Rightarrow> host \<Rightarrow> bool \<Rightarrow> env_table \<Rightarrow> env_table \<Rightarrow> settings_error + layers" where
  "user_settings F H read_file scalars list_vars =
     (let path = config_path H;
          file = (case yaml_file H path of Inl e \<Rightarrow> Err e | Inr kvs \<Rightarrow> Ok (JObj kvs));
          with_env = (\<lambda>user. foldl (merge_layer F) (merge_layer F user (Ok (env_scalars F H scalars))) (list_layers H list_vars))
      in if \<not> read_file then Ok (with_env (Ok (JObj [])))
         else (case open_file H path of
             Open_failed cause \<Rightarrow> Err (Unreadable_file path cause)
           | _ \<Rightarrow> Ok (with_env (merge_layer F (Ok (JObj [])) file))))"

fun de_profile :: "json \<Rightarrow> profile option" where
  "de_profile (JStr s) = (if s = ''dev'' then Some Dev else if s = ''prod'' then Some Prod else None)"
| "de_profile _ = None"

definition inner_profile :: "figment \<Rightarrow> layers \<Rightarrow> string + profile" where
  "inner_profile F user = (case user of
     Inl e \<Rightarrow> Err e
   | Inr d \<Rightarrow> ok_or (Option.bind (json_get d ''profile'') de_profile) (fg_cause F None d))"

definition settings_profile :: "figment \<Rightarrow> layers \<Rightarrow> string + profile" where
  "settings_profile F user = profile_of (contains_key user) (inner_profile F user)"

definition extract_settings :: "figment \<Rightarrow> (json \<Rightarrow> string option + 'a) \<Rightarrow> json \<Rightarrow> layers \<Rightarrow> string + 'a" where
  "extract_settings F de defaults user = (case merge_layer F (Ok defaults) user of
     Inl e \<Rightarrow> Err e
   | Inr d \<Rightarrow> map_err (\<lambda>custom. fg_cause F custom d) (de d))"

section \<open>The settings as documents\<close>

text \<open>What the derived \<open>Serialize\<close> writes and \<open>Deserialize\<close> reads. The secrets are never written, and read
  as empty where they are missing. \<open>Err None\<close> is serde's own error, \<open>Err (Some text)\<close> that of \<open>ip_nets\<close>.\<close>

fun as_uint :: "json \<Rightarrow> 'a :: len word option" where
  "as_uint (JInt n) = (if 0 \<le> n \<and> n < 2 ^ LENGTH('a) then Some (word_of_int n) else None)"
| "as_uint _ = None"

definition ser_opt :: "string option \<Rightarrow> json" where
  "ser_opt x = (case x of None \<Rightarrow> JNull | Some s \<Rightarrow> JStr s)"

definition ser_uint :: "'a :: len word \<Rightarrow> json" where
  "ser_uint w = JInt (uint w)"

definition de_nets :: "figment \<Rightarrow> libs \<Rightarrow> json option \<Rightarrow> string option + ip_net list" where
  "de_nets F L v = (case Option.bind v as_strings of
     None \<Rightarrow> Err None
   | Some entries \<Rightarrow> map_err (\<lambda>entry. Some (''not an IP address or CIDR: '' @ fg_debug F entry)) (ip_nets (fg_net F) L entries))"

definition ser_route :: "route_config \<Rightarrow> json" where
  "ser_route r = JObj [(''path_prefix'', JStr (path_prefix r)), (''upstream_url'', JStr (upstream_url r))]"

definition de_route :: "json \<Rightarrow> route_config option" where
  "de_route j = Option.bind (struct_fields [''path_prefix'', ''upstream_url''] j) (\<lambda>field.
     Option.bind (de_string (field ''path_prefix'')) (\<lambda>p. Option.bind (de_string (field ''upstream_url'')) (\<lambda>u.
       Some \<lparr>path_prefix = p, upstream_url = u\<rparr>)))"

definition ser_config :: "figment \<Rightarrow> config \<Rightarrow> json" where
  "ser_config F c = JObj
     [(''port'', ser_uint (port c)), (''internal_port'', ser_uint (internal_port c)), (''bff_url'', JStr (bff_url c)),
      (''hydra_public_url'', JStr (hydra_public_url c)), (''hydra_internal_url'', JStr (hydra_internal_url c)),
      (''hydra_audience'', JStr (hydra_audience c)), (''bff_client_id'', JStr (bff_client_id c)),
      (''hydra_refresh_token_ttl_secs'', JInt (hydra_refresh_token_ttl_secs c)),
      (''redirect_uri_allowlist'', JArr (map JStr (redirect_uri_allowlist c))),
      (''default_redirect_uri'', ser_opt (default_redirect_uri c)),
      (''session_cookie_name'', JStr (session_cookie_name c)), (''routes'', JArr (map ser_route (routes c))),
      (''trusted_origins'', JArr (map JStr (trusted_origins c))),
      (''rate_limit_max_attempts'', ser_uint (rate_limit_max_attempts c)),
      (''rate_limit_proxy_max_attempts'', ser_uint (rate_limit_proxy_max_attempts c)),
      (''trusted_proxies'', JArr (map (\<lambda>net. JStr (fg_net_text F net)) (trusted_proxies c)))]"

definition CONFIG_FIELDS :: "string list" where
  "CONFIG_FIELDS = [''port'', ''internal_port'', ''bff_url'', ''hydra_public_url'', ''hydra_internal_url'',
     ''hydra_audience'', ''bff_client_id'', ''bff_client_secret'', ''hydra_refresh_token_ttl_secs'',
     ''redirect_uri_allowlist'', ''default_redirect_uri'', ''internal_api_key'', ''session_cookie_name'', ''routes'',
     ''trusted_origins'', ''rate_limit_max_attempts'', ''rate_limit_proxy_max_attempts'', ''trusted_proxies'']"

definition config_of_fields :: "figment \<Rightarrow> libs \<Rightarrow> (string \<Rightarrow> json option) \<Rightarrow> string option + config" where
  "config_of_fields F L field =
     (case de_nets F L (field ''trusted_proxies'') of Inl e \<Rightarrow> Err e | Inr nets \<Rightarrow>
      ok_or (Option.bind (Option.bind (field ''port'') as_uint) (\<lambda>p.
        Option.bind (Option.bind (field ''internal_port'') as_uint) (\<lambda>ip.
        Option.bind (de_string (field ''bff_url'')) (\<lambda>bff.
        Option.bind (de_string (field ''hydra_public_url'')) (\<lambda>public.
        Option.bind (de_string (field ''hydra_internal_url'')) (\<lambda>internal.
        Option.bind (de_string (field ''hydra_audience'')) (\<lambda>audience.
        Option.bind (de_string (field ''bff_client_id'')) (\<lambda>client.
        Option.bind (de_default '''' as_str (field ''bff_client_secret'')) (\<lambda>secret.
        Option.bind (Option.bind (field ''hydra_refresh_token_ttl_secs'') as_i64) (\<lambda>ttl.
        Option.bind (Option.bind (field ''redirect_uri_allowlist'') as_strings) (\<lambda>allowlist.
        Option.bind (de_opt as_str (field ''default_redirect_uri'')) (\<lambda>dflt.
        Option.bind (de_default '''' as_str (field ''internal_api_key'')) (\<lambda>key.
        Option.bind (de_string (field ''session_cookie_name'')) (\<lambda>cookie.
        Option.bind (Option.bind (field ''routes'') (de_array de_route)) (\<lambda>rs.
        Option.bind (Option.bind (field ''trusted_origins'') as_strings) (\<lambda>origins.
        Option.bind (Option.bind (field ''rate_limit_max_attempts'') as_uint) (\<lambda>limit.
        Option.bind (Option.bind (field ''rate_limit_proxy_max_attempts'') as_uint) (\<lambda>proxy.
        Some \<lparr>port = p, internal_port = ip, bff_url = bff, hydra_public_url = public, hydra_internal_url = internal,
          hydra_audience = audience, bff_client_id = client, bff_client_secret = secret,
          hydra_refresh_token_ttl_secs = ttl, redirect_uri_allowlist = allowlist, default_redirect_uri = dflt,
          internal_api_key = key, session_cookie_name = cookie, routes = rs, trusted_origins = origins,
          rate_limit_max_attempts = limit, rate_limit_proxy_max_attempts = proxy, trusted_proxies = nets\<rparr>))))))))))))))))))
        None)"

definition de_fields :: "string list \<Rightarrow> ((string \<Rightarrow> json option) \<Rightarrow> string option + 'a) \<Rightarrow> json \<Rightarrow> string option + 'a" where
  "de_fields names f j = (case struct_fields names j of None \<Rightarrow> Err None | Some field \<Rightarrow> f field)"

definition de_config :: "figment \<Rightarrow> libs \<Rightarrow> json \<Rightarrow> string option + config" where
  "de_config F L = de_fields CONFIG_FIELDS (config_of_fields F L)"

definition ser_login_config :: "figment \<Rightarrow> login_config \<Rightarrow> json" where
  "ser_login_config F c = JObj
     [(''port'', ser_uint (lg_port c)), (''bff_url'', JStr (lg_bff_url c)), (''own_origin'', JStr (lg_own_origin c)),
      (''default_redirect_uri'', ser_opt (lg_default_redirect_uri c)), (''default_locale'', JStr (lg_default_locale c)),
      (''kratos_public_url'', JStr (lg_kratos_public_url c)), (''hydra_admin_url'', JStr (lg_hydra_admin_url c)),
      (''bff_client_id'', JStr (lg_bff_client_id c)), (''kratos_session_cookie'', JStr (lg_kratos_session_cookie c)),
      (''rate_limit_max_attempts'', ser_uint (lg_rate_limit_max_attempts c)),
      (''rate_limit_proxy_max_attempts'', ser_uint (lg_rate_limit_proxy_max_attempts c)),
      (''trusted_proxies'', JArr (map (\<lambda>net. JStr (fg_net_text F net)) (lg_trusted_proxies c)))]"

definition LOGIN_FIELDS :: "string list" where
  "LOGIN_FIELDS = [''port'', ''bff_url'', ''own_origin'', ''default_redirect_uri'', ''default_locale'',
     ''kratos_public_url'', ''hydra_admin_url'', ''bff_client_id'', ''kratos_session_cookie'',
     ''rate_limit_max_attempts'', ''rate_limit_proxy_max_attempts'', ''trusted_proxies'']"

definition login_config_of_fields :: "figment \<Rightarrow> libs \<Rightarrow> (string \<Rightarrow> json option) \<Rightarrow> string option + login_config" where
  "login_config_of_fields F L field =
     (case de_nets F L (field ''trusted_proxies'') of Inl e \<Rightarrow> Err e | Inr nets \<Rightarrow>
      ok_or (Option.bind (Option.bind (field ''port'') as_uint) (\<lambda>p.
        Option.bind (de_string (field ''bff_url'')) (\<lambda>bff.
        Option.bind (de_string (field ''own_origin'')) (\<lambda>own.
        Option.bind (de_opt as_str (field ''default_redirect_uri'')) (\<lambda>dflt.
        Option.bind (de_string (field ''default_locale'')) (\<lambda>locale.
        Option.bind (de_string (field ''kratos_public_url'')) (\<lambda>kratos.
        Option.bind (de_string (field ''hydra_admin_url'')) (\<lambda>hydra.
        Option.bind (de_string (field ''bff_client_id'')) (\<lambda>client.
        Option.bind (de_string (field ''kratos_session_cookie'')) (\<lambda>cookie.
        Option.bind (Option.bind (field ''rate_limit_max_attempts'') as_uint) (\<lambda>limit.
        Option.bind (Option.bind (field ''rate_limit_proxy_max_attempts'') as_uint) (\<lambda>proxy.
        Some \<lparr>lg_port = p, lg_bff_url = bff, lg_own_origin = own, lg_default_redirect_uri = dflt,
          lg_default_locale = locale, lg_kratos_public_url = kratos, lg_hydra_admin_url = hydra,
          lg_bff_client_id = client, lg_kratos_session_cookie = cookie, lg_rate_limit_max_attempts = limit,
          lg_rate_limit_proxy_max_attempts = proxy, lg_trusted_proxies = nets\<rparr>)))))))))))) None)"

definition de_login_config :: "figment \<Rightarrow> libs \<Rightarrow> json \<Rightarrow> string option + login_config" where
  "de_login_config F L = de_fields LOGIN_FIELDS (login_config_of_fields F L)"

text \<open>hooks' handlers and profile APIs refuse a member they do not know (\<open>deny_unknown_fields\<close>).\<close>

definition known_fields :: "string list \<Rightarrow> json \<Rightarrow> bool" where
  "known_fields names j = (case j of JObj kvs \<Rightarrow> list_all (\<lambda>(k, v). k \<in> set names) kvs | _ \<Rightarrow> True)"

definition ser_webhook :: "webhook_config \<Rightarrow> json" where
  "ser_webhook w = JObj [(''url'', JStr (wc_url w)), (''timeout_secs'', ser_uint (wc_timeout_secs w))]"

definition de_webhook :: "json \<Rightarrow> webhook_config option" where
  "de_webhook j =
     (let names = [''url'', ''timeout_secs'', ''bearer_token''] in
      if \<not> known_fields names j then None else
      Option.bind (struct_fields_default 1 names j) (\<lambda>field.
      Option.bind (de_string (field ''url'')) (\<lambda>u.
      Option.bind (de_default default_webhook_timeout_secs as_uint (field ''timeout_secs'')) (\<lambda>t.
      Option.bind (de_opt as_str (field ''bearer_token'')) (\<lambda>b.
        Some \<lparr>wc_url = u, wc_timeout_secs = t, wc_bearer_token = b\<rparr>)))))"

definition ser_profile_api :: "profile_api \<Rightarrow> json" where
  "ser_profile_api a = JObj [(''url'', JStr (pa_url a)), (''claims'', JObj (map (map_prod id JStr) (pa_claims a))),
     (''scope'', ser_opt (pa_scope a)), (''required'', JBool (pa_required a))]"

definition de_profile_api :: "json \<Rightarrow> profile_api option" where
  "de_profile_api j =
     (let names = [''url'', ''claims'', ''scope'', ''required''] in
      if \<not> known_fields names j then None else
      Option.bind (struct_fields_default 2 names j) (\<lambda>field.
      Option.bind (de_string (field ''url'')) (\<lambda>u.
      Option.bind (Option.bind (field ''claims'') (de_map as_str)) (\<lambda>claims.
      Option.bind (de_opt as_str (field ''scope'')) (\<lambda>scope.
      Option.bind (de_default False as_bool (field ''required'')) (\<lambda>req.
        Some \<lparr>pa_url = u, pa_claims = claims, pa_scope = scope, pa_required = req\<rparr>))))))"

definition ser_handler :: "webhook_config option \<Rightarrow> json" where
  "ser_handler x = (case x of None \<Rightarrow> JNull | Some w \<Rightarrow> ser_webhook w)"

definition ser_hooks_config :: "hooks_config \<Rightarrow> json" where
  "ser_hooks_config c = JObj
     [(''port'', ser_uint (hk_port c)), (''kratos_admin_url'', JStr (hk_kratos_admin_url c)),
      (''hydra_admin_url'', JStr (hk_hydra_admin_url c)), (''bff_internal_url'', JStr (hk_bff_internal_url c)),
      (''registration_handler'', ser_handler (hk_registration_handler c)),
      (''login_claims_handler'', ser_handler (hk_login_claims_handler c)),
      (''verification_handler'', ser_handler (hk_verification_handler c)),
      (''profile_apis'', JObj (map (map_prod id (\<lambda>apis. JArr (map ser_profile_api apis))) (hk_profile_apis c))),
      (''require_verified_email'', JBool (hk_require_verified_email c)),
      (''request_timeout_secs'', ser_uint (hk_request_timeout_secs c)),
      (''upstream_timeout_secs'', ser_uint (hk_upstream_timeout_secs c))]"

definition HOOKS_FIELDS :: "string list" where
  "HOOKS_FIELDS = [''port'', ''hooks_api_key'', ''kratos_admin_url'', ''hydra_admin_url'', ''bff_internal_url'',
     ''bff_internal_api_key'', ''registration_handler'', ''login_claims_handler'', ''verification_handler'',
     ''profile_apis'', ''require_verified_email'', ''request_timeout_secs'', ''upstream_timeout_secs'']"

definition hooks_config_of_fields :: "(string \<Rightarrow> json option) \<Rightarrow> string option + hooks_config" where
  "hooks_config_of_fields field =
      ok_or (Option.bind (Option.bind (field ''port'') as_uint) (\<lambda>p.
        Option.bind (de_default '''' as_str (field ''hooks_api_key'')) (\<lambda>key.
        Option.bind (de_string (field ''kratos_admin_url'')) (\<lambda>kratos.
        Option.bind (de_string (field ''hydra_admin_url'')) (\<lambda>hydra.
        Option.bind (de_string (field ''bff_internal_url'')) (\<lambda>bff.
        Option.bind (de_default '''' as_str (field ''bff_internal_api_key'')) (\<lambda>bff_key.
        Option.bind (de_opt de_webhook (field ''registration_handler'')) (\<lambda>registration.
        Option.bind (de_opt de_webhook (field ''login_claims_handler'')) (\<lambda>claims.
        Option.bind (de_opt de_webhook (field ''verification_handler'')) (\<lambda>verification.
        Option.bind (de_default [] (de_map (de_array de_profile_api)) (field ''profile_apis'')) (\<lambda>apis.
        Option.bind (Option.bind (field ''require_verified_email'') as_bool) (\<lambda>verified.
        Option.bind (Option.bind (field ''request_timeout_secs'') as_uint) (\<lambda>request.
        Option.bind (Option.bind (field ''upstream_timeout_secs'') as_uint) (\<lambda>upstream.
        Some \<lparr>hk_port = p, hk_api_key = key, hk_kratos_admin_url = kratos, hk_hydra_admin_url = hydra,
          hk_bff_internal_url = bff, hk_bff_internal_api_key = bff_key, hk_registration_handler = registration,
          hk_login_claims_handler = claims, hk_verification_handler = verification, hk_profile_apis = apis,
          hk_require_verified_email = verified, hk_request_timeout_secs = request,
          hk_upstream_timeout_secs = upstream\<rparr>)))))))))))))) None"

definition de_hooks_config :: "json \<Rightarrow> string option + hooks_config" where
  "de_hooks_config = de_fields HOOKS_FIELDS hooks_config_of_fields"

section \<open>Loading\<close>

datatype 'e load_error = Settings_error settings_error | Load_error 'e

definition ENV :: env_table where
  "ENV = [(''WA_PROFILE'', ''profile''), (''WA_BFF_PORT'', ''port''), (''WA_BFF_INTERNAL_PORT'', ''internal_port''),
     (''WA_BFF_URL'', ''bff_url''), (''WA_HYDRA_PUBLIC_URL'', ''hydra_public_url''),
     (''WA_HYDRA_INTERNAL_URL'', ''hydra_internal_url''), (''WA_BFF_CLIENT_ID'', ''bff_client_id''),
     (''WA_HYDRA_AUDIENCE'', ''hydra_audience''), (''WA_DEFAULT_REDIRECT_URI'', ''default_redirect_uri''),
     (''WA_BFF_CLIENT_SECRET'', ''bff_client_secret''),
     (''WA_HYDRA_REFRESH_TOKEN_TTL_SECS'', ''hydra_refresh_token_ttl_secs''),
     (''WA_BFF_INTERNAL_API_KEY'', ''internal_api_key''), (''WA_SESSION_COOKIE_NAME'', ''session_cookie_name''),
     (''WA_RATE_LIMIT_MAX_ATTEMPTS'', ''rate_limit_max_attempts'')]"

definition ENV_LISTS :: env_table where
  "ENV_LISTS = [(''WA_REDIRECT_URI_ALLOWLIST'', ''redirect_uri_allowlist''), (''WA_TRUSTED_ORIGINS'', ''trusted_origins''),
     (''WA_TRUSTED_PROXIES'', ''trusted_proxies'')]"

definition HOOKS_ENV :: env_table where
  "HOOKS_ENV = [(''WA_PROFILE'', ''profile''), (''WA_HOOKS_PORT'', ''port''), (''WA_HOOKS_API_KEY'', ''hooks_api_key''),
     (''WA_KRATOS_ADMIN_URL'', ''kratos_admin_url''), (''WA_HYDRA_ADMIN_URL'', ''hydra_admin_url''),
     (''WA_BFF_INTERNAL_URL'', ''bff_internal_url''), (''WA_BFF_INTERNAL_API_KEY'', ''bff_internal_api_key''),
     (''WA_REQUIRE_VERIFIED_EMAIL'', ''require_verified_email'')]"

definition user_and_profile :: "figment \<Rightarrow> host \<Rightarrow> env_table \<Rightarrow> env_table \<Rightarrow> settings_error + layers \<times> profile" where
  "user_and_profile F H scalars list_vars = (case load_dotenv H of Inl e \<Rightarrow> Err e | Inr H' \<Rightarrow>
     (case user_settings F H' True scalars list_vars of Inl e \<Rightarrow> Err e | Inr user \<Rightarrow>
      (case settings_profile F user of Inl e \<Rightarrow> Err (Bad_profile e) | Inr prof \<Rightarrow> Ok (user, prof))))"

definition bff_load :: "figment \<Rightarrow> libs \<Rightarrow> host \<Rightarrow> config_error load_error + config" where
  "bff_load F L H = (case user_and_profile F H ENV ENV_LISTS of
     Inl e \<Rightarrow> Err (Settings_error e)
   | Inr (user, prof) \<Rightarrow> map_err Load_error (load L prof (contains_key user)
       (extract_settings F (de_config F L) (ser_config F default_config) user)))"

definition hooks_load_on :: "figment \<Rightarrow> libs \<Rightarrow> host \<Rightarrow> hooks_config_error load_error + hooks_config" where
  "hooks_load_on F L H = (case user_and_profile F H HOOKS_ENV [] of
     Inl e \<Rightarrow> Err (Settings_error e)
   | Inr (user, prof) \<Rightarrow> map_err Load_error (hooks_load L prof (contains_key user)
       (extract_settings F de_hooks_config (ser_hooks_config default_hooks_config) user)))"

definition login_load_on :: "figment \<Rightarrow> libs \<Rightarrow> host \<Rightarrow> login_config_error load_error + login_config" where
  "login_load_on F L H = (case user_settings F H False LOGIN_ENV LOGIN_ENV_LISTS of
     Inl e \<Rightarrow> Err (Settings_error e)
   | Inr user \<Rightarrow> map_err Load_error (login_load L (contains_key user)
       (extract_settings F (de_login_config F L) (ser_login_config F default_login_config) user)
       (inner_profile F user) (env H ''WA_LOGIN_PORT'')))"

section \<open>Which layer wins\<close>

definition layer_get :: "layers \<Rightarrow> string \<Rightarrow> json option" where
  "layer_get user key = (case user of Inl e \<Rightarrow> None | Inr d \<Rightarrow> json_get d key)"

definition dict :: "layers \<Rightarrow> bool" where
  "dict user \<longleftrightarrow> (\<exists>kvs. user = Ok (JObj kvs))"

lemma layer_get_simps [simp]: "layer_get (Inr d) k = json_get d k" "layer_get (Inl e) k = None"
  by (simp_all add: layer_get_def)

lemma contains_layer_get: "contains_key user key \<longleftrightarrow> layer_get user key \<noteq> None"
  by (simp add: contains_key_def layer_get_def split: sum.splits)

lemma is_object_iff: "is_object j \<longleftrightarrow> (\<exists>kvs. j = JObj kvs)"
  by (cases j) simp_all

lemma merge_layer_get:
  assumes "merges F" "dict a" "dict b"
  shows "dict (merge_layer F a b)"
    and "layer_get b k = None \<Longrightarrow> layer_get (merge_layer F a b) k = layer_get a k"
    and "layer_get b k = Some v \<Longrightarrow> \<not> is_object v \<or> layer_get a k = None \<Longrightarrow> layer_get (merge_layer F a b) k = Some v"
    and "layer_get b k = Some v \<Longrightarrow> is_object v \<Longrightarrow>
      \<exists>w. layer_get (merge_layer F a b) k = Some w \<and> is_object w"
proof -
  from assms(2,3) obtain x y where ab: "a = Inr (JObj x)" "b = Inr (JObj y)" by (auto simp: dict_def)
  have m: "is_object (fg_merge F (JObj x) (JObj y))"
    "json_get (fg_merge F (JObj x) (JObj y)) k = (case json_get (JObj y) k of
       None \<Rightarrow> json_get (JObj x) k
     | Some v \<Rightarrow> (case json_get (JObj x) k of
         Some w \<Rightarrow> Some (if is_object v \<and> is_object w then fg_merge F w v else v) | None \<Rightarrow> Some v))"
    using assms(1) [unfolded merges_def, rule_format, of "JObj x" "JObj y"] by simp_all
  note merged = ab merge_layer_def m(2) layer_get_simps sum.case
  show "dict (merge_layer F a b)" using m(1) by (auto simp: ab merge_layer_def dict_def is_object_iff)
  show "layer_get (merge_layer F a b) k = layer_get a k" if "layer_get b k = None"
    using that unfolding merged by simp
  show "layer_get (merge_layer F a b) k = Some v" if "layer_get b k = Some v" "\<not> is_object v \<or> layer_get a k = None"
    using that unfolding merged by (auto split: option.splits)
  show "\<exists>w. layer_get (merge_layer F a b) k = Some w \<and> is_object w" if "layer_get b k = Some v" "is_object v"
    using that assms(1) unfolding merged merges_def by (auto split: option.splits)
qed

lemma list_layers_Cons:
  "list_layers H ((var, key) # table) =
     (case env H var of None \<Rightarrow> [] | Some raw \<Rightarrow> [Ok (JObj [(key, JArr (map JStr (list_items raw)))])]) @ list_layers H table"
  by (simp add: list_layers_def env_lists_def map_filter_simps split: option.splits)

lemma merge_lists_get:
  assumes "merges F" "dict user" "key \<notin> snd ` set table"
  shows "dict (foldl (merge_layer F) user (list_layers H table)) \<and>
    layer_get (foldl (merge_layer F) user (list_layers H table)) key = layer_get user key"
  using assms(2,3)
proof (induction table arbitrary: user)
  case Nil
  then show ?case by (simp add: list_layers_def env_lists_def map_filter_simps)
next
  case (Cons p table)
  obtain var k where p: "p = (var, k)" by (cases p)
  show ?case
  proof (cases "env H var")
    case None
    with Cons p show ?thesis by (simp add: list_layers_Cons)
  next
    case (Some raw)
    let ?l = "Inr (JObj [(k, JArr (map JStr (list_items raw)))]) :: layers"
    have "dict ?l" by (simp add: dict_def)
    note m = merge_layer_get [OF assms(1) Cons.prems(1) this]
    from Cons.prems(2) p have "layer_get ?l key = None" by simp
    from m(2) [OF this] Cons.IH [OF m(1)] Cons.prems(2) show ?thesis by (simp add: p Some list_layers_Cons)
  qed
qed

lemma env_scalars_get:
  assumes "distinct (map snd scalars)" "(var, key) \<in> set scalars"
  shows "json_get (env_scalars F H scalars) key = map_option (fg_env F) (env H var)"
proof -
  let ?f = "\<lambda>(var, key). map_option (\<lambda>raw. (key, fg_env F raw)) (env H var)"
  have other: "map_of (rev (List.map_filter ?f table)) k = None" if "k \<notin> snd ` set table" for k table
    using that by (fastforce simp: map_of_eq_None_iff List.map_filter_def image_iff)
  show ?thesis
    using assms
  proof (induction scalars)
    case (Cons p scalars)
    then show ?case
      using other [of key scalars]
      by (cases "env H var") (force simp: env_scalars_def map_filter_simps map_add_def map_of_append image_iff
        split: option.splits prod.splits)+
  qed simp
qed

text \<open>Every scalar setting: the environment's value if the variable is set, else the file's.\<close>

lemma user_settings_get:
  assumes "merges F" "user_settings F H True scalars list_vars = Inr user" "yaml_file H (config_path H) = Inr kvs"
    and keys: "distinct (map snd scalars)" "(var, key) \<in> set scalars" "key \<notin> snd ` set list_vars"
  shows "dict user \<and> (env H var = None \<longrightarrow> layer_get user key = json_get (JObj kvs) key) \<and>
    (\<forall>raw. env H var = Some raw \<longrightarrow>
       (\<not> is_object (fg_env F raw) \<longrightarrow> layer_get user key = Some (fg_env F raw)) \<and>
       (is_object (fg_env F raw) \<longrightarrow> (\<exists>w. layer_get user key = Some w \<and> is_object w)))"
proof -
  let ?file = "merge_layer F (Inr (JObj [])) (Inr (JObj kvs))"
  let ?scalars = "Inr (env_scalars F H scalars) :: layers"
  have user: "user = foldl (merge_layer F) (merge_layer F ?file ?scalars) (list_layers H list_vars)"
    using assms(2,3) by (auto simp: user_settings_def Let_def split: opened.splits)
  have d: "dict (Inr (JObj []))" "dict (Inr (JObj kvs))" "dict ?scalars" by (simp_all add: dict_def env_scalars_def)
  note from_file = merge_layer_get [OF assms(1) d(1,2)]
  have base: "layer_get ?file key = json_get (JObj kvs) key"
    using from_file(2,3) [of key] by (cases "json_get (JObj kvs) key") auto
  note m = merge_layer_get [OF assms(1) from_file(1) d(3)]
  have all: "dict user" "layer_get user key = layer_get (merge_layer F ?file ?scalars) key"
    using merge_lists_get [OF assms(1) m(1) keys(3), where H = H] by (simp_all only: user)
  show ?thesis
    using m(2-4) [of key] by (simp add: all base env_scalars_get [OF keys(1,2)])
qed

text \<open>Every setting, with the layer it comes from: a list's variable, a scalar's variable, the file.\<close>

definition setting :: "figment \<Rightarrow> host \<Rightarrow> env_table \<Rightarrow> env_table \<Rightarrow> (string \<times> json) list \<Rightarrow> string \<Rightarrow> json option" where
  "setting F H scalars list_vars kvs key =
     (case Option.bind (map_of (map prod.swap list_vars) key) (env H) of
        Some raw \<Rightarrow> Some (JArr (map JStr (list_items raw)))
      | None \<Rightarrow> (case Option.bind (map_of (map prod.swap scalars) key) (env H) of
          Some raw \<Rightarrow> Some (fg_env F raw)
        | None \<Rightarrow> json_get (JObj kvs) key))"

lemma merge_all_dict: "merges F \<Longrightarrow> dict user \<Longrightarrow> list_all dict ls \<Longrightarrow> dict (foldl (merge_layer F) user ls)"
  by (induction ls arbitrary: user) (simp_all add: merge_layer_get(1))

lemma list_layers_dict: "list_all dict (list_layers H table)"
  by (auto simp: list_layers_def list_all_iff dict_def)

lemma merge_list_layers_get:
  assumes "merges F" "dict user" "distinct (map snd table)"
  shows "layer_get (foldl (merge_layer F) user (list_layers H table)) key =
    (case Option.bind (map_of (map prod.swap table) key) (env H) of
       Some raw \<Rightarrow> Some (JArr (map JStr (list_items raw))) | None \<Rightarrow> layer_get user key)"
  using assms(2,3)
proof (induction table arbitrary: user)
  case Nil
  then show ?case by (simp add: list_layers_def env_lists_def map_filter_simps)
next
  case (Cons p table)
  obtain var k where p: "p = (var, k)" by (cases p)
  have gone: "map_of (map prod.swap table) k = None"
    using Cons.prems(2) by (force simp: p map_of_eq_None_iff)
  show ?case
  proof (cases "env H var")
    case None
    with Cons gone show ?thesis by (simp add: p list_layers_Cons)
  next
    case (Some raw)
    let ?l = "Inr (JObj [(k, JArr (map JStr (list_items raw)))]) :: layers"
    have "dict ?l" by (simp add: dict_def)
    note m = merge_layer_get [OF assms(1) Cons.prems(1) this]
    have "layer_get (merge_layer F user ?l) key = (if key = k then Some (JArr (map JStr (list_items raw))) else layer_get user key)"
      using m(2) [of key] m(3) [of k "JArr (map JStr (list_items raw))"] by (cases "key = k") simp_all
    with Cons.IH [OF m(1)] Cons.prems(2) gone show ?thesis
      by (cases "key = k") (simp_all add: p Some list_layers_Cons split: option.split)
  qed
qed

lemma env_scalars_all:
  assumes "distinct (map snd scalars)"
  shows "json_get (env_scalars F H scalars) key =
    map_option (fg_env F) (Option.bind (map_of (map prod.swap scalars) key) (env H))"
proof (cases "map_of (map prod.swap scalars) key")
  case None
  then have "key \<notin> snd ` set scalars" by (simp add: map_of_eq_None_iff image_image)
  then have "map_of (rev (List.map_filter (\<lambda>(var, key). map_option (\<lambda>raw. (key, fg_env F raw)) (env H var)) scalars)) key = None"
    by (fastforce simp: map_of_eq_None_iff List.map_filter_def image_iff)
  with None show ?thesis by (simp add: env_scalars_def)
next
  case (Some var)
  then have "(var, key) \<in> set scalars" by (auto dest!: map_of_SomeD)
  from env_scalars_get [OF assms this] Some show ?thesis by simp
qed

theorem layers_in_order:
  assumes "merges F" "user_settings F H read_file scalars list_vars = Ok user"
    and keys: "distinct (map snd scalars)" "distinct (map snd list_vars)"
    and yaml: "read_file \<Longrightarrow> yaml_file H (config_path H) = Ok kvs" "\<not> read_file \<Longrightarrow> kvs = []"
    and plain: "\<And>raw. \<not> is_object (fg_env F raw)"
  shows "dict user \<and> layer_get user = setting F H scalars list_vars kvs"
proof -
  let ?from_file = "if read_file then merge_layer F (Inr (JObj [])) (Inr (JObj kvs)) else Inr (JObj [])"
  let ?scalars = "Inr (env_scalars F H scalars) :: layers"
  have user: "user = foldl (merge_layer F) (merge_layer F ?from_file ?scalars) (list_layers H list_vars)"
    using assms(2) yaml by (cases read_file) (auto simp: user_settings_def Let_def split: opened.splits)
  have d: "dict (Inr (JObj []))" "dict (Inr (JObj kvs))" "dict ?scalars" by (simp_all add: dict_def env_scalars_def)
  note m = merge_layer_get [OF assms(1) d(1,2)]
  have base: "dict ?from_file" "layer_get ?from_file key = json_get (JObj kvs) key" for key
    using m(1) m(2,3) [of key] yaml(2) d(1) by (cases "json_get (JObj kvs) key"; cases read_file; auto)+
  note over = merge_layer_get [OF assms(1) base(1) d(3)]
  note over_key = over(2,3)
  have "layer_get (merge_layer F ?from_file ?scalars) key =
      (case Option.bind (map_of (map prod.swap scalars) key) (env H) of
         Some raw \<Rightarrow> Some (fg_env F raw) | None \<Rightarrow> json_get (JObj kvs) key)" for key
    using over(2,3) [of key] plain base(2) [of key] env_scalars_all [OF keys(1), of F H key]
    by (auto split: option.split)
  then have "layer_get user = setting F H scalars list_vars kvs"
    using merge_list_layers_get [OF assms(1) over(1) keys(2)] by (intro ext) (simp only: user setting_def)
  moreover have "dict user"
    unfolding user by (rule merge_all_dict [OF assms(1) over(1) list_layers_dict])
  ultimately show ?thesis by blast
qed

section \<open>A figment to run examples with\<close>

fun merge_json :: "json \<Rightarrow> json \<Rightarrow> json" where
  "merge_json (JObj a) (JObj b) = JObj
     (map (\<lambda>(k, v). (k, case map_of (rev b) k of
        None \<Rightarrow> v | Some w \<Rightarrow> if is_object w \<and> is_object v then merge_json v w else w)) a @
      filter (\<lambda>(k, w). \<not> list_ex (\<lambda>(k', v). k' = k) a) b)"
| "merge_json a b = b"

text \<open>A number, \<open>true\<close>, \<open>false\<close>, or the text itself.\<close>

definition read_variable :: "string \<Rightarrow> json" where
  "read_variable raw =
     (if raw = ''true'' then JBool True else if raw = ''false'' then JBool False
      else (case raw of
        [] \<Rightarrow> JStr raw
      | c # cs \<Rightarrow> if c = CHR ''-'' \<and> cs \<noteq> []
          then (case digits_value 0 cs of Some n \<Rightarrow> JInt (- int n) | None \<Rightarrow> JStr raw)
          else (case digits_value 0 raw of Some n \<Rightarrow> JInt (int n) | None \<Rightarrow> JStr raw)))"

definition demo_figment :: figment where
  "demo_figment = \<lparr>fg_env = read_variable, fg_merge = merge_json,
     fg_cause = (\<lambda>custom d. case custom of None \<Rightarrow> ''invalid type'' | Some text \<Rightarrow> text),
     fg_net = (\<lambda>s. None), fg_net_text = (\<lambda>net. ''''), fg_debug = (\<lambda>s. [CHR 0x22] @ s @ [CHR 0x22])\<rparr>"

lemma merge_json_get:
  "json_get (merge_json (JObj a) (JObj b)) k = (case json_get (JObj b) k of
     None \<Rightarrow> json_get (JObj a) k
   | Some v \<Rightarrow> (case json_get (JObj a) k of
       Some w \<Rightarrow> Some (if is_object v \<and> is_object w then merge_json w v else v)
     | None \<Rightarrow> Some v))"
proof -
  let ?f = "\<lambda>k v. case map_of (rev b) k of
      None \<Rightarrow> v | Some w \<Rightarrow> if is_object w \<and> is_object v then merge_json v w else w"
  let ?new = "filter (\<lambda>(k, w). \<not> list_ex (\<lambda>(k', v). k' = k) a) b"
  have old: "map_of (map (\<lambda>(k, v). (k, ?f k v)) xs) k = map_option (?f k) (map_of xs k)" for xs
    by (induction xs) (auto split: option.split)
  have new: "map_of (rev ?new) k = (if k \<in> fst ` set a then None else map_of (rev b) k)"
    by (induction b rule: rev_induct) (auto simp: list_ex_iff image_iff)
  have "k \<in> fst ` set a \<longleftrightarrow> map_of (rev a) k \<noteq> None" by (simp add: map_of_eq_None_iff)
  then show ?thesis
    by (cases "map_of (rev a) k"; cases "map_of (rev b) k") (auto simp: rev_map old new map_add_def map_of_append)
qed

lemma demo_merge [simp]: "fg_merge demo_figment = merge_json"
  by (simp add: demo_figment_def)

lemma demo_merges: "merges demo_figment"
proof -
  have "is_object (merge_json (JObj a) (JObj b))" for a b by simp
  then show ?thesis unfolding merges_def demo_merge by (auto simp: is_object_iff merge_json_get simp del: json_get.simps merge_json.simps)
qed

definition demo_host :: host where
  "demo_host = \<lparr>env = map_of [(''WA_HYDRA_PUBLIC_URL'', ''https://login.test''), (''WA_HYDRA_INTERNAL_URL'', ''http://hydra:4444''),
       (''WA_BFF_CLIENT_SECRET'', ''client-secret''), (''WA_BFF_INTERNAL_API_KEY'', ''an-internal-api-key''),
       (''WA_REDIRECT_URI_ALLOWLIST'', ''https://app.test/'')],
     open_file = (\<lambda>path. Not_found), yaml_file = (\<lambda>path. Ok []), dotenv_file = No_dotenv\<rparr>"

lemma demo_bff_loads: "is_ok (bff_load demo_figment demo_libs demo_host)"
  by code_simp

section \<open>What a bff that starts promises\<close>

text \<open>What the deployer gave as the profile: the variable's value, else the file's.\<close>

definition asked_profile :: "figment \<Rightarrow> host \<Rightarrow> json option" where
  "asked_profile F H = (case env H ''WA_PROFILE'' of
     Some raw \<Rightarrow> Some (fg_env F raw)
   | None \<Rightarrow> (case yaml_file H (config_path H) of Inl e \<Rightarrow> None | Inr kvs \<Rightarrow> json_get (JObj kvs) ''profile''))"

definition chosen_profile :: "figment \<Rightarrow> host \<Rightarrow> profile" where
  "chosen_profile F H = (if asked_profile F H = Some (JStr ''dev'') then Dev else Prod)"

definition given :: "host \<Rightarrow> string \<Rightarrow> string \<Rightarrow> bool" where
  "given H var key \<longleftrightarrow> env H var \<noteq> None \<or>
     (\<exists>kvs. yaml_file H (config_path H) = Ok kvs \<and> json_get (JObj kvs) key \<noteq> None)"

lemma user_settings_file_error:
  assumes "user_settings F H True scalars list_vars = Inr user" "yaml_file H (config_path H) = Inl e"
  shows "user = Inl e"
proof -
  have "foldl (merge_layer F) (Inl e) ls = Inl e" for ls by (induction ls) (simp_all add: merge_layer_def)
  with assms show ?thesis by (auto simp: user_settings_def Let_def merge_layer_def split: opened.splits)
qed

lemma extracted_from_a_file:
  assumes "user_settings F H True scalars list_vars = Inr user" "extract_settings F de defaults user = Inr c"
  obtains kvs where "yaml_file H (config_path H) = Inr kvs"
  using assms user_settings_file_error [OF assms(1)]
  by (cases "yaml_file H (config_path H)") (auto simp: extract_settings_def merge_layer_def)

lemma profile_is_the_chosen_one:
  assumes "merges F" "user_settings F H True scalars list_vars = Inr user" "settings_profile F user = Inr prof"
    and keys: "distinct (map snd scalars)" "(''WA_PROFILE'', ''profile'') \<in> set scalars" "''profile'' \<notin> snd ` set list_vars"
    and yaml: "yaml_file H (config_path H) = Inr kvs"
  shows "prof = chosen_profile F H"
proof -
  note get = user_settings_get [OF assms(1,2) yaml keys]
  have not_dev: "layer_get user ''profile'' = Some (JStr ''dev'') \<longleftrightarrow> asked_profile F H = Some (JStr ''dev'')"
  proof (cases "env H ''WA_PROFILE''")
    case (Some raw)
    with get show ?thesis by (cases "is_object (fg_env F raw)") (auto simp: asked_profile_def)
  qed (use get in \<open>simp add: asked_profile_def yaml\<close>)
  from get obtain d where d: "user = Inr d" by (auto simp: dict_def)
  have read: "de_profile v = Some Dev \<longleftrightarrow> v = JStr ''dev''" for v by (cases v) auto
  have at: "json_get d ''profile'' = Some (JStr ''dev'') \<longleftrightarrow> chosen_profile F H = Dev"
    using not_dev by (simp add: d chosen_profile_def)
  note p = assms(3) [unfolded d settings_profile_def profile_of_def inner_profile_def contains_key_def sum.case]
  show ?thesis
  proof (cases "json_get d ''profile''")
    case None
    with p at show ?thesis by (cases "chosen_profile F H") auto
  next
    case (Some v)
    with p have "de_profile v = Some prof" by (simp split: if_splits)
    with at read [of v] Some show ?thesis by (cases prof; cases "chosen_profile F H") auto
  qed
qed

lemma set_means_given:
  assumes "merges F" "user_settings F H True scalars list_vars = Inr user" "yaml_file H (config_path H) = Inr kvs"
    and "distinct (map snd scalars)" "(var, key) \<in> set scalars" "key \<notin> snd ` set list_vars"
    and "contains_key user key"
  shows "given H var key"
  using user_settings_get [OF assms(1-6)] assms(3,7) by (auto simp: given_def contains_layer_get)

lemma load_secrets:
  assumes "load L prof is_set extracted = Inr c"
  shows "bff_client_secret c \<noteq> [] \<and> (prof = Prod \<longrightarrow> is_set ''hydra_public_url'' \<and> is_set ''hydra_internal_url'' \<and>
    internal_api_key c \<notin> set COMMITTED_DEV_SECRETS \<and> bff_client_secret c \<notin> set COMMITTED_DEV_SECRETS)"
proof -
  from load_ok [OF assms] obtain c0 where c0: "check_settings L prof (trim_hydra_urls c0) = Inr ()"
    "c = default_limits is_set prof (trim_hydra_urls c0\<lparr>trusted_origins := map trim_slashes (trusted_origins c0)\<rparr>)" .
  have "prof = Prod \<Longrightarrow> is_set ''hydra_public_url'' \<and> is_set ''hydra_internal_url''"
    using assms by (simp add: load_def)
  with c0 show ?thesis by (simp add: check_settings_def default_limits_def Let_def)
qed



section \<open>Settings written and read back\<close>

lemma as_strings_JStr [simp]: "as_strings (JArr (map JStr xs)) = Some xs"
proof -
  have "those (map as_str (map JStr xs)) = Some xs" by (induction xs) simp_all
  then show ?thesis by (simp add: as_strings_def)
qed

lemma as_uint_ser [simp]: "as_uint (ser_uint w) = Some w"
proof -
  have "uint w < 2 ^ LENGTH('a)" by simp
  then show ?thesis by (simp add: ser_uint_def)
qed

lemma de_opt_ser [simp]: "de_opt as_str (Some (ser_opt x)) = Some x"
  by (cases x) (simp_all add: de_opt_def ser_opt_def)

lemma de_array_map: "(\<And>x. x \<in> set xs \<Longrightarrow> f (g x) = Some x) \<Longrightarrow> de_array f (JArr (map g xs)) = Some xs"
  by (induction xs) (simp_all add: de_array_def)

lemma de_route_ser [simp]: "de_route (ser_route r) = Some r"
  by (cases r) (simp add: de_route_def ser_route_def de_string_def)

lemma ip_nets_text:
  "(\<And>net. net \<in> set nets \<Longrightarrow> parse (text net) = Some net \<and> v4_mapped_as_v4 net = net) \<Longrightarrow>
     ip_nets parse L (map text nets) = Inr nets"
  by (induction nets) (simp_all add: opt_or_def)

text \<open>A configuration written out and read back is the same but for the two secrets, which are never
  written; so the defaults laid under a deployer's settings carry none.\<close>

theorem config_round_trip:
  assumes nets: "\<And>net. net \<in> set (trusted_proxies c) \<Longrightarrow> fg_net F (fg_net_text F net) = Some net \<and> v4_mapped_as_v4 net = net"
    and ttl: "i64_range (hydra_refresh_token_ttl_secs c)"
  shows "de_config F L (ser_config F c) = Ok (c\<lparr>bff_client_secret := '''', internal_api_key := ''''\<rparr>)"
proof -
  have "de_nets F L (Some (JArr (map JStr (map (fg_net_text F) (trusted_proxies c))))) = Inr (trusted_proxies c)"
    using ip_nets_text [of "trusted_proxies c" "fg_net F" "fg_net_text F" L] nets by (simp add: de_nets_def map_err_def del: map_map)
  then show ?thesis
    by (simp add: de_config_def de_fields_def config_of_fields_def ser_config_def CONFIG_FIELDS_def de_string_def ttl de_array_map comp_def)
qed

end
