(* ===== verification/Journey.thy ===== *)
theory Journey
  imports BffServer Browser
begin

text \<open>
  The browser of the system tests (\<open>Browser\<close>) against bff's public listener as a whole (\<open>BffServer\<close>): a
  sign-in, a request to an API, a logout, with the requests of any number of other people in between. The
  listener is one site of the web, found by the origin in front of a URL; every other host answers what it
  likes.
\<close>

section \<open>bff as a site of the web\<close>

text \<open>The path and the query of a URL at an origin.\<close>

definition at_site :: "string \<Rightarrow> string \<Rightarrow> (string \<times> string option) option" where
  "at_site base u = (case strip_prefix base u of
     None \<Rightarrow> None
   | Some rest \<Rightarrow> if \<not> starts_with rest ''/'' then None
       else (case split_once (CHR ''?'') rest of Some (p, q) \<Rightarrow> Some (p, Some q) | None \<Rightarrow> Some (rest, None)))"

text \<open>The state: bff's, how many requests it has had from this browser, and the rest of the web's.
  \<open>worlds n\<close> is what the outside gives the \<open>n\<close>-th of them: random tokens, Hydra's answers, the clock.\<close>

type_synonym 'v site = "app_state \<times> nat \<times> 'v"

definition public_request_of :: "browser_request \<Rightarrow> string \<Rightarrow> string option \<Rightarrow> ip_addr option \<Rightarrow> public_request" where
  "public_request_of rq path q peer =
     \<lparr>pq_method = bq_method rq, pq_path = path, pq_query = q, pq_headers = bq_headers rq, pq_peer = peer\<rparr>"

definition site_web ::
    "libs \<Rightarrow> jwt_libs \<Rightarrow> bff_layers \<Rightarrow> (bff_body \<Rightarrow> string) \<Rightarrow> string \<Rightarrow> ip_addr option \<Rightarrow> (nat \<Rightarrow> public_world) \<Rightarrow> 'v web \<Rightarrow> 'v site web" where
  "site_web L J Y body_text base peer worlds other rq s = (case s of (a, n, v) \<Rightarrow>
     (case at_site base (bq_url rq) of
        None \<Rightarrow> (case other rq v of (answer, v') \<Rightarrow> (answer, (a, n, v')))
      | Some (path, q) \<Rightarrow>
          (case serve_public L J Y (worlds n) (public_request_of rq path q peer) a of
             ((r, b), a') \<Rightarrow> (Some (rsp_status r, rsp_headers r, body_text b), (a', Suc n, v)))))"

section \<open>The others\<close>

fun serve_all :: "libs \<Rightarrow> jwt_libs \<Rightarrow> bff_layers \<Rightarrow> (public_world \<times> public_request) list \<Rightarrow> app_state \<Rightarrow> app_state" where
  "serve_all L J Y [] a = a"
| "serve_all L J Y ((w, rq) # rqs) a = serve_all L J Y rqs (snd (serve_public L J Y w rq a))"

definition whole :: "public_world \<Rightarrow> bool" where
  "whole w \<longleftrightarrow> rw_waiting (pw_resolve w) = id \<and> rw_asking (pw_resolve w) = id"

text \<open>A request of someone else: it does not carry the session's cookie, and when it finishes a login, it is
  another user's, and the new session has another id.\<close>

definition strange :: "libs \<Rightarrow> jwt_libs \<Rightarrow> config \<Rightarrow> string \<Rightarrow> uuid \<Rightarrow> public_world \<times> public_request \<Rightarrow> bool" where
  "strange L J c i u p = (case p of (w, rq) \<Rightarrow> whole w \<and>
     extract_cookie L (pq_headers rq) (session_cookie L c) \<noteq> Some i \<and> cw_session_id (pw_callback w) \<noteq> i \<and>
     (\<forall>tokens it h nonce jwks v jwks'. token_request L (cw_answer (pw_callback w)) = Ok tokens \<longrightarrow> ts_id_token tokens = Some it \<longrightarrow>
        verify_id_token L J h jwks (cw_keys_at (pw_callback w)) (cw_keys_done (pw_callback w))
          (cw_fetched (pw_callback w)) it (ts_access_token tokens) nonce = (Ok v, jwks') \<longrightarrow> vid_user_id v \<noteq> u))"

text \<open>What no request changes.\<close>

definition kept :: "app_state \<Rightarrow> app_state \<Rightarrow> bool" where
  "kept a a' \<longleftrightarrow> (app_wf a \<longrightarrow> app_wf a') \<and> app_config a' = app_config a \<and> app_hydra a' = app_hydra a \<and>
     app_origins a' = app_origins a"

lemma kept_refl [simp]: "kept a a"
  by (simp add: kept_def)

lemma kept_trans: "kept a b \<Longrightarrow> kept b c \<Longrightarrow> kept a c"
  by (auto simp: kept_def)

lemma kept_log [simp]: "kept a (log_request a r)" "kept a (a\<lparr>app_jwks := j\<rparr>)"
  by (simp_all add: kept_def app_wf_def)

lemma origins_kept [simp]:
  "app_origins (log_request a r) = app_origins a" "app_origins (revoke_refresh_tokens L a ds) = app_origins a"
  "app_origins (snd (end_session L a i)) = app_origins a"
  by (simp_all add: log_request_def revoke_refresh_tokens_eq end_session_def split: prod.split option.split)

lemma kept_end_session [simp]: "kept a (snd (end_session L a i))"
  by (auto simp: kept_def end_session_wf) (simp_all add: end_session_eq split: option.split)

lemma kept_install: "kept a (install_session L a i d p)"
  by (auto simp: kept_def install_session_wf)
    (auto simp: install_session_def Let_def case_prod_beta split: option.splits)

lemma kept_callback:
  assumes "callback L J a w h q = (r, a')"
  shows "kept a a'"
proof -
  let ?pending = "Option.bind (extract_cookie L h (login_cookie L (app_config a))) (from_cookie_value L)"
  let ?prev = "extract_cookie L h (session_cookie L (app_config a))"
  obtain res where cc: "callback_complete L J a w ?pending (returned_of q) ?prev = (res, a')"
    using assms by (auto simp: callback_def Let_def split: prod.splits sum.splits)
  show ?thesis
  proof (cases res)
    case (Inr started)
    from callback_complete_ok [OF cc [unfolded Inr]] obtain x d jwks
      where "a' = install_session L ((log_request a x)\<lparr>app_jwks := jwks\<rparr>) (cw_session_id w) d ?prev" by metis
    then show ?thesis using kept_install kept_trans kept_log by metis
  next
    case (Inl e)
    with cc show ?thesis
      by (auto simp: callback_complete_def Let_def kept_def app_wf_def split: option.splits if_splits returned.splits
          sum.splits prod.splits)
  qed
qed

lemma kept_logout: "logout L a h q = (r, a') \<Longrightarrow> kept a a'"
  using logout_effect [of L a h q r a'] by (auto split: option.split)

lemma kept_authenticate:
  assumes "authenticate L a w upstream rq = (r, a')" "rw_waiting w = id" "rw_asking w = id"
  shows "kept a a'"
proof (cases "a' = a")
  case False
  with assms(1) obtain i t where "resolve_bearer_token L a w i = (t, a')"
    by (auto simp: authenticate_def Let_def split: if_splits option.splits prod.splits sum.splits)
  with False assms(2,3) obtain d x where fin: "refresh_finish L (log_request a (refresh_request L (app_hydra a) (refresh_token d)))
      i d (rw_answer w) (rw_t4 w) (rw_t5 w) = (x, a')"
    by (auto simp: resolve_bearer_token_def resolve_locked_def refresh_session_def split: option.splits if_splits sum.splits prod.splits)
  then have "app_config a' = app_config a" "app_hydra a' = app_hydra a" "app_origins a' = app_origins a"
    by (auto simp: refresh_finish_def Let_def split: sum.splits hydra_error.splits prod.splits session_gone.splits)
  with refresh_finish_effect(3) [OF _ fin] show ?thesis by (simp add: kept_def)
qed simp

lemma kept_serve:
  assumes "serve_public L J Y w rq a = (answer, a')" "whole w"
  shows "kept a a'"
proof (cases "a' = a")
  case False
  with assms(1) consider (own) e where "run_endpoint L J Y w rq a e = (answer, a')"
    | (proxied) up rest where "serve_proxied L w rq a (ly_upstream Y up rest) = (answer, a')"
    by (auto simp: serve_public_def limited_def split: bff_routed.splits if_splits option.splits prod.splits)
  then show ?thesis
  proof cases
    case own
    with False show ?thesis
      by (auto simp: run_endpoint_def with_query_def intro: kept_callback kept_logout
          split: bff_endpoint.splits sum.splits prod.splits)
  next
    case proxied
    with assms(2) show ?thesis
      by (auto simp: serve_proxied_def whole_def intro: kept_authenticate split: prod.splits sum.splits)
  qed
qed simp

text \<open>However many strangers are served, the session stays as it is.\<close>

lemma strangers_leave_it:
  assumes "app_wf a" "get_session (app_sessions a) i = Some d" "list_all (strange L J (app_config a) i (user_id d)) rqs"
  shows "get_session (app_sessions (serve_all L J Y rqs a)) i = Some d \<and> kept a (serve_all L J Y rqs a)"
  using assms
proof (induction rqs arbitrary: a)
  case (Cons x rqs)
  obtain w rq where x: "x = (w, rq)" by fastforce
  obtain answer a' where s: "serve_public L J Y w rq a = (answer, a')" by fastforce
  from Cons.prems(3) x have st: "strange L J (app_config a) i (user_id d) (w, rq)" by simp
  have k: "kept a a'" using kept_serve [OF s] st by (simp add: strange_def)
  have "get_session (app_sessions a') i = Some d"
  proof (rule ccontr)
    assume ne: "get_session (app_sessions a') i \<noteq> Some d"
    have "rw_waiting (pw_resolve w) = id" "rw_asking (pw_resolve w) = id" using st by (simp_all add: strange_def whole_def)
    from request_touches_own_session [OF Cons.prems(1) this s Cons.prems(2) ne] st show False
      by (fastforce simp: strange_def)
  qed
  moreover have "app_wf a'" "app_config a' = app_config a" using k Cons.prems(1) by (simp_all add: kept_def)
  ultimately have "get_session (app_sessions (serve_all L J Y rqs a')) i = Some d \<and> kept a' (serve_all L J Y rqs a')"
    using Cons.IH Cons.prems(3) by simp
  then show ?case using kept_trans [OF k] by (simp add: x s)
qed simp

lemma kept_serve_all: "list_all (\<lambda>(w, rq). whole w) rqs \<Longrightarrow> kept a (serve_all L J Y rqs a)"
proof (induction rqs arbitrary: a)
  case (Cons x rqs)
  obtain w rq where x: "x = (w, rq)" by fastforce
  obtain answer a' where s: "serve_public L J Y w rq a = (answer, a')" by fastforce
  from Cons x s kept_trans [OF kept_serve [OF s]] show ?case by simp
qed simp


section \<open>One visit\<close>

text \<open>What the \<open>url\<close> crate makes of a URL that is already as it would print it.\<close>

definition plain_url :: "url_libs \<Rightarrow> string \<Rightarrow> string \<Rightarrow> bool" where
  "plain_url U host u \<longleftrightarrow> url_parse U u = Some u \<and> url_hostname U u = Some host"

lemma visit:
  assumes "plain_url U host u" "at_site base u = Some (path, q)"
    and "serve_public L J Y (worlds n) \<lparr>pq_method = m, pq_path = path, pq_query = q,
      pq_headers = h @ jar_header jar host, pq_peer = peer\<rparr> a = ((r, b), a')"
  shows "browser_send L U (site_web L J Y body_text base peer worlds other) m u bd h FollowNo (jar, a, n, v) =
    Some (\<lparr>rs_status = rsp_status r, rs_headers = rsp_headers r, rs_body = body_text b, rs_url = u\<rparr>,
      store_cookies L host (rsp_headers r) jar, a', Suc n, v)"
proof -
  let ?W = "site_web L J Y body_text base peer worlds other"
  let ?r = "\<lparr>rs_status = rsp_status r, rs_headers = rsp_headers r, rs_body = body_text b, rs_url = u\<rparr>"
  have "host_of U u = host" using assms(1) by (simp add: plain_url_def host_of_def)
  then have o: "once L U ?W m u bd h (jar, a, n, v) = Some (?r, store_cookies L host (rsp_headers r) jar, a', Suc n, v)"
    using assms(2,3) by (simp add: once_def site_web_def public_request_of_def Let_def)
  have stop: "stops_at L U FollowNo ?r = None" by (simp add: stops_at_def split: option.split)
  have "MAX_REDIRECTS = Suc 24" by (simp add: MAX_REDIRECTS_def)
  have "send_loop MAX_REDIRECTS L U ?W m u bd h FollowNo (jar, a, n, v) =
      Some (?r, store_cookies L host (rsp_headers r) jar, a', Suc n, v)"
    unfolding \<open>MAX_REDIRECTS = Suc 24\<close> send_loop.simps o option.case prod.case stop ..
  then show ?thesis using assms(1) by (simp add: browser_send_def plain_url_def)
qed

lemma strip_prefix_append: "strip_prefix p (p @ s) = Some s"
  by (simp add: strip_prefix_Some)

lemma split_once_none: "c \<notin> set s \<Longrightarrow> split_once c s = None"
  by (cases "split_once c s") (auto simp: split_once_Some)

lemma at_site_path: "CHR ''?'' \<notin> set path \<Longrightarrow> starts_with path ''/'' \<Longrightarrow> at_site base (base @ path) = Some (path, None)"
  by (simp add: at_site_def strip_prefix_append split_once_none)

lemma at_site_query:
  "CHR ''?'' \<notin> set path \<Longrightarrow> starts_with path ''/'' \<Longrightarrow> at_site base (base @ path @ CHR ''?'' # q) = Some (path, Some q)"
  by (auto simp: at_site_def strip_prefix_append split_once_append starts_with_iff)

section \<open>What the handlers do when all is well\<close>

text \<open>Hydra grants the code: tokens for it, with an id_token that bff verifies for the login's nonce.\<close>

definition granted ::
    "libs \<Rightarrow> jwt_libs \<Rightarrow> app_state \<Rightarrow> callback_world \<Rightarrow> string \<Rightarrow> token_set \<Rightarrow> verified_id_token \<Rightarrow> bool" where
  "granted L J a w nonce tokens v \<longleftrightarrow> token_request L (cw_answer w) = Ok tokens \<and>
     (\<exists>it rt jwks. ts_id_token tokens = Some it \<and> ts_refresh_token tokens = Some rt \<and>
        verify_id_token L J (app_hydra a) (app_jwks a) (cw_keys_at w) (cw_keys_done w) (cw_fetched w) it
          (ts_access_token tokens) nonce = (Ok v, jwks))"

lemma callback_succeeds:
  assumes "Option.bind (extract_cookie L h (login_cookie L (app_config a))) (from_cookie_value L) = Some p"
    and "cq_error query = None" "cq_code query = Some code" "cq_state query = Some (pl_state p)"
    and "pl_redirect_uri p \<in> set (redirect_uri_allowlist (app_config a))" "granted L J a w (pl_nonce p) tokens v" "app_wf a"
    and "extract_cookie L h (session_cookie L (app_config a)) \<noteq> Some (cw_session_id w)"
    and "\<And>j e. get_session (app_sessions a) j = Some e \<Longrightarrow> created_at e \<le> cw_now w"
  obtains r a' d where "callback L J a w h query = (Ok r, a')" "kept a a'"
    "header_get_all (rsp_headers r) ''location'' = [pl_redirect_uri p]"
    "get_session (app_sessions a') (cw_session_id w) = Some d" "access_token d = ts_access_token tokens"
    "user_id d = vid_user_id v" "expires_at d = cw_now w + ts_expires_in tokens"
    "ends_at d = cw_now w + min (refresh_ttl (app_hydra a)) MAX_SESSION_LIFETIME"
proof -
  from assms(6) obtain it rt jwks where g: "token_request L (cw_answer w) = Ok tokens" "ts_id_token tokens = Some it"
    "ts_refresh_token tokens = Some rt" "verify_id_token L J (app_hydra a) (app_jwks a) (cw_keys_at w) (cw_keys_done w)
      (cw_fetched w) it (ts_access_token tokens) (pl_nonce p) = (Ok v, jwks)" by (auto simp: granted_def)
  let ?q = "Code code (Some (pl_state p))" and ?prev = "extract_cookie L h (session_cookie L (app_config a))"
  let ?a1 = "(log_request a (exchange_code_request L (app_hydra a) code (pl_verifier p)))\<lparr>app_jwks := jwks\<rparr>"
  let ?d = "new_session a tokens rt it v (cw_now w)"
  let ?a' = "install_session L ?a1 (cw_session_id w) ?d ?prev"
  have q: "returned_of query = ?q" using assms(2-4) by (simp add: returned_of_def)
  have "state_matches L ?q p" by (simp add: state_matches_def constant_time_eq_refl)
  with assms(5) g have cc: "callback_complete L J a w (Some p) ?q ?prev = (Inr \<lparr>ss_session_id = cw_session_id w,
      ss_max_age_secs = session_max_age_secs (refresh_ttl (app_hydra a)), ss_redirect_uri = pl_redirect_uri p\<rparr>, ?a')"
    by (simp add: callback_complete_def allows_redirect_uri_iff log_request_def)
  have "\<exists>r. callback L J a w h query = (Inr r, ?a') \<and> header_get_all (rsp_headers r) ''location'' = [pl_redirect_uri p]"
    by (simp add: callback_def Let_def assms(1) q cc header_get_all_def)
  then obtain r where r: "callback L J a w h query = (Inr r, ?a')" "header_get_all (rsp_headers r) ''location'' = [pl_redirect_uri p]"
    by blast
  have "sessions_wf (app_sessions ?a1)" using assms(7) by (simp add: app_wf_def log_request_def)
  then have there: "get_session (app_sessions ?a') (cw_session_id w) = Some ?d"
    by (rule install_session_there) (use assms(8,9) in \<open>auto simp: new_session_def log_request_def\<close>)
  show thesis
    by (rule that [OF r(1) kept_callback [OF r(1)] r(2) there]) (simp_all add: new_session_def ends_at_def min_def)
qed

text \<open>A request to an API with a session whose access token is good.\<close>

lemma authenticate_succeeds:
  assumes "is_clean_path L (req_path rq)" "\<not> needs_trusted_origin (req_method rq)"
    and "extract_cookie L (req_headers rq) (session_cookie L (app_config a)) = Some i"
    and "get_session (app_sessions a) i = Some d" "rw_t1 w < ends_at d" "is_fresh (rw_t2 w) d"
    and "header_value L (''Bearer '' @ access_token d)"
  shows "authenticate L a w upstream rq = (let sent = upstream_headers (req_headers rq) (access_token d)
    in (Ok (sent, guard_response L (upstream sent)), a))"
  using assms by (simp add: authenticate_def resolve_bearer_token_def resolve_unlocked_def Let_def)


section \<open>The journey\<close>

text \<open>\<open>between\<close>: others are served. A journey logs in at bff, comes back from Hydra, asks an API, logs out
  and asks the API again; \<open>crowd k\<close> are the requests of others after its \<open>k\<close>-th step.\<close>

definition between ::
    "libs \<Rightarrow> jwt_libs \<Rightarrow> bff_layers \<Rightarrow> (public_world \<times> public_request) list \<Rightarrow> jar \<times> 'v site \<Rightarrow> jar \<times> 'v site" where
  "between L J Y rqs s = (case s of (jar, a, n, v) \<Rightarrow> (jar, serve_all L J Y rqs a, n, v))"

definition journey ::
    "libs \<Rightarrow> jwt_libs \<Rightarrow> bff_layers \<Rightarrow> url_libs \<Rightarrow> string \<Rightarrow> 'v site web \<Rightarrow> (nat \<Rightarrow> (public_world \<times> public_request) list) \<Rightarrow>
      string \<Rightarrow> string \<Rightarrow> string \<Rightarrow> string \<Rightarrow> jar \<times> 'v site \<Rightarrow> resp list option" where
  "journey L J Y U base W crowd login_at callback_at api_at origin s =
     Option.bind (browser_get L U W login_at FollowNo s) (\<lambda>(r1, s).
     Option.bind (browser_get L U W callback_at FollowNo (between L J Y (crowd 1) s)) (\<lambda>(r2, s).
     Option.bind (browser_get L U W api_at FollowNo (between L J Y (crowd 2) s)) (\<lambda>(r3, s).
     Option.bind (browser_post_form L U W (base @ ''/logout'') [] [(''origin'', origin)] FollowNo
         (between L J Y (crowd 3) s)) (\<lambda>(r4, s).
     Option.bind (browser_get L U W api_at FollowNo (between L J Y (crowd 4) s)) (\<lambda>(r5, s).
       Some [r1, r2, r3, r4, r5])))))"

lemma admitted: "(\<And>b k. ly_admit Y b k = None) \<Longrightarrow> limited L Y rq b a run = run"
  by (simp add: limited_def)

lemma own_path:
  assumes "map_of own_routes path = Some (is_get, e)" "method_ok is_get m"
  shows "public_route mounted c m path = OwnHandler (endpoint_bucket e) e"
  using assms by (simp add: public_route_def)

lemma serve_login:
  assumes "\<And>b k. ly_admit Y b k = None" "ly_pairs Y q = [(''redirect_uri'', uri)]"
    and "uri \<in> set (redirect_uri_allowlist (app_config a))" "uri \<noteq> []" "pw_tokens w = (t1, t2, t3)"
    and "rq = \<lparr>pq_method = ''GET'', pq_path = ''/login'', pq_query = Some q, pq_headers = h, pq_peer = peer\<rparr>"
  obtains r where "serve_public L J Y w rq a = ((r, Silent), a)" "start_login L a (t1, t2, t3) (Some uri) = Ok r"
    "header_get_all (rsp_headers r) ''location'' = [authorize_url L (app_hydra a) t1 t3 (pkce_challenge L t2)]"
proof -
  have "login_start L a (t1, t2, t3) (Some uri) = Inr \<lparr>sl_authorize_url = authorize_url L (app_hydra a) t1 t3 (pkce_challenge L t2),
      sl_cookie_value = to_cookie_value L (new_pending_login t1 t2 t3 uri)\<rparr>"
    using assms(3,4) by (simp add: login_start_ok)
  then obtain r where r: "start_login L a (t1, t2, t3) (Some uri) = Inr r"
    "header_get_all (rsp_headers r) ''location'' = [authorize_url L (app_hydra a) t1 t3 (pkce_challenge L t2)]"
    by (simp add: start_login_def header_get_all_def)
  have "api_query (ly_pairs Y) [''redirect_uri''] (Some q) = Inr [''redirect_uri'' \<mapsto> uri]"
    by (simp add: api_query_def pair_fields_def assms(2))
  moreover have "public_route (ly_mounted Y) (app_config a) ''GET'' ''/login'' = OwnHandler AuthBucket StartLogin"
    by (simp add: own_routes_def method_ok_def endpoint_bucket_def public_route_def)
  ultimately have "serve_public L J Y w rq a = ((r, Silent), a)"
    by (simp add: serve_public_def assms(5,6) admitted [OF assms(1)] run_endpoint_def with_query_def login_query_def r(1) answer_of_def)
  with r that show thesis by blast
qed

lemma serve_callback:
  assumes "\<And>b k. ly_admit Y b k = None" "ly_pairs Y q = [(''code'', code), (''state'', st)]"
    and "callback L J a (pw_callback w) h \<lparr>cq_code = Some code, cq_state = Some st, cq_error = None\<rparr> = (Ok r, a')"
  shows "serve_public L J Y w \<lparr>pq_method = ''GET'', pq_path = ''/callback'', pq_query = Some q, pq_headers = h, pq_peer = peer\<rparr> a =
    ((r, Silent), a')"
proof -
  have "api_query (ly_pairs Y) [''code'', ''state'', ''error''] (Some q) = Inr [''code'' \<mapsto> code, ''state'' \<mapsto> st]"
    by (auto simp: api_query_def pair_fields_def assms(2) fun_eq_iff)
  moreover have "callback_query_of [''code'' \<mapsto> code, ''state'' \<mapsto> st] = \<lparr>cq_code = Some code, cq_state = Some st, cq_error = None\<rparr>"
    by (simp add: callback_query_of_def)
  moreover have "public_route (ly_mounted Y) (app_config a) ''GET'' ''/callback'' = OwnHandler AuthBucket Callback"
    by (simp add: own_routes_def method_ok_def endpoint_bucket_def public_route_def)
  ultimately show ?thesis
    by (simp add: serve_public_def admitted [OF assms(1)] run_endpoint_def with_query_def assms(3) answer_of_def)
qed

lemma serve_logout:
  assumes "\<And>b k. ly_admit Y b k = None" "ly_pairs Y [] = []" "logout L a h None = (Ok r, a')"
  shows "serve_public L J Y w \<lparr>pq_method = ''POST'', pq_path = ''/logout'', pq_query = None, pq_headers = h, pq_peer = peer\<rparr> a =
    ((r, Silent), a')"
proof -
  have "api_query (ly_pairs Y) [''redirect_uri''] None = Inr Map.empty"
    by (simp add: api_query_def pair_fields_def assms(2))
  moreover have "public_route (ly_mounted Y) (app_config a) ''POST'' ''/logout'' = OwnHandler AuthBucket Logout"
    by (simp add: own_routes_def method_ok_def endpoint_bucket_def public_route_def)
  ultimately show ?thesis
    by (simp add: serve_public_def admitted [OF assms(1)] run_endpoint_def with_query_def logout_query_def assms(3) answer_of_def)
qed


lemma serve_api:
  assumes "\<And>b k. ly_admit Y b k = None" "public_route (ly_mounted Y) (app_config a) ''GET'' path = Proxied b up rest"
    and "authenticate L a (pw_resolve w) (ly_upstream Y up rest) \<lparr>req_method = ''GET'', req_path = path, req_headers = h\<rparr> = (res, a')"
  shows "serve_public L J Y w \<lparr>pq_method = ''GET'', pq_path = path, pq_query = q, pq_headers = h, pq_peer = peer\<rparr> a =
    ((case res of Inl e \<Rightarrow> refusal (proxy_error_response e) | Inr (sent, r) \<Rightarrow> (r, Streamed)), a')"
  using assms(2,3) by (simp add: serve_public_def admitted [OF assms(1)] serve_proxied_def split: sum.split)

text \<open>The headers of a browser's plain request that reach an upstream: none of its own.\<close>

lemma upstream_headers_jar: "upstream_headers (jar_header jar host) token = [(''authorization'', ''Bearer '' @ token)]"
proof -
  have "header_get_all (jar_header jar host) name = []" if "name \<in> set REQUEST_HEADERS" for name
    using that by (auto simp: jar_header_def REQUEST_HEADERS_def header_get_all_def Let_def)
  then have "allowed (jar_header jar host) REQUEST_HEADERS = []" by (simp add: allowed_def)
  then show ?thesis by (simp add: upstream_headers_def header_insert_def)
qed

text \<open>Where a browser is after it signed in.\<close>

definition signed_in :: "libs \<Rightarrow> config \<Rightarrow> string \<Rightarrow> jar \<Rightarrow> app_state \<Rightarrow> string \<Rightarrow> session_data \<Rightarrow> bool" where
  "signed_in L c host jar a i d \<longleftrightarrow> app_wf a \<and> app_config a = c \<and> get_session (app_sessions a) i = Some d \<and>
     jar_ok (held jar host) \<and> map_of (held jar host) (session_cookie L c) = Some (pct_encode L i)"

lemma sign_in:
  assumes codecs: "browser_codecs L" "check_settings L prof (app_config a) = Ok ()" "jar_ok (held jar host)"
    and start: "app_wf a" "app_hydra a = new_hydra (app_config a)" "base = trim_slashes (bff_url (app_config a))"
    and layers: "\<And>b k. ly_admit Y b k = None"
    and urls: "login_at = base @ ''/login?'' @ q0" "callback_at = redirect_uri (app_hydra a) @ ''?'' @ q1"
      "plain_url U host login_at" "plain_url U host callback_at"
    and asked: "ly_pairs Y q0 = [(''redirect_uri'', uri)]" "uri \<in> set (redirect_uri_allowlist (app_config a))" "uri \<noteq> []"
      "pw_tokens (worlds n) = (t1, t2, t3)"
    and grant: "ly_pairs Y q1 = [(''code'', code), (''state'', t1)]" "w = pw_callback (worlds (Suc n))"
      "granted L J (serve_all L J Y rqs a) w t3 tokens v"
    and new_id: "cw_session_id w \<noteq> []"
      "map_option (pct_decode L) (map_of (held jar host) (session_cookie L (app_config a))) \<noteq> Some (cw_session_id w)"
      "\<And>j e. get_session (app_sessions (serve_all L J Y rqs a)) j = Some e \<Longrightarrow> created_at e \<le> cw_now w"
    and others: "list_all (\<lambda>(w, rq). whole w) rqs"
  obtains r1 jar1 r2 jar2 a2 d where
    "browser_get L U (site_web L J Y body_text base peer worlds other) login_at FollowNo (jar, a, n, z) =
       Some (r1, jar1, a, Suc n, z)"
    "header_get_all (rs_headers r1) ''location'' = [authorize_url L (app_hydra a) t1 t3 (pkce_challenge L t2)]"
    "browser_get L U (site_web L J Y body_text base peer worlds other) callback_at FollowNo
       (jar1, serve_all L J Y rqs a, Suc n, z) = Some (r2, jar2, a2, Suc (Suc n), z)"
    "header_get_all (rs_headers r2) ''location'' = [uri]" "kept a a2"
    "signed_in L (app_config a) host jar2 a2 (cw_session_id w) d" "access_token d = ts_access_token tokens"
    "user_id d = vid_user_id v" "expires_at d = cw_now w + ts_expires_in tokens"
    "ends_at d = cw_now w + min (refresh_ttl (app_hydra a)) MAX_SESSION_LIFETIME"
proof -
  let ?c = "app_config a" and ?W = "site_web L J Y body_text base peer worlds other" and ?i = "cw_session_id w"
  let ?login = "login_cookie L ?c" and ?session = "session_cookie L ?c"
  have redirect: "redirect_uri (app_hydra a) = base @ ''/callback''" by (simp add: start(2,3) new_hydra_def callback_url_def)
  have site: "at_site base login_at = Some (''/login'', Some q0)" "at_site base callback_at = Some (''/callback'', Some q1)"
    using at_site_query [of "''/login''" base q0] at_site_query [of "''/callback''" base q1]
    by (simp_all add: urls(1,2) redirect starts_with_def)
  have codec: "codecs_ok L" "\<And>v. pct_decode L (pct_encode L v) = v" using codecs(1) by (auto simp: browser_codecs_def codecs_ok_def)
  from serve_login [OF layers asked(1-4) refl] obtain r1 where r1:
    "serve_public L J Y (worlds n) \<lparr>pq_method = ''GET'', pq_path = ''/login'', pq_query = Some q0,
       pq_headers = [] @ jar_header jar host, pq_peer = peer\<rparr> a = ((r1, Silent), a)"
    "start_login L a (t1, t2, t3) (Some uri) = Ok r1"
    "header_get_all (rsp_headers r1) ''location'' = [authorize_url L (app_hydra a) t1 t3 (pkce_challenge L t2)]" .
  define jar1 where "jar1 = store_cookies L host (rsp_headers r1) jar"
  obtain uri' where u: "opt_or (opt_filter (\<lambda>r. r \<noteq> []) (Some uri)) (default_redirect_uri ?c) = Some uri'"
    "jar1 host = Some (bt_insert ?login (pct_encode L (to_cookie_value L (new_pending_login t1 t2 t3 uri'))) (held jar host))"
    "jar_ok (held jar1 host)" unfolding jar1_def by (rule login_jar [OF codecs r1(2)])
  have "uri' = uri" using u(1) asked(3) by simp
  with u(2) have held1: "held jar1 host = bt_insert ?login (pct_encode L (to_cookie_value L (new_pending_login t1 t2 t3 uri))) (held jar host)"
    by (simp add: held_def)
  note jar1 = held1 u(3)
  note v1 = visit [where h = "[]" and worlds = worlds and n = n and body_text = body_text and other = other and bd = NoBody and v = z,
    OF urls(3) site(1) r1(1), folded jar1_def]
  define a1 where "a1 = serve_all L J Y rqs a"
  have a1: "app_wf a1" "app_config a1 = ?c" "app_hydra a1 = app_hydra a" "app_origins a1 = app_origins a"
    using kept_serve_all [OF others, of a L J Y] start(1) by (simp_all add: kept_def a1_def)
  have h1: "extract_cookie L (jar_header jar1 host) x = map_option (pct_decode L) (map_of (held jar1 host) x)" for x
    using jar_reads [OF codecs(1) jar1(2), of "[]"] by (simp add: header_get_def)
  have names: "?session \<noteq> ?login" using bff_cookie_names(5) [OF codecs(2)] .
  let ?p = "new_pending_login t1 t2 t3 uri"
  have p: "pl_state ?p = t1" "pl_nonce ?p = t3" "pl_redirect_uri ?p = uri" by (simp_all add: new_pending_login_def)
  have pending: "Option.bind (extract_cookie L (jar_header jar1 host) (login_cookie L (app_config a1))) (from_cookie_value L) = Some ?p"
    by (simp add: a1 h1 jar1(1) codec from_to_cookie_value)
  have fresh: "extract_cookie L (jar_header jar1 host) (session_cookie L (app_config a1)) \<noteq> Some ?i"
    using new_id(2) names by (simp add: a1 h1 jar1(1))
  let ?q = "\<lparr>cq_code = Some code, cq_state = Some t1, cq_error = None\<rparr>"
  have cq: "cq_error ?q = None" "cq_code ?q = Some code" "cq_state ?q = Some (pl_state ?p)"
    "pl_redirect_uri ?p \<in> set (redirect_uri_allowlist (app_config a1))" "granted L J a1 w (pl_nonce ?p) tokens v"
    using asked(2) grant(3) [folded a1_def] by (simp_all add: p a1)
  from callback_succeeds [OF pending cq a1(1) fresh new_id(3) [folded a1_def]]
  obtain r2 a2 d where r2: "callback L J a1 w (jar_header jar1 host) ?q = (Ok r2, a2)" "kept a1 a2"
    "header_get_all (rsp_headers r2) ''location'' = [pl_redirect_uri ?p]" "get_session (app_sessions a2) ?i = Some d"
    "access_token d = ts_access_token tokens" "user_id d = vid_user_id v" "expires_at d = cw_now w + ts_expires_in tokens"
    "ends_at d = cw_now w + min (refresh_ttl (app_hydra a1)) MAX_SESSION_LIFETIME" .
  define jar2 where "jar2 = store_cookies L host (rsp_headers r2) jar1"
  have s2: "serve_public L J Y (worlds (Suc n)) \<lparr>pq_method = ''GET'', pq_path = ''/callback'', pq_query = Some q1,
      pq_headers = [] @ jar_header jar1 host, pq_peer = peer\<rparr> a1 = ((r2, Silent), a2)"
    using serve_callback [OF layers grant(1), of L J a1 "worlds (Suc n)" "jar_header jar1 host" r2 a2 peer] r2(1) grant(2) by simp
  note v2 = visit [where h = "[]" and worlds = worlds and n = "Suc n" and body_text = body_text and other = other and bd = NoBody and v = z,
    OF urls(4) site(2) s2, folded jar2_def]
  have ttl: "0 < session_max_age_secs (refresh_ttl (app_hydra a1))"
    using codecs(2) by (auto simp: check_settings_def a1(3) start(2) new_hydra_def session_max_age_secs_def num_seconds_def
        seconds_def MAX_SESSION_LIFETIME_def min_def)
  note jar2 = callback_jar [OF codecs(1) codecs(2) [folded a1(2)] jar1(2) r2(1) ttl new_id(1), folded jar2_def, unfolded a1(2)]
  have held2: "held jar2 host = AList.delete ?login (bt_insert ?session (pct_encode L ?i) (held jar1 host))"
    using jar2(1) by (simp add: held_def)
  have a2: "app_wf a2" "app_config a2 = ?c" "kept a a2"
    using r2(2) a1 by (simp_all add: kept_def)
  have "signed_in L ?c host jar2 a2 ?i d"
    using r2(4) jar2(2) names a2 by (simp add: signed_in_def held2 map_of_delete)
  note si = this
  have g1: "browser_get L U ?W login_at FollowNo (jar, a, n, z) = Some (\<lparr>rs_status = rsp_status r1, rs_headers = rsp_headers r1,
      rs_body = body_text Silent, rs_url = login_at\<rparr>, jar1, a, Suc n, z)" using v1 by (simp only: browser_get_def)
  have g2: "browser_get L U ?W callback_at FollowNo (jar1, serve_all L J Y rqs a, Suc n, z) =
      Some (\<lparr>rs_status = rsp_status r2, rs_headers = rsp_headers r2, rs_body = body_text Silent, rs_url = callback_at\<rparr>,
        jar2, a2, Suc (Suc n), z)" using v2 by (simp only: browser_get_def a1_def)
  show thesis
    by (rule that [OF g1 _ g2 _ a2(3) si r2(5-7)]) (use r1(3) r2(3,8) in \<open>simp_all add: p a1(3)\<close>)
qed


text \<open>An answer of the proxy sets no cookie.\<close>

lemma guard_sets_no_cookie: "header_get_all (rsp_headers (guard_response L r)) ''set-cookie'' = []"
  by (simp add: guard_response_def Let_def keep_out_other header_get_all_allowed_distinct [OF distinct_header_lists(2)])
    (simp add: RESPONSE_HEADERS_def)

lemma ask_api:
  assumes "browser_codecs L" "signed_in L (app_config a) host jar a i d"
    and "\<And>b k. ly_admit Y b k = None" "api_at = base @ path" "starts_with path ''/''" "CHR ''?'' \<notin> set path" "plain_url U host api_at"
    and "public_route (ly_mounted Y) (app_config a) ''GET'' path = Proxied b up rest" "is_clean_path L path"
    and "header_value L (''Bearer '' @ access_token d)"
    and "rw_t1 (pw_resolve (worlds n)) < ends_at d" "is_fresh (rw_t2 (pw_resolve (worlds n))) d"
    and "r = guard_response L (ly_upstream Y up rest [(''authorization'', ''Bearer '' @ access_token d)])"
  obtains r3 jar' where
    "browser_get L U (site_web L J Y body_text base peer worlds other) api_at FollowNo (jar, a, n, z) = Some (r3, jar', a, Suc n, z)"
    "rs_status r3 = rsp_status r" "rs_headers r3 = rsp_headers r" "signed_in L (app_config a) host jar' a i d"
proof -
  let ?rq = "\<lparr>req_method = ''GET'', req_path = path, req_headers = [] @ jar_header jar host\<rparr>"
  have in_jar: "jar_ok (held jar host)" "map_of (held jar host) (session_cookie L (app_config a)) = Some (pct_encode L i)"
    and there: "get_session (app_sessions a) i = Some d" using assms(2) by (simp_all add: signed_in_def)
  have "pct_decode L (pct_encode L i) = i" using assms(1) by (simp add: browser_codecs_def codecs_ok_def)
  then have "extract_cookie L ([] @ jar_header jar host) (session_cookie L (app_config a)) = Some i"
    using jar_reads [OF assms(1) in_jar(1), of "[]"] in_jar(2) by (simp add: header_get_def)
  with assms(9-12) there have "authenticate L a (pw_resolve (worlds n)) (ly_upstream Y up rest) ?rq =
      (Ok ([(''authorization'', ''Bearer '' @ access_token d)], r), a)"
    using authenticate_succeeds [of L ?rq a i d "pw_resolve (worlds n)" "ly_upstream Y up rest"]
    by (simp add: needs_trusted_origin_def upstream_headers_jar Let_def assms(13))
  from serve_api [OF assms(3,8) this, of J None peer]
  have s: "serve_public L J Y (worlds n) \<lparr>pq_method = ''GET'', pq_path = path, pq_query = None,
      pq_headers = [] @ jar_header jar host, pq_peer = peer\<rparr> a = ((r, Streamed), a)" by simp
  have site: "at_site base api_at = Some (path, None)" using at_site_path [OF assms(6,5)] assms(4) by simp
  have "store_cookies L host (rsp_headers r) jar = jar(host \<mapsto> held jar host)"
    using guard_sets_no_cookie by (simp add: store_cookies_def assms(13) held_def)
  then have "signed_in L (app_config a) host (store_cookies L host (rsp_headers r) jar) a i d"
    using assms(2) by (simp add: signed_in_def held_def)
  with visit [where h = "[]" and worlds = worlds and n = n and body_text = body_text and other = other and bd = NoBody and v = z,
      OF assms(7) site s, folded browser_get_def] that
  show thesis by (simp only: resp.simps)
qed

lemma log_out:
  assumes "browser_codecs L" "check_settings L prof (app_config a) = Ok ()" "signed_in L (app_config a) host jar a i d"
    and "\<And>b k. ly_admit Y b k = None" "ly_pairs Y [] = []" "plain_url U host (base @ ''/logout'')"
    and "origin \<in> set (app_origins a)" "header_str L origin = Some origin"
  obtains r4 jar' a' where
    "browser_post_form L U (site_web L J Y body_text base peer worlds other) (base @ ''/logout'') [] [(''origin'', origin)] FollowNo
       (jar, a, n, z) = Some (r4, jar', a', Suc n, z)"
    "kept a a'" "jar_ok (held jar' host)" "map_of (held jar' host) (session_cookie L (app_config a)) = None"
proof -
  let ?h = "[(''origin'', origin)] @ jar_header jar host"
  have "request_origin L ?h = Inr origin"
    using assms(8) by (simp add: request_origin_def header_get_def map_add_def jar_header_def Let_def)
  with assms(7) have "require_trusted_origin L ?h (app_origins a) = Inr ()" by (simp add: require_trusted_origin_ok)
  then obtain r a' where lo: "logout L a ?h None = (Ok r, a')" by (simp add: logout_def Let_def case_prod_beta)
  have site: "at_site base (base @ ''/logout'') = Some (''/logout'', None)"
    using at_site_path [of "''/logout''" base] by (simp add: starts_with_def)
  have ok: "jar_ok (held jar host)" using assms(3) by (simp add: signed_in_def)
  note j = logout_jar [OF assms(1,2) ok lo]
  from j(1) have "map_of (held (store_cookies L host (rsp_headers r) jar) host) (session_cookie L (app_config a)) = None"
    by (simp add: held_def map_of_delete)
  with visit [where worlds = worlds and n = n and body_text = body_text and other = other and bd = "FormBody []" and v = z,
      OF assms(6) site serve_logout [OF assms(4,5) lo, of J "worlds n" peer], folded browser_post_form_def]
    kept_logout [OF lo] j(2) that
  show thesis by blast
qed

text \<open>Without a session in its jar, a browser gets 401 from an API.\<close>

lemma signed_out:
  assumes "browser_codecs L" "jar_ok (held jar host)" "map_of (held jar host) (session_cookie L (app_config a)) = None"
    and "\<And>b k. ly_admit Y b k = None" "api_at = base @ path" "starts_with path ''/''" "CHR ''?'' \<notin> set path" "plain_url U host api_at"
    and "public_route (ly_mounted Y) (app_config a) ''GET'' path = Proxied b up rest" "is_clean_path L path"
  obtains r jar' where
    "browser_get L U (site_web L J Y body_text base peer worlds other) api_at FollowNo (jar, a, n, z) = Some (r, jar', a, Suc n, z)"
    "rs_status r = 401"
proof -
  have "extract_cookie L ([] @ jar_header jar host) (session_cookie L (app_config a)) = None"
    using jar_reads [OF assms(1,2), of "[]"] assms(3) by (simp add: header_get_def)
  with assms(10) have "authenticate L a (pw_resolve (worlds n)) (ly_upstream Y up rest)
      \<lparr>req_method = ''GET'', req_path = path, req_headers = [] @ jar_header jar host\<rparr> = (Err ProxyUnauthenticated, a)"
    by (simp add: authenticate_def needs_trusted_origin_def)
  from serve_api [OF assms(4,9) this, of J None peer] obtain r b' where
    s: "serve_public L J Y (worlds n) \<lparr>pq_method = ''GET'', pq_path = path, pq_query = None,
      pq_headers = [] @ jar_header jar host, pq_peer = peer\<rparr> a = ((r, b'), a)" "rsp_status r = 401"
    by (simp add: refusal_def json_served_def error_body_def)
  have site: "at_site base api_at = Some (path, None)" using at_site_path [OF assms(7,6)] assms(5) by simp
  from visit [where h = "[]" and worlds = worlds and n = n and body_text = body_text and other = other and bd = NoBody and v = z,
      OF assms(8) site s(1), folded browser_get_def] s(2) that
  show thesis by (simp only: resp.simps)
qed




section \<open>An example\<close>

text \<open>Somebody asks for \<open>/health\<close> after every step.\<close>

definition site_config :: config where
  "site_config = demo_config\<lparr>hydra_public_url := [],
     routes := [\<lparr>path_prefix = ''/gb'', upstream_url = ''https://api.test''\<rparr>]\<rparr>"

definition demo_site :: app_state where
  "demo_site = (demo_app empty_sessions)\<lparr>app_config := site_config, app_hydra := new_hydra site_config\<rparr>"

definition demo_site_layers :: bff_layers where
  "demo_site_layers = demo_layers\<lparr>
     ly_pairs := (\<lambda>q. if q = ''a'' then [(''redirect_uri'', ''https://app.test/'')]
       else if q = ''b'' then [(''code'', ''c''), (''state'', ''s'')] else []),
     ly_mounted := (\<lambda>ps p. if p = ''/gb'' then Some (''/gb'', ''/'') else None)\<rparr>"

definition demo_visit :: public_world where
  "demo_visit = \<lparr>pw_tokens = (''s'', ''v'', ''n''), pw_callback = demo_world,
     pw_resolve = demo_resolve\<lparr>rw_t1 := seconds 100, rw_t2 := seconds 100\<rparr>\<rparr>"

definition demo_stranger :: "public_world \<times> public_request" where
  "demo_stranger = (demo_visit\<lparr>pw_callback := demo_world\<lparr>cw_session_id := ''x'', cw_answer := Inl ''down''\<rparr>\<rparr>,
     \<lparr>pq_method = ''GET'', pq_path = ''/health'', pq_query = None, pq_headers = [], pq_peer = None\<rparr>)"

definition demo_urls :: url_libs where
  "demo_urls = \<lparr>url_parse = Some, url_join = (\<lambda>u v. Some v), url_hostname = (\<lambda>u. Some ''bff''), url_pairs = (\<lambda>u. [])\<rparr>"

lemma demo_stranger_strange: "strange codec_libs demo_jwt site_config ''new'' 65 demo_stranger"
  by (simp add: strange_def demo_stranger_def whole_def demo_visit_def demo_resolve_def extract_cookie_def header_get_def
      demo_world_def token_request_def)

lemma demo_stranger_served: "serve_all L J demo_site_layers [demo_stranger] a = a"
  by (simp add: demo_stranger_def serve_public_def public_route_def own_routes_def method_ok_def endpoint_bucket_def
      limited_def run_endpoint_def)

definition demo_token_set :: token_set where
  "demo_token_set = \<lparr>ts_access_token = ''at2'', ts_refresh_token = Some ''rt2'', ts_id_token = Some ''it2'', ts_expires_in = seconds 900\<rparr>"

lemma demo_granted: "granted codec_libs demo_jwt demo_site demo_world ''n'' demo_token_set \<lparr>vid_user_id = 65, vid_sid = None\<rparr>"
proof -
  have "verify_id_token codec_libs demo_jwt (new_hydra site_config) empty_jwks_cache 0 0 (Inr demo_keys) ''it2'' ''at2'' ''n''
   = (Ok \<lparr>vid_user_id = 65, vid_sid = None\<rparr>, \<lparr>cached_keys = Some (demo_keys, 0), last_attempt = Some 0\<rparr>)"
    by (simp add: verify_id_token_def verify_id_with_def demo_jwt_def codec_libs_def demo_libs_def new_hydra_def
        site_config_def demo_config_def default_config_def keys_for_def fresh_keys_def stale_keys_def throttled_def empty_jwks_cache_def
        jws_kid_def unverified_part_def nth_part_def payload_text_def same_issuer_def trim_slashes_def
        trim_end_matches_def check_at_hash_def byte_def Let_def read_pending_def)
  moreover have "token_request codec_libs (cw_answer demo_world) = Ok demo_token_set"
    by (simp add: demo_world_def demo_token_set_def)
  ultimately show ?thesis
    by (simp add: granted_def demo_token_set_def demo_site_def demo_world_def demo_app_def)
qed

lemma demo_site_url: "trim_slashes (bff_url site_config) = ''http://localhost:8080''"
  by (simp add: site_config_def demo_config_def default_config_def trim_slashes_def trim_end_matches_def)

lemma demo_site_parts:
  "app_config demo_site = site_config" "app_hydra demo_site = new_hydra site_config" "app_wf demo_site"
  "app_origins demo_site = [''https://app.test'']" "app_sessions demo_site = empty_sessions"
  using demo_app_wf [OF empty_sessions_wf] by (simp_all add: demo_site_def demo_app_def app_wf_def)

lemma demo_api_route:
  "public_route (ly_mounted demo_site_layers) site_config ''GET'' ''/gb'' = Proxied ProxyBucket ''https://api.test'' ''/''"
  by (simp add: public_route_def own_routes_def demo_site_layers_def site_config_def demo_config_def proxy_route_def nested_routes_def)

lemma site_settings: "check_settings codec_libs Prod site_config = Ok ()"
  by (simp add: codec_libs_def site_config_def demo_config_def default_config_def demo_libs_def settings_simps redirect_uri_ok_def
      is_cookie_token_def session_cookie_def login_cookie_def cookie_name_def secure_cookies_def
      has_prefix_def get_to_def char_boundary_def HOST_COOKIE_PREFIX_def SECURE_COOKIE_PREFIX_def
      eq_ignore_ascii_case_def to_ascii_lowercase_def ascii_lower_def byte_def LOGIN_COOKIE_def
      COMMITTED_DEV_SECRETS_def MIN_PROD_API_KEY_LEN_def MAX_REFRESH_TOKEN_TTL_SECS_def
      DEFAULT_REFRESH_TOKEN_TTL_SECS_def is_route_prefix_def RESERVED_PREFIXES_def upstream_ok_def
      is_ascii_alphanumeric_def is_ascii_graphic_def check_origin_def starts_with_def Let_def)


end
