(* ===== verification/Spec2Isabelle.thy ===== *)
theory Spec2Isabelle
  imports RefreshLock BffLogout Challenges LoginProxy LoginRuns TokenHook Revocation Registration HooksServer
    Launcher I18n Markup Render Pages LoginConfig BffRouter BffServer LoginServer Lockout ErrorEnums UserStore SignIn Flows TestIdp
    StoreTests ThrottleTests GuardTests Settings Journey
begin

text \<open>
  A verification development for WeaveAuth: the three Rust services around Ory Kratos (identities) and
  Ory Hydra (OAuth2), and the launcher that runs them in one container.

  \<^bold>\<open>The program.\<close> \<open>bff\<close> is Hydra's OAuth2 client. It starts logins, redeems their codes, keeps tokens in a
  session store, proxies API calls with a bearer token that it refreshes, and ends sessions at a logout,
  at Hydra's back-channel logout, or when \<open>hooks\<close> asks on its internal listener. \<open>login\<close> renders
  Kratos' flows, answers Hydra's logout and consent challenges, and is the only way from a browser to
  Kratos; it throttles password attempts. \<open>hooks\<close> is called by Kratos and Hydra: it gives tokens their
  claims, hands registrations to the deployer, and ends every other way into an account after a recovery
  or a password change.

  \<^bold>\<open>How code is modelled.\<close> A handler is a function of its request, its state and what the outside gave it; it
  returns its answer and the new state. A \<open>Result\<close> is a sum (\<open>Err\<close>, \<open>Ok\<close>), an enum a datatype, a struct a
  record. Text is the list of its UTF-8 bytes. Times are nanoseconds as integers, and the clocks a handler
  reads are arguments, one for each reading. Integers that can wrap or saturate are words. A \<open>HashMap\<close> is
  an association list with distinct keys. Random tokens, nonces and the order of equal elements are
  arguments. Third-party functions are fields of records: \<open>libs\<close> (\<open>Web\<close>: JSON, URLs, percent and base64
  coding, SHA-256), \<open>jwt_libs\<close> (\<open>Tokens\<close>: JWTs), \<open>login_libs\<close> (\<open>LoginState\<close>: URL joining, Tera),
  \<open>hook_libs\<close> (\<open>HooksClients\<close>). The theorems hold for all of them, or name what they rely on as a
  hypothesis. What Kratos, Hydra and the deployer's endpoints answer is arbitrary. A call that may never
  return gives \<open>None\<close>; a budget turns that into a failure.

  \<^bold>\<open>Shared theories.\<close>
  \<^item> \<open>Prelude\<close>: results, text and maps; \<open>Web\<close>: headers, JSON, URLs, addresses, responses; \<open>JsonRead\<close>: reading
    structs with defaults, requests and answers.
  \<^item> \<open>Extractors\<close> (\<open>common/src/extract.rs\<close>): queries and forms.
  \<^item> \<open>RateLimit\<close> (\<open>common/src/rate_limit.rs\<close>): the client a request is counted for cannot be chosen by it.

  \<^bold>\<open>bff.\<close>
  \<^item> \<open>Session\<close>, \<open>Storage\<close>, \<open>InMemory\<close>, \<open>StoreRuns\<close> (\<open>bff/src/model/session.rs\<close>, \<open>bff/src/storage\<close>): sessions; the
    storage traits as the locales \<open>session_storage\<close>, \<open>jti_storage\<close> and \<open>expiry_maintenance\<close>, with what a client
    may rely on proved inside them; the in-memory stores, which interpret the locales; and what holds after
    every sequence of operations (the index agrees with the table, at most 20 sessions per user, a session
    that is gone stays gone, a token id accepted once is refused). \<open>StoreTests\<close>: the unit tests of the stores, run
    on the model.
  \<^item> \<open>Cookie\<close> (\<open>bff/src/server/secrets.rs\<close>, \<open>cookie.rs\<close>, \<open>login_cookie.rs\<close>); \<open>BffConfig\<close>
    (\<open>bff/src/config.rs\<close>): the derived settings, and what a configuration that loads promises. \<open>GuardTests\<close>: the unit
    tests of the cookies, the secrets and the origin check, run on the model.
  \<^item> \<open>Jwks\<close>, \<open>HydraClient\<close>, \<open>Tokens\<close> (\<open>bff/src/hydra\<close>): the key cache with its two clocks; requests to Hydra
    and the classes of its answers; the verification of id_tokens and logout tokens.
  \<^item> \<open>BffApp\<close> (\<open>bff/src/server/mod.rs\<close>, \<open>rate_limit.rs\<close>, \<open>origin_check.rs\<close>); \<open>BffLogin\<close> (\<open>login.rs\<close>, \<open>callback.rs\<close>);
    \<open>BffLogout\<close> (\<open>logout.rs\<close>, \<open>logged_out.rs\<close>, \<open>backchannel_logout.rs\<close>, \<open>internal_revoke.rs\<close>); \<open>Proxy\<close>
    (\<open>proxy.rs\<close>): the handlers with all their branches.
  \<^item> \<open>BffRouter\<close> (\<open>bff/src/server/router.rs\<close>): the routes of the two listeners; no configured route is dead.
  \<^item> \<open>RefreshLock\<close> (\<open>bff/src/server/refresh_lock.rs\<close>): the per-session locks with their reference counts, and a
    step relation of requests that interleave between their awaits. Over its reachable states a session is
    refreshed by one request at a time, no rotated token is presented, and no request waits forever for a
    lock that nobody holds.

  \<^item> \<open>Runs\<close>, \<open>BffRuns\<close>: a running bff as a step relation over its shared state, each handler cut at its awaits, with a
    trace of what happened to sessions. The locales \<open>machine\<close> and \<open>refined_machine\<close> carry invariants and
    simulations along runs; interpreted here, the session table refines an abstract register of sessions, and
    a session that was closed is closed for good. Whole handlers are shown to be runs of these steps.
  \<^item> \<open>BffServer\<close>: the two listeners as functions from a request to its answer and the new state, with the rate
    limit, the extractors and the errors as they are sent. A public request touches no session but its own.

  \<^bold>\<open>login.\<close>
  \<^item> \<open>LoginConfig\<close> (\<open>login/src/config.rs\<close>, \<open>common/src/config.rs\<close>): loading the settings.
  \<^item> \<open>Throttle\<close> (\<open>login/src/throttle.rs\<close>): runs of admissions and their outcomes; the spacing of attempts is
    stated over any run of events with a clock that does not go back. \<open>ThrottleTests\<close>: its unit tests, run on the model.
  \<^item> \<open>LoginState\<close> (\<open>lib.rs\<close>, \<open>upstream.rs\<close>, \<open>hydra.rs\<close>, \<open>kratos.rs\<close>), \<open>Challenges\<close> (\<open>challenges.rs\<close>), \<open>LoginProxy\<close>
    (\<open>proxy.rs\<close>): the clients of Kratos and Hydra, consent and logout, and the guarded way to Kratos.
  \<^item> \<open>LoginRuns\<close>: the proxy's requests, their answers, the sweep and the clock as a step relation; over its
    reachable states the throttle bounds how often Kratos is asked about one identifier.
  \<^item> \<open>I18n\<close> (\<open>login/src/i18n.rs\<close>): locale files with all their checks, the choice of a language, texts with
    placeholders. The check of a text at startup and the filling of it later agree on its placeholders.
  \<^item> \<open>Markup\<close>, \<open>Render\<close> (\<open>login/src/render.rs\<close>, the flow types of \<open>kratos.rs\<close>): a reader of HTML as the reference,
    the round trip of printing and reading tokens, and the renderers of a flow's nodes, whose output reads as
    tags of a fixed vocabulary with safe targets.
  \<^item> \<open>Pages\<close> (\<open>login/src/pages.rs\<close>, the routes of \<open>lib.rs\<close>): the flow pages and where they send a browser.
  \<^item> \<open>LoginServer\<close> (\<open>login/src/lib.rs\<close>): the listener as a function from a request to its answer; every page it
    answers with has a policy under which only the page's own script runs.

  \<^bold>\<open>hooks and the launcher.\<close>
  \<^item> \<open>HooksClients\<close> (\<open>hooks/src/clients\<close>, \<open>webhook.rs\<close>), \<open>HooksApp\<close> (\<open>server/mod.rs\<close>, \<open>auth.rs\<close>): calls to a world
    that answers anything or nothing, with a log of the calls and their answers. Calls that are joined go out in
    any order (\<open>io_join\<close>).
  \<^item> \<open>TokenHook\<close>, \<open>Revocation\<close>, \<open>Registration\<close> (\<open>hooks/src/server/api\<close>, \<open>profile_api.rs\<close>): the hooks. Their theorems
    speak of the log: what was asked, and what was answered when a hook reports success.
  \<^item> \<open>HooksServer\<close> (\<open>hooks/src/config.rs\<close>, \<open>cli.rs\<close>, \<open>server/router.rs\<close>, \<open>common/src/extract.rs\<close>): settings, command
    line, routes behind the API key.
  \<^item> \<open>Launcher\<close> (\<open>launcher/src/main.rs\<close>).
  \<^item> \<open>ErrorDerive\<close> (\<open>common/macros/src/lib.rs\<close>, \<open>common/src/error.rs\<close>): the derive that turns an error enum into its
    responses, from the enum's syntax to the generated matches and what they answer; \<open>ErrorEnums\<close>: the
    twelve enums it is used on, and that what it makes of them is what the handlers' models answer.

  \<^item> \<open>Settings\<close> (\<open>common/src/config.rs\<close> and each service's \<open>config.rs\<close>): the \<open>.env\<close> file, the YAML file and the
    environment laid over the defaults, how the settings are read out of them, and the three \<open>Config::load\<close> as
    functions of the host. Which layer wins; a bff whose deployer did not ask for dev keeps production's promises.

  \<^bold>\<open>Services together.\<close>
  \<^item> \<open>Worlds\<close>: the log of a hook tells what its world went through; \<open>Lockout\<close>
    (\<open>bff/src/server/api/internal_revoke.rs\<close>): hooks run against a running bff over a network that loses
    requests and answers. A recovery reported as done has locked every earlier session out.
  \<^item> \<open>SignIn\<close>: the request of a login at bff is one login's consent accepts.
  \<^item> \<open>UserStore\<close> (\<open>testing/user-service\<close>): hooks run against the user store that ships for local use, across its
    restarts: what a user registers with is in the user's tokens.
  \<^item> \<open>Browser\<close> (\<open>system-tests/src/support/browser.rs\<close>): the browser of the system tests. With it, the cookies bff
    sets are followed through a login and a logout.
  \<^item> \<open>Journey\<close>: bff's public listener as a site of the web that browser moves in. A sign-in, an API call and a logout
    from end to end, with any requests of other people served in between.
  \<^item> \<open>TestIdp\<close>, \<open>Doubles\<close>, \<open>Flows\<close> (\<open>idp.rs\<close>, \<open>stubs.rs\<close>, \<open>edge.rs\<close>, \<open>flows.rs\<close>, \<open>testing/downstream-service\<close>): the stand-ins
    around the services and the flows driven through them. The nonce of a sign-in comes back in its token; the
    scan for a mailed code finds what the pattern it stands for finds; the token the upstream is shown is the
    one of the browser's session, and no cookie with it.

  \<^bold>\<open>Bounds and fuel.\<close> No definition uses fuel: recursion is structural, or terminates by a measure (the length of
  the text still to be read, in \<open>Markup\<close>, \<open>I18n\<close>, \<open>Flows\<close> and \<open>Prelude\<close>). The loops of the source that are bounded
  keep their bounds (\<open>MAX_SESSION_ROUNDS\<close>, \<open>MAX_LANGUAGE_TAGS\<close>, \<open>MAX_TRACKED\<close>, \<open>MAX_REDIRECTS\<close>, the sixty looks for a
  mail); running out of the last two is the panic it is in the code. The launcher's endless loop runs over
  the rounds that happen; it has no result as long as every service runs.

  \<^bold>\<open>What is not modelled.\<close> The crates themselves: axum's and tower's routing and layers, CORS, the buckets of
  governor, the forwarding of axum-reverse-proxy, figment's parsing and merging, Tera's engine, reqwest, serde's derived
  readers of flattened and tagged enums (a flow's nodes; how an unknown kind with attributes is read is decided
  in serde's generated code). Binding listeners, spawning tasks, logging, reading files and
  processes are I/O. The token revocations that bff joins are logged in the order of their
  sessions; nothing reads their answers. Not in Rust, and so outside: page templates, the browser script, Kratos' and Hydra's configuration.
  Of the system tests, the tests themselves, and starting the containers they run against, are left out.

  \<^bold>\<open>Next.\<close> The login service as a second site of the web in \<open>Journey\<close>, and hooks' calls interleaved with each other.
\<close>

end
